(* ===== verification/Prelude.thy ===== *)
theory Prelude
  imports Main "HOL-Library.Word" "HOL-Library.Monad_Syntax" "HOL-Library.AList"
begin

text \<open>
  Shared vocabulary of the development: machine integers, byte strings, and the part of the
  Rust language and standard library that the modelled sources use.

  A Rust expression that may panic (an index or a slice out of range) is a value of type
  \<open>'a rs\<close>: \<open>None\<close> is the panic and \<open>Some v\<close> a normal result. Rust's own
  \<open>Option<T>\<close> is HOL's \<open>'a option\<close>, so a function returning \<open>Option<T>\<close> whose
  body can panic has type \<open>'a option rs\<close>. A \<open>usize\<close> is a \<open>nat\<close>: the crates are
  built for 64-bit targets and a slice never exceeds \<open>isize::MAX\<close> bytes, so the plain
  additions of the sources (always a position inside a slice plus a small constant or a field of
  at most four bytes) cannot wrap; \<open>checked_add\<close> keeps its bound explicitly.

  \<open>wp\<close> and \<open>wlp\<close> with the rules in \<open>wp_rules\<close> are a small calculus for such computations: \<open>wp c P\<close>
  says that \<open>c\<close> does not panic and its result satisfies \<open>P\<close>, \<open>wlp c P\<close> only the latter.
\<close>

unbundle bit_operations_syntax

named_theorems no_panic \<open>facts saying that an operation never panics\<close>
named_theorems wp_rules \<open>computation of the weakest precondition\<close>
named_theorems in_bounds \<open>bounds on positions and lengths returned by parsers\<close>
named_theorems rust_defs \<open>defining equations of the library operations\<close>

type_synonym u8 = "8 word"
type_synonym u16 = "16 word"
type_synonym u32 = "32 word"
type_synonym u64 = "64 word"
type_synonym usize = nat
type_synonym bytes = "u8 list"
type_synonym 'a rs = "'a option"
type_synonym timestamp = int

section \<open>Slices\<close>

text \<open>\<open>xs[i]\<close> (\<open>None\<close>: panic) and \<open>xs.get(i)\<close> (\<open>None\<close>: Rust's \<open>None\<close>).\<close>

definition idx :: "'a list \<Rightarrow> usize \<Rightarrow> 'a option" where
  [rust_defs]: "idx xs i = (if i < length xs then Some (xs ! i) else None)"

text \<open>\<open>xs[a..b]\<close> and \<open>xs.get(a..b)\<close>.\<close>

definition slice :: "'a list \<Rightarrow> usize \<Rightarrow> usize \<Rightarrow> 'a list option" where
  [rust_defs]: "slice xs a b = (if a \<le> b \<and> b \<le> length xs then Some (take (b - a) (drop a xs)) else None)"

text \<open>\<open>xs[a..]\<close> and \<open>xs.get(a..)\<close>.\<close>

definition slice_from :: "'a list \<Rightarrow> usize \<Rightarrow> 'a list option" where
  [rust_defs]: "slice_from xs a = (if a \<le> length xs then Some (drop a xs) else None)"

text \<open>\<open>e?\<close> in a function that returns \<open>Option\<close>.\<close>

definition tryo :: "'a option \<Rightarrow> ('a \<Rightarrow> 'b option rs) \<Rightarrow> 'b option rs" where
  "tryo x f = (case x of None \<Rightarrow> Some None | Some v \<Rightarrow> f v)"

text \<open>\<open>let Some(v) = e else { return r }\<close>.\<close>

definition let_else :: "'a option \<Rightarrow> 'b \<Rightarrow> ('a \<Rightarrow> 'b rs) \<Rightarrow> 'b rs" where
  "let_else x r f = (case x of None \<Rightarrow> Some r | Some v \<Rightarrow> f v)"

lemma idx_Some_iff: "idx xs i = Some x \<longleftrightarrow> i < length xs \<and> x = xs ! i"
  by (auto simp: idx_def)

lemma idx_None_iff [simp]: "idx xs i = None \<longleftrightarrow> length xs \<le> i"
  by (auto simp: idx_def)

lemma idx_in [simp]: "i < length xs \<Longrightarrow> idx xs i = Some (xs ! i)"
  by (simp add: idx_def)

lemma slice_Some_iff:
  "slice xs a b = Some ys \<longleftrightarrow> a \<le> b \<and> b \<le> length xs \<and> ys = take (b - a) (drop a xs)"
  by (auto simp: slice_def)

lemma slice_None_iff [simp]: "slice xs a b = None \<longleftrightarrow> b < a \<or> length xs < b"
  by (auto simp: slice_def)

lemma slice_in [simp]: "a \<le> b \<Longrightarrow> b \<le> length xs \<Longrightarrow> slice xs a b = Some (take (b - a) (drop a xs))"
  by (simp add: slice_def)

lemma length_slice: "slice xs a b = Some ys \<Longrightarrow> length ys = b - a"
  by (auto simp: slice_Some_iff)

lemma slice_from_Some_iff: "slice_from xs a = Some ys \<longleftrightarrow> a \<le> length xs \<and> ys = drop a xs"
  by (auto simp: slice_from_def)

lemma slice_from_None_iff [simp]: "slice_from xs a = None \<longleftrightarrow> length xs < a"
  by (auto simp: slice_from_def)

lemma slice_from_in [simp]: "a \<le> length xs \<Longrightarrow> slice_from xs a = Some (drop a xs)"
  by (simp add: slice_from_def)

lemma tryo_simps [simp]:
  "tryo None f = Some None"
  "tryo (Some v) f = f v"
  by (simp_all add: tryo_def)

lemma tryo_eq_None [simp]: "tryo x f = None \<longleftrightarrow> (\<exists>v. x = Some v \<and> f v = None)"
  by (cases x) auto

lemma tryo_eq_Some_Some: "tryo x f = Some (Some w) \<longleftrightarrow> (\<exists>v. x = Some v \<and> f v = Some (Some w))"
  by (cases x) auto

lemma let_else_simps [simp]:
  "let_else None r f = Some r"
  "let_else (Some v) r f = f v"
  by (simp_all add: let_else_def)

lemma let_else_eq_None [simp]: "let_else x r f = None \<longleftrightarrow> (\<exists>v. x = Some v \<and> f v = None)"
  by (cases x) auto

lemma let_else_eq_True: "let_else x False f = Some True \<longleftrightarrow> (\<exists>v. x = Some v \<and> f v = Some True)"
  by (cases x) auto

lemma bind_None_iff: "Option.bind x f = None \<longleftrightarrow> x = None \<or> (\<exists>v. x = Some v \<and> f v = None)"
  by (cases x) auto

section \<open>Total correctness\<close>

text \<open>\<open>wp m P\<close>: the computation \<open>m\<close> does not panic and its result satisfies \<open>P\<close>. The rules in
  the collection \<open>wp_rules\<close> compute it along the structure of a definition, and \<open>wp_call\<close> uses the
  specification of a function at a call.\<close>

definition wp :: "'a rs \<Rightarrow> ('a \<Rightarrow> bool) \<Rightarrow> bool" where
  "wp m P \<longleftrightarrow> (\<exists>v. m = Some v \<and> P v)"

lemma wp_Some [wp_rules]: "wp (Some v) P \<longleftrightarrow> P v"
  by (simp add: wp_def)

lemma wp_bind [wp_rules]: "wp (Option.bind m f) P \<longleftrightarrow> wp m (\<lambda>v. wp (f v) P)"
  by (cases m) (simp_all add: wp_def)

lemma wp_tryo [wp_rules]:
  "wp (tryo x f) P \<longleftrightarrow> (x = None \<longrightarrow> P None) \<and> (\<forall>v. x = Some v \<longrightarrow> wp (f v) P)"
  by (cases x) (simp_all add: wp_def)

lemma wp_let_else [wp_rules]:
  "wp (let_else x r f) P \<longleftrightarrow> (x = None \<longrightarrow> P r) \<and> (\<forall>v. x = Some v \<longrightarrow> wp (f v) P)"
  by (cases x) (simp_all add: wp_def)

lemma wp_if [wp_rules]: "wp (if b then m else n) P \<longleftrightarrow> (b \<longrightarrow> wp m P) \<and> (\<not> b \<longrightarrow> wp n P)"
  by simp

lemma wp_case_option [wp_rules]:
  "wp (case x of None \<Rightarrow> m | Some v \<Rightarrow> f v) P \<longleftrightarrow>
     (x = None \<longrightarrow> wp m P) \<and> (\<forall>v. x = Some v \<longrightarrow> wp (f v) P)"
  by (cases x) simp_all

lemma wp_case_prod [wp_rules]: "wp (case x of (a, b) \<Rightarrow> f a b) P \<longleftrightarrow> (\<forall>a b. x = (a, b) \<longrightarrow> wp (f a b) P)"
  by (cases x) simp

lemma wp_Let [wp_rules]: "wp (Let v f) P \<longleftrightarrow> wp (f v) P"
  by simp

lemma wp_idx [wp_rules]: "wp (idx xs i) P \<longleftrightarrow> i < length xs \<and> P (xs ! i)"
  by (simp add: wp_def idx_Some_iff)

lemma wp_slice [wp_rules]:
  "wp (slice xs a b) P \<longleftrightarrow> a \<le> b \<and> b \<le> length xs \<and> P (take (b - a) (drop a xs))"
  by (auto simp: wp_def slice_Some_iff)

lemma wp_slice_from [wp_rules]: "wp (slice_from xs a) P \<longleftrightarrow> a \<le> length xs \<and> P (drop a xs)"
  by (auto simp: wp_def slice_from_Some_iff)

lemma wp_call: "wp m Q \<Longrightarrow> (\<And>v. Q v \<Longrightarrow> P v) \<Longrightarrow> wp m P"
  by (auto simp: wp_def)

lemma wp_call_eq: "wp m Q \<Longrightarrow> (\<And>v. m = Some v \<Longrightarrow> Q v \<Longrightarrow> P v) \<Longrightarrow> wp m P"
  by (auto simp: wp_def)

lemma wp_not_None: "wp m P \<Longrightarrow> m \<noteq> None"
  by (auto simp: wp_def)

lemma wp_result: "wp m P \<Longrightarrow> m = Some v \<Longrightarrow> P v"
  by (auto simp: wp_def)

text \<open>\<open>wlp m P\<close>: if \<open>m\<close> returns, its result satisfies \<open>P\<close>. It is used for facts about the answer of
  an operation next to a proof (or a refutation) that the operation does not panic.\<close>

definition wlp :: "'a rs \<Rightarrow> ('a \<Rightarrow> bool) \<Rightarrow> bool" where
  "wlp m P \<longleftrightarrow> (\<forall>v. m = Some v \<longrightarrow> P v)"

lemma wlp_return: "wlp (Some v) P \<longleftrightarrow> P v" "wlp None P"
  by (auto simp: wlp_def)

lemma wlp_bind: "wlp (Option.bind m f) P \<longleftrightarrow> (\<forall>v. m = Some v \<longrightarrow> wlp (f v) P)"
  by (auto simp: wlp_def bind_eq_Some_conv)

lemma wlp_tryo: "wlp (tryo x f) P \<longleftrightarrow> (x = None \<longrightarrow> P None) \<and> (\<forall>v. x = Some v \<longrightarrow> wlp (f v) P)"
  by (cases x) (auto simp: wlp_def)

lemma wlp_let_else:
  "wlp (let_else x r f) P \<longleftrightarrow> (x = None \<longrightarrow> P r) \<and> (\<forall>v. x = Some v \<longrightarrow> wlp (f v) P)"
  by (cases x) (auto simp: wlp_def)

lemma wlp_if: "wlp (if b then m else n) P \<longleftrightarrow> (b \<longrightarrow> wlp m P) \<and> (\<not> b \<longrightarrow> wlp n P)"
  by simp

lemma wlp_case_option:
  "wlp (case x of None \<Rightarrow> m | Some v \<Rightarrow> f v) P \<longleftrightarrow>
     (x = None \<longrightarrow> wlp m P) \<and> (\<forall>v. x = Some v \<longrightarrow> wlp (f v) P)"
  by (cases x) auto

lemma wlp_case_prod: "wlp (case x of (a, b) \<Rightarrow> f a b) P \<longleftrightarrow> (\<forall>a b. x = (a, b) \<longrightarrow> wlp (f a b) P)"
  by (cases x) simp

lemmas wlp_rules = wlp_return wlp_bind wlp_tryo wlp_let_else wlp_if wlp_case_option wlp_case_prod Let_def

lemma wlpD: "wlp m P \<Longrightarrow> m = Some v \<Longrightarrow> P v"
  by (simp add: wlp_def)

section \<open>Integers\<close>

definition usize_max :: nat where
  "usize_max = 2 ^ 64 - 1"

definition checked_add :: "usize \<Rightarrow> usize \<Rightarrow> usize option" where
  "checked_add a b = (if a + b \<le> usize_max then Some (a + b) else None)"

lemma checked_add_Some [simp]: "checked_add a b = Some c \<longleftrightarrow> a + b \<le> usize_max \<and> c = a + b"
  by (auto simp: checked_add_def)

definition checked_mul :: "usize \<Rightarrow> usize \<Rightarrow> usize option" where
  "checked_mul a b = (if a * b \<le> usize_max then Some (a * b) else None)"

lemma checked_mul_Some [simp]: "checked_mul a b = Some c \<longleftrightarrow> a * b \<le> usize_max \<and> c = a * b"
  by (auto simp: checked_mul_def)

definition saturating_add :: "'a::len word \<Rightarrow> 'a word \<Rightarrow> 'a word" where
  "saturating_add a b = (if unat a + unat b < 2 ^ LENGTH('a) then a + b else - 1)"

lemma unat_max_word: "unat (- 1 :: 'a::len word) = 2 ^ LENGTH('a) - 1"
  by (simp add: unsigned_minus_1_eq_mask mask_eq_exp_minus_1)

lemma unat_saturating_add:
  "unat (saturating_add a b) = min (unat a + unat b) (2 ^ LENGTH('a) - 1)"
  for a b :: "'a::len word"
  by (auto simp: saturating_add_def unat_plus_if' unat_max_word)

lemma saturating_add_mono: "a \<le> saturating_add a b" for a b :: "'a::len word"
proof -
  have "unat a < 2 ^ LENGTH('a)" by (rule unsigned_less)
  then have "unat a \<le> 2 ^ LENGTH('a) - 1" by linarith
  then show ?thesis by (simp add: word_le_nat_alt unat_saturating_add)
qed

text \<open>\<open>u16::from_be_bytes\<close>, \<open>u32::from_be_bytes\<close> and their little-endian forms.\<close>

definition u16_be :: "u8 \<Rightarrow> u8 \<Rightarrow> u16" where
  "u16_be a b = word_of_nat (unat a * 256 + unat b)"

definition u16_le :: "u8 \<Rightarrow> u8 \<Rightarrow> u16" where
  "u16_le a b = u16_be b a"

definition u32_be :: "u8 \<Rightarrow> u8 \<Rightarrow> u8 \<Rightarrow> u8 \<Rightarrow> u32" where
  "u32_be a b c d = word_of_nat (((unat a * 256 + unat b) * 256 + unat c) * 256 + unat d)"

definition u32_le :: "u8 \<Rightarrow> u8 \<Rightarrow> u8 \<Rightarrow> u8 \<Rightarrow> u32" where
  "u32_le a b c d = u32_be d c b a"

text \<open>\<open>to_be_bytes\<close>.\<close>

definition u16_to_be :: "u16 \<Rightarrow> bytes" where
  "u16_to_be w = [word_of_nat (unat w div 256), word_of_nat (unat w mod 256)]"

definition u32_to_be :: "u32 \<Rightarrow> bytes" where
  "u32_to_be w = [word_of_nat (unat w div 16777216), word_of_nat (unat w div 65536 mod 256),
     word_of_nat (unat w div 256 mod 256), word_of_nat (unat w mod 256)]"

lemma unat_u8_less [simp]: "unat (a :: u8) < 256"
  using unsigned_less [of a, where ?'a = nat] by simp

lemma unat_u8_le [simp]: "unat (a :: u8) \<le> 255"
  using unat_u8_less [of a] by linarith

lemma unat_u16_less [simp]: "unat (a :: u16) < 65536"
  using unsigned_less [of a, where ?'a = nat] by simp

lemma unat_u32_less [simp]: "unat (a :: u32) < 4294967296"
  using unsigned_less [of a, where ?'a = nat] by simp

lemma unat_u16_be [simp]: "unat (u16_be a b) = unat a * 256 + unat b"
proof -
  have "unat a * 256 + unat b < 65536"
    using unat_u8_less [of a] unat_u8_less [of b] by linarith
  then show ?thesis
    unfolding u16_be_def unsigned_of_nat take_bit_eq_mod by simp
qed

lemma unat_u32_be [simp]:
  "unat (u32_be a b c d) = ((unat a * 256 + unat b) * 256 + unat c) * 256 + unat d"
proof -
  have "((unat a * 256 + unat b) * 256 + unat c) * 256 + unat d < 4294967296"
    using unat_u8_less [of a] unat_u8_less [of b] unat_u8_less [of c] unat_u8_less [of d]
    unfolding add_mult_distrib mult.assoc by linarith
  then show ?thesis
    unfolding u32_be_def unsigned_of_nat take_bit_eq_mod by simp
qed

lemma word_of_nat_unat_u8 [simp]: "(word_of_nat (unat (w :: u8)) :: u8) = w"
  by simp

lemma u16_be_roundtrip: "u16_to_be w = [a, b] \<Longrightarrow> u16_be a b = w"
proof -
  assume "u16_to_be w = [a, b]"
  then have "a = word_of_nat (unat w div 256)" and "b = word_of_nat (unat w mod 256)"
    by (auto simp: u16_to_be_def)
  moreover have "unat w div 256 < 256"
    using unat_u16_less [of w] by linarith
  ultimately have "unat a = unat w div 256" and "unat b = unat w mod 256"
    by (simp_all add: unsigned_of_nat take_bit_eq_mod)
  then show ?thesis
    by (simp add: word_unat_eq_iff)
qed

lemma length_u16_to_be [simp]: "length (u16_to_be w) = 2"
  by (simp add: u16_to_be_def)

lemma length_u32_to_be [simp]: "length (u32_to_be w) = 4"
  by (simp add: u32_to_be_def)

section \<open>Byte strings and ASCII\<close>

text \<open>The bytes of a string literal (\<open>b"abc"\<close>, or a \<open>&str\<close> in UTF-8).\<close>

definition bstr :: "string \<Rightarrow> bytes" where
  "bstr s = map of_char s"

definition is_ascii_digit :: "u8 \<Rightarrow> bool" where
  "is_ascii_digit b \<longleftrightarrow> 0x30 \<le> b \<and> b \<le> 0x39"

definition is_ascii_uppercase :: "u8 \<Rightarrow> bool" where
  "is_ascii_uppercase b \<longleftrightarrow> 0x41 \<le> b \<and> b \<le> 0x5A"

definition is_ascii_lowercase :: "u8 \<Rightarrow> bool" where
  "is_ascii_lowercase b \<longleftrightarrow> 0x61 \<le> b \<and> b \<le> 0x7A"

definition is_ascii_alphabetic :: "u8 \<Rightarrow> bool" where
  "is_ascii_alphabetic b \<longleftrightarrow> is_ascii_uppercase b \<or> is_ascii_lowercase b"

definition is_ascii_alphanumeric :: "u8 \<Rightarrow> bool" where
  "is_ascii_alphanumeric b \<longleftrightarrow> is_ascii_alphabetic b \<or> is_ascii_digit b"

definition is_ascii_control :: "u8 \<Rightarrow> bool" where
  "is_ascii_control b \<longleftrightarrow> b < 0x20 \<or> b = 0x7F"

definition is_ascii :: "u8 \<Rightarrow> bool" where
  "is_ascii b \<longleftrightarrow> b < 0x80"

definition ascii_lower :: "u8 \<Rightarrow> u8" where
  "ascii_lower b = (if is_ascii_uppercase b then b + 32 else b)"

definition ascii_upper :: "u8 \<Rightarrow> u8" where
  "ascii_upper b = (if is_ascii_lowercase b then b - 32 else b)"

definition to_ascii_lowercase :: "bytes \<Rightarrow> bytes" where
  "to_ascii_lowercase = map ascii_lower"

definition to_ascii_uppercase :: "bytes \<Rightarrow> bytes" where
  "to_ascii_uppercase = map ascii_upper"

definition eq_ignore_ascii_case :: "bytes \<Rightarrow> bytes \<Rightarrow> bool" where
  "eq_ignore_ascii_case a b \<longleftrightarrow> to_ascii_lowercase a = to_ascii_lowercase b"

lemma eq_ignore_ascii_case_refl [simp]: "eq_ignore_ascii_case a a"
  by (simp add: eq_ignore_ascii_case_def)

lemma eq_ignore_ascii_case_sym: "eq_ignore_ascii_case a b \<Longrightarrow> eq_ignore_ascii_case b a"
  by (simp add: eq_ignore_ascii_case_def)

lemma eq_ignore_ascii_case_trans:
  "eq_ignore_ascii_case a b \<Longrightarrow> eq_ignore_ascii_case b c \<Longrightarrow> eq_ignore_ascii_case a c"
  by (simp add: eq_ignore_ascii_case_def)

end
