(* ===== verification/Rust_Text.thy ===== *)
theory Rust_Text
  imports Prelude
begin

text \<open>
  Strings. A Rust \<open>&str\<close> or \<open>String\<close> is its UTF-8 byte list; \<open>chars\<close> gives its
  code points. Operations that look for an ASCII character (\<open>split(' ')\<close>,
  \<open>split_once(':')\<close>, \<open>starts_with('-')\<close>) work on the bytes, which is what they do in
  valid UTF-8, where a byte below 128 is never part of a longer sequence. The second half holds
  the searching and splitting operations on slices and the decimal parsers.
\<close>

section \<open>UTF-8\<close>

definition is_cont :: "u8 \<Rightarrow> bool" where
  "is_cont b \<longleftrightarrow> 0x80 \<le> unat b \<and> unat b \<le> 0xBF"

text \<open>The well-formed byte sequences of the Unicode standard, as \<open>str::from_utf8\<close> checks them.\<close>

fun utf8_decode :: "bytes \<Rightarrow> nat list option" where
  "utf8_decode [] = Some []"
| "utf8_decode (b0 # bs) =
     (let n0 = unat b0 in
      if n0 < 0x80 then map_option (Cons n0) (utf8_decode bs)
      else if 0xC2 \<le> n0 \<and> n0 \<le> 0xDF then
        (case bs of
           b1 # r \<Rightarrow>
             if is_cont b1
             then map_option (Cons ((n0 - 0xC0) * 64 + (unat b1 - 0x80))) (utf8_decode r)
             else None
         | _ \<Rightarrow> None)
      else if 0xE0 \<le> n0 \<and> n0 \<le> 0xEF then
        (case bs of
           b1 # b2 # r \<Rightarrow>
             if is_cont b1 \<and> is_cont b2 \<and> (n0 = 0xE0 \<longrightarrow> 0xA0 \<le> unat b1)
                \<and> (n0 = 0xED \<longrightarrow> unat b1 \<le> 0x9F)
             then map_option (Cons ((n0 - 0xE0) * 4096 + (unat b1 - 0x80) * 64 + (unat b2 - 0x80)))
                    (utf8_decode r)
             else None
         | _ \<Rightarrow> None)
      else if 0xF0 \<le> n0 \<and> n0 \<le> 0xF4 then
        (case bs of
           b1 # b2 # b3 # r \<Rightarrow>
             if is_cont b1 \<and> is_cont b2 \<and> is_cont b3 \<and> (n0 = 0xF0 \<longrightarrow> 0x90 \<le> unat b1)
                \<and> (n0 = 0xF4 \<longrightarrow> unat b1 \<le> 0x8F)
             then map_option (Cons ((n0 - 0xF0) * 262144 + (unat b1 - 0x80) * 4096
                      + (unat b2 - 0x80) * 64 + (unat b3 - 0x80))) (utf8_decode r)
             else None
         | _ \<Rightarrow> None)
      else None)"

definition from_utf8 :: "bytes \<Rightarrow> bytes option" where
  "from_utf8 d = (if utf8_decode d = None then None else Some d)"

definition chars :: "bytes \<Rightarrow> nat list" where
  "chars s = (case utf8_decode s of None \<Rightarrow> [] | Some cs \<Rightarrow> cs)"

definition scalar_value :: "nat \<Rightarrow> bool" where
  "scalar_value c \<longleftrightarrow> c < 0xD800 \<or> (0xE000 \<le> c \<and> c < 0x110000)"

definition utf8_encode_char :: "nat \<Rightarrow> bytes" where
  "utf8_encode_char c =
     (if c < 0x80 then [word_of_nat c]
      else if c < 0x800 then [word_of_nat (0xC0 + c div 64), word_of_nat (0x80 + c mod 64)]
      else if c < 0x10000 then
        [word_of_nat (0xE0 + c div 4096), word_of_nat (0x80 + c div 64 mod 64),
         word_of_nat (0x80 + c mod 64)]
      else [word_of_nat (0xF0 + c div 262144), word_of_nat (0x80 + c div 4096 mod 64),
         word_of_nat (0x80 + c div 64 mod 64), word_of_nat (0x80 + c mod 64)])"

definition utf8_encode :: "nat list \<Rightarrow> bytes" where
  "utf8_encode cs = concat (map utf8_encode_char cs)"

lemma unat_word_of_nat_u8: "n < 256 \<Longrightarrow> unat (word_of_nat n :: u8) = n"
  unfolding unsigned_of_nat take_bit_eq_mod by simp

text \<open>One equation per length of the leading sequence; the defining equation is not a simp rule.\<close>

lemma utf8_decode_1:
  "unat b0 < 0x80 \<Longrightarrow> utf8_decode (b0 # bs) = map_option (Cons (unat b0)) (utf8_decode bs)"
  by (simp add: Let_def)

lemma utf8_decode_2:
  "0xC2 \<le> unat b0 \<Longrightarrow> unat b0 \<le> 0xDF \<Longrightarrow> utf8_decode (b0 # bs) =
     (case bs of
        b1 # r \<Rightarrow>
          if is_cont b1
          then map_option (Cons ((unat b0 - 0xC0) * 64 + (unat b1 - 0x80))) (utf8_decode r)
          else None
      | _ \<Rightarrow> None)"
  by (simp add: Let_def)

lemma utf8_decode_3:
  "0xE0 \<le> unat b0 \<Longrightarrow> unat b0 \<le> 0xEF \<Longrightarrow> utf8_decode (b0 # bs) =
     (case bs of
        b1 # b2 # r \<Rightarrow>
          if is_cont b1 \<and> is_cont b2 \<and> (unat b0 = 0xE0 \<longrightarrow> 0xA0 \<le> unat b1)
             \<and> (unat b0 = 0xED \<longrightarrow> unat b1 \<le> 0x9F)
          then map_option (Cons ((unat b0 - 0xE0) * 4096 + (unat b1 - 0x80) * 64
                 + (unat b2 - 0x80))) (utf8_decode r)
          else None
      | _ \<Rightarrow> None)"
  by (simp add: Let_def)

lemma utf8_decode_4:
  "0xF0 \<le> unat b0 \<Longrightarrow> unat b0 \<le> 0xF4 \<Longrightarrow> utf8_decode (b0 # bs) =
     (case bs of
        b1 # b2 # b3 # r \<Rightarrow>
          if is_cont b1 \<and> is_cont b2 \<and> is_cont b3 \<and> (unat b0 = 0xF0 \<longrightarrow> 0x90 \<le> unat b1)
             \<and> (unat b0 = 0xF4 \<longrightarrow> unat b1 \<le> 0x8F)
          then map_option (Cons ((unat b0 - 0xF0) * 262144 + (unat b1 - 0x80) * 4096
                 + (unat b2 - 0x80) * 64 + (unat b3 - 0x80))) (utf8_decode r)
          else None
      | _ \<Rightarrow> None)"
  by (simp add: Let_def)

lemma utf8_decode_bad:
  "\<not> unat b0 < 0x80 \<Longrightarrow> \<not> (0xC2 \<le> unat b0 \<and> unat b0 \<le> 0xDF) \<Longrightarrow>
   \<not> (0xE0 \<le> unat b0 \<and> unat b0 \<le> 0xEF) \<Longrightarrow> \<not> (0xF0 \<le> unat b0 \<and> unat b0 \<le> 0xF4) \<Longrightarrow>
   utf8_decode (b0 # bs) = None"
  unfolding utf8_decode.simps Let_def by (simp only: if_False)

declare utf8_decode.simps(2) [simp del]

lemma utf8_decode_encode_char:
  assumes "scalar_value c"
  shows "utf8_decode (utf8_encode_char c @ bs) = map_option (Cons c) (utf8_decode bs)"
proof -
  consider "c < 0x80" | "0x80 \<le> c" "c < 0x800" | "0x800 \<le> c" "c < 0x10000"
    | "0x10000 \<le> c" "c < 0x110000"
    using assms by (force simp: scalar_value_def)
  then show ?thesis
  proof cases
    case 1
    then show ?thesis
      by (simp add: utf8_encode_char_def unat_word_of_nat_u8 utf8_decode_1 del: of_nat_add)
  next
    case 2
    then have "0xC2 \<le> 0xC0 + c div 64" "0xC0 + c div 64 \<le> 0xDF" by linarith+
    moreover have "c mod 64 \<le> 63" by simp
    ultimately show ?thesis using 2
      by (simp add: utf8_encode_char_def unat_word_of_nat_u8 is_cont_def utf8_decode_2 del: of_nat_add)
  next
    case 3
    have d: "c div 64 = 64 * (c div 4096) + c div 64 mod 64"
      using div_mult_mod_eq [of "c div 64" 64] by (simp add: div_mult2_eq [symmetric])
    from 3 have "0x20 \<le> c div 64" "c div 64 < 0x400" by linarith+
    with d have "0xE0 + c div 4096 \<le> 0xEF"
      and "0xE0 + c div 4096 = 0xE0 \<longrightarrow> 0xA0 \<le> 0x80 + c div 64 mod 64"
      by linarith+
    moreover have "c div 64 < 0x360 \<or> 0x380 \<le> c div 64"
      using assms unfolding scalar_value_def by linarith
    then have "0xE0 + c div 4096 = 0xED \<longrightarrow> 0x80 + c div 64 mod 64 \<le> 0x9F"
      using d mod_less_divisor [of 64 "c div 64"] by linarith
    moreover have "c div 4096 * 4096 + c div 64 mod 64 * 64 + c mod 64 = c"
      using mod_mult2_eq [of c 64 64] div_mult_mod_eq [of c 4096] by simp
    moreover have "c mod 64 \<le> 63" "c div 64 mod 64 \<le> 63" by simp_all
    ultimately show ?thesis using 3
      by (simp add: utf8_encode_char_def unat_word_of_nat_u8 is_cont_def utf8_decode_3 del: of_nat_add)
  next
    case 4
    have d: "c div 4096 = 64 * (c div 262144) + c div 4096 mod 64"
      using div_mult_mod_eq [of "c div 4096" 64] by (simp add: div_mult2_eq [symmetric])
    from 4 have "0x10 \<le> c div 4096" "c div 4096 < 0x110" by linarith+
    with d have "0xF0 + c div 262144 \<le> 0xF4"
      and "0xF0 + c div 262144 = 0xF0 \<longrightarrow> 0x90 \<le> 0x80 + c div 4096 mod 64"
      and "0xF0 + c div 262144 = 0xF4 \<longrightarrow> 0x80 + c div 4096 mod 64 \<le> 0x8F"
      by linarith+
    moreover have "c div 262144 * 262144 + c div 4096 mod 64 * 4096 + c div 64 mod 64 * 64
        + c mod 64 = c"
      using mod_mult2_eq [of c 64 64] mod_mult2_eq [of c 4096 64] div_mult_mod_eq [of c 262144]
      by simp
    moreover have "c mod 64 \<le> 63" "c div 64 mod 64 \<le> 63" "c div 4096 mod 64 \<le> 63" by simp_all
    ultimately show ?thesis using 4
      by (simp add: utf8_encode_char_def unat_word_of_nat_u8 is_cont_def utf8_decode_4 del: of_nat_add)
  qed
qed

lemma utf8_decode_encode:
  assumes "\<forall>c \<in> set cs. scalar_value c"
  shows "utf8_decode (utf8_encode cs) = Some cs"
  using assms by (induction cs) (simp_all add: utf8_encode_def utf8_decode_encode_char)

lemma utf8_decode_ConsE:
  assumes "utf8_decode (b0 # bs) = Some cs"
  obtains c ds r where "cs = c # ds" "utf8_decode r = Some ds" "scalar_value c"
    "length r \<le> length bs"
proof -
  let ?n = "unat b0"
  consider "?n < 0x80" | "0xC2 \<le> ?n" "?n \<le> 0xDF" | "0xE0 \<le> ?n" "?n \<le> 0xEF"
    | "0xF0 \<le> ?n" "?n \<le> 0xF4"
    using assms utf8_decode_bad [of b0 bs] by force
  then show ?thesis
  proof cases
    case 1
    with assms show ?thesis by (auto simp: utf8_decode_1 scalar_value_def intro: that)
  next
    case 2
    with assms obtain b1 r ds where *: "bs = b1 # r" "is_cont b1" "utf8_decode r = Some ds"
      "cs = ((?n - 0xC0) * 64 + (unat b1 - 0x80)) # ds"
      by (auto simp: utf8_decode_2 split: list.splits if_splits)
    from 2 have "(?n - 0xC0) * 64 + (unat b1 - 0x80) < 0xD800"
      using unat_u8_less [of b1] by linarith
    with * show ?thesis by (auto simp: scalar_value_def intro: that)
  next
    case 3
    with assms obtain b1 b2 r ds where *: "bs = b1 # b2 # r" "is_cont b1" "is_cont b2"
      "?n = 0xED \<longrightarrow> unat b1 \<le> 0x9F" "utf8_decode r = Some ds"
      "cs = ((?n - 0xE0) * 4096 + (unat b1 - 0x80) * 64 + (unat b2 - 0x80)) # ds"
      by (auto simp: utf8_decode_3 split: list.splits if_splits)
    let ?c = "(?n - 0xE0) * 4096 + (unat b1 - 0x80) * 64 + (unat b2 - 0x80)"
    have "?c < 0x110000" using 3 *(2,3) unfolding is_cont_def by linarith
    moreover have "?c < 0xD800 \<or> 0xE000 \<le> ?c"
    proof (cases "?n \<le> 0xEC \<or> ?n = 0xED")
      case True
      then have "?n - 0xE0 \<le> 0xC \<or> (?n - 0xE0 = 0xD \<and> unat b1 - 0x80 \<le> 0x1F)"
        using *(4) by auto
      then have "?c < 0xD800" using *(2,3) unfolding is_cont_def by linarith
      then show ?thesis ..
    next
      case False
      then have "0xE \<le> ?n - 0xE0" using 3 by linarith
      then show ?thesis by linarith
    qed
    ultimately have "scalar_value ?c" by (auto simp: scalar_value_def)
    with * show ?thesis by (auto intro: that)
  next
    case 4
    with assms obtain b1 b2 b3 r ds where *: "bs = b1 # b2 # b3 # r" "is_cont b1" "is_cont b2"
      "is_cont b3" "?n = 0xF0 \<longrightarrow> 0x90 \<le> unat b1" "?n = 0xF4 \<longrightarrow> unat b1 \<le> 0x8F"
      "utf8_decode r = Some ds"
      "cs = ((?n - 0xF0) * 262144 + (unat b1 - 0x80) * 4096 + (unat b2 - 0x80) * 64
             + (unat b3 - 0x80)) # ds"
      by (auto simp: utf8_decode_4 split: list.splits if_splits)
    let ?c = "(?n - 0xF0) * 262144 + (unat b1 - 0x80) * 4096 + (unat b2 - 0x80) * 64
      + (unat b3 - 0x80)"
    have "0x10000 \<le> ?c"
    proof (cases "?n = 0xF0")
      case True
      then have "0x10 \<le> unat b1 - 0x80" using *(5) by simp
      then show ?thesis by linarith
    next
      case False
      then have "1 \<le> ?n - 0xF0" using 4 by linarith
      then show ?thesis by linarith
    qed
    moreover have "?c < 0x110000"
    proof (cases "?n = 0xF4")
      case True
      then have "?n - 0xF0 = 4" "unat b1 - 0x80 \<le> 0xF" using *(6) by auto
      then show ?thesis using *(3,4) unfolding is_cont_def by linarith
    next
      case False
      then have "?n - 0xF0 \<le> 3" using 4 by linarith
      then show ?thesis using *(2,3,4) unfolding is_cont_def by linarith
    qed
    ultimately have "scalar_value ?c" by (simp add: scalar_value_def)
    with * show ?thesis by (auto intro: that)
  qed
qed

lemma utf8_decode_scalar: "utf8_decode bs = Some cs \<Longrightarrow> \<forall>c \<in> set cs. scalar_value c"
proof (induction bs arbitrary: cs rule: length_induct)
  case (1 bs)
  show ?case
  proof (cases bs)
    case Nil
    with "1.prems" show ?thesis by simp
  next
    case (Cons b0 bs')
    with "1.prems" have "utf8_decode (b0 # bs') = Some cs" by simp
    then obtain c ds r where "cs = c # ds" "utf8_decode r = Some ds" "scalar_value c"
      "length r \<le> length bs'"
      by (rule utf8_decode_ConsE)
    moreover from this Cons have "length r < length bs" by simp
    ultimately show ?thesis using "1.IH" by auto
  qed
qed

lemma utf8_decode_ascii: "\<forall>b \<in> set bs. unat b < 128 \<Longrightarrow> utf8_decode bs = Some (map unat bs)"
  by (induction bs) (simp_all add: utf8_decode_1)

lemma chars_encode: "\<forall>c \<in> set cs. scalar_value c \<Longrightarrow> chars (utf8_encode cs) = cs"
  by (simp add: chars_def utf8_decode_encode)

lemma chars_scalar: "\<forall>c \<in> set (chars bs). scalar_value c"
  by (cases "utf8_decode bs") (simp_all add: chars_def utf8_decode_scalar)

lemma from_utf8_Some_iff: "from_utf8 d = Some s \<longleftrightarrow> s = d \<and> utf8_decode d \<noteq> None"
  by (auto simp: from_utf8_def)

text \<open>\<open>char::is_whitespace\<close> (the Unicode property White_Space) and \<open>char::is_control\<close>.\<close>

definition char_is_whitespace :: "nat \<Rightarrow> bool" where
  "char_is_whitespace c \<longleftrightarrow> (9 \<le> c \<and> c \<le> 13) \<or> c = 32 \<or> c = 0x85 \<or> c = 0xA0 \<or> c = 0x1680
     \<or> (0x2000 \<le> c \<and> c \<le> 0x200A) \<or> c = 0x2028 \<or> c = 0x2029 \<or> c = 0x202F \<or> c = 0x205F
     \<or> c = 0x3000"

definition char_is_control :: "nat \<Rightarrow> bool" where
  "char_is_control c \<longleftrightarrow> c \<le> 0x1F \<or> (0x7F \<le> c \<and> c \<le> 0x9F)"

section \<open>Searching and splitting\<close>

text \<open>\<open>xs.iter().position(p)\<close>.\<close>

fun position :: "('a \<Rightarrow> bool) \<Rightarrow> 'a list \<Rightarrow> usize option" where
  "position p [] = None"
| "position p (x # xs) = (if p x then Some 0 else map_option Suc (position p xs))"

text \<open>\<open>xs.windows(pat.len()).position(|w| w == pat)\<close>.\<close>

fun find_sub :: "'a list \<Rightarrow> 'a list \<Rightarrow> usize option" where
  "find_sub pat [] = (if pat = [] then Some 0 else None)"
| "find_sub pat (x # xs) =
     (if take (length pat) (x # xs) = pat then Some 0 else map_option Suc (find_sub pat xs))"

text \<open>\<open>xs.split(p)\<close>: one piece more than there are separators.\<close>

fun split_on :: "('a \<Rightarrow> bool) \<Rightarrow> 'a list \<Rightarrow> 'a list list" where
  "split_on p [] = [[]]"
| "split_on p (x # xs) =
     (if p x then [] # split_on p xs
      else (case split_on p xs of [] \<Rightarrow> [[x]] | y # ys \<Rightarrow> (x # y) # ys))"

definition starts_with :: "'a list \<Rightarrow> 'a list \<Rightarrow> bool" where
  "starts_with xs pre \<longleftrightarrow> length pre \<le> length xs \<and> take (length pre) xs = pre"

definition ends_with :: "'a list \<Rightarrow> 'a list \<Rightarrow> bool" where
  "ends_with xs suf \<longleftrightarrow> length suf \<le> length xs \<and> drop (length xs - length suf) xs = suf"

definition strip_prefix :: "'a list \<Rightarrow> 'a list \<Rightarrow> 'a list option" where
  "strip_prefix xs pre = (if starts_with xs pre then Some (drop (length pre) xs) else None)"

definition strip_suffix :: "'a list \<Rightarrow> 'a list \<Rightarrow> 'a list option" where
  "strip_suffix xs suf = (if ends_with xs suf then Some (take (length xs - length suf) xs) else None)"

text \<open>\<open>split_once\<close> and \<open>rsplit_once\<close> at an ASCII character.\<close>

definition split_once :: "'a list \<Rightarrow> 'a \<Rightarrow> ('a list \<times> 'a list) option" where
  "split_once xs c =
     (case position (\<lambda>x. x = c) xs of None \<Rightarrow> None | Some i \<Rightarrow> Some (take i xs, drop (Suc i) xs))"

definition rsplit_once :: "'a list \<Rightarrow> 'a \<Rightarrow> ('a list \<times> 'a list) option" where
  "rsplit_once xs c =
     (case split_once (rev xs) c of None \<Rightarrow> None | Some (a, b) \<Rightarrow> Some (rev b, rev a))"

text \<open>\<open>trim_matches(p)\<close>.\<close>

definition trim_matches :: "('a \<Rightarrow> bool) \<Rightarrow> 'a list \<Rightarrow> 'a list" where
  "trim_matches p xs = rev (dropWhile p (rev (dropWhile p xs)))"

lemma position_Some_less: "position p xs = Some i \<Longrightarrow> i < length xs"
  by (induction xs arbitrary: i) (auto split: if_splits)

lemma position_Some_iff:
  "position p xs = Some i \<longleftrightarrow> i < length xs \<and> p (xs ! i) \<and> (\<forall>j < i. \<not> p (xs ! j))"
proof (induction xs arbitrary: i)
  case Nil
  then show ?case by simp
next
  case (Cons x xs)
  show ?case by (cases i) (auto simp: Cons.IH less_Suc_eq_0_disj)
qed

lemma position_None_iff: "position p xs = None \<longleftrightarrow> (\<forall>x \<in> set xs. \<not> p x)"
  by (induction xs) auto

lemma find_sub_Some_bound: "find_sub pat xs = Some i \<Longrightarrow> i + length pat \<le> length xs"
proof (induction xs arbitrary: i)
  case Nil
  then show ?case by (auto split: if_splits)
next
  case (Cons x xs)
  show ?case
  proof (cases "take (length pat) (x # xs) = pat")
    case True
    then have "length pat \<le> length (x # xs)"
      by (metis length_take min.cobounded1)
    with True Cons.prems show ?thesis by simp
  next
    case False
    with Cons show ?thesis by auto
  qed
qed

lemma split_on_nonempty [simp]: "split_on p xs \<noteq> []"
  by (cases xs) (auto split: list.splits)

lemma split_on_no_sep: "\<forall>y \<in> set (split_on p xs). \<forall>x \<in> set y. \<not> p x"
proof (induction xs)
  case Nil
  then show ?case by simp
next
  case (Cons x xs)
  then show ?case by (cases "split_on p xs") auto
qed

lemma split_on_single: "\<forall>x \<in> set xs. \<not> p x \<Longrightarrow> split_on p xs = [xs]"
  by (induction xs) auto

lemma split_on_append_sep:
  "\<forall>x \<in> set xs. \<not> p x \<Longrightarrow> p s \<Longrightarrow> split_on p (xs @ s # ys) = xs # split_on p ys"
  by (induction xs) auto

section \<open>Decimal numbers\<close>

definition dec_value :: "bytes \<Rightarrow> nat" where
  "dec_value s = foldl (\<lambda>a b. a * 10 + (unat b - 48)) 0 s"

text \<open>\<open>s.parse::<T>().ok()\<close> of a string of digits, for an unsigned type with the given maximum.\<close>

definition parse_digits :: "nat \<Rightarrow> bytes \<Rightarrow> nat option" where
  "parse_digits limit s = (if dec_value s \<le> limit then Some (dec_value s) else None)"

text \<open>Decimal formatting of an unsigned number.\<close>

fun show_dec :: "nat \<Rightarrow> bytes" where
  "show_dec n =
     (if n < 10 then [word_of_nat (48 + n)]
      else show_dec (n div 10) @ [word_of_nat (48 + n mod 10)])"

declare show_dec.simps [simp del]

lemma show_dec_nonempty [simp]: "show_dec n \<noteq> []"
  by (subst show_dec.simps) simp

lemma is_ascii_digit_alt: "is_ascii_digit b \<longleftrightarrow> 48 \<le> unat b \<and> unat b \<le> 57"
  by (simp add: is_ascii_digit_def word_le_nat_alt)

lemma show_dec_digits: "\<forall>b \<in> set (show_dec n). is_ascii_digit b"
proof (induction n rule: show_dec.induct)
  case (1 n)
  then show ?case
    by (subst show_dec.simps)
      (auto simp: is_ascii_digit_alt unat_word_of_nat_u8 simp del: of_nat_add)
qed

lemma dec_value_snoc: "dec_value (s @ [b]) = dec_value s * 10 + (unat b - 48)"
  by (simp add: dec_value_def)

lemma dec_value_show_dec: "dec_value (show_dec n) = n"
proof (induction n rule: show_dec.induct)
  case (1 n)
  show ?case
  proof (cases "n < 10")
    case True
    then show ?thesis
      by (subst show_dec.simps) (simp add: dec_value_def unat_word_of_nat_u8 del: of_nat_add)
  next
    case False
    with 1 have "dec_value (show_dec (n div 10)) = n div 10" by simp
    with False show ?thesis
      by (subst show_dec.simps) (simp add: dec_value_snoc unat_word_of_nat_u8 del: of_nat_add)
  qed
qed

end
