(* ===== verification/Rust_Net.thy ===== *)
theory Rust_Net
  imports Rust_Text
begin

text \<open>
  \<open>std::net\<close>: the address types, the classification predicates and the text parsers the
  sources call. An IPv4 address is its four octets and an IPv6 address its eight segments.
\<close>

datatype ipv4 = Ipv4 u8 u8 u8 u8

datatype ipv6 = Ipv6 u16 u16 u16 u16 u16 u16 u16 u16

datatype ip_addr = V4 ipv4 | V6 ipv6

section \<open>Classification\<close>

fun v4_octets :: "ipv4 \<Rightarrow> bytes" where
  "v4_octets (Ipv4 a b c d) = [a, b, c, d]"

fun v4_is_unspecified :: "ipv4 \<Rightarrow> bool" where
  "v4_is_unspecified (Ipv4 a b c d) \<longleftrightarrow> a = 0 \<and> b = 0 \<and> c = 0 \<and> d = 0"

fun v4_is_loopback :: "ipv4 \<Rightarrow> bool" where
  "v4_is_loopback (Ipv4 a b c d) \<longleftrightarrow> a = 127"

fun v4_is_multicast :: "ipv4 \<Rightarrow> bool" where
  "v4_is_multicast (Ipv4 a b c d) \<longleftrightarrow> 224 \<le> a \<and> a \<le> 239"

fun v4_is_broadcast :: "ipv4 \<Rightarrow> bool" where
  "v4_is_broadcast (Ipv4 a b c d) \<longleftrightarrow> a = 255 \<and> b = 255 \<and> c = 255 \<and> d = 255"

definition u16_hi :: "u16 \<Rightarrow> u8" where
  "u16_hi w = word_of_nat (unat w div 256)"

definition u16_lo :: "u16 \<Rightarrow> u8" where
  "u16_lo w = word_of_nat (unat w mod 256)"

text \<open>\<open>Ipv6Addr::to_ipv4_mapped\<close>: the addresses \<open>::ffff:a.b.c.d\<close>.\<close>

fun to_ipv4_mapped :: "ipv6 \<Rightarrow> ipv4 option" where
  "to_ipv4_mapped (Ipv6 s0 s1 s2 s3 s4 s5 s6 s7) =
     (if s0 = 0 \<and> s1 = 0 \<and> s2 = 0 \<and> s3 = 0 \<and> s4 = 0 \<and> s5 = 0xFFFF
      then Some (Ipv4 (u16_hi s6) (u16_lo s6) (u16_hi s7) (u16_lo s7)) else None)"

fun v6_is_unspecified :: "ipv6 \<Rightarrow> bool" where
  "v6_is_unspecified a \<longleftrightarrow> a = Ipv6 0 0 0 0 0 0 0 0"

fun v6_is_loopback :: "ipv6 \<Rightarrow> bool" where
  "v6_is_loopback a \<longleftrightarrow> a = Ipv6 0 0 0 0 0 0 0 1"

fun v6_is_multicast :: "ipv6 \<Rightarrow> bool" where
  "v6_is_multicast (Ipv6 s0 s1 s2 s3 s4 s5 s6 s7) \<longleftrightarrow> unat s0 div 256 = 0xFF"

text \<open>\<open>Ipv6Addr::from([u8; 16])\<close>; the source always passes sixteen octets.\<close>

definition ipv6_from_octets :: "bytes \<Rightarrow> ipv6" where
  "ipv6_from_octets o8 =
     Ipv6 (u16_be (o8 ! 0) (o8 ! 1)) (u16_be (o8 ! 2) (o8 ! 3)) (u16_be (o8 ! 4) (o8 ! 5))
       (u16_be (o8 ! 6) (o8 ! 7)) (u16_be (o8 ! 8) (o8 ! 9)) (u16_be (o8 ! 10) (o8 ! 11))
       (u16_be (o8 ! 12) (o8 ! 13)) (u16_be (o8 ! 14) (o8 ! 15))"

lemma unat_u16_hi [simp]: "unat (u16_hi w) = unat w div 256"
proof -
  have "unat w div 256 < 256" using unat_u16_less [of w] by linarith
  then show ?thesis by (simp add: u16_hi_def unat_word_of_nat_u8)
qed

lemma unat_u16_lo [simp]: "unat (u16_lo w) = unat w mod 256"
  by (simp add: u16_lo_def unat_word_of_nat_u8)

lemma u16_be_hi_lo [simp]: "u16_be (u16_hi w) (u16_lo w) = w"
  by (simp add: word_unat_eq_iff)

section \<open>Parsing\<close>

text \<open>The recursive-descent parser of \<open>core::net::parser\<close>; each reader returns the rest of its
  input, and \<open>None\<close> leaves the input where it was.\<close>

definition read_given_char :: "u8 \<Rightarrow> bytes \<Rightarrow> bytes option" where
  "read_given_char c s = (case s of [] \<Rightarrow> None | x # r \<Rightarrow> if x = c then Some r else None)"

definition digit_value :: "nat \<Rightarrow> u8 \<Rightarrow> nat option" where
  "digit_value radix b =
     (let n = unat b;
          v = (if 48 \<le> n \<and> n \<le> 57 then n - 48
               else if 97 \<le> n \<and> n \<le> 122 then n - 87
               else if 65 \<le> n \<and> n \<le> 90 then n - 55 else 36)
      in if v < radix then Some v else None)"

text \<open>\<open>read_number\<close>: at most \<open>max_digits\<close> digits, at least one, and the value in range.\<close>

definition read_number :: "nat \<Rightarrow> nat \<Rightarrow> bool \<Rightarrow> nat \<Rightarrow> bytes \<Rightarrow> (nat \<times> bytes) option" where
  "read_number radix max_digits allow_zero_prefix max_value s =
     (let ds = takeWhile (\<lambda>b. digit_value radix b \<noteq> None) s;
          v = foldl (\<lambda>a b. a * radix + (case digit_value radix b of None \<Rightarrow> 0 | Some d \<Rightarrow> d)) 0 ds
      in if ds = [] \<or> length ds > max_digits \<or> v > max_value
            \<or> (\<not> allow_zero_prefix \<and> hd ds = 0x30 \<and> length ds > 1)
         then None else Some (v, drop (length ds) s))"

definition read_octet :: "bytes \<Rightarrow> (nat \<times> bytes) option" where
  "read_octet s = read_number 10 3 False 255 s"

definition read_ipv4_addr :: "bytes \<Rightarrow> (ipv4 \<times> bytes) option" where
  "read_ipv4_addr s =
     do { (a, s1) \<leftarrow> read_octet s;
          s1 \<leftarrow> read_given_char 0x2E s1;
          (b, s2) \<leftarrow> read_octet s1;
          s2 \<leftarrow> read_given_char 0x2E s2;
          (c, s3) \<leftarrow> read_octet s2;
          s3 \<leftarrow> read_given_char 0x2E s3;
          (d, s4) \<leftarrow> read_octet s3;
          Some (Ipv4 (word_of_nat a) (word_of_nat b) (word_of_nat c) (word_of_nat d), s4) }"

text \<open>\<open>read_separator(':', i, f)\<close>: the separator comes before every group but the first.\<close>

definition read_separator :: "nat \<Rightarrow> bytes \<Rightarrow> bytes option" where
  "read_separator i s = (if i > 0 then read_given_char 0x3A s else Some s)"

text \<open>\<open>read_groups\<close>: the argument \<open>left\<close> counts the free slots, \<open>limit - i\<close>.\<close>

fun read_groups :: "nat \<Rightarrow> nat \<Rightarrow> bytes \<Rightarrow> u16 list \<times> bool \<times> bytes" where
  "read_groups 0 i s = ([], False, s)"
| "read_groups (Suc left) i s =
     (case (if left \<ge> 1 then Option.bind (read_separator i s) read_ipv4_addr else None) of
        Some (Ipv4 a b c d, r) \<Rightarrow> ([u16_be a b, u16_be c d], True, r)
      | None \<Rightarrow>
          (case Option.bind (read_separator i s) (read_number 16 4 True 65535) of
             None \<Rightarrow> ([], False, s)
           | Some (g, r) \<Rightarrow>
               (case read_groups left (Suc i) r of (gs, v4, r') \<Rightarrow> (word_of_nat g # gs, v4, r'))))"

definition ipv6_of_groups :: "u16 list \<Rightarrow> ipv6" where
  "ipv6_of_groups g = Ipv6 (g ! 0) (g ! 1) (g ! 2) (g ! 3) (g ! 4) (g ! 5) (g ! 6) (g ! 7)"

definition read_ipv6_addr :: "bytes \<Rightarrow> (ipv6 \<times> bytes) option" where
  "read_ipv6_addr s =
     (case read_groups 8 0 s of (head, head_ipv4, r) \<Rightarrow>
        if length head = 8 then Some (ipv6_of_groups head, r)
        else if head_ipv4 then None
        else do { r1 \<leftarrow> read_given_char 0x3A r;
                  r2 \<leftarrow> read_given_char 0x3A r1;
                  let (tail, _, r3) = read_groups (8 - (length head + 1)) 0 r2;
                  Some (ipv6_of_groups (head @ replicate (8 - length head - length tail) 0 @ tail),
                        r3) })"

text \<open>\<open>parse::<Ipv4Addr>()\<close>, \<open>parse::<Ipv6Addr>()\<close> and \<open>parse::<IpAddr>()\<close>.\<close>

definition parse_ipv4 :: "bytes \<Rightarrow> ipv4 option" where
  "parse_ipv4 s =
     (if length s > 15 then None
      else case read_ipv4_addr s of Some (a, []) \<Rightarrow> Some a | _ \<Rightarrow> None)"

definition parse_ipv6 :: "bytes \<Rightarrow> ipv6 option" where
  "parse_ipv6 s = (case read_ipv6_addr s of Some (a, []) \<Rightarrow> Some a | _ \<Rightarrow> None)"

definition parse_ip_addr :: "bytes \<Rightarrow> ip_addr option" where
  "parse_ip_addr s =
     (case read_ipv4_addr s of
        Some (a, r) \<Rightarrow> if r = [] then Some (V4 a) else None
      | None \<Rightarrow> map_option V6 (parse_ipv6 s))"

text \<open>\<open>Ipv4Addr\<close>'s \<open>Display\<close>.\<close>

fun show_ipv4 :: "ipv4 \<Rightarrow> bytes" where
  "show_ipv4 (Ipv4 a b c d) =
     show_dec (unat a) @ [0x2E] @ show_dec (unat b) @ [0x2E] @ show_dec (unat c) @ [0x2E]
       @ show_dec (unat d)"

end
