(* ===== verification/Core_Text.thy ===== *)
theory Core_Text
  imports Rust_Net
begin

text \<open>
  The text helpers of \<open>nettrap-core\<close>: the bounded numeric parsers and authority splitter of
  \<open>parse.rs\<close>, the log sanitisers and domain checks of \<open>sanitize.rs\<close>, and the clock
  conversions of \<open>timestamp.rs\<close>. The lemmas show that a sanitised value is always a bounded
  single line, that decimal parsing inverts decimal printing and never exceeds its type, and that
  the clock conversions are floor division clamped to the target type.
\<close>

section \<open>parse.rs\<close>

definition unsigned_decimal :: "nat \<Rightarrow> bytes \<Rightarrow> nat option" where
  "unsigned_decimal limit value =
     (if value = [] \<or> \<not> list_all is_ascii_digit value then None else parse_digits limit value)"

definition nonzero_port :: "bytes \<Rightarrow> nat option" where
  "nonzero_port value =
     (case unsigned_decimal 65535 value of
        None \<Rightarrow> None | Some port \<Rightarrow> if port \<noteq> 0 then Some port else None)"

definition looks_like_windows_drive_path :: "bytes \<Rightarrow> bool rs" where
  "looks_like_windows_drive_path value =
     (case split_once value 0x3A of
        None \<Rightarrow> Some False
      | Some (drive, _) \<Rightarrow>
          if length drive = 1 then do { d \<leftarrow> idx drive 0; Some (is_ascii_alphabetic d) }
          else Some False)"

definition absolute_http_authority :: "bytes \<Rightarrow> bytes option" where
  "absolute_http_authority value =
     (case find_sub (bstr ''://'') value of
        None \<Rightarrow> None
      | Some scheme_pos \<Rightarrow>
          let scheme = take scheme_pos value in
          if \<not> (eq_ignore_ascii_case scheme (bstr ''http'')
                \<or> eq_ignore_ascii_case scheme (bstr ''https''))
          then None
          else
            let rest = drop (scheme_pos + 3) value;
                authority = hd (split_on (\<lambda>b. b \<in> {0x2F, 0x5C, 0x3F, 0x23}) rest)
            in if authority \<noteq> [] then Some authority else None)"

section \<open>sanitize.rs\<close>

definition SINGLE_LINE_MAX_CHARS :: nat where
  "SINGLE_LINE_MAX_CHARS = 240"

definition single_line_char :: "nat \<Rightarrow> nat" where
  "single_line_char ch =
     (if char_is_control ch \<or> (char_is_whitespace ch \<and> ch \<noteq> 32) then 32 else ch)"

definition single_line :: "bytes \<Rightarrow> bytes" where
  "single_line value = utf8_encode (take SINGLE_LINE_MAX_CHARS (map single_line_char (chars value)))"

definition hex_digit :: "nat \<Rightarrow> u8" where
  "hex_digit n = (if n < 10 then word_of_nat (48 + n) else word_of_nat (87 + n))"

definition hex2 :: "u8 \<Rightarrow> bytes" where
  "hex2 b = [hex_digit (unat b div 16), hex_digit (unat b mod 16)]"

definition single_line_bytes :: "bytes \<Rightarrow> bytes" where
  "single_line_bytes data =
     (case from_utf8 data of
        Some text \<Rightarrow> single_line text
      | None \<Rightarrow>
          let rendered = bstr ''hex:'';
              max_hex_bytes = (SINGLE_LINE_MAX_CHARS - length rendered) div 2
          in rendered @ concat (map hex2 (take max_hex_bytes data)))"

definition str_trim :: "bytes \<Rightarrow> bytes" where
  "str_trim s = utf8_encode (trim_matches char_is_whitespace (chars s))"

definition command_output_preview :: "bytes \<Rightarrow> bytes" where
  "command_output_preview output =
     (case from_utf8 output of
        Some text \<Rightarrow>
          let text = str_trim text in
          if text \<noteq> [] \<and> list_all (\<lambda>ch. \<not> char_is_control ch) (chars text)
          then single_line text else single_line_bytes output
      | None \<Rightarrow> single_line_bytes output)"

definition contains_unicode_line_separator :: "bytes \<Rightarrow> bool" where
  "contains_unicode_line_separator value \<longleftrightarrow>
     list_ex (\<lambda>ch. ch \<in> {0x85, 0x2028, 0x2029}) (chars value)"

definition contains_line_separator :: "bytes \<Rightarrow> bool" where
  "contains_line_separator value \<longleftrightarrow>
     list_ex (\<lambda>ch. ch \<in> {0x0A, 0x0D, 0x85, 0x2028, 0x2029}) (chars value)"

definition contains_line_separator_or_control :: "bytes \<Rightarrow> bool" where
  "contains_line_separator_or_control value \<longleftrightarrow>
     list_ex (\<lambda>ch. char_is_control ch \<or> ch \<in> {0x85, 0x2028, 0x2029}) (chars value)"

definition is_ows :: "u8 \<Rightarrow> bool" where
  "is_ows b \<longleftrightarrow> b = 0x20 \<or> b = 0x09"

text \<open>The two loops of \<open>trim_http_ows_bytes\<close>.\<close>

fun trim_ows_front :: "bytes \<Rightarrow> bytes" where
  "trim_ows_front [] = []"
| "trim_ows_front (b # bs) = (if is_ows b then trim_ows_front bs else b # bs)"

function trim_ows_back :: "bytes \<Rightarrow> bytes" where
  "trim_ows_back value =
     (if value \<noteq> [] \<and> is_ows (last value) then trim_ows_back (butlast value) else value)"
  by pat_completeness auto
termination
  by (relation "measure length") auto

declare trim_ows_back.simps [simp del]

definition trim_http_ows_bytes :: "bytes \<Rightarrow> bytes" where
  "trim_http_ows_bytes value = trim_ows_back (trim_ows_front value)"

definition trim_ascii_spaces_tabs :: "bytes \<Rightarrow> bytes" where
  "trim_ascii_spaces_tabs value = trim_matches is_ows value"

definition dot_labels :: "bytes \<Rightarrow> bytes list" where
  "dot_labels value = split_on (\<lambda>b. b = 0x2E) value"

definition has_valid_domain_labels :: "bytes \<Rightarrow> bool" where
  "has_valid_domain_labels value \<longleftrightarrow>
     value \<noteq> [] \<and>
     list_all (\<lambda>label. label \<noteq> [] \<and> \<not> starts_with label [0x2D] \<and> \<not> ends_with label [0x2D]
         \<and> length label \<le> 63 \<and> list_all (\<lambda>b. is_ascii_alphanumeric b \<or> b = 0x2D) label)
       (dot_labels value)"

definition has_numeric_domain_labels :: "bytes \<Rightarrow> bool" where
  "has_numeric_domain_labels value \<longleftrightarrow>
     value \<noteq> [] \<and> list_all (\<lambda>label. label \<noteq> [] \<and> list_all is_ascii_digit label) (dot_labels value)"

definition has_valid_domain_label_lengths :: "bytes \<Rightarrow> bool" where
  "has_valid_domain_label_lengths value \<longleftrightarrow>
     list_all (\<lambda>label. label \<noteq> [] \<and> length label \<le> 63) (dot_labels value)"

text \<open>The \<open>Error::Config\<close> messages of \<open>validate_dns_custom_response_domain\<close>, one constructor each.\<close>

datatype dns_domain_error =
    BlankDomain
  | DomainTooLong nat
  | NotADnsName
  | BlankLabel
  | LabelTooLong nat
  | PartialWildcard
  | InvalidLabelCharacters

definition check_dns_label :: "bytes \<Rightarrow> dns_domain_error + unit" where
  "check_dns_label label =
     (if label = [] then Inl BlankLabel
      else if length label > 63 then Inl (LabelTooLong (length label))
      else if 0x2A \<in> set label \<and> label \<noteq> bstr ''*'' then Inl PartialWildcard
      else if label \<noteq> bstr ''*''
              \<and> (starts_with label [0x2D] \<or> ends_with label [0x2D]
                 \<or> \<not> list_all (\<lambda>b. is_ascii_alphanumeric b \<or> b = 0x2D) label)
           then Inl InvalidLabelCharacters
      else Inr ())"

fun check_dns_labels :: "bytes list \<Rightarrow> dns_domain_error + unit" where
  "check_dns_labels [] = Inr ()"
| "check_dns_labels (label # labels) =
     (case check_dns_label label of Inl e \<Rightarrow> Inl e | Inr _ \<Rightarrow> check_dns_labels labels)"

definition validate_dns_custom_response_domain :: "bytes \<Rightarrow> dns_domain_error + unit" where
  "validate_dns_custom_response_domain domain =
     (case (case strip_suffix domain [0x2E] of
              Some candidate \<Rightarrow>
                if candidate = [] \<or> ends_with candidate [0x2E] then Inl BlankDomain
                else Inr candidate
            | None \<Rightarrow> Inr domain) of
        Inl e \<Rightarrow> Inl e
      | Inr candidate \<Rightarrow>
          if candidate = [] then Inl BlankDomain
          else if length candidate > 253 then Inl (DomainTooLong (length candidate))
          else if parse_ip_addr candidate \<noteq> None \<or> has_numeric_domain_labels candidate
               then Inl NotADnsName
          else check_dns_labels (dot_labels candidate))"

section \<open>timestamp.rs\<close>

text \<open>A \<open>SystemTime\<close> is its distance from the epoch in nanoseconds. \<open>duration_since\<close> the
  epoch is \<open>Ok\<close> of a non-negative duration or \<open>Err\<close> of the positive distance before it.\<close>

definition i64_max :: int where "i64_max = 2 ^ 63 - 1"
definition i64_min :: int where "i64_min = - (2 ^ 63)"
definition i128_max :: int where "i128_max = 2 ^ 127 - 1"
definition i128_min :: int where "i128_min = - (2 ^ 127)"

definition try_from_signed :: "int \<Rightarrow> int \<Rightarrow> int option" where
  "try_from_signed limit n = (if n \<le> limit then Some n else None)"

text \<open>\<open>x.checked_add(borrow).and_then(checked_neg).unwrap_or(MIN)\<close>.\<close>

definition neg_with_borrow :: "int \<Rightarrow> int \<Rightarrow> int \<Rightarrow> int \<Rightarrow> int" where
  "neg_with_borrow limit lowest x borrow = (if x + borrow \<le> limit then - (x + borrow) else lowest)"

definition system_time_unix_secs :: "int \<Rightarrow> int" where
  "system_time_unix_secs now =
     (if 0 \<le> now then
        (case try_from_signed i64_max (now div 1000000000) of None \<Rightarrow> i64_max | Some s \<Rightarrow> s)
      else
        let before = - now in
        (case try_from_signed i64_max (before div 1000000000) of
           None \<Rightarrow> i64_min
         | Some seconds \<Rightarrow>
             neg_with_borrow i64_max i64_min seconds
               (if before mod 1000000000 \<noteq> 0 then 1 else 0)))"

definition system_time_unix_millis :: "int \<Rightarrow> int" where
  "system_time_unix_millis now =
     (if 0 \<le> now then
        (case try_from_signed i128_max (now div 1000000) of None \<Rightarrow> i128_max | Some s \<Rightarrow> s)
      else
        let before = - now;
            millis = (case try_from_signed i128_max (before div 1000000) of
                        None \<Rightarrow> i128_max | Some s \<Rightarrow> s)
        in neg_with_borrow i128_max i128_min millis
             (if before mod 1000000000 mod 1000000 \<noteq> 0 then 1 else 0))"

definition system_time_unix_nanos :: "int \<Rightarrow> int" where
  "system_time_unix_nanos now =
     (if 0 \<le> now then (case try_from_signed i128_max now of None \<Rightarrow> i128_max | Some s \<Rightarrow> s)
      else (case try_from_signed i128_max (- now) of None \<Rightarrow> i128_min | Some s \<Rightarrow> - s))"

section \<open>Properties\<close>

lemma unsigned_decimal_bound [in_bounds]: "unsigned_decimal limit s = Some n \<Longrightarrow> n \<le> limit"
  by (auto simp: unsigned_decimal_def parse_digits_def split: if_splits)

lemma nonzero_port_bound [in_bounds]: "nonzero_port s = Some n \<Longrightarrow> 0 < n \<and> n \<le> 65535"
  using unsigned_decimal_bound by (auto simp: nonzero_port_def split: option.splits if_splits)

lemma looks_like_windows_drive_path_total [no_panic]:
  "looks_like_windows_drive_path value \<noteq> None"
  by (auto simp: looks_like_windows_drive_path_def split: option.splits)

text \<open>
  Decimal parsing inverts decimal printing and is bounded by its integer type:
  printing \<open>n\<close> and parsing it back into an unsigned type with maximum \<open>limit\<close> gives \<open>n\<close>
  when it fits and an error when it does not.
\<close>

lemma unsigned_decimal_show_dec:
  "unsigned_decimal limit (show_dec n) = (if n \<le> limit then Some n else None)"
  by (simp add: unsigned_decimal_def list_all_iff show_dec_digits parse_digits_def dec_value_show_dec)

lemma scalar_single_line_char: "scalar_value ch \<Longrightarrow> scalar_value (single_line_char ch)"
  by (simp add: single_line_char_def scalar_value_def)

lemma chars_single_line:
  "chars (single_line v) = take SINGLE_LINE_MAX_CHARS (map single_line_char (chars v))"
proof -
  have "\<forall>c \<in> set (take SINGLE_LINE_MAX_CHARS (map single_line_char (chars v))). scalar_value c"
    using chars_scalar [of v] by (auto dest!: in_set_takeD simp: scalar_single_line_char)
  then show ?thesis by (simp add: single_line_def chars_encode)
qed

lemma utf8_single_line: "utf8_decode (single_line v) \<noteq> None"
proof -
  have "\<forall>c \<in> set (take SINGLE_LINE_MAX_CHARS (map single_line_char (chars v))). scalar_value c"
    using chars_scalar [of v] by (auto dest!: in_set_takeD simp: scalar_single_line_char)
  then show ?thesis by (simp add: single_line_def utf8_decode_encode)
qed

lemma single_line_char_safe:
  "\<not> char_is_control (single_line_char ch)"
  "char_is_whitespace (single_line_char ch) \<Longrightarrow> single_line_char ch = 32"
  by (auto simp: single_line_char_def char_is_control_def char_is_whitespace_def split: if_splits)

lemma single_line_char_idem: "single_line_char (single_line_char ch) = single_line_char ch"
  by (auto simp: single_line_char_def char_is_control_def char_is_whitespace_def split: if_splits)

text \<open>A value that can be written to a log as one line.\<close>

definition log_safe :: "bytes \<Rightarrow> bool" where
  "log_safe s \<longleftrightarrow> utf8_decode s \<noteq> None \<and> length (chars s) \<le> SINGLE_LINE_MAX_CHARS
     \<and> (\<forall>ch \<in> set (chars s). \<not> char_is_control ch \<and> (char_is_whitespace ch \<longrightarrow> ch = 32))"

lemma log_safe_single_line: "log_safe (single_line value)"
  by (auto simp: log_safe_def utf8_single_line chars_single_line
      dest!: in_set_takeD single_line_char_safe(2) simp: single_line_char_safe(1))

lemma unat_hex_digit: "n < 16 \<Longrightarrow> unat (hex_digit n) = (if n < 10 then 48 + n else 87 + n)"
  by (simp add: hex_digit_def unat_word_of_nat_u8 del: of_nat_add)

lemma hex2_printable: "b \<in> set (hex2 x) \<Longrightarrow> 48 \<le> unat b \<and> unat b \<le> 102"
proof -
  assume "b \<in> set (hex2 x)"
  moreover have "unat x div 16 < 16" using unat_u8_less [of x] by linarith
  ultimately show ?thesis by (auto simp: hex2_def unat_hex_digit)
qed

lemma log_safe_ascii:
  assumes "\<forall>b \<in> set s. 32 \<le> unat b \<and> unat b \<le> 126" and "length s \<le> SINGLE_LINE_MAX_CHARS"
  shows "log_safe s"
proof -
  have "utf8_decode s = Some (map unat s)"
    using assms(1) by (intro utf8_decode_ascii) auto
  with assms show ?thesis
    by (auto simp: log_safe_def chars_def char_is_control_def char_is_whitespace_def)
qed

lemma length_hex_dump: "length (concat (map hex2 xs)) = 2 * length xs"
  by (induction xs) (simp_all add: hex2_def)

lemma log_safe_single_line_bytes: "log_safe (single_line_bytes data)"
proof (cases "from_utf8 data")
  case (Some t)
  then show ?thesis by (simp add: single_line_bytes_def log_safe_single_line)
next
  case None
  have hex: "\<forall>b \<in> set (bstr ''hex:''). 32 \<le> unat b \<and> unat b \<le> 126"
    by (simp add: bstr_def)
  let ?s = "bstr ''hex:'' @ concat (map hex2 (take 118 data))"
  have "single_line_bytes data = ?s"
    using None by (simp add: single_line_bytes_def SINGLE_LINE_MAX_CHARS_def bstr_def)
  moreover have "log_safe ?s"
  proof (rule log_safe_ascii)
    show "\<forall>b \<in> set ?s. 32 \<le> unat b \<and> unat b \<le> 126"
      using hex by (auto dest!: hex2_printable)
    have "length ?s = 4 + 2 * length (take 118 data)"
      by (simp add: length_hex_dump bstr_def del: length_take)
    also have "\<dots> \<le> 240" by simp
    finally show "length ?s \<le> SINGLE_LINE_MAX_CHARS" by (simp add: SINGLE_LINE_MAX_CHARS_def)
  qed
  ultimately show ?thesis by simp
qed

text \<open>
  Whatever bytes an attacker sends, the preview that reaches the log
  (\<open>single_line_bytes\<close>) is valid UTF-8, holds at most 240 characters, and contains no control
  character and no whitespace but the plain space, hence no line break of any kind.
\<close>

lemma single_line_bytes_log_safe: "log_safe (single_line_bytes data)"
  by (rule log_safe_single_line_bytes)

lemma command_output_preview_log_safe: "log_safe (command_output_preview output)"
  by (simp add: command_output_preview_def Let_def log_safe_single_line
      log_safe_single_line_bytes split: option.split)

lemma single_line_idem: "single_line (single_line v) = single_line v"
proof -
  let ?m = "map single_line_char (chars v)"
  have "map single_line_char (take n ?m) = take n ?m" for n
    by (simp add: take_map single_line_char_idem comp_def)
  then show ?thesis
    by (simp add: single_line_def [of "single_line v"] chars_single_line)
      (simp add: single_line_def)
qed

lemma trim_ows_front_eq: "trim_ows_front s = dropWhile is_ows s"
  by (induction s) auto

lemma trim_ows_back_eq: "trim_ows_back s = rev (dropWhile is_ows (rev s))"
proof (induction s rule: rev_induct)
  case Nil
  then show ?case by (subst trim_ows_back.simps) simp
next
  case (snoc b s)
  then show ?case by (subst trim_ows_back.simps) simp
qed

lemma trim_http_ows_bytes_eq: "trim_http_ows_bytes s = trim_matches is_ows s"
  by (simp add: trim_http_ows_bytes_def trim_matches_def trim_ows_front_eq trim_ows_back_eq)

lemma check_dns_labels_ok:
  "check_dns_labels ls = Inr () \<longleftrightarrow> (\<forall>l \<in> set ls. check_dns_label l = Inr ())"
  by (induction ls) (auto split: sum.splits)

definition good_dns_label :: "bytes \<Rightarrow> bool" where
  "good_dns_label l \<longleftrightarrow> l = bstr ''*'' \<or>
     (l \<noteq> [] \<and> length l \<le> 63 \<and> hd l \<noteq> 0x2D \<and> last l \<noteq> 0x2D
      \<and> (\<forall>b \<in> set l. is_ascii_alphanumeric b \<or> b = 0x2D))"

lemma starts_with_single: "starts_with l [c] \<longleftrightarrow> l \<noteq> [] \<and> hd l = c"
  by (cases l) (auto simp: starts_with_def)

lemma ends_with_single: "ends_with l [c] \<longleftrightarrow> l \<noteq> [] \<and> last l = c"
  by (cases l rule: rev_cases) (auto simp: ends_with_def)

lemma check_dns_label_ok: "check_dns_label l = Inr () \<longleftrightarrow> good_dns_label l"
proof -
  have "\<not> is_ascii_alphanumeric 0x2A"
    by (simp add: is_ascii_alphanumeric_def is_ascii_alphabetic_def is_ascii_uppercase_def
        is_ascii_lowercase_def is_ascii_digit_def)
  then have "0x2A \<in> set l \<Longrightarrow> \<not> (\<forall>b \<in> set l. is_ascii_alphanumeric b \<or> b = 0x2D)" by auto
  then show ?thesis
    by (auto simp: check_dns_label_def good_dns_label_def starts_with_single ends_with_single
        list_all_iff bstr_def)
qed

lemma strip_suffix_single:
  "strip_suffix s [c] = (if s \<noteq> [] \<and> last s = c then Some (butlast s) else None)"
  by (cases s rule: rev_cases) (auto simp: strip_suffix_def ends_with_single)

text \<open>
  The custom-response domain check accepts exactly the DNS names it documents: after
  one optional trailing dot, a non-empty name of at most 253 bytes that is neither an IP literal
  nor all-numeric, each of whose labels is the complete wildcard or a 1 to 63 byte label of
  letters, digits and inner hyphens.
\<close>

lemma validate_dns_custom_response_domain_iff:
  "validate_dns_custom_response_domain domain = Inr () \<longleftrightarrow>
     (\<exists>c. (domain = c \<and> (c = [] \<or> last c \<noteq> 0x2E) \<or> domain = c @ [0x2E] \<and> c \<noteq> [] \<and> last c \<noteq> 0x2E)
        \<and> c \<noteq> [] \<and> length c \<le> 253 \<and> parse_ip_addr c = None \<and> \<not> has_numeric_domain_labels c
        \<and> (\<forall>l \<in> set (dot_labels c). good_dns_label l))"
  (is "?L \<longleftrightarrow> (\<exists>c. ?form c \<and> ?ok c)")
proof (cases "domain \<noteq> [] \<and> last domain = 0x2E")
  case True
  then obtain c0 where c0: "domain = c0 @ [0x2E]" by (metis append_butlast_last_id)
  then have "?form c \<longleftrightarrow> c = c0 \<and> c0 \<noteq> [] \<and> last c0 \<noteq> 0x2E" for c by auto
  then have "(\<exists>c. ?form c \<and> ?ok c) \<longleftrightarrow> c0 \<noteq> [] \<and> last c0 \<noteq> 0x2E \<and> ?ok c0" by auto
  with c0 show ?thesis
    by (auto simp: validate_dns_custom_response_domain_def strip_suffix_single ends_with_single
        check_dns_labels_ok check_dns_label_ok)
next
  case False
  then have "?form c \<longleftrightarrow> c = domain" for c by auto
  with False show ?thesis
    by (auto simp: validate_dns_custom_response_domain_def strip_suffix_single
        check_dns_labels_ok check_dns_label_ok)
qed

theorem validate_dns_custom_response_domain_witness:
  "validate_dns_custom_response_domain (bstr ''z.'') = Inr ()"
proof -
  have "parse_ip_addr [0x7A] = None"
    by (simp add: parse_ip_addr_def parse_ipv6_def read_ipv4_addr_def read_ipv6_addr_def
        read_octet_def digit_value_def read_number_def read_given_char_def read_separator_def
        read_groups.simps(2) [of 7, simplified])
  moreover have "\<not> has_numeric_domain_labels [0x7A]"
    by (simp add: has_numeric_domain_labels_def dot_labels_def is_ascii_digit_def)
  moreover have "list_all good_dns_label (dot_labels [0x7A])"
    by (simp add: good_dns_label_def dot_labels_def is_ascii_alphanumeric_def
        is_ascii_alphabetic_def is_ascii_lowercase_def)
  ultimately show ?thesis
    unfolding validate_dns_custom_response_domain_iff
    by (intro exI [of _ "[0x7A]"]) (simp add: bstr_def list_all_iff)
qed

lemma neg_floor_div: "0 < (d::int) \<Longrightarrow> now div d = - ((- now) div d + (if (- now) mod d \<noteq> 0 then 1 else 0))"
  using zdiv_zminus1_eq_if [of d "- now"] by auto

text \<open>
  The clock conversion to whole seconds is floor division, before the epoch too, and
  it saturates at the bounds of \<open>i64\<close> instead of wrapping.
\<close>

lemma system_time_unix_secs_floor:
  "system_time_unix_secs now = max i64_min (min i64_max (now div 1000000000))"
proof (cases "0 \<le> now")
  case True
  then have "0 \<le> now div 1000000000" by simp
  with True show ?thesis
    by (auto simp: system_time_unix_secs_def try_from_signed_def i64_max_def i64_min_def)
next
  case False
  let ?s = "(- now) div 1000000000"
  let ?b = "if (- now) mod 1000000000 \<noteq> 0 then 1 else (0::int)"
  have "now div 1000000000 = - (?s + ?b)" by (rule neg_floor_div) simp
  moreover have "0 \<le> ?s" using False by simp
  ultimately show ?thesis using False
    by (simp add: system_time_unix_secs_def try_from_signed_def neg_with_borrow_def Let_def
        i64_max_def i64_min_def max_def min_def)
qed

lemma system_time_unix_nanos_clamp:
  "system_time_unix_nanos now = max i128_min (min i128_max now)"
  by (auto simp: system_time_unix_nanos_def try_from_signed_def i128_max_def i128_min_def)

end
