(* ===== verification/Core_Net.thy ===== *)
theory Core_Net
  imports Core_Text
begin

text \<open>
  The data model of \<open>nettrap-core\<close>: transport and application protocols and the five-tuple
  (\<open>protocol.rs\<close>), packets and TCP flags (\<open>packet.rs\<close>), process information
  (\<open>process.rs\<close>) and the per-flow counters (\<open>flow.rs\<close>). A \<open>chrono\<close> timestamp is an
  \<open>int\<close> of nanoseconds and a UUID a 128-bit word; the values \<open>Uuid::new_v4()\<close> and
  \<open>now()\<close> return are arguments of the operations that call them.
\<close>

type_synonym uuid = "128 word"

section \<open>protocol.rs\<close>

datatype protocol = Tcp | Udp | Icmp | Igmp | UnknownProtocol u8

fun to_ip_protocol :: "protocol \<Rightarrow> u8" where
  "to_ip_protocol Tcp = 6"
| "to_ip_protocol Udp = 17"
| "to_ip_protocol Icmp = 1"
| "to_ip_protocol Igmp = 2"
| "to_ip_protocol (UnknownProtocol p) = p"

fun is_stream :: "protocol \<Rightarrow> bool" where
  "is_stream Tcp = True"
| "is_stream _ = False"

fun protocol_display :: "protocol \<Rightarrow> bytes" where
  "protocol_display Tcp = bstr ''TCP''"
| "protocol_display Udp = bstr ''UDP''"
| "protocol_display Icmp = bstr ''ICMP''"
| "protocol_display Igmp = bstr ''IGMP''"
| "protocol_display (UnknownProtocol p) = bstr ''UNKNOWN('' @ show_dec (unat p) @ bstr '')''"

datatype application_protocol =
    App_Dns | App_DnsOverTls | App_DnsOverHttps | App_Http | App_Https | App_Ftp | App_Ftps
  | App_Smtp | App_Smtps | App_Pop3 | App_Pop3s | App_Imap | App_Imaps | App_Ldap | App_Ssh
  | App_Telnet | App_Telnets | App_Ircs | App_Ldaps | App_Quic | App_Tls | App_Ssl | App_Mqtt
  | App_Coap | App_Raw | App_Unknown u16

fun application_protocol_display :: "application_protocol \<Rightarrow> bytes" where
  "application_protocol_display App_Dns = bstr ''DNS''"
| "application_protocol_display App_DnsOverTls = bstr ''DoT''"
| "application_protocol_display App_DnsOverHttps = bstr ''DoH''"
| "application_protocol_display App_Http = bstr ''HTTP''"
| "application_protocol_display App_Https = bstr ''HTTPS''"
| "application_protocol_display App_Ftp = bstr ''FTP''"
| "application_protocol_display App_Ftps = bstr ''FTPS''"
| "application_protocol_display App_Smtp = bstr ''SMTP''"
| "application_protocol_display App_Smtps = bstr ''SMTPS''"
| "application_protocol_display App_Pop3 = bstr ''POP3''"
| "application_protocol_display App_Ldap = bstr ''LDAP''"
| "application_protocol_display App_Pop3s = bstr ''POP3S''"
| "application_protocol_display App_Imap = bstr ''IMAP''"
| "application_protocol_display App_Imaps = bstr ''IMAPS''"
| "application_protocol_display App_Ssh = bstr ''SSH''"
| "application_protocol_display App_Telnet = bstr ''TELNET''"
| "application_protocol_display App_Telnets = bstr ''TELNETS''"
| "application_protocol_display App_Ircs = bstr ''IRCS''"
| "application_protocol_display App_Ldaps = bstr ''LDAPS''"
| "application_protocol_display App_Quic = bstr ''QUIC''"
| "application_protocol_display App_Tls = bstr ''TLS''"
| "application_protocol_display App_Ssl = bstr ''SSL''"
| "application_protocol_display App_Mqtt = bstr ''MQTT''"
| "application_protocol_display App_Coap = bstr ''CoAP''"
| "application_protocol_display App_Raw = bstr ''RAW''"
| "application_protocol_display (App_Unknown p) = bstr ''UNKNOWN('' @ show_dec (unat p) @ bstr '')''"

fun canonicalize_ip :: "ip_addr \<Rightarrow> ip_addr" where
  "canonicalize_ip (V4 ip) = V4 ip"
| "canonicalize_ip (V6 ip) = (case to_ipv4_mapped ip of None \<Rightarrow> V6 ip | Some v4 \<Rightarrow> V4 v4)"

record five_tuple =
  src_ip :: ip_addr
  dst_ip :: ip_addr
  src_port :: u16
  dst_port :: u16
  protocol :: protocol

definition five_tuple_new :: "ip_addr \<Rightarrow> ip_addr \<Rightarrow> u16 \<Rightarrow> u16 \<Rightarrow> protocol \<Rightarrow> five_tuple" where
  "five_tuple_new s d sp dp p =
     \<lparr>src_ip = canonicalize_ip s, dst_ip = canonicalize_ip d, src_port = sp, dst_port = dp,
      protocol = p\<rparr>"

text \<open>A \<open>FlowKey\<close> is the 64-bit \<open>DefaultHasher\<close> value of the tuple. The algorithm of
  \<open>DefaultHasher\<close> is documented as unspecified, so the hash function is an argument.\<close>

type_synonym flow_key = u64

definition from_five_tuple :: "(five_tuple \<Rightarrow> u64) \<Rightarrow> five_tuple \<Rightarrow> flow_key" where
  "from_five_tuple hash tuple = hash tuple"

definition to_flow_key :: "(five_tuple \<Rightarrow> u64) \<Rightarrow> five_tuple \<Rightarrow> flow_key" where
  "to_flow_key hash tuple = from_five_tuple hash tuple"

section \<open>packet.rs\<close>

datatype packet_direction = PktInbound | PktOutbound | PktUnknown

fun is_inbound :: "packet_direction \<Rightarrow> bool" where
  "is_inbound PktInbound = True"
| "is_inbound _ = False"

datatype packet_type =
  TypeSyn | TypeSynAck | TypeAck | TypeFin | TypeFinAck | TypeRst | TypePush | TypeData | TypeUnknown

text \<open>\<open>TcpFlags\<close> wraps the flag byte. The type is generated by the \<open>bitflags\<close> crate, so its
  method \<open>contains\<close> is an argument of the functions that call it; the crate documents it as a
  test that all bits of the second argument are set in the first.\<close>

type_synonym tcp_flags = u8

definition FIN :: tcp_flags where "FIN = 0x01"
definition SYN :: tcp_flags where "SYN = 0x02"
definition RST :: tcp_flags where "RST = 0x04"
definition PSH :: tcp_flags where "PSH = 0x08"
definition ACK :: tcp_flags where "ACK = 0x10"
definition URG :: tcp_flags where "URG = 0x20"
definition ECE :: tcp_flags where "ECE = 0x40"
definition CWR :: tcp_flags where "CWR = 0x80"

lemmas tcp_flag_defs = FIN_def SYN_def RST_def PSH_def ACK_def URG_def ECE_def CWR_def

type_synonym flag_test = "tcp_flags \<Rightarrow> tcp_flags \<Rightarrow> bool"

definition to_packet_type :: "flag_test \<Rightarrow> tcp_flags \<Rightarrow> packet_type" where
  "to_packet_type contains fs =
     (if contains fs SYN \<and> \<not> contains fs ACK then TypeSyn
      else if contains fs SYN \<and> contains fs ACK then TypeSynAck
      else if contains fs RST then TypeRst
      else if contains fs FIN \<and> \<not> contains fs ACK then TypeFin
      else if contains fs FIN \<and> contains fs ACK then TypeFinAck
      else if contains fs PSH then TypePush
      else if contains fs ACK then TypeAck
      else TypeUnknown)"

record packet =
  pkt_id :: uuid
  pkt_timestamp :: timestamp
  pkt_five_tuple :: five_tuple
  pkt_direction :: packet_direction
  pkt_packet_type :: packet_type
  pkt_tcp_flags :: "tcp_flags option"
  pkt_payload :: bytes
  pkt_length :: usize
  pkt_interface :: "bytes option"
  pkt_vlan_tag :: "u16 option"

definition packet_new ::
  "uuid \<Rightarrow> timestamp \<Rightarrow> five_tuple \<Rightarrow> packet_direction \<Rightarrow> bytes \<Rightarrow> packet" where
  "packet_new new_v4 now tuple direction payload =
     \<lparr>pkt_id = new_v4, pkt_timestamp = now, pkt_five_tuple = tuple, pkt_direction = direction,
      pkt_packet_type = TypeUnknown, pkt_tcp_flags = None, pkt_payload = payload,
      pkt_length = length payload, pkt_interface = None, pkt_vlan_tag = None\<rparr>"

definition with_tcp_flags :: "flag_test \<Rightarrow> packet \<Rightarrow> tcp_flags \<Rightarrow> packet" where
  "with_tcp_flags contains p flags =
     p\<lparr>pkt_packet_type := to_packet_type contains flags, pkt_tcp_flags := Some flags\<rparr>"

definition with_interface :: "packet \<Rightarrow> bytes \<Rightarrow> packet" where
  "with_interface p iface = p\<lparr>pkt_interface := Some iface\<rparr>"

definition with_vlan :: "packet \<Rightarrow> u16 \<Rightarrow> packet" where
  "with_vlan p tag = p\<lparr>pkt_vlan_tag := Some tag\<rparr>"

definition packet_src :: "packet \<Rightarrow> ip_addr \<times> u16" where
  "packet_src p = (src_ip (pkt_five_tuple p), src_port (pkt_five_tuple p))"

definition packet_dst :: "packet \<Rightarrow> ip_addr \<times> u16" where
  "packet_dst p = (dst_ip (pkt_five_tuple p), dst_port (pkt_five_tuple p))"

section \<open>process.rs\<close>

record process_info =
  pi_pid :: u32
  pi_name :: bytes
  pi_path :: "bytes option"
  pi_command_line :: "bytes option"
  pi_user :: "bytes option"
  pi_parent_pid :: "u32 option"
  pi_created_at :: "timestamp option"

definition normalize_process_name :: "u32 \<Rightarrow> bytes \<Rightarrow> bytes" where
  "normalize_process_name pid name =
     (let name = str_trim (single_line name) in
      if name = [] then bstr ''pid-'' @ show_dec (unat pid) else name)"

definition normalize_optional_text :: "bytes \<Rightarrow> bytes option" where
  "normalize_optional_text v =
     (let v = single_line v in if str_trim v = [] then None else Some v)"

definition process_info_new :: "u32 \<Rightarrow> bytes \<Rightarrow> process_info" where
  "process_info_new pid name =
     \<lparr>pi_pid = pid, pi_name = normalize_process_name pid name, pi_path = None,
      pi_command_line = None, pi_user = None, pi_parent_pid = None, pi_created_at = None\<rparr>"

definition with_path :: "process_info \<Rightarrow> bytes \<Rightarrow> process_info" where
  "with_path p path = p\<lparr>pi_path := normalize_optional_text path\<rparr>"

definition with_command_line :: "process_info \<Rightarrow> bytes \<Rightarrow> process_info" where
  "with_command_line p cmd = p\<lparr>pi_command_line := normalize_optional_text cmd\<rparr>"

definition process_info_unknown :: process_info where
  "process_info_unknown =
     \<lparr>pi_pid = 0, pi_name = bstr ''<unknown>'', pi_path = None, pi_command_line = None,
      pi_user = None, pi_parent_pid = None, pi_created_at = None\<rparr>"

datatype attribution_confidence =
  ConfidenceNone | ConfidenceLow | ConfidenceMedium | ConfidenceHigh | ConfidenceDefinitive

datatype attribution_method =
  MethodNone | SocketTable | ConnectionTable | KernelHook | Procfs | Wfp | Heuristic

fun attribution_method_display :: "attribution_method \<Rightarrow> bytes" where
  "attribution_method_display MethodNone = bstr ''none''"
| "attribution_method_display SocketTable = bstr ''socket_table''"
| "attribution_method_display ConnectionTable = bstr ''connection_table''"
| "attribution_method_display KernelHook = bstr ''kernel_hook''"
| "attribution_method_display Procfs = bstr ''procfs''"
| "attribution_method_display Wfp = bstr ''wfp''"
| "attribution_method_display Heuristic = bstr ''heuristic''"

record attribution =
  at_process :: process_info
  at_confidence :: attribution_confidence
  at_method :: attribution_method
  at_timestamp :: timestamp

definition attribution_new ::
  "timestamp \<Rightarrow> process_info \<Rightarrow> attribution_confidence \<Rightarrow> attribution_method \<Rightarrow> attribution" where
  "attribution_new now p c m = \<lparr>at_process = p, at_confidence = c, at_method = m, at_timestamp = now\<rparr>"

definition attribution_unknown :: "timestamp \<Rightarrow> attribution" where
  "attribution_unknown now =
     \<lparr>at_process = process_info_unknown, at_confidence = ConfidenceNone, at_method = MethodNone,
      at_timestamp = now\<rparr>"

section \<open>flow.rs\<close>

datatype flow_state = FsNew | FsConnecting | FsEstablished | FsClosing | FsClosed | FsError

fun is_terminal :: "flow_state \<Rightarrow> bool" where
  "is_terminal FsClosed = True"
| "is_terminal FsError = True"
| "is_terminal _ = False"

record flow_metadata =
  fm_process :: "process_info option"
  fm_attribution :: "attribution option"
  bytes_sent :: u64
  bytes_received :: u64
  packets_sent :: u64
  packets_received :: u64
  first_seen :: timestamp
  last_seen :: timestamp
  first_packet_id :: "uuid option"
  last_packet_id :: "uuid option"
  fm_application_protocol :: "application_protocol option"
  fm_sni :: "bytes option"
  fm_ja3 :: "bytes option"
  fm_ja3s :: "bytes option"
  fm_http_host :: "bytes option"
  fm_http_uri :: "bytes option"
  fm_dns_query :: "bytes option"
  fm_user_agent :: "bytes option"

definition flow_metadata_new_with_now :: "timestamp \<Rightarrow> flow_metadata" where
  "flow_metadata_new_with_now now =
     \<lparr>fm_process = None, fm_attribution = None, bytes_sent = 0, bytes_received = 0,
      packets_sent = 0, packets_received = 0, first_seen = now, last_seen = now,
      first_packet_id = None, last_packet_id = None, fm_application_protocol = None,
      fm_sni = None, fm_ja3 = None, fm_ja3s = None, fm_http_host = None, fm_http_uri = None,
      fm_dns_query = None, fm_user_agent = None\<rparr>"

definition total_bytes :: "flow_metadata \<Rightarrow> u64" where
  "total_bytes m = saturating_add (bytes_sent m) (bytes_received m)"

definition metadata_update_sent :: "flow_metadata \<Rightarrow> u64 \<Rightarrow> uuid \<Rightarrow> timestamp \<Rightarrow> flow_metadata" where
  "metadata_update_sent m n packet_id now =
     m\<lparr>bytes_sent := saturating_add (bytes_sent m) n,
       packets_sent := saturating_add (packets_sent m) 1,
       last_seen := now, last_packet_id := Some packet_id\<rparr>"

definition metadata_update_received ::
  "flow_metadata \<Rightarrow> u64 \<Rightarrow> uuid \<Rightarrow> timestamp \<Rightarrow> flow_metadata" where
  "metadata_update_received m n packet_id now =
     m\<lparr>bytes_received := saturating_add (bytes_received m) n,
       packets_received := saturating_add (packets_received m) 1,
       last_seen := now, last_packet_id := Some packet_id\<rparr>"

section \<open>Properties\<close>

text \<open>No address of a five-tuple built by \<open>FiveTuple::new\<close> is an IPv4-mapped IPv6 address.\<close>

fun is_canonical_ip :: "ip_addr \<Rightarrow> bool" where
  "is_canonical_ip (V4 _) = True"
| "is_canonical_ip (V6 ip) = (to_ipv4_mapped ip = None)"

lemma canonicalize_ip_canonical: "is_canonical_ip (canonicalize_ip ip)"
  by (cases ip) (auto split: option.splits)

lemma canonicalize_ip_id: "is_canonical_ip ip \<Longrightarrow> canonicalize_ip ip = ip"
  by (cases ip) auto

lemma to_ipv4_mapped_Ipv6:
  "to_ipv4_mapped (Ipv6 0 0 0 0 0 0xFFFF (u16_be a b) (u16_be c d)) = Some (Ipv4 a b c d)"
proof -
  have "u16_hi (u16_be x y) = x" "u16_lo (u16_be x y) = y" for x y
    by (simp_all add: word_unat_eq_iff)
  then show ?thesis by simp
qed

text \<open>
  Five-tuples are canonical: building one from the IPv4-mapped spelling of an address
  gives the same tuple, hence the same flow key, as building it from the IPv4 address itself, and
  a tuple already built is unchanged when it is built again from its own fields.
\<close>

lemma five_tuple_new_canonical:
  "five_tuple_new (V6 (Ipv6 0 0 0 0 0 0xFFFF (u16_be a b) (u16_be c e))) d sp dp p =
     five_tuple_new (V4 (Ipv4 a b c e)) d sp dp p \<and>
   five_tuple_new s (V6 (Ipv6 0 0 0 0 0 0xFFFF (u16_be a b) (u16_be c e))) sp dp p =
     five_tuple_new s (V4 (Ipv4 a b c e)) sp dp p \<and>
   (let t = five_tuple_new s d sp dp p in
    is_canonical_ip (src_ip t) \<and> is_canonical_ip (dst_ip t) \<and>
    five_tuple_new (src_ip t) (dst_ip t) (src_port t) (dst_port t) (protocol t) = t)"
  by (simp add: five_tuple_new_def canonicalize_ip_canonical canonicalize_ip_id
      to_ipv4_mapped_Ipv6 Let_def del: to_ipv4_mapped.simps)

lemma total_bytes_nat:
  "unat (total_bytes m) = min (unat (bytes_sent m) + unat (bytes_received m)) (2 ^ 64 - 1)"
  by (simp add: total_bytes_def unat_saturating_add)

text \<open>The counters of a flow after a sequence of observed transfers.\<close>

datatype transfer = Sent u64 | Received u64

fun apply_transfer :: "uuid \<Rightarrow> timestamp \<Rightarrow> flow_metadata \<Rightarrow> transfer \<Rightarrow> flow_metadata" where
  "apply_transfer pid now m (Sent n) = metadata_update_sent m n pid now"
| "apply_transfer pid now m (Received n) = metadata_update_received m n pid now"

fun sent_total :: "transfer list \<Rightarrow> nat" where
  "sent_total [] = 0"
| "sent_total (Sent n # ts) = unat n + sent_total ts"
| "sent_total (Received n # ts) = sent_total ts"

lemma fold_transfers_sent:
  "unat (bytes_sent (foldl (apply_transfer pid now) m ts)) =
     min (unat (bytes_sent m) + sent_total ts) (2 ^ 64 - 1)"
proof (induction ts arbitrary: m rule: sent_total.induct)
  case 1
  have "unat (bytes_sent m) < 2 ^ 64" using unsigned_less [of "bytes_sent m", where ?'a = nat] by simp
  then show ?case by simp
qed (simp_all add: metadata_update_sent_def metadata_update_received_def unat_saturating_add)

text \<open>
  Flow byte counters saturate: after any sequence of transfers the \<open>bytes_sent\<close>
  counter of a fresh flow is the exact total when it fits in 64 bits and the 64-bit maximum
  otherwise; it never wraps to a small number.
\<close>

lemma bytes_sent_saturates:
  "unat (bytes_sent (foldl (apply_transfer pid now) (flow_metadata_new_with_now t0) ts)) =
     min (sent_total ts) (2 ^ 64 - 1)"
  by (simp add: fold_transfers_sent) (simp add: flow_metadata_new_with_now_def)

end
