(* ===== verification/Flow_State.thy ===== *)
theory Flow_State
  imports Core_Net
begin

text \<open>
  Flows and their state machine: \<open>flow.rs\<close> and \<open>state.rs\<close> of \<open>nettrap-flow\<close>. The TCP tracker
  \<open>transition_tcp\<close> is a function of the flow and the packet, as in the code; \<open>tcp_step\<close> is the
  step relation it induces on tracker states, over which the handshake theorem is proved by rule
  induction. A \<open>Duration\<close> is a natural number of nanoseconds.
\<close>

section \<open>flow.rs\<close>

datatype flow_direction = DirOutbound | DirInbound | DirInternal | DirUnknown

fun flow_direction_display :: "flow_direction \<Rightarrow> bytes" where
  "flow_direction_display DirOutbound = bstr ''outbound''"
| "flow_direction_display DirInbound = bstr ''inbound''"
| "flow_direction_display DirInternal = bstr ''internal''"
| "flow_direction_display DirUnknown = bstr ''unknown''"

datatype tcp_state =
    StClosed | StListen | StSynSent | StSynReceived | StEstablished | StFinWait1 | StFinWait2
  | StCloseWait | StClosing | StLastAck | StTimeWait

fun peer_fin_received :: "tcp_state \<Rightarrow> tcp_state" where
  "peer_fin_received StEstablished = StCloseWait"
| "peer_fin_received StFinWait1 = StClosing"
| "peer_fin_received StFinWait2 = StTimeWait"
| "peer_fin_received s = s"

fun tcp_state_display :: "tcp_state \<Rightarrow> bytes" where
  "tcp_state_display StClosed = bstr ''CLOSED''"
| "tcp_state_display StListen = bstr ''LISTEN''"
| "tcp_state_display StSynSent = bstr ''SYN_SENT''"
| "tcp_state_display StSynReceived = bstr ''SYN_RECEIVED''"
| "tcp_state_display StEstablished = bstr ''ESTABLISHED''"
| "tcp_state_display StFinWait1 = bstr ''FIN_WAIT_1''"
| "tcp_state_display StFinWait2 = bstr ''FIN_WAIT_2''"
| "tcp_state_display StCloseWait = bstr ''CLOSE_WAIT''"
| "tcp_state_display StClosing = bstr ''CLOSING''"
| "tcp_state_display StLastAck = bstr ''LAST_ACK''"
| "tcp_state_display StTimeWait = bstr ''TIME_WAIT''"

record flow =
  flow_id :: uuid
  flow_five_tuple :: five_tuple
  flow_state :: flow_state
  flow_metadata :: flow_metadata
  flow_direction :: flow_direction
  flow_created_at :: timestamp
  flow_updated_at :: timestamp
  flow_tcp_state :: "tcp_state option"

definition flow_new_with_now :: "uuid \<Rightarrow> five_tuple \<Rightarrow> timestamp \<Rightarrow> flow" where
  "flow_new_with_now new_v4 tuple now =
     \<lparr>flow_id = new_v4, flow_five_tuple = tuple, flow_state = FsNew,
      flow_metadata = flow_metadata_new_with_now now, flow_direction = DirUnknown,
      flow_created_at = now, flow_updated_at = now, flow_tcp_state = None\<rparr>"

definition with_process :: "flow \<Rightarrow> process_info \<Rightarrow> flow" where
  "with_process f p = f\<lparr>flow_metadata := (flow_metadata f)\<lparr>fm_process := Some p\<rparr>\<rparr>"

definition key_of_flow :: "(five_tuple \<Rightarrow> u64) \<Rightarrow> flow \<Rightarrow> flow_key" where
  "key_of_flow hash f = from_five_tuple hash (flow_five_tuple f)"

definition update_state_with_now :: "flow \<Rightarrow> flow_state \<Rightarrow> timestamp \<Rightarrow> flow" where
  "update_state_with_now f new_state now = f\<lparr>flow_state := new_state, flow_updated_at := now\<rparr>"

definition flow_update_sent :: "flow \<Rightarrow> u64 \<Rightarrow> uuid \<Rightarrow> timestamp \<Rightarrow> flow" where
  "flow_update_sent f n packet_id now =
     f\<lparr>flow_metadata := metadata_update_sent (flow_metadata f) n packet_id now,
       flow_updated_at := now\<rparr>"

definition flow_update_received :: "flow \<Rightarrow> u64 \<Rightarrow> uuid \<Rightarrow> timestamp \<Rightarrow> flow" where
  "flow_update_received f n packet_id now =
     f\<lparr>flow_metadata := metadata_update_received (flow_metadata f) n packet_id now,
       flow_updated_at := now\<rparr>"

text \<open>\<open>num_milliseconds\<close> truncates towards zero; the clamp to 0 removes the negative case.\<close>

definition duration_ms :: "flow \<Rightarrow> int" where
  "duration_ms f =
     (let d = flow_updated_at f - flow_created_at f;
          ms = (if d < 0 then - ((- d) div 1000000) else d div 1000000)
      in max ms 0)"

type_synonym duration = nat

definition duration_max :: duration where
  "duration_max = (2 ^ 64 - 1) * 10 ^ 9 + 999999999"

definition duration_from_secs :: "nat \<Rightarrow> duration" where
  "duration_from_secs s = s * 10 ^ 9"

definition elapsed_since :: "timestamp \<Rightarrow> timestamp \<Rightarrow> duration" where
  "elapsed_since now past = (if now - past < 0 then duration_max else nat (now - past))"

section \<open>state.rs\<close>

record flow_state_config =
  tcp_timeout :: duration
  udp_timeout :: duration
  icmp_timeout :: duration

definition flow_state_config_new :: flow_state_config where
  "flow_state_config_new =
     \<lparr>tcp_timeout = duration_from_secs 3600, udp_timeout = duration_from_secs 60,
      icmp_timeout = duration_from_secs 30\<rparr>"

definition with_tcp_timeout :: "flow_state_config \<Rightarrow> duration \<Rightarrow> flow_state_config" where
  "with_tcp_timeout c t = c\<lparr>tcp_timeout := t\<rparr>"

fun timeout_for_protocol :: "flow_state_config \<Rightarrow> protocol \<Rightarrow> duration" where
  "timeout_for_protocol c Tcp = tcp_timeout c"
| "timeout_for_protocol c Udp = udp_timeout c"
| "timeout_for_protocol c Icmp = icmp_timeout c"
| "timeout_for_protocol c Igmp = icmp_timeout c"
| "timeout_for_protocol c (UnknownProtocol _) = udp_timeout c"

datatype flow_life_cycle = LcActive | LcIdle | LcExpired | LcClosed

definition check_lifecycle :: "flow_state_config \<Rightarrow> timestamp \<Rightarrow> flow \<Rightarrow> flow_life_cycle" where
  "check_lifecycle c now f =
     (if is_terminal (flow_state f) then LcClosed
      else
        let timeout = timeout_for_protocol c (protocol (flow_five_tuple f));
            elapsed = elapsed_since now (flow_updated_at f)
        in if elapsed \<ge> timeout then LcExpired
           else if last_seen (flow_metadata f) = first_seen (flow_metadata f) \<and>
                   total_bytes (flow_metadata f) = 0
           then LcIdle
           else LcActive)"

text \<open>The arms of the \<open>match\<close> are tried in order, the first whose guard holds wins.\<close>

definition next_tcp_state ::
  "flag_test \<Rightarrow> packet_direction \<Rightarrow> tcp_state \<Rightarrow> tcp_flags \<Rightarrow> tcp_state option" where
  "next_tcp_state contains direction current f =
     (if contains f RST then Some StClosed
      else if current = StClosed \<and> contains f SYN \<and> \<not> contains f ACK then Some StSynSent
      else if current = StSynSent \<and> contains f SYN \<and> contains f ACK then Some StSynReceived
      else if current = StSynReceived \<and> contains f ACK then Some StEstablished
      else if current = StEstablished \<and> contains f FIN then
        Some (if is_inbound direction then peer_fin_received current else StFinWait1)
      else if current = StFinWait1 \<and> contains f ACK \<and> \<not> contains f FIN then Some StFinWait2
      else if current = StFinWait1 \<and> contains f FIN then Some StClosing
      else if current = StFinWait2 \<and> contains f FIN then Some StTimeWait
      else if current = StCloseWait \<and> contains f FIN then Some StLastAck
      else if current = StClosing \<and> contains f ACK then Some StTimeWait
      else if current = StLastAck \<and> contains f ACK then Some StClosed
      else None)"

definition transition_tcp :: "flag_test \<Rightarrow> flow \<Rightarrow> packet \<Rightarrow> tcp_state option" where
  "transition_tcp contains f p =
     (case pkt_tcp_flags p of
        Some flags \<Rightarrow>
          next_tcp_state contains (pkt_direction p)
            (case flow_tcp_state f of None \<Rightarrow> StClosed | Some s \<Rightarrow> s) flags
      | None \<Rightarrow> None)"

section \<open>Timeouts\<close>

lemma elapsed_since_forward: "past \<le> now \<Longrightarrow> int (elapsed_since now past) = now - past"
  by (simp add: elapsed_since_def)

lemma elapsed_since_backward: "now < past \<Longrightarrow> elapsed_since now past = duration_max"
  by (simp add: elapsed_since_def)

lemma elapsed_since_reaches_iff:
  assumes "timeout \<le> duration_max"
  shows "timeout \<le> elapsed_since now past \<longleftrightarrow> now < past \<or> int timeout \<le> now - past"
  using assms by (auto simp: elapsed_since_def)

text \<open>
  Lifecycle of a flow: it is closed exactly when its state is terminal; otherwise it
  is expired exactly when the configured timeout of its protocol has passed since the last update
  or the clock stepped back behind that update, so a clock step never keeps a stale flow alive;
  otherwise it is idle exactly when no byte was seen and the two timestamps agree.
\<close>

lemma check_lifecycle_cases:
  assumes "timeout_for_protocol c (protocol (flow_five_tuple f)) \<le> duration_max"
  shows "check_lifecycle c now f =
    (if flow_state f \<in> {FsClosed, FsError} then LcClosed
     else if now < flow_updated_at f \<or>
       flow_updated_at f + int (timeout_for_protocol c (protocol (flow_five_tuple f))) \<le> now
     then LcExpired
     else if last_seen (flow_metadata f) = first_seen (flow_metadata f) \<and>
       unat (bytes_sent (flow_metadata f)) + unat (bytes_received (flow_metadata f)) = 0
     then LcIdle else LcActive)"
proof -
  have t: "is_terminal (flow_state f) \<longleftrightarrow> flow_state f \<in> {FsClosed, FsError}"
    by (cases "flow_state f") auto
  have z: "total_bytes m = 0 \<longleftrightarrow> unat (bytes_sent m) + unat (bytes_received m) = 0" for m
    using total_bytes_nat [of m] by (auto simp: min_def unat_eq_0 split: if_splits)
  show ?thesis
    unfolding check_lifecycle_def Let_def t z elapsed_since_reaches_iff [OF assms]
    by (simp add: le_diff_eq add.commute)
qed

lemma check_lifecycle_cases_example:
  "check_lifecycle flow_state_config_new 59999999999
     (flow_new_with_now 1 (five_tuple_new (V4 (Ipv4 10 0 0 1)) (V4 (Ipv4 10 0 0 2)) 1 53 Udp) 0) = LcIdle \<and>
   check_lifecycle flow_state_config_new 60000000000
     (flow_new_with_now 1 (five_tuple_new (V4 (Ipv4 10 0 0 1)) (V4 (Ipv4 10 0 0 2)) 1 53 Udp) 0) = LcExpired"
  by (subst (1 2) check_lifecycle_cases)
    (simp_all add: flow_new_with_now_def five_tuple_new_def flow_state_config_new_def
      duration_from_secs_def duration_max_def flow_metadata_new_with_now_def)

section \<open>The TCP tracker as a transition system\<close>

text \<open>One observed segment: its direction and flags.\<close>

type_synonym segment = "packet_direction \<times> tcp_flags"

fun track :: "flag_test \<Rightarrow> tcp_state \<Rightarrow> segment \<Rightarrow> tcp_state" where
  "track contains s (d, f) = (case next_tcp_state contains d s f of None \<Rightarrow> s | Some s' \<Rightarrow> s')"

inductive tcp_reach :: "flag_test \<Rightarrow> segment list \<Rightarrow> tcp_state \<Rightarrow> bool" for contains where
  start: "tcp_reach contains [] StClosed"
| stay: "tcp_reach contains segs s \<Longrightarrow> next_tcp_state contains d s f = None \<Longrightarrow>
     tcp_reach contains (segs @ [(d, f)]) s"
| move: "tcp_reach contains segs s \<Longrightarrow> next_tcp_state contains d s f = Some s' \<Longrightarrow>
     tcp_reach contains (segs @ [(d, f)]) s'"

lemma tcp_reach_fold: "tcp_reach contains segs (foldl (track contains) StClosed segs)"
proof (induction segs rule: rev_induct)
  case (snoc seg segs)
  obtain d f where "seg = (d, f)" by (cases seg)
  with snoc show ?case by (auto intro: tcp_reach.intros split: option.split)
qed (simp add: tcp_reach.start)

text \<open>The segments of an opening handshake.\<close>

fun handshake_kind :: "flag_test \<Rightarrow> nat \<Rightarrow> segment \<Rightarrow> bool" where
  "handshake_kind contains 0 (d, f) = (contains f SYN \<and> \<not> contains f ACK)"
| "handshake_kind contains (Suc 0) (d, f) = (contains f SYN \<and> contains f ACK)"
| "handshake_kind contains _ (d, f) = contains f ACK"

text \<open>\<open>performed n segs\<close>: the first \<open>n\<close> handshake segments occur in \<open>segs\<close>, in order.\<close>

fun performed :: "flag_test \<Rightarrow> nat \<Rightarrow> segment list \<Rightarrow> bool" where
  "performed contains 0 segs = True"
| "performed contains (Suc n) segs =
     (\<exists>i < length segs. performed contains n (take i segs) \<and> handshake_kind contains n (segs ! i))"

lemma performed_append: "performed contains n segs \<Longrightarrow> performed contains n (segs @ rest)"
proof (cases n)
  case (Suc k)
  assume "performed contains n segs"
  with Suc obtain i where "i < length segs" "performed contains k (take i segs)"
    "handshake_kind contains k (segs ! i)" by auto
  with Suc show ?thesis by (auto simp: nth_append intro!: exI [of _ i])
qed simp

lemma performed_snoc:
  "performed contains n segs \<Longrightarrow> handshake_kind contains n seg \<Longrightarrow> performed contains (Suc n) (segs @ [seg])"
  by (auto intro!: exI [of _ "length segs"])

fun handshake_depth :: "tcp_state \<Rightarrow> nat" where
  "handshake_depth StClosed = 0"
| "handshake_depth StListen = 0"
| "handshake_depth StSynSent = 1"
| "handshake_depth StSynReceived = 2"
| "handshake_depth _ = 3"

lemma next_tcp_state_depth:
  assumes "next_tcp_state contains d s f = Some s'"
  shows "handshake_depth s' \<le> handshake_depth s \<or>
    (handshake_depth s' = Suc (handshake_depth s) \<and>
     handshake_kind contains (handshake_depth s) (d, f))"
  using assms
  by (cases s) (auto simp: next_tcp_state_def numeral_2_eq_2 numeral_3_eq_3 split: if_splits)

lemma performed_mono: "performed contains n segs \<Longrightarrow> m \<le> n \<Longrightarrow> performed contains m segs"
proof (induction n arbitrary: segs)
  case (Suc n)
  show ?case
  proof (cases "m = Suc n")
    case False
    from Suc.prems obtain i where i: "i < length segs" "performed contains n (take i segs)" by auto
    with Suc False have "performed contains m (take i segs)" by auto
    from performed_append [OF this, of "drop i segs"] show ?thesis by simp
  qed (use Suc.prems in simp)
qed simp

lemma tcp_reach_performed: "tcp_reach contains segs s \<Longrightarrow> performed contains (handshake_depth s) segs"
proof (induction rule: tcp_reach.induct)
  case (move segs s d f s')
  from next_tcp_state_depth [OF move.hyps(2)] show ?case
    using move.IH performed_mono performed_append performed_snoc by metis
qed (auto intro: performed_append)

text \<open>
  Property C3. No connection is believed open without a handshake: when the tracker of a fresh
  flow, fed any sequence of segments, is in \<open>ESTABLISHED\<close> or any closing state, the sequence
  contains, in this order, a SYN without ACK, a SYN with ACK and an ACK. It is never in
  \<open>LISTEN\<close>. This holds for every implementation of the flag test.
\<close>

theorem established_needs_handshake:
  "let s = foldl (track contains) StClosed segs in
   s \<noteq> StListen \<and>
   (s \<in> {StClosed, StSynSent, StSynReceived} \<or>
    (\<exists>i j k. i < j \<and> j < k \<and> k < length segs \<and>
       contains (snd (segs ! i)) SYN \<and> \<not> contains (snd (segs ! i)) ACK \<and>
       contains (snd (segs ! j)) SYN \<and> contains (snd (segs ! j)) ACK \<and>
       contains (snd (segs ! k)) ACK))"
proof -
  define s where "s = foldl (track contains) StClosed segs"
  have reach: "tcp_reach contains segs s" unfolding s_def by (rule tcp_reach_fold)
  have "s \<noteq> StListen"
    using reach by (induction rule: tcp_reach.induct)
      (auto simp: next_tcp_state_def split: if_splits)
  moreover have "s \<in> {StClosed, StSynSent, StSynReceived} \<or> handshake_depth s = 3"
    using \<open>s \<noteq> StListen\<close> by (cases s) auto
  moreover have "\<exists>i j k. i < j \<and> j < k \<and> k < length segs \<and>
       contains (snd (segs ! i)) SYN \<and> \<not> contains (snd (segs ! i)) ACK \<and>
       contains (snd (segs ! j)) SYN \<and> contains (snd (segs ! j)) ACK \<and>
       contains (snd (segs ! k)) ACK" if "handshake_depth s = 3"
  proof -
    have kind: "handshake_kind contains 0 x \<longleftrightarrow> contains (snd x) SYN \<and> \<not> contains (snd x) ACK"
      "handshake_kind contains (Suc 0) x \<longleftrightarrow> contains (snd x) SYN \<and> contains (snd x) ACK"
      "handshake_kind contains (Suc (Suc 0)) x \<longleftrightarrow> contains (snd x) ACK" for x
      by (cases x; simp)+
    from tcp_reach_performed [OF reach] that
    have "performed contains (Suc (Suc (Suc 0))) segs" by (simp add: numeral_3_eq_3)
    then obtain k j i where "k < length segs" "j < k" "i < j"
      "handshake_kind contains (Suc (Suc 0)) (segs ! k)"
      "handshake_kind contains (Suc 0) (segs ! j)" "handshake_kind contains 0 (segs ! i)"
      by auto
    then show ?thesis unfolding kind by blast
  qed
  ultimately show ?thesis unfolding s_def [symmetric] Let_def by blast
qed

end
