(* ===== verification/Keyed_Map.thy ===== *)
theory Keyed_Map
  imports Prelude "HOL-Library.AList"
begin

text \<open>
  The interface of a concurrent or plain hash map (\<open>DashMap\<close>, \<open>HashMap\<close>) as its clients use it: look
  up, insert, remove, iterate, retain. The locale states the laws, proves how the operations change
  the number of entries, and is interpreted on association lists without duplicate keys.
\<close>

section \<open>The map interface\<close>

locale keyed_map =
  fixes get :: "'m \<Rightarrow> 'k \<Rightarrow> 'v option"
    and insert_entry :: "'k \<Rightarrow> 'v \<Rightarrow> 'm \<Rightarrow> 'm"
    and remove_entry :: "'k \<Rightarrow> 'm \<Rightarrow> 'm"
    and entries :: "'m \<Rightarrow> ('k \<times> 'v) list"
    and valid :: "'m \<Rightarrow> bool"
  assumes get_insert: "get (insert_entry k v m) k' = (if k' = k then Some v else get m k')"
    and get_remove: "get (remove_entry k m) k' = (if k' = k then None else get m k')"
    and get_entries: "valid m \<Longrightarrow> get m k = Some v \<longleftrightarrow> (k, v) \<in> set (entries m)"
    and distinct_entries: "valid m \<Longrightarrow> distinct (map fst (entries m))"
    and valid_insert: "valid m \<Longrightarrow> valid (insert_entry k v m)"
    and valid_remove: "valid m \<Longrightarrow> valid (remove_entry k m)"
begin

lemma length_entries: "valid m \<Longrightarrow> length (entries m) = card {k. get m k \<noteq> None}"
proof -
  assume v: "valid m"
  have "{k. get m k \<noteq> None} = set (map fst (entries m))"
  proof (intro set_eqI iffI)
    fix k assume "k \<in> {k. get m k \<noteq> None}"
    then obtain x where "get m k = Some x" by auto
    then have "(k, x) \<in> set (entries m)" using get_entries [OF v] by blast
    then show "k \<in> set (map fst (entries m))" by force
  next
    fix k assume "k \<in> set (map fst (entries m))"
    then obtain x where "(k, x) \<in> set (entries m)" by auto
    then have "get m k = Some x" using get_entries [OF v] by blast
    then show "k \<in> {k. get m k \<noteq> None}" by simp
  qed
  then show ?thesis using distinct_card [OF distinct_entries [OF v]] by simp
qed

lemma dom_finite: "valid m \<Longrightarrow> finite {k. get m k \<noteq> None}"
proof -
  assume v: "valid m"
  have "{k. get m k \<noteq> None} \<subseteq> set (map fst (entries m))"
  proof
    fix k assume "k \<in> {k. get m k \<noteq> None}"
    then obtain x where "get m k = Some x" by auto
    then have "(k, x) \<in> set (entries m)" using get_entries [OF v] by blast
    then show "k \<in> set (map fst (entries m))" by force
  qed
  then show ?thesis by (rule finite_subset) simp
qed

lemma length_insert_new:
  assumes "valid m" "get m k = None"
  shows "length (entries (insert_entry k v m)) = Suc (length (entries m))"
proof -
  have "{k'. get (insert_entry k v m) k' \<noteq> None} = insert k {k'. get m k' \<noteq> None}"
    by (auto simp: get_insert)
  then show ?thesis
    using assms length_entries [OF valid_insert [OF assms(1)]] length_entries [OF assms(1)]
      dom_finite [OF assms(1)] by simp
qed

lemma length_insert_old:
  assumes "valid m" "get m k \<noteq> None"
  shows "length (entries (insert_entry k v m)) = length (entries m)"
proof -
  have "{k'. get (insert_entry k v m) k' \<noteq> None} = {k'. get m k' \<noteq> None}"
    using assms(2) by (auto simp: get_insert)
  then show ?thesis
    using length_entries [OF valid_insert [OF assms(1)]] length_entries [OF assms(1)] by simp
qed

lemma length_remove:
  assumes "valid m" "get m k \<noteq> None"
  shows "Suc (length (entries (remove_entry k m))) = length (entries m)"
proof -
  have "{k'. get m k' \<noteq> None} = insert k {k'. get (remove_entry k m) k' \<noteq> None}"
    using assms(2) by (auto simp: get_remove)
  moreover have "k \<notin> {k'. get (remove_entry k m) k' \<noteq> None}" by (simp add: get_remove)
  ultimately show ?thesis
    using length_entries [OF valid_remove [OF assms(1)]] length_entries [OF assms(1)]
      dom_finite [OF valid_remove [OF assms(1)]] by simp
qed

end

type_synonym ('k, 'v) dash_map = "('k \<times> 'v) list"

interpretation dm: keyed_map "map_of :: ('k, 'v) dash_map \<Rightarrow> 'k \<Rightarrow> 'v option" AList.update AList.delete
  "\<lambda>m. m" "\<lambda>m. distinct (map fst m)"
  by unfold_locales
    (auto simp: update_conv' delete_conv' distinct_update distinct_delete)

text \<open>\<open>retain(|_, v| keep(v))\<close>.\<close>

definition retain :: "('v \<Rightarrow> bool) \<Rightarrow> ('k, 'v) dash_map \<Rightarrow> ('k, 'v) dash_map" where
  "retain keep m = filter (\<lambda>(k, v). keep v) m"

lemma distinct_retain: "distinct (map fst m) \<Longrightarrow> distinct (map fst (retain keep m))"
  unfolding retain_def by (rule distinct_map_filter)

lemma map_of_retain:
  "distinct (map fst m) \<Longrightarrow>
   map_of (retain keep m) k = (case map_of m k of Some v \<Rightarrow> if keep v then Some v else None | None \<Rightarrow> None)"
proof (induction m)
  case (Cons a m)
  obtain k' v where a: "a = (k', v)" by (cases a)
  with Cons.prems have "map_of m k' = None" by (simp add: map_of_eq_None_iff)
  then show ?case using Cons a by (auto simp: retain_def)
qed (simp add: retain_def)

lemma length_retain: "length (retain keep m) \<le> length m"
  unfolding retain_def by simp

end
