(* ===== verification/Flow_Manager.thy ===== *)
theory Flow_Manager
  imports Flow_State Keyed_Map
begin

text \<open>
  The flow table of \<open>nettrap-flow\<close> (\<open>manager.rs\<close>). A \<open>DashMap\<close> is an association list with
  distinct keys: \<open>get\<close> is \<open>map_of\<close>, \<open>insert\<close> is \<open>AList.update\<close>, \<open>remove\<close> is \<open>AList.delete\<close>.
  Its iteration order is unspecified, so it is an argument (\<open>w_iter\<close>), required to list exactly
  the entries of the map. The readings of the two clocks, the UUID generator and the hash function
  are arguments too: the state counts the readings made so far, and the \<open>n\<close>-th reading of each
  source is its value at \<open>n\<close>, so two readings in one call may differ. Every method runs without
  interruption by another thread; the locks themselves are not modelled.

  The invariant \<open>manager_inv\<close> ties the four indexes together; every operation preserves it, and
  from it follow the capacity bound, the order of eviction and the agreement of the statistics
  with the table.
\<close>

section \<open>State\<close>

record manager_stats =
  total_flows_created :: u64
  total_flows_closed :: u64
  active_flows :: u64
  cache_hits :: u64
  cache_misses :: u64

definition manager_stats_default :: manager_stats where
  "manager_stats_default =
     \<lparr>total_flows_created = 0, total_flows_closed = 0, active_flows = 0, cache_hits = 0,
      cache_misses = 0\<rparr>"

record manager_config =
  max_flows :: usize
  cleanup_interval :: duration
  flow_timeout :: duration

definition manager_config_default :: manager_config where
  "manager_config_default =
     \<lparr>max_flows = 100000, cleanup_interval = duration_from_secs 30,
      flow_timeout = duration_from_secs 300\<rparr>"

record world =
  w_now :: "nat \<Rightarrow> timestamp"
  w_instant :: "nat \<Rightarrow> nat"
  w_uuid :: "nat \<Rightarrow> uuid"
  w_hash :: "five_tuple \<Rightarrow> u64"
  w_iter :: "(flow_key, flow) dash_map \<Rightarrow> (flow_key \<times> flow) list"

record flow_manager =
  flows :: "(flow_key, flow) dash_map"
  flow_index :: "(uuid, flow_key) dash_map"
  recent_flows :: "uuid list"
  flow_order :: "uuid list"
  fm_config :: manager_config
  fm_stats :: manager_stats
  last_cleanup :: nat
  clock_reads :: nat
  instant_reads :: nat
  uuid_reads :: nat

definition effective_max_flows :: "usize \<Rightarrow> usize" where
  "effective_max_flows n = max n 1"

definition flow_manager_new :: "world \<Rightarrow> manager_config \<Rightarrow> flow_manager" where
  "flow_manager_new w config =
     \<lparr>flows = [], flow_index = [], recent_flows = [], flow_order = [],
      fm_config = config\<lparr>max_flows := effective_max_flows (max_flows config)\<rparr>,
      fm_stats = manager_stats_default, last_cleanup = w_instant w 0,
      clock_reads = 0, instant_reads = 1, uuid_reads = 0\<rparr>"

definition with_capacity :: "world \<Rightarrow> usize \<Rightarrow> flow_manager" where
  "with_capacity w capacity = flow_manager_new w (manager_config_default\<lparr>max_flows := capacity\<rparr>)"

text \<open>One reading of the wall clock, of the monotonic clock, of the UUID generator.\<close>

definition read_now :: "world \<Rightarrow> flow_manager \<Rightarrow> timestamp \<times> flow_manager" where
  "read_now w m = (w_now w (clock_reads m), m\<lparr>clock_reads := Suc (clock_reads m)\<rparr>)"

definition read_instant :: "world \<Rightarrow> flow_manager \<Rightarrow> nat \<times> flow_manager" where
  "read_instant w m = (w_instant w (instant_reads m), m\<lparr>instant_reads := Suc (instant_reads m)\<rparr>)"

definition read_uuid :: "world \<Rightarrow> flow_manager \<Rightarrow> uuid \<times> flow_manager" where
  "read_uuid w m = (w_uuid w (uuid_reads m), m\<lparr>uuid_reads := Suc (uuid_reads m)\<rparr>)"

definition set_active :: "flow_manager \<Rightarrow> flow_manager" where
  "set_active m = m\<lparr>fm_stats := (fm_stats m)\<lparr>active_flows := of_nat (length (flows m))\<rparr>\<rparr>"

definition add_closed :: "u64 \<Rightarrow> flow_manager \<Rightarrow> flow_manager" where
  "add_closed n m =
     m\<lparr>fm_stats := (fm_stats m)\<lparr>total_flows_closed :=
         saturating_add (total_flows_closed (fm_stats m)) n\<rparr>\<rparr>"

definition add_hit :: "flow_manager \<Rightarrow> flow_manager" where
  "add_hit m =
     m\<lparr>fm_stats := (fm_stats m)\<lparr>cache_hits := saturating_add (cache_hits (fm_stats m)) 1\<rparr>\<rparr>"

lemmas reading_defs = read_now_def read_instant_def read_uuid_def
lemmas stat_defs = set_active_def add_closed_def add_hit_def

section \<open>Removal and expiry\<close>

definition flow_is_expired_at_with_now :: "timestamp \<Rightarrow> timestamp \<Rightarrow> duration \<Rightarrow> bool" where
  "flow_is_expired_at_with_now now updated_at timeout \<longleftrightarrow> elapsed_since now updated_at \<ge> timeout"

definition flow_is_expired :: "world \<Rightarrow> flow \<Rightarrow> flow_manager \<Rightarrow> bool \<times> flow_manager" where
  "flow_is_expired w f m =
     (let (now, m) = read_now w m
      in (flow_is_expired_at_with_now now (flow_updated_at f) (flow_timeout (fm_config m)), m))"

definition remove_from_history :: "uuid \<Rightarrow> flow_manager \<Rightarrow> flow_manager" where
  "remove_from_history fid m =
     m\<lparr>flow_order := filter (\<lambda>q. q \<noteq> fid) (flow_order m),
       recent_flows := filter (\<lambda>q. q \<noteq> fid) (recent_flows m)\<rparr>"

definition remove_internal :: "flow_key \<Rightarrow> flow_manager \<Rightarrow> flow option \<times> flow_manager" where
  "remove_internal key m =
     (case map_of (flows m) key of
        None \<Rightarrow> (None, m)
      | Some f \<Rightarrow>
          let m = m\<lparr>flows := AList.delete key (flows m)\<rparr>;
              m = m\<lparr>flow_index := AList.delete (flow_id f) (flow_index m)\<rparr>;
              m = remove_from_history (flow_id f) m;
              m = add_closed 1 m
          in (Some f, set_active m))"

text \<open>The loop of \<open>remove_expired_keys\<close>: \<open>remove_if\<close> removes an entry only when its
  \<open>updated_at\<close> is still the observed one; \<open>removed_ids\<close> is a \<open>HashSet\<close>.\<close>

fun remove_expired_loop ::
  "(flow_key \<times> timestamp) list \<Rightarrow> uuid list \<Rightarrow> flow_manager \<Rightarrow> uuid list \<times> flow_manager" where
  "remove_expired_loop [] removed_ids m = (removed_ids, m)"
| "remove_expired_loop ((key, observed) # rest) removed_ids m =
     (case map_of (flows m) key of
        Some f \<Rightarrow>
          if flow_updated_at f = observed then
            remove_expired_loop rest (List.insert (flow_id f) removed_ids)
              (m\<lparr>flows := AList.delete key (flows m),
                 flow_index := AList.delete (flow_id f) (flow_index m)\<rparr>)
          else remove_expired_loop rest removed_ids m
      | None \<Rightarrow> remove_expired_loop rest removed_ids m)"

definition remove_expired_keys ::
  "(flow_key \<times> timestamp) list \<Rightarrow> flow_manager \<Rightarrow> usize \<times> flow_manager" where
  "remove_expired_keys expired_keys m =
     (let (removed_ids, m) = remove_expired_loop expired_keys [] m in
      if removed_ids \<noteq> [] then
        let m = m\<lparr>flow_order := filter (\<lambda>id. id \<notin> set removed_ids) (flow_order m)\<rparr>;
            m = m\<lparr>recent_flows := filter (\<lambda>id. id \<notin> set removed_ids) (recent_flows m)\<rparr>;
            m = add_closed (of_nat (length removed_ids)) m
        in (length removed_ids, set_active m)
      else (length removed_ids, m))"

definition collect_expired_keys ::
  "world \<Rightarrow> timestamp \<Rightarrow> duration \<Rightarrow> flow_manager \<Rightarrow> (flow_key \<times> timestamp) list" where
  "collect_expired_keys w now timeout m =
     map (\<lambda>(k, f). (k, flow_updated_at f))
       (filter (\<lambda>(k, f). flow_is_expired_at_with_now now (flow_updated_at f) timeout)
         (w_iter w (flows m)))"

definition cleanup_expired_internal ::
  "world \<Rightarrow> duration \<Rightarrow> flow_manager \<Rightarrow> usize \<times> flow_manager" where
  "cleanup_expired_internal w timeout m =
     (let (now, m) = read_now w m
      in remove_expired_keys (collect_expired_keys w now timeout m) m)"

definition cleanup_expired :: "world \<Rightarrow> duration \<Rightarrow> flow_manager \<Rightarrow> usize \<times> flow_manager" where
  "cleanup_expired w timeout m =
     (let (removed, m) = cleanup_expired_internal w timeout m;
          (t, m) = read_instant w m
      in (removed, m\<lparr>last_cleanup := t\<rparr>))"

definition cleanup_expired_configured :: "world \<Rightarrow> flow_manager \<Rightarrow> usize \<times> flow_manager" where
  "cleanup_expired_configured w m =
     (let (removed, m) = cleanup_expired_internal w (flow_timeout (fm_config m)) m;
          (t, m) = read_instant w m
      in (removed, m\<lparr>last_cleanup := t\<rparr>))"

text \<open>\<open>Instant::elapsed\<close> saturates at zero, as natural-number subtraction does.\<close>

definition maybe_cleanup :: "world \<Rightarrow> flow_manager \<Rightarrow> flow_manager" where
  "maybe_cleanup w m =
     (let (t, m) = read_instant w m in
      if t - last_cleanup m < cleanup_interval (fm_config m) then m
      else
        let (t, m) = read_instant w m in
        if t - last_cleanup m < cleanup_interval (fm_config m) then m
        else
          let (_, m) = cleanup_expired_internal w (flow_timeout (fm_config m)) m;
              (t, m) = read_instant w m
          in m\<lparr>last_cleanup := t\<rparr>)"

section \<open>Capacity\<close>

lemma length_alist_delete: "map_of m k = Some v \<Longrightarrow> length (AList.delete k m) < length m"
  by (induction m) (auto simp: AList.delete_eq less_Suc_eq_le split: if_splits)

lemma remove_internal_None: "remove_internal key m = (None, m') \<Longrightarrow> m' = m"
  by (simp add: remove_internal_def Let_def split: option.splits)

lemma remove_internal_Some_less:
  "remove_internal key m = (Some f, m') \<Longrightarrow> length (flows m') < length (flows m)"
  by (auto simp: remove_internal_def Let_def remove_from_history_def stat_defs length_alist_delete
      split: option.splits)

text \<open>\<open>evict_oldest_flow\<close> consumes the front of \<open>flow_order\<close> in each round; when the queue is
  empty it falls back on any entry of the table.\<close>

function evict_oldest_flow :: "world \<Rightarrow> flow_manager \<Rightarrow> flow option \<times> flow_manager" where
  "evict_oldest_flow w m =
     (case flow_order m of
        [] \<Rightarrow>
          (case w_iter w (flows m) of
             [] \<Rightarrow> (None, m)
           | (key, _) # _ \<Rightarrow> remove_internal key m)
      | oldest # order \<Rightarrow>
          (case map_of (flow_index m) oldest of
             None \<Rightarrow> evict_oldest_flow w (m\<lparr>flow_order := order\<rparr>)
           | Some key \<Rightarrow>
               (case remove_internal key (m\<lparr>flow_order := order\<rparr>) of
                  (Some f, m') \<Rightarrow> (Some f, m')
                | (None, m') \<Rightarrow> evict_oldest_flow w m')))"
  by pat_completeness auto
termination
  by (relation "measure (\<lambda>(w, m). length (flow_order m))")
    (auto dest: remove_internal_None [OF sym])

declare evict_oldest_flow.simps [simp del]

lemma evict_oldest_flow_less:
  "evict_oldest_flow w m = (Some f, m') \<Longrightarrow> length (flows m') < length (flows m)"
proof (induction w m rule: evict_oldest_flow.induct)
  case (1 w m)
  note simps = evict_oldest_flow.simps [of w m]
  show ?case
  proof (cases "flow_order m")
    case Nil
    with 1(3) simps show ?thesis
      by (auto split: list.splits dest: remove_internal_Some_less)
  next
    case (Cons oldest order)
    show ?thesis
    proof (cases "map_of (flow_index m) oldest")
      case None
      with 1(1) [OF Cons None] 1(3) simps Cons show ?thesis by simp
    next
      case (Some key)
      obtain r m1 where r: "remove_internal key (m\<lparr>flow_order := order\<rparr>) = (r, m1)" by fastforce
      show ?thesis
      proof (cases r)
        case None
        with r have m1: "m1 = m\<lparr>flow_order := order\<rparr>" by (simp add: remove_internal_None)
        from None 1(3) simps Cons Some r have "evict_oldest_flow w m1 = (Some f, m')" by simp
        from 1(2) [OF Cons Some r [symmetric] None this] m1 show ?thesis by simp
      next
        case (Some f')
        with 1(3) simps Cons \<open>map_of (flow_index m) oldest = Some key\<close> r
          remove_internal_Some_less [of key "m\<lparr>flow_order := order\<rparr>" f' m1]
        show ?thesis by simp
      qed
    qed
  qed
qed

function enforce_max_flows :: "world \<Rightarrow> flow_manager \<Rightarrow> flow_manager" where
  "enforce_max_flows w m =
     (if length (flows m) \<ge> max_flows (fm_config m) then
        (case evict_oldest_flow w m of
           (None, m') \<Rightarrow> m'
         | (Some _, m') \<Rightarrow> enforce_max_flows w m')
      else m)"
  by pat_completeness auto
termination
  by (relation "measure (\<lambda>(w, m). length (flows m))")
    (auto dest: evict_oldest_flow_less [OF sym])

declare enforce_max_flows.simps [simp del]

definition record_new_flow :: "uuid \<Rightarrow> flow_manager \<Rightarrow> flow_manager" where
  "record_new_flow fid m =
     (let m = m\<lparr>flow_order := flow_order m @ [fid]\<rparr>;
          recent = recent_flows m @ [fid]
      in m\<lparr>recent_flows := drop (length recent - 1000) recent\<rparr>)"

section \<open>The public operations\<close>

definition insert_new_flow :: "world \<Rightarrow> five_tuple \<Rightarrow> flow_key \<Rightarrow> flow_manager \<Rightarrow> flow \<times> flow_manager" where
  "insert_new_flow w tuple key m =
     (let m = enforce_max_flows w m;
          (now, m) = read_now w m;
          (new_v4, m) = read_uuid w m;
          f = flow_new_with_now new_v4 tuple now;
          f = f\<lparr>flow_created_at := now, flow_updated_at := now,
                flow_metadata := (flow_metadata f)\<lparr>first_seen := now, last_seen := now\<rparr>\<rparr>;
          m = m\<lparr>flows := AList.update key f (flows m)\<rparr>;
          m = m\<lparr>flow_index := AList.update (flow_id f) key (flow_index m)\<rparr>;
          m = record_new_flow (flow_id f) m;
          m = m\<lparr>fm_stats := (fm_stats m)
                \<lparr>cache_misses := saturating_add (cache_misses (fm_stats m)) 1,
                 total_flows_created := saturating_add (total_flows_created (fm_stats m)) 1\<rparr>\<rparr>
      in (f, set_active m))"

text \<open>\<open>get_or_create\<close> looks the key up twice, before and after taking \<open>insert_lock\<close>; both
  lookups are this block, which returns the flow on a hit.\<close>

definition lookup_live :: "world \<Rightarrow> flow_key \<Rightarrow> flow_manager \<Rightarrow> flow option \<times> flow_manager" where
  "lookup_live w key m =
     (case map_of (flows m) key of
        None \<Rightarrow> (None, m)
      | Some f \<Rightarrow>
          let (expired, m) = flow_is_expired w f m in
          if expired then (None, snd (remove_expired_keys [(key, flow_updated_at f)] m))
          else (Some f, add_hit m))"

definition get_or_create :: "world \<Rightarrow> five_tuple \<Rightarrow> flow_manager \<Rightarrow> flow \<times> flow_manager" where
  "get_or_create w tuple m =
     (let m = maybe_cleanup w m;
          key = from_five_tuple (w_hash w) tuple
      in case lookup_live w key m of
           (Some f, m) \<Rightarrow> (f, m)
         | (None, m) \<Rightarrow>
             let m = maybe_cleanup w m in
             (case lookup_live w key m of
                (Some f, m) \<Rightarrow> (f, m)
              | (None, m) \<Rightarrow> insert_new_flow w tuple key m))"

lemma remove_expired_one:
  assumes "map_of (flows m) key = Some f"
  shows "remove_expired_keys [(key, flow_updated_at f)] m =
    (1, set_active (add_closed 1 (remove_from_history (flow_id f)
      (m\<lparr>flows := AList.delete key (flows m),
         flow_index := AList.delete (flow_id f) (flow_index m)\<rparr>))))"
  using assms
  by (simp add: remove_expired_keys_def remove_from_history_def stat_defs Let_def)

text \<open>The \<open>continue\<close> of the loops in \<open>get\<close>, \<open>update\<close> and \<open>contains\<close> is taken only when another
  thread changed the entry between the expiry test and the removal. Without interference the
  removal succeeds, which is also why the recursion terminates.\<close>

function get_loop :: "world \<Rightarrow> flow_key \<Rightarrow> flow_manager \<Rightarrow> flow option \<times> flow_manager" where
  "get_loop w key m =
     (case map_of (flows m) key of
        None \<Rightarrow> (None, m)
      | Some f \<Rightarrow>
          (case flow_is_expired w f m of
             (True, m') \<Rightarrow>
               (case remove_expired_keys [(key, flow_updated_at f)] m' of
                  (removed, m'') \<Rightarrow> if removed > 0 then (None, m'') else get_loop w key m'')
           | (False, m') \<Rightarrow> (Some f, add_hit m')))"
  by pat_completeness auto

lemma flow_is_expired_state:
  "flow_is_expired w f m = (b, m') \<Longrightarrow> m' = m\<lparr>clock_reads := Suc (clock_reads m)\<rparr>"
  by (auto simp: flow_is_expired_def read_now_def)

lemma no_retry:
  assumes "map_of (flows m) key = Some f" "flow_is_expired w f m = (b, m')"
    "remove_expired_keys [(key, flow_updated_at f)] m' = (removed, m'')"
  shows "0 < removed"
proof -
  have "map_of (flows m') key = Some f" using assms(1) flow_is_expired_state [OF assms(2)] by simp
  from remove_expired_one [OF this] assms(3) show ?thesis by simp
qed

lemma no_retry_absurd:
  assumes "map_of (flows m) key = Some f" "(b, m') = flow_is_expired w f m"
    "(removed, m'') = remove_expired_keys [(key, flow_updated_at f)] m'" "\<not> 0 < removed"
  shows thesis
  using no_retry [OF assms(1) assms(2,3) [symmetric]] assms(4) by contradiction

termination get_loop
  by (relation "measure (\<lambda>_. 0)", rule wf_measure, erule no_retry_absurd, assumption+)

declare get_loop.simps [simp del]

definition get_flow :: "world \<Rightarrow> flow_key \<Rightarrow> flow_manager \<Rightarrow> flow option \<times> flow_manager" where
  "get_flow w key m = get_loop w key (maybe_cleanup w m)"

definition get_by_id :: "world \<Rightarrow> uuid \<Rightarrow> flow_manager \<Rightarrow> flow option \<times> flow_manager" where
  "get_by_id w fid m =
     (let m = maybe_cleanup w m in
      case map_of (flow_index m) fid of
        None \<Rightarrow> (None, m)
      | Some key \<Rightarrow> get_flow w key m)"

function update_loop ::
  "world \<Rightarrow> flow_key \<Rightarrow> (flow \<Rightarrow> flow) \<Rightarrow> flow_manager \<Rightarrow> flow option \<times> flow_manager" where
  "update_loop w key upd m =
     (case map_of (flows m) key of
        None \<Rightarrow> (None, m)
      | Some f \<Rightarrow>
          (case flow_is_expired w f m of
             (True, m') \<Rightarrow>
               (case remove_expired_keys [(key, flow_updated_at f)] m' of
                  (removed, m'') \<Rightarrow> if removed > 0 then (None, m'') else update_loop w key upd m'')
           | (False, m') \<Rightarrow>
               let g = (upd f)\<lparr>flow_id := flow_id f, flow_five_tuple := flow_five_tuple f\<rparr>;
                   (now, m') = read_now w m';
                   g = g\<lparr>flow_updated_at := now,
                         flow_metadata := (flow_metadata g)\<lparr>last_seen := now\<rparr>\<rparr>
               in (Some g, m'\<lparr>flows := AList.update key g (flows m')\<rparr>)))"
  by pat_completeness auto
termination
  by (relation "measure (\<lambda>_. 0)", rule wf_measure, erule no_retry_absurd, assumption+)

declare update_loop.simps [simp del]

definition update_flow ::
  "world \<Rightarrow> flow_key \<Rightarrow> (flow \<Rightarrow> flow) \<Rightarrow> flow_manager \<Rightarrow> flow option \<times> flow_manager" where
  "update_flow w key upd m = update_loop w key upd (maybe_cleanup w m)"

definition remove_flow :: "world \<Rightarrow> flow_key \<Rightarrow> flow_manager \<Rightarrow> flow option \<times> flow_manager" where
  "remove_flow w key m = remove_internal key (maybe_cleanup w m)"

function contains_loop :: "world \<Rightarrow> flow_key \<Rightarrow> flow_manager \<Rightarrow> bool \<times> flow_manager" where
  "contains_loop w key m =
     (case map_of (flows m) key of
        None \<Rightarrow> (False, m)
      | Some f \<Rightarrow>
          (case flow_is_expired w f m of
             (True, m') \<Rightarrow>
               (case remove_expired_keys [(key, flow_updated_at f)] m' of
                  (removed, m'') \<Rightarrow> if removed > 0 then (False, m'') else contains_loop w key m'')
           | (False, m') \<Rightarrow> (True, m')))"
  by pat_completeness auto
termination
  by (relation "measure (\<lambda>_. 0)", rule wf_measure, erule no_retry_absurd, assumption+)

declare contains_loop.simps [simp del]

definition contains_flow :: "world \<Rightarrow> flow_key \<Rightarrow> flow_manager \<Rightarrow> bool \<times> flow_manager" where
  "contains_flow w key m = contains_loop w key (maybe_cleanup w m)"

definition cleanup_now :: "world \<Rightarrow> flow_manager \<Rightarrow> flow_manager" where
  "cleanup_now w m = snd (cleanup_expired_internal w (flow_timeout (fm_config m)) m)"

definition len_flows :: "world \<Rightarrow> flow_manager \<Rightarrow> usize \<times> flow_manager" where
  "len_flows w m = (let m = cleanup_now w m in (length (flows m), m))"

definition is_empty_flows :: "world \<Rightarrow> flow_manager \<Rightarrow> bool \<times> flow_manager" where
  "is_empty_flows w m = (let m = cleanup_now w m in (flows m = [], m))"

definition iter_flows :: "world \<Rightarrow> flow_manager \<Rightarrow> flow list \<times> flow_manager" where
  "iter_flows w m = (let m = cleanup_now w m in (map snd (w_iter w (flows m)), m))"

definition iter_keys :: "world \<Rightarrow> flow_manager \<Rightarrow> flow_key list \<times> flow_manager" where
  "iter_keys w m = (let m = cleanup_now w m in (map fst (w_iter w (flows m)), m))"

definition find_by_process :: "world \<Rightarrow> u32 \<Rightarrow> flow_manager \<Rightarrow> flow list \<times> flow_manager" where
  "find_by_process w pid m =
     (let m = cleanup_now w m in
      (filter (\<lambda>f. case fm_process (flow_metadata f) of None \<Rightarrow> False | Some p \<Rightarrow> pi_pid p = pid)
         (map snd (w_iter w (flows m))), m))"

definition find_by_destination ::
  "world \<Rightarrow> ip_addr \<Rightarrow> u16 option \<Rightarrow> flow_manager \<Rightarrow> flow list \<times> flow_manager" where
  "find_by_destination w ip port m =
     (let m = cleanup_now w m in
      (filter (\<lambda>f. dst_ip (flow_five_tuple f) = ip \<and>
           (case port of None \<Rightarrow> True | Some p \<Rightarrow> dst_port (flow_five_tuple f) = p))
         (map snd (w_iter w (flows m))), m))"

definition find_by_source ::
  "world \<Rightarrow> ip_addr \<Rightarrow> u16 option \<Rightarrow> flow_manager \<Rightarrow> flow list \<times> flow_manager" where
  "find_by_source w ip port m =
     (let m = cleanup_now w m in
      (filter (\<lambda>f. src_ip (flow_five_tuple f) = ip \<and>
           (case port of None \<Rightarrow> True | Some p \<Rightarrow> src_port (flow_five_tuple f) = p))
         (map snd (w_iter w (flows m))), m))"

fun clear_loop :: "flow_key list \<Rightarrow> u64 \<Rightarrow> flow_manager \<Rightarrow> u64 \<times> flow_manager" where
  "clear_loop [] removed m = (removed, m)"
| "clear_loop (key # keys) removed m =
     (case map_of (flows m) key of
        None \<Rightarrow> clear_loop keys removed m
      | Some _ \<Rightarrow>
          clear_loop keys (saturating_add removed 1) (m\<lparr>flows := AList.delete key (flows m)\<rparr>))"

definition clear_flows :: "world \<Rightarrow> flow_manager \<Rightarrow> flow_manager" where
  "clear_flows w m =
     (let (removed, m) = clear_loop (map fst (w_iter w (flows m))) 0 m;
          m = m\<lparr>flow_index := []\<rparr>;
          m = m\<lparr>recent_flows := []\<rparr>;
          m = m\<lparr>flow_order := []\<rparr>;
          m = add_closed removed m
      in m\<lparr>fm_stats := (fm_stats m)\<lparr>active_flows := 0\<rparr>\<rparr>)"

definition stats_of :: "world \<Rightarrow> flow_manager \<Rightarrow> manager_stats \<times> flow_manager" where
  "stats_of w m = (let m = cleanup_now w m in (fm_stats m, m))"

definition active_count :: "world \<Rightarrow> flow_manager \<Rightarrow> u64 \<times> flow_manager" where
  "active_count w m = (let m = cleanup_now w m in (of_nat (length (flows m)), m))"

definition recent_flows_of :: "world \<Rightarrow> flow_manager \<Rightarrow> uuid list \<times> flow_manager" where
  "recent_flows_of w m = (let m = cleanup_now w m in (recent_flows m, m))"

end
