(* ===== verification/Flow_Manager_Inv.thy ===== *)
theory Flow_Manager_Inv
  imports Flow_Manager "HOL-Library.Sublist" "HOL-Library.Multiset"
begin

text \<open>
  The invariant of the flow table and its preservation by every operation of \<open>manager.rs\<close>, then
  the functional behaviour of lookup, creation, expiry and eviction.
\<close>

declare map_of_eq_Some_iff [simp del]

section \<open>The invariant\<close>

definition index_inv :: "world \<Rightarrow> flow_manager \<Rightarrow> bool" where
  "index_inv w m \<longleftrightarrow>
     distinct (map fst (flows m)) \<and> distinct (map fst (flow_index m)) \<and>
     (\<forall>k f. map_of (flows m) k = Some f \<longrightarrow>
        map_of (flow_index m) (flow_id f) = Some k \<and> key_of_flow (w_hash w) f = k) \<and>
     (\<forall>i k. map_of (flow_index m) i = Some k \<longrightarrow>
        (\<exists>f. map_of (flows m) k = Some f \<and> flow_id f = i) \<and> (\<exists>n < uuid_reads m. w_uuid w n = i))"

definition history_inv :: "flow_manager \<Rightarrow> bool" where
  "history_inv m \<longleftrightarrow>
     distinct (flow_order m) \<and> set (flow_order m) = dom (map_of (flow_index m)) \<and>
     suffix (recent_flows m) (flow_order m) \<and> length (recent_flows m) \<le> 1000"

definition stats_inv :: "flow_manager \<Rightarrow> bool" where
  "stats_inv m \<longleftrightarrow>
     active_flows (fm_stats m) = of_nat (length (flows m)) \<and>
     (unat (total_flows_created (fm_stats m)) < 2 ^ 64 - 1 \<longrightarrow>
        unat (total_flows_created (fm_stats m)) =
          unat (total_flows_closed (fm_stats m)) + length (flows m)) \<and>
     unat (total_flows_created (fm_stats m)) = min (uuid_reads m) (2 ^ 64 - 1)"

definition capacity_inv :: "flow_manager \<Rightarrow> bool" where
  "capacity_inv m \<longleftrightarrow>
     1 \<le> max_flows (fm_config m) \<and> max_flows (fm_config m) \<le> usize_max \<and>
     length (flows m) \<le> max_flows (fm_config m)"

definition manager_inv :: "world \<Rightarrow> flow_manager \<Rightarrow> bool" where
  "manager_inv w m \<longleftrightarrow> index_inv w m \<and> history_inv m \<and> stats_inv m \<and> capacity_inv m"

lemma index_inv_frame [simp]:
  "index_inv w (m\<lparr>flow_order := order\<rparr>) = index_inv w m"
  "index_inv w (m\<lparr>recent_flows := recent\<rparr>) = index_inv w m"
  "index_inv w (m\<lparr>fm_stats := stats\<rparr>) = index_inv w m"
  "index_inv w (m\<lparr>clock_reads := a\<rparr>) = index_inv w m"
  by (simp_all add: index_inv_def)

text \<open>The iteration order of the table lists exactly its entries.\<close>

definition iter_ok :: "world \<Rightarrow> bool" where
  "iter_ok w \<longleftrightarrow> (\<forall>m. mset (w_iter w m) = mset m)"

lemma iter_ok_set: "iter_ok w \<Longrightarrow> set (w_iter w m) = set m"
  unfolding iter_ok_def by (metis mset_eq_setD)

lemma iter_ok_length: "iter_ok w \<Longrightarrow> length (w_iter w m) = length m"
  unfolding iter_ok_def by (metis mset_eq_length)

lemma iter_ok_distinct: "iter_ok w \<Longrightarrow> distinct (map fst (w_iter w m)) = distinct (map fst m)"
  unfolding iter_ok_def by (metis mset_map mset_eq_imp_distinct_iff)

text \<open>A clock reading changes nothing the invariant speaks of.\<close>

lemma manager_inv_frame [simp]:
  "manager_inv w (m\<lparr>clock_reads := a\<rparr>) = manager_inv w m"
  "manager_inv w (m\<lparr>instant_reads := a\<rparr>) = manager_inv w m"
  "manager_inv w (m\<lparr>last_cleanup := a\<rparr>) = manager_inv w m"
  by (simp_all add: manager_inv_def index_inv_def history_inv_def stats_inv_def capacity_inv_def)

lemma manager_inv_add_hit [simp]: "manager_inv w (add_hit m) = manager_inv w m"
  by (simp add: manager_inv_def index_inv_def history_inv_def stats_inv_def capacity_inv_def
      add_hit_def)

lemma manager_inv_new: "max_flows c \<le> usize_max \<Longrightarrow> manager_inv w (flow_manager_new w c)"
  by (simp add: usize_max_def manager_inv_def index_inv_def history_inv_def stats_inv_def capacity_inv_def
      flow_manager_new_def manager_stats_default_def effective_max_flows_def)

section \<open>Removing entries\<close>

lemma index_invD:
  assumes "index_inv w m"
  shows "distinct (map fst (flows m))" "distinct (map fst (flow_index m))"
    and "map_of (flows m) k = Some f \<Longrightarrow> map_of (flow_index m) (flow_id f) = Some k"
    and "map_of (flows m) k = Some f \<Longrightarrow> key_of_flow (w_hash w) f = k"
    and "map_of (flow_index m) i = Some k \<Longrightarrow> \<exists>f. map_of (flows m) k = Some f \<and> flow_id f = i"
    and "map_of (flow_index m) i = Some k \<Longrightarrow> \<exists>n < uuid_reads m. w_uuid w n = i"
  using assms unfolding index_inv_def by blast+

lemma index_inv_id_inj:
  assumes "index_inv w m" "map_of (flows m) k = Some f" "map_of (flows m) k' = Some f'"
    "flow_id f = flow_id f'"
  shows "k = k'"
  using index_invD(3) [OF assms(1)] assms(2-4) by (metis option.inject)

definition drop_entry :: "flow_key \<Rightarrow> uuid \<Rightarrow> flow_manager \<Rightarrow> flow_manager" where
  "drop_entry key fid m =
     m\<lparr>flows := AList.delete key (flows m), flow_index := AList.delete fid (flow_index m)\<rparr>"

lemma index_inv_drop_entry:
  assumes "index_inv w m" "map_of (flows m) key = Some f"
  shows "index_inv w (drop_entry key (flow_id f) m)"
  unfolding index_inv_def
proof (intro conjI allI impI)
  let ?m = "drop_entry key (flow_id f) m"
  note D = index_invD [OF assms(1)]
  show "distinct (map fst (flows ?m))" "distinct (map fst (flow_index ?m))"
    using D(1,2) by (simp_all add: drop_entry_def distinct_delete)
  fix k g assume "map_of (flows ?m) k = Some g"
  then have k: "k \<noteq> key" "map_of (flows m) k = Some g"
    by (auto simp: drop_entry_def delete_conv' split: if_splits)
  then have "flow_id g \<noteq> flow_id f" using index_inv_id_inj [OF assms(1) k(2) assms(2)] by blast
  then show "map_of (flow_index ?m) (flow_id g) = Some k" "key_of_flow (w_hash w) g = k"
    using D(3,4) [OF k(2)] by (simp_all add: drop_entry_def delete_conv')
next
  let ?m = "drop_entry key (flow_id f) m"
  fix i k assume "map_of (flow_index ?m) i = Some k"
  then have i: "i \<noteq> flow_id f" "map_of (flow_index m) i = Some k"
    by (auto simp: drop_entry_def delete_conv' split: if_splits)
  then obtain g where g: "map_of (flows m) k = Some g" "flow_id g = i"
    using index_invD(5) [OF assms(1)] by blast
  with i assms(2) have "k \<noteq> key" by auto
  with g show "\<exists>g. map_of (flows ?m) k = Some g \<and> flow_id g = i"
    by (simp add: drop_entry_def delete_conv')
  show "\<exists>n < uuid_reads ?m. w_uuid w n = i"
    using index_invD(6) [OF assms(1) i(2)] by (simp add: drop_entry_def)
qed

lemma length_drop_entry:
  assumes "index_inv w m" "map_of (flows m) key = Some f"
  shows "Suc (length (flows (drop_entry key (flow_id f) m))) = length (flows m)"
  using assms dm.length_remove [of "flows m" key] by (simp add: index_inv_def drop_entry_def)

lemma remove_expired_loop_spec:
  assumes "index_inv w m" "distinct R" "set R \<inter> dom (map_of (flow_index m)) = {}"
    "remove_expired_loop ks R m = (R', m')"
  shows "index_inv w m' \<and> distinct R' \<and> set R \<subseteq> set R' \<and>
    dom (map_of (flow_index m')) = dom (map_of (flow_index m)) - set R' \<and>
    length (flows m') + length R' = length (flows m) + length R \<and>
    flow_order m' = flow_order m \<and> recent_flows m' = recent_flows m \<and>
    fm_config m' = fm_config m \<and> fm_stats m' = fm_stats m \<and> uuid_reads m' = uuid_reads m"
  using assms
proof (induction ks R m rule: remove_expired_loop.induct)
  case (2 key observed rest R m)
  show ?case
  proof (cases "\<exists>f. map_of (flows m) key = Some f \<and> flow_updated_at f = observed")
    case True
    then obtain f where f: "map_of (flows m) key = Some f" "flow_updated_at f = observed" by auto
    let ?m = "drop_entry key (flow_id f) m"
    have ix: "map_of (flow_index m) (flow_id f) = Some key"
      by (rule index_invD(3) [OF 2(4) f(1)])
    then have new: "flow_id f \<notin> set R" using 2(6) by auto
    have dom: "dom (map_of (flow_index ?m)) = dom (map_of (flow_index m)) - {flow_id f}"
      by (auto simp: drop_entry_def delete_conv')
    have "index_inv w ?m" by (rule index_inv_drop_entry [OF 2(4) f(1)])
    moreover have "distinct (List.insert (flow_id f) R)" using 2(5) by simp
    moreover have "set (List.insert (flow_id f) R) \<inter> dom (map_of (flow_index ?m)) = {}"
      using 2(6) dom by auto
    moreover have "remove_expired_loop rest (List.insert (flow_id f) R) ?m = (R', m')"
      using 2(7) f by (simp add: drop_entry_def)
    ultimately have IH: "index_inv w m' \<and> distinct R' \<and> set (List.insert (flow_id f) R) \<subseteq> set R' \<and>
        dom (map_of (flow_index m')) = dom (map_of (flow_index ?m)) - set R' \<and>
        length (flows m') + length R' = length (flows ?m) + length (List.insert (flow_id f) R) \<and>
        flow_order m' = flow_order ?m \<and> recent_flows m' = recent_flows ?m \<and>
        fm_config m' = fm_config ?m \<and> fm_stats m' = fm_stats ?m \<and> uuid_reads m' = uuid_reads ?m"
      using 2(2) [OF f] by (simp add: drop_entry_def)
    then show ?thesis
      using length_drop_entry [OF 2(4) f(1)] new dom by (auto simp: drop_entry_def)
  next
    case False
    then have "remove_expired_loop rest R m = (R', m')" using 2(7) by (auto split: option.splits)
    then show ?thesis using 2 False by (cases "map_of (flows m) key") auto
  qed
qed auto

lemma suffix_filter: "suffix xs ys \<Longrightarrow> suffix (filter P xs) (filter P ys)"
  by (auto simp: suffix_def)

lemma saturating_add_exact:
  "unat a + unat b < 2 ^ 64 \<Longrightarrow> unat (saturating_add a b :: u64) = unat a + unat b"
  by (simp add: unat_saturating_add)

lemma manager_inv_shrink:
  assumes m: "manager_inv w m"
    and ix: "index_inv w m'"
    and dom: "dom (map_of (flow_index m')) = dom (map_of (flow_index m)) - set R"
    and len: "length (flows m') + n = length (flows m)" "n = length R" "n < 2 ^ 64"
    and rest: "flow_order m' = filter (\<lambda>i. i \<notin> set R) (flow_order m)"
      "recent_flows m' = filter (\<lambda>i. i \<notin> set R) (recent_flows m)"
      "fm_config m' = fm_config m" "fm_stats m' = fm_stats m" "uuid_reads m' = uuid_reads m"
  shows "manager_inv w (set_active (add_closed (of_nat n) m'))"
proof -
  have "unat (of_nat n :: u64) = n" using len(3) by (simp add: unsigned_of_nat take_bit_eq_mod)
  moreover have "length (recent_flows m') \<le> 1000"
    using m rest(2) length_filter_le [of _ "recent_flows m"]
    unfolding manager_inv_def history_inv_def by (metis order_trans)
  ultimately show ?thesis
    using assms saturating_add_exact [of "total_flows_closed (fm_stats m)" "of_nat n"]
    by (auto simp: manager_inv_def history_inv_def stats_inv_def capacity_inv_def index_inv_def
        set_active_def add_closed_def suffix_filter)
qed

lemma capacity_u64: "manager_inv w m \<Longrightarrow> n \<le> length (flows m) \<Longrightarrow> n < 2 ^ 64"
  by (simp add: manager_inv_def capacity_inv_def usize_max_def)

lemma manager_inv_index: "manager_inv w m \<Longrightarrow> index_inv w m"
  by (simp add: manager_inv_def)

lemma remove_expired_keys_inv:
  assumes "manager_inv w m"
  shows "manager_inv w (snd (remove_expired_keys ks m))"
proof -
  obtain R m' where loop: "remove_expired_loop ks [] m = (R, m')" by fastforce
  note spec = remove_expired_loop_spec [OF manager_inv_index [OF assms] _ _ loop, simplified]
  have n: "length R < 2 ^ 64" using capacity_u64 [OF assms, of "length R"] spec by simp
  show ?thesis
  proof (cases "R = []")
    case True
    with spec loop assms show ?thesis
      by (simp add: remove_expired_keys_def manager_inv_def history_inv_def stats_inv_def
          capacity_inv_def)
  next
    case False
    let ?m = "m'\<lparr>flow_order := filter (\<lambda>i. i \<notin> set R) (flow_order m'),
      recent_flows := filter (\<lambda>i. i \<notin> set R) (recent_flows m')\<rparr>"
    have "manager_inv w (set_active (add_closed (of_nat (length R)) ?m))"
      by (rule manager_inv_shrink [OF assms, where R = R])
        (use spec n in \<open>simp_all\<close>)
    with False loop show ?thesis by (simp add: remove_expired_keys_def Let_def)
  qed
qed

lemma remove_internal_eq:
  assumes "map_of (flows m) key = Some f"
  shows "remove_internal key m =
    (Some f, set_active (add_closed 1 (remove_from_history (flow_id f) (drop_entry key (flow_id f) m))))"
  using assms by (simp add: remove_internal_def drop_entry_def Let_def)

lemma remove_entry_inv:
  assumes "manager_inv w m" "map_of (flows m) key = Some f"
  shows "manager_inv w
    (set_active (add_closed 1 (remove_from_history (flow_id f) (drop_entry key (flow_id f) m))))"
proof -
  have ix: "map_of (flow_index m) (flow_id f) = Some key"
    by (rule index_invD(3) [OF manager_inv_index [OF assms(1)] assms(2)])
  have "manager_inv w (set_active (add_closed (of_nat 1)
      (remove_from_history (flow_id f) (drop_entry key (flow_id f) m))))"
  proof (rule manager_inv_shrink [OF assms(1), where R = "[flow_id f]"])
    show "index_inv w (remove_from_history (flow_id f) (drop_entry key (flow_id f) m))"
      using index_inv_drop_entry [OF manager_inv_index [OF assms(1)] assms(2)]
      by (simp add: remove_from_history_def)
  qed (use length_drop_entry [OF manager_inv_index [OF assms(1)] assms(2)] in
      \<open>auto simp: remove_from_history_def drop_entry_def delete_conv'\<close>)
  then show ?thesis by simp
qed

lemma remove_internal_inv:
  assumes "manager_inv w m"
  shows "manager_inv w (snd (remove_internal key m))"
proof (cases "map_of (flows m) key")
  case None
  then show ?thesis using assms by (simp add: remove_internal_def)
next
  case (Some f)
  then show ?thesis using remove_entry_inv [OF assms Some] by (simp add: remove_internal_eq)
qed

text \<open>Where every removal path leaves the table itself.\<close>

lemma flows_remove_internal: "map_of (flows (snd (remove_internal key m))) = (map_of (flows m))(key := None)"
  by (auto simp: remove_internal_def remove_from_history_def stat_defs Let_def delete_conv'
      split: option.splits)

lemma flows_remove_expired_loop:
  "map_of (flows (snd (remove_expired_loop ks R m))) k =
     (case map_of (flows m) k of None \<Rightarrow> None
      | Some f \<Rightarrow> if (k, flow_updated_at f) \<in> set ks then None else Some f)"
proof (induction ks R m rule: remove_expired_loop.induct)
  case (2 key observed rest R m)
  then show ?case by (cases "map_of (flows m) key") (auto simp: delete_conv' split: option.splits)
qed (simp split: option.splits)

lemma flows_remove_expired_keys:
  "map_of (flows (snd (remove_expired_keys ks m))) k =
     (case map_of (flows m) k of None \<Rightarrow> None
      | Some f \<Rightarrow> if (k, flow_updated_at f) \<in> set ks then None else Some f)"
  using flows_remove_expired_loop [of ks "[]" m k]
  by (cases "remove_expired_loop ks [] m") (simp add: remove_expired_keys_def stat_defs Let_def)

section \<open>Cleanup\<close>

lemma cleanup_expired_internal_inv:
  "manager_inv w m \<Longrightarrow> manager_inv w (snd (cleanup_expired_internal w timeout m))"
  by (simp add: cleanup_expired_internal_def read_now_def remove_expired_keys_inv)

lemma cleanup_now_inv: "manager_inv w m \<Longrightarrow> manager_inv w (cleanup_now w m)"
  by (simp add: cleanup_now_def cleanup_expired_internal_inv)

lemma cleanup_expired_inv: "manager_inv w m \<Longrightarrow> manager_inv w (snd (cleanup_expired w timeout m))"
  using cleanup_expired_internal_inv [of w m timeout]
  by (cases "cleanup_expired_internal w timeout m")
    (simp add: cleanup_expired_def read_instant_def Let_def)

lemma cleanup_expired_configured_inv:
  "manager_inv w m \<Longrightarrow> manager_inv w (snd (cleanup_expired_configured w m))"
  using cleanup_expired_internal_inv [of w m "flow_timeout (fm_config m)"]
  by (cases "cleanup_expired_internal w (flow_timeout (fm_config m)) m")
    (simp add: cleanup_expired_configured_def read_instant_def Let_def)

lemma maybe_cleanup_inv: "manager_inv w m \<Longrightarrow> manager_inv w (maybe_cleanup w m)"
  using cleanup_expired_internal_inv
    [of w "m\<lparr>instant_reads := Suc (Suc (instant_reads m))\<rparr>" "flow_timeout (fm_config m)"]
  by (auto simp: maybe_cleanup_def read_instant_def Let_def split: prod.splits)

lemma flows_cleanup_expired_internal:
  assumes "iter_ok w" "distinct (map fst (flows m))"
  shows "map_of (flows (snd (cleanup_expired_internal w timeout m))) k =
    (case map_of (flows m) k of None \<Rightarrow> None
     | Some f \<Rightarrow>
         if flow_is_expired_at_with_now (w_now w (clock_reads m)) (flow_updated_at f) timeout
         then None else Some f)"
proof -
  let ?ks = "collect_expired_keys w (w_now w (clock_reads m)) timeout m"
  have "(k, flow_updated_at f) \<in> set ?ks \<longleftrightarrow>
      flow_is_expired_at_with_now (w_now w (clock_reads m)) (flow_updated_at f) timeout"
    if "map_of (flows m) k = Some f" for f
    using that assms map_of_eq_Some_iff [OF assms(2)]
    by (force simp: collect_expired_keys_def iter_ok_set)
  then show ?thesis
    by (simp add: cleanup_expired_internal_def read_now_def flows_remove_expired_keys
        collect_expired_keys_def split: option.split)
qed

section \<open>Eviction\<close>

lemma order_head:
  assumes "manager_inv w m" "flow_order m = oldest # order"
  obtains key f where "map_of (flow_index m) oldest = Some key" "map_of (flows m) key = Some f"
    "flow_id f = oldest"
proof -
  have "oldest \<in> dom (map_of (flow_index m))"
    using assms by (auto simp: manager_inv_def history_inv_def)
  then obtain key where key: "map_of (flow_index m) oldest = Some key" by auto
  from index_invD(5) [OF manager_inv_index [OF assms(1)] key] that key show thesis by blast
qed

lemma order_empty: "manager_inv w m \<Longrightarrow> flow_order m = [] \<Longrightarrow> flows m = []"
proof -
  assume m: "manager_inv w m" "flow_order m = []"
  then have "dom (map_of (flow_index m)) = {}" by (simp add: manager_inv_def history_inv_def)
  then have "map_of (flow_index m) = Map.empty" by (simp del: map_of_eq_empty_iff)
  then have "map_of (flows m) k = None" for k
    using index_invD(3) [OF manager_inv_index [OF m(1)], of k] by (cases "map_of (flows m) k") auto
  then show ?thesis by (metis map_of_eq_empty_iff ext)
qed

text \<open>With the indexes consistent, eviction removes exactly the flow created first.\<close>

lemma evict_oldest_flow_eq:
  assumes "manager_inv w m" "flow_order m = oldest # order" "map_of (flow_index m) oldest = Some key"
    "map_of (flows m) key = Some f" "flow_id f = oldest"
  shows "evict_oldest_flow w m = remove_internal key m"
proof -
  have "oldest \<notin> set order" using assms(1,2) by (simp add: manager_inv_def history_inv_def)
  then have "remove_internal key (m\<lparr>flow_order := order\<rparr>) = remove_internal key m"
    using assms by (simp add: remove_internal_eq remove_from_history_def drop_entry_def stat_defs)
  with assms show ?thesis
    by (subst evict_oldest_flow.simps) (simp add: remove_internal_eq)
qed

lemma enforce_max_flows_below:
  "length (flows m) < max_flows (fm_config m) \<Longrightarrow> enforce_max_flows w m = m"
  by (subst enforce_max_flows.simps) simp

lemma config_remove_internal: "fm_config (snd (remove_internal key m)) = fm_config m"
  by (simp add: remove_internal_def remove_from_history_def stat_defs Let_def split: option.splits)

lemma enforce_max_flows_full:
  assumes "manager_inv w m" "length (flows m) \<ge> max_flows (fm_config m)"
  obtains oldest order key f where "flow_order m = oldest # order"
    "map_of (flow_index m) oldest = Some key" "map_of (flows m) key = Some f" "flow_id f = oldest"
    "enforce_max_flows w m = snd (remove_internal key m)"
    "Suc (length (flows (enforce_max_flows w m))) = length (flows m)"
proof -
  have cap: "length (flows m) = max_flows (fm_config m)" "1 \<le> max_flows (fm_config m)"
    using assms by (auto simp: manager_inv_def capacity_inv_def)
  then obtain oldest order where order: "flow_order m = oldest # order"
    using order_empty [OF assms(1)] by (cases "flow_order m") auto
  from order_head [OF assms(1) order] obtain key f where
    k: "map_of (flow_index m) oldest = Some key" "map_of (flows m) key = Some f" "flow_id f = oldest" .
  let ?m = "snd (remove_internal key m)"
  have less: "Suc (length (flows ?m)) = length (flows m)"
    using length_drop_entry [OF manager_inv_index [OF assms(1)] k(2)] k(2)
    by (simp add: remove_internal_eq remove_from_history_def stat_defs)
  have "enforce_max_flows w m = enforce_max_flows w ?m"
    using cap evict_oldest_flow_eq [OF assms(1) order k] k(2)
    by (subst enforce_max_flows.simps) (simp add: remove_internal_eq)
  also have "\<dots> = ?m"
    using less cap by (intro enforce_max_flows_below) (simp add: config_remove_internal)
  finally show thesis using that order k less by simp
qed

lemma enforce_max_flows_spec:
  assumes "manager_inv w m"
  shows "manager_inv w (enforce_max_flows w m) \<and>
    length (flows (enforce_max_flows w m)) < max_flows (fm_config (enforce_max_flows w m)) \<and>
    uuid_reads (enforce_max_flows w m) = uuid_reads m \<and>
    map_of (flows (enforce_max_flows w m)) \<subseteq>\<^sub>m map_of (flows m)"
proof (cases "length (flows m) \<ge> max_flows (fm_config m)")
  case True
  obtain key where e: "enforce_max_flows w m = snd (remove_internal key m)"
    "Suc (length (flows (enforce_max_flows w m))) = length (flows m)"
    using enforce_max_flows_full [OF assms True] by metis
  have "uuid_reads (snd (remove_internal key m)) = uuid_reads m"
    by (simp add: remove_internal_def remove_from_history_def stat_defs Let_def split: option.splits)
  with e assms show ?thesis
    by (auto simp: remove_internal_inv config_remove_internal flows_remove_internal map_le_def
        manager_inv_def [of w m] capacity_inv_def)
next
  case False
  with assms show ?thesis by (simp add: enforce_max_flows_below)
qed

section \<open>Lookup and creation\<close>

lemma uuid_reads_remove_expired_loop [simp]:
  "uuid_reads (snd (remove_expired_loop ks R m)) = uuid_reads m"
  by (induction ks R m rule: remove_expired_loop.induct) (auto split: option.split)

lemma uuid_reads_remove_expired_keys [simp]:
  "uuid_reads (snd (remove_expired_keys ks m)) = uuid_reads m"
  using uuid_reads_remove_expired_loop [of ks "[]" m]
  by (cases "remove_expired_loop ks [] m") (simp add: remove_expired_keys_def stat_defs Let_def)

lemma uuid_reads_cleanup [simp]:
  "uuid_reads (snd (cleanup_expired_internal w t m)) = uuid_reads m"
  by (simp add: cleanup_expired_internal_def read_now_def)

lemma uuid_reads_maybe_cleanup [simp]: "uuid_reads (maybe_cleanup w m) = uuid_reads m"
  using uuid_reads_cleanup [of w "flow_timeout (fm_config m)"
      "m\<lparr>instant_reads := Suc (Suc (instant_reads m))\<rparr>"]
  by (auto simp: maybe_cleanup_def read_instant_def Let_def simp del: uuid_reads_cleanup
      split: prod.splits)

lemma flow_is_expired_eq:
  "flow_is_expired w f m =
     (flow_is_expired_at_with_now (w_now w (clock_reads m)) (flow_updated_at f)
        (flow_timeout (fm_config m)), m\<lparr>clock_reads := Suc (clock_reads m)\<rparr>)"
  by (simp add: flow_is_expired_def read_now_def)

lemma lookup_live_inv: "manager_inv w m \<Longrightarrow> manager_inv w (snd (lookup_live w key m))"
  by (auto simp: lookup_live_def flow_is_expired_eq remove_expired_keys_inv split: option.split)

lemma lookup_live_uuid [simp]: "uuid_reads (snd (lookup_live w key m)) = uuid_reads m"
  by (auto simp: lookup_live_def flow_is_expired_eq add_hit_def split: option.split)

lemma lookup_live_flows:
  "map_of (flows (snd (lookup_live w key m))) =
     (map_of (flows m))(key := fst (lookup_live w key m))"
  by (auto simp: lookup_live_def flow_is_expired_eq flows_remove_expired_keys add_hit_def fun_eq_iff
      split: option.split)

lemma lookup_live_Some:
  "fst (lookup_live w key m) = Some f \<Longrightarrow> map_of (flows m) key = Some f"
  by (auto simp: lookup_live_def flow_is_expired_eq split: option.splits if_splits)

lemma drop_suffix: "suffix xs ys \<Longrightarrow> suffix (drop n xs) ys"
  by (metis suffix_drop suffix_order.trans)

text \<open>Adding an entry with a fresh id, below the capacity.\<close>

definition add_entry :: "flow_key \<Rightarrow> flow \<Rightarrow> flow_manager \<Rightarrow> flow_manager" where
  "add_entry key f m =
     m\<lparr>flows := AList.update key f (flows m),
       flow_index := AList.update (flow_id f) key (flow_index m)\<rparr>"

lemma index_inv_add_entry:
  assumes ix: "index_inv w m" and key: "map_of (flows m) key = None" "key_of_flow (w_hash w) f = key"
    and f: "flow_id f = w_uuid w (uuid_reads m)"
    and fresh: "inj_on (w_uuid w) {..uuid_reads m}"
  shows "map_of (flow_index m) (flow_id f) = None"
    and "index_inv w ((add_entry key f m)\<lparr>uuid_reads := Suc (uuid_reads m)\<rparr>)" (is "index_inv w ?m")
proof -
  note D = index_invD [OF ix]
  show new: "map_of (flow_index m) (flow_id f) = None"
  proof (rule ccontr)
    assume "map_of (flow_index m) (flow_id f) \<noteq> None"
    then obtain n where "n < uuid_reads m" "w_uuid w n = w_uuid w (uuid_reads m)"
      using D(6) f by force
    with fresh show False by (auto dest: inj_onD)
  qed
  have other: "flow_id g \<noteq> flow_id f" if "map_of (flows m) k = Some g" for k g
    using D(3) [OF that] new by auto
  show "index_inv w ?m"
    unfolding index_inv_def
  proof (intro conjI allI impI)
    show "distinct (map fst (flows ?m))" "distinct (map fst (flow_index ?m))"
      using D(1,2) by (simp_all add: add_entry_def distinct_update)
  next
    fix k g assume "map_of (flows ?m) k = Some g"
    then show "map_of (flow_index ?m) (flow_id g) = Some k" "key_of_flow (w_hash w) g = k"
      using D(3,4) key(2) other by (auto simp: add_entry_def update_conv' split: if_splits)
  next
    fix i k assume i: "map_of (flow_index ?m) i = Some k"
    then show "\<exists>g. map_of (flows ?m) k = Some g \<and> flow_id g = i"
      using D(5) [of i k] key(1) by (auto simp: add_entry_def update_conv' split: if_splits)
    show "\<exists>n < uuid_reads ?m. w_uuid w n = i"
      using i D(6) [of i k] f by (auto simp: add_entry_def update_conv' less_Suc_eq split: if_splits)
  qed
qed

definition fresh_flow :: "world \<Rightarrow> five_tuple \<Rightarrow> flow_manager \<Rightarrow> flow" where
  "fresh_flow w tuple m =
     flow_new_with_now (w_uuid w (uuid_reads m)) tuple (w_now w (clock_reads (enforce_max_flows w m)))"

lemma insert_new_flow_eq:
  assumes "uuid_reads (enforce_max_flows w m) = uuid_reads m"
  shows "insert_new_flow w tuple key m =
    (fresh_flow w tuple m,
     let m1 = enforce_max_flows w m;
         s = fm_stats m1
     in set_active (record_new_flow (w_uuid w (uuid_reads m))
          ((add_entry key (fresh_flow w tuple m) m1)
             \<lparr>clock_reads := Suc (clock_reads m1), uuid_reads := Suc (uuid_reads m),
              fm_stats := s\<lparr>cache_misses := saturating_add (cache_misses s) 1,
                            total_flows_created := saturating_add (total_flows_created s) 1\<rparr>\<rparr>)))"
  using assms
  by (simp add: insert_new_flow_def read_now_def read_uuid_def fresh_flow_def flow_new_with_now_def
      flow_metadata_new_with_now_def add_entry_def record_new_flow_def set_active_def Let_def)

lemma insert_new_flow_inv:
  assumes "manager_inv w m" "map_of (flows m) key = None"
    and key: "key = from_five_tuple (w_hash w) tuple"
    and fresh: "inj_on (w_uuid w) {..uuid_reads m}"
  shows "manager_inv w (snd (insert_new_flow w tuple key m))"
proof -
  let ?f = "fresh_flow w tuple m"
  define m1 where "m1 = enforce_max_flows w m"
  note e = enforce_max_flows_spec [OF assms(1), folded m1_def]
  have inv1: "manager_inv w m1" and u: "uuid_reads m1 = uuid_reads m" using e by auto
  have none: "map_of (flows m1) key = None"
    using e assms(2) by (cases "map_of (flows m1) key") (auto simp: map_le_def dom_def)
  have f: "flow_id ?f = w_uuid w (uuid_reads m1)" "key_of_flow (w_hash w) ?f = key"
    by (simp_all add: fresh_flow_def flow_new_with_now_def key_of_flow_def key u)
  note add = index_inv_add_entry [OF manager_inv_index [OF inv1] none f(2,1)]
  have len: "length (AList.update key ?f (flows m1)) = Suc (length (flows m1))"
    using dm.length_insert_new [of "flows m1" key] none index_invD(1) [OF manager_inv_index [OF inv1]]
    by simp
  define fid where "fid = w_uuid w (uuid_reads m)"
  have new: "map_of (flow_index m1) fid = None" using add(1) f fresh u by (simp add: fid_def)
  let ?m = "snd (insert_new_flow w tuple key m)"
  have m: "?m = set_active (record_new_flow fid ((add_entry key ?f m1)
      \<lparr>clock_reads := Suc (clock_reads m1), uuid_reads := Suc (uuid_reads m),
       fm_stats := (fm_stats m1)\<lparr>cache_misses := saturating_add (cache_misses (fm_stats m1)) 1,
         total_flows_created := saturating_add (total_flows_created (fm_stats m1)) 1\<rparr>\<rparr>))"
    by (simp add: insert_new_flow_eq u [unfolded m1_def] m1_def Let_def fid_def)
  have "index_inv w ?m"
    using add(2) fresh u unfolding m by (simp add: index_inv_def record_new_flow_def set_active_def Let_def)
  moreover have "history_inv ?m"
    using inv1 new f(1) u unfolding m
    by (auto simp: manager_inv_def history_inv_def record_new_flow_def set_active_def add_entry_def
        update_conv' fid_def Let_def intro!: drop_suffix)
  moreover have "stats_inv ?m"
    using inv1 len u unfolding m
    by (auto simp: manager_inv_def stats_inv_def record_new_flow_def set_active_def add_entry_def
        unat_saturating_add min_def Let_def)
  moreover have "capacity_inv ?m"
    using inv1 len e unfolding m
    by (simp add: manager_inv_def capacity_inv_def record_new_flow_def set_active_def add_entry_def
        Let_def)
  ultimately show ?thesis by (simp add: manager_inv_def)
qed

lemma get_or_create_cases:
  obtains (hit) f m1 m2 where "get_or_create w tuple m = (f, m2)"
      "m1 = maybe_cleanup w m \<or>
       m1 = maybe_cleanup w (snd (lookup_live w (from_five_tuple (w_hash w) tuple) (maybe_cleanup w m)))"
      "lookup_live w (from_five_tuple (w_hash w) tuple) m1 = (Some f, m2)"
  | (miss) m1 where "map_of (flows m1) (from_five_tuple (w_hash w) tuple) = None"
      "manager_inv w m \<Longrightarrow> manager_inv w m1" "uuid_reads m1 = uuid_reads m"
      "get_or_create w tuple m = insert_new_flow w tuple (from_five_tuple (w_hash w) tuple) m1"
proof -
  let ?key = "from_five_tuple (w_hash w) tuple"
  obtain r m2 where l: "lookup_live w ?key (maybe_cleanup w m) = (r, m2)" by fastforce
  obtain r' m3 where l': "lookup_live w ?key (maybe_cleanup w m2) = (r', m3)" by fastforce
  show thesis
  proof (cases r)
    case (Some f)
    with l show thesis by (intro hit [of f m2 "maybe_cleanup w m"]) (auto simp: get_or_create_def Let_def)
  next
    case None
    show thesis
    proof (cases r')
      case (Some f)
      with l l' None show thesis
        by (intro hit [of f m3 "maybe_cleanup w m2"]) (auto simp: get_or_create_def Let_def)
    next
      case N: None
      have "map_of (flows m3) ?key = None"
        using lookup_live_flows [of w ?key "maybe_cleanup w m2"] l' N by simp
      moreover have "manager_inv w m3" if "manager_inv w m"
        using that lookup_live_inv [of w "maybe_cleanup w m" ?key]
          lookup_live_inv [of w "maybe_cleanup w m2" ?key] l l' by (simp add: maybe_cleanup_inv)
      moreover have "uuid_reads m3 = uuid_reads m"
        using lookup_live_uuid [of w ?key "maybe_cleanup w m"]
          lookup_live_uuid [of w ?key "maybe_cleanup w m2"] l l' by simp
      ultimately show thesis
        using miss [of m3] None N l l' by (auto simp: get_or_create_def Let_def)
    qed
  qed
qed

lemma get_or_create_inv:
  assumes "manager_inv w m" "inj_on (w_uuid w) {..uuid_reads m}"
  shows "manager_inv w (snd (get_or_create w tuple m))"
proof (cases rule: get_or_create_cases [of w tuple m])
  case (hit f m1 m2)
  have "manager_inv w m1" using hit(2) assms(1) by (auto simp: maybe_cleanup_inv lookup_live_inv)
  then show ?thesis using lookup_live_inv [of w m1 "from_five_tuple (w_hash w) tuple"] hit by simp
next
  case (miss m1)
  then show ?thesis using insert_new_flow_inv [of w m1] assms by simp
qed

lemma insert_new_flow_result:
  assumes "manager_inv w m"
  shows "fst (insert_new_flow w tuple key m) = fresh_flow w tuple m"
    and "map_of (flows (snd (insert_new_flow w tuple key m))) =
      (map_of (flows (enforce_max_flows w m)))(key \<mapsto> fresh_flow w tuple m)"
    and "uuid_reads (snd (insert_new_flow w tuple key m)) = Suc (uuid_reads m)"
    and "flow_order (snd (insert_new_flow w tuple key m)) =
      flow_order (enforce_max_flows w m) @ [flow_id (fresh_flow w tuple m)]"
  using enforce_max_flows_spec [OF assms]
  by (simp_all add: insert_new_flow_eq add_entry_def record_new_flow_def set_active_def update_conv'
      fresh_flow_def flow_new_with_now_def Let_def)

lemma get_or_create_uuid:
  "manager_inv w m \<Longrightarrow> uuid_reads (snd (get_or_create w tuple m)) \<le> Suc (uuid_reads m)"
proof (cases rule: get_or_create_cases [of w tuple m])
  case (hit f m1 m2)
  have "uuid_reads m1 = uuid_reads m" using hit(2) by auto
  then show ?thesis using lookup_live_uuid [of w "from_five_tuple (w_hash w) tuple" m1] hit by simp
next
  case (miss m1)
  assume "manager_inv w m"
  with miss show ?thesis by (simp add: insert_new_flow_result)
qed

section \<open>The loops in closed form\<close>

lemma get_loop_eq: "get_loop w key m = lookup_live w key m"
proof (cases "map_of (flows m) key")
  case (Some f)
  then show ?thesis
    using remove_expired_one [of "m\<lparr>clock_reads := Suc (clock_reads m)\<rparr>" key f]
    by (subst get_loop.simps) (simp add: lookup_live_def flow_is_expired_eq)
qed (subst get_loop.simps, simp add: lookup_live_def)

lemma contains_loop_eq:
  "fst (contains_loop w key m) = (fst (lookup_live w key m) \<noteq> None)"
  "manager_inv w (snd (contains_loop w key m)) = manager_inv w (snd (lookup_live w key m))"
  "uuid_reads (snd (contains_loop w key m)) = uuid_reads m"
proof -
  have "contains_loop w key m =
    (fst (lookup_live w key m) \<noteq> None,
     if fst (lookup_live w key m) = None then snd (lookup_live w key m)
     else m\<lparr>clock_reads := Suc (clock_reads m)\<rparr>)"
  proof (cases "map_of (flows m) key")
    case (Some f)
    then show ?thesis
      using remove_expired_one [of "m\<lparr>clock_reads := Suc (clock_reads m)\<rparr>" key f]
      by (subst contains_loop.simps) (simp add: lookup_live_def flow_is_expired_eq)
  qed (subst contains_loop.simps, simp add: lookup_live_def)
  moreover have "manager_inv w (snd (lookup_live w key m)) = manager_inv w m"
    if "fst (lookup_live w key m) \<noteq> None"
    using that by (auto simp: lookup_live_def flow_is_expired_eq split: option.splits if_splits)
  ultimately show "fst (contains_loop w key m) = (fst (lookup_live w key m) \<noteq> None)"
    "manager_inv w (snd (contains_loop w key m)) = manager_inv w (snd (lookup_live w key m))"
    "uuid_reads (snd (contains_loop w key m)) = uuid_reads m"
    by auto
qed

definition updated_flow :: "(flow \<Rightarrow> flow) \<Rightarrow> timestamp \<Rightarrow> flow \<Rightarrow> flow" where
  "updated_flow upd now f =
     (let g = (upd f)\<lparr>flow_id := flow_id f, flow_five_tuple := flow_five_tuple f\<rparr>
      in g\<lparr>flow_updated_at := now, flow_metadata := (flow_metadata g)\<lparr>last_seen := now\<rparr>\<rparr>)"

lemma updated_flow_identity [simp]:
  "flow_id (updated_flow upd now f) = flow_id f"
  "flow_five_tuple (updated_flow upd now f) = flow_five_tuple f"
  "flow_updated_at (updated_flow upd now f) = now"
  by (simp_all add: updated_flow_def Let_def)

lemma update_loop_eq:
  "update_loop w key upd m =
     (case fst (lookup_live w key m) of
        None \<Rightarrow> (None, snd (lookup_live w key m))
      | Some f \<Rightarrow>
          let g = updated_flow upd (w_now w (Suc (clock_reads m))) f
          in (Some g, m\<lparr>flows := AList.update key g (flows m),
                        clock_reads := Suc (Suc (clock_reads m))\<rparr>))"
proof (cases "map_of (flows m) key")
  case (Some f)
  then show ?thesis
    using remove_expired_one [of "m\<lparr>clock_reads := Suc (clock_reads m)\<rparr>" key f]
    by (subst update_loop.simps)
      (simp add: lookup_live_def flow_is_expired_eq updated_flow_def read_now_def Let_def)
qed (subst update_loop.simps, simp add: lookup_live_def)

lemma replace_entry_inv:
  assumes m: "manager_inv w m" and f: "map_of (flows m) key = Some f"
    and g: "flow_id g = flow_id f" "flow_five_tuple g = flow_five_tuple f"
  shows "manager_inv w (m\<lparr>flows := AList.update key g (flows m)\<rparr>)"
proof -
  note D = index_invD [OF manager_inv_index [OF m]]
  have "index_inv w (m\<lparr>flows := AList.update key g (flows m)\<rparr>)"
    unfolding index_inv_def
  proof (intro conjI allI impI)
    fix k h assume "map_of (flows (m\<lparr>flows := AList.update key g (flows m)\<rparr>)) k = Some h"
    then show "map_of (flow_index (m\<lparr>flows := AList.update key g (flows m)\<rparr>)) (flow_id h) = Some k"
      "key_of_flow (w_hash w) h = k"
      using D(3,4) [of k h] D(3,4) [OF f] g
      by (auto simp: update_conv' key_of_flow_def split: if_splits)
  next
    fix i k assume i: "map_of (flow_index (m\<lparr>flows := AList.update key g (flows m)\<rparr>)) i = Some k"
    show "\<exists>h. map_of (flows (m\<lparr>flows := AList.update key g (flows m)\<rparr>)) k = Some h \<and> flow_id h = i"
      using i D(5) [of i k] f g(1) by (auto simp: update_conv')
    show "\<exists>n < uuid_reads (m\<lparr>flows := AList.update key g (flows m)\<rparr>). w_uuid w n = i"
      using i D(6) [of i k] by simp
  qed (use D(1,2) in \<open>simp_all add: distinct_update\<close>)
  moreover have "length (AList.update key g (flows m)) = length (flows m)"
    using dm.length_insert_old [of "flows m" key g] D(1) f by simp
  ultimately show ?thesis
    using m by (simp add: manager_inv_def history_inv_def stats_inv_def capacity_inv_def)
qed

lemma update_loop_inv:
  assumes "manager_inv w m"
  shows "manager_inv w (snd (update_loop w key upd m))"
proof (cases "fst (lookup_live w key m)")
  case None
  then show ?thesis using lookup_live_inv [OF assms] by (simp add: update_loop_eq)
next
  case (Some f)
  let ?g = "updated_flow upd (w_now w (Suc (clock_reads m))) f"
  have "manager_inv w ((m\<lparr>flows := AList.update key ?g (flows m)\<rparr>)
      \<lparr>clock_reads := Suc (Suc (clock_reads m))\<rparr>)"
    using replace_entry_inv [OF assms lookup_live_Some [OF Some], of ?g] by simp
  with Some show ?thesis by (simp add: update_loop_eq Let_def)
qed

section \<open>Clearing\<close>

lemma clear_loop_spec:
  "distinct keys \<Longrightarrow> set keys \<subseteq> fst ` set (flows m) \<Longrightarrow>
   clear_loop keys n m =
     (foldl (\<lambda>c _. saturating_add c 1) n keys,
      m\<lparr>flows := filter (\<lambda>(k, f). k \<notin> set keys) (flows m)\<rparr>)"
proof (induction keys arbitrary: n m)
  case (Cons key keys)
  from Cons.prems obtain f where "map_of (flows m) key = Some f"
    by (auto dest: weak_map_of_SomeI)
  moreover have "set keys \<subseteq> fst ` set (AList.delete key (flows m))"
    using Cons.prems by (auto simp: AList.delete_eq image_iff) force
  ultimately show ?case
    using Cons by (simp add: AList.delete_eq conj_commute case_prod_unfold eq_commute [of key])
qed simp

lemma foldl_saturating: "foldl (\<lambda>c _. saturating_add c 1) n xs = saturating_add n (of_nat (length xs))"
  if "unat n + length xs < 2 ^ 64" for n :: u64
  using that
proof (induction xs arbitrary: n)
  case (Cons x xs)
  have "unat (saturating_add n 1) = unat n + 1"
    using Cons.prems by (simp add: unat_saturating_add)
  with Cons show ?case
    by (simp add: word_unat_eq_iff unat_saturating_add unsigned_of_nat take_bit_eq_mod
        del: of_nat_Suc)
qed (simp add: saturating_add_def)

lemma clear_flows_eq:
  assumes "manager_inv w m" "iter_ok w"
  shows "flows (clear_flows w m) = []" "manager_inv w (clear_flows w m)"
    "uuid_reads (clear_flows w m) = uuid_reads m"
proof -
  let ?keys = "map fst (w_iter w (flows m))"
  note D = index_invD [OF manager_inv_index [OF assms(1)]]
  have keys: "distinct ?keys" "set ?keys = fst ` set (flows m)" "length ?keys = length (flows m)"
    using D(1) assms(2) by (simp_all add: iter_ok_distinct iter_ok_set iter_ok_length)
  have n: "length (flows m) < 2 ^ 64" using capacity_u64 [OF assms(1)] by simp
  have "foldl (\<lambda>c _. saturating_add c 1) (0 :: u64) ?keys = of_nat (length (flows m))"
    using foldl_saturating [of 0 ?keys] n keys(3)
    by (simp add: saturating_add_def unsigned_of_nat take_bit_eq_mod)
  moreover have "filter (\<lambda>(k, f). k \<notin> set ?keys) (flows m) = []"
    using keys(2) by (force simp: filter_empty_conv)
  ultimately have e: "clear_loop ?keys 0 m = (of_nat (length (flows m)), m\<lparr>flows := []\<rparr>)"
    using clear_loop_spec [OF keys(1), of m 0] keys(2) by simp
  have closed: "unat (saturating_add (total_flows_closed (fm_stats m)) (of_nat (length (flows m)))) =
      unat (total_flows_closed (fm_stats m)) + length (flows m)"
    if "unat (total_flows_closed (fm_stats m)) + length (flows m) < 2 ^ 64"
    using that n by (simp add: unat_saturating_add unsigned_of_nat take_bit_eq_mod)
  show "flows (clear_flows w m) = []" "uuid_reads (clear_flows w m) = uuid_reads m"
    by (simp_all add: clear_flows_def e add_closed_def)
  show "manager_inv w (clear_flows w m)"
    using assms(1) closed
    by (auto simp: clear_flows_def e add_closed_def manager_inv_def index_inv_def history_inv_def
        stats_inv_def capacity_inv_def)
qed

section \<open>Runs\<close>

text \<open>The public interface as a set of operations; every method of \<open>FlowManager\<close> that reads or
  changes the table is one of them.\<close>

datatype manager_op =
    OpGetOrCreate five_tuple | OpGet flow_key | OpGetById uuid | OpUpdate flow_key "flow \<Rightarrow> flow"
  | OpRemove flow_key | OpContains flow_key | OpLen | OpIsEmpty | OpIter | OpIterKeys
  | OpFindByProcess u32 | OpFindByDestination ip_addr "u16 option" | OpFindBySource ip_addr "u16 option"
  | OpCleanupExpired duration | OpCleanupConfigured | OpClear | OpStats | OpActiveCount | OpRecentFlows

fun manager_step :: "world \<Rightarrow> flow_manager \<Rightarrow> manager_op \<Rightarrow> flow_manager" where
  "manager_step w m (OpGetOrCreate t) = snd (get_or_create w t m)"
| "manager_step w m (OpGet k) = snd (get_flow w k m)"
| "manager_step w m (OpGetById i) = snd (get_by_id w i m)"
| "manager_step w m (OpUpdate k upd) = snd (update_flow w k upd m)"
| "manager_step w m (OpRemove k) = snd (remove_flow w k m)"
| "manager_step w m (OpContains k) = snd (contains_flow w k m)"
| "manager_step w m OpLen = snd (len_flows w m)"
| "manager_step w m OpIsEmpty = snd (is_empty_flows w m)"
| "manager_step w m OpIter = snd (iter_flows w m)"
| "manager_step w m OpIterKeys = snd (iter_keys w m)"
| "manager_step w m (OpFindByProcess p) = snd (find_by_process w p m)"
| "manager_step w m (OpFindByDestination ip port) = snd (find_by_destination w ip port m)"
| "manager_step w m (OpFindBySource ip port) = snd (find_by_source w ip port m)"
| "manager_step w m (OpCleanupExpired t) = snd (cleanup_expired w t m)"
| "manager_step w m OpCleanupConfigured = snd (cleanup_expired_configured w m)"
| "manager_step w m OpClear = clear_flows w m"
| "manager_step w m OpStats = snd (stats_of w m)"
| "manager_step w m OpActiveCount = snd (active_count w m)"
| "manager_step w m OpRecentFlows = snd (recent_flows_of w m)"

lemmas query_defs = len_flows_def is_empty_flows_def iter_flows_def iter_keys_def find_by_process_def
  find_by_destination_def find_by_source_def stats_of_def active_count_def recent_flows_of_def

lemma uuid_reads_other [simp]:
  "uuid_reads (cleanup_now w m) = uuid_reads m"
  "uuid_reads (snd (remove_internal key m)) = uuid_reads m"
  "uuid_reads (snd (update_loop w key upd m)) = uuid_reads m"
  "uuid_reads (snd (cleanup_expired w t m)) = uuid_reads m"
  "uuid_reads (snd (cleanup_expired_configured w m)) = uuid_reads m"
  using uuid_reads_cleanup [of w t m] uuid_reads_cleanup [of w "flow_timeout (fm_config m)" m]
  by (auto simp: cleanup_now_def remove_internal_def remove_from_history_def stat_defs
      update_loop_eq cleanup_expired_def cleanup_expired_configured_def read_instant_def Let_def
      simp del: uuid_reads_cleanup split: option.splits prod.splits)

lemma manager_step_inv:
  assumes "manager_inv w m" "iter_ok w" "inj_on (w_uuid w) {..uuid_reads m}"
  shows "manager_inv w (manager_step w m op) \<and> uuid_reads (manager_step w m op) \<le> Suc (uuid_reads m)"
  using assms maybe_cleanup_inv [OF assms(1)]
  by (cases op)
    (auto simp: get_or_create_inv get_or_create_uuid get_flow_def get_by_id_def update_flow_def
      remove_flow_def contains_flow_def query_defs get_loop_eq lookup_live_inv contains_loop_eq
      update_loop_inv remove_internal_inv cleanup_now_inv cleanup_expired_inv
      cleanup_expired_configured_inv clear_flows_eq maybe_cleanup_inv Let_def split: option.split)

definition manager_run :: "world \<Rightarrow> manager_config \<Rightarrow> manager_op list \<Rightarrow> flow_manager" where
  "manager_run w c ops = foldl (manager_step w) (flow_manager_new w c) ops"

lemma manager_run_inv:
  assumes "max_flows c \<le> usize_max" "iter_ok w" "inj_on (w_uuid w) {..<length ops}"
  shows "manager_inv w (manager_run w c ops) \<and> uuid_reads (manager_run w c ops) \<le> length ops"
  using assms(3)
proof (induction ops rule: rev_induct)
  case Nil
  then show ?case using manager_inv_new [OF assms(1)] by (simp add: manager_run_def flow_manager_new_def)
next
  case (snoc op ops)
  have "inj_on (w_uuid w) {..<length ops}" using snoc.prems by (rule inj_on_subset) auto
  with snoc.IH have IH: "manager_inv w (manager_run w c ops)"
    "uuid_reads (manager_run w c ops) \<le> length ops" by auto
  have "inj_on (w_uuid w) {..uuid_reads (manager_run w c ops)}"
    using snoc.prems by (rule inj_on_subset) (use IH(2) in auto)
  from manager_step_inv [OF IH(1) assms(2) this, of op] IH(2) show ?case
    by (auto simp: manager_run_def)
qed

end
