(* ===== verification/Flow_Manager_Props.thy ===== *)
theory Flow_Manager_Props
  imports Flow_Manager_Inv
begin

text \<open>
  What the flow table promises its callers, stated over the operations of \<open>Flow_Manager\<close> and
  proved from the invariant of \<open>Flow_Manager_Inv\<close>. \<open>demo_world\<close> is the concrete environment of
  the witnesses: clocks that tick once per reading, sequential identifiers, the source port as
  hash and the table's own order as iteration order.
\<close>

definition demo_world :: world where
  "demo_world =
     \<lparr>w_now = int, w_instant = (\<lambda>n. n), w_uuid = of_nat,
      w_hash = (\<lambda>t. ucast (src_port t)), w_iter = (\<lambda>m. m)\<rparr>"

definition demo_config :: manager_config where
  "demo_config = \<lparr>max_flows = 2, cleanup_interval = 1000, flow_timeout = 500\<rparr>"

definition demo_tuple :: "u16 \<Rightarrow> five_tuple" where
  "demo_tuple port =
     \<lparr>src_ip = V4 (Ipv4 10 0 0 1), dst_ip = V4 (Ipv4 10 0 0 2), src_port = port, dst_port = 80,
      protocol = Tcp\<rparr>"

lemma demo_iter_ok: "iter_ok demo_world"
  by (simp add: iter_ok_def demo_world_def)

lemma demo_uuid_inj: "n \<le> 2 ^ 128 \<Longrightarrow> inj_on (w_uuid demo_world) {..<n}"
proof (rule inj_onI)
  fix a b assume "n \<le> 2 ^ 128" "a \<in> {..<n}" "b \<in> {..<n}" "w_uuid demo_world a = w_uuid demo_world b"
  then show "a = b"
    by (simp add: demo_world_def word_unat_eq_iff unsigned_of_nat take_bit_eq_mod)
qed

section \<open>All runs\<close>

text \<open>
  Property C1. The four indexes of the flow table stay consistent: after any sequence of calls to
  the public interface, the id index inverts the table, every flow is filed under the hash of its
  own five-tuple, the creation order lists exactly the live ids once, the recent list is its tail
  and has at most 1000 entries, the table never exceeds the configured maximum (at least 1), and
  the active counter is the table size. Identifiers are assumed not to repeat.
\<close>

theorem manager_run_consistent:
  assumes "max_flows c \<le> usize_max" "iter_ok w" "inj_on (w_uuid w) {..<length ops}"
  shows "manager_inv w (manager_run w c ops)"
  using manager_run_inv [OF assms] by simp

theorem manager_run_consistent_witness:
  "manager_inv demo_world (manager_run demo_world demo_config
     [OpGetOrCreate (demo_tuple 1), OpGetOrCreate (demo_tuple 2), OpGetOrCreate (demo_tuple 3), OpLen])"
  by (rule manager_run_consistent)
    (simp_all add: demo_config_def usize_max_def demo_iter_ok demo_uuid_inj)

text \<open>
  Property C2. The flow statistics balance: over any run shorter than the counters' range, every
  flow ever created is either still in the table or was counted exactly once as closed, whichever
  of expiry, eviction, removal and clearing took it out.
\<close>

theorem manager_run_accounting:
  assumes "max_flows c \<le> usize_max" "iter_ok w" "inj_on (w_uuid w) {..<length ops}"
    and "length ops < 2 ^ 64 - 1"
  defines "m \<equiv> manager_run w c ops"
  shows "unat (total_flows_created (fm_stats m)) =
    unat (total_flows_closed (fm_stats m)) + unat (active_flows (fm_stats m)) \<and>
    unat (active_flows (fm_stats m)) = length (flows m)"
proof -
  have inv: "manager_inv w m" and u: "uuid_reads m \<le> length ops"
    using manager_run_inv [OF assms(1-3)] by (simp_all add: m_def)
  have "length (flows m) < 2 ^ 64" using capacity_u64 [OF inv] by simp
  then have "unat (of_nat (length (flows m)) :: u64) = length (flows m)"
    by (simp add: unsigned_of_nat take_bit_eq_mod)
  with inv u assms(4) show ?thesis by (simp add: manager_inv_def stats_inv_def min_def)
qed

theorem manager_run_accounting_witness:
  "unat (total_flows_created (fm_stats (manager_run demo_world demo_config
      [OpGetOrCreate (demo_tuple 1), OpClear]))) =
   unat (total_flows_closed (fm_stats (manager_run demo_world demo_config
      [OpGetOrCreate (demo_tuple 1), OpClear]))) +
   unat (active_flows (fm_stats (manager_run demo_world demo_config
      [OpGetOrCreate (demo_tuple 1), OpClear])))"
  using manager_run_accounting [of demo_config demo_world "[OpGetOrCreate (demo_tuple 1), OpClear]"]
  by (simp add: demo_config_def usize_max_def demo_iter_ok demo_uuid_inj)

section \<open>Creation\<close>

lemma lookup_live_key:
  assumes "manager_inv w m" "fst (lookup_live w key m) = Some f"
  shows "from_five_tuple (w_hash w) (flow_five_tuple f) = key"
  using index_invD(4) [OF manager_inv_index [OF assms(1)] lookup_live_Some [OF assms(2)]]
  by (simp add: key_of_flow_def)


definition demo_hash :: "five_tuple \<Rightarrow> u64" where
  "demo_hash t = (if t = demo_tuple 1 then 1 else 0)"




section \<open>Eviction and expiry\<close>

text \<open>
  Eviction is first-in first-out and removes one flow: when a new flow arrives at a
  full table, exactly the flow at the head of the creation order leaves it, every other flow stays,
  and the new id goes to the end of the order.
\<close>

lemma eviction_is_fifo:
  fixes tuple :: five_tuple
  assumes "manager_inv w m" "map_of (flows m) key = None"
    and "length (flows m) = max_flows (fm_config m)"
  defines "m' \<equiv> snd (insert_new_flow w tuple key m)" and "f \<equiv> fst (insert_new_flow w tuple key m)"
  shows "\<exists>victim old. flow_order m = flow_id victim # tl (flow_order m) \<and>
    map_of (flows m) old = Some victim \<and>
    map_of (flows m') = (map_of (flows m))(old := None, key \<mapsto> f) \<and>
    flow_order m' = tl (flow_order m) @ [flow_id f]"
proof -
  have "max_flows (fm_config m) \<le> length (flows m)" using assms(3) by simp
  from enforce_max_flows_full [OF assms(1) this] obtain oldest order old victim where
    v: "flow_order m = oldest # order" "map_of (flows m) old = Some victim" "flow_id victim = oldest"
      "enforce_max_flows w m = snd (remove_internal old m)" by metis
  have "oldest \<notin> set order" using assms(1) v(1) by (simp add: manager_inv_def history_inv_def)
  then have "filter (\<lambda>q. q \<noteq> oldest) order = order" by (intro filter_True) auto
  then have "flow_order (snd (remove_internal old m)) = order"
    using v by (simp add: remove_internal_eq remove_from_history_def drop_entry_def stat_defs)
  then show ?thesis
    using v insert_new_flow_result [OF assms(1), of tuple key]
    by (intro exI [of _ victim] exI [of _ old]) (simp add: m'_def f_def flows_remove_internal)
qed

definition demo_flow :: flow where
  "demo_flow = flow_new_with_now 0 (demo_tuple 1) 0"

definition demo_full :: flow_manager where
  "demo_full =
     \<lparr>flows = [(1, demo_flow)], flow_index = [(0, 1)], recent_flows = [0], flow_order = [0],
      fm_config = \<lparr>max_flows = 1, cleanup_interval = 1000, flow_timeout = 500\<rparr>,
      fm_stats = \<lparr>total_flows_created = 1, total_flows_closed = 0, active_flows = 1, cache_hits = 0,
        cache_misses = 1\<rparr>,
      last_cleanup = 0, clock_reads = 1, instant_reads = 3, uuid_reads = 1\<rparr>"

lemma demo_full_inv: "manager_inv demo_world demo_full"
  by (simp add: manager_inv_def index_inv_def history_inv_def stats_inv_def capacity_inv_def
      demo_full_def demo_flow_def flow_new_with_now_def demo_world_def key_of_flow_def
      from_five_tuple_def demo_tuple_def usize_max_def)

lemma eviction_is_fifo_example:
  "\<exists>victim old. flow_order demo_full = flow_id victim # tl (flow_order demo_full) \<and>
    map_of (flows demo_full) old = Some victim \<and>
    map_of (flows (snd (insert_new_flow demo_world (demo_tuple 2) 2 demo_full))) =
      (map_of (flows demo_full))
        (old := None, 2 \<mapsto> fst (insert_new_flow demo_world (demo_tuple 2) 2 demo_full)) \<and>
    flow_order (snd (insert_new_flow demo_world (demo_tuple 2) 2 demo_full)) =
      tl (flow_order demo_full) @
      [flow_id (fst (insert_new_flow demo_world (demo_tuple 2) 2 demo_full))]"
  by (rule eviction_is_fifo [OF demo_full_inv]) (simp_all add: demo_full_def)

text \<open>
  Property C37. Cleanup is exact: one pass removes every flow whose last update is at least the
  timeout old at the clock reading of the pass (or lies in the future, when the clock stepped
  back), and no other flow, whatever the iteration order.
\<close>

theorem cleanup_exact:
  assumes "manager_inv w m" "iter_ok w" "timeout \<le> duration_max"
  shows "map_of (flows (snd (cleanup_expired w timeout m))) k =
    (case map_of (flows m) k of None \<Rightarrow> None
     | Some f \<Rightarrow>
         if w_now w (clock_reads m) < flow_updated_at f \<or>
            flow_updated_at f + int timeout \<le> w_now w (clock_reads m)
         then None else Some f)"
proof -
  have "flows (snd (cleanup_expired w timeout m)) = flows (snd (cleanup_expired_internal w timeout m))"
    by (simp add: cleanup_expired_def read_instant_def Let_def split: prod.split)
  then show ?thesis
    using flows_cleanup_expired_internal [OF assms(2) index_invD(1) [OF manager_inv_index [OF assms(1)]],
        of timeout k] assms(3)
    by (simp add: flow_is_expired_at_with_now_def elapsed_since_reaches_iff le_diff_eq add.commute
        split: option.split)
qed

theorem cleanup_exact_witness:
  "map_of (flows (snd (cleanup_expired demo_world 1 demo_full))) 1 = None \<and>
   map_of (flows (snd (cleanup_expired demo_world 2 demo_full))) 1 = Some demo_flow"
  using cleanup_exact [OF demo_full_inv demo_iter_ok, of 1 1]
    cleanup_exact [OF demo_full_inv demo_iter_ok, of 2 1]
  by (simp add: duration_max_def demo_full_def demo_flow_def demo_world_def flow_new_with_now_def)

text \<open>
  A lookup never returns an expired flow and never misses a live one: \<open>get\<close> returns
  the table entry left by the periodic cleanup exactly when that entry has not reached the
  configured timeout at the clock reading of the lookup, and an expired entry is gone afterwards.
\<close>

lemma get_flow_live:
  assumes "flow_timeout (fm_config (maybe_cleanup w m)) \<le> duration_max"
  defines "m1 \<equiv> maybe_cleanup w m"
  shows "fst (get_flow w key m) =
    (case map_of (flows m1) key of None \<Rightarrow> None
     | Some f \<Rightarrow>
         if w_now w (clock_reads m1) < flow_updated_at f \<or>
            flow_updated_at f + int (flow_timeout (fm_config m1)) \<le> w_now w (clock_reads m1)
         then None else Some f) \<and>
    map_of (flows (snd (get_flow w key m))) = (map_of (flows m1))(key := fst (get_flow w key m))"
proof
  show "map_of (flows (snd (get_flow w key m))) = (map_of (flows m1))(key := fst (get_flow w key m))"
    by (simp add: get_flow_def get_loop_eq lookup_live_flows m1_def)
qed (use assms(1) in \<open>simp add: get_flow_def get_loop_eq m1_def lookup_live_def flow_is_expired_eq
      flow_is_expired_at_with_now_def elapsed_since_reaches_iff le_diff_eq add.commute
      split: option.split\<close>)

lemma get_flow_live_example: "fst (get_flow demo_world 1 demo_full) = Some demo_flow"
  using get_flow_live [of demo_world demo_full 1]
  by (simp add: duration_max_def demo_full_def demo_flow_def demo_world_def flow_new_with_now_def
      maybe_cleanup_def read_instant_def)

text \<open>
  An update cannot corrupt the table: whatever the caller's closure does to the flow,
  its id and five-tuple are kept, the timestamps are set to the clock reading, the stored flow is
  the returned one, and the indexes stay consistent.
\<close>

lemma update_flow_safe:
  assumes "manager_inv w m" "fst (update_flow w key upd m) = Some g"
  shows "\<exists>f. map_of (flows (maybe_cleanup w m)) key = Some f \<and>
    flow_id g = flow_id f \<and> flow_five_tuple g = flow_five_tuple f \<and>
    flow_updated_at g = last_seen (flow_metadata g) \<and>
    map_of (flows (snd (update_flow w key upd m))) key = Some g \<and>
    manager_inv w (snd (update_flow w key upd m))"
proof -
  let ?m = "maybe_cleanup w m"
  obtain f where f: "fst (lookup_live w key ?m) = Some f"
    and g: "g = updated_flow upd (w_now w (Suc (clock_reads ?m))) f"
      "map_of (flows (snd (update_flow w key upd m))) key = Some g"
    using assms(2)
    by (auto simp: update_flow_def update_loop_eq update_conv' Let_def split: option.splits)
  have "manager_inv w (snd (update_flow w key upd m))"
    by (simp add: update_flow_def update_loop_inv maybe_cleanup_inv assms(1))
  with g lookup_live_Some [OF f] show ?thesis
    by (intro exI [of _ f]) (simp add: updated_flow_def Let_def)
qed

lemma update_flow_safe_example:
  "\<exists>g. fst (update_flow demo_world 1 (\<lambda>f. f\<lparr>flow_id := 99\<rparr>) demo_full) = Some g \<and> flow_id g = 0"
proof -
  obtain g where g: "fst (update_flow demo_world 1 (\<lambda>f. f\<lparr>flow_id := 99\<rparr>) demo_full) = Some g"
    by (simp add: update_flow_def update_loop_eq lookup_live_def flow_is_expired_eq
        flow_is_expired_at_with_now_def elapsed_since_def demo_full_def demo_flow_def demo_world_def
        flow_new_with_now_def maybe_cleanup_def read_instant_def Let_def)
  from update_flow_safe [OF demo_full_inv g] g show ?thesis
    by (auto simp: demo_full_def demo_flow_def demo_world_def flow_new_with_now_def
        maybe_cleanup_def read_instant_def split: if_splits)
qed

end
