(* ===== verification/Policy.thy ===== *)
theory Policy
  imports Core_Text
begin

text \<open>
  The flow policy of \<open>nettrap-engine\<close> (\<open>policy.rs\<close>): ordered rules over the attributes of a flow,
  the default decision, and the textual form of decisions. The lemmas give the first-match
  semantics of the rule list and the round trip between decisions and their names.
\<close>

datatype flow_decision = Pass | Capture | Emulate | Sinkhole | Block

datatype flow_policy_rule = RuleDefault | ListenerEmulationDisabled

fun flow_policy_rule_as_str :: "flow_policy_rule \<Rightarrow> bytes" where
  "flow_policy_rule_as_str RuleDefault = bstr ''default_decision''"
| "flow_policy_rule_as_str ListenerEmulationDisabled = bstr ''listener.emulate_response=false''"

record flow_policy_context =
  cx_listener :: bytes
  cx_protocol :: bytes
  cx_source_host :: "bytes option"
  cx_destination_host :: "bytes option"
  cx_destination_port :: "u16 option"
  cx_process_name :: "bytes option"

record flow_policy_rule_spec =
  rs_listener :: "bytes option"
  rs_protocol :: "bytes option"
  rs_source_host :: "bytes option"
  rs_destination_host :: "bytes option"
  rs_destination_port :: "u16 option"
  rs_process_name :: "bytes option"
  rs_decision :: flow_decision

record flow_policy_resolution =
  res_decision :: flow_decision
  res_rule :: flow_policy_rule
  res_rule_index :: "usize option"

definition rule_label :: "flow_policy_resolution \<Rightarrow> bytes" where
  "rule_label r =
     (case res_rule_index r of
        None \<Rightarrow> flow_policy_rule_as_str (res_rule r)
      | Some i \<Rightarrow> bstr ''flow_rules['' @ show_dec (i + 1) @ bstr '']'')"

record flow_policy =
  default_decision :: flow_decision

definition flow_policy_resolve :: "flow_policy \<Rightarrow> bool \<Rightarrow> flow_policy_resolution" where
  "flow_policy_resolve p emulate_response =
     (if default_decision p = Emulate \<and> \<not> emulate_response
      then \<lparr>res_decision = Capture, res_rule = ListenerEmulationDisabled, res_rule_index = None\<rparr>
      else \<lparr>res_decision = default_decision p, res_rule = RuleDefault, res_rule_index = None\<rparr>)"

record configured_flow_policy =
  cp_default :: flow_policy
  cp_rules :: "flow_policy_rule_spec list"

definition configured_flow_policy_new ::
  "flow_decision \<Rightarrow> flow_policy_rule_spec list \<Rightarrow> configured_flow_policy" where
  "configured_flow_policy_new d rules = \<lparr>cp_default = \<lparr>default_decision = d\<rparr>, cp_rules = rules\<rparr>"

text \<open>\<open>is_none_or\<close> and \<open>is_some_and\<close> of \<open>Option\<close>.\<close>

definition is_none_or :: "'a option \<Rightarrow> ('a \<Rightarrow> bool) \<Rightarrow> bool" where
  "is_none_or x p = (case x of None \<Rightarrow> True | Some v \<Rightarrow> p v)"

definition is_some_and :: "'a option \<Rightarrow> ('a \<Rightarrow> bool) \<Rightarrow> bool" where
  "is_some_and x p = (case x of None \<Rightarrow> False | Some v \<Rightarrow> p v)"

lemmas matcher_defs = is_none_or_def is_some_and_def

definition rule_matches :: "flow_policy_rule_spec \<Rightarrow> flow_policy_context \<Rightarrow> bool" where
  "rule_matches r cx \<longleftrightarrow>
     is_none_or (rs_listener r) (\<lambda>v. eq_ignore_ascii_case v (cx_listener cx)) \<and>
     is_none_or (rs_protocol r) (\<lambda>v. eq_ignore_ascii_case v (cx_protocol cx)) \<and>
     is_none_or (rs_source_host r)
       (\<lambda>v. is_some_and (cx_source_host cx) (\<lambda>c. eq_ignore_ascii_case v c)) \<and>
     is_none_or (rs_destination_host r)
       (\<lambda>v. is_some_and (cx_destination_host cx) (\<lambda>c. eq_ignore_ascii_case v c)) \<and>
     is_none_or (rs_destination_port r) (\<lambda>v. cx_destination_port cx = Some v) \<and>
     is_none_or (rs_process_name r)
       (\<lambda>v. is_some_and (cx_process_name cx) (\<lambda>c. eq_ignore_ascii_case v c))"

text \<open>\<open>rules.iter().enumerate().find(...)\<close>.\<close>

fun find_rule :: "flow_policy_context \<Rightarrow> usize \<Rightarrow> flow_policy_rule_spec list \<Rightarrow>
    (usize \<times> flow_policy_rule_spec) option" where
  "find_rule cx i [] = None"
| "find_rule cx i (r # rs) = (if rule_matches r cx then Some (i, r) else find_rule cx (Suc i) rs)"

definition resolve_for_context ::
  "configured_flow_policy \<Rightarrow> flow_policy_context \<Rightarrow> bool \<Rightarrow> flow_policy_resolution" where
  "resolve_for_context p cx emulate_response =
     (case find_rule cx 0 (cp_rules p) of
        Some (index, rule) \<Rightarrow>
          \<lparr>res_decision = rs_decision rule, res_rule = RuleDefault, res_rule_index = Some index\<rparr>
      | None \<Rightarrow> flow_policy_resolve (cp_default p) emulate_response)"

fun flow_decision_as_str :: "flow_decision \<Rightarrow> bytes" where
  "flow_decision_as_str Pass = bstr ''pass''"
| "flow_decision_as_str Capture = bstr ''capture''"
| "flow_decision_as_str Emulate = bstr ''emulate''"
| "flow_decision_as_str Sinkhole = bstr ''sinkhole''"
| "flow_decision_as_str Block = bstr ''block''"

text \<open>\<open>FromStr\<close>; the error carries no data, so \<open>None\<close> is \<open>ParseFlowDecisionError\<close>.\<close>

definition flow_decision_from_str :: "bytes \<Rightarrow> flow_decision option" where
  "flow_decision_from_str v =
     (if v = bstr ''pass'' \<or> v = bstr ''passthrough'' then Some Pass
      else if v = bstr ''capture'' then Some Capture
      else if v = bstr ''emulate'' \<or> v = bstr ''intercept'' then Some Emulate
      else if v = bstr ''sinkhole'' then Some Sinkhole
      else if v = bstr ''block'' then Some Block
      else None)"

section \<open>First match\<close>

lemma find_rule_None: "find_rule cx i rs = None \<longleftrightarrow> (\<forall>r \<in> set rs. \<not> rule_matches r cx)"
  by (induction rs arbitrary: i) auto

lemma find_rule_Some:
  "find_rule cx i rs = Some (j, r) \<Longrightarrow>
     \<exists>k < length rs. j = i + k \<and> r = rs ! k \<and> rule_matches (rs ! k) cx \<and>
       (\<forall>l < k. \<not> rule_matches (rs ! l) cx)"
proof (induction rs arbitrary: i)
  case (Cons a rs)
  show ?case
  proof (cases "rule_matches a cx")
    case True
    with Cons.prems show ?thesis by (auto intro!: exI [of _ 0])
  next
    case False
    with Cons.prems have "find_rule cx (Suc i) rs = Some (j, r)" by simp
    from Cons.IH [OF this] obtain k where "k < length rs" "j = Suc i + k" "r = rs ! k"
      "rule_matches (rs ! k) cx" "\<forall>l < k. \<not> rule_matches (rs ! l) cx" by blast
    with False show ?thesis
      by (intro exI [of _ "Suc k"]) (auto simp: nth_Cons split: nat.split)
  qed
qed simp

text \<open>
  The first matching rule decides: either no rule matches the flow and the default
  policy answers (an \<open>emulate\<close> default becoming \<open>capture\<close> where the listener disables emulation),
  or the answer is the decision of the matching rule of smallest index and reports that index. A
  matching rule is applied as written, also when the listener disables emulation.
\<close>

lemma resolve_for_context_first_match:
  "(\<forall>r. r \<in> set (cp_rules p) \<longrightarrow> \<not> rule_matches r cx) \<and>
     res_rule_index (resolve_for_context p cx em) = None \<and>
     res_decision (resolve_for_context p cx em) =
       (if default_decision (cp_default p) = Emulate \<and> \<not> em then Capture
        else default_decision (cp_default p))
   \<or> (\<exists>i < length (cp_rules p). rule_matches (cp_rules p ! i) cx \<and>
        (\<forall>j < i. \<not> rule_matches (cp_rules p ! j) cx) \<and>
        res_rule_index (resolve_for_context p cx em) = Some i \<and>
        res_decision (resolve_for_context p cx em) = rs_decision (cp_rules p ! i))"
proof (cases "find_rule cx 0 (cp_rules p)")
  case None
  have "\<forall>r \<in> set (cp_rules p). \<not> rule_matches r cx" using None by (simp only: find_rule_None)
  with None show ?thesis by (simp add: resolve_for_context_def flow_policy_resolve_def)
next
  case (Some jr)
  obtain j r where jr: "jr = (j, r)" by (cases jr)
  from find_rule_Some [OF Some [unfolded jr]] Some jr show ?thesis
    by (auto simp: resolve_for_context_def)
qed

definition demo_rule :: flow_policy_rule_spec where
  "demo_rule = \<lparr>rs_listener = Some (bstr ''http''), rs_protocol = None, rs_source_host = None,
     rs_destination_host = None, rs_destination_port = Some 443, rs_process_name = None,
     rs_decision = Block\<rparr>"

definition demo_context :: flow_policy_context where
  "demo_context = \<lparr>cx_listener = bstr ''HTTP'', cx_protocol = bstr ''tcp'', cx_source_host = None,
     cx_destination_host = None, cx_destination_port = Some 443, cx_process_name = None\<rparr>"

lemma resolve_for_context_first_match_example:
  "res_decision (resolve_for_context (configured_flow_policy_new Emulate [demo_rule]) demo_context True)
     = Block"
  using resolve_for_context_first_match
    [of "configured_flow_policy_new Emulate [demo_rule]" demo_context True]
  by (simp add: configured_flow_policy_new_def rule_matches_def demo_rule_def demo_context_def
      matcher_defs eq_ignore_ascii_case_def to_ascii_lowercase_def ascii_lower_def
      is_ascii_uppercase_def bstr_def)

section \<open>Names of decisions\<close>

text \<open>
  Decision names round-trip: every decision is read back from the name it is printed
  with, and the two migration aliases are the only other names accepted.
\<close>

lemma flow_decision_roundtrip:
  "flow_decision_from_str (flow_decision_as_str d) = Some d \<and>
   (flow_decision_from_str v = Some d) =
     (v = flow_decision_as_str d \<or>
      (d, v) \<in> {(Pass, bstr ''passthrough''), (Emulate, bstr ''intercept'')})"
  by (cases d) (auto simp: flow_decision_from_str_def bstr_def)

text \<open>Rules compare names without regard to ASCII case.\<close>

lemma rule_matches_case_insensitive:
  assumes "eq_ignore_ascii_case l (cx_listener cx)" "eq_ignore_ascii_case q (cx_protocol cx)"
  shows "rule_matches r (cx\<lparr>cx_listener := l, cx_protocol := q\<rparr>) = rule_matches r cx"
  using assms
  by (auto simp: rule_matches_def matcher_defs split: option.split
      intro: eq_ignore_ascii_case_trans eq_ignore_ascii_case_sym)

end
