(* ===== verification/Taste_Text.thy ===== *)
theory Taste_Text
  imports Core_Text
begin

text \<open>
  The line-oriented detectors of \<open>nettrap-proxy/src/taste/heuristics.rs\<close>: tokens and lines and
  the Memcached text protocol. A detector that indexes a slice has a result
  in the panic monad, and the collection \<open>no_panic\<close> says that it returns for every input.
\<close>

section \<open>Lines and tokens\<close>

text \<open>\<open>matches!(s, "A" | "B" | ...)\<close>.\<close>

definition one_of :: "bytes \<Rightarrow> string list \<Rightarrow> bool" where
  "one_of s names \<longleftrightarrow> list_ex (\<lambda>n. s = bstr n) names"

definition any_ignore_case :: "bytes \<Rightarrow> string list \<Rightarrow> bool" where
  "any_ignore_case s names \<longleftrightarrow> list_ex (\<lambda>n. eq_ignore_ascii_case s (bstr n)) names"

text \<open>\<open>byte == b'\n' && (idx == 0 || data[idx - 1] != b'\r')\<close> for some index; the index
  \<open>idx - 1\<close> is always in range.\<close>

definition has_bare_lf :: "bytes \<Rightarrow> bool" where
  "has_bare_lf data \<longleftrightarrow>
     list_ex (\<lambda>i. data ! i = 0x0A \<and> (i = 0 \<or> data ! (i - 1) \<noteq> 0x0D)) [0..<length data]"

definition has_bare_cr :: "bytes \<Rightarrow> bool" where
  "has_bare_cr data \<longleftrightarrow>
     list_ex (\<lambda>i. data ! i = 0x0D \<and> idx data (i + 1) \<noteq> Some 0x0A) [0..<length data]"

definition first_char_is_whitespace :: "bytes \<Rightarrow> bool" where
  "first_char_is_whitespace s \<longleftrightarrow> chars s \<noteq> [] \<and> char_is_whitespace (hd (chars s))"

definition last_char_is_whitespace :: "bytes \<Rightarrow> bool" where
  "last_char_is_whitespace s \<longleftrightarrow> chars s \<noteq> [] \<and> char_is_whitespace (last (chars s))"

definition space_parts :: "bytes \<Rightarrow> bytes list" where
  "space_parts s = split_on (\<lambda>b. b = 0x20) s"

definition CRLF :: bytes where
  "CRLF = [0x0D, 0x0A]"

definition first_ascii_token :: "bytes \<Rightarrow> bytes option" where
  "first_ascii_token data =
     (case from_utf8 data of
        None \<Rightarrow> None
      | Some text \<Rightarrow>
          if contains_unicode_line_separator text then None
          else if has_bare_lf text then None
          else if has_bare_cr text then None
          else
            let line = (case strip_suffix text CRLF of Some l \<Rightarrow> l | None \<Rightarrow> text) in
            if find_sub CRLF line \<noteq> None then None
            else if last_char_is_whitespace line then None
            else Some (hd (space_parts line)))"

definition command_token_matches :: "bytes \<Rightarrow> string list \<Rightarrow> bool" where
  "command_token_matches data commands =
     (case first_ascii_token data of
        None \<Rightarrow> False
      | Some token \<Rightarrow> any_ignore_case token commands)"

definition looks_like_irc_command_line :: "bytes \<Rightarrow> bool" where
  "looks_like_irc_command_line data =
     (case first_ascii_token data of
        None \<Rightarrow> False
      | Some token \<Rightarrow>
          0 \<notin> set data \<and> ends_with data CRLF \<and> token \<noteq> [] \<and>
          list_all (\<lambda>b. is_ascii_alphanumeric b \<or>
            b \<in> {0x5F, 0x2D, 0x5B, 0x5D, 0x5C, 0x60, 0x5E, 0x7B, 0x7D, 0x7C}) token)"

definition first_text_line :: "bytes \<Rightarrow> bytes option" where
  "first_text_line data =
     (let line_end = (case position (\<lambda>b. b = 0x0A) data of Some i \<Rightarrow> i | None \<Rightarrow> length data);
          line = (case strip_suffix (take line_end data) [0x0D] of
                    Some l \<Rightarrow> l | None \<Rightarrow> take line_end data)
      in case from_utf8 line of
           None \<Rightarrow> None
         | Some text \<Rightarrow> if contains_unicode_line_separator text then None else Some text)"

definition find_crlf :: "bytes \<Rightarrow> usize option" where
  "find_crlf data = find_sub CRLF data"

definition find_crlf_from :: "bytes \<Rightarrow> usize \<Rightarrow> usize option" where
  "find_crlf_from data start =
     (case slice_from data start of
        None \<Rightarrow> None
      | Some tail \<Rightarrow> map_option (\<lambda>off. start + off) (find_sub CRLF tail))"

lemma find_crlf_from_bound [in_bounds]:
  "find_crlf_from data start = Some i \<Longrightarrow> start \<le> i \<and> i + 2 \<le> length data"
  by (auto simp: find_crlf_from_def CRLF_def slice_from_Some_iff dest!: find_sub_Some_bound
      split: option.splits)

lemma find_crlf_bound [in_bounds]: "find_crlf data = Some i \<Longrightarrow> i + 2 \<le> length data"
  by (auto simp: find_crlf_def CRLF_def dest!: find_sub_Some_bound)

section \<open>Memcached text protocol\<close>

definition is_valid_memcached_key :: "bytes \<Rightarrow> bool" where
  "is_valid_memcached_key v \<longleftrightarrow>
     v \<noteq> [] \<and> length v \<le> 250 \<and>
     \<not> list_ex (\<lambda>ch. char_is_control ch \<or> char_is_whitespace ch) (chars v)"

definition is_storage_verb :: "bytes \<Rightarrow> bool" where
  "is_storage_verb verb \<longleftrightarrow>
     any_ignore_case verb [''set'', ''add'', ''replace'', ''append'', ''prepend'', ''cas'']"

abbreviation parse_u32 :: "bytes \<Rightarrow> nat option" where
  "parse_u32 \<equiv> unsigned_decimal (2 ^ 32 - 1)"

abbreviation parse_u64 :: "bytes \<Rightarrow> nat option" where
  "parse_u64 \<equiv> unsigned_decimal (2 ^ 64 - 1)"

abbreviation parse_usize :: "bytes \<Rightarrow> nat option" where
  "parse_usize \<equiv> unsigned_decimal usize_max"

abbreviation is_noreply :: "bytes \<Rightarrow> bool" where
  "is_noreply s \<equiv> eq_ignore_ascii_case s (bstr ''noreply'')"

definition memcached_storage_command_end :: "bytes \<Rightarrow> bytes \<Rightarrow> usize option rs" where
  "memcached_storage_command_end data verb =
     tryo (find_crlf data) (\<lambda>header_end.
     do { header \<leftarrow> slice data 0 header_end;
          case from_utf8 header of None \<Rightarrow> Some None | Some header \<Rightarrow>
          let parts = space_parts header;
              required_parts = (if eq_ignore_ascii_case verb (bstr ''cas'') then 6 else 5 :: nat)
          in if length parts < required_parts \<or> length parts > required_parts + 1 then Some None
          else do {
            p0 \<leftarrow> idx parts 0; p1 \<leftarrow> idx parts 1;
            if \<not> eq_ignore_ascii_case p0 verb \<or> \<not> is_valid_memcached_key p1 then Some None
            else do {
              flag_bad \<leftarrow> (if length parts = required_parts + 1
                 then do { l \<leftarrow> idx parts required_parts; Some (\<not> is_noreply l) } else Some False);
              if flag_bad then Some None
              else do {
                p2 \<leftarrow> idx parts 2; p3 \<leftarrow> idx parts 3;
                if parse_u32 p2 = None \<or> parse_u32 p3 = None then Some None
                else do {
                  p4 \<leftarrow> idx parts 4;
                  tryo (parse_usize p4) (\<lambda>body_len. do {
                    cas_bad \<leftarrow> (if eq_ignore_ascii_case verb (bstr ''cas'')
                       then do { p5 \<leftarrow> idx parts 5; Some (parse_u64 p5 = None) } else Some False);
                    if cas_bad then Some None
                    else
                      let body_start = header_end + 2 in
                      tryo (checked_add body_start body_len) (\<lambda>body_end.
                      tryo (checked_add body_end 2) (\<lambda>packet_end.
                        if slice data body_end packet_end = Some CRLF
                        then Some (Some packet_end) else Some None)) }) } } } } })"

lemma memcached_storage_wp [no_panic]:
  "wp (memcached_storage_command_end data verb) (\<lambda>r. \<forall>e. r = Some e \<longrightarrow> 2 \<le> e \<and> e \<le> length data)"
  unfolding memcached_storage_command_end_def
  by (auto simp: wp_rules slice_Some_iff dest!: find_crlf_bound)

text \<open>The command table of \<open>memcached_text_command_end\<close>.\<close>

definition memcached_command_valid :: "bytes \<Rightarrow> bytes list \<Rightarrow> bool rs" where
  "memcached_command_valid verb parts =
     (if eq_ignore_ascii_case verb (bstr ''stats'') then
        do { args \<leftarrow> slice_from parts 1;
             Some (case args of
                [] \<Rightarrow> True
              | [detail, mode] \<Rightarrow>
                  eq_ignore_ascii_case detail (bstr ''detail'') \<and>
                  one_of (to_ascii_lowercase mode) [''on'', ''off'', ''dump'']
              | _ \<Rightarrow> False) }
      else if eq_ignore_ascii_case verb (bstr ''version'') \<or> eq_ignore_ascii_case verb (bstr ''quit'')
      then Some (length parts = 1)
      else if eq_ignore_ascii_case verb (bstr ''get'') \<or> eq_ignore_ascii_case verb (bstr ''gets'')
      then if length parts > 1
        then do { keys \<leftarrow> slice_from parts 1; Some (list_all is_valid_memcached_key keys) }
        else Some False
      else if eq_ignore_ascii_case verb (bstr ''gat'') \<or> eq_ignore_ascii_case verb (bstr ''gats'')
      then if length parts \<ge> 3
        then do { p1 \<leftarrow> idx parts 1; keys \<leftarrow> slice_from parts 2;
                  Some (parse_u32 p1 \<noteq> None \<and> list_all is_valid_memcached_key keys) }
        else Some False
      else if eq_ignore_ascii_case verb (bstr ''delete'') then
        Some (case parts of
           [_, key] \<Rightarrow> is_valid_memcached_key key
         | [_, key, noreply] \<Rightarrow> is_valid_memcached_key key \<and> is_noreply noreply
         | _ \<Rightarrow> False)
      else if eq_ignore_ascii_case verb (bstr ''flush_all'') then
        Some (case parts of
           [_] \<Rightarrow> True
         | [_, arg] \<Rightarrow> is_noreply arg \<or> parse_u32 arg \<noteq> None
         | [_, delay, noreply] \<Rightarrow> parse_u32 delay \<noteq> None \<and> is_noreply noreply
         | _ \<Rightarrow> False)
      else if eq_ignore_ascii_case verb (bstr ''touch'') then
        Some (case parts of
           [_, key, exptime] \<Rightarrow> is_valid_memcached_key key \<and> parse_u32 exptime \<noteq> None
         | [_, key, exptime, noreply] \<Rightarrow>
             is_valid_memcached_key key \<and> parse_u32 exptime \<noteq> None \<and> is_noreply noreply
         | _ \<Rightarrow> False)
      else if eq_ignore_ascii_case verb (bstr ''incr'') \<or> eq_ignore_ascii_case verb (bstr ''decr'') then
        Some (case parts of
           [_, key, delta] \<Rightarrow> is_valid_memcached_key key \<and> parse_u64 delta \<noteq> None
         | [_, key, delta, noreply] \<Rightarrow>
             is_valid_memcached_key key \<and> parse_u64 delta \<noteq> None \<and> is_noreply noreply
         | _ \<Rightarrow> False)
      else if eq_ignore_ascii_case verb (bstr ''verbosity'') then
        Some (case parts of [_, level] \<Rightarrow> parse_u32 level \<noteq> None | _ \<Rightarrow> False)
      else Some False)"

definition memcached_text_command_end :: "bytes \<Rightarrow> usize option rs" where
  "memcached_text_command_end data =
     tryo (first_text_line data) (\<lambda>line.
       if has_bare_lf data then Some None
       else if line = [] \<or> first_char_is_whitespace line \<or> last_char_is_whitespace line then Some None
       else if list_ex (\<lambda>ch. char_is_whitespace ch \<and> ch \<noteq> 32) (chars line) then Some None
       else
         let parts = space_parts line in
         if list_ex (\<lambda>p. p = []) (drop 1 parts) then Some None
         else tryo (idx parts 0) (\<lambda>verb.
           if is_storage_verb verb then memcached_storage_command_end data verb
           else tryo (find_crlf data) (\<lambda>line_end.
             let command_end = line_end + 2 in
             do { valid \<leftarrow> memcached_command_valid verb parts;
                  Some (if valid then Some command_end else None) })))"

definition looks_like_memcached_text_request :: "bytes \<Rightarrow> bool rs" where
  "looks_like_memcached_text_request data =
     do { e \<leftarrow> memcached_text_command_end data;
          Some (case e of None \<Rightarrow> False | Some command_end \<Rightarrow> command_end = length data) }"

lemma space_parts_length [simp]: "0 < length (space_parts s)"
  by (simp add: space_parts_def)

lemma memcached_command_valid_wp: "parts \<noteq> [] \<Longrightarrow> wp (memcached_command_valid verb parts) (\<lambda>_. True)"
  unfolding memcached_command_valid_def by (auto simp: wp_rules Suc_le_eq)

lemma memcached_text_wp [no_panic]:
  "wp (memcached_text_command_end data) (\<lambda>r. \<forall>e. r = Some e \<longrightarrow> 2 \<le> e \<and> e \<le> length data)"
  unfolding memcached_text_command_end_def
  by (auto simp: wp_rules space_parts_def dest: find_crlf_bound
      intro!: wp_call [OF memcached_storage_wp] wp_call [OF memcached_command_valid_wp])

lemma looks_like_memcached_text_wp [no_panic]:
  "wp (looks_like_memcached_text_request data) (\<lambda>_. True)"
  unfolding looks_like_memcached_text_request_def
  by (auto simp: wp_rules intro!: wp_call [OF memcached_text_wp])

end
