(* ===== verification/Taste_Http.thy ===== *)
theory Taste_Http
  imports Taste_Text
begin

text \<open>
  The detectors for text protocols with headers in \<open>heuristics.rs\<close>: HTTP request lines and their
  targets, SIP requests, SSDP searches, and the header scanners they share.
\<close>

section \<open>Line endings\<close>

definition crlf_line_endings_are_plausible :: "bytes \<Rightarrow> bool" where
  "crlf_line_endings_are_plausible data \<longleftrightarrow>
     \<not> has_bare_lf data \<and>
     \<not> list_ex (\<lambda>i. data ! i = 0x0D \<and> i + 1 < length data \<and> data ! (i + 1) \<noteq> 0x0A) [0..<length data]"

definition header_end_of :: "bytes \<Rightarrow> usize option" where
  "header_end_of data = find_sub [0x0D, 0x0A, 0x0D, 0x0A] data"

lemma header_end_of_bound [in_bounds]: "header_end_of data = Some i \<Longrightarrow> i + 4 \<le> length data"
  by (auto simp: header_end_of_def dest!: find_sub_Some_bound)

definition header_line_endings_are_plausible :: "bytes \<Rightarrow> bool rs" where
  "header_line_endings_are_plausible data =
     (let e = (case header_end_of data of None \<Rightarrow> length data | Some i \<Rightarrow> i + 4) in
      do { head \<leftarrow> slice data 0 e; Some (crlf_line_endings_are_plausible head) })"

lemma header_line_endings_wp [no_panic]: "wp (header_line_endings_are_plausible data) (\<lambda>_. True)"
  unfolding header_line_endings_are_plausible_def
  by (auto simp: wp_rules dest: header_end_of_bound split: option.split)

section \<open>HTTP\<close>

definition is_http_token :: "bytes \<Rightarrow> bool" where
  "is_http_token v \<longleftrightarrow>
     v \<noteq> [] \<and>
     list_all (\<lambda>b. is_ascii_alphanumeric b \<or>
       b \<in> {0x21, 0x23, 0x24, 0x25, 0x26, 0x27, 0x2A, 0x2B, 0x2D, 0x2E, 0x5E, 0x5F, 0x60, 0x7C, 0x7E}) v"

definition is_special_http_authority_ipv4_literal :: "ipv4 \<Rightarrow> bool" where
  "is_special_http_authority_ipv4_literal ip \<longleftrightarrow>
     v4_is_unspecified ip \<or> v4_is_loopback ip \<or> v4_is_multicast ip \<or> v4_is_broadcast ip"

definition is_special_http_authority_ipv6_literal :: "ipv6 \<Rightarrow> bool" where
  "is_special_http_authority_ipv6_literal ip =
     (case to_ipv4_mapped ip of
        Some mapped \<Rightarrow> is_special_http_authority_ipv4_literal mapped
      | None \<Rightarrow> v6_is_unspecified ip \<or> v6_is_loopback ip \<or> v6_is_multicast ip)"

definition plain_ipv4_literal :: "bytes \<Rightarrow> bool" where
  "plain_ipv4_literal s =
     (case parse_ipv4 s of None \<Rightarrow> False | Some ip \<Rightarrow> \<not> is_special_http_authority_ipv4_literal ip)"

definition plain_ipv6_literal :: "bytes \<Rightarrow> bool" where
  "plain_ipv6_literal s =
     (case parse_ipv6 s of None \<Rightarrow> False | Some ip \<Rightarrow> \<not> is_special_http_authority_ipv6_literal ip)"

definition host_is_valid_authority_host :: "bytes \<Rightarrow> bool" where
  "host_is_valid_authority_host host =
     (case (case strip_suffix host [0x2E] of
              Some h \<Rightarrow> if h = [] \<or> ends_with h [0x2E] then None else Some h
            | None \<Rightarrow> Some host) of
        None \<Rightarrow> False
      | Some host \<Rightarrow>
          0x3A \<notin> set host \<and> 0x2F \<notin> set host \<and> 0x5C \<notin> set host \<and> 0x3F \<notin> set host \<and>
          0x23 \<notin> set host \<and> length host \<le> 253 \<and> has_valid_domain_labels host \<and>
          \<not> has_numeric_domain_labels host)"

definition is_authority_form_target :: "bytes \<Rightarrow> bool" where
  "is_authority_form_target v =
     (case rsplit_once v 0x3A of
        None \<Rightarrow> False
      | Some (host, port) \<Rightarrow>
          if host = [] \<or> nonzero_port port = None then False
          else
            (case strip_prefix host [0x5B] of
               Some rest \<Rightarrow>
                 (case split_once rest 0x5D of
                    None \<Rightarrow> False
                  | Some (inner, suffix) \<Rightarrow> inner \<noteq> [] \<and> plain_ipv6_literal inner \<and> suffix = [])
             | None \<Rightarrow>
                 0x3A \<notin> set host \<and> 0x40 \<notin> set host \<and> 0x2F \<notin> set host \<and> 0x5C \<notin> set host \<and>
                 0x3F \<notin> set host \<and> 0x23 \<notin> set host \<and> length host \<le> 253 \<and>
                 (plain_ipv4_literal host \<or> host_is_valid_authority_host host)))"

definition is_valid_authority_port :: "bytes \<Rightarrow> bool rs" where
  "is_valid_authority_port authority =
     (if 0x40 \<in> set authority then Some False
      else
        (case strip_prefix authority [0x5B] of
           Some rest \<Rightarrow>
             let_else (split_once rest 0x5D) False (\<lambda>(inner, suffix).
               if inner = [] \<or> suffix \<noteq> [] \<and> \<not> starts_with suffix [0x3A] then Some False
               else if suffix = [] then Some (plain_ipv6_literal inner)
               else do {
                 port \<leftarrow> slice_from suffix 1;
                 if 0x3A \<in> set port then Some False
                 else Some (plain_ipv6_literal inner \<and> nonzero_port port \<noteq> None) })
         | None \<Rightarrow>
             (case rsplit_once authority 0x3A of
                Some (host, port) \<Rightarrow>
                  if host = [] then Some False
                  else if plain_ipv4_literal host then Some (nonzero_port port \<noteq> None)
                  else Some (host_is_valid_authority_host host \<and> nonzero_port port \<noteq> None)
              | None \<Rightarrow>
                  if plain_ipv4_literal authority then Some True
                  else Some (host_is_valid_authority_host authority))))"

definition is_valid_http_target_syntax :: "bytes \<Rightarrow> bool" where
  "is_valid_http_target_syntax v \<longleftrightarrow>
     v \<noteq> [] \<and>
     list_all (\<lambda>b. \<not> is_ascii_control b \<and> b \<notin> {0x20, 0x09, 0x0A, 0x0C, 0x0D}) v \<and>
     \<not> list_ex (\<lambda>ch. char_is_control ch \<or> char_is_whitespace ch) (chars v) \<and>
     (v = bstr ''*'' \<or> starts_with v [0x2F] \<or> find_sub (bstr ''://'') v \<noteq> None \<or>
      is_authority_form_target v)"

definition is_valid_http_target_for_method :: "bytes \<Rightarrow> bytes \<Rightarrow> bool rs" where
  "is_valid_http_target_for_method method v =
     (if \<not> is_valid_http_target_syntax v then Some False
      else if v = bstr ''*'' then Some (eq_ignore_ascii_case method (bstr ''OPTIONS''))
      else if is_authority_form_target v then Some (eq_ignore_ascii_case method (bstr ''CONNECT''))
      else do {
        stop \<leftarrow> (case absolute_http_authority v of
           Some authority \<Rightarrow> do { ok \<leftarrow> is_valid_authority_port authority; Some (\<not> ok) }
         | None \<Rightarrow> Some (find_sub (bstr ''://'') v \<noteq> None));
        if stop then Some False
        else Some (\<not> eq_ignore_ascii_case method (bstr ''CONNECT'')) })"

lemma is_valid_authority_port_wp: "wp (is_valid_authority_port authority) (\<lambda>_. True)"
  unfolding is_valid_authority_port_def
  by (auto simp: wp_rules Suc_le_eq split: option.split prod.split)

lemma is_valid_http_target_wp: "wp (is_valid_http_target_for_method method v) (\<lambda>_. True)"
  unfolding is_valid_http_target_for_method_def
  by (auto simp: wp_rules intro!: wp_call [OF is_valid_authority_port_wp])

text \<open>The three words of a request line; \<open>split(' ')\<close> asked four times for its next piece.\<close>

definition three_words :: "bytes \<Rightarrow> (bytes \<times> bytes \<times> bytes) option" where
  "three_words line = (case space_parts line of [a, b, c] \<Rightarrow> Some (a, b, c) | _ \<Rightarrow> None)"

definition looks_like_http_start_line :: "bytes \<Rightarrow> bool rs" where
  "looks_like_http_start_line data =
     do { plausible \<leftarrow> header_line_endings_are_plausible data;
          if \<not> plausible then Some False
          else let_else (first_text_line data) False (\<lambda>line.
            let_else (three_words line) False (\<lambda>(first, second, third).
              if second = [] \<or> third = [] then Some False
              else if is_http_token first \<and> one_of third [''HTTP/1.0'', ''HTTP/1.1'']
              then is_valid_http_target_for_method first second
              else Some False)) }"

definition looks_like_http_request_line_shape :: "bytes \<Rightarrow> bool rs" where
  "looks_like_http_request_line_shape data =
     do { plausible \<leftarrow> header_line_endings_are_plausible data;
          if \<not> plausible then Some False
          else let_else (first_text_line data) False (\<lambda>line.
            let_else (three_words line) False (\<lambda>(first, second, third).
              Some (second \<noteq> [] \<and> third \<noteq> [] \<and> is_http_token first \<and>
                    one_of third [''HTTP/1.0'', ''HTTP/1.1'']))) }"

lemma looks_like_http_start_line_wp [no_panic]: "wp (looks_like_http_start_line data) (\<lambda>_. True)"
  unfolding looks_like_http_start_line_def
  by (auto simp: wp_rules is_valid_http_target_wp intro!: wp_call [OF header_line_endings_wp])

lemma looks_like_http_request_line_shape_wp [no_panic]:
  "wp (looks_like_http_request_line_shape data) (\<lambda>_. True)"
  unfolding looks_like_http_request_line_shape_def
  by (auto simp: wp_rules intro!: wp_call [OF header_line_endings_wp])

section \<open>SIP\<close>

text \<open>\<open>str::lines\<close> and \<open>trim_end_matches('\r')\<close>.\<close>

definition str_lines :: "bytes \<Rightarrow> bytes list" where
  "str_lines s =
     (let ps = split_on (\<lambda>b. b = 0x0A) s;
          strip = (\<lambda>l. case strip_suffix l [0x0D] of Some l' \<Rightarrow> l' | None \<Rightarrow> l)
      in map strip (butlast ps) @ (if last ps = [] then [] else [last ps]))"

definition trim_end_cr :: "bytes \<Rightarrow> bytes" where
  "trim_end_cr s = rev (dropWhile (\<lambda>b. b = 0x0D) (rev s))"

definition trim_sp_tab :: "bytes \<Rightarrow> bytes" where
  "trim_sp_tab s = trim_matches is_ows s"

definition sip_header_name_matches :: "bytes \<Rightarrow> string \<Rightarrow> bool" where
  "sip_header_name_matches candidate canonical \<longleftrightarrow>
     eq_ignore_ascii_case candidate (bstr canonical) \<or>
     (canonical, to_ascii_lowercase candidate) \<in>
       {(''Via'', bstr ''v''), (''From'', bstr ''f''), (''To'', bstr ''t''), (''Call-ID'', bstr ''i''),
        (''Content-Length'', bstr ''l''), (''content-length'', bstr ''l'')}"

definition parse_sip_unsigned_decimal :: "nat \<Rightarrow> bytes \<Rightarrow> nat option" where
  "parse_sip_unsigned_decimal limit v =
     (let v = trim_sp_tab v in
      if v = [] \<or> \<not> list_all is_ascii_digit v then None else parse_digits limit v)"

fun sip_headers_loop :: "bytes list \<Rightarrow> bool" where
  "sip_headers_loop [] = False"
| "sip_headers_loop (raw # lines) =
     (let line = trim_end_cr raw in
      if line = [] then True
      else
        (case split_once line 0x3A of
           None \<Rightarrow> False
         | Some (key, _) \<Rightarrow>
             let key = trim_sp_tab key in
             if key = [] \<or> first_char_is_whitespace line \<or>
                \<not> list_all (\<lambda>b. is_ascii_alphanumeric b \<or> b = 0x2D) key
             then False else sip_headers_loop lines))"

definition sip_headers_are_well_formed :: "bytes \<Rightarrow> bool" where
  "sip_headers_are_well_formed headers \<longleftrightarrow>
     \<not> contains_unicode_line_separator headers \<and> sip_headers_loop (drop 1 (str_lines headers))"

definition sip_line_has_header :: "string \<Rightarrow> bytes \<Rightarrow> bool" where
  "sip_line_has_header name raw =
     (let line = trim_end_cr raw in
      if line = [] then False
      else
        (case split_once line 0x3A of
           None \<Rightarrow> False
         | Some (key, _) \<Rightarrow> sip_header_name_matches (trim_sp_tab key) name))"

definition sip_header_present :: "bytes \<Rightarrow> string \<Rightarrow> bool" where
  "sip_header_present headers name \<longleftrightarrow>
     list_ex (sip_line_has_header name) (drop 1 (str_lines headers))"

definition sip_unique_header_present :: "bytes \<Rightarrow> string \<Rightarrow> bool" where
  "sip_unique_header_present headers name \<longleftrightarrow>
     length (take 2 (filter (sip_line_has_header name) (drop 1 (str_lines headers)))) = 1"

text \<open>The \<open>Content-Length\<close> loop: \<open>None\<close> is the early \<open>return false\<close>.\<close>

fun sip_content_length_loop :: "bytes list \<Rightarrow> nat option \<Rightarrow> nat option option" where
  "sip_content_length_loop [] content_length = Some content_length"
| "sip_content_length_loop (raw # lines) content_length =
     (let line = trim_end_cr raw in
      if line = [] then Some content_length
      else
        (case split_once line 0x3A of
           None \<Rightarrow> sip_content_length_loop lines content_length
         | Some (key, v) \<Rightarrow>
             if \<not> sip_header_name_matches (trim_sp_tab key) ''content-length''
             then sip_content_length_loop lines content_length
             else
               (case parse_sip_unsigned_decimal usize_max v of
                  None \<Rightarrow> None
                | Some parsed \<Rightarrow>
                    (case content_length of
                       Some current \<Rightarrow>
                         if current \<noteq> parsed then None
                         else sip_content_length_loop lines content_length
                     | None \<Rightarrow> sip_content_length_loop lines (Some parsed)))))"

text \<open>The \<open>CSeq\<close> loop: \<open>None\<close> is the early \<open>return false\<close> on a second occurrence.\<close>

fun sip_cseq_loop :: "bytes list \<Rightarrow> bytes option \<Rightarrow> bytes option option" where
  "sip_cseq_loop [] cseq = Some cseq"
| "sip_cseq_loop (raw # lines) cseq =
     (let line = trim_end_cr raw in
      if line = [] then Some cseq
      else
        (case split_once line 0x3A of
           None \<Rightarrow> sip_cseq_loop lines cseq
         | Some (key, v) \<Rightarrow>
             if \<not> eq_ignore_ascii_case (trim_sp_tab key) (bstr ''CSeq'') then sip_cseq_loop lines cseq
             else if cseq \<noteq> None then None
             else sip_cseq_loop lines (Some (trim_sp_tab v))))"

definition sip_cseq_matches_method :: "bytes \<Rightarrow> bytes \<Rightarrow> bool" where
  "sip_cseq_matches_method headers method =
     (case sip_cseq_loop (drop 1 (str_lines headers)) None of
        Some (Some cseq) \<Rightarrow>
          if 0x09 \<in> set cseq then False
          else
            (case space_parts cseq of
               [sequence, cseq_method] \<Rightarrow>
                 cseq_method \<noteq> [] \<and>
                 (case parse_sip_unsigned_decimal (2 ^ 32 - 1) sequence of
                    None \<Rightarrow> False | Some n \<Rightarrow> n > 0) \<and>
                 eq_ignore_ascii_case cseq_method method
             | _ \<Rightarrow> False)
      | _ \<Rightarrow> False)"

definition looks_like_sip_request_line :: "bytes \<Rightarrow> bool rs" where
  "looks_like_sip_request_line data =
     let_else (first_text_line data) False (\<lambda>line.
     let_else (header_end_of data) False (\<lambda>headers_end.
     do { head \<leftarrow> slice data 0 (headers_end + 4);
          if \<not> crlf_line_endings_are_plausible head then Some False
          else
            let body_len = length data - (headers_end + 4) in
            let_else (from_utf8 head) False (\<lambda>headers.
              if \<not> sip_headers_are_well_formed headers then Some False
              else let_else (sip_content_length_loop (drop 1 (str_lines headers)) None) False
                (\<lambda>content_length.
                  if (if body_len = 0 then content_length \<notin> {None, Some 0}
                      else content_length \<noteq> Some body_len) then Some False
                  else let_else (three_words line) False (\<lambda>(method, target, version).
                    if method = [] \<or> starts_with method (bstr ''SIP/'') \<or>
                       \<not> list_all is_ascii_uppercase method \<or> target = [] \<or>
                       list_ex (\<lambda>ch. char_is_control ch \<or> char_is_whitespace ch) (chars target) \<or>
                       version \<noteq> bstr ''SIP/2.0''
                    then Some False
                    else Some (sip_header_present headers ''Via'' \<and>
                               sip_unique_header_present headers ''From'' \<and>
                               sip_unique_header_present headers ''To'' \<and>
                               sip_unique_header_present headers ''Call-ID'' \<and>
                               sip_cseq_matches_method headers method)))) }))"

lemma looks_like_sip_wp [no_panic]: "wp (looks_like_sip_request_line data) (\<lambda>_. True)"
  unfolding looks_like_sip_request_line_def
  by (auto simp: wp_rules dest: header_end_of_bound)

section \<open>SSDP\<close>

definition is_valid_header_name :: "bytes \<Rightarrow> bool" where
  "is_valid_header_name name \<longleftrightarrow>
     name \<noteq> [] \<and> name = trim_sp_tab name \<and>
     list_all (\<lambda>b. is_ascii_alphanumeric b \<or> b = 0x2D) name"

definition strip_cr :: "bytes \<Rightarrow> bytes" where
  "strip_cr line = (case strip_suffix line [0x0D] of Some l \<Rightarrow> l | None \<Rightarrow> line)"

definition lf_lines :: "bytes \<Rightarrow> bytes list" where
  "lf_lines data = split_on (\<lambda>b. b = 0x0A) data"

fun headers_loop :: "bytes list \<Rightarrow> bool rs" where
  "headers_loop [] = Some False"
| "headers_loop (raw # lines) =
     (let line = strip_cr raw in
      if line = [] then Some True
      else let_else (position (\<lambda>b. b = 0x3A) line) False (\<lambda>colon.
        case slice line 0 colon of
          None \<Rightarrow> None
        | Some k \<Rightarrow>
            let_else (from_utf8 k) False (\<lambda>key.
              if \<not> is_valid_header_name key then Some False else headers_loop lines)))"

definition headers_are_well_formed :: "bytes \<Rightarrow> bool rs" where
  "headers_are_well_formed data =
     do { plausible \<leftarrow> header_line_endings_are_plausible data;
          if \<not> plausible then Some False else headers_loop (drop 1 (lf_lines data)) }"

text \<open>\<open>trim_ascii_ows\<close> is the same pair of loops as \<open>trim_http_ows_bytes\<close>.\<close>

definition trim_ascii_ows :: "bytes \<Rightarrow> bytes" where
  "trim_ascii_ows v = trim_ows_back (trim_ows_front v)"

fun header_value_loop :: "bytes list \<Rightarrow> string \<Rightarrow> bytes option \<Rightarrow> bytes option rs" where
  "header_value_loop [] name selected = Some selected"
| "header_value_loop (raw # lines) name selected =
     (let line = strip_cr raw in
      if line = [] then Some selected
      else
        (case position (\<lambda>b. b = 0x3A) line of
           None \<Rightarrow> header_value_loop lines name selected
         | Some colon \<Rightarrow>
             (case slice line 0 colon of
                None \<Rightarrow> None
              | Some k \<Rightarrow>
                  (case from_utf8 k of
                     None \<Rightarrow> Some None
                   | Some key \<Rightarrow>
                       if \<not> is_valid_header_name key \<or> \<not> eq_ignore_ascii_case key (bstr name)
                       then header_value_loop lines name selected
                       else
                         (case slice_from line (colon + 1) of
                            None \<Rightarrow> None
                          | Some after \<Rightarrow>
                              let v = trim_ascii_ows after in
                              if v = [] \<or> list_ex (\<lambda>b. \<not> (0x21 \<le> b \<and> b \<le> 0x7E)) v then Some None
                              else
                                (case from_utf8 v of
                                   None \<Rightarrow> Some None
                                 | Some v \<Rightarrow>
                                     (case selected of
                                        Some _ \<Rightarrow> Some None
                                      | None \<Rightarrow> header_value_loop lines name (Some v))))))))"

definition header_value :: "bytes \<Rightarrow> string \<Rightarrow> bytes option rs" where
  "header_value data name = header_value_loop (drop 1 (lf_lines data)) name None"

definition ssdp_mx_value_is_valid :: "bytes \<Rightarrow> bool" where
  "ssdp_mx_value_is_valid v \<longleftrightarrow>
     v \<noteq> [] \<and> list_all is_ascii_digit v \<and>
     (case parse_digits (2 ^ 32 - 1) v of None \<Rightarrow> False | Some mx \<Rightarrow> mx > 0)"

definition ssdp_search_target_is_supported :: "bytes \<Rightarrow> bool" where
  "ssdp_search_target_is_supported v \<longleftrightarrow>
     eq_ignore_ascii_case v (bstr ''ssdp:all'') \<or> eq_ignore_ascii_case v (bstr ''upnp:rootdevice'') \<or>
     eq_ignore_ascii_case v (bstr ''uuid:nettrap'') \<or>
     eq_ignore_ascii_case v (bstr ''urn:schemas-upnp-org:device:InternetGatewayDevice:1'') \<or>
     eq_ignore_ascii_case v (bstr ''urn:schemas-upnp-org:service:WANIPConnection:1'')"

definition ssdp_host_is_valid :: "bytes \<Rightarrow> bool rs" where
  "ssdp_host_is_valid data =
     do { h \<leftarrow> header_value data ''HOST'';
          let_else h False (\<lambda>host.
          let_else (rsplit_once host 0x3A) False (\<lambda>(base, port).
            if unsigned_decimal 65535 port \<noteq> Some 1900 then Some False
            else
              (case Option.bind (strip_prefix base [0x5B]) (\<lambda>rest. strip_suffix rest [0x5D]) of
                 Some inner \<Rightarrow> Some (parse_ipv6 inner = Some (Ipv6 0xFF02 0 0 0 0 0 0 0x000C))
               | None \<Rightarrow> Some (base = bstr ''239.255.255.250'')))) }"

definition looks_like_ssdp_request :: "bytes \<Rightarrow> bool rs" where
  "looks_like_ssdp_request data =
     let_else (first_text_line data) False (\<lambda>line.
     let_else (header_end_of data) False (\<lambda>header_end.
       if header_end + 4 \<noteq> length data then Some False
       else let_else (three_words line) False (\<lambda>(method, target, version).
         if target \<noteq> bstr ''*'' \<or> version \<noteq> bstr ''HTTP/1.1'' then Some False
         else do {
           ok \<leftarrow> headers_are_well_formed data;
           if \<not> ok then Some False
           else do {
             host_ok \<leftarrow> ssdp_host_is_valid data;
             if \<not> host_ok then Some False
             else if eq_ignore_ascii_case method (bstr ''M-SEARCH'') then do {
               man \<leftarrow> header_value data ''MAN'';
               st \<leftarrow> header_value data ''ST'';
               mx \<leftarrow> header_value data ''MX'';
               Some ((case man of None \<Rightarrow> False
                        | Some v \<Rightarrow> eq_ignore_ascii_case v ([0x22] @ bstr ''ssdp:discover'' @ [0x22])) \<and>
                     (case st of None \<Rightarrow> False | Some v \<Rightarrow> ssdp_search_target_is_supported v) \<and>
                     (case mx of None \<Rightarrow> False | Some v \<Rightarrow> ssdp_mx_value_is_valid v)) }
             else Some False } })))"

lemma headers_loop_wp: "wp (headers_loop lines) (\<lambda>_. True)"
  by (induction lines) (auto simp: wp_rules Let_def dest!: position_Some_less)

lemma header_value_loop_wp: "wp (header_value_loop lines name selected) (\<lambda>_. True)"
  by (induction lines arbitrary: selected)
    (auto simp: wp_rules Let_def dest!: position_Some_less split: option.split)

lemma headers_are_well_formed_wp [no_panic]: "wp (headers_are_well_formed data) (\<lambda>_. True)"
  unfolding headers_are_well_formed_def
  by (auto simp: wp_rules headers_loop_wp intro!: wp_call [OF header_line_endings_wp])

lemma header_value_wp [no_panic]: "wp (header_value data name) (\<lambda>_. True)"
  unfolding header_value_def by (rule header_value_loop_wp)

lemma ssdp_host_wp: "wp (ssdp_host_is_valid data) (\<lambda>_. True)"
  unfolding ssdp_host_is_valid_def
  by (auto simp: wp_rules intro!: wp_call [OF header_value_wp] split: option.split)

lemma looks_like_ssdp_wp [no_panic]: "wp (looks_like_ssdp_request data) (\<lambda>_. True)"
  unfolding looks_like_ssdp_request_def
  by (auto simp: wp_rules intro!: wp_call [OF header_value_wp] wp_call [OF ssdp_host_wp]
      wp_call [OF headers_are_well_formed_wp])

end
