(* ===== verification/Taste_Redis.thy ===== *)
theory Taste_Redis
  imports Taste_Text
begin

text \<open>
  The Redis detectors of \<open>heuristics.rs\<close>: inline commands with their argument grammars, RESP
  arrays, and the check that the rest of a sample is again a sequence of complete commands. The
  locale \<open>frame_parser\<close> is the contract of a function that finds the end of a frame: it never
  panics and its result lies inside the data, past its start. It is what makes the loops over
  consecutive frames terminate.
\<close>

section \<open>Frame parsers\<close>

locale frame_parser =
  fixes frame_end :: "bytes \<Rightarrow> usize option rs"
  assumes frame_end_wp: "wp (frame_end data) (\<lambda>r. \<forall>e. r = Some e \<longrightarrow> 0 < e \<and> e \<le> length data)"
begin

lemma frame_total: "frame_end data \<noteq> None"
  using wp_not_None [OF frame_end_wp] .

lemma frame_bounds: "frame_end data = Some (Some e) \<Longrightarrow> 0 < e \<and> e \<le> length data"
  using wp_result [OF frame_end_wp] by blast

lemma frame_progress:
  "frame_end (drop p data) = Some (Some e) \<Longrightarrow> p < p + e \<and> p + e \<le> length data"
  using frame_bounds [of "drop p data" e] by (cases "p \<le> length data") auto

lemma frame_rest_shorter:
  "frame_end data = Some (Some e) \<Longrightarrow> length (drop e data) < length data"
  using frame_bounds [of data e] by (cases data) auto

end

section \<open>Argument grammars\<close>

definition is_valid_redis_token :: "bytes \<Rightarrow> bool" where
  "is_valid_redis_token v \<longleftrightarrow>
     v \<noteq> [] \<and> list_all (\<lambda>ch. \<not> char_is_control ch \<and> \<not> char_is_whitespace ch) (chars v)"

text \<open>\<open>value.parse::<i64>()\<close> of an optional sign and digits.\<close>

definition parse_i64 :: "bytes \<Rightarrow> int option" where
  "parse_i64 v =
     (let neg = starts_with v [0x2D];
          digits = (if neg \<or> starts_with v [0x2B] then drop 1 v else v);
          n = (if neg then - int (dec_value digits) else int (dec_value digits))
      in if i64_min \<le> n \<and> n \<le> i64_max then Some n else None)"

definition parse_signed_decimal_i64 :: "bytes \<Rightarrow> int option" where
  "parse_signed_decimal_i64 v =
     (if v = [] then None
      else
        let digits = (if starts_with v [0x2B] \<or> starts_with v [0x2D] then drop 1 v else v) in
        if digits = [] \<or> \<not> list_all is_ascii_digit digits then None
        else parse_i64 v)"

definition redis_tokens_are_valid :: "bytes list \<Rightarrow> nat \<Rightarrow> bool" where
  "redis_tokens_are_valid args count \<longleftrightarrow> length args = count \<and> list_all is_valid_redis_token args"

function redis_hello_loop :: "bytes list \<Rightarrow> usize \<Rightarrow> bool \<Rightarrow> bool \<Rightarrow> bool rs" where
  "redis_hello_loop rest index saw_auth saw_setname =
     (if index < length rest then
        (case idx rest index of
           None \<Rightarrow> None
         | Some arg \<Rightarrow>
             let word = to_ascii_uppercase arg in
             if word = bstr ''AUTH'' then
               if saw_auth \<or>
                  \<not> (case slice rest (index + 1) (index + 3) of
                       None \<Rightarrow> False | Some vs \<Rightarrow> list_all is_valid_redis_token vs)
               then Some False
               else redis_hello_loop rest (index + 3) True saw_setname
             else if word = bstr ''SETNAME'' then
               if saw_setname \<or>
                  \<not> (case idx rest (index + 1) of None \<Rightarrow> False | Some v \<Rightarrow> is_valid_redis_token v)
               then Some False
               else redis_hello_loop rest (index + 2) saw_auth True
             else Some False)
      else Some True)"
  by pat_completeness auto
termination
  by (relation "measure (\<lambda>(rest, index, _). length rest - index)") auto

declare redis_hello_loop.simps [simp del]

definition redis_hello_args_are_valid :: "bytes list \<Rightarrow> bool rs" where
  "redis_hello_args_are_valid args =
     (case args of
        [] \<Rightarrow> Some True
      | version # rest \<Rightarrow>
          if \<not> one_of version [''2'', ''3''] then Some False
          else redis_hello_loop rest 0 False False)"

definition redis_setex_args_are_valid :: "bytes list \<Rightarrow> bool rs" where
  "redis_setex_args_are_valid args =
     (if length args = 3 then
        do { a0 \<leftarrow> idx args 0; a1 \<leftarrow> idx args 1; a2 \<leftarrow> idx args 2;
             Some (is_valid_redis_token a0 \<and>
                   (case parse_u64 a1 of None \<Rightarrow> False | Some v \<Rightarrow> v \<noteq> 0) \<and>
                   is_valid_redis_token a2) }
      else Some False)"

definition redis_mset_args_are_valid :: "bytes list \<Rightarrow> bool" where
  "redis_mset_args_are_valid args \<longleftrightarrow>
     args \<noteq> [] \<and> length args mod 2 = 0 \<and> list_all is_valid_redis_token args"

definition redis_incrby_args_are_valid :: "bytes list \<Rightarrow> bool rs" where
  "redis_incrby_args_are_valid args =
     (if length args = 2 then
        do { a0 \<leftarrow> idx args 0; a1 \<leftarrow> idx args 1;
             Some (is_valid_redis_token a0 \<and> parse_signed_decimal_i64 a1 \<noteq> None) }
      else Some False)"

definition redis_expire_args_are_valid :: "bytes list \<Rightarrow> bool rs" where
  "redis_expire_args_are_valid args =
     (if \<not> (length args = 2 \<or> length args = 3) then Some False
      else do {
        a0 \<leftarrow> idx args 0; a1 \<leftarrow> idx args 1;
        if \<not> is_valid_redis_token a0 \<or> parse_u64 a1 = None then Some False
        else Some (case idx args 2 of
                     None \<Rightarrow> True
                   | Some option \<Rightarrow> one_of (to_ascii_uppercase option) [''NX'', ''XX'', ''GT'', ''LT'']) })"

function redis_set_loop :: "bytes list \<Rightarrow> usize \<Rightarrow> bool \<Rightarrow> bool \<Rightarrow> bool rs" where
  "redis_set_loop args index saw_expiry saw_condition =
     (if index < length args then
        (case idx args index of
           None \<Rightarrow> None
         | Some arg \<Rightarrow>
             let word = to_ascii_uppercase arg in
             if one_of word [''EX'', ''PX''] then
               if saw_expiry then Some False
               else
                 (case idx args (index + 1) of
                    None \<Rightarrow> Some False
                  | Some expiry \<Rightarrow>
                      if (case parse_u64 expiry of None \<Rightarrow> True | Some v \<Rightarrow> v = 0) then Some False
                      else redis_set_loop args (index + 2) True saw_condition)
             else if one_of word [''NX'', ''XX''] then
               if saw_condition then Some False
               else redis_set_loop args (index + 1) saw_expiry True
             else Some False)
      else Some True)"
  by pat_completeness auto
termination
  by (relation "measure (\<lambda>(args, index, _). length args - index)") auto

declare redis_set_loop.simps [simp del]

definition redis_set_args_are_valid :: "bytes list \<Rightarrow> bool rs" where
  "redis_set_args_are_valid args =
     (if length args < 2 \<or> \<not> list_all (\<lambda>arg. arg \<noteq> []) args then Some False
      else redis_set_loop args 2 False False)"

definition redis_config_args_are_valid :: "bytes list \<Rightarrow> bool" where
  "redis_config_args_are_valid args =
     (case args of
        [subcommand, key] \<Rightarrow> eq_ignore_ascii_case subcommand (bstr ''GET'') \<and> key \<noteq> []
      | [subcommand, key, v] \<Rightarrow>
          eq_ignore_ascii_case subcommand (bstr ''SET'') \<and> key \<noteq> [] \<and> v \<noteq> []
      | _ \<Rightarrow> False)"

definition is_usable_redis_replication_ipv4 :: "ipv4 \<Rightarrow> bool" where
  "is_usable_redis_replication_ipv4 ip \<longleftrightarrow>
     \<not> v4_is_unspecified ip \<and> \<not> v4_is_loopback ip \<and> \<not> v4_is_multicast ip \<and> \<not> v4_is_broadcast ip"

definition is_valid_redis_replication_host :: "bytes \<Rightarrow> bool" where
  "is_valid_redis_replication_host host =
     (case strip_prefix host [0x5B] of
        Some rest \<Rightarrow>
          (case split_once rest 0x5D of
             None \<Rightarrow> False
           | Some (inner, suffix) \<Rightarrow>
               suffix = [] \<and>
               (case parse_ipv6 inner of
                  None \<Rightarrow> False
                | Some ip \<Rightarrow>
                    \<not> v6_is_unspecified ip \<and>
                    (case to_ipv4_mapped ip of
                       None \<Rightarrow> True | Some v4 \<Rightarrow> is_usable_redis_replication_ipv4 v4)))
      | None \<Rightarrow>
          (case parse_ipv4 host of
             Some ip \<Rightarrow> is_usable_redis_replication_ipv4 ip
           | None \<Rightarrow>
               if (case strip_suffix host [0x2E] of
                     Some h \<Rightarrow> h = [] \<or> ends_with h [0x2E] | None \<Rightarrow> False)
               then False
               else
                 let host = (case strip_suffix host [0x2E] of Some h \<Rightarrow> h | None \<Rightarrow> host) in
                 length host \<le> 253 \<and> has_valid_domain_labels host \<and>
                 \<not> has_numeric_domain_labels host))"

definition redis_replication_args_are_valid :: "bytes list \<Rightarrow> bool rs" where
  "redis_replication_args_are_valid args =
     (if length args \<noteq> 2 then Some False
      else do {
        a0 \<leftarrow> idx args 0; a1 \<leftarrow> idx args 1;
        if eq_ignore_ascii_case a0 (bstr ''NO'') \<and> eq_ignore_ascii_case a1 (bstr ''ONE'')
        then Some True
        else if \<not> is_valid_redis_replication_host a0 then Some False
        else Some (case unsigned_decimal 65535 a1 of None \<Rightarrow> False | Some port \<Rightarrow> port \<noteq> 0) })"

definition redis_eval_args_are_valid :: "bytes list \<Rightarrow> bool rs" where
  "redis_eval_args_are_valid args =
     (if length args < 2 then Some False
      else do {
        a1 \<leftarrow> idx args 1;
        Some (case parse_usize a1 of None \<Rightarrow> False | Some key_count \<Rightarrow> key_count \<le> length args - 2) })"

definition redis_flush_args_are_valid :: "bytes list \<Rightarrow> bool" where
  "redis_flush_args_are_valid args =
     (case args of
        [] \<Rightarrow> True
      | [mode] \<Rightarrow> eq_ignore_ascii_case mode (bstr ''ASYNC'') \<or> eq_ignore_ascii_case mode (bstr ''SYNC'')
      | _ \<Rightarrow> False)"

definition redis_bgsave_args_are_valid :: "bytes list \<Rightarrow> bool" where
  "redis_bgsave_args_are_valid args =
     (case args of
        [] \<Rightarrow> True
      | [mode] \<Rightarrow> eq_ignore_ascii_case mode (bstr ''SCHEDULE'')
      | _ \<Rightarrow> False)"

section \<open>Inline commands\<close>

definition redis_one_token :: "bytes list \<Rightarrow> bool rs" where
  "redis_one_token args =
     (if length args = 1 then do { a \<leftarrow> idx args 0; Some (is_valid_redis_token a) } else Some False)"

definition redis_command_valid :: "bytes \<Rightarrow> bytes list \<Rightarrow> bool rs" where
  "redis_command_valid verb args =
     (let w = to_ascii_uppercase verb in
      if w = bstr ''PING'' then Some (length args \<le> 1)
      else if w = bstr ''ECHO'' then redis_one_token args
      else if w = bstr ''HELLO'' then redis_hello_args_are_valid args
      else if w = bstr ''INFO'' then Some (length args \<le> 1)
      else if one_of w [''TIME'', ''ROLE''] then Some (args = [])
      else if w = bstr ''AUTH'' then
        Some ((length args = 1 \<or> length args = 2) \<and> list_all (\<lambda>arg. arg \<noteq> []) args)
      else if w = bstr ''SET'' then redis_set_args_are_valid args
      else if w = bstr ''GET'' then redis_one_token args
      else if one_of w [''GETDEL'', ''TTL'', ''PTTL'', ''EXPIRETIME'', ''PEXPIRETIME'', ''TYPE'',
                        ''STRLEN'', ''INCR'', ''DECR''] then redis_one_token args
      else if one_of w [''GETSET'', ''SETNX'', ''APPEND''] then Some (redis_tokens_are_valid args 2)
      else if one_of w [''DEL'', ''EXISTS'', ''MGET''] then
        Some (args \<noteq> [] \<and> list_all is_valid_redis_token args)
      else if one_of w [''SETEX'', ''PSETEX''] then redis_setex_args_are_valid args
      else if one_of w [''MSET'', ''MSETNX''] then Some (redis_mset_args_are_valid args)
      else if one_of w [''INCRBY'', ''DECRBY''] then redis_incrby_args_are_valid args
      else if one_of w [''EXPIRE'', ''PEXPIRE'', ''EXPIREAT'', ''PEXPIREAT'']
      then redis_expire_args_are_valid args
      else if w = bstr ''CONFIG'' then Some (redis_config_args_are_valid args)
      else if one_of w [''SLAVEOF'', ''REPLICAOF''] then redis_replication_args_are_valid args
      else if w = bstr ''MODULE'' then Some True
      else if one_of w [''EVAL'', ''EVALSHA''] then redis_eval_args_are_valid args
      else if one_of w [''FLUSHALL'', ''FLUSHDB''] then Some (redis_flush_args_are_valid args)
      else if w = bstr ''DBSIZE'' then Some (args = [])
      else if w = bstr ''SELECT'' then
        (if length args = 1 then do { a \<leftarrow> idx args 0; Some (parse_u64 a \<noteq> None) } else Some False)
      else if one_of w [''QUIT'', ''COMMAND''] then Some (args = [])
      else if one_of w [''CLUSTER'', ''CLIENT''] then Some True
      else if w = bstr ''SAVE'' then Some (args = [])
      else if w = bstr ''BGSAVE'' then Some (redis_bgsave_args_are_valid args)
      else Some False)"

definition redis_inline_request_end :: "bytes \<Rightarrow> usize option rs" where
  "redis_inline_request_end data =
     tryo (find_crlf_from data 0) (\<lambda>line_end.
     tryo (first_text_line data) (\<lambda>line.
       if has_bare_lf data then Some None
       else if line = [] \<or> first_char_is_whitespace line \<or> last_char_is_whitespace line \<or>
          list_ex (\<lambda>ch. char_is_control ch \<or> (char_is_whitespace ch \<and> ch \<noteq> 32)) (chars line)
       then Some None
       else
         let parts = space_parts line in
         if list_ex (\<lambda>p. p = []) (drop 1 parts) then Some None
         else tryo (idx parts 0) (\<lambda>verb.
           do { args \<leftarrow> slice_from parts 1;
                valid \<leftarrow> redis_command_valid verb args;
                Some (if valid then Some (line_end + 2) else None) })))"

section \<open>RESP arrays\<close>

definition REDIS_TASTE_MAX_ARRAY_COUNT :: nat where
  "REDIS_TASTE_MAX_ARRAY_COUNT = 1024"

definition REDIS_TASTE_MAX_BULK_SIZE :: nat where
  "REDIS_TASTE_MAX_BULK_SIZE = 64 * 1024"

definition parse_redis_resp_array_count :: "bytes \<Rightarrow> usize option" where
  "parse_redis_resp_array_count t =
     (if t = [] \<or> \<not> list_all is_ascii_digit t then None else parse_digits usize_max t)"

definition parse_redis_resp_bulk_len :: "bytes \<Rightarrow> usize option option" where
  "parse_redis_resp_bulk_len t =
     (if t = bstr ''-1'' then Some None
      else if t = [] \<or> \<not> list_all is_ascii_digit t then None
      else map_option Some (parse_digits usize_max t))"

text \<open>The \<open>for _ in 0..count\<close> loop of \<open>redis_resp_array_end\<close>.\<close>

fun redis_bulk_loop :: "bytes \<Rightarrow> nat \<Rightarrow> usize \<Rightarrow> usize option rs" where
  "redis_bulk_loop data 0 pos = Some (Some pos)"
| "redis_bulk_loop data (Suc count) pos =
     (if idx data pos \<noteq> Some 0x24 then Some None
      else tryo (find_crlf_from data pos) (\<lambda>bulk_header_end.
        case slice data (pos + 1) bulk_header_end of
          None \<Rightarrow> None
        | Some raw \<Rightarrow>
            (case from_utf8 raw of
               None \<Rightarrow> Some None
             | Some bulk_len_text \<Rightarrow>
                 tryo (parse_redis_resp_bulk_len bulk_len_text) (\<lambda>bulk_len.
                   let pos = bulk_header_end + 2 in
                   tryo bulk_len (\<lambda>bulk_len.
                     if bulk_len > REDIS_TASTE_MAX_BULK_SIZE then Some None
                     else
                       tryo (checked_add pos bulk_len) (\<lambda>data_end.
                       tryo (checked_add data_end 2) (\<lambda>frame_end.
                         if frame_end > length data then Some None
                         else
                           (case slice data data_end frame_end of
                              None \<Rightarrow> None
                            | Some tail \<Rightarrow>
                                if tail \<noteq> CRLF then Some None
                                else redis_bulk_loop data count frame_end)))))))) "

definition redis_resp_array_end :: "bytes \<Rightarrow> usize option rs" where
  "redis_resp_array_end data =
     (if \<not> starts_with data [0x2A] then Some None
      else tryo (find_crlf_from data 0) (\<lambda>header_end.
        do { raw \<leftarrow> slice data 1 header_end;
             case from_utf8 raw of
               None \<Rightarrow> Some None
             | Some count_text \<Rightarrow>
                 tryo (parse_redis_resp_array_count count_text) (\<lambda>count.
                   if count = 0 \<or> count > REDIS_TASTE_MAX_ARRAY_COUNT then Some None
                   else redis_bulk_loop data count (header_end + 2)) }))"

function redis_skip_blank_lines :: "bytes \<Rightarrow> bytes" where
  "redis_skip_blank_lines data =
     (if starts_with data CRLF then redis_skip_blank_lines (drop 2 data) else data)"
  by pat_completeness auto
termination
  by (relation "measure length") (auto simp: starts_with_def CRLF_def)

declare redis_skip_blank_lines.simps [simp del]

lemma length_redis_skip_blank_lines: "length (redis_skip_blank_lines data) \<le> length data"
proof (induction data rule: redis_skip_blank_lines.induct)
  case (1 data)
  then show ?case by (subst redis_skip_blank_lines.simps) auto
qed

section \<open>The detectors never panic\<close>

lemma redis_hello_loop_wp: "wp (redis_hello_loop rest i a n) (\<lambda>_. True)"
proof (induction rest i a n rule: redis_hello_loop.induct)
  case (1 rest i a n)
  then show ?case
    by (subst redis_hello_loop.simps) (auto simp: wp_rules Let_def)
qed

lemma redis_set_loop_wp: "wp (redis_set_loop args i e c) (\<lambda>_. True)"
proof (induction args i e c rule: redis_set_loop.induct)
  case (1 args i e c)
  then show ?case
    by (subst redis_set_loop.simps) (auto simp: wp_rules Let_def)
qed

lemmas redis_args_defs = redis_one_token_def redis_hello_args_are_valid_def
  redis_setex_args_are_valid_def redis_incrby_args_are_valid_def redis_expire_args_are_valid_def
  redis_set_args_are_valid_def redis_replication_args_are_valid_def redis_eval_args_are_valid_def

lemma redis_args_wp:
  "wp (redis_one_token args) (\<lambda>_. True)" "wp (redis_hello_args_are_valid args) (\<lambda>_. True)"
  "wp (redis_setex_args_are_valid args) (\<lambda>_. True)" "wp (redis_incrby_args_are_valid args) (\<lambda>_. True)"
  "wp (redis_expire_args_are_valid args) (\<lambda>_. True)" "wp (redis_set_args_are_valid args) (\<lambda>_. True)"
  "wp (redis_replication_args_are_valid args) (\<lambda>_. True)"
  "wp (redis_eval_args_are_valid args) (\<lambda>_. True)"
  unfolding redis_args_defs
  by (auto simp: wp_rules redis_hello_loop_wp redis_set_loop_wp split: list.split)

lemma redis_command_valid_wp: "wp (redis_command_valid verb args) (\<lambda>_. True)"
  unfolding redis_command_valid_def Let_def
  by (simp add: wp_rules redis_args_wp)

lemma redis_inline_request_wp [no_panic]:
  "wp (redis_inline_request_end data) (\<lambda>r. \<forall>e. r = Some e \<longrightarrow> 0 < e \<and> e \<le> length data)"
  unfolding redis_inline_request_end_def
  by (auto simp: wp_rules space_parts_def Suc_le_eq dest!: find_crlf_from_bound
      intro!: wp_call [OF redis_command_valid_wp])

lemma find_sub_nth: "find_sub pat xs = Some i \<Longrightarrow> j < length pat \<Longrightarrow> xs ! (i + j) = pat ! j"
proof (induction xs arbitrary: i)
  case (Cons x xs)
  show ?case
  proof (cases "take (length pat) (x # xs) = pat")
    case True
    with Cons.prems have "i = 0" by simp
    with True Cons.prems(2) show ?thesis by (metis add_0 nth_take)
  next
    case False
    with Cons show ?thesis by auto
  qed
qed (auto split: if_splits)

lemma find_crlf_from_cr:
  assumes "find_crlf_from data p = Some i"
  shows "data ! i = 0x0D"
proof -
  from assms obtain k where "p \<le> length data" "find_sub CRLF (drop p data) = Some k" "i = p + k"
    by (auto simp: find_crlf_from_def slice_from_Some_iff split: option.splits)
  with find_sub_nth [of CRLF "drop p data" k 0] find_crlf_from_bound [OF assms] show ?thesis
    by (simp add: CRLF_def)
qed

lemma find_crlf_from_after:
  assumes "find_crlf_from data p = Some i" "p < length data" "data ! p \<noteq> 0x0D"
  shows "p + 1 \<le> i"
  using find_crlf_from_cr [OF assms(1)] find_crlf_from_bound [OF assms(1)] assms(3)
  by (cases "p = i") auto

lemma redis_bulk_loop_wp:
  "0 < pos \<Longrightarrow> pos \<le> length data \<Longrightarrow>
   wp (redis_bulk_loop data count pos) (\<lambda>r. \<forall>e. r = Some e \<longrightarrow> 0 < e \<and> e \<le> length data)"
proof (induction count arbitrary: pos)
  case (Suc count)
  show ?case
    unfolding redis_bulk_loop.simps
    by (auto simp: wp_rules Let_def idx_Some_iff
        dest: find_crlf_from_after find_crlf_from_bound intro!: Suc.IH)
qed (simp add: wp_rules)

lemma redis_resp_array_wp [no_panic]:
  "wp (redis_resp_array_end data) (\<lambda>r. \<forall>e. r = Some e \<longrightarrow> 0 < e \<and> e \<le> length data)"
proof -
  have "data \<noteq> [] \<and> data ! 0 = 0x2A" if "starts_with data [0x2A]"
    using that by (cases data) (auto simp: starts_with_def)
  then show ?thesis
    unfolding redis_resp_array_end_def
    by (auto simp: wp_rules dest: find_crlf_from_after [where p = 0] find_crlf_from_bound
        intro!: redis_bulk_loop_wp)
qed

interpretation redis_inline: frame_parser redis_inline_request_end
  by unfold_locales (rule redis_inline_request_wp)

interpretation redis_resp: frame_parser redis_resp_array_end
  by unfold_locales (rule redis_resp_array_wp)

section \<open>Samples of several commands\<close>

text \<open>Each call works on the bytes after its frame, and each frame it finds is not empty.\<close>

lemma redis_tail_shorter:
  "0 < e \<Longrightarrow> e \<le> length (redis_skip_blank_lines (drop p data)) \<Longrightarrow>
   length (redis_skip_blank_lines (drop p data)) - e < length data - p"
  using length_redis_skip_blank_lines [of "drop p data"] by simp

function redis_sample_tail_is_plausible :: "bytes \<Rightarrow> usize \<Rightarrow> bool rs" where
  "redis_sample_tail_is_plausible data frame_end =
     (if frame_end > length data then Some False
      else
        (case slice_from data frame_end of
           None \<Rightarrow> None
         | Some after \<Rightarrow>
             let tail = redis_skip_blank_lines after in
             if tail = [] then Some True
             else
               (case redis_resp_array_end tail of
                  None \<Rightarrow> None
                | Some (Some next_frame_end) \<Rightarrow> redis_sample_tail_is_plausible tail next_frame_end
                | Some None \<Rightarrow>
                    (case redis_inline_request_end tail of
                       None \<Rightarrow> None
                     | Some (Some next_frame_end) \<Rightarrow> redis_sample_tail_is_plausible tail next_frame_end
                     | Some None \<Rightarrow> Some False))))"
  by pat_completeness auto

termination
  by (relation "measure (\<lambda>(data, e). length data - e)")
    (auto dest!: redis_resp.frame_bounds redis_inline.frame_bounds intro!: redis_tail_shorter)

declare redis_sample_tail_is_plausible.simps [simp del]

lemma redis_sample_tail_wp: "wp (redis_sample_tail_is_plausible data e) (\<lambda>_. True)"
proof (induction data e rule: redis_sample_tail_is_plausible.induct)
  case (1 data e)
  then show ?case
    by (subst redis_sample_tail_is_plausible.simps)
      (auto simp: wp_rules Let_def redis_resp.frame_total redis_inline.frame_total
        split: option.split)
qed

definition looks_like_resp_array :: "bytes \<Rightarrow> bool rs" where
  "looks_like_resp_array data =
     do { r \<leftarrow> redis_resp_array_end data;
          let_else r False (\<lambda>frame_end. redis_sample_tail_is_plausible data frame_end) }"

definition looks_like_redis_inline_request :: "bytes \<Rightarrow> bool rs" where
  "looks_like_redis_inline_request data =
     do { r \<leftarrow> redis_inline_request_end data;
          let_else r False (\<lambda>line_end. redis_sample_tail_is_plausible data line_end) }"

lemma looks_like_resp_array_wp [no_panic]: "wp (looks_like_resp_array data) (\<lambda>_. True)"
  unfolding looks_like_resp_array_def
  by (auto simp: wp_rules redis_sample_tail_wp intro!: wp_call [OF redis_resp_array_wp])

lemma looks_like_redis_inline_wp [no_panic]: "wp (looks_like_redis_inline_request data) (\<lambda>_. True)"
  unfolding looks_like_redis_inline_request_def
  by (auto simp: wp_rules redis_sample_tail_wp intro!: wp_call [OF redis_inline_request_wp])

end
