(* ===== verification/Taste_Binary.thy ===== *)
theory Taste_Binary
  imports Taste_Redis
begin

text \<open>
  The detectors for binary protocols in \<open>heuristics.rs\<close>: DNS, TLS and SSLv2, SSH, SMB, RDP,
  TFTP, SOCKS, the Memcached binary protocol, NTP, CoAP and syslog. Each indexes the sample, so
  each has a result in the panic monad and a lemma that it returns for all bytes. The DNS name
  scanner follows compression pointers; its recursion is shown to terminate.
\<close>

section \<open>DNS\<close>

text \<open>The loop and the recursion of \<open>dns_name_end\<close>. A label moves the position forward, a pointer
  must go backwards and raises the depth, which is bounded.\<close>

function dns_name_end :: "bytes \<Rightarrow> usize \<Rightarrow> nat \<Rightarrow> usize option" where
  "dns_name_end data pos depth =
     (if depth > 8 then None
      else
        (case idx data pos of
           None \<Rightarrow> None
         | Some label_len \<Rightarrow>
             if label_len AND 0xC0 = 0x00 then
               if label_len = 0 then Some (pos + 1)
               else
                 (case checked_add (pos + 1) (unat label_len) of
                    None \<Rightarrow> None
                  | Some next \<Rightarrow> if next \<le> length data then dns_name_end data next depth else None)
             else if label_len AND 0xC0 = 0xC0 then
               (case idx data (pos + 1) of
                  None \<Rightarrow> None
                | Some pointer_low \<Rightarrow>
                    let pointer = push_bit 8 (unat (label_len AND 0x3F)) OR unat pointer_low in
                    if pointer \<ge> pos then None
                    else
                      (case dns_name_end data pointer (depth + 1) of
                         None \<Rightarrow> None | Some _ \<Rightarrow> Some (pos + 2)))
             else None))"
  by pat_completeness auto
termination
  by (relation "measures [\<lambda>(data, pos, depth). 9 - depth, \<lambda>(data, pos, depth). length data - pos]")
    (auto simp: idx_Some_iff)

declare dns_name_end.simps [simp del]

lemma dns_name_end_bound [in_bounds]: "dns_name_end data pos depth = Some e \<Longrightarrow> pos < e \<and> e \<le> length data"
proof (induction data pos depth arbitrary: e rule: dns_name_end.induct)
  case (1 data pos depth)
  from 1(3) show ?case
    by (subst (asm) dns_name_end.simps)
      (auto simp: idx_Some_iff Let_def split: if_splits option.splits dest!: 1(1) 1(2))
qed

fun dns_questions_loop :: "bytes \<Rightarrow> nat \<Rightarrow> usize \<Rightarrow> usize option" where
  "dns_questions_loop data 0 pos = Some pos"
| "dns_questions_loop data (Suc n) pos =
     (case dns_name_end data pos 0 of
        None \<Rightarrow> None
      | Some pos \<Rightarrow>
          (case checked_add pos 4 of
             None \<Rightarrow> None
           | Some next \<Rightarrow> if next \<le> length data then dns_questions_loop data n next else None))"

definition dns_question_section_end :: "bytes \<Rightarrow> u16 \<Rightarrow> usize option" where
  "dns_question_section_end data qdcount = dns_questions_loop data (unat qdcount) 12"

definition dns_opt_record_is_well_formed :: "bytes \<Rightarrow> usize \<Rightarrow> bool rs" where
  "dns_opt_record_is_well_formed data pos =
     let_else (checked_add pos 11) False (\<lambda>next.
     let_else (slice data pos next) False (\<lambda>r.
     do { r0 \<leftarrow> idx r 0; r1 \<leftarrow> idx r 1; r2 \<leftarrow> idx r 2;
          if r0 \<noteq> 0 \<or> u16_be r1 r2 \<noteq> 41 then Some False
          else do {
            r3 \<leftarrow> idx r 3; r4 \<leftarrow> idx r 4;
            if u16_be r3 r4 = 0 then Some False
            else do {
              r9 \<leftarrow> idx r 9; r10 \<leftarrow> idx r 10;
              let rdlen = unat (u16_be r9 r10) in
              (case checked_add next rdlen of
                 Some e \<Rightarrow> Some (e = length data)
               | None \<Rightarrow> Some False) } } }))"

definition looks_like_dns_query :: "bytes \<Rightarrow> bool rs" where
  "looks_like_dns_query data =
     (if length data < 12 then Some False
      else do {
        d2 \<leftarrow> idx data 2; d3 \<leftarrow> idx data 3; d4 \<leftarrow> idx data 4; d5 \<leftarrow> idx data 5; d6 \<leftarrow> idx data 6;
        d7 \<leftarrow> idx data 7; d8 \<leftarrow> idx data 8; d9 \<leftarrow> idx data 9; d10 \<leftarrow> idx data 10; d11 \<leftarrow> idx data 11;
        let flags = u16_be d2 d3;
            is_query = (flags AND 0x8000 = 0);
            opcode = drop_bit 11 flags AND 0x0F;
            qdcount = u16_be d4 d5;
            ancount = u16_be d6 d7;
            nscount = u16_be d8 d9;
            arcount = u16_be d10 d11
        in if \<not> is_query \<or> opcode \<noteq> 0 \<or> qdcount \<noteq> 1 \<or> ancount \<noteq> 0 \<or> nscount \<noteq> 0 then Some False
           else let_else (dns_question_section_end data qdcount) False (\<lambda>question_end.
             if arcount = 0 then Some (question_end = length data)
             else if arcount = 1 then dns_opt_record_is_well_formed data question_end
             else Some False) })"

lemma dns_opt_record_wp: "wp (dns_opt_record_is_well_formed data pos) (\<lambda>_. True)"
  unfolding dns_opt_record_is_well_formed_def
  by (auto simp: wp_rules dest!: length_slice split: option.split)

lemma looks_like_dns_query_wp [no_panic]: "wp (looks_like_dns_query data) (\<lambda>_. True)"
  unfolding looks_like_dns_query_def
  by (auto simp: wp_rules dns_opt_record_wp)

section \<open>TLS and SSLv2\<close>

definition tls_client_hello_prefix_is_well_formed :: "bytes \<Rightarrow> bool rs" where
  "tls_client_hello_prefix_is_well_formed data =
     let_else (idx data 43) False (\<lambda>session_id_len.
     let pos = 43 + (1 + unat session_id_len) in
     let_else (slice data pos (pos + 2)) False (\<lambda>c.
     do { c0 \<leftarrow> idx c 0; c1 \<leftarrow> idx c 1;
          let cipher_suites_len = unat (u16_be c0 c1) in
          if cipher_suites_len mod 2 \<noteq> 0 then Some False
          else
            let pos = pos + (2 + cipher_suites_len) in
            let_else (idx data pos) False (\<lambda>compression_methods_len.
            let pos = pos + (1 + unat compression_methods_len) in
            let_else (slice data pos (pos + 2)) False (\<lambda>x.
            do { x0 \<leftarrow> idx x 0; x1 \<leftarrow> idx x 1;
                 let extensions_len = unat (u16_be x0 x1);
                     pos = pos + 2
                 in case checked_add pos extensions_len of
                      None \<Rightarrow> Some False
                    | Some extensions_end \<Rightarrow> Some (extensions_end = length data) })) }))"

definition looks_like_complete_tls_client_hello :: "bytes \<Rightarrow> bool rs" where
  "looks_like_complete_tls_client_hello data =
     (if length data < 9 then Some False
      else do {
        d0 \<leftarrow> idx data 0; d1 \<leftarrow> idx data 1; d2 \<leftarrow> idx data 2;
        if d0 \<noteq> 0x16 \<or> d1 \<noteq> 0x03 \<or> \<not> (0x01 \<le> d2 \<and> d2 \<le> 0x04) then Some False
        else do {
          d3 \<leftarrow> idx data 3; d4 \<leftarrow> idx data 4;
          let record_len = unat (u16_be d3 d4) in
          let_else (checked_add 5 record_len) False (\<lambda>record_end.
          do { d5 \<leftarrow> idx data 5;
               if record_len < 4 \<or> record_end \<noteq> length data \<or> d5 \<noteq> 0x01 then Some False
               else do {
                 d6 \<leftarrow> idx data 6; d7 \<leftarrow> idx data 7; d8 \<leftarrow> idx data 8;
                 let handshake_len = push_bit 16 (unat d6) OR push_bit 8 (unat d7) OR unat d8 in
                 let_else (checked_add 9 handshake_len) False (\<lambda>handshake_end.
                   if handshake_len > 0 \<and> handshake_end \<ge> 44 \<and> handshake_end = record_end
                   then do { hs \<leftarrow> slice data 0 handshake_end;
                             tls_client_hello_prefix_is_well_formed hs }
                   else Some False) } }) } })"

definition sslv2_client_hello_end :: "bytes \<Rightarrow> usize option rs" where
  "sslv2_client_hello_end data =
     (if length data < 11 then Some None
      else do {
        d0 \<leftarrow> idx data 0;
        if d0 AND 0x80 = 0 then Some None
        else do {
          d1 \<leftarrow> idx data 1;
          let record_len = push_bit 8 (unat (d0 AND 0x7F)) OR unat d1 in
          tryo (checked_add 2 record_len) (\<lambda>record_end.
          do { d2 \<leftarrow> idx data 2;
               if record_len < 9 \<or> record_end > length data \<or> d2 \<noteq> 0x01 then Some None
               else do {
                 d3 \<leftarrow> idx data 3; d4 \<leftarrow> idx data 4;
                 if \<not> (d3 = 0x00 \<and> d4 = 0x02 \<or> d3 = 0x03 \<and> d4 \<le> 0x04) then Some None
                 else do {
                   d5 \<leftarrow> idx data 5; d6 \<leftarrow> idx data 6; d7 \<leftarrow> idx data 7; d8 \<leftarrow> idx data 8;
                   d9 \<leftarrow> idx data 9; d10 \<leftarrow> idx data 10;
                   let cipher_specs_len = unat (u16_be d5 d6);
                       session_id_len = unat (u16_be d7 d8);
                       challenge_len = unat (u16_be d9 d10)
                   in Some (if cipher_specs_len > 0 \<and> cipher_specs_len mod 3 = 0 \<and>
                               16 \<le> challenge_len \<and> challenge_len \<le> 32 \<and>
                               Option.bind (Option.bind (checked_add 9 cipher_specs_len)
                                  (\<lambda>len. checked_add len session_id_len))
                                  (\<lambda>len. checked_add len challenge_len) = Some record_len
                            then Some record_end else None) } } }) } })"

lemma tls_prefix_wp: "wp (tls_client_hello_prefix_is_well_formed data) (\<lambda>_. True)"
  unfolding tls_client_hello_prefix_is_well_formed_def Let_def
  by (auto simp: wp_rules dest!: length_slice split: option.split)

lemma looks_like_tls_wp [no_panic]: "wp (looks_like_complete_tls_client_hello data) (\<lambda>_. True)"
  unfolding looks_like_complete_tls_client_hello_def Let_def
  by (auto simp: wp_rules tls_prefix_wp)

lemma sslv2_client_hello_wp [no_panic]:
  "wp (sslv2_client_hello_end data) (\<lambda>r. \<forall>e. r = Some e \<longrightarrow> 0 < e \<and> e \<le> length data)"
  unfolding sslv2_client_hello_end_def Let_def
  by (auto simp: wp_rules)

interpretation sslv2: frame_parser sslv2_client_hello_end
  by unfold_locales (rule sslv2_client_hello_wp)

function sslv2_tail_loop :: "bytes \<Rightarrow> usize \<Rightarrow> bool rs" where
  "sslv2_tail_loop data pos =
     (if pos < length data then
        (case slice_from data pos of
           None \<Rightarrow> None
         | Some tail \<Rightarrow>
             (case looks_like_complete_tls_client_hello tail of
                None \<Rightarrow> None
              | Some True \<Rightarrow> Some True
              | Some False \<Rightarrow>
                  (case sslv2_client_hello_end tail of
                     None \<Rightarrow> None
                   | Some None \<Rightarrow> Some False
                   | Some (Some next_len) \<Rightarrow> sslv2_tail_loop data (pos + next_len))))
      else Some True)"
  by pat_completeness auto
termination
  by (relation "measure (\<lambda>(data, pos). length data - pos)")
    (auto simp: slice_from_Some_iff dest!: sslv2.frame_progress)

declare sslv2_tail_loop.simps [simp del]

definition sslv2_tail_is_plausible :: "bytes \<Rightarrow> usize \<Rightarrow> bool rs" where
  "sslv2_tail_is_plausible data record_end =
     (if record_end > length data then Some False else sslv2_tail_loop data record_end)"

definition looks_like_sslv2_client_hello :: "bytes \<Rightarrow> bool rs" where
  "looks_like_sslv2_client_hello data =
     do { r \<leftarrow> sslv2_client_hello_end data;
          let_else r False (\<lambda>record_end. sslv2_tail_is_plausible data record_end) }"

lemma sslv2_tail_loop_wp: "wp (sslv2_tail_loop data pos) (\<lambda>_. True)"
proof (induction data pos rule: sslv2_tail_loop.induct)
  case (1 data pos)
  then show ?case
    using wp_not_None [OF looks_like_tls_wp, of "drop pos data"]
    by (subst sslv2_tail_loop.simps)
      (auto simp: wp_rules sslv2.frame_total split: option.split bool.split)
qed

lemma looks_like_sslv2_wp [no_panic]: "wp (looks_like_sslv2_client_hello data) (\<lambda>_. True)"
  unfolding looks_like_sslv2_client_hello_def sslv2_tail_is_plausible_def
  by (auto simp: wp_rules sslv2_tail_loop_wp intro!: wp_call [OF sslv2_client_hello_wp])

end
