(* ===== verification/Taste_Db.thy ===== *)
theory Taste_Db
  imports Taste_Binary
begin

text \<open>
  The database detectors: MySQL client packets (\<open>taste/mysql.rs\<close> and the SSL request check of
  \<open>heuristics.rs\<close>) and PostgreSQL startup, cancel and typed messages (\<open>taste/postgres.rs\<close>). A
  consumer that moves \<open>&mut pos\<close> returns the new position, \<open>None\<close> being its \<open>false\<close>.
\<close>

section \<open>MySQL\<close>

definition MYSQL_CLIENT_PROTOCOL_41 :: u32 where "MYSQL_CLIENT_PROTOCOL_41 = 0x00000200"
definition MYSQL_CLIENT_CONNECT_WITH_DB :: u32 where "MYSQL_CLIENT_CONNECT_WITH_DB = 0x00000008"
definition MYSQL_CLIENT_SECURE_CONNECTION :: u32 where "MYSQL_CLIENT_SECURE_CONNECTION = 0x00008000"
definition MYSQL_CLIENT_PLUGIN_AUTH :: u32 where "MYSQL_CLIENT_PLUGIN_AUTH = 0x00080000"
definition MYSQL_CLIENT_PLUGIN_AUTH_LENENC_CLIENT_DATA :: u32 where
  "MYSQL_CLIENT_PLUGIN_AUTH_LENENC_CLIENT_DATA = 0x00200000"
definition MYSQL_CLIENT_CONNECT_ATTRS :: u32 where "MYSQL_CLIENT_CONNECT_ATTRS = 0x00100000"

definition flag_set :: "u32 \<Rightarrow> u32 \<Rightarrow> bool" where
  "flag_set flags f \<longleftrightarrow> flags AND f \<noteq> 0"

definition mysql_token_is_safe :: "bytes \<Rightarrow> bool" where
  "mysql_token_is_safe v =
     (case from_utf8 v of
        Some t \<Rightarrow>
          list_all (\<lambda>ch. \<not> char_is_control ch \<and> (\<not> char_is_whitespace ch \<or> ch = 32)) (chars t)
      | None \<Rightarrow>
          list_all (\<lambda>b. \<not> is_ascii_control b \<and> b \<notin> {0x0A, 0x0D, 0x09, 0x0B, 0x0C}) v)"

text \<open>Little-endian value of a byte string, \<open>u64::from_le_bytes\<close> for eight bytes.\<close>

definition le_value :: "bytes \<Rightarrow> nat" where
  "le_value bs = foldr (\<lambda>b acc. unat b + 256 * acc) bs 0"

definition mysql_lenenc_int :: "bytes \<Rightarrow> (usize \<times> usize) option rs" where
  "mysql_lenenc_int data =
     tryo (idx data 0) (\<lambda>first.
       if first \<le> 0xFA then Some (Some (unat first, 1))
       else if first = 0xFC then
         tryo (slice data 1 3) (\<lambda>bs.
         do { b0 \<leftarrow> idx bs 0; b1 \<leftarrow> idx bs 1;
              let v = unat (u16_le b0 b1) in Some (if v \<ge> 251 then Some (v, 3) else None) })
       else if first = 0xFD then
         tryo (slice data 1 4) (\<lambda>bs.
         do { b0 \<leftarrow> idx bs 0; b1 \<leftarrow> idx bs 1; b2 \<leftarrow> idx bs 2;
              let v = unat b0 OR push_bit 8 (unat b1) OR push_bit 16 (unat b2) in
              Some (if v \<ge> 0x10000 then Some (v, 4) else None) })
       else if first = 0xFE then
         tryo (slice data 1 9) (\<lambda>bs.
           let v = le_value bs in Some (if v \<ge> 0x1000000 then Some (v, 9) else None))
       else Some None)"

lemma mysql_lenenc_wp [no_panic]:
  "wp (mysql_lenenc_int data) (\<lambda>r. \<forall>v n. r = Some (v, n) \<longrightarrow> 1 \<le> n \<and> n \<le> length data)"
  unfolding mysql_lenenc_int_def Let_def
  by (auto simp: wp_rules slice_Some_iff idx_Some_iff Suc_le_eq)

lemma mysql_lenenc_bounds:
  "mysql_lenenc_int data = Some (Some (v, n)) \<Longrightarrow> 1 \<le> n \<and> n \<le> length data"
  using wp_result [OF mysql_lenenc_wp] by blast

function mysql_connect_attrs_loop :: "bytes \<Rightarrow> usize \<Rightarrow> bool rs" where
  "mysql_connect_attrs_loop attrs pos =
     (if pos < length attrs then
        (case slice_from attrs pos of None \<Rightarrow> None | Some kb \<Rightarrow>
        (case mysql_lenenc_int kb of
           None \<Rightarrow> None
         | Some None \<Rightarrow> Some False
         | Some (Some (key_len, key_len_bytes)) \<Rightarrow>
             let pos1 = pos + key_len_bytes in
             (case checked_add pos1 key_len of None \<Rightarrow> Some False | Some key_end \<Rightarrow>
             (case slice attrs pos1 key_end of None \<Rightarrow> Some False | Some key \<Rightarrow>
                if key = [] \<or> \<not> mysql_token_is_safe key then Some False
                else
                  let pos2 = pos1 + key_len in
                  (case slice_from attrs pos2 of None \<Rightarrow> None | Some vb \<Rightarrow>
                  (case mysql_lenenc_int vb of
                     None \<Rightarrow> None
                   | Some None \<Rightarrow> Some False
                   | Some (Some (value_len, value_len_bytes)) \<Rightarrow>
                       let pos3 = pos2 + value_len_bytes in
                       (case checked_add pos3 value_len of None \<Rightarrow> Some False | Some value_end \<Rightarrow>
                       (case slice attrs pos3 value_end of None \<Rightarrow> Some False | Some v \<Rightarrow>
                          if \<not> mysql_token_is_safe v then Some False
                          else mysql_connect_attrs_loop attrs (pos3 + value_len)))))))))
      else Some True)"
  by pat_completeness auto
termination
  by (relation "measure (\<lambda>(attrs, pos). length attrs - pos)")
    (auto simp: slice_Some_iff dest!: mysql_lenenc_bounds)

declare mysql_connect_attrs_loop.simps [simp del]

definition mysql_connect_attrs_are_well_formed :: "bytes \<Rightarrow> bool rs" where
  "mysql_connect_attrs_are_well_formed attrs = mysql_connect_attrs_loop attrs 0"

lemma mysql_connect_attrs_wp: "wp (mysql_connect_attrs_loop attrs pos) (\<lambda>_. True)"
proof (induction attrs pos rule: mysql_connect_attrs_loop.induct)
  case (1 attrs pos)
  then show ?case
    by (subst mysql_connect_attrs_loop.simps)
      (auto simp: wp_rules Let_def slice_Some_iff wp_not_None [OF mysql_lenenc_wp]
        split: option.split)
qed

text \<open>The three optional steps of the handshake response after the user name: each returns the
  remaining bytes, \<open>None\<close> being the early \<open>return false\<close>.\<close>

definition skip_to_nul :: "bytes \<Rightarrow> bytes option rs" where
  "skip_to_nul tail =
     tryo (position (\<lambda>b. b = 0) tail) (\<lambda>e.
       do { rest \<leftarrow> slice_from tail (e + 1); Some (Some rest) })"

definition mysql_auth_tail :: "u32 \<Rightarrow> bytes \<Rightarrow> bytes option rs" where
  "mysql_auth_tail cap_flags tail =
     (if flag_set cap_flags MYSQL_CLIENT_PLUGIN_AUTH_LENENC_CLIENT_DATA then do {
        l \<leftarrow> mysql_lenenc_int tail;
        tryo l (\<lambda>(auth_len, len_bytes).
        tryo (checked_add len_bytes auth_len) (\<lambda>auth_end. Some (slice_from tail auth_end))) }
      else if flag_set cap_flags MYSQL_CLIENT_SECURE_CONNECTION then
        (case tail of
           [] \<Rightarrow> Some None
         | auth_len # rest \<Rightarrow> Some (slice_from rest (unat auth_len)))
      else skip_to_nul tail)"

definition mysql_plugin_tail :: "bytes \<Rightarrow> bytes option rs" where
  "mysql_plugin_tail tail =
     tryo (position (\<lambda>b. b = 0) tail) (\<lambda>plugin_end.
     do { plugin \<leftarrow> slice tail 0 plugin_end;
          if plugin = [] \<or> length plugin > 128 \<or>
             \<not> list_all (\<lambda>b. 0x21 \<le> b \<and> b \<le> 0x7E \<and> b \<noteq> 0x5C) plugin
          then Some None
          else do { rest \<leftarrow> slice_from tail (plugin_end + 1); Some (Some rest) } })"

definition mysql_attrs_tail :: "bytes \<Rightarrow> bytes option rs" where
  "mysql_attrs_tail tail =
     do { l \<leftarrow> mysql_lenenc_int tail;
          tryo l (\<lambda>(attrs_len, len_bytes).
          tryo (checked_add len_bytes attrs_len) (\<lambda>attrs_end.
          tryo (slice tail len_bytes attrs_end) (\<lambda>attrs.
          do { ok \<leftarrow> mysql_connect_attrs_are_well_formed attrs;
               if \<not> ok then Some None
               else do { rest \<leftarrow> slice_from tail attrs_end; Some (Some rest) } }))) }"

definition mysql_handshake_response_41_is_well_formed :: "bytes \<Rightarrow> bool rs" where
  "mysql_handshake_response_41_is_well_formed payload =
     (if length payload < 33 then Some False
      else do {
        filler \<leftarrow> slice payload 9 32;
        if list_ex (\<lambda>b. b \<noteq> 0) filler then Some False
        else do {
          p0 \<leftarrow> idx payload 0; p1 \<leftarrow> idx payload 1; p2 \<leftarrow> idx payload 2; p3 \<leftarrow> idx payload 3;
          let cap_flags = u32_le p0 p1 p2 p3 in
          if \<not> flag_set cap_flags MYSQL_CLIENT_PROTOCOL_41 then Some False
          else do {
            after \<leftarrow> slice_from payload 32;
            let_else (position (\<lambda>b. b = 0) after) False (\<lambda>username_end.
            do { tail \<leftarrow> slice_from payload (32 + username_end + 1);
                 a \<leftarrow> mysql_auth_tail cap_flags tail;
                 let_else a False (\<lambda>tail.
                 do { d \<leftarrow> (if flag_set cap_flags MYSQL_CLIENT_CONNECT_WITH_DB then skip_to_nul tail
                            else Some (Some tail));
                      let_else d False (\<lambda>tail.
                      do { p \<leftarrow> (if flag_set cap_flags MYSQL_CLIENT_PLUGIN_AUTH then mysql_plugin_tail tail
                                 else Some (Some tail));
                           let_else p False (\<lambda>tail.
                           do { c \<leftarrow> (if flag_set cap_flags MYSQL_CLIENT_CONNECT_ATTRS
                                      then mysql_attrs_tail tail else Some (Some tail));
                                let_else c False (\<lambda>tail. Some (tail = [])) }) }) }) }) } } })"

definition mysql_handshake_response_320_is_well_formed :: "bytes \<Rightarrow> bool rs" where
  "mysql_handshake_response_320_is_well_formed payload =
     (if length payload \<le> 5 then Some False
      else do {
        after \<leftarrow> slice_from payload 5;
        let_else (position (\<lambda>b. b = 0) after) False (\<lambda>username_end.
          Some (length payload = 5 + username_end + 1)) })"

definition mysql_query_is_well_formed :: "bytes \<Rightarrow> bool rs" where
  "mysql_query_is_well_formed payload =
     (if length payload \<le> 1 then Some False
      else do { q \<leftarrow> slice_from payload 1;
                Some (case from_utf8 q of None \<Rightarrow> False | Some query \<Rightarrow> 0 \<notin> set query) })"

definition mysql_init_db_is_well_formed :: "bytes \<Rightarrow> bool rs" where
  "mysql_init_db_is_well_formed payload =
     (if length payload \<le> 1 then Some False
      else do { d \<leftarrow> slice_from payload 1;
                Some (case from_utf8 d of
                        None \<Rightarrow> False
                      | Some db \<Rightarrow>
                          db \<noteq> [] \<and>
                          \<not> list_ex (\<lambda>ch. ch \<le> 0x1F \<or> ch = 0x7F \<or> char_is_whitespace ch) (chars db)) })"

definition mysql_field_list_is_well_formed :: "bytes \<Rightarrow> bool rs" where
  "mysql_field_list_is_well_formed payload =
     do { after \<leftarrow> slice_from payload 1;
          let_else (position (\<lambda>b. b = 0) after) False (\<lambda>table_end.
            if table_end = 0 then Some False
            else do { table \<leftarrow> slice payload 1 (1 + table_end);
                      wildcard \<leftarrow> slice_from payload (1 + table_end + 1);
                      Some (mysql_token_is_safe table \<and> mysql_token_is_safe wildcard) }) }"

definition mysql_client_packet_is_well_formed :: "bytes \<Rightarrow> bool rs" where
  "mysql_client_packet_is_well_formed packet =
     do { payload \<leftarrow> slice_from packet 4;
          let kind = idx payload 0 in
          if kind = Some 0x01 then Some (length payload = 1)
          else if kind = Some 0x02 then mysql_init_db_is_well_formed payload
          else if kind = Some 0x03 then mysql_query_is_well_formed payload
          else if kind = Some 0x04 then mysql_field_list_is_well_formed payload
          else if kind = Some 0x0E then Some (length payload = 1)
          else do {
            p3 \<leftarrow> idx packet 3;
            if p3 = 1 then do {
              r41 \<leftarrow> mysql_handshake_response_41_is_well_formed payload;
              if r41 then Some True else mysql_handshake_response_320_is_well_formed payload }
            else Some False } }"

definition mysql_client_packet_end :: "bytes \<Rightarrow> usize option rs" where
  "mysql_client_packet_end data =
     (if length data < 5 then Some None
      else do {
        d0 \<leftarrow> idx data 0; d1 \<leftarrow> idx data 1; d2 \<leftarrow> idx data 2;
        let declared_len = unat d0 OR push_bit 8 (unat d1) OR push_bit 16 (unat d2) in
        Some (case checked_add 4 declared_len of
                None \<Rightarrow> None
              | Some frame_end \<Rightarrow> if frame_end \<le> length data then Some frame_end else None) })"

definition mysql_ssl_request_is_well_formed :: "bytes \<Rightarrow> bool rs" where
  "mysql_ssl_request_is_well_formed data =
     (if length data < 8 then Some False
      else do {
        d3 \<leftarrow> idx data 3;
        if d3 \<noteq> 1 then Some False
        else do {
          d0 \<leftarrow> idx data 0; d1 \<leftarrow> idx data 1; d2 \<leftarrow> idx data 2;
          let declared_len = unat d0 OR push_bit 8 (unat d1) OR push_bit 16 (unat d2) in
          if declared_len \<noteq> length data - 4 \<or> (declared_len \<noteq> 4 \<and> declared_len \<noteq> 32) then Some False
          else do {
            d4 \<leftarrow> idx data 4; d5 \<leftarrow> idx data 5; d6 \<leftarrow> idx data 6; d7 \<leftarrow> idx data 7;
            let cap_flags = u32_le d4 d5 d6 d7 in
            if cap_flags AND 0x00000800 = 0 then Some False
            else if declared_len = 4 then Some True
            else do { filler \<leftarrow> slice data 13 36; Some (list_all (\<lambda>b. b = 0) filler) } } } })"

lemma mysql_packet_end_wp [no_panic]:
  "wp (mysql_client_packet_end data) (\<lambda>r. \<forall>e. r = Some e \<longrightarrow> 4 \<le> e \<and> e \<le> length data)"
  unfolding mysql_client_packet_end_def Let_def
  by (auto simp: wp_rules split: option.splits if_splits)

interpretation mysql: frame_parser mysql_client_packet_end
  by unfold_locales (rule wp_call [OF mysql_packet_end_wp], auto)

text \<open>The mutual recursion of \<open>looks_like_mysql_client_packet\<close> and
  \<open>mysql_ssl_request_tail_is_plausible\<close>, which continues behind an SSL request.\<close>

function looks_like_mysql_client_packet :: "bytes \<Rightarrow> bool rs"
  and mysql_ssl_request_tail_is_plausible :: "bytes \<Rightarrow> usize \<Rightarrow> bool rs" where
  "looks_like_mysql_client_packet data =
     (case mysql_client_packet_end data of
        None \<Rightarrow> None
      | Some None \<Rightarrow> Some False
      | Some (Some frame_end) \<Rightarrow>
          (case slice data 0 frame_end of
             None \<Rightarrow> None
           | Some packet \<Rightarrow>
               (case mysql_ssl_request_is_well_formed packet of
                  None \<Rightarrow> None
                | Some True \<Rightarrow> mysql_ssl_request_tail_is_plausible data frame_end
                | Some False \<Rightarrow>
                    do { ok \<leftarrow> mysql_client_packet_is_well_formed packet;
                         Some (ok \<and> frame_end = length data) })))"
| "mysql_ssl_request_tail_is_plausible data frame_end =
     (if frame_end > length data then Some False
      else if frame_end = length data then Some True
      else
        (case slice_from data frame_end of
           None \<Rightarrow> None
         | Some tail \<Rightarrow>
             (case looks_like_complete_tls_client_hello tail of
                None \<Rightarrow> None
              | Some True \<Rightarrow> Some True
              | Some False \<Rightarrow> looks_like_mysql_client_packet tail)))"
  by pat_completeness auto
termination
  by (relation "measure (\<lambda>x. case x of Inl data \<Rightarrow> 2 * length data + 1
        | Inr (data, frame_end) \<Rightarrow> 2 * (length data - frame_end) + 2)")
    (auto dest!: mysql.frame_bounds)

declare looks_like_mysql_client_packet.simps [simp del]
declare mysql_ssl_request_tail_is_plausible.simps [simp del]

lemma mysql_tails_wp:
  "wp (skip_to_nul tail) (\<lambda>_. True)" "wp (mysql_auth_tail cap_flags tail) (\<lambda>_. True)"
  "wp (mysql_plugin_tail tail) (\<lambda>_. True)" "wp (mysql_attrs_tail tail) (\<lambda>_. True)"
  unfolding skip_to_nul_def mysql_auth_tail_def mysql_plugin_tail_def mysql_attrs_tail_def
    mysql_connect_attrs_are_well_formed_def
  by (auto simp: wp_rules slice_Some_iff Suc_le_eq dest: position_Some_less
      intro!: wp_call [OF mysql_lenenc_wp] wp_call [OF mysql_connect_attrs_wp] split: list.split)

lemma mysql_handshake_41_wp: "wp (mysql_handshake_response_41_is_well_formed payload) (\<lambda>_. True)"
  unfolding mysql_handshake_response_41_is_well_formed_def Let_def
  by (auto simp: wp_rules dest!: position_Some_less intro!: wp_call [OF mysql_tails_wp(1)]
      wp_call [OF mysql_tails_wp(2)] wp_call [OF mysql_tails_wp(3)] wp_call [OF mysql_tails_wp(4)])

lemma mysql_client_packet_is_well_formed_wp:
  "4 \<le> length packet \<Longrightarrow> wp (mysql_client_packet_is_well_formed packet) (\<lambda>_. True)"
  unfolding mysql_client_packet_is_well_formed_def mysql_init_db_is_well_formed_def
    mysql_query_is_well_formed_def mysql_field_list_is_well_formed_def
    mysql_handshake_response_320_is_well_formed_def Let_def
  by (auto simp: wp_rules idx_Some_iff dest!: position_Some_less
      intro!: wp_call [OF mysql_handshake_41_wp])

lemma mysql_ssl_request_wp: "wp (mysql_ssl_request_is_well_formed data) (\<lambda>_. True)"
  unfolding mysql_ssl_request_is_well_formed_def Let_def by (auto simp: wp_rules)

lemma looks_like_mysql_wp [no_panic]:
  "wp (looks_like_mysql_client_packet data) (\<lambda>_. True)"
  "wp (mysql_ssl_request_tail_is_plausible data' e) (\<lambda>_. True)"
proof (induction data and data' e
    rule: looks_like_mysql_client_packet_mysql_ssl_request_tail_is_plausible.induct)
  case (1 data)
  then show ?case
    using wp_result [OF mysql_packet_end_wp, of data]
    by (subst looks_like_mysql_client_packet.simps)
      (auto simp: wp_rules slice_Some_iff wp_not_None [OF mysql_packet_end_wp]
        wp_not_None [OF mysql_ssl_request_wp] intro!: wp_call [OF mysql_client_packet_is_well_formed_wp]
        split: option.split bool.split)
next
  case (2 data e)
  then show ?case
    using wp_not_None [OF looks_like_tls_wp, of "drop e data"]
    by (subst mysql_ssl_request_tail_is_plausible.simps)
      (auto simp: wp_rules split: option.split bool.split)
qed

section \<open>PostgreSQL\<close>

definition POSTGRES_CANCEL_REQUEST :: u32 where "POSTGRES_CANCEL_REQUEST = 80877102"
definition POSTGRES_SSL_REQUEST :: u32 where "POSTGRES_SSL_REQUEST = 80877103"
definition POSTGRES_GSSENC_REQUEST :: u32 where "POSTGRES_GSSENC_REQUEST = 80877104"
definition POSTGRES_STARTUP_VERSION_3 :: u32 where "POSTGRES_STARTUP_VERSION_3 = 196608"

function postgres_startup_loop :: "bytes \<Rightarrow> usize \<Rightarrow> usize \<Rightarrow> bool rs" where
  "postgres_startup_loop params final_terminator pos =
     (if pos < final_terminator then
        (case slice params pos final_terminator of None \<Rightarrow> None | Some names \<Rightarrow>
        (case position (\<lambda>b. b = 0) names of None \<Rightarrow> Some False | Some name_len \<Rightarrow>
           if name_len = 0 then Some False
           else
             let pos1 = pos + (name_len + 1) in
             (case slice params pos1 final_terminator of None \<Rightarrow> None | Some vals \<Rightarrow>
             (case position (\<lambda>b. b = 0) vals of None \<Rightarrow> Some False | Some value_len \<Rightarrow>
                postgres_startup_loop params final_terminator (pos1 + (value_len + 1))))))
      else Some (pos = final_terminator))"
  by pat_completeness auto
termination
  by (relation "measure (\<lambda>(params, f, pos). f - pos)") auto

declare postgres_startup_loop.simps [simp del]

definition postgres_startup_parameters_are_complete :: "bytes \<Rightarrow> bool rs" where
  "postgres_startup_parameters_are_complete params =
     (if params = [] \<or> last params \<noteq> 0 then Some False
      else postgres_startup_loop params (length params - 1) 0)"

lemma postgres_startup_loop_wp:
  "f \<le> length params \<Longrightarrow> wp (postgres_startup_loop params f pos) (\<lambda>_. True)"
proof (induction params f pos rule: postgres_startup_loop.induct)
  case (1 params f pos)
  then show ?case
    by (subst postgres_startup_loop.simps)
      (auto simp: wp_rules Let_def slice_Some_iff dest: position_Some_less)
qed

definition looks_like_postgres_startup_message :: "bytes \<Rightarrow> bool rs" where
  "looks_like_postgres_startup_message data =
     (if length data < 8 then Some False
      else do {
        d0 \<leftarrow> idx data 0; d1 \<leftarrow> idx data 1; d2 \<leftarrow> idx data 2; d3 \<leftarrow> idx data 3;
        let len = unat (u32_be d0 d1 d2 d3) in
        if len > length data \<or> len < 8 then Some False
        else do {
          d4 \<leftarrow> idx data 4; d5 \<leftarrow> idx data 5; d6 \<leftarrow> idx data 6; d7 \<leftarrow> idx data 7;
          let version = u32_be d4 d5 d6 d7 in
          if version = POSTGRES_SSL_REQUEST then
            if len = 8 then
              if len = length data then Some True
              else do { tail \<leftarrow> slice_from data len; looks_like_complete_tls_client_hello tail }
            else Some False
          else if version = POSTGRES_GSSENC_REQUEST then Some (len = 8 \<and> len = length data)
          else if version \<noteq> POSTGRES_STARTUP_VERSION_3 then Some False
          else if len \<noteq> length data then Some False
          else do { params \<leftarrow> slice_from data 8; postgres_startup_parameters_are_complete params } } })"

definition looks_like_postgres_cancel_request :: "bytes \<Rightarrow> bool rs" where
  "looks_like_postgres_cancel_request data =
     (if length data \<noteq> 16 then Some False
      else do {
        d0 \<leftarrow> idx data 0; d1 \<leftarrow> idx data 1; d2 \<leftarrow> idx data 2; d3 \<leftarrow> idx data 3;
        d4 \<leftarrow> idx data 4; d5 \<leftarrow> idx data 5; d6 \<leftarrow> idx data 6; d7 \<leftarrow> idx data 7;
        Some (u32_be d0 d1 d2 d3 = 16 \<and> u32_be d4 d5 d6 d7 = POSTGRES_CANCEL_REQUEST) })"

definition postgres_consume_u16 :: "bytes \<Rightarrow> usize \<Rightarrow> (u16 \<times> usize) option rs" where
  "postgres_consume_u16 data pos =
     tryo (checked_add pos 2) (\<lambda>e.
     tryo (slice data pos e) (\<lambda>bs.
     do { b0 \<leftarrow> idx bs 0; b1 \<leftarrow> idx bs 1; Some (Some (u16_be b0 b1, e)) }))"

definition postgres_consume_nul_terminated_field :: "bytes \<Rightarrow> usize \<Rightarrow> usize option" where
  "postgres_consume_nul_terminated_field data pos =
     (case slice_from data pos of
        None \<Rightarrow> None
      | Some rest \<Rightarrow>
          (case position (\<lambda>b. b = 0) rest of
             None \<Rightarrow> None
           | Some field_len \<Rightarrow> checked_add pos (field_len + 1)))"

definition postgres_consume_format_codes :: "bytes \<Rightarrow> usize \<Rightarrow> usize option rs" where
  "postgres_consume_format_codes data pos =
     do { c \<leftarrow> postgres_consume_u16 data pos;
          tryo c (\<lambda>(count, pos).
            tryo (checked_mul (unat count) 2) (\<lambda>n.
            tryo (checked_add pos n) (\<lambda>e. Some (if e > length data then None else Some e)))) }"

fun postgres_values_loop :: "bytes \<Rightarrow> nat \<Rightarrow> usize \<Rightarrow> usize option rs" where
  "postgres_values_loop data 0 pos = Some (Some pos)"
| "postgres_values_loop data (Suc n) pos =
     tryo (checked_add pos 4) (\<lambda>length_end.
     tryo (slice data pos length_end) (\<lambda>bs.
       case (idx bs 0, idx bs 1, idx bs 2, idx bs 3) of
         (Some b0, Some b1, Some b2, Some b3) \<Rightarrow>
           let value_len = u32_be b0 b1 b2 b3 in
           if sint value_len < - 1 then Some None
           else if sint value_len \<ge> 0 then
             tryo (checked_add length_end (nat (sint value_len))) (\<lambda>value_end.
               if value_end > length data then Some None else postgres_values_loop data n value_end)
           else postgres_values_loop data n length_end
       | _ \<Rightarrow> None))"

definition postgres_consume_parameter_values :: "bytes \<Rightarrow> usize \<Rightarrow> usize option rs" where
  "postgres_consume_parameter_values data pos =
     do { c \<leftarrow> postgres_consume_u16 data pos;
          tryo c (\<lambda>(parameter_count, pos). postgres_values_loop data (unat parameter_count) pos) }"

definition postgres_nul_terminated_field_is_valid :: "bytes \<Rightarrow> bool rs" where
  "postgres_nul_terminated_field_is_valid v =
     (if v \<noteq> [] \<and> last v = 0 then do { head \<leftarrow> slice v 0 (length v - 1); Some (0 \<notin> set head) }
      else Some False)"

definition postgres_bind_message_body_is_valid :: "bytes \<Rightarrow> bool rs" where
  "postgres_bind_message_body_is_valid body =
     let_else (postgres_consume_nul_terminated_field body 0) False (\<lambda>pos.
     let_else (postgres_consume_nul_terminated_field body pos) False (\<lambda>pos.
     do { f \<leftarrow> postgres_consume_format_codes body pos;
          let_else f False (\<lambda>pos.
          do { v \<leftarrow> postgres_consume_parameter_values body pos;
               let_else v False (\<lambda>pos.
               do { g \<leftarrow> postgres_consume_format_codes body pos;
                    let_else g False (\<lambda>pos. Some (pos = length body)) }) }) }))"

definition postgres_function_call_body_is_valid :: "bytes \<Rightarrow> bool rs" where
  "postgres_function_call_body_is_valid body =
     (if length body \<ge> 4 then do {
        f \<leftarrow> postgres_consume_format_codes body 4;
        let_else f False (\<lambda>pos.
        do { v \<leftarrow> postgres_consume_parameter_values body pos;
             let_else v False (\<lambda>pos.
             do { g \<leftarrow> postgres_consume_format_codes body pos;
                  let_else g False (\<lambda>pos. Some (pos = length body)) }) }) }
      else Some False)"

definition postgres_parse_message_body_is_valid :: "bytes \<Rightarrow> bool rs" where
  "postgres_parse_message_body_is_valid body =
     let_else (postgres_consume_nul_terminated_field body 0) False (\<lambda>pos.
     let_else (postgres_consume_nul_terminated_field body pos) False (\<lambda>pos.
     let_else (checked_add pos 2) False (\<lambda>count_end.
     let_else (slice body pos count_end) False (\<lambda>bs.
     do { b0 \<leftarrow> idx bs 0; b1 \<leftarrow> idx bs 1;
          let_else (checked_mul (unat (u16_be b0 b1)) 4) False (\<lambda>parameter_bytes.
          Some (checked_add count_end parameter_bytes = Some (length body))) }))))"

definition postgres_typed_message_body_is_valid :: "u8 \<Rightarrow> bytes \<Rightarrow> bool rs" where
  "postgres_typed_message_body_is_valid tag body =
     (if tag = 0x50 then postgres_parse_message_body_is_valid body
      else if tag = 0x42 then postgres_bind_message_body_is_valid body
      else if tag = 0x44 \<or> tag = 0x43 then
        if idx body 0 = Some 0x53 \<or> idx body 0 = Some 0x50
        then do { rest \<leftarrow> slice_from body 1; postgres_nul_terminated_field_is_valid rest }
        else Some False
      else if tag = 0x45 then
        Some (case postgres_consume_nul_terminated_field body 0 of
                None \<Rightarrow> False | Some pos \<Rightarrow> checked_add pos 4 = Some (length body))
      else if tag = 0x46 then postgres_function_call_body_is_valid body
      else if tag = 0x51 then
        if body \<noteq> [] \<and> last body = 0 then do {
          q \<leftarrow> slice body 0 (length body - 1);
          Some (case from_utf8 q of None \<Rightarrow> False | Some query \<Rightarrow> 0 \<notin> set query) }
        else Some False
      else Some True)"

definition postgres_min_len :: "u8 \<Rightarrow> nat option" where
  "postgres_min_len tag =
     (if tag = 0x48 \<or> tag = 0x53 \<or> tag = 0x58 then Some 4
      else if tag = 0x44 \<or> tag = 0x43 then Some 6
      else if tag = 0x45 then Some 9
      else if tag = 0x50 \<or> tag = 0x42 then Some 8
      else if tag = 0x46 then Some 14
      else if tag = 0x51 then Some 5
      else None)"

definition postgres_typed_message_end :: "bytes \<Rightarrow> usize option rs" where
  "postgres_typed_message_end data =
     (if length data < 5 then Some None
      else do {
        d0 \<leftarrow> idx data 0; d1 \<leftarrow> idx data 1; d2 \<leftarrow> idx data 2; d3 \<leftarrow> idx data 3; d4 \<leftarrow> idx data 4;
        let msg_len = unat (u32_be d1 d2 d3 d4) in
        tryo (postgres_min_len d0) (\<lambda>min_len.
        tryo (checked_add msg_len 1) (\<lambda>frame_end.
          if msg_len < min_len \<or> frame_end > length data then Some None
          else do {
            body \<leftarrow> slice data 5 frame_end;
            ok \<leftarrow> postgres_typed_message_body_is_valid d0 body;
            Some (if ok then Some frame_end else None) })) })"

definition looks_like_postgres_typed_message :: "bytes \<Rightarrow> bool rs" where
  "looks_like_postgres_typed_message data =
     do { r \<leftarrow> postgres_typed_message_end data;
          let_else r False (\<lambda>frame_end. Some (frame_end = length data)) }"

lemma looks_like_postgres_startup_wp [no_panic]:
  "wp (looks_like_postgres_startup_message data) (\<lambda>_. True)"
  unfolding looks_like_postgres_startup_message_def postgres_startup_parameters_are_complete_def Let_def
  by (auto simp: wp_rules looks_like_tls_wp postgres_startup_loop_wp simp del: unat_u32_be)

lemma looks_like_postgres_cancel_wp [no_panic]:
  "wp (looks_like_postgres_cancel_request data) (\<lambda>_. True)"
  unfolding looks_like_postgres_cancel_request_def by (auto simp: wp_rules)

lemma postgres_consume_u16_wp:
  "wp (postgres_consume_u16 data pos) (\<lambda>r. \<forall>v e. r = Some (v, e) \<longrightarrow> e = pos + 2 \<and> e \<le> length data)"
  unfolding postgres_consume_u16_def
  by (auto simp: wp_rules slice_Some_iff)

lemma postgres_consume_format_codes_wp: "wp (postgres_consume_format_codes data pos) (\<lambda>_. True)"
  unfolding postgres_consume_format_codes_def Let_def
  by (auto simp: wp_rules intro!: wp_call [OF postgres_consume_u16_wp])

lemma postgres_values_loop_wp: "wp (postgres_values_loop data n pos) (\<lambda>_. True)"
  by (induction n arbitrary: pos) (auto simp: wp_rules Let_def slice_Some_iff)

lemma postgres_consume_parameter_values_wp: "wp (postgres_consume_parameter_values data pos) (\<lambda>_. True)"
  unfolding postgres_consume_parameter_values_def
  by (auto simp: wp_rules postgres_values_loop_wp intro!: wp_call [OF postgres_consume_u16_wp])

lemmas postgres_calls = wp_call [OF postgres_consume_format_codes_wp]
  wp_call [OF postgres_consume_parameter_values_wp]

lemma postgres_body_wp:
  "wp (postgres_typed_message_body_is_valid tag body) (\<lambda>_. True)"
  unfolding postgres_typed_message_body_is_valid_def postgres_bind_message_body_is_valid_def
    postgres_function_call_body_is_valid_def postgres_parse_message_body_is_valid_def
    postgres_nul_terminated_field_is_valid_def Let_def
  by (auto simp: wp_rules idx_Some_iff slice_Some_iff Suc_le_eq intro!: postgres_calls)

lemma postgres_typed_message_wp [no_panic]:
  "wp (postgres_typed_message_end data) (\<lambda>r. \<forall>e. r = Some e \<longrightarrow> 5 \<le> e \<and> e \<le> length data)"
proof -
  have "4 \<le> n" if "postgres_min_len tag = Some n" for tag n
    using that by (auto simp: postgres_min_len_def split: if_splits)
  then show ?thesis
    unfolding postgres_typed_message_end_def Let_def
    by (fastforce simp: wp_rules simp del: unat_u32_be intro!: wp_call [OF postgres_body_wp])
qed

lemma looks_like_postgres_typed_wp [no_panic]:
  "wp (looks_like_postgres_typed_message data) (\<lambda>_. True)"
  unfolding looks_like_postgres_typed_message_def
  by (auto simp: wp_rules intro!: wp_call [OF postgres_typed_message_wp])

interpretation postgres: frame_parser postgres_typed_message_end
  by unfold_locales (rule wp_call [OF postgres_typed_message_wp], auto)

end
