(* ===== verification/Taste_Records.thy ===== *)
theory Taste_Records
  imports Taste_Text
begin

text \<open>
  More detectors of \<open>heuristics.rs\<close> over one record or datagram: SSH version lines, SMB, RDP,
  TFTP, SOCKS, the Memcached binary protocol, NTP, CoAP, syslog and ident.
\<close>

section \<open>SSH\<close>

definition looks_like_ssh_client_version :: "bytes \<Rightarrow> bool rs" where
  "looks_like_ssh_client_version data =
     let_else (position (\<lambda>b. b = 0x0A) data) False (\<lambda>line_end.
       if line_end + 1 \<noteq> length data then Some False
       else let_else (slice data 0 line_end) False (\<lambda>line.
         let max_len = (if ends_with line [0x0D] then 253 else 254) in
         let_else (if ends_with line [0x0D] then slice line 0 (length line - 1) else Some line) False
           (\<lambda>line.
             if line = [] \<or> length line > max_len then Some False
             else let_else (from_utf8 line) False (\<lambda>line.
               let_else (if starts_with line (bstr ''SSH-2.0-'') then Some 8
                         else if starts_with line (bstr ''SSH-1.99-'') then Some 9 else None) False
                 (\<lambda>prefix_len.
                   do { software_version \<leftarrow> slice_from line prefix_len;
                        Some (software_version \<noteq> [] \<and> \<not> starts_with software_version [0x20] \<and>
                              list_all (\<lambda>b. 0x20 \<le> b \<and> b \<le> 0x7E) line) })))))"

lemma looks_like_ssh_wp [no_panic]: "wp (looks_like_ssh_client_version data) (\<lambda>_. True)"
  unfolding looks_like_ssh_client_version_def Let_def
  by (auto simp: wp_rules starts_with_def bstr_def split: if_splits)

section \<open>SMB\<close>

definition smb_netbios_frame :: "bytes \<Rightarrow> (bytes \<times> usize) option rs" where
  "smb_netbios_frame data =
     (if length data < 4 then Some None
      else do {
        d0 \<leftarrow> idx data 0; d1 \<leftarrow> idx data 1;
        if d0 \<noteq> 0x00 \<or> d1 AND 0xFE \<noteq> 0 then Some None
        else do {
          d2 \<leftarrow> idx data 2; d3 \<leftarrow> idx data 3;
          let payload_len = push_bit 16 (unat d1 AND 0x01) OR push_bit 8 (unat d2) OR unat d3 in
          if payload_len < 4 then Some None
          else tryo (checked_add 4 payload_len) (\<lambda>e.
            if e > length data then Some None
            else do { payload \<leftarrow> slice data 4 e; Some (Some (payload, e)) }) } })"

definition looks_like_direct_smb_payload :: "bytes \<Rightarrow> bool rs" where
  "looks_like_direct_smb_payload data =
     (if length data < 4 then Some False
      else do {
        magic \<leftarrow> slice data 0 4;
        if magic = 0xFF # bstr ''SMB'' then Some (length data \<ge> 36)
        else if magic = 0xFE # bstr ''SMB'' then
          if length data \<ge> 68 then do {
            d4 \<leftarrow> idx data 4; d5 \<leftarrow> idx data 5;
            d16 \<leftarrow> idx data 16; d17 \<leftarrow> idx data 17; d18 \<leftarrow> idx data 18; d19 \<leftarrow> idx data 19;
            Some (u16_le d4 d5 = 64 \<and> u32_le d16 d17 d18 d19 AND 0x00000001 = 0) }
          else Some False
        else Some False })"

definition looks_like_smb_message :: "bytes \<Rightarrow> bool rs" where
  "looks_like_smb_message data =
     do { r \<leftarrow> smb_netbios_frame data;
          case r of
            Some (payload, frame_end) \<Rightarrow>
              if frame_end = length data then looks_like_direct_smb_payload payload else Some False
          | None \<Rightarrow> looks_like_direct_smb_payload data }"

lemma smb_netbios_frame_wp [no_panic]:
  "wp (smb_netbios_frame data)
     (\<lambda>r. \<forall>p e. r = Some (p, e) \<longrightarrow> 8 \<le> e \<and> e \<le> length data \<and> length p = e - 4)"
  unfolding smb_netbios_frame_def Let_def by (auto simp: wp_rules)

lemma looks_like_direct_smb_wp [no_panic]: "wp (looks_like_direct_smb_payload data) (\<lambda>_. True)"
  unfolding looks_like_direct_smb_payload_def by (auto simp: wp_rules)

lemma looks_like_smb_wp [no_panic]: "wp (looks_like_smb_message data) (\<lambda>_. True)"
  unfolding looks_like_smb_message_def
  by (auto simp: wp_rules looks_like_direct_smb_wp intro!: wp_call [OF smb_netbios_frame_wp]
      split: option.split)

section \<open>RDP\<close>

definition rdp_tpkt_frame_end :: "bytes \<Rightarrow> usize option rs" where
  "rdp_tpkt_frame_end data =
     (if length data < 7 then Some None
      else do {
        d0 \<leftarrow> idx data 0; d1 \<leftarrow> idx data 1;
        if d0 \<noteq> 0x03 \<or> d1 \<noteq> 0x00 then Some None
        else do {
          d2 \<leftarrow> idx data 2; d3 \<leftarrow> idx data 3;
          let tpkt_len = unat (u16_be d2 d3) in
          if tpkt_len < 7 \<or> tpkt_len > length data then Some None
          else do {
            frame \<leftarrow> slice data 0 tpkt_len;
            f4 \<leftarrow> idx frame 4;
            let x224_len = unat f4 in
            if x224_len < 2 \<or> 5 + x224_len \<noteq> length frame then Some None
            else do {
              f5 \<leftarrow> idx frame 5;
              let valid = (if drop_bit 4 f5 = 0x0E then idx frame 10 = Some 0x00
                           else drop_bit 4 f5 = 0x0F) in
              Some (if valid then Some tpkt_len else None) } } } })"

definition looks_like_rdp_tpkt :: "bytes \<Rightarrow> bool rs" where
  "looks_like_rdp_tpkt data =
     do { r \<leftarrow> rdp_tpkt_frame_end data;
          let_else r False (\<lambda>frame_end. Some (frame_end = length data)) }"

lemma rdp_tpkt_frame_wp [no_panic]:
  "wp (rdp_tpkt_frame_end data) (\<lambda>r. \<forall>e. r = Some e \<longrightarrow> 7 \<le> e \<and> e \<le> length data)"
  unfolding rdp_tpkt_frame_end_def Let_def by (auto simp: wp_rules)

lemma looks_like_rdp_wp [no_panic]: "wp (looks_like_rdp_tpkt data) (\<lambda>_. True)"
  unfolding looks_like_rdp_tpkt_def by (auto simp: wp_rules intro!: wp_call [OF rdp_tpkt_frame_wp])

section \<open>TFTP\<close>

definition TFTP_MAX_CONTROL_PACKET_BYTES :: nat where
  "TFTP_MAX_CONTROL_PACKET_BYTES = 65535 - 8"

definition tftp_text_field_is_safe :: "bytes \<Rightarrow> bool" where
  "tftp_text_field_is_safe v \<longleftrightarrow> list_all (\<lambda>b. \<not> is_ascii_control b \<and> is_ascii b) v"

text \<open>The fields are printable ASCII here, on which \<open>String::from_utf8_lossy\<close> is the identity.\<close>

lemma tftp_safe_is_utf8: "tftp_text_field_is_safe v \<Longrightarrow> from_utf8 v = Some v"
  by (simp add: tftp_text_field_is_safe_def from_utf8_def list_all_iff is_ascii_def word_less_nat_alt
      utf8_decode_ascii)

fun tftp_options_loop :: "bytes list \<Rightarrow> bytes list \<Rightarrow> bool" where
  "tftp_options_loop (name # v # rest) names =
     (if name = [] \<or> v = [] then False
      else
        let normalized_name = to_ascii_lowercase name in
        if normalized_name \<in> set names then False
        else tftp_options_loop rest (normalized_name # names))"
| "tftp_options_loop _ names = True"

definition tftp_options_are_well_formed :: "bytes list \<Rightarrow> bool" where
  "tftp_options_are_well_formed parts = tftp_options_loop parts []"

text \<open>The NUL-separated fields, without the empty piece after the last NUL.\<close>

definition tftp_fields :: "bytes \<Rightarrow> bytes list" where
  "tftp_fields body =
     (let pieces = split_on (\<lambda>b. b = 0) body
      in if last pieces = [] then butlast pieces else pieces)"

definition looks_like_tftp_request :: "bytes \<Rightarrow> bool rs" where
  "looks_like_tftp_request data =
     (if length data < 6 \<or> length data > TFTP_MAX_CONTROL_PACKET_BYTES \<or> \<not> ends_with data [0]
      then Some False
      else do {
        d0 \<leftarrow> idx data 0; d1 \<leftarrow> idx data 1;
        if u16_be d0 d1 \<noteq> 1 \<and> u16_be d0 d1 \<noteq> 2 then Some False
        else do {
          body \<leftarrow> slice_from data 2;
          let parts = tftp_fields body in
          if length parts < 2 then Some False
          else do {
            p0 \<leftarrow> idx parts 0; p1 \<leftarrow> idx parts 1;
            if p0 = [] \<or> p1 = [] \<or> length parts mod 2 \<noteq> 0 then Some False
            else if \<not> list_all tftp_text_field_is_safe parts then Some False
            else if starts_with p0 [0x2F] \<or> starts_with p0 [0x5C] \<or> 0x3A \<in> set p0 then Some False
            else if list_ex (\<lambda>seg. seg = bstr ''.'' \<or> seg = bstr ''..'')
                      (split_on (\<lambda>b. b = 0x2F \<or> b = 0x5C) p0) then Some False
            else do {
              options \<leftarrow> slice_from parts 2;
              if \<not> tftp_options_are_well_formed options then Some False
              else Some (one_of (to_ascii_lowercase p1) [''netascii'', ''octet'', ''mail'']) } } } })"

lemma looks_like_tftp_wp [no_panic]: "wp (looks_like_tftp_request data) (\<lambda>_. True)"
  unfolding looks_like_tftp_request_def Let_def by (auto simp: wp_rules)

section \<open>SOCKS\<close>

definition socks_port_is_present :: "bytes \<Rightarrow> usize \<Rightarrow> bool" where
  "socks_port_is_present data offset \<longleftrightarrow> slice data offset (offset + 2) \<noteq> None"

definition socks5_ipv4_is_usable :: "ipv4 \<Rightarrow> bool" where
  "socks5_ipv4_is_usable ip \<longleftrightarrow>
     \<not> v4_is_unspecified ip \<and> \<not> v4_is_loopback ip \<and> \<not> v4_is_multicast ip \<and> \<not> v4_is_broadcast ip"

definition socks5_ipv6_is_usable :: "ipv6 \<Rightarrow> bool" where
  "socks5_ipv6_is_usable ip =
     (case to_ipv4_mapped ip of
        Some mapped \<Rightarrow> socks5_ipv4_is_usable mapped
      | None \<Rightarrow> \<not> v6_is_unspecified ip \<and> \<not> v6_is_loopback ip \<and> \<not> v6_is_multicast ip)"

definition socks_domain_name_is_valid :: "bytes \<Rightarrow> bool" where
  "socks_domain_name_is_valid raw =
     (case from_utf8 raw of
        None \<Rightarrow> False
      | Some domain \<Rightarrow>
          let domain = (case strip_suffix domain [0x2E] of Some d \<Rightarrow> d | None \<Rightarrow> domain) in
          domain \<noteq> [] \<and> length domain \<le> 253 \<and>
          list_all (\<lambda>b. is_ascii_alphanumeric b \<or> b = 0x2E \<or> b = 0x2D) domain \<and>
          list_all (\<lambda>label. label \<noteq> [] \<and> length label \<le> 63 \<and> \<not> starts_with label [0x2D] \<and>
              \<not> ends_with label [0x2D]) (dot_labels domain) \<and>
          \<not> list_all (\<lambda>label. list_all is_ascii_digit label) (dot_labels domain))"

definition looks_like_socks4_request :: "bytes \<Rightarrow> bool rs" where
  "looks_like_socks4_request data =
     (if length data < 9 then Some False
      else do {
        d1 \<leftarrow> idx data 1;
        if d1 \<noteq> 0x01 \<and> d1 \<noteq> 0x02 then Some False
        else if \<not> socks_port_is_present data 2 then Some False
        else do {
          user \<leftarrow> slice_from data 8;
          let_else (position (\<lambda>b. b = 0) user) False (\<lambda>user_end.
          do { after_user \<leftarrow> slice_from data (8 + user_end + 1);
               d4 \<leftarrow> idx data 4; d5 \<leftarrow> idx data 5; d6 \<leftarrow> idx data 6; d7 \<leftarrow> idx data 7;
               let is_socks4a = (d4 = 0 \<and> d5 = 0 \<and> d6 = 0 \<and> d7 \<noteq> 0) in
               if \<not> is_socks4a \<and> \<not> socks5_ipv4_is_usable (Ipv4 d4 d5 d6 d7) then Some False
               else if \<not> is_socks4a then Some (after_user = [])
               else let_else (position (\<lambda>b. b = 0) after_user) False (\<lambda>domain_end.
                 if domain_end + 1 = length after_user
                 then do { domain \<leftarrow> slice after_user 0 domain_end;
                           Some (socks_domain_name_is_valid domain) }
                 else Some False) }) } })"

definition socks5_greeting_len :: "bytes \<Rightarrow> usize option rs" where
  "socks5_greeting_len data =
     (if length data < 3 \<or> data = [0x05, 0x00] then Some None
      else do {
        d1 \<leftarrow> idx data 1;
        let nmethods = unat d1 in
        if nmethods = 0 then Some None
        else tryo (checked_add 2 nmethods) (\<lambda>greeting_len.
          Some (map_option (\<lambda>_. greeting_len) (slice data 2 greeting_len))) })"

definition socks5_request_is_well_formed :: "bytes \<Rightarrow> bool rs" where
  "socks5_request_is_well_formed data =
     (if length data < 7 then Some False
      else do {
        d1 \<leftarrow> idx data 1; d2 \<leftarrow> idx data 2;
        if d2 \<noteq> 0 \<or> \<not> (0x01 \<le> d1 \<and> d1 \<le> 0x03) then Some False
        else do {
          d3 \<leftarrow> idx data 3;
          if d3 = 0x01 then
            if length data = 10 \<and> socks_port_is_present data 8 then do {
              d4 \<leftarrow> idx data 4; d5 \<leftarrow> idx data 5; d6 \<leftarrow> idx data 6; d7 \<leftarrow> idx data 7;
              Some (socks5_ipv4_is_usable (Ipv4 d4 d5 d6 d7)) }
            else Some False
          else if d3 = 0x03 then do {
            d4 \<leftarrow> idx data 4;
            let domain_len = unat d4 in
            let_else (checked_add 7 domain_len) False (\<lambda>total_len.
              if domain_len > 0 \<and> length data = total_len \<and> socks_port_is_present data (5 + domain_len)
              then do { domain \<leftarrow> slice data 5 (5 + domain_len);
                        Some (socks_domain_name_is_valid domain) }
              else Some False) }
          else if d3 = 0x04 then
            if length data \<noteq> 22 \<or> \<not> socks_port_is_present data 20 then Some False
            else do { octets \<leftarrow> slice data 4 20; Some (socks5_ipv6_is_usable (ipv6_from_octets octets)) }
          else Some False } })"

definition looks_like_socks5_message :: "bytes \<Rightarrow> bool rs" where
  "looks_like_socks5_message data =
     do { g \<leftarrow> socks5_greeting_len data;
          if (case g of None \<Rightarrow> False | Some greeting_len \<Rightarrow> greeting_len = length data) then Some True
          else socks5_request_is_well_formed data }"

definition looks_like_socks_message :: "bytes \<Rightarrow> bool rs" where
  "looks_like_socks_message data =
     (case idx data 0 of
        None \<Rightarrow> Some False
      | Some v \<Rightarrow>
          if v = 0x04 then looks_like_socks4_request data
          else if v = 0x05 then looks_like_socks5_message data
          else Some False)"

lemma looks_like_socks4_wp: "wp (looks_like_socks4_request data) (\<lambda>_. True)"
  unfolding looks_like_socks4_request_def Let_def
  by (auto simp: wp_rules dest!: position_Some_less)

lemma socks5_greeting_wp:
  "wp (socks5_greeting_len data) (\<lambda>r. \<forall>e. r = Some e \<longrightarrow> 3 \<le> e \<and> e \<le> length data)"
  unfolding socks5_greeting_len_def Let_def
  by (auto simp: wp_rules slice_Some_iff Suc_le_eq word_gt_0)

lemma socks5_request_wp: "wp (socks5_request_is_well_formed data) (\<lambda>_. True)"
  unfolding socks5_request_is_well_formed_def Let_def
  by (auto simp: wp_rules)

lemma looks_like_socks_wp [no_panic]: "wp (looks_like_socks_message data) (\<lambda>_. True)"
  unfolding looks_like_socks_message_def looks_like_socks5_message_def
  by (auto simp: wp_rules looks_like_socks4_wp socks5_request_wp intro!: wp_call [OF socks5_greeting_wp])

section \<open>Memcached binary protocol\<close>

definition MAX_MEMCACHED_KEY_BYTES :: nat where
  "MAX_MEMCACHED_KEY_BYTES = 250"

definition memcached_binary_opcode_is_known :: "u8 \<Rightarrow> bool" where
  "memcached_binary_opcode_is_known opcode \<longleftrightarrow> opcode \<le> 0x1E"

definition memcached_binary_request_shape_is_valid :: "u8 \<Rightarrow> usize \<Rightarrow> usize \<Rightarrow> usize \<Rightarrow> bool" where
  "memcached_binary_request_shape_is_valid opcode extras_len key_len body_len =
     (case (case checked_add extras_len key_len of
              Some metadata_len \<Rightarrow>
                if metadata_len \<le> body_len then Some (body_len - metadata_len) else None
            | None \<Rightarrow> None) of
        None \<Rightarrow> False
      | Some value_len \<Rightarrow>
          let key_ok = (1 \<le> key_len \<and> key_len \<le> MAX_MEMCACHED_KEY_BYTES) in
          if opcode \<in> {0x00, 0x04, 0x09, 0x0C, 0x0D, 0x14} then
            extras_len = 0 \<and> key_ok \<and> value_len = 0
          else if opcode \<in> {0x01, 0x02, 0x03, 0x11, 0x12, 0x13} then extras_len = 8 \<and> key_ok
          else if opcode \<in> {0x05, 0x06, 0x15, 0x16} then extras_len = 20 \<and> key_ok \<and> value_len = 0
          else if opcode \<in> {0x07, 0x0A, 0x0B, 0x17} then
            extras_len = 0 \<and> key_len = 0 \<and> value_len = 0
          else if opcode \<in> {0x08, 0x18} then
            (extras_len = 0 \<or> extras_len = 4) \<and> key_len = 0 \<and> value_len = 0
          else if opcode \<in> {0x0E, 0x0F, 0x19, 0x1A} then extras_len = 0 \<and> key_ok
          else if opcode = 0x10 then extras_len = 0 \<and> key_len = 0 \<and> value_len = 0
          else if opcode = 0x1B then extras_len = 4 \<and> key_len = 0 \<and> value_len = 0
          else if 0x1C \<le> opcode \<and> opcode \<le> 0x1E then extras_len = 4 \<and> key_ok \<and> value_len = 0
          else False)"

definition memcached_unknown_binary_request_shape_is_valid :: "usize \<Rightarrow> usize \<Rightarrow> usize \<Rightarrow> bool" where
  "memcached_unknown_binary_request_shape_is_valid extras_len key_len body_len =
     (case checked_add extras_len key_len of
        None \<Rightarrow> False
      | Some metadata_len \<Rightarrow> metadata_len \<le> body_len \<and> key_len \<le> MAX_MEMCACHED_KEY_BYTES)"

definition memcached_binary_request_end :: "bytes \<Rightarrow> usize option rs" where
  "memcached_binary_request_end data =
     (if length data < 24 then Some None
      else do {
        d0 \<leftarrow> idx data 0;
        if d0 \<noteq> 0x80 then Some None
        else do {
          d5 \<leftarrow> idx data 5; d6 \<leftarrow> idx data 6; d7 \<leftarrow> idx data 7;
          if d5 \<noteq> 0 \<or> d6 \<noteq> 0 \<or> d7 \<noteq> 0 then Some None
          else do {
            d2 \<leftarrow> idx data 2; d3 \<leftarrow> idx data 3; d4 \<leftarrow> idx data 4;
            d8 \<leftarrow> idx data 8; d9 \<leftarrow> idx data 9; d10 \<leftarrow> idx data 10; d11 \<leftarrow> idx data 11;
            let key_len = unat (u16_be d2 d3);
                extras_len = unat d4;
                body_len = unat (u32_be d8 d9 d10 d11)
            in tryo (checked_add 24 body_len) (\<lambda>total_len.
              if total_len > length data then Some None
              else do {
                opcode \<leftarrow> idx data 1;
                let valid_shape =
                  (if memcached_binary_opcode_is_known opcode
                   then memcached_binary_request_shape_is_valid opcode extras_len key_len body_len
                   else memcached_unknown_binary_request_shape_is_valid extras_len key_len body_len)
                in Some (if valid_shape then Some total_len else None) }) } } })"

definition looks_like_memcached_binary_request :: "bytes \<Rightarrow> bool rs" where
  "looks_like_memcached_binary_request data =
     do { r \<leftarrow> memcached_binary_request_end data;
          let_else r False (\<lambda>request_end. Some (request_end = length data)) }"

lemma memcached_binary_wp [no_panic]:
  "wp (memcached_binary_request_end data) (\<lambda>r. \<forall>e. r = Some e \<longrightarrow> 24 \<le> e \<and> e \<le> length data)"
  unfolding memcached_binary_request_end_def Let_def by (auto simp: wp_rules simp del: unat_u32_be)

lemma looks_like_memcached_binary_wp [no_panic]:
  "wp (looks_like_memcached_binary_request data) (\<lambda>_. True)"
  unfolding looks_like_memcached_binary_request_def
  by (auto simp: wp_rules intro!: wp_call [OF memcached_binary_wp])

section \<open>NTP\<close>

definition looks_like_ntp_client_request :: "bytes \<Rightarrow> bool rs" where
  "looks_like_ntp_client_request data =
     (if length data < 48 \<or> length data mod 4 \<noteq> 0 then Some False
      else do {
        d0 \<leftarrow> idx data 0;
        let version = drop_bit 3 d0 AND 0x07;
            mode = d0 AND 0x07
        in Some (3 \<le> version \<and> version \<le> 4 \<and> mode = 3) })"

lemma looks_like_ntp_wp [no_panic]: "wp (looks_like_ntp_client_request data) (\<lambda>_. True)"
  unfolding looks_like_ntp_client_request_def Let_def by (auto simp: wp_rules)

section \<open>CoAP\<close>

text \<open>The updated position is returned next to the result.\<close>

definition read_coap_option_component :: "u8 \<Rightarrow> bytes \<Rightarrow> usize \<Rightarrow> (usize \<times> usize) option rs" where
  "read_coap_option_component nibble data pos =
     (if nibble \<le> 12 then Some (Some (unat nibble, pos))
      else if nibble = 13 then
        tryo (idx data pos) (\<lambda>v. Some (Some (13 + unat v, pos + 1)))
      else if nibble = 14 then
        tryo (checked_add pos 2) (\<lambda>e.
        tryo (slice data pos e) (\<lambda>bs.
          do { b0 \<leftarrow> idx bs 0; b1 \<leftarrow> idx bs 1; Some (Some (269 + unat (u16_be b0 b1), pos + 2)) }))
      else Some None)"

lemma read_coap_option_wp:
  "wp (read_coap_option_component nibble data pos) (\<lambda>r. \<forall>v p. r = Some (v, p) \<longrightarrow> pos \<le> p)"
  unfolding read_coap_option_component_def
  by (auto simp: wp_rules dest!: length_slice)

function coap_options_loop :: "bytes \<Rightarrow> usize \<Rightarrow> bool rs" where
  "coap_options_loop data pos =
     (if pos < length data then
        (case idx data pos of
           None \<Rightarrow> None
         | Some header \<Rightarrow>
             if header = 0xFF then Some (pos + 1 < length data)
             else
               (case read_coap_option_component (drop_bit 4 header) data (pos + 1) of
                  None \<Rightarrow> None
                | Some None \<Rightarrow> Some False
                | Some (Some (_, pos1)) \<Rightarrow>
                    (case read_coap_option_component (header AND 0x0F) data pos1 of
                       None \<Rightarrow> None
                     | Some None \<Rightarrow> Some False
                     | Some (Some (option_len, pos2)) \<Rightarrow>
                         (case checked_add pos2 option_len of
                            None \<Rightarrow> Some False
                          | Some next_pos \<Rightarrow>
                              if next_pos > length data then Some False
                              else coap_options_loop data next_pos))))
      else Some True)"
  by pat_completeness auto

lemma read_coap_option_advances:
  "read_coap_option_component nibble data pos = Some (Some (v, p)) \<Longrightarrow> pos \<le> p"
  using wp_result [OF read_coap_option_wp] by blast

termination coap_options_loop
  by (relation "measure (\<lambda>(data, pos). length data - pos)")
    (auto dest!: read_coap_option_advances)

declare coap_options_loop.simps [simp del]

lemma coap_options_loop_wp: "wp (coap_options_loop data pos) (\<lambda>_. True)"
proof (induction data pos rule: coap_options_loop.induct)
  case (1 data pos)
  then show ?case
    by (subst coap_options_loop.simps)
      (auto simp: wp_rules wp_not_None [OF read_coap_option_wp] split: option.split)
qed

definition coap_options_are_well_formed :: "bytes \<Rightarrow> bool rs" where
  "coap_options_are_well_formed data = coap_options_loop data 0"

definition looks_like_plain_coap_request :: "bytes \<Rightarrow> bool rs" where
  "looks_like_plain_coap_request data =
     (if length data < 4 then Some False
      else do {
        d0 \<leftarrow> idx data 0;
        if drop_bit 6 d0 \<noteq> 1 then Some False
        else do {
          d1 \<leftarrow> idx data 1;
          let msg_type = drop_bit 4 d0 AND 0x03;
              tkl = unat (d0 AND 0x0F);
              code_class = drop_bit 5 d1;
              code_detail = d1 AND 0x1F
          in if msg_type = 0 \<and> code_class = 0 \<and> code_detail = 0 then Some (tkl = 0 \<and> length data = 4)
             else if code_class = 0 \<and> code_detail = 0 then
               Some (tkl = 0 \<and> length data = 4 \<and> (msg_type = 2 \<or> msg_type = 3))
             else let_else (checked_add 4 tkl) False (\<lambda>options_start.
               if msg_type \<le> 1 \<and> tkl \<le> 8 \<and> length data \<ge> options_start \<and> code_class = 0 \<and>
                  1 \<le> code_detail \<and> code_detail \<le> 31
               then do { options \<leftarrow> slice_from data options_start; coap_options_are_well_formed options }
               else Some False) } })"

lemma looks_like_coap_wp [no_panic]: "wp (looks_like_plain_coap_request data) (\<lambda>_. True)"
  unfolding looks_like_plain_coap_request_def Let_def coap_options_are_well_formed_def
  by (auto simp: wp_rules coap_options_loop_wp)

section \<open>Syslog and ident\<close>

definition MAX_SYSLOG_PACKET_BYTES :: nat where
  "MAX_SYSLOG_PACKET_BYTES = 1024"

definition syslog_tail_is_present :: "bytes \<Rightarrow> usize \<Rightarrow> bool" where
  "syslog_tail_is_present data e =
     (case slice_from data (e + 1) of None \<Rightarrow> False | Some tail \<Rightarrow> tail \<noteq> [])"

definition looks_like_bsd_syslog_timestamp :: "bytes \<Rightarrow> bool rs" where
  "looks_like_bsd_syslog_timestamp data =
     (if length data > 15 \<and>
         list_ex (\<lambda>month. starts_with data (bstr month))
           [''Jan'', ''Feb'', ''Mar'', ''Apr'', ''May'', ''Jun'', ''Jul'', ''Aug'', ''Sep'', ''Oct'', ''Nov'', ''Dec'']
      then do {
        d3 \<leftarrow> idx data 3; d4 \<leftarrow> idx data 4; d5 \<leftarrow> idx data 5; d6 \<leftarrow> idx data 6; d7 \<leftarrow> idx data 7;
        d8 \<leftarrow> idx data 8; d9 \<leftarrow> idx data 9; d10 \<leftarrow> idx data 10; d11 \<leftarrow> idx data 11; d12 \<leftarrow> idx data 12;
        d13 \<leftarrow> idx data 13; d14 \<leftarrow> idx data 14; d15 \<leftarrow> idx data 15;
        Some (d3 = 0x20 \<and> (d4 = 0x20 \<or> is_ascii_digit d4) \<and> is_ascii_digit d5 \<and> d6 = 0x20 \<and>
              is_ascii_digit d7 \<and> is_ascii_digit d8 \<and> d9 = 0x3A \<and> is_ascii_digit d10 \<and>
              is_ascii_digit d11 \<and> d12 = 0x3A \<and> is_ascii_digit d13 \<and> is_ascii_digit d14 \<and> d15 = 0x20) }
      else Some False)"

definition looks_like_syslog_pri :: "bytes \<Rightarrow> bool rs" where
  "looks_like_syslog_pri packet =
     (if length packet > MAX_SYSLOG_PACKET_BYTES then Some False
      else let_else (case strip_suffix packet CRLF of
                       Some d \<Rightarrow> Some d
                     | None \<Rightarrow> if ends_with packet [0x0D] \<or> ends_with packet [0x0A] then None else Some packet)
        False (\<lambda>data.
          if list_ex (\<lambda>b. b = 0 \<or> b = 0x0D \<or> b = 0x0A) data then Some False
          else if idx data 0 \<noteq> Some 0x3C then looks_like_bsd_syslog_timestamp data
          else let_else (position (\<lambda>b. b = 0x3E) (take 6 data)) False (\<lambda>e.
            if e \<le> 1 then Some False
            else do {
              pri \<leftarrow> slice data 1 e;
              if length pri > 3 \<or> \<not> list_all is_ascii_digit pri \<or>
                 (length pri > 1 \<and> idx pri 0 = Some 0x30)
              then Some (syslog_tail_is_present data e)
              else
                (case from_utf8 pri of
                   None \<Rightarrow> Some (syslog_tail_is_present data e)
                 | Some pri_text \<Rightarrow>
                     (case parse_digits 65535 pri_text of
                        None \<Rightarrow> Some (syslog_tail_is_present data e)
                      | Some pri \<Rightarrow>
                          if pri > 191 then Some (syslog_tail_is_present data e)
                          else Some (syslog_tail_is_present data e))) })))"

lemma looks_like_bsd_syslog_wp: "wp (looks_like_bsd_syslog_timestamp data) (\<lambda>_. True)"
  unfolding looks_like_bsd_syslog_timestamp_def by (auto simp: wp_rules)

lemma looks_like_syslog_wp [no_panic]: "wp (looks_like_syslog_pri data) (\<lambda>_. True)"
  unfolding looks_like_syslog_pri_def
  by (auto simp: wp_rules looks_like_bsd_syslog_wp dest!: position_Some_less)

definition ident_port_text_is_valid :: "bytes \<Rightarrow> bool" where
  "ident_port_text_is_valid v =
     (if v = [] \<or> \<not> list_all is_ascii_digit v then False
      else (case parse_digits 65535 v of None \<Rightarrow> False | Some port \<Rightarrow> port \<noteq> 0))"

end
