(* ===== verification/Taste_Ber.thy ===== *)
theory Taste_Ber
  imports Taste_Text
begin

text \<open>
  The BER reader of \<open>heuristics.rs\<close> and the two detectors built on it, LDAP and SNMP. A reader
  that advances \<open>&mut pos\<close> returns the new position next to its value. The contract of a
  reader is a locale, in two strengths: below a limit inside the data the value it returns lies
  inside the limit and the position moves forward (\<open>bounded_tlv_reader\<close>), and a reader that checks
  the limit itself may be called with any limit (\<open>tlv_reader\<close>). This is what the loops over
  consecutive values need.
\<close>

section \<open>Lengths and values\<close>

definition ber_length :: "bytes \<Rightarrow> (usize \<times> usize) option rs" where
  "ber_length data =
     tryo (idx data 0) (\<lambda>first.
       if first AND 0x80 = 0 then Some (Some (unat first, 1))
       else
         let len_bytes = unat (first AND 0x7F) in
         if len_bytes = 0 \<or> len_bytes > 4 \<or> length data < 1 + len_bytes then Some None
         else do {
           d1 \<leftarrow> idx data 1;
           if len_bytes = 1 \<and> d1 < 128 \<or> len_bytes \<noteq> 1 \<and> d1 = 0 then Some None
           else do {
             bs \<leftarrow> slice data 1 (1 + len_bytes);
             Some (Some (foldl (\<lambda>len b. push_bit 8 len OR unat b) 0 bs, 1 + len_bytes)) } })"

definition read_ber_tlv :: "bytes \<Rightarrow> usize \<Rightarrow> usize \<Rightarrow> u8 \<Rightarrow> (bytes \<times> usize) option rs" where
  "read_ber_tlv data pos limit expected_tag =
     (if limit > length data \<or> pos \<ge> limit then Some None
      else do {
        tag \<leftarrow> idx data pos;
        if tag \<noteq> expected_tag then Some None
        else do {
          let_bytes \<leftarrow> slice data (pos + 1) limit;
          l \<leftarrow> ber_length let_bytes;
          tryo l (\<lambda>(len, len_bytes).
            let pos = pos + 1 + len_bytes in
            tryo (checked_add pos len) (\<lambda>e.
              if e > limit then Some None
              else do { v \<leftarrow> slice data pos e; Some (Some (v, e)) })) } })"

lemma ber_length_wp [no_panic]:
  "wp (ber_length data) (\<lambda>r. \<forall>len n. r = Some (len, n) \<longrightarrow> 1 \<le> n \<and> n \<le> length data)"
  unfolding ber_length_def Let_def by (auto simp: wp_rules idx_Some_iff Suc_le_eq)

text \<open>A reader of one element below a limit inside the data. The element lies below the limit and
  is longer than its value.\<close>

locale bounded_tlv_reader =
  fixes read_tlv :: "bytes \<Rightarrow> usize \<Rightarrow> usize \<Rightarrow> u8 \<Rightarrow> (bytes \<times> usize) option rs"
  assumes bounded_wp: "limit \<le> length data \<Longrightarrow> wp (read_tlv data pos limit tag)
    (\<lambda>r. \<forall>v e. r = Some (v, e) \<longrightarrow> pos < e \<and> e \<le> limit \<and> length v < e - pos)"
begin

lemma bounded_total: "limit \<le> length data \<Longrightarrow> read_tlv data pos limit tag \<noteq> None"
  using wp_not_None [OF bounded_wp] .

lemma bounded_advances:
  "limit \<le> length data \<Longrightarrow> read_tlv data pos limit tag = Some (Some (v, e)) \<Longrightarrow>
   pos < e \<and> e \<le> limit \<and> length v < e - pos"
  using wp_result [OF bounded_wp] by blast

lemma bounded_read_wp:
  "limit \<le> length data \<Longrightarrow>
   (\<And>v e. pos < e \<Longrightarrow> e \<le> limit \<Longrightarrow> length v < e - pos \<Longrightarrow> P (Some (v, e))) \<Longrightarrow> P None \<Longrightarrow>
   wp (read_tlv data pos limit tag) P"
  by (rule wp_call [OF bounded_wp], assumption) (metis not_None_eq surj_pair)

end

text \<open>A reader that also checks the limit itself.\<close>

locale tlv_reader = bounded_tlv_reader +
  assumes checks_limit: "length data < limit \<Longrightarrow> read_tlv data pos limit tag = Some None"
begin

lemma read_tlv_wp: "wp (read_tlv data pos limit tag)
    (\<lambda>r. \<forall>v e. r = Some (v, e) \<longrightarrow> pos < e \<and> e \<le> limit \<and> limit \<le> length data)"
proof (cases "limit \<le> length data")
  case True
  then show ?thesis by (rule wp_call [OF bounded_wp]) (use True in auto)
next
  case False
  then show ?thesis by (simp add: checks_limit wp_rules)
qed

lemma read_advances:
  "read_tlv data pos limit tag = Some (Some (v, e)) \<Longrightarrow> pos < e \<and> e \<le> limit \<and> limit \<le> length data"
  using wp_result [OF read_tlv_wp] by blast

lemma read_wp:
  "(\<And>v e. pos < e \<Longrightarrow> e \<le> limit \<Longrightarrow> limit \<le> length data \<Longrightarrow> P (Some (v, e))) \<Longrightarrow> P None \<Longrightarrow>
   wp (read_tlv data pos limit tag) P"
  by (rule wp_call [OF read_tlv_wp]) (metis not_None_eq surj_pair)

lemma read_total: "read_tlv data pos limit tag \<noteq> None"
  using wp_not_None [OF read_tlv_wp] .

end

interpretation ber: tlv_reader read_ber_tlv
proof
  show "wp (read_ber_tlv data pos limit tag)
      (\<lambda>r. \<forall>v e. r = Some (v, e) \<longrightarrow> pos < e \<and> e \<le> limit \<and> length v < e - pos)"
    if "limit \<le> length data" for data pos limit tag
    unfolding read_ber_tlv_def Let_def
    by (auto simp: wp_rules intro!: wp_call [OF ber_length_wp])
  show "read_ber_tlv data pos limit tag = Some None" if "length data < limit" for data pos limit tag
    using that by (simp add: read_ber_tlv_def)
qed

section \<open>LDAP\<close>

definition ldap_message_id_is_valid :: "bytes \<Rightarrow> bool rs" where
  "ldap_message_id_is_valid v =
     (if v = [] \<or> length v > 4 then Some False
      else do {
        v0 \<leftarrow> idx v 0;
        if v0 AND 0x80 \<noteq> 0 then Some False
        else do {
          padded \<leftarrow> (if length v > 1 \<and> v0 = 0x00 then do { v1 \<leftarrow> idx v 1; Some (v1 AND 0x80 = 0) }
                     else Some False);
          if padded then Some False else Some (list_ex (\<lambda>b. b \<noteq> 0) v) } })"

definition ldap_control_is_plausible :: "bytes \<Rightarrow> bool rs" where
  "ldap_control_is_plausible data =
     do { r \<leftarrow> read_ber_tlv data 0 (length data) 0x04;
          let_else r False (\<lambda>(control_type, pos).
            if control_type = [] then Some False
            else if pos = length data then Some True
            else do {
              tag \<leftarrow> idx data pos;
              crit \<leftarrow> (if tag = 0x01 then do {
                  c \<leftarrow> read_ber_tlv data pos (length data) 0x01;
                  Some (case c of
                          None \<Rightarrow> Inl False
                        | Some (criticality, pos) \<Rightarrow>
                            if length criticality \<noteq> 1 then Inl False
                            else if pos = length data then Inl True
                            else Inr pos) }
                else Some (Inr pos));
              (case crit of
                 Inl b \<Rightarrow> Some b
               | Inr pos \<Rightarrow> do {
                   v \<leftarrow> read_ber_tlv data pos (length data) 0x04;
                   Some (case v of None \<Rightarrow> False | Some (_, pos) \<Rightarrow> pos = length data) }) }) }"

function ldap_controls_loop :: "bytes \<Rightarrow> usize \<Rightarrow> bool rs" where
  "ldap_controls_loop data pos =
     (if pos < length data then
        (case read_ber_tlv data pos (length data) 0x30 of
           None \<Rightarrow> None
         | Some None \<Rightarrow> Some False
         | Some (Some (control, pos')) \<Rightarrow>
             (case ldap_control_is_plausible control of
                None \<Rightarrow> None
              | Some False \<Rightarrow> Some False
              | Some True \<Rightarrow> ldap_controls_loop data pos'))
      else Some True)"
  by pat_completeness auto
termination
  by (relation "measure (\<lambda>(data, pos). length data - pos)") (auto dest!: ber.read_advances)

declare ldap_controls_loop.simps [simp del]

definition ldap_controls_are_plausible :: "bytes \<Rightarrow> bool rs" where
  "ldap_controls_are_plausible data = ldap_controls_loop data 0"

definition ldap_message_tail_is_plausible :: "bytes \<Rightarrow> usize \<Rightarrow> usize \<Rightarrow> bool rs" where
  "ldap_message_tail_is_plausible data tail_start seq_end =
     (if tail_start = seq_end then Some True
      else if tail_start \<ge> seq_end then Some False
      else do {
        t \<leftarrow> idx data tail_start;
        if t \<noteq> 0xA0 then Some False
        else do {
          body \<leftarrow> slice data (tail_start + 1) seq_end;
          l \<leftarrow> ber_length body;
          let_else l False (\<lambda>(controls_len, controls_len_bytes).
            let pos = tail_start + 1 + controls_len_bytes in
            let_else (checked_add pos controls_len) False (\<lambda>controls_end.
              if controls_end = seq_end
              then do { controls \<leftarrow> slice data pos controls_end; ldap_controls_are_plausible controls }
              else Some False)) } })"

definition ldap_sasl_auth_choice_is_plausible :: "bytes \<Rightarrow> bool rs" where
  "ldap_sasl_auth_choice_is_plausible v =
     do { r \<leftarrow> read_ber_tlv v 0 (length v) 0x04;
          let_else r False (\<lambda>(mechanism, pos).
            if mechanism = [] \<or> from_utf8 mechanism = None then Some False
            else if pos = length v then Some True
            else do {
              c \<leftarrow> read_ber_tlv v pos (length v) 0x04;
              Some (case c of None \<Rightarrow> False | Some (_, pos) \<Rightarrow> pos = length v) }) }"

definition ldap_bind_request_is_plausible :: "bytes \<Rightarrow> bool rs" where
  "ldap_bind_request_is_plausible v =
     do { r \<leftarrow> read_ber_tlv v 0 (length v) 0x02;
          let_else r False (\<lambda>(version, pos).
          do { ok \<leftarrow> ldap_message_id_is_valid version;
               if \<not> ok then Some False
               else do {
                 n \<leftarrow> read_ber_tlv v pos (length v) 0x04;
                 let_else n False (\<lambda>(_, pos).
                 let_else (idx v pos) False (\<lambda>tag.
                   if tag \<noteq> 0x80 \<and> tag \<noteq> 0xA3 then Some False
                   else do {
                     body \<leftarrow> slice_from v (pos + 1);
                     l \<leftarrow> ber_length body;
                     let_else l False (\<lambda>(auth_len, auth_len_bytes).
                       let pos = pos + 1 + auth_len_bytes in
                       let_else (checked_add pos auth_len) False (\<lambda>auth_end.
                         if auth_end \<noteq> length v then Some False
                         else if tag = 0x80 then Some True
                         else do { a \<leftarrow> slice v pos auth_end; ldap_sasl_auth_choice_is_plausible a })) })) } }) }"

definition ldap_app_tag_offset :: "bytes \<Rightarrow> usize option rs" where
  "ldap_app_tag_offset data =
     (if length data < 7 then Some None
      else do {
        d0 \<leftarrow> idx data 0;
        if d0 \<noteq> 0x30 then Some None
        else do {
          body \<leftarrow> slice_from data 1;
          l \<leftarrow> ber_length body;
          tryo l (\<lambda>(seq_len, seq_len_bytes).
          tryo (checked_add 1 seq_len_bytes) (\<lambda>msg_id_pos.
          tryo (checked_add msg_id_pos seq_len) (\<lambda>seq_end.
            if seq_end \<noteq> length data \<or> msg_id_pos \<ge> seq_end then Some None
            else do {
              m \<leftarrow> idx data msg_id_pos;
              if m \<noteq> 0x02 then Some None
              else
                let id_len_pos = msg_id_pos + 1 in
                do {
                  idb \<leftarrow> slice data id_len_pos seq_end;
                  il \<leftarrow> ber_length idb;
                  tryo il (\<lambda>(id_len, id_len_bytes).
                    if id_len = 0 \<or> id_len > 4 then Some None
                    else
                      tryo (checked_add id_len_pos id_len_bytes) (\<lambda>id_start.
                      tryo (checked_add id_start id_len) (\<lambda>id_end.
                        if id_end > seq_end then Some None
                        else do {
                          mid \<leftarrow> slice data id_start id_end;
                          ok \<leftarrow> ldap_message_id_is_valid mid;
                          if \<not> ok then Some None
                          else
                            let app_tag_pos = id_end in
                            if app_tag_pos \<ge> seq_end then Some None
                            else do {
                              app \<leftarrow> idx data app_tag_pos;
                              if app \<notin> {0x60, 0x63, 0x42} then Some None
                              else do {
                                opb \<leftarrow> slice data (app_tag_pos + 1) seq_end;
                                ol \<leftarrow> ber_length opb;
                                tryo ol (\<lambda>(op_len, op_len_bytes).
                                  let op_start = app_tag_pos + 1 + op_len_bytes in
                                  tryo (checked_add op_start op_len) (\<lambda>op_end.
                                    if op_end > seq_end then Some None
                                    else do {
                                      tail_ok \<leftarrow> ldap_message_tail_is_plausible data op_end seq_end;
                                      if \<not> tail_ok then Some None
                                      else if app = 0x60 then
                                        if op_len = 0 then Some None
                                        else do {
                                          op \<leftarrow> slice data op_start op_end;
                                          bind_ok \<leftarrow> ldap_bind_request_is_plausible op;
                                          Some (if bind_ok then Some app_tag_pos else None) }
                                      else if app = 0x63 \<and> op_len = 0 then Some None
                                      else Some (Some app_tag_pos) })) } } }))) } }))) } })"

lemma ldap_message_id_wp: "wp (ldap_message_id_is_valid v) (\<lambda>_. True)"
  unfolding ldap_message_id_is_valid_def by (auto simp: wp_rules)

lemma ldap_control_wp: "wp (ldap_control_is_plausible data) (\<lambda>_. True)"
  unfolding ldap_control_is_plausible_def
  by (auto simp: wp_rules intro!: ber.read_wp split: option.split sum.split)

lemma ldap_controls_loop_wp: "wp (ldap_controls_loop data pos) (\<lambda>_. True)"
proof (induction data pos rule: ldap_controls_loop.induct)
  case (1 data pos)
  then show ?case
    by (subst ldap_controls_loop.simps)
      (auto simp: wp_rules ber.read_total wp_not_None [OF ldap_control_wp]
        split: option.split bool.split)
qed

lemma ldap_message_tail_wp:
  "seq_end \<le> length data \<Longrightarrow> wp (ldap_message_tail_is_plausible data tail_start seq_end) (\<lambda>_. True)"
  unfolding ldap_message_tail_is_plausible_def ldap_controls_are_plausible_def Let_def
  by (auto simp: wp_rules ldap_controls_loop_wp intro!: wp_call [OF ber_length_wp])

lemma ldap_sasl_wp: "wp (ldap_sasl_auth_choice_is_plausible v) (\<lambda>_. True)"
  unfolding ldap_sasl_auth_choice_is_plausible_def
  by (auto simp: wp_rules intro!: ber.read_wp)

lemma ldap_bind_request_wp: "wp (ldap_bind_request_is_plausible v) (\<lambda>_. True)"
  unfolding ldap_bind_request_is_plausible_def Let_def
  by (auto simp: wp_rules ldap_sasl_wp idx_Some_iff
      intro!: ber.read_wp wp_call [OF ber_length_wp] wp_call [OF ldap_message_id_wp])

lemma ldap_app_tag_offset_wp [no_panic]:
  "wp (ldap_app_tag_offset data) (\<lambda>r. \<forall>p. r = Some p \<longrightarrow> p < length data)"
  unfolding ldap_app_tag_offset_def Let_def
  by (auto simp: wp_rules intro!: wp_call [OF ber_length_wp] wp_call [OF ldap_message_id_wp]
      wp_call [OF ldap_message_tail_wp] wp_call [OF ldap_bind_request_wp])

section \<open>SNMP\<close>

definition MAX_SNMP_COMMUNITY_BYTES :: nat where
  "MAX_SNMP_COMMUNITY_BYTES = 1024"

definition snmp_zero_integer_is_valid :: "bytes \<Rightarrow> bool" where
  "snmp_zero_integer_is_valid v \<longleftrightarrow> v = [0]"

definition snmp_canonical_integer_is_valid :: "bytes \<Rightarrow> bool rs" where
  "snmp_canonical_integer_is_valid v =
     (if v = [] \<or> length v > 4 then Some False
      else if length v = 1 then do { v0 \<leftarrow> idx v 0; Some (v0 AND 0x80 = 0) }
      else do {
        v0 \<leftarrow> idx v 0; v1 \<leftarrow> idx v 1;
        if v0 = 0x00 \<and> v1 AND 0x80 = 0 then Some False
        else if v0 = 0xFF \<and> v1 AND 0x80 \<noteq> 0 then Some False
        else Some True })"

definition snmp_nonnegative_canonical_integer_is_valid :: "bytes \<Rightarrow> bool rs" where
  "snmp_nonnegative_canonical_integer_is_valid v =
     do { ok \<leftarrow> snmp_canonical_integer_is_valid v;
          Some (ok \<and> (case idx v 0 of None \<Rightarrow> False | Some b \<Rightarrow> b AND 0x80 = 0)) }"

text \<open>The check of the error status and of the error index (max-repetitions for \<open>GetBulk\<close>).\<close>

definition snmp_error_field_is_valid :: "u8 \<Rightarrow> bytes \<Rightarrow> bool rs" where
  "snmp_error_field_is_valid pdu_tag v =
     (if pdu_tag \<noteq> 0xA5 then Some (snmp_zero_integer_is_valid v)
      else snmp_nonnegative_canonical_integer_is_valid v)"

definition snmp_pdu_is_well_formed :: "u8 \<Rightarrow> bytes \<Rightarrow> bool rs" where
  "snmp_pdu_is_well_formed pdu_tag pdu =
     do { r \<leftarrow> read_ber_tlv pdu 0 (length pdu) 0x02;
          let_else r False (\<lambda>(request_id, pos).
          do { ok \<leftarrow> snmp_canonical_integer_is_valid request_id;
               if \<not> ok then Some False
               else do {
                 s \<leftarrow> read_ber_tlv pdu pos (length pdu) 0x02;
                 let_else s False (\<lambda>(error_status, pos).
                 do { ok \<leftarrow> snmp_error_field_is_valid pdu_tag error_status;
                      if \<not> ok then Some False
                      else do {
                        i \<leftarrow> read_ber_tlv pdu pos (length pdu) 0x02;
                        let_else i False (\<lambda>(error_index, pos).
                        do { ok \<leftarrow> snmp_error_field_is_valid pdu_tag error_index;
                             if \<not> ok then Some False
                             else do {
                               v \<leftarrow> read_ber_tlv pdu pos (length pdu) 0x30;
                               Some (case v of None \<Rightarrow> False | Some (_, pos) \<Rightarrow> pos = length pdu) } }) } }) } }) }"

definition looks_like_snmp_request :: "bytes \<Rightarrow> bool rs" where
  "looks_like_snmp_request data =
     (if length data < 10 then Some False
      else do {
        d0 \<leftarrow> idx data 0;
        if d0 \<noteq> 0x30 then Some False
        else do {
          r \<leftarrow> read_ber_tlv data 0 (length data) 0x30;
          let_else r False (\<lambda>(message, pos).
            if pos \<noteq> length data then Some False
            else do {
              rv \<leftarrow> read_ber_tlv message 0 (length message) 0x02;
              let_else rv False (\<lambda>(version, msg_pos).
                if version \<noteq> [0] \<and> version \<noteq> [1] then Some False
                else do {
                  rc \<leftarrow> read_ber_tlv message msg_pos (length message) 0x04;
                  let_else rc False (\<lambda>(community, msg_pos).
                    if length community > MAX_SNMP_COMMUNITY_BYTES then Some False
                    else let_else (idx message msg_pos) False (\<lambda>pdu_tag.
                      if pdu_tag \<notin> {0xA0, 0xA1, 0xA3, 0xA5} then Some False
                      else if pdu_tag = 0xA5 \<and> version = [0] then Some False
                      else do {
                        body \<leftarrow> slice_from message (msg_pos + 1);
                        l \<leftarrow> ber_length body;
                        let_else l False (\<lambda>(pdu_len, pdu_len_bytes).
                          let msg_pos = msg_pos + 1 + pdu_len_bytes in
                          let_else (checked_add msg_pos pdu_len) False (\<lambda>pdu_end.
                            if pdu_end > length message then Some False
                            else do {
                              pdu \<leftarrow> slice message msg_pos pdu_end;
                              if pdu_end \<noteq> length message then Some False
                              else snmp_pdu_is_well_formed pdu_tag pdu })) })) }) }) } })"

lemma snmp_canonical_wp: "wp (snmp_canonical_integer_is_valid v) (\<lambda>_. True)"
  unfolding snmp_canonical_integer_is_valid_def by (cases v) (auto simp: wp_rules)

lemma snmp_error_field_wp: "wp (snmp_error_field_is_valid pdu_tag v) (\<lambda>_. True)"
  unfolding snmp_error_field_is_valid_def snmp_nonnegative_canonical_integer_is_valid_def
  by (auto simp: wp_rules intro!: wp_call [OF snmp_canonical_wp])

lemma snmp_pdu_wp: "wp (snmp_pdu_is_well_formed pdu_tag pdu) (\<lambda>_. True)"
  unfolding snmp_pdu_is_well_formed_def
  by (auto simp: wp_rules intro!: ber.read_wp wp_call [OF snmp_canonical_wp]
      wp_call [OF snmp_error_field_wp])

lemma looks_like_snmp_wp [no_panic]: "wp (looks_like_snmp_request data) (\<lambda>_. True)"
  unfolding looks_like_snmp_request_def Let_def
  by (auto simp: wp_rules snmp_pdu_wp idx_Some_iff intro!: ber.read_wp wp_call [OF ber_length_wp])

end
