(* ===== verification/Taste_Mqtt.thy ===== *)
theory Taste_Mqtt
  imports Taste_Text
begin

text \<open>
  The MQTT detector, \<open>nettrap-proxy/src/taste/mqtt.rs\<close>: the remaining-length field, CONNECT,
  PUBLISH, PUBREL, SUBSCRIBE, UNSUBSCRIBE and DISCONNECT packets with their property lists.

  A reader that advances \<open>pos: &mut usize\<close> and returns a \<open>bool\<close> is a function from a position
  to \<open>usize option\<close>: \<open>Some\<close> of the new position for \<open>true\<close>, \<open>None\<close> for \<open>false\<close> (every caller gives
  up at once on \<open>false\<close>, so the position it leaves behind is never read).

  The source writes the same \<open>while pos < data.len()\<close> loop for each property list and topic list.
  \<open>mqtt_scan\<close> is that loop; its body is a parameter. The locale \<open>scan_body\<close> says what makes the
  loop end without a panic (every round that continues moves forward) and is interpreted on each
  of the eight loop bodies.
\<close>

section \<open>Variable-length integers\<close>

definition MQTT_MAX_PACKET_BYTES :: nat where
  "MQTT_MAX_PACKET_BYTES = 1024 * 1024"

definition MQTT_MAX_VARIABLE_BYTE_INTEGER :: nat where
  "MQTT_MAX_VARIABLE_BYTE_INTEGER = 268435455"

fun mqtt_encoded_len_loop :: "nat \<Rightarrow> nat \<Rightarrow> nat" where
  "mqtt_encoded_len_loop v len =
     (if v \<ge> 128 then mqtt_encoded_len_loop (v div 128) (len + 1) else len)"

declare mqtt_encoded_len_loop.simps [simp del]

definition mqtt_remaining_length_encoded_len :: "nat \<Rightarrow> nat" where
  "mqtt_remaining_length_encoded_len v = mqtt_encoded_len_loop v 1"

fun mqtt_remaining_length_loop ::
    "bytes \<Rightarrow> nat list \<Rightarrow> nat \<Rightarrow> nat \<Rightarrow> (usize \<times> usize) option rs" where
  "mqtt_remaining_length_loop data [] multiplier v = Some None"
| "mqtt_remaining_length_loop data (bytes_read # rest) multiplier v =
     (if bytes_read \<ge> length data then Some None
      else case idx data bytes_read of
        None \<Rightarrow> None
      | Some byte \<Rightarrow>
          tryo (checked_mul (unat (byte AND 0x7F)) multiplier) (\<lambda>part.
          tryo (checked_add v part) (\<lambda>v.
            if byte AND 0x80 = 0 then
              if mqtt_remaining_length_encoded_len v \<noteq> bytes_read then Some None
              else Some (Some (v, bytes_read + 1))
            else
              tryo (checked_mul multiplier 128) (\<lambda>multiplier.
                mqtt_remaining_length_loop data rest multiplier v))))"

definition mqtt_remaining_length :: "bytes \<Rightarrow> (usize \<times> usize) option rs" where
  "mqtt_remaining_length data = mqtt_remaining_length_loop data [1, 2, 3, 4] 1 0"

text \<open>The result carries the new position as well: value, bytes consumed, position.\<close>

function mqtt_variable_int_loop ::
    "bytes \<Rightarrow> usize \<Rightarrow> nat \<Rightarrow> nat \<Rightarrow> nat \<Rightarrow> (usize \<times> usize \<times> usize) option rs" where
  "mqtt_variable_int_loop data pos multiplier v consumed =
     (if consumed < 4 then
        tryo (idx data (pos + consumed)) (\<lambda>byte.
        let consumed1 = consumed + 1 in
        tryo (checked_mul (unat (byte AND 0x7F)) multiplier) (\<lambda>part.
        tryo (checked_add v part) (\<lambda>v.
          if byte AND 0x80 = 0 then
            if v > MQTT_MAX_VARIABLE_BYTE_INTEGER
               \<or> mqtt_remaining_length_encoded_len v \<noteq> consumed1 then Some None
            else Some (Some (v, consumed1, pos + consumed1))
          else
            tryo (checked_mul multiplier 128) (\<lambda>multiplier.
              mqtt_variable_int_loop data pos multiplier v consumed1))))
      else Some None)"
  by pat_completeness auto
termination
  by (relation "measure (\<lambda>(data, pos, m, v, consumed). 4 - consumed)") auto

declare mqtt_variable_int_loop.simps [simp del]

definition mqtt_read_variable_int :: "bytes \<Rightarrow> usize \<Rightarrow> (usize \<times> usize \<times> usize) option rs" where
  "mqtt_read_variable_int data pos = mqtt_variable_int_loop data pos 1 0 0"

lemma mqtt_remaining_length_loop_wp:
  "wp (mqtt_remaining_length_loop data ns m v)
     (\<lambda>r. \<forall>l s. r = Some (l, s) \<longrightarrow> s \<le> length data \<and> (\<exists>n \<in> set ns. s = n + 1))"
proof (induction ns arbitrary: m v)
  case (Cons n ns)
  show ?case
    by (auto simp: wp_rules Suc_le_eq intro!: wp_call [OF Cons.IH])
qed (simp add: wp_rules)

lemma mqtt_remaining_length_wp [no_panic]:
  "wp (mqtt_remaining_length data)
     (\<lambda>r. \<forall>l s. r = Some (l, s) \<longrightarrow> s \<le> length data \<and> 2 \<le> s)"
  unfolding mqtt_remaining_length_def
  by (rule wp_call [OF mqtt_remaining_length_loop_wp]) auto

lemma mqtt_variable_int_loop_wp:
  "wp (mqtt_variable_int_loop data pos m v c)
     (\<lambda>r. \<forall>l n p. r = Some (l, n, p) \<longrightarrow> pos < p \<and> p \<le> length data \<and> 0 < n)"
proof (induction data pos m v c rule: mqtt_variable_int_loop.induct)
  case (1 data pos m v c)
  show ?case
    by (subst mqtt_variable_int_loop.simps)
      (auto simp: wp_rules idx_Some_iff intro!: wp_call [OF "1.IH"])
qed

lemma mqtt_read_variable_int_wp [no_panic]:
  "wp (mqtt_read_variable_int data pos)
     (\<lambda>r. \<forall>l n p. r = Some (l, n, p) \<longrightarrow> pos < p \<and> p \<le> length data \<and> 0 < n)"
  unfolding mqtt_read_variable_int_def by (rule mqtt_variable_int_loop_wp)

section \<open>Strings\<close>

definition mqtt_utf8_string_is_valid :: "bytes \<Rightarrow> bool" where
  "mqtt_utf8_string_is_valid v \<longleftrightarrow>
     list_all (\<lambda>ch.
       \<not> (ch \<le> 0x1F \<or> (0x7F \<le> ch \<and> ch \<le> 0x9F) \<or> (0xFDD0 \<le> ch \<and> ch \<le> 0xFDEF)
          \<or> ch = 0xFFFE \<or> ch = 0xFFFF)
       \<and> ch AND 0xFFFE \<noteq> 0xFFFE) (chars v)"

definition mqtt_publish_topic_is_valid :: "bytes \<Rightarrow> bool" where
  "mqtt_publish_topic_is_valid v \<longleftrightarrow>
     v \<noteq> [] \<and> mqtt_utf8_string_is_valid v \<and> \<not> (0x2B \<in> set v \<or> 0x23 \<in> set v)"

definition mqtt_subscribe_topic_filter_is_valid :: "bytes \<Rightarrow> bool rs" where
  "mqtt_subscribe_topic_filter_is_valid v =
     (if v = [] \<or> \<not> mqtt_utf8_string_is_valid v then Some False
      else if length (filter (\<lambda>b. b = 0x23) v) > 1 then Some False
      else do {
        hash_ok \<leftarrow> (case position (\<lambda>b. b = 0x23) v of
            None \<Rightarrow> Some True
          | Some hash_pos \<Rightarrow>
              if hash_pos + 1 \<noteq> length v then Some False
              else if hash_pos > 0 then do { b \<leftarrow> idx v (hash_pos - 1); Some (b = 0x2F) }
              else Some True);
        if \<not> hash_ok then Some False
        else Some (list_all (\<lambda>level. 0x2B \<notin> set level \<or> level = [0x2B])
               (split_on (\<lambda>b. b = 0x2F) v)) })"

definition mqtt_read_mqtt_string :: "bytes \<Rightarrow> usize \<Rightarrow> usize option rs" where
  "mqtt_read_mqtt_string data pos =
     tryo (checked_add pos 2) (\<lambda>e.
     tryo (slice data pos e) (\<lambda>len_bytes.
     do { b0 \<leftarrow> idx len_bytes 0; b1 \<leftarrow> idx len_bytes 1;
          let len = unat (u16_be b0 b1) in
          tryo (checked_add e len) (\<lambda>e2.
          tryo (slice data e e2) (\<lambda>v. Some (Some e2))) }))"

definition mqtt_read_mqtt_utf8_string :: "bytes \<Rightarrow> usize \<Rightarrow> usize option rs" where
  "mqtt_read_mqtt_utf8_string data start =
     do { r \<leftarrow> mqtt_read_mqtt_string data start;
          tryo r (\<lambda>pos. do {
            v \<leftarrow> slice data start pos;
            v \<leftarrow> slice_from v 2;
            Some (case from_utf8 v of
                None \<Rightarrow> None
              | Some s \<Rightarrow> if mqtt_utf8_string_is_valid s then Some pos else None) }) }"

definition mqtt_consume_fixed_len :: "bytes \<Rightarrow> usize \<Rightarrow> usize \<Rightarrow> usize option" where
  "mqtt_consume_fixed_len data pos len =
     (case checked_add pos len of
        None \<Rightarrow> None
      | Some e \<Rightarrow> if e > length data then None else Some e)"

definition mqtt_consume_utf8_pair :: "bytes \<Rightarrow> usize \<Rightarrow> usize option rs" where
  "mqtt_consume_utf8_pair data pos =
     do { r \<leftarrow> mqtt_read_mqtt_utf8_string data pos;
          tryo r (\<lambda>pos. mqtt_read_mqtt_utf8_string data pos) }"

lemma mqtt_subscribe_topic_filter_wp: "wp (mqtt_subscribe_topic_filter_is_valid v) (\<lambda>_. True)"
  unfolding mqtt_subscribe_topic_filter_is_valid_def
  by (auto simp: wp_rules dest: position_Some_less)

lemma mqtt_read_mqtt_string_wp [no_panic]:
  "wp (mqtt_read_mqtt_string data pos) (\<lambda>r. \<forall>p. r = Some p \<longrightarrow> pos + 2 \<le> p \<and> p \<le> length data)"
  unfolding mqtt_read_mqtt_string_def Let_def
  by (auto simp: wp_rules slice_Some_iff)

lemma mqtt_read_mqtt_utf8_string_wp [no_panic]:
  "wp (mqtt_read_mqtt_utf8_string data pos) (\<lambda>r. \<forall>p. r = Some p \<longrightarrow> pos + 2 \<le> p \<and> p \<le> length data)"
  unfolding mqtt_read_mqtt_utf8_string_def
  by (auto simp: wp_rules intro!: wp_call [OF mqtt_read_mqtt_string_wp] split: option.splits)

lemma mqtt_consume_utf8_pair_wp [no_panic]:
  "wp (mqtt_consume_utf8_pair data pos) (\<lambda>r. \<forall>p. r = Some p \<longrightarrow> pos + 4 \<le> p \<and> p \<le> length data)"
  unfolding mqtt_consume_utf8_pair_def
  by (auto simp: wp_rules intro!: wp_call [OF mqtt_read_mqtt_utf8_string_wp])

lemma mqtt_consume_fixed_len_Some [in_bounds]:
  "mqtt_consume_fixed_len data pos len = Some p \<Longrightarrow> p = pos + len \<and> p \<le> length data"
  by (auto simp: mqtt_consume_fixed_len_def split: option.splits if_splits)

section \<open>Property lists and topic lists\<close>

partial_function (option) mqtt_scan ::
    "(bytes \<Rightarrow> usize \<Rightarrow> 's \<Rightarrow> (usize \<times> 's) option rs) \<Rightarrow> bytes \<Rightarrow> usize \<Rightarrow> 's \<Rightarrow> 's option rs" where
  "mqtt_scan body data pos st =
     (if pos < length data then
        (case body data pos st of
           None \<Rightarrow> None
         | Some None \<Rightarrow> Some None
         | Some (Some (pos, st)) \<Rightarrow> mqtt_scan body data pos st)
      else Some (Some st))"

definition mqtt_all :: "(bytes \<Rightarrow> usize \<Rightarrow> 's \<Rightarrow> (usize \<times> 's) option rs) \<Rightarrow> 's \<Rightarrow> bytes \<Rightarrow> bool rs" where
  "mqtt_all body st data = do { r \<leftarrow> mqtt_scan body data 0 st; Some (r \<noteq> None) }"

locale scan_body =
  fixes body :: "bytes \<Rightarrow> usize \<Rightarrow> 's \<Rightarrow> (usize \<times> 's) option rs"
  assumes body_wp:
    "pos < length data \<Longrightarrow> wp (body data pos st) (\<lambda>r. \<forall>p s. r = Some (p, s) \<longrightarrow> pos < p)"
begin

lemma scan_invariant:
  assumes step: "\<And>pos st p s. I st \<Longrightarrow> body data pos st = Some (Some (p, s)) \<Longrightarrow> I s" and "I st"
  shows "wp (mqtt_scan body data pos st) (\<lambda>r. \<forall>s. r = Some s \<longrightarrow> I s)"
  using assms(2)
proof (induction "length data - pos" arbitrary: pos st rule: less_induct)
  case less
  show ?case
    using wp_not_None [OF body_wp, of pos data st] wp_result [OF body_wp, of pos data st]
    by (subst mqtt_scan.simps)
      (auto simp: wp_rules less.prems intro!: less.hyps step [OF less.prems] split: option.split)
qed

lemma scan_wp: "wp (mqtt_scan body data pos st) (\<lambda>_. True)"
  by (rule wp_call [OF scan_invariant [where I = "\<lambda>_. True"]]) auto

lemma all_wp: "wp (mqtt_all body st data) (\<lambda>_. True)"
  unfolding mqtt_all_def
  by (auto simp: wp_rules intro!: wp_call [OF scan_wp])

end

record mqtt_property_state =
  session_expiry_interval :: bool
  receive_maximum :: bool
  maximum_packet_size :: bool
  topic_alias_maximum :: bool
  request_response_information :: bool
  request_problem_information :: bool
  authentication_method :: bool
  authentication_data :: bool
  will_delay_interval :: bool
  payload_format_indicator :: bool
  message_expiry_interval :: bool
  content_type :: bool
  response_topic :: bool
  correlation_data :: bool

definition mqtt_property_state_default :: mqtt_property_state where
  "mqtt_property_state_default =
     \<lparr>session_expiry_interval = False, receive_maximum = False, maximum_packet_size = False,
      topic_alias_maximum = False, request_response_information = False,
      request_problem_information = False, authentication_method = False,
      authentication_data = False, will_delay_interval = False, payload_format_indicator = False,
      message_expiry_interval = False, content_type = False, response_topic = False,
      correlation_data = False\<rparr>"

text \<open>One property that may occur once: rejected when seen before or when its value does not
  parse, otherwise the scan continues behind it in the state that records it.\<close>

definition once :: "bool \<Rightarrow> usize option rs \<Rightarrow> 's \<Rightarrow> (usize \<times> 's) option rs" where
  "once seen read st =
     (if seen then Some None
      else do { r \<leftarrow> read; tryo r (\<lambda>pos. Some (Some (pos, st))) })"

lemma wp_once [wp_rules]:
  "wp (once seen read st) P \<longleftrightarrow>
     (seen \<longrightarrow> P None) \<and>
     (\<not> seen \<longrightarrow> wp read (\<lambda>r. case r of None \<Rightarrow> P None | Some pos \<Rightarrow> P (Some (pos, st))))"
  by (cases read; cases "the read") (auto simp: once_def wp_def)

definition mqtt_connect_property ::
    "bytes \<Rightarrow> usize \<Rightarrow> mqtt_property_state \<Rightarrow> (usize \<times> mqtt_property_state) option rs" where
  "mqtt_connect_property properties pos st =
     do { property_id \<leftarrow> idx properties pos;
          let pos = pos + 1 in
          if property_id = 0x11 then
            once (session_expiry_interval st) (Some (mqtt_consume_fixed_len properties pos 4))
              (st\<lparr>session_expiry_interval := True\<rparr>)
          else if property_id = 0x21 then
            once (receive_maximum st) (Some (mqtt_consume_fixed_len properties pos 2))
              (st\<lparr>receive_maximum := True\<rparr>)
          else if property_id = 0x27 then
            once (maximum_packet_size st) (Some (mqtt_consume_fixed_len properties pos 4))
              (st\<lparr>maximum_packet_size := True\<rparr>)
          else if property_id = 0x22 then
            once (topic_alias_maximum st) (Some (mqtt_consume_fixed_len properties pos 2))
              (st\<lparr>topic_alias_maximum := True\<rparr>)
          else if property_id = 0x19 then
            once (request_response_information st) (Some (mqtt_consume_fixed_len properties pos 1))
              (st\<lparr>request_response_information := True\<rparr>)
          else if property_id = 0x17 then
            once (request_problem_information st) (Some (mqtt_consume_fixed_len properties pos 1))
              (st\<lparr>request_problem_information := True\<rparr>)
          else if property_id = 0x26 then
            once False (mqtt_consume_utf8_pair properties pos) st
          else if property_id = 0x15 then
            once (authentication_method st) (mqtt_read_mqtt_utf8_string properties pos)
              (st\<lparr>authentication_method := True\<rparr>)
          else if property_id = 0x16 then
            once (authentication_data st) (mqtt_read_mqtt_string properties pos)
              (st\<lparr>authentication_data := True\<rparr>)
          else Some None }"

definition mqtt_connect_properties_are_well_formed :: "bytes \<Rightarrow> bool rs" where
  "mqtt_connect_properties_are_well_formed =
     mqtt_all mqtt_connect_property mqtt_property_state_default"

definition mqtt_will_property ::
    "bytes \<Rightarrow> usize \<Rightarrow> mqtt_property_state \<Rightarrow> (usize \<times> mqtt_property_state) option rs" where
  "mqtt_will_property properties pos st =
     do { property_id \<leftarrow> idx properties pos;
          let pos = pos + 1 in
          if property_id = 0x18 then
            once (will_delay_interval st) (Some (mqtt_consume_fixed_len properties pos 4))
              (st\<lparr>will_delay_interval := True\<rparr>)
          else if property_id = 0x01 then
            once (payload_format_indicator st) (Some (mqtt_consume_fixed_len properties pos 1))
              (st\<lparr>payload_format_indicator := True\<rparr>)
          else if property_id = 0x02 then
            once (message_expiry_interval st) (Some (mqtt_consume_fixed_len properties pos 4))
              (st\<lparr>message_expiry_interval := True\<rparr>)
          else if property_id = 0x23 then
            once (content_type st) (mqtt_read_mqtt_utf8_string properties pos)
              (st\<lparr>content_type := True\<rparr>)
          else if property_id = 0x09 then
            once (response_topic st) (mqtt_read_mqtt_utf8_string properties pos)
              (st\<lparr>response_topic := True\<rparr>)
          else if property_id = 0x08 then
            once (correlation_data st) (mqtt_read_mqtt_string properties pos)
              (st\<lparr>correlation_data := True\<rparr>)
          else if property_id = 0x26 then
            once False (mqtt_consume_utf8_pair properties pos) st
          else Some None }"

definition mqtt_will_properties_are_well_formed :: "bytes \<Rightarrow> bool rs" where
  "mqtt_will_properties_are_well_formed =
     mqtt_all mqtt_will_property mqtt_property_state_default"

text \<open>The state is \<open>saw_subscription_identifier\<close>.\<close>

definition mqtt_subscribe_property :: "bytes \<Rightarrow> usize \<Rightarrow> bool \<Rightarrow> (usize \<times> bool) option rs" where
  "mqtt_subscribe_property properties pos saw =
     do { property_id \<leftarrow> idx properties pos;
          if property_id = 0x0B then
            if saw then Some None
            else do {
              r \<leftarrow> mqtt_read_variable_int properties (pos + 1);
              tryo r (\<lambda>(subscription_identifier, _, pos).
                if subscription_identifier = 0 then Some None else Some (Some (pos, True))) }
          else if property_id = 0x26 then
            once False (mqtt_consume_utf8_pair properties (pos + 1)) saw
          else Some None }"

definition mqtt_subscribe_properties_are_well_formed :: "bytes \<Rightarrow> bool rs" where
  "mqtt_subscribe_properties_are_well_formed = mqtt_all mqtt_subscribe_property False"

definition mqtt_user_property :: "bytes \<Rightarrow> usize \<Rightarrow> unit \<Rightarrow> (usize \<times> unit) option rs" where
  "mqtt_user_property properties pos st =
     do { property_id \<leftarrow> idx properties pos;
          if property_id \<noteq> 0x26 then Some None
          else once False (mqtt_consume_utf8_pair properties (pos + 1)) st }"

definition mqtt_user_properties_are_well_formed :: "bytes \<Rightarrow> bool rs" where
  "mqtt_user_properties_are_well_formed = mqtt_all mqtt_user_property ()"

text \<open>The state is \<open>saw_reason_string\<close>.\<close>

definition mqtt_pubrel_property :: "bytes \<Rightarrow> usize \<Rightarrow> bool \<Rightarrow> (usize \<times> bool) option rs" where
  "mqtt_pubrel_property properties pos saw =
     do { property_id \<leftarrow> idx properties pos;
          if property_id = 0x1F then
            once saw (mqtt_read_mqtt_utf8_string properties (pos + 1)) True
          else if property_id = 0x26 then
            once False (mqtt_consume_utf8_pair properties (pos + 1)) saw
          else Some None }"

definition mqtt_pubrel_properties_are_well_formed :: "bytes \<Rightarrow> bool rs" where
  "mqtt_pubrel_properties_are_well_formed = mqtt_all mqtt_pubrel_property False"

text \<open>The state is \<open>saw_session_expiry\<close>, \<open>saw_reason_string\<close>, \<open>saw_server_reference\<close>.\<close>

definition mqtt_disconnect_property ::
    "bytes \<Rightarrow> usize \<Rightarrow> bool \<times> bool \<times> bool \<Rightarrow> (usize \<times> bool \<times> bool \<times> bool) option rs" where
  "mqtt_disconnect_property properties pos st =
     (case st of (expiry, reason, server) \<Rightarrow>
     do { property_id \<leftarrow> idx properties pos;
          if property_id = 0x1F then
            once reason (mqtt_read_mqtt_utf8_string properties (pos + 1)) (expiry, True, server)
          else if property_id = 0x1C then
            once server (mqtt_read_mqtt_utf8_string properties (pos + 1)) (expiry, reason, True)
          else if property_id = 0x26 then
            once False (mqtt_consume_utf8_pair properties (pos + 1)) st
          else if property_id = 0x11 then
            once expiry (Some (mqtt_consume_fixed_len properties (pos + 1) 4)) (True, reason, server)
          else Some None })"

definition mqtt_disconnect_properties_are_well_formed :: "bytes \<Rightarrow> bool rs" where
  "mqtt_disconnect_properties_are_well_formed =
     mqtt_all mqtt_disconnect_property (False, False, False)"

definition mqtt_subscription_options_are_well_formed :: "u8 \<Rightarrow> bool" where
  "mqtt_subscription_options_are_well_formed options \<longleftrightarrow>
     options AND 0xC0 = 0 \<and> options AND 0x03 \<noteq> 3 \<and> options AND 0x30 \<noteq> 0x30"

text \<open>The state of the two topic loops is \<open>topic_count\<close>.\<close>

definition mqtt_subscribe_topic :: "bytes \<Rightarrow> usize \<Rightarrow> nat \<Rightarrow> (usize \<times> nat) option rs" where
  "mqtt_subscribe_topic payload pos topic_count =
     tryo (checked_add pos 2) (\<lambda>topic_len_end.
       if topic_len_end > length payload then Some None
       else do {
         b0 \<leftarrow> idx payload pos; b1 \<leftarrow> idx payload (pos + 1);
         let topic_len = unat (u16_be b0 b1); pos = topic_len_end in
         if topic_len = 0 then Some None
         else tryo (checked_add pos topic_len) (\<lambda>topic_end.
           if topic_end \<ge> length payload then Some None
           else do {
             t \<leftarrow> slice payload pos topic_end;
             tryo (from_utf8 t) (\<lambda>topic. do {
               ok \<leftarrow> mqtt_subscribe_topic_filter_is_valid topic;
               if \<not> ok then Some None
               else do {
                 subscription_options \<leftarrow> idx payload topic_end;
                 if \<not> mqtt_subscription_options_are_well_formed subscription_options then Some None
                 else Some (Some (topic_end + 1, topic_count + 1)) } }) }) })"

definition mqtt_subscribe_topics_are_well_formed :: "bytes \<Rightarrow> usize \<Rightarrow> bool rs" where
  "mqtt_subscribe_topics_are_well_formed payload pos =
     do { r \<leftarrow> mqtt_scan mqtt_subscribe_topic payload pos 0;
          let_else r False (\<lambda>topic_count. Some (topic_count > 0)) }"

definition mqtt_unsubscribe_topic :: "bytes \<Rightarrow> usize \<Rightarrow> nat \<Rightarrow> (usize \<times> nat) option rs" where
  "mqtt_unsubscribe_topic payload pos topic_count =
     tryo (checked_add pos 2) (\<lambda>topic_len_end.
       if topic_len_end > length payload then Some None
       else do {
         b0 \<leftarrow> idx payload pos; b1 \<leftarrow> idx payload (pos + 1);
         let topic_len = unat (u16_be b0 b1); pos = topic_len_end in
         if topic_len = 0 then Some None
         else tryo (checked_add pos topic_len) (\<lambda>topic_end.
           if topic_end > length payload then Some None
           else do {
             t \<leftarrow> slice payload pos topic_end;
             tryo (from_utf8 t) (\<lambda>topic. do {
               ok \<leftarrow> mqtt_subscribe_topic_filter_is_valid topic;
               if \<not> ok then Some None
               else Some (Some (topic_end, topic_count + 1)) }) }) })"

definition mqtt_unsubscribe_topics_are_well_formed :: "bytes \<Rightarrow> usize \<Rightarrow> bool rs" where
  "mqtt_unsubscribe_topics_are_well_formed payload pos =
     do { r \<leftarrow> mqtt_scan mqtt_unsubscribe_topic payload pos 0;
          let_else r False (\<lambda>topic_count. Some (topic_count > 0)) }"

lemmas mqtt_reader_calls =
  wp_call [OF mqtt_read_mqtt_string_wp] wp_call [OF mqtt_read_mqtt_utf8_string_wp]
  wp_call [OF mqtt_consume_utf8_pair_wp] wp_call [OF mqtt_read_variable_int_wp]
  wp_call [OF mqtt_subscribe_topic_filter_wp]

interpretation connect_properties: scan_body mqtt_connect_property
  by unfold_locales
    (auto simp: mqtt_connect_property_def wp_rules Let_def dest!: mqtt_consume_fixed_len_Some
      intro!: mqtt_reader_calls split: option.split)

interpretation will_properties: scan_body mqtt_will_property
  by unfold_locales
    (auto simp: mqtt_will_property_def wp_rules Let_def dest!: mqtt_consume_fixed_len_Some
      intro!: mqtt_reader_calls split: option.split)

interpretation subscribe_properties: scan_body mqtt_subscribe_property
  by unfold_locales
    (auto simp: mqtt_subscribe_property_def wp_rules intro!: mqtt_reader_calls split: option.split)

interpretation user_properties: scan_body mqtt_user_property
  by unfold_locales
    (auto simp: mqtt_user_property_def wp_rules intro!: mqtt_reader_calls split: option.split)

interpretation pubrel_properties: scan_body mqtt_pubrel_property
  by unfold_locales
    (auto simp: mqtt_pubrel_property_def wp_rules intro!: mqtt_reader_calls split: option.split)

interpretation disconnect_properties: scan_body mqtt_disconnect_property
  by unfold_locales
    (auto simp: mqtt_disconnect_property_def wp_rules dest!: mqtt_consume_fixed_len_Some
      intro!: mqtt_reader_calls split: option.split)

interpretation subscribe_topics: scan_body mqtt_subscribe_topic
  by unfold_locales
    (auto simp: mqtt_subscribe_topic_def wp_rules Let_def intro!: mqtt_reader_calls)

interpretation unsubscribe_topics: scan_body mqtt_unsubscribe_topic
  by unfold_locales
    (auto simp: mqtt_unsubscribe_topic_def wp_rules Let_def intro!: mqtt_reader_calls)

section \<open>Packets\<close>

text \<open>The frame every packet parser starts from: the remaining length must end the sample exactly
  (\<open>mqtt_sample_tail_is_plausible\<close>). The result is the start and the end of the remaining bytes.\<close>

definition mqtt_sample_tail_is_plausible :: "bytes \<Rightarrow> usize \<Rightarrow> bool" where
  "mqtt_sample_tail_is_plausible data frame_end \<longleftrightarrow> frame_end = length data"

definition mqtt_frame :: "bytes \<Rightarrow> (usize \<times> usize) option rs" where
  "mqtt_frame data =
     do { r \<leftarrow> mqtt_remaining_length data;
          tryo r (\<lambda>(remaining_len, start).
          tryo (checked_add start remaining_len) (\<lambda>frame_end.
            Some (if mqtt_sample_tail_is_plausible data frame_end then Some (start, frame_end)
                  else None))) }"

lemma mqtt_frame_wp [no_panic]:
  "wp (mqtt_frame data)
     (\<lambda>r. \<forall>start e. r = Some (start, e) \<longrightarrow> 2 \<le> start \<and> start \<le> e \<and> e = length data)"
  unfolding mqtt_frame_def mqtt_sample_tail_is_plausible_def
  by (auto simp: wp_rules intro!: wp_call [OF mqtt_remaining_length_wp])

text \<open>The length-prefixed property block of CONNECT (its own properties and those of the will).\<close>

definition mqtt_property_block ::
    "(bytes \<Rightarrow> bool rs) \<Rightarrow> bytes \<Rightarrow> usize \<Rightarrow> usize \<Rightarrow> usize option rs" where
  "mqtt_property_block check data frame_end pos =
     do { r \<leftarrow> mqtt_read_variable_int data pos;
          tryo r (\<lambda>(properties_len, consumed, properties_start).
          tryo (checked_add properties_start properties_len) (\<lambda>next_pos.
            if consumed = 0 \<or> next_pos > frame_end then Some None
            else do { properties \<leftarrow> slice data properties_start next_pos;
                      ok \<leftarrow> check properties;
                      Some (if ok then Some next_pos else None) })) }"

lemma mqtt_property_block_wp:
  assumes "\<And>properties. wp (check properties) (\<lambda>_. True)" and "frame_end \<le> length data"
  shows "wp (mqtt_property_block check data frame_end pos)
    (\<lambda>r. \<forall>p. r = Some p \<longrightarrow> pos < p \<and> p \<le> length data)"
  unfolding mqtt_property_block_def
  using assms(2)
  by (auto simp: wp_rules intro!: wp_call [OF mqtt_read_variable_int_wp] wp_call [OF assms(1)])

definition mqtt_connect_flags_are_valid :: "u8 \<Rightarrow> bool" where
  "mqtt_connect_flags_are_valid flags \<longleftrightarrow>
     (let username_flag = flags AND 0x80 \<noteq> 0; password_flag = flags AND 0x40 \<noteq> 0;
          will_flag = flags AND 0x04 \<noteq> 0; will_qos = drop_bit 3 flags AND 0x03;
          will_retain = flags AND 0x20 \<noteq> 0
      in flags AND 0x01 = 0
         \<and> \<not> (password_flag \<and> \<not> username_flag)
         \<and> \<not> (will_qos = 0x03 \<or> \<not> will_flag \<and> (will_qos \<noteq> 0 \<or> will_retain)))"

text \<open>The payload of CONNECT from the client identifier on.\<close>

definition mqtt_connect_payload :: "bytes \<Rightarrow> usize \<Rightarrow> u8 \<Rightarrow> u8 \<Rightarrow> usize \<Rightarrow> bool rs" where
  "mqtt_connect_payload data frame_end level flags client_id_start =
     do { c \<leftarrow> mqtt_read_mqtt_utf8_string data client_id_start;
       let_else c False (\<lambda>pos.
       if (level = 3 \<or> level = 4) \<and> flags AND 0x02 = 0 \<and> pos = client_id_start + 2 then Some False
       else do {
         will \<leftarrow> (if flags AND 0x04 \<noteq> 0 then do {
             w \<leftarrow> (if level = 5
                   then mqtt_property_block mqtt_will_properties_are_well_formed data frame_end pos
                   else Some (Some pos));
             tryo w (\<lambda>pos. do {
             topic \<leftarrow> mqtt_read_mqtt_utf8_string data pos;
             tryo topic (\<lambda>pos. mqtt_read_mqtt_string data pos) }) }
           else Some (Some pos));
         let_else will False (\<lambda>pos. do {
         username \<leftarrow> (if flags AND 0x80 \<noteq> 0 then mqtt_read_mqtt_utf8_string data pos
                       else Some (Some pos));
         let_else username False (\<lambda>pos. do {
         password \<leftarrow> (if flags AND 0x40 \<noteq> 0 then mqtt_read_mqtt_string data pos
                       else Some (Some pos));
         let_else password False (\<lambda>pos. Some (pos = frame_end)) }) }) }) }"

definition mqtt_connect_is_well_formed :: "bytes \<Rightarrow> bool rs" where
  "mqtt_connect_is_well_formed data =
     (if length data < 7 then Some False
      else do {
        d0 \<leftarrow> idx data 0;
        if d0 \<noteq> 0x10 then Some False
        else do {
          frame \<leftarrow> mqtt_frame data;
          let_else frame False (\<lambda>(remaining_start, frame_end).
          let_else (checked_add remaining_start 2) False (\<lambda>proto_len_end.
          if proto_len_end > frame_end then Some False
          else do {
            b0 \<leftarrow> idx data remaining_start; b1 \<leftarrow> idx data (remaining_start + 1);
            let proto_len = unat (u16_be b0 b1) in
            let_else (checked_add proto_len_end proto_len) False (\<lambda>proto_end.
            if proto_len = 0 \<or> proto_end > frame_end then Some False
            else do {
              p \<leftarrow> slice data proto_len_end proto_end;
              let_else (from_utf8 p) False (\<lambda>proto_name.
              let_else (idx data proto_end) False (\<lambda>level.
              if \<not> (proto_name = bstr ''MQTT'' \<and> (level = 4 \<or> level = 5)
                    \<or> proto_name = bstr ''MQIsdp'' \<and> level = 3) then Some False
              else let_else (checked_add proto_end 1) False (\<lambda>pos.
              let_else (idx data pos) False (\<lambda>flags.
              if \<not> mqtt_connect_flags_are_valid flags then Some False
              else let_else (checked_add (pos + 1) 2) False (\<lambda>pos.
              if pos > frame_end then Some False
              else do {
                block \<leftarrow> (if level = 5
                  then mqtt_property_block mqtt_connect_properties_are_well_formed data frame_end pos
                  else Some (Some pos));
                let_else block False (\<lambda>pos. mqtt_connect_payload data frame_end level flags pos)
              })))))})}))}})"

definition mqtt_publish_is_well_formed :: "bytes \<Rightarrow> bool rs" where
  "mqtt_publish_is_well_formed data =
     do { frame \<leftarrow> mqtt_frame data;
       let_else frame False (\<lambda>(start, frame_end). do {
       payload \<leftarrow> slice data start frame_end;
       if length payload < 2 then Some False
       else do {
         b0 \<leftarrow> idx payload 0; b1 \<leftarrow> idx payload 1;
         let topic_len = unat (u16_be b0 b1) in
         let_else (checked_add 2 topic_len) False (\<lambda>topic_end.
         if topic_len = 0 \<or> topic_end > length payload then Some False
         else do {
           t \<leftarrow> slice payload 2 topic_end;
           let_else (from_utf8 t) False (\<lambda>topic.
           if \<not> mqtt_publish_topic_is_valid topic then Some False
           else do {
             d0 \<leftarrow> idx data 0;
             let qos = drop_bit 1 d0 AND 0x03 in
             if qos = 0x03 then Some False
             else if qos \<ge> 1 then
               let_else (checked_add topic_end 2) False (\<lambda>packet_id_end.
               if packet_id_end > length payload then Some False
               else do { p0 \<leftarrow> idx payload topic_end; p1 \<leftarrow> idx payload (topic_end + 1);
                         Some (u16_be p0 p1 \<noteq> 0) })
             else Some True }) }) } }) }"

definition mqtt_subscribe_is_well_formed :: "bytes \<Rightarrow> bool rs" where
  "mqtt_subscribe_is_well_formed data =
     do { d0 \<leftarrow> idx data 0;
       if d0 AND 0x0F \<noteq> 0x02 then Some False
       else do {
         frame \<leftarrow> mqtt_frame data;
         let_else frame False (\<lambda>(start, frame_end). do {
         payload \<leftarrow> slice data start frame_end;
         if length payload < 5 then Some False
         else do {
           b0 \<leftarrow> idx payload 0; b1 \<leftarrow> idx payload 1;
           if u16_be b0 b1 = 0 then Some False
           else do {
             implicit \<leftarrow> mqtt_subscribe_topics_are_well_formed payload 2;
             if implicit then Some True
             else do {
               v \<leftarrow> mqtt_read_variable_int payload 2;
               let_else v False (\<lambda>(properties_len, _, pos).
               let_else (checked_add pos properties_len) False (\<lambda>topics_start.
               if topics_start > length payload then Some False
               else do {
                 properties \<leftarrow> slice payload pos topics_start;
                 ok \<leftarrow> mqtt_subscribe_properties_are_well_formed properties;
                 if ok then mqtt_subscribe_topics_are_well_formed payload topics_start
                 else Some False })) } } } }) } }"

definition mqtt_unsubscribe_is_well_formed :: "bytes \<Rightarrow> bool rs" where
  "mqtt_unsubscribe_is_well_formed data =
     do { d0 \<leftarrow> idx data 0;
       if d0 AND 0x0F \<noteq> 0x02 then Some False
       else do {
         frame \<leftarrow> mqtt_frame data;
         let_else frame False (\<lambda>(start, frame_end). do {
         payload \<leftarrow> slice data start frame_end;
         if length payload < 5 then Some False
         else do {
           b0 \<leftarrow> idx payload 0; b1 \<leftarrow> idx payload 1;
           if u16_be b0 b1 = 0 then Some False
           else do {
             implicit \<leftarrow> mqtt_unsubscribe_topics_are_well_formed payload 2;
             if implicit then Some True
             else do {
               v \<leftarrow> mqtt_read_variable_int payload 2;
               let_else v False (\<lambda>(properties_len, _, pos).
               let_else (checked_add pos properties_len) False (\<lambda>topics_start.
               if topics_start \<le> length payload then do {
                 properties \<leftarrow> slice payload pos topics_start;
                 ok \<leftarrow> mqtt_user_properties_are_well_formed properties;
                 if ok then mqtt_unsubscribe_topics_are_well_formed payload topics_start
                 else Some False }
               else Some False)) } } } }) } }"

definition mqtt_pubrel_is_well_formed :: "bytes \<Rightarrow> bool rs" where
  "mqtt_pubrel_is_well_formed data =
     do { d0 \<leftarrow> idx data 0;
       if d0 AND 0x0F \<noteq> 0x02 then Some False
       else do {
         frame \<leftarrow> mqtt_frame data;
         let_else frame False (\<lambda>(start, frame_end). do {
         payload \<leftarrow> slice data start frame_end;
         if length payload < 2 then Some False
         else do {
           b0 \<leftarrow> idx payload 0; b1 \<leftarrow> idx payload 1;
           if u16_be b0 b1 = 0 then Some False
           else if length payload = 2 then Some True
           else do {
             reason \<leftarrow> idx payload 2;
             if \<not> (reason = 0x00 \<or> reason = 0x92) then Some False
             else if length payload = 3 then Some True
             else do {
               v \<leftarrow> mqtt_read_variable_int payload 3;
               let_else v False (\<lambda>(properties_len, _, pos).
               let_else (checked_add pos properties_len) False (\<lambda>properties_end.
               if properties_end = length payload then do {
                 properties \<leftarrow> slice_from payload pos;
                 mqtt_pubrel_properties_are_well_formed properties }
               else Some False)) } } } }) } }"

definition mqtt_disconnect_reason_code_is_valid :: "u8 \<Rightarrow> bool" where
  "mqtt_disconnect_reason_code_is_valid reason_code \<longleftrightarrow>
     reason_code \<in> set [0x00, 0x04, 0x80, 0x81, 0x82, 0x83, 0x87, 0x89, 0x8B, 0x8D, 0x8E, 0x8F,
       0x90, 0x93, 0x94, 0x95, 0x96, 0x97, 0x98, 0x99, 0x9A, 0x9B, 0x9C, 0x9D, 0x9E, 0x9F, 0xA0,
       0xA1, 0xA2]"

definition mqtt_disconnect_is_well_formed :: "bytes \<Rightarrow> bool rs" where
  "mqtt_disconnect_is_well_formed data =
     do { d0 \<leftarrow> idx data 0;
       if d0 AND 0x0F \<noteq> 0 then Some False
       else do {
         frame \<leftarrow> mqtt_frame data;
         let_else frame False (\<lambda>(start, frame_end). do {
         payload \<leftarrow> slice data start frame_end;
         if payload = [] then Some True
         else do {
           reason \<leftarrow> idx payload 0;
           if \<not> mqtt_disconnect_reason_code_is_valid reason then Some False
           else if length payload = 1 then Some True
           else do {
             v \<leftarrow> mqtt_read_variable_int payload 1;
             let_else v False (\<lambda>(properties_len, _, pos).
             let_else (checked_add pos properties_len) False (\<lambda>properties_end.
             if properties_end = length payload then do {
               properties \<leftarrow> slice payload pos properties_end;
               mqtt_disconnect_properties_are_well_formed properties }
             else Some False)) } } }) } }"

definition looks_like_mqtt_client_packet :: "bytes \<Rightarrow> bool rs" where
  "looks_like_mqtt_client_packet data =
     (if length data > MQTT_MAX_PACKET_BYTES then Some False
      else let_else (map_option (drop_bit 4) (idx data 0)) False (\<lambda>packet_type.
        if packet_type = 1 then mqtt_connect_is_well_formed data
        else if packet_type = 3 then mqtt_publish_is_well_formed data
        else if packet_type = 6 then mqtt_pubrel_is_well_formed data
        else if packet_type = 8 then mqtt_subscribe_is_well_formed data
        else if packet_type = 10 then mqtt_unsubscribe_is_well_formed data
        else if packet_type = 12 then
          if length data \<ge> 2 then do {
            d0 \<leftarrow> idx data 0; d1 \<leftarrow> idx data 1;
            Some (d0 AND 0x0F = 0 \<and> d1 = 0 \<and> mqtt_sample_tail_is_plausible data 2) }
          else Some False
        else if packet_type = 14 then mqtt_disconnect_is_well_formed data
        else Some False))"

lemmas mqtt_list_wps =
  connect_properties.all_wp [of mqtt_property_state_default, folded mqtt_connect_properties_are_well_formed_def]
  will_properties.all_wp [of mqtt_property_state_default, folded mqtt_will_properties_are_well_formed_def]
  subscribe_properties.all_wp [of False, folded mqtt_subscribe_properties_are_well_formed_def]
  user_properties.all_wp [of "()", folded mqtt_user_properties_are_well_formed_def]
  pubrel_properties.all_wp [of False, folded mqtt_pubrel_properties_are_well_formed_def]
  disconnect_properties.all_wp [of "(False, False, False)",
    folded mqtt_disconnect_properties_are_well_formed_def]

lemma mqtt_topics_wp:
  "wp (mqtt_subscribe_topics_are_well_formed payload pos) (\<lambda>_. True)"
  "wp (mqtt_unsubscribe_topics_are_well_formed payload pos) (\<lambda>_. True)"
  unfolding mqtt_subscribe_topics_are_well_formed_def mqtt_unsubscribe_topics_are_well_formed_def
  by (auto simp: wp_rules intro!: wp_call [OF subscribe_topics.scan_wp]
      wp_call [OF unsubscribe_topics.scan_wp])

lemmas mqtt_calls = mqtt_reader_calls wp_call [OF mqtt_frame_wp] mqtt_list_wps mqtt_list_wps [THEN wp_call]
  mqtt_topics_wp [THEN wp_call] wp_call [OF mqtt_property_block_wp, OF mqtt_list_wps(1)]
  wp_call [OF mqtt_property_block_wp, OF mqtt_list_wps(2)]

lemma mqtt_connect_payload_wp:
  "frame_end \<le> length data \<Longrightarrow> wp (mqtt_connect_payload data frame_end level flags pos) (\<lambda>_. True)"
  unfolding mqtt_connect_payload_def
  by (auto simp: wp_rules intro!: mqtt_calls)

lemma mqtt_connect_wp: "wp (mqtt_connect_is_well_formed data) (\<lambda>_. True)"
  unfolding mqtt_connect_is_well_formed_def Let_def
  by (auto simp: wp_rules intro!: mqtt_calls mqtt_connect_payload_wp)

lemma mqtt_publish_wp: "wp (mqtt_publish_is_well_formed data) (\<lambda>_. True)"
  unfolding mqtt_publish_is_well_formed_def Let_def
  by (auto simp: wp_rules intro!: mqtt_calls)

lemma mqtt_subscribe_wp: "data \<noteq> [] \<Longrightarrow> wp (mqtt_subscribe_is_well_formed data) (\<lambda>_. True)"
  unfolding mqtt_subscribe_is_well_formed_def
  by (auto simp: wp_rules intro!: mqtt_calls)

lemma mqtt_unsubscribe_wp: "data \<noteq> [] \<Longrightarrow> wp (mqtt_unsubscribe_is_well_formed data) (\<lambda>_. True)"
  unfolding mqtt_unsubscribe_is_well_formed_def
  by (auto simp: wp_rules intro!: mqtt_calls)

lemma mqtt_pubrel_wp: "data \<noteq> [] \<Longrightarrow> wp (mqtt_pubrel_is_well_formed data) (\<lambda>_. True)"
  unfolding mqtt_pubrel_is_well_formed_def
  by (auto simp: wp_rules intro!: mqtt_calls)

lemma mqtt_disconnect_wp: "data \<noteq> [] \<Longrightarrow> wp (mqtt_disconnect_is_well_formed data) (\<lambda>_. True)"
  unfolding mqtt_disconnect_is_well_formed_def
  by (auto simp: wp_rules intro!: mqtt_calls)

lemma looks_like_mqtt_wp [no_panic]: "wp (looks_like_mqtt_client_packet data) (\<lambda>_. True)"
  unfolding looks_like_mqtt_client_packet_def
  by (auto simp: wp_rules idx_Some_iff intro!: mqtt_connect_wp mqtt_publish_wp mqtt_subscribe_wp
      mqtt_unsubscribe_wp mqtt_pubrel_wp mqtt_disconnect_wp)

end
