(* ===== verification/Taste.thy ===== *)
theory Taste
  imports Taste_Http Taste_Db Taste_Records Taste_Ber Taste_Mqtt
begin

text \<open>
  The protocol detectors of \<open>nettrap-proxy/src/taste.rs\<close>: one \<open>taste\<close> function per protocol,
  from a data sample and a destination port to a confidence score, with the helpers that file has
  for SMTP, FTP, POP3 and QUIC, and the NKN detector of \<open>taste/heuristics.rs\<close>.

  \<open>serde_json\<close> is third-party code. The parameter \<open>json\<close> of the NKN detector stands for it: it
  gives, for a sample that is one complete JSON object, the entries of that object in order.
\<close>

section \<open>Command lines\<close>

definition SMTP_MAX_COMMAND_LINE_BYTES :: nat where "SMTP_MAX_COMMAND_LINE_BYTES = 1000"
definition FTP_MAX_COMMAND_LINE_BYTES :: nat where "FTP_MAX_COMMAND_LINE_BYTES = 512"
definition POP3_MAX_COMMAND_LINE_BYTES :: nat where "POP3_MAX_COMMAND_LINE_BYTES = 512"
definition IDENT_MAX_QUERY_LINE_BYTES :: nat where "IDENT_MAX_QUERY_LINE_BYTES = 512"

text \<open>The text without its CRLF; no line when a CR or LF is left anywhere.\<close>

definition single_command_line :: "bytes \<Rightarrow> bytes option" where
  "single_command_line s =
     (case strip_suffix s CRLF of
        Some line \<Rightarrow> if 0x0D \<in> set line \<or> 0x0A \<in> set line then None else Some line
      | None \<Rightarrow>
          if ends_with s [0x0D] \<or> ends_with s [0x0A] \<or> 0x0D \<in> set s \<or> 0x0A \<in> set s then None
          else Some s)"

definition strict_command_parts :: "bytes \<Rightarrow> usize \<Rightarrow> bytes list option" where
  "strict_command_parts data max_line_bytes =
     (case from_utf8 data of
        None \<Rightarrow> None
      | Some s \<Rightarrow>
          if 0 \<in> set s \<or> contains_unicode_line_separator s then None
          else (case single_command_line s of
                  None \<Rightarrow> None
                | Some line \<Rightarrow>
                    if length line > max_line_bytes \<or> line = []
                       \<or> first_char_is_whitespace line \<or> last_char_is_whitespace line
                       \<or> list_ex (\<lambda>ch. char_is_control ch \<or> char_is_whitespace ch \<and> ch \<noteq> 0x20)
                            (chars line)
                    then None
                    else
                      let parts = space_parts line in
                      if list_ex (\<lambda>part. part = []) (drop 1 parts) then None else Some parts))"

section \<open>SMTP\<close>

definition smtp_esmtp_param_is_valid :: "bytes \<Rightarrow> bool" where
  "smtp_esmtp_param_is_valid param =
     (case split_once param 0x3D of
        None \<Rightarrow> False
      | Some (key, v) \<Rightarrow>
          key \<noteq> [] \<and> v \<noteq> [] \<and> list_all (\<lambda>b. is_ascii_alphanumeric b \<or> b = 0x2D) key \<and>
          list_all (\<lambda>b. 0x21 \<le> b \<and> b \<le> 0x7E) v)"

definition smtp_path_args_are_valid :: "bytes \<Rightarrow> bytes list \<Rightarrow> string \<Rightarrow> bool rs" where
  "smtp_path_args_are_valid path_arg params keyword =
     let_else (split_once path_arg 0x3A) False (\<lambda>(head, path).
       if \<not> eq_ignore_ascii_case head (bstr keyword) then Some False
       else if \<not> starts_with path [0x3C] \<or> \<not> ends_with path [0x3E]
               \<or> list_ex (\<lambda>param. param = []) params then Some False
       else do {
         address \<leftarrow> slice path 1 (length path - 1);
         if eq_ignore_ascii_case (bstr keyword) (bstr ''TO'') \<and> address = [] then Some False
         else Some ((address = [] \<or>
             \<not> list_ex (\<lambda>ch. char_is_whitespace ch \<or> char_is_control ch) (chars address))
             \<and> list_all smtp_esmtp_param_is_valid params) })"

definition smtp_auth_args_are_valid :: "bytes \<Rightarrow> bytes list \<Rightarrow> bool" where
  "smtp_auth_args_are_valid mechanism rest =
     (let m = to_ascii_uppercase mechanism in
      if one_of m [''PLAIN'', ''LOGIN''] then length rest \<le> 1 \<and> list_all (\<lambda>arg. arg \<noteq> []) rest
      else if one_of m [''CRAM-MD5'', ''CRAM-SHA1''] then rest = []
      else length rest \<le> 1 \<and> list_all (\<lambda>arg. arg \<noteq> []) rest)"

definition smtp_command_matches :: "bytes \<Rightarrow> usize \<Rightarrow> bool rs" where
  "smtp_command_matches data max_line_bytes =
     let_else (strict_command_parts data max_line_bytes) False (\<lambda>parts.
       case parts of
         [verb] \<Rightarrow>
           Some (one_of (to_ascii_uppercase verb)
             [''DATA'', ''QUIT'', ''STARTTLS'', ''RSET'', ''NOOP'', ''HELP'', ''X-EXPS'', ''X-EXCH50'',
              ''X-LINK2STATE''])
       | [verb, arg] \<Rightarrow>
           (let v = to_ascii_uppercase verb in
            if one_of v [''EHLO'', ''HELO'', ''VRFY''] then Some (arg \<noteq> [])
            else if one_of v [''AUTH''] then Some (arg \<noteq> [])
            else if one_of v [''MAIL''] then smtp_path_args_are_valid arg [] ''FROM''
            else if one_of v [''RCPT''] then smtp_path_args_are_valid arg [] ''TO''
            else Some False)
       | verb # first # rest \<Rightarrow>
           (let v = to_ascii_uppercase verb in
            if one_of v [''MAIL''] then smtp_path_args_are_valid first rest ''FROM''
            else if one_of v [''RCPT''] then smtp_path_args_are_valid first rest ''TO''
            else if one_of v [''AUTH''] then Some (smtp_auth_args_are_valid first rest)
            else Some False)
       | [] \<Rightarrow> Some False)"

lemma angle_brackets_length:
  "starts_with path [a] \<Longrightarrow> ends_with path [b] \<Longrightarrow> a \<noteq> b \<Longrightarrow> 2 \<le> length path"
  by (cases path; cases "tl path") (auto simp: starts_with_def ends_with_def)

lemma smtp_path_args_wp: "wp (smtp_path_args_are_valid path_arg params keyword) (\<lambda>_. True)"
  unfolding smtp_path_args_are_valid_def
  by (auto simp: wp_rules dest: angle_brackets_length)

lemma smtp_command_matches_wp [no_panic]: "wp (smtp_command_matches data n) (\<lambda>_. True)"
  unfolding smtp_command_matches_def
  by (auto simp: wp_rules Let_def smtp_path_args_wp split: list.split)

section \<open>FTP\<close>

text \<open>The verb of a line, unless the argument behind it starts with a blank.\<close>

definition ftp_verb :: "bytes \<Rightarrow> bytes option rs" where
  "ftp_verb line =
     (let verb_end = (case position (\<lambda>b. b = 0x20) line of Some i \<Rightarrow> i | None \<Rightarrow> length line) in
      do { verb \<leftarrow> slice line 0 verb_end;
           if verb = [] then Some None
           else do {
             rest \<leftarrow> slice_from line verb_end;
             Some (case strip_prefix rest [0x20] of
                 None \<Rightarrow> Some verb
               | Some arg \<Rightarrow>
                   if starts_with arg [0x20] \<or> starts_with arg [0x09] then None else Some verb) } })"

definition ftp_command_token_matches :: "bytes \<Rightarrow> string list \<Rightarrow> bool rs" where
  "ftp_command_token_matches data commands =
     let_else (from_utf8 data) False (\<lambda>s.
       if contains_unicode_line_separator s then Some False
       else let_else (single_command_line s) False (\<lambda>line.
         if length line > FTP_MAX_COMMAND_LINE_BYTES \<or> first_char_is_whitespace line
            \<or> last_char_is_whitespace line \<or> 0 \<in> set line then Some False
         else do { v \<leftarrow> ftp_verb line;
                   let_else v False (\<lambda>verb. Some (any_ignore_case verb commands)) }))"

definition looks_like_unknown_ftp_command :: "bytes \<Rightarrow> bool rs" where
  "looks_like_unknown_ftp_command data =
     let_else (from_utf8 data) False (\<lambda>s.
     let_else (strip_suffix s CRLF) False (\<lambda>line.
       if length line > FTP_MAX_COMMAND_LINE_BYTES
          \<or> 0x0D \<in> set line \<or> 0x0A \<in> set line \<or> 0 \<in> set line \<or> contains_unicode_line_separator line
          \<or> first_char_is_whitespace line \<or> last_char_is_whitespace line then Some False
       else do { v \<leftarrow> ftp_verb line;
                 let_else v False (\<lambda>verb. Some (list_all is_ascii_alphabetic verb)) }))"

lemma ftp_verb_wp: "wp (ftp_verb line) (\<lambda>_. True)"
  unfolding ftp_verb_def Let_def
  by (auto simp: wp_rules dest: position_Some_less split: option.split)

lemma ftp_command_token_matches_wp [no_panic]: "wp (ftp_command_token_matches data cs) (\<lambda>_. True)"
  unfolding ftp_command_token_matches_def
  by (auto simp: wp_rules intro!: wp_call [OF ftp_verb_wp])

lemma looks_like_unknown_ftp_wp [no_panic]: "wp (looks_like_unknown_ftp_command data) (\<lambda>_. True)"
  unfolding looks_like_unknown_ftp_command_def
  by (auto simp: wp_rules intro!: wp_call [OF ftp_verb_wp])

section \<open>POP3\<close>

definition pop3_parts_valid :: "bytes list \<Rightarrow> bool" where
  "pop3_parts_valid parts =
     (let is_decimal = (\<lambda>v. v \<noteq> [] \<and> list_all is_ascii_digit v); is_token = (\<lambda>v. v \<noteq> []) in
      case parts of
        [verb] \<Rightarrow>
          one_of (to_ascii_uppercase verb)
            [''STAT'', ''LIST'', ''UIDL'', ''CAPA'', ''AUTH'', ''STLS'', ''NOOP'', ''RSET'', ''QUIT'']
      | [verb, arg] \<Rightarrow>
          (let v = to_ascii_uppercase verb in
           if one_of v [''USER'', ''PASS''] then is_token arg
           else if one_of v [''LIST'', ''UIDL'', ''RETR'', ''DELE''] then is_decimal arg
           else if one_of v [''AUTH''] then is_token arg
           else False)
      | [verb, first, second] \<Rightarrow>
          (let v = to_ascii_uppercase verb in
           if one_of v [''TOP''] then is_decimal first \<and> is_decimal second
           else if one_of v [''APOP''] then is_token first \<and> is_token second
           else if one_of v [''AUTH''] then is_token first \<and> is_token second
           else False)
      | _ \<Rightarrow> False)"

definition pop3_command_score :: "bytes \<Rightarrow> usize \<Rightarrow> u8 option rs" where
  "pop3_command_score data max_line_bytes =
     tryo (strict_command_parts data max_line_bytes) (\<lambda>parts.
       if \<not> pop3_parts_valid parts then Some None
       else do {
         verb \<leftarrow> idx parts 0;
         Some (Some (if one_of (to_ascii_uppercase verb) [''USER'', ''PASS'', ''LIST'', ''QUIT'']
                     then 65 else 80)) })"

lemma pop3_command_score_wp [no_panic]:
  "wp (pop3_command_score data n) (\<lambda>r. \<forall>s. r = Some s \<longrightarrow> s \<le> 80)"
  unfolding pop3_command_score_def
  by (auto simp: wp_rules pop3_parts_valid_def)

section \<open>QUIC\<close>

definition MAX_QUIC_TASTE_PACKET_BYTES :: nat where "MAX_QUIC_TASTE_PACKET_BYTES = 65535"
definition MAX_QUIC_CONNECTION_ID_BYTES :: nat where "MAX_QUIC_CONNECTION_ID_BYTES = 20"

definition read_quic_len_byte :: "bytes \<Rightarrow> usize \<Rightarrow> (usize \<times> usize) option" where
  "read_quic_len_byte data offset = map_option (\<lambda>b. (unat b, offset + 1)) (idx data offset)"

definition skip_quic_bytes :: "bytes \<Rightarrow> usize \<Rightarrow> usize \<Rightarrow> usize option" where
  "skip_quic_bytes data offset count =
     (case checked_add offset count of
        None \<Rightarrow> None
      | Some n \<Rightarrow> if n > length data then None else Some n)"

definition read_quic_varint :: "bytes \<Rightarrow> usize \<Rightarrow> (u64 \<times> usize) option rs" where
  "read_quic_varint data offset =
     tryo (idx data offset) (\<lambda>first.
       let len = push_bit (unat (drop_bit 6 first)) (1 :: nat) in
       tryo (checked_add offset len) (\<lambda>e.
       tryo (slice data offset e) (\<lambda>bs.
       do { rest \<leftarrow> slice_from bs 1;
            Some (Some (fold (\<lambda>b v. push_bit 8 v OR ucast b) rest (ucast (first AND 0x3F)),
                        offset + len)) })))"

definition looks_like_quic_v1_long_header :: "bytes \<Rightarrow> bool rs" where
  "looks_like_quic_v1_long_header data =
     do { d0 \<leftarrow> idx data 0;
       let packet_type = drop_bit 4 (d0 AND 0x30); packet_number_len = unat (d0 AND 0x03) + 1 in
       let_else (read_quic_len_byte data 5) False (\<lambda>(dcid_len, offset).
       if dcid_len > MAX_QUIC_CONNECTION_ID_BYTES then Some False
       else let_else (skip_quic_bytes data offset dcid_len) False (\<lambda>offset.
       let_else (read_quic_len_byte data offset) False (\<lambda>(scid_len, offset).
       if scid_len > MAX_QUIC_CONNECTION_ID_BYTES then Some False
       else let_else (skip_quic_bytes data offset scid_len) False (\<lambda>offset.
       if packet_type = 3 then Some (length data - offset \<ge> 17)
       else do {
         after_token \<leftarrow> (if packet_type = 0 then do {
             t \<leftarrow> read_quic_varint data offset;
             tryo t (\<lambda>(token_len, offset). Some (skip_quic_bytes data offset (unat token_len))) }
           else Some (Some offset));
         let_else after_token False (\<lambda>offset. do {
         p \<leftarrow> read_quic_varint data offset;
         let_else p False (\<lambda>(payload_len, offset).
           Some (unat payload_len \<ge> packet_number_len \<and> unat payload_len \<le> length data - offset))
         }) }))))}"

lemma read_quic_varint_wp [no_panic]:
  "wp (read_quic_varint data offset)
     (\<lambda>r. \<forall>v e. r = Some (v, e) \<longrightarrow> offset < e \<and> e \<le> length data)"
proof -
  have "0 < (push_bit n 1 :: nat)" for n by (simp add: push_bit_eq_mult)
  then show ?thesis
    unfolding read_quic_varint_def Let_def
    by (auto simp: wp_rules slice_Some_iff idx_Some_iff Suc_le_eq)
qed

lemma looks_like_quic_wp [no_panic]:
  "data \<noteq> [] \<Longrightarrow> wp (looks_like_quic_v1_long_header data) (\<lambda>_. True)"
  unfolding looks_like_quic_v1_long_header_def Let_def
  by (auto simp: wp_rules intro!: wp_call [OF read_quic_varint_wp])

section \<open>NKN JSON-RPC\<close>

text \<open>The value of an object entry as \<open>NknTasteVisitor\<close> sees it. \<open>JUnreadable\<close> is a value that can be
  skipped but not read as a \<open>serde_json::Value\<close> (a number out of range).\<close>

datatype json = JNull | JNumber | JString bytes | JOther | JUnreadable

type_synonym json_parser = "bytes \<Rightarrow> (bytes \<times> json) list option"

definition MAX_NKN_JSON_RPC_TASTE_BYTES :: nat where "MAX_NKN_JSON_RPC_TASTE_BYTES = 4096"
definition MAX_NKN_JSON_RPC_METHOD_BYTES :: nat where "MAX_NKN_JSON_RPC_METHOD_BYTES = 128"
definition MAX_NKN_JSON_RPC_ID_STRING_BYTES :: nat where "MAX_NKN_JSON_RPC_ID_STRING_BYTES = 256"

record nkn_json_rpc_taste =
  nkn_jsonrpc :: "bytes option"
  nkn_method :: "bytes option"
  nkn_id :: "json option"

text \<open>\<open>NknTasteVisitor::visit_map\<close>; \<open>None\<close> is an error.\<close>

fun nkn_visit_map :: "(bytes \<times> json) list \<Rightarrow> nkn_json_rpc_taste \<Rightarrow> nkn_json_rpc_taste option" where
  "nkn_visit_map [] t = Some t"
| "nkn_visit_map ((key, v) # rest) t =
     (if key = bstr ''jsonrpc'' then
        (case v of
           JString s \<Rightarrow>
             if nkn_jsonrpc t \<noteq> None then None else nkn_visit_map rest (t\<lparr>nkn_jsonrpc := Some s\<rparr>)
         | _ \<Rightarrow> None)
      else if key = bstr ''method'' then
        (case v of
           JString s \<Rightarrow>
             if nkn_method t \<noteq> None then None else nkn_visit_map rest (t\<lparr>nkn_method := Some s\<rparr>)
         | _ \<Rightarrow> None)
      else if key = bstr ''id'' then
        (case v of
           JUnreadable \<Rightarrow> None
         | _ \<Rightarrow> if nkn_id t \<noteq> None then None else nkn_visit_map rest (t\<lparr>nkn_id := Some v\<rparr>))
      else nkn_visit_map rest t)"

definition is_known_nkn_method :: "bytes \<Rightarrow> bool" where
  "is_known_nkn_method m = one_of m [''getnodestate'', ''getlatestblockheight'', ''getwsaddr'']"

definition is_valid_nkn_json_rpc_id :: "json \<Rightarrow> bool" where
  "is_valid_nkn_json_rpc_id v =
     (case v of
        JNull \<Rightarrow> True
      | JNumber \<Rightarrow> True
      | JString s \<Rightarrow> length s \<le> MAX_NKN_JSON_RPC_ID_STRING_BYTES
      | _ \<Rightarrow> False)"

definition nkn_json_rpc_request :: "json_parser \<Rightarrow> bytes \<Rightarrow> nkn_json_rpc_taste option" where
  "nkn_json_rpc_request json data =
     (if length data > MAX_NKN_JSON_RPC_TASTE_BYTES then None
      else do {
        entries \<leftarrow> json data;
        request \<leftarrow> nkn_visit_map entries \<lparr>nkn_jsonrpc = None, nkn_method = None, nkn_id = None\<rparr>;
        if nkn_jsonrpc request \<noteq> Some (bstr ''2.0'') then None
        else do {
          method \<leftarrow> nkn_method request;
          if method = [] \<or> length method > MAX_NKN_JSON_RPC_METHOD_BYTES then None
          else (case nkn_id request of
                  None \<Rightarrow> Some request
                | Some i \<Rightarrow> if is_valid_nkn_json_rpc_id i then Some request else None) } })"

definition looks_like_nkn_json_rpc :: "json_parser \<Rightarrow> bytes \<Rightarrow> bool" where
  "looks_like_nkn_json_rpc json data =
     (case nkn_json_rpc_request json data of
        None \<Rightarrow> False
      | Some request \<Rightarrow>
          (case nkn_method request of None \<Rightarrow> False | Some m \<Rightarrow> is_known_nkn_method m))"

definition looks_like_nkn_json_rpc_request :: "json_parser \<Rightarrow> bytes \<Rightarrow> bool" where
  "looks_like_nkn_json_rpc_request json data = (nkn_json_rpc_request json data \<noteq> None)"

section \<open>Detectors\<close>

type_synonym taste_score = u8
type_synonym taster = "bytes \<Rightarrow> u16 \<Rightarrow> taste_score rs"

text \<open>The contract that the trait \<open>ProtocolTaste\<close> documents: a score from 0 to 100 for every sample,
  and no panic.\<close>

definition taster_ok :: "taster \<Rightarrow> bool" where
  "taster_ok taste \<longleftrightarrow> (\<forall>data dst_port. wp (taste data dst_port) (\<lambda>score. score \<le> 100))"

definition dns_taste :: taster where
  "dns_taste data dst_port =
     do { ok \<leftarrow> looks_like_dns_query data; Some (if ok then if dst_port = 53 then 90 else 70 else 0) }"

definition http_taste :: taster where
  "http_taste data dst_port =
     do { start \<leftarrow> looks_like_http_start_line data;
       if start then Some 95
       else do { shape \<leftarrow> looks_like_http_request_line_shape data;
                 Some (if shape then 0 else if dst_port = 80 \<or> dst_port = 8080 then 30 else 0) } }"

definition tls_taste :: taster where
  "tls_taste data dst_port =
     do { hello \<leftarrow> looks_like_complete_tls_client_hello data;
       if hello then Some 95
       else do { v2 \<leftarrow> looks_like_sslv2_client_hello data;
                 Some (if v2 then 80
                       else if dst_port = 443 \<or> dst_port = 8443 \<or> dst_port = 9443 then 40 else 0) } }"

definition smtp_taste :: taster where
  "smtp_taste data dst_port =
     (if dst_port = 25 \<or> dst_port = 587 \<or> dst_port = 465 then Some 85
      else do { ok \<leftarrow> smtp_command_matches data SMTP_MAX_COMMAND_LINE_BYTES;
                Some (if ok then 90 else 0) })"

definition ftp_taste :: taster where
  "ftp_taste data dst_port =
     (if dst_port = 21 then Some 85
      else do {
        known \<leftarrow> ftp_command_token_matches data
          [''USER'', ''PASS'', ''PWD'', ''XPWD'', ''TYPE'', ''PASV'', ''EPSV'', ''LIST'', ''NLST'', ''RETR'',
           ''STOR'', ''APPE'', ''PORT'', ''EPRT'', ''SYST'', ''HOST'', ''ACCT'', ''REIN'', ''SMNT'', ''FEAT'',
           ''OPTS'', ''ALLO'', ''MODE'', ''STRU'', ''REST'', ''SIZE'', ''MDTM'', ''CWD'', ''MKD'', ''XMKD'',
           ''RMD'', ''XRMD'', ''DELE'', ''RNFR'', ''RNTO'', ''STAT'', ''ABOR'', ''CDUP'', ''NOOP'', ''HELP'',
           ''QUIT''];
        if known then Some 80
        else do { unknown \<leftarrow> looks_like_unknown_ftp_command data; Some (if unknown then 80 else 0) } })"

definition pop3_taste :: taster where
  "pop3_taste data dst_port =
     (if dst_port = 110 \<or> dst_port = 995 then Some 85
      else do { score \<leftarrow> pop3_command_score data POP3_MAX_COMMAND_LINE_BYTES;
                Some (case score of Some s \<Rightarrow> s | None \<Rightarrow> 0) })"

definition irc_taste :: taster where
  "irc_taste data dst_port =
     (if dst_port = 6667 \<or> dst_port = 6697 \<or> dst_port = 994 then Some 85
      else if command_token_matches data
                [''NICK'', ''USER'', ''JOIN'', ''PING'', ''CAP'', ''PONG'', ''PART'', ''PRIVMSG'', ''NOTICE'',
                 ''MODE'', ''LIST'', ''QUIT'', ''WHO'', ''WHOIS'']
              \<or> looks_like_irc_command_line data then Some 80
      else Some 0)"

definition tftp_taste :: taster where
  "tftp_taste data dst_port =
     do { ok \<leftarrow> looks_like_tftp_request data; Some (if ok then if dst_port = 69 then 90 else 75 else 0) }"

definition quic_taste :: taster where
  "quic_taste data dst_port =
     (if length data < 9 \<or> length data > MAX_QUIC_TASTE_PACKET_BYTES then Some 0
      else do {
        d0 \<leftarrow> idx data 0;
        if d0 AND 0x80 = 0 \<or> d0 AND 0x40 = 0 then Some 0
        else do {
          d1 \<leftarrow> idx data 1; d2 \<leftarrow> idx data 2; d3 \<leftarrow> idx data 3; d4 \<leftarrow> idx data 4;
          if u32_be d1 d2 d3 d4 \<noteq> 1 then Some 0
          else do { ok \<leftarrow> looks_like_quic_v1_long_header data;
                    Some (if \<not> ok then 0 else if dst_port = 443 then 85 else 80) } } })"

definition telnet_taste :: taster where
  "telnet_taste data dst_port =
     (if starts_with data (bstr ''SSH-'') then Some 0
      else if dst_port = 23 then Some 90
      else if length data \<ge> 3 then do { d0 \<leftarrow> idx data 0; Some (if d0 = 0xFF then 80 else 0) }
      else Some 0)"

definition ssh_taste :: taster where
  "ssh_taste data dst_port =
     do { ok \<leftarrow> looks_like_ssh_client_version data;
       Some (if ok then 95
             else if starts_with data (bstr ''SSH-'') then 0
             else if dst_port = 22 then 85 else 0) }"

definition smb_taste :: taster where
  "smb_taste data dst_port =
     (if dst_port = 445 \<or> dst_port = 139 then Some 85
      else do { ok \<leftarrow> looks_like_smb_message data; Some (if ok then 95 else 0) })"

definition rdp_taste :: taster where
  "rdp_taste data dst_port =
     do { ok \<leftarrow> looks_like_rdp_tpkt data; Some (if ok then if dst_port = 3389 then 95 else 70 else if dst_port = 3389 then 40 else 0) }"

definition redis_taste :: taster where
  "redis_taste data dst_port =
     (if dst_port = 6379 then Some 90
      else do { resp \<leftarrow> looks_like_resp_array data;
                if resp then Some 80
                else do { inl \<leftarrow> looks_like_redis_inline_request data; Some (if inl then 80 else 0) } })"

definition mysql_taste :: taster where
  "mysql_taste data dst_port =
     (if dst_port = 3306 then Some 90
      else do { ok \<leftarrow> looks_like_mysql_client_packet data;
                if ok then do { d3 \<leftarrow> idx data 3; Some (if d3 = 1 then 75 else 80) } else Some 0 })"

definition ldap_taste :: taster where
  "ldap_taste data dst_port =
     (if dst_port = 389 \<or> dst_port = 636 then Some 90
      else do { r \<leftarrow> ldap_app_tag_offset data; Some (if r \<noteq> None then 55 else 0) })"

definition mqtt_taste :: taster where
  "mqtt_taste data dst_port =
     (if dst_port = 1883 then Some 90
      else do { ok \<leftarrow> looks_like_mqtt_client_packet data; Some (if ok then 95 else 0) })"

definition snmp_taste :: taster where
  "snmp_taste data dst_port =
     (if dst_port = 161 \<or> dst_port = 162 then Some 90
      else do { ok \<leftarrow> looks_like_snmp_request data; Some (if ok then 60 else 0) })"

definition socks_taste :: taster where
  "socks_taste data dst_port =
     (if dst_port = 1080 then Some 85
      else do { ok \<leftarrow> looks_like_socks_message data; Some (if ok then 70 else 0) })"

definition memcached_taste :: taster where
  "memcached_taste data dst_port =
     (if dst_port = 11211 then Some 90
      else do { txt \<leftarrow> looks_like_memcached_text_request data;
                if txt then Some 85
                else do { bin \<leftarrow> looks_like_memcached_binary_request data;
                          Some (if bin then 75 else 0) } })"

definition postgres_taste :: taster where
  "postgres_taste data dst_port =
     (if dst_port = 5432 then Some 90
      else do { startup \<leftarrow> looks_like_postgres_startup_message data;
                if startup then Some 85
                else do { cancel \<leftarrow> looks_like_postgres_cancel_request data;
                          if cancel then Some 85
                          else do { typed \<leftarrow> looks_like_postgres_typed_message data;
                                    Some (if typed then 80 else 0) } } })"

definition sip_taste :: taster where
  "sip_taste data dst_port =
     do { ok \<leftarrow> looks_like_sip_request_line data; Some (if ok then if dst_port = 5060 \<or> dst_port = 5061 then 90 else 85 else 0) }"

definition upnp_taste :: taster where
  "upnp_taste data dst_port =
     do { ok \<leftarrow> looks_like_ssdp_request data; Some (if ok then if dst_port = 1900 then 90 else 75 else 0) }"

definition ntp_taste :: taster where
  "ntp_taste data dst_port =
     do { ok \<leftarrow> looks_like_ntp_client_request data; Some (if ok then if dst_port = 123 then 90 else 60 else 0) }"

definition coap_taste :: taster where
  "coap_taste data dst_port =
     do { ok \<leftarrow> looks_like_plain_coap_request data; Some (if ok then if dst_port = 5683 then 90 else 50 else 0) }"

definition nkn_taste :: "json_parser \<Rightarrow> taster" where
  "nkn_taste json data dst_port =
     (if 30001 \<le> dst_port \<and> dst_port \<le> 30003 \<and> looks_like_nkn_json_rpc_request json data then Some 95
      else if looks_like_nkn_json_rpc json data then Some 90
      else Some 0)"

definition finger_taste :: taster where
  "finger_taste data dst_port =
     Some (if dst_port = 79 then 90 else 0)"

definition ident_taste :: taster where
  "ident_taste data dst_port =
     (if dst_port = 113 then Some 90
      else let_else (from_utf8 data) 0 (\<lambda>s.
           let_else (single_command_line s) 0 (\<lambda>query.
             if length query > IDENT_MAX_QUERY_LINE_BYTES then Some 0
             else Some (
               if 0x2C \<in> set query \<and> length (split_on (\<lambda>b. b = 0x2C) query) = 2 \<and>
                  list_all (\<lambda>part. ident_port_text_is_valid (trim_matches (\<lambda>b. b = 0x20) part))
                    (split_on (\<lambda>b. b = 0x2C) query)
               then 75 else 0))))"

definition daytime_taste :: taster where
  "daytime_taste data dst_port =
     Some (if dst_port = 13 then 90 else 0)"

definition time_taste :: taster where
  "time_taste data dst_port =
     Some (if dst_port = 37 then 90 else 0)"

definition chargen_taste :: taster where
  "chargen_taste data dst_port =
     Some (if dst_port = 19 then 90 else 0)"

definition quotd_taste :: taster where
  "quotd_taste data dst_port =
     Some (if dst_port = 17 then 90 else 0)"

definition syslogrecv_taste :: taster where
  "syslogrecv_taste data dst_port =
     do { ok \<leftarrow> looks_like_syslog_pri data; Some (if ok then if dst_port = 514 then 90 else 75 else 0) }"

definition dummy_taste :: taster where
  "dummy_taste data dst_port =
     Some 0"

definition raw_taste :: taster where
  "raw_taste data dst_port =
     Some 1"

lemma mysql_packet_has_header: "looks_like_mysql_client_packet data = Some True \<Longrightarrow> 4 \<le> length data"
  using wp_result [OF mysql_packet_end_wp, of data]
  by (subst (asm) looks_like_mysql_client_packet.simps) (auto split: option.splits)

text \<open>A detector that may be called anywhere, whatever is asked of its answer.\<close>

lemmas detectors_wp =
  looks_like_dns_query_wp looks_like_http_start_line_wp looks_like_http_request_line_shape_wp
  looks_like_tls_wp looks_like_sslv2_wp smtp_command_matches_wp ftp_command_token_matches_wp
  looks_like_unknown_ftp_wp looks_like_tftp_wp looks_like_quic_wp looks_like_ssh_wp
  looks_like_smb_wp looks_like_rdp_wp looks_like_resp_array_wp looks_like_redis_inline_wp
  ldap_app_tag_offset_wp looks_like_mqtt_wp looks_like_snmp_wp looks_like_socks_wp
  looks_like_memcached_text_wp looks_like_memcached_binary_wp looks_like_postgres_startup_wp
  looks_like_postgres_cancel_wp looks_like_postgres_typed_wp looks_like_sip_wp looks_like_ssdp_wp
  looks_like_ntp_wp looks_like_coap_wp looks_like_syslog_wp

lemmas detector_calls = detectors_wp [THEN wp_call]

lemma taster_okI: "(\<And>data dst_port. wp (taste data dst_port) (\<lambda>score. score \<le> 100)) \<Longrightarrow> taster_ok taste"
  by (simp add: taster_ok_def)

lemma mysql_taste_ok: "taster_ok mysql_taste"
proof (rule taster_okI)
  fix data dst_port
  obtain ok where "looks_like_mysql_client_packet data = Some ok"
    using wp_not_None [OF looks_like_mysql_wp(1)] by blast
  then show "wp (mysql_taste data dst_port) (\<lambda>score. score \<le> 100)"
    using mysql_packet_has_header [of data]
    by (cases ok) (auto simp: mysql_taste_def wp_rules)
qed

lemma pop3_taste_ok: "taster_ok pop3_taste"
proof -
  have "s \<le> 80 \<Longrightarrow> s \<le> 100" for s :: u8
    by (erule order_trans) simp
  then show ?thesis
    by (auto intro!: taster_okI wp_call [OF pop3_command_score_wp]
        simp: pop3_taste_def wp_rules split: option.split)
qed

lemma dns_taste_ok: "taster_ok dns_taste"
  by (auto intro!: taster_okI detector_calls simp: dns_taste_def wp_rules)

lemma http_taste_ok: "taster_ok http_taste"
  by (auto intro!: taster_okI detector_calls simp: http_taste_def wp_rules)

lemma tls_taste_ok: "taster_ok tls_taste"
  by (auto intro!: taster_okI detector_calls simp: tls_taste_def wp_rules)

lemma smtp_taste_ok: "taster_ok smtp_taste"
  by (auto intro!: taster_okI detector_calls simp: smtp_taste_def wp_rules)

lemma ftp_taste_ok: "taster_ok ftp_taste"
  by (auto intro!: taster_okI detector_calls simp: ftp_taste_def wp_rules)

lemma irc_taste_ok: "taster_ok irc_taste"
  by (auto intro!: taster_okI detector_calls simp: irc_taste_def wp_rules)

lemma tftp_taste_ok: "taster_ok tftp_taste"
  by (auto intro!: taster_okI detector_calls simp: tftp_taste_def wp_rules)

lemma quic_taste_ok: "taster_ok quic_taste"
  by (auto intro!: taster_okI detector_calls simp: quic_taste_def wp_rules)

lemma telnet_taste_ok: "taster_ok telnet_taste"
  by (auto intro!: taster_okI detector_calls simp: telnet_taste_def wp_rules)

lemma ssh_taste_ok: "taster_ok ssh_taste"
  by (auto intro!: taster_okI detector_calls simp: ssh_taste_def wp_rules)

lemma smb_taste_ok: "taster_ok smb_taste"
  by (auto intro!: taster_okI detector_calls simp: smb_taste_def wp_rules)

lemma rdp_taste_ok: "taster_ok rdp_taste"
  by (auto intro!: taster_okI detector_calls simp: rdp_taste_def wp_rules)

lemma redis_taste_ok: "taster_ok redis_taste"
  by (auto intro!: taster_okI detector_calls simp: redis_taste_def wp_rules)

lemma ldap_taste_ok: "taster_ok ldap_taste"
  by (auto intro!: taster_okI detector_calls simp: ldap_taste_def wp_rules)

lemma mqtt_taste_ok: "taster_ok mqtt_taste"
  by (auto intro!: taster_okI detector_calls simp: mqtt_taste_def wp_rules)

lemma snmp_taste_ok: "taster_ok snmp_taste"
  by (auto intro!: taster_okI detector_calls simp: snmp_taste_def wp_rules)

lemma socks_taste_ok: "taster_ok socks_taste"
  by (auto intro!: taster_okI detector_calls simp: socks_taste_def wp_rules)

lemma memcached_taste_ok: "taster_ok memcached_taste"
  by (auto intro!: taster_okI detector_calls simp: memcached_taste_def wp_rules)

lemma postgres_taste_ok: "taster_ok postgres_taste"
  by (auto intro!: taster_okI detector_calls simp: postgres_taste_def wp_rules)

lemma sip_taste_ok: "taster_ok sip_taste"
  by (auto intro!: taster_okI detector_calls simp: sip_taste_def wp_rules)

lemma upnp_taste_ok: "taster_ok upnp_taste"
  by (auto intro!: taster_okI detector_calls simp: upnp_taste_def wp_rules)

lemma ntp_taste_ok: "taster_ok ntp_taste"
  by (auto intro!: taster_okI detector_calls simp: ntp_taste_def wp_rules)

lemma coap_taste_ok: "taster_ok coap_taste"
  by (auto intro!: taster_okI detector_calls simp: coap_taste_def wp_rules)

lemma nkn_taste_ok: "taster_ok (nkn_taste json)"
  by (auto intro!: taster_okI detector_calls simp: nkn_taste_def wp_rules)

lemma finger_taste_ok: "taster_ok finger_taste"
  by (auto intro!: taster_okI detector_calls simp: finger_taste_def wp_rules)

lemma ident_taste_ok: "taster_ok ident_taste"
  by (auto intro!: taster_okI detector_calls simp: ident_taste_def wp_rules)

lemma daytime_taste_ok: "taster_ok daytime_taste"
  by (auto intro!: taster_okI detector_calls simp: daytime_taste_def wp_rules)

lemma time_taste_ok: "taster_ok time_taste"
  by (auto intro!: taster_okI detector_calls simp: time_taste_def wp_rules)

lemma chargen_taste_ok: "taster_ok chargen_taste"
  by (auto intro!: taster_okI detector_calls simp: chargen_taste_def wp_rules)

lemma quotd_taste_ok: "taster_ok quotd_taste"
  by (auto intro!: taster_okI detector_calls simp: quotd_taste_def wp_rules)

lemma syslogrecv_taste_ok: "taster_ok syslogrecv_taste"
  by (auto intro!: taster_okI detector_calls simp: syslogrecv_taste_def wp_rules)

lemma dummy_taste_ok: "taster_ok dummy_taste"
  by (auto intro!: taster_okI detector_calls simp: dummy_taste_def wp_rules)

lemma raw_taste_ok: "taster_ok raw_taste"
  by (auto intro!: taster_okI detector_calls simp: raw_taste_def wp_rules)

end
