(* ===== verification/Router.thy ===== *)
theory Router
  imports Taste
begin

text \<open>
  The protocol router, \<open>nettrap-proxy/src/router.rs\<close>: registration of detectors, the choice of
  the best score, the fallback to a configured default handler and the filter for UDP.
\<close>

record registered_handler =
  h_name :: bytes
  h_taster :: taster
  h_hidden :: bool

record protocol_router =
  r_handlers :: "registered_handler list"
  default_tcp :: "bytes option"
  default_udp :: "bytes option"

section \<open>Operations\<close>

definition router_new :: protocol_router where
  "router_new = \<lparr>r_handlers = [], default_tcp = None, default_udp = None\<rparr>"

definition blank :: "u8 \<Rightarrow> bool" where
  "blank b \<longleftrightarrow> b = 0x20 \<or> b = 0x09"

text \<open>\<open>!name.is_empty() && !name.chars().any(...)\<close>, the test on a trimmed handler name.\<close>

definition handler_name_is_plain :: "bytes \<Rightarrow> bool" where
  "handler_name_is_plain name \<longleftrightarrow>
     name \<noteq> [] \<and>
     \<not> list_ex (\<lambda>ch. char_is_control ch \<or> char_is_whitespace ch \<and> ch \<noteq> 0x20) (chars name)"

definition normalize_default_name :: "bytes \<Rightarrow> bytes option" where
  "normalize_default_name name =
     (let name = trim_matches blank name in if handler_name_is_plain name then Some name else None)"

definition with_default_tcp :: "protocol_router \<Rightarrow> bytes \<Rightarrow> protocol_router" where
  "with_default_tcp r name = r\<lparr>default_tcp := normalize_default_name name\<rparr>"

definition with_default_udp :: "protocol_router \<Rightarrow> bytes \<Rightarrow> protocol_router" where
  "with_default_udp r name = r\<lparr>default_udp := normalize_default_name name\<rparr>"

definition register :: "bytes \<Rightarrow> taster \<Rightarrow> bool \<Rightarrow> protocol_router \<Rightarrow> protocol_router" where
  "register name taster hidden r =
     r\<lparr>r_handlers := r_handlers r @ [\<lparr>h_name = name, h_taster = taster, h_hidden = hidden\<rparr>]\<rparr>"

fun route_loop :: "(bytes \<Rightarrow> bool) \<Rightarrow> bytes \<Rightarrow> u16 \<Rightarrow> registered_handler list \<Rightarrow> bytes option \<Rightarrow>
    taste_score \<Rightarrow> (bytes \<times> taste_score) option rs" where
  "route_loop inc data dst_port [] best_name best_score =
     Some (map_option (\<lambda>name. (name, best_score)) best_name)"
| "route_loop inc data dst_port (h # hs) best_name best_score =
     (if \<not> inc (h_name h) then route_loop inc data dst_port hs best_name best_score
      else case h_taster h data dst_port of
        None \<Rightarrow> None
      | Some score \<Rightarrow>
          if score > best_score then route_loop inc data dst_port hs (Some (h_name h)) score
          else route_loop inc data dst_port hs best_name best_score)"

definition route_filtered ::
    "protocol_router \<Rightarrow> bytes \<Rightarrow> u16 \<Rightarrow> (bytes \<Rightarrow> bool) \<Rightarrow> (bytes \<times> taste_score) option rs" where
  "route_filtered r data dst_port inc = route_loop inc data dst_port (r_handlers r) None 0"

definition route :: "protocol_router \<Rightarrow> bytes \<Rightarrow> u16 \<Rightarrow> (bytes \<times> taste_score) option rs" where
  "route r data dst_port = route_filtered r data dst_port (\<lambda>_. True)"

definition route_with_default :: "protocol_router \<Rightarrow> bytes \<Rightarrow> u16 \<Rightarrow> bytes option \<Rightarrow>
    (bytes \<Rightarrow> bool) \<Rightarrow> (bytes \<times> taste_score) option rs" where
  "route_with_default r data dst_port default_handler inc =
     do { best \<leftarrow> route_filtered r data dst_port inc;
          let fallback = (case default_handler of
              None \<Rightarrow> None
            | Some name \<Rightarrow>
                if handler_name_is_plain (trim_matches blank name) \<and> inc name then Some (name, 0)
                else None)
          in Some (case best of
               None \<Rightarrow> fallback
             | Some (name, score) \<Rightarrow>
                 if score > 1 then Some (name, score)
                 else if score = 1 \<and> default_handler = None then Some (name, score)
                 else fallback) }"

definition is_udp_supported_handler :: "bytes \<Rightarrow> bool" where
  "is_udp_supported_handler name =
     one_of name [''dns'', ''tftp'', ''snmp'', ''sip'', ''upnp'', ''ntp'', ''coap'', ''quic'', ''daytime'',
       ''time'', ''chargen'', ''quotd'', ''syslogrecv'', ''raw'']"

definition route_tcp :: "protocol_router \<Rightarrow> bytes \<Rightarrow> u16 \<Rightarrow> (bytes \<times> taste_score) option rs" where
  "route_tcp r data dst_port = route_with_default r data dst_port (default_tcp r) (\<lambda>_. True)"

definition route_udp :: "protocol_router \<Rightarrow> bytes \<Rightarrow> u16 \<Rightarrow> (bytes \<times> taste_score) option rs" where
  "route_udp r data dst_port =
     route_with_default r data dst_port (default_udp r) is_udp_supported_handler"

definition default_tcp_handler :: "protocol_router \<Rightarrow> bytes option" where
  "default_tcp_handler r =
     (case default_tcp r of
        None \<Rightarrow> None
      | Some name \<Rightarrow> if handler_name_is_plain (trim_matches blank name) then Some name else None)"

definition default_udp_handler :: "protocol_router \<Rightarrow> bytes option" where
  "default_udp_handler r =
     (case default_udp r of
        None \<Rightarrow> None
      | Some name \<Rightarrow> if handler_name_is_plain (trim_matches blank name) then Some name else None)"

definition handler_count :: "protocol_router \<Rightarrow> usize" where
  "handler_count r = length (r_handlers r)"

definition default_tastes :: "json_parser \<Rightarrow> (string \<times> taster) list" where
  "default_tastes json =
     [(''dns'', dns_taste), (''http'', http_taste), (''tls'', tls_taste), (''smtp'', smtp_taste),
      (''ftp'', ftp_taste), (''pop3'', pop3_taste), (''irc'', irc_taste), (''tftp'', tftp_taste),
      (''quic'', quic_taste), (''telnet'', telnet_taste), (''ssh'', ssh_taste), (''smb'', smb_taste),
      (''rdp'', rdp_taste), (''redis'', redis_taste), (''mysql'', mysql_taste), (''ldap'', ldap_taste),
      (''mqtt'', mqtt_taste), (''snmp'', snmp_taste), (''socks'', socks_taste),
      (''memcached'', memcached_taste), (''nkn'', nkn_taste json), (''postgres'', postgres_taste),
      (''sip'', sip_taste), (''upnp'', upnp_taste), (''ntp'', ntp_taste), (''coap'', coap_taste),
      (''finger'', finger_taste), (''ident'', ident_taste), (''daytime'', daytime_taste),
      (''time'', time_taste), (''chargen'', chargen_taste), (''quotd'', quotd_taste),
      (''syslogrecv'', syslogrecv_taste), (''dummy'', dummy_taste), (''raw'', raw_taste)]"

definition with_default_tastes ::
    "json_parser \<Rightarrow> bytes option \<Rightarrow> bytes option \<Rightarrow> protocol_router" where
  "with_default_tastes json dt du =
     (let r = router_new;
          r = (case dt of Some name \<Rightarrow> with_default_tcp r name | None \<Rightarrow> r);
          r = (case du of Some name \<Rightarrow> with_default_udp r name | None \<Rightarrow> r)
      in fold (\<lambda>(name, taste). register (bstr name) taste False) (default_tastes json) r)"

section \<open>The choice of a handler\<close>

text \<open>The reference: the first handler among those with the highest positive score.\<close>

fun pick_best :: "('n \<times> taste_score) list \<Rightarrow> 'n option \<Rightarrow> taste_score \<Rightarrow> ('n \<times> taste_score) option" where
  "pick_best [] best_name best_score = map_option (\<lambda>n. (n, best_score)) best_name"
| "pick_best ((n, s) # xs) best_name best_score =
     (if s > best_score then pick_best xs (Some n) s else pick_best xs best_name best_score)"

definition first_max_at :: "('n \<times> taste_score) list \<Rightarrow> nat \<Rightarrow> bool" where
  "first_max_at xs i \<longleftrightarrow> i < length xs \<and>
     (\<forall>j < length xs. snd (xs ! j) \<le> snd (xs ! i) \<and> (j < i \<longrightarrow> snd (xs ! j) < snd (xs ! i)))"

lemma first_max_at_Cons_0: "first_max_at ((n, s) # xs) 0 \<longleftrightarrow> (\<forall>x \<in> set xs. snd x \<le> s)"
  by (auto simp: first_max_at_def all_set_conv_all_nth All_less_Suc2)

lemma first_max_at_Cons_Suc:
  "first_max_at ((n, s) # xs) (Suc i) \<longleftrightarrow> first_max_at xs i \<and> s < snd (xs ! i)"
  unfolding first_max_at_def length_Cons All_less_Suc2 by auto

lemma ex_nat_cases: "(\<exists>i. P i) \<longleftrightarrow> P 0 \<or> (\<exists>i. P (Suc i))"
  by (metis not0_implies_Suc)

lemma pick_best_Some_iff:
  "pick_best xs bn bs = Some (n, s) \<longleftrightarrow>
     (bn = Some n \<and> s = bs \<and> (\<forall>x \<in> set xs. snd x \<le> bs)) \<or>
     (bs < s \<and> (\<exists>i. first_max_at xs i \<and> xs ! i = (n, s)))"
proof (induction xs arbitrary: bn bs)
  case Nil
  then show ?case by (auto simp: first_max_at_def)
next
  case (Cons x xs)
  obtain m t where x: "x = (m, t)" by (cases x)
  have split: "(\<exists>i. first_max_at ((m, t) # xs) i \<and> ((m, t) # xs) ! i = (n, s)) \<longleftrightarrow>
      (\<forall>x \<in> set xs. snd x \<le> t) \<and> (m, t) = (n, s) \<or>
      (\<exists>i. first_max_at xs i \<and> t < s \<and> xs ! i = (n, s))"
    by (subst ex_nat_cases) (auto simp: first_max_at_Cons_0 first_max_at_Cons_Suc)
  show ?case
    unfolding x split by (auto simp: Cons.IH)
qed

lemma pick_best_None_iff:
  "pick_best xs bn bs = None \<longleftrightarrow> bn = None \<and> (\<forall>x \<in> set xs. snd x \<le> bs)"
  by (induction xs bn bs rule: pick_best.induct) auto

text \<open>What the router relies on: every registered detector keeps the contract of the trait.\<close>

locale routing =
  fixes handlers :: "registered_handler list"
  assumes tasters_ok: "h \<in> set handlers \<Longrightarrow> taster_ok (h_taster h)"
begin

definition scores :: "(bytes \<Rightarrow> bool) \<Rightarrow> bytes \<Rightarrow> u16 \<Rightarrow> (bytes \<times> taste_score) list" where
  "scores inc data dst_port =
     map (\<lambda>h. (h_name h, the (h_taster h data dst_port))) (filter (\<lambda>h. inc (h_name h)) handlers)"

lemma taste_Some:
  assumes "h \<in> set handlers"
  obtains s where "h_taster h data dst_port = Some s" "s \<le> 100"
  using tasters_ok [OF assms] by (auto simp: taster_ok_def wp_def)

lemma route_loop_pick:
  "set hs \<subseteq> set handlers \<Longrightarrow>
   route_loop inc data dst_port hs bn bs =
     Some (pick_best (map (\<lambda>h. (h_name h, the (h_taster h data dst_port)))
            (filter (\<lambda>h. inc (h_name h)) hs)) bn bs)"
proof (induction hs arbitrary: bn bs)
  case (Cons h hs)
  then have "h \<in> set handlers" by simp
  then obtain s where "h_taster h data dst_port = Some s" by (rule taste_Some)
  with Cons show ?case by simp
qed simp

lemma route_filtered_refines:
  "r_handlers r = handlers \<Longrightarrow>
   route_filtered r data dst_port inc = Some (pick_best (scores inc data dst_port) None 0)"
  by (simp add: route_filtered_def route_loop_pick scores_def)

lemma route_filtered_Some:
  assumes "r_handlers r = handlers"
    and "route_filtered r data dst_port inc = Some (Some (name, score))"
  shows "inc name" "name \<in> h_name ` set handlers" "0 < score" "score \<le> 100"
proof -
  obtain i where i: "i < length (scores inc data dst_port)" "scores inc data dst_port ! i = (name, score)"
    and pos: "0 < score"
    using assms unfolding route_filtered_refines [OF assms(1)] option.inject pick_best_Some_iff
    by (auto simp: first_max_at_def)
  from i have "(name, score) \<in> set (scores inc data dst_port)"
    by (metis nth_mem)
  then obtain h where h: "h \<in> set handlers" "inc (h_name h)" "name = h_name h"
    "score = the (h_taster h data dst_port)"
    by (auto simp: scores_def)
  then show "inc name" "name \<in> h_name ` set handlers" by auto
  obtain s where "h_taster h data dst_port = Some s" "s \<le> 100" using h(1) by (rule taste_Some)
  then show "score \<le> 100" using h(4) by simp
  show "0 < score" by (rule pos)
qed

end

section \<open>The default router\<close>

definition default_handlers :: "json_parser \<Rightarrow> registered_handler list" where
  "default_handlers json =
     map (\<lambda>(n, t). \<lparr>h_name = bstr n, h_taster = t, h_hidden = False\<rparr>) (default_tastes json)"

lemmas all_tastes_ok = dns_taste_ok http_taste_ok tls_taste_ok smtp_taste_ok ftp_taste_ok pop3_taste_ok
  irc_taste_ok tftp_taste_ok quic_taste_ok telnet_taste_ok ssh_taste_ok smb_taste_ok rdp_taste_ok
  redis_taste_ok mysql_taste_ok ldap_taste_ok mqtt_taste_ok snmp_taste_ok socks_taste_ok
  memcached_taste_ok nkn_taste_ok postgres_taste_ok sip_taste_ok upnp_taste_ok ntp_taste_ok
  coap_taste_ok finger_taste_ok ident_taste_ok daytime_taste_ok time_taste_ok chargen_taste_ok
  quotd_taste_ok syslogrecv_taste_ok dummy_taste_ok raw_taste_ok

lemma default_tastes_ok: "list_all (\<lambda>(n, t). taster_ok t) (default_tastes json)"
  by (simp add: default_tastes_def all_tastes_ok)

interpretation default_router: routing "default_handlers json" for json
  using default_tastes_ok [of json]
  by unfold_locales (auto simp: default_handlers_def list_all_iff)

lemma fold_register:
  "fold (\<lambda>(n, t). register (bstr n) t False) xs r =
     r\<lparr>r_handlers := r_handlers r @ map (\<lambda>(n, t). \<lparr>h_name = bstr n, h_taster = t, h_hidden = False\<rparr>) xs\<rparr>"
  by (induction xs arbitrary: r) (auto simp: register_def)

lemma with_default_tastes_simps [simp]:
  "r_handlers (with_default_tastes json dt du) = default_handlers json"
  "default_tcp (with_default_tastes json dt du) = Option.bind dt normalize_default_name"
  "default_udp (with_default_tastes json dt du) = Option.bind du normalize_default_name"
  by (auto simp: with_default_tastes_def Let_def fold_register router_new_def with_default_tcp_def
      with_default_udp_def default_handlers_def split: option.split)

lemma trim_matches_idem [simp]: "trim_matches p (trim_matches p xs) = trim_matches p xs"
proof -
  have "dropWhile p (rev (dropWhile p (rev (dropWhile p xs)))) = rev (dropWhile p (rev (dropWhile p xs)))"
  proof (cases "dropWhile p xs")
    case (Cons y ys)
    then have "\<not> p y" by (metis hd_dropWhile list.sel(1) list.simps(3))
    then show ?thesis
      unfolding Cons by (simp add: dropWhile_append)
  next
    case Nil
    show ?thesis unfolding Nil by simp
  qed
  then show ?thesis by (simp add: trim_matches_def)
qed

lemma normalize_default_name_plain:
  "normalize_default_name name = Some d \<Longrightarrow> handler_name_is_plain (trim_matches blank d)"
  by (auto simp: normalize_default_name_def Let_def split: if_splits)

lemma default_scores_all:
  "default_router.scores json (\<lambda>_. True) data dst_port =
     map (\<lambda>(n, t). (bstr n, the (t data dst_port))) (default_tastes json)"
  unfolding default_router.scores_def unfolding default_handlers_def by (auto simp: case_prod_beta)

lemma default_scores_raw:
  "inc (bstr ''raw'') \<Longrightarrow> (bstr ''raw'', 1) \<in> set (default_router.scores json inc data dst_port)"
  unfolding default_router.scores_def set_map set_filter
  by (rule image_eqI [where x = "\<lparr>h_name = bstr ''raw'', h_taster = raw_taste, h_hidden = False\<rparr>"])
    (simp_all add: default_handlers_def default_tastes_def raw_taste_def)

lemma route_filtered_default:
  assumes "inc (bstr ''raw'')"
  obtains name score where
    "route_filtered (with_default_tastes json dt du) data dst_port inc = Some (Some (name, score))"
    "inc name" "name \<in> set (map (bstr \<circ> fst) (default_tastes json))" "0 < score" "score \<le> 100"
proof -
  let ?r = "with_default_tastes json dt du"
  have "pick_best (default_router.scores json inc data dst_port) None 0 \<noteq> None"
    using default_scores_raw [of inc json data dst_port] assms unfolding pick_best_None_iff by force
  then obtain name score where r: "route_filtered ?r data dst_port inc = Some (Some (name, score))"
    by (auto simp: default_router.route_filtered_refines)
  have "r_handlers ?r = default_handlers json" by simp
  note best = default_router.route_filtered_Some [OF this r]
  have "name \<in> set (map (bstr \<circ> fst) (default_tastes json))"
    using best(2) by (force simp: default_handlers_def)
  with r best show ?thesis by (intro that)
qed

lemma udp_supports_raw: "is_udp_supported_handler (bstr ''raw'')"
  by (simp add: is_udp_supported_handler_def one_of_def)

subsection \<open>A concrete sample\<close>

lemmas taste_defs = dns_taste_def http_taste_def tls_taste_def smtp_taste_def ftp_taste_def
  pop3_taste_def irc_taste_def tftp_taste_def quic_taste_def telnet_taste_def ssh_taste_def
  smb_taste_def rdp_taste_def redis_taste_def mysql_taste_def ldap_taste_def mqtt_taste_def
  snmp_taste_def socks_taste_def memcached_taste_def nkn_taste_def postgres_taste_def sip_taste_def
  upnp_taste_def ntp_taste_def coap_taste_def finger_taste_def ident_taste_def daytime_taste_def
  time_taste_def chargen_taste_def quotd_taste_def syslogrecv_taste_def dummy_taste_def raw_taste_def

lemmas empty_sample_defs =
  looks_like_dns_query_def looks_like_http_start_line_def looks_like_http_request_line_shape_def
  header_line_endings_are_plausible_def crlf_line_endings_are_plausible_def first_text_line_def
  three_words_def space_parts_def header_end_of_def looks_like_complete_tls_client_hello_def
  looks_like_sslv2_client_hello_def sslv2_client_hello_end_def smtp_command_matches_def
  strict_command_parts_def single_command_line_def ftp_command_token_matches_def
  first_char_is_whitespace_def last_char_is_whitespace_def FTP_MAX_COMMAND_LINE_BYTES_def
  ftp_verb_def looks_like_unknown_ftp_command_def pop3_command_score_def
  command_token_matches_def first_ascii_token_def has_bare_lf_def has_bare_cr_def
  any_ignore_case_def looks_like_irc_command_line_def eq_ignore_ascii_case_def
  to_ascii_lowercase_def looks_like_tftp_request_def looks_like_ssh_client_version_def
  looks_like_smb_message_def smb_netbios_frame_def looks_like_direct_smb_payload_def
  looks_like_rdp_tpkt_def rdp_tpkt_frame_end_def looks_like_resp_array_def
  redis_resp_array_end_def looks_like_redis_inline_request_def redis_inline_request_end_def
  find_crlf_from_def find_crlf_def mysql_client_packet_end_def ldap_app_tag_offset_def
  looks_like_mqtt_client_packet_def idx_def looks_like_snmp_request_def
  looks_like_socks_message_def looks_like_socks4_request_def looks_like_socks5_message_def
  socks5_greeting_len_def socks5_request_is_well_formed_def looks_like_memcached_text_request_def
  memcached_text_command_end_def looks_like_memcached_binary_request_def
  memcached_binary_request_end_def looks_like_nkn_json_rpc_request_def
  looks_like_nkn_json_rpc_def nkn_json_rpc_request_def looks_like_postgres_startup_message_def
  looks_like_postgres_cancel_request_def looks_like_postgres_typed_message_def
  postgres_typed_message_end_def looks_like_sip_request_line_def looks_like_ssdp_request_def
  looks_like_ntp_client_request_def looks_like_plain_coap_request_def looks_like_syslog_pri_def
  looks_like_bsd_syslog_timestamp_def from_utf8_def chars_def contains_unicode_line_separator_def
  strip_suffix_def ends_with_def starts_with_def CRLF_def bstr_def Let_def

lemma empty_sample:
  "dns_taste [] 13 = Some 0"
  "http_taste [] 13 = Some 0"
  "tls_taste [] 13 = Some 0"
  "smtp_taste [] 13 = Some 0"
  "ftp_taste [] 13 = Some 0"
  "pop3_taste [] 13 = Some 0"
  "irc_taste [] 13 = Some 0"
  "tftp_taste [] 13 = Some 0"
  "quic_taste [] 13 = Some 0"
  "telnet_taste [] 13 = Some 0"
  "ssh_taste [] 13 = Some 0"
  "smb_taste [] 13 = Some 0"
  "rdp_taste [] 13 = Some 0"
  "redis_taste [] 13 = Some 0"
  "mysql_taste [] 13 = Some 0"
  "ldap_taste [] 13 = Some 0"
  "mqtt_taste [] 13 = Some 0"
  "snmp_taste [] 13 = Some 0"
  "socks_taste [] 13 = Some 0"
  "memcached_taste [] 13 = Some 0"
  "nkn_taste (\<lambda>_. None) [] 13 = Some 0"
  "postgres_taste [] 13 = Some 0"
  "sip_taste [] 13 = Some 0"
  "upnp_taste [] 13 = Some 0"
  "ntp_taste [] 13 = Some 0"
  "coap_taste [] 13 = Some 0"
  "finger_taste [] 13 = Some 0"
  "ident_taste [] 13 = Some 0"
  "daytime_taste [] 13 = Some 90"
  "time_taste [] 13 = Some 0"
  "chargen_taste [] 13 = Some 0"
  "quotd_taste [] 13 = Some 0"
  "syslogrecv_taste [] 13 = Some 0"
  "dummy_taste [] 13 = Some 0"
  "raw_taste [] 13 = Some 1"
  by (simp_all add: taste_defs empty_sample_defs looks_like_mysql_client_packet.simps)

section \<open>Properties\<close>

text \<open>Property C5. Detection cannot be crashed or dodged: on every sample and port the TCP router
  built by \<open>with_default_tastes\<close> returns, it always names a handler, the score is at most 100, and
  the handler is one of the registered detectors or the normalised configured default.\<close>

theorem route_tcp_total:
  "\<exists>name score.
     route_tcp (with_default_tastes json dt du) data dst_port = Some (Some (name, score)) \<and>
     score \<le> 100 \<and>
     (name \<in> set (map (bstr \<circ> fst) (default_tastes json)) \<or>
      Option.bind dt normalize_default_name = Some name)"
proof -
  obtain name score where
    best: "route_filtered (with_default_tastes json dt du) data dst_port (\<lambda>_. True) = Some (Some (name, score))"
      "name \<in> set (map (bstr \<circ> fst) (default_tastes json))" "0 < score" "score \<le> 100"
    by (rule route_filtered_default [of "\<lambda>_. True" json dt du data dst_port]) auto
  show ?thesis
  proof (cases "Option.bind dt normalize_default_name")
    case None
    have "score = 1 \<or> score > 1" using best(3) by (metis word_less_1 word_neq_0_conv linorder_cases)
    then show ?thesis using best None by (auto simp: route_tcp_def route_with_default_def)
  next
    case (Some d)
    then have "handler_name_is_plain (trim_matches blank d)"
      by (auto simp: bind_eq_Some_conv dest: normalize_default_name_plain)
    then show ?thesis using best Some by (auto simp: route_tcp_def route_with_default_def Let_def)
  qed
qed

text \<open>Property C7. The UDP router never panics and never names a handler that is not served over
  UDP. It names none only when the configured default is a handler that is not served over UDP.\<close>

theorem route_udp_supported:
  "\<exists>r. route_udp (with_default_tastes json dt du) data dst_port = Some r \<and>
     (case r of
        Some (name, score) \<Rightarrow> is_udp_supported_handler name \<and> score \<le> 100
      | None \<Rightarrow> \<exists>d. Option.bind du normalize_default_name = Some d \<and> \<not> is_udp_supported_handler d)"
proof -
  obtain name score where
    best: "route_filtered (with_default_tastes json dt du) data dst_port is_udp_supported_handler
        = Some (Some (name, score))"
      "is_udp_supported_handler name" "0 < score" "score \<le> 100"
    using udp_supports_raw by (rule route_filtered_default [of _ json dt du data dst_port]) auto
  show ?thesis
  proof (cases "Option.bind du normalize_default_name")
    case None
    have "score = 1 \<or> score > 1" using best(3) by (metis word_less_1 word_neq_0_conv linorder_cases)
    then show ?thesis using best None by (auto simp: route_udp_def route_with_default_def)
  next
    case (Some d)
    then have "handler_name_is_plain (trim_matches blank d)"
      by (auto simp: bind_eq_Some_conv dest: normalize_default_name_plain)
    then show ?thesis using best Some by (auto simp: route_udp_def route_with_default_def Let_def)
  qed
qed

text \<open>Property C6. The route is the first registered handler among those with the highest score:
  handler number \<open>i\<close> is chosen exactly when its score is positive, no score is higher, and every
  handler registered before it scores lower.\<close>

theorem route_first_best:
  "route (with_default_tastes json dt du) data dst_port = Some (Some (name, score)) \<longleftrightarrow>
     (\<exists>i < length (default_tastes json).
        name = bstr (fst (default_tastes json ! i)) \<and>
        snd (default_tastes json ! i) data dst_port = Some score \<and> 0 < score \<and>
        (\<forall>j < length (default_tastes json).
           \<exists>s. snd (default_tastes json ! j) data dst_port = Some s \<and> s \<le> score \<and>
               (j < i \<longrightarrow> s < score)))"
  (is "?L \<longleftrightarrow> ?R")
proof -
  let ?t = "default_tastes json"
  let ?xs = "default_router.scores json (\<lambda>_. True) data dst_port"
  have len: "length ?xs = length ?t"
    by (simp add: default_scores_all)
  have nth: "?xs ! i = (bstr (fst (?t ! i)), the (snd (?t ! i) data dst_port))" if "i < length ?t" for i
    using that by (simp add: default_scores_all case_prod_beta)
  have score_at: "snd (?t ! i) data dst_port = Some s \<longleftrightarrow> s = snd (?xs ! i)" if "i < length ?t" for i s
  proof -
    have "taster_ok (snd (?t ! i))"
      using default_tastes_ok [of json] that by (auto simp: list_all_length case_prod_beta)
    then obtain v where "snd (?t ! i) data dst_port = Some v"
      unfolding taster_ok_def wp_def by blast
    then show ?thesis by (auto simp: nth [OF that])
  qed
  have "?L \<longleftrightarrow> 0 < score \<and> (\<exists>i. first_max_at ?xs i \<and> ?xs ! i = (name, score))"
    by (simp add: route_def default_router.route_filtered_refines pick_best_Some_iff)
  also have "\<dots> \<longleftrightarrow> (\<exists>i < length ?t. name = fst (?xs ! i) \<and> score = snd (?xs ! i) \<and> 0 < score \<and>
      (\<forall>j < length ?t. snd (?xs ! j) \<le> score \<and> (j < i \<longrightarrow> snd (?xs ! j) < score)))"
    unfolding first_max_at_def len by (auto simp: prod_eq_iff)
  also have "\<dots> \<longleftrightarrow> ?R"
    by (simp add: score_at cong: conj_cong) (simp add: nth cong: conj_cong)
  finally show ?thesis .
qed

text \<open>The empty sample to port 13: every detector stays at 0 except \<open>daytime\<close> and \<open>raw\<close>.\<close>

theorem route_first_best_witness:
  "route (with_default_tastes (\<lambda>_. None) None None) [] 13 = Some (Some (bstr ''daytime'', 90))"
  unfolding route_first_best
  by (rule exI [of _ 28]) (simp add: default_tastes_def All_less_Suc2 empty_sample)


lemma empty_sample_route:
  "route (with_default_tastes (\<lambda>_. None) (Some [0x68, 0x20]) None) [] 0 = Some (Some (bstr ''raw'', 1))"
  by (simp add: route_def route_filtered_def default_handlers_def default_tastes_def taste_defs
      empty_sample_defs looks_like_mysql_client_packet.simps)

lemma normalize_h: "normalize_default_name [0x68, 0x20] = Some [0x68]"
  by (simp add: normalize_default_name_def trim_matches_def blank_def handler_name_is_plain_def
      chars_def Let_def utf8_decode_ascii char_is_control_def char_is_whitespace_def)


end
