(* ===== verification/Rust_Bits.thy ===== *)
theory Rust_Bits
  imports Prelude
begin

text \<open>
  Big-endian accumulation and masks. The sources build integers from bytes with
  \<open>acc = (acc << 8) | byte\<close> and test bits with \<open>&\<close>; the lemmas of this theory turn both into
  arithmetic, which is what the round trips of the encoders and decoders need.
\<close>

section \<open>Shift and or\<close>

lemma shift_or_nat: "b < 256 \<Longrightarrow> push_bit 8 n OR b = n * 256 + b" for b n :: nat
proof -
  assume "b < 256"
  then have "take_bit 8 b = b" by (simp add: take_bit_nat_eq_self)
  then have "\<not> bit b k" if "8 \<le> k" for k
    using that by (metis bit_take_bit_iff not_less)
  then have "push_bit 8 n + b = push_bit 8 n OR b"
    by (intro disjunctive_add) (auto simp: bit_simps)
  then show ?thesis by (simp add: push_bit_eq_mult mult.commute)
qed

lemma shift_or_word: "push_bit 8 w OR ucast b = w * 256 + ucast b" for w :: "'a::len word" and b :: u8
proof -
  have "\<not> bit (ucast b :: 'a word) k" if "8 \<le> k" for k
    using that by (auto simp: bit_simps dest: bit_imp_le_length)
  then have "push_bit 8 w + ucast b = push_bit 8 w OR ucast b"
    by (intro disjunctive_add) (auto simp: bit_simps)
  then show ?thesis by (simp add: push_bit_eq_mult mult.commute)
qed

text \<open>\<open>for byte in bytes { acc = (acc << 8) | byte }\<close> on \<open>usize\<close> and on a word.\<close>

definition be_nat :: "bytes \<Rightarrow> nat" where
  "be_nat = foldl (\<lambda>acc b. push_bit 8 acc OR unat b) 0"

definition be_word :: "bytes \<Rightarrow> 'a::len word" where
  "be_word = foldl (\<lambda>acc b. push_bit 8 acc OR ucast b) 0"

lemma foldl_be_nat: "foldl (\<lambda>acc b. push_bit 8 acc OR unat b) a bs = a * 256 ^ length bs + be_nat bs"
  unfolding be_nat_def
proof (induction bs rule: rev_induct)
  case (snoc b bs)
  then show ?case by (simp add: shift_or_nat algebra_simps)
qed simp

lemma be_nat_simps [simp]:
  "be_nat [] = 0"
  "be_nat (b # bs) = unat b * 256 ^ length bs + be_nat bs"
proof -
  show "be_nat [] = 0" by (simp add: be_nat_def)
  have "be_nat (b # bs) = foldl (\<lambda>acc b. push_bit 8 acc OR unat b) (unat b) bs"
    unfolding be_nat_def by simp
  then show "be_nat (b # bs) = unat b * 256 ^ length bs + be_nat bs"
    by (simp only: foldl_be_nat)
qed

lemma be_nat_less: "be_nat bs < 256 ^ length bs"
proof (induction bs)
  case (Cons b bs)
  have "unat b * 256 ^ length bs + be_nat bs < (unat b + 1) * 256 ^ length bs"
    using Cons by simp
  also have "\<dots> \<le> 256 * 256 ^ length bs"
    using unat_u8_less [of b] by (intro mult_right_mono) auto
  finally show ?case by simp
qed simp

lemma be_word_eq: "(be_word bs :: 'a::len word) = word_of_nat (be_nat bs)"
proof (induction bs rule: rev_induct)
  case (snoc b bs)
  have "be_nat (bs @ [b]) = be_nat bs * 256 + unat b"
    unfolding be_nat_def by (simp add: shift_or_nat)
  with snoc show ?case
    by (simp add: be_word_def shift_or_word unsigned_ucast_eq)
qed (simp add: be_word_def)

lemma unat_be_word: "length bs \<le> 4 \<Longrightarrow> unat (be_word bs :: u32) = be_nat bs"
proof -
  assume "length bs \<le> 4"
  then have "(256::nat) ^ length bs \<le> 256 ^ 4"
    by (rule power_increasing) simp
  with be_nat_less [of bs] have "be_nat bs < 2 ^ 32" by simp
  then show ?thesis
    by (simp add: be_word_eq unsigned_of_nat take_bit_nat_eq_self)
qed

section \<open>Bytes of a number\<close>

lemma unat_word_nat_u8: "unat (word_of_nat n :: u8) = n mod 256"
  by (simp add: unsigned_of_nat take_bit_eq_mod)

lemma unat_word_nat_u16: "unat (word_of_nat n :: u16) = n mod 65536"
  by (simp add: unsigned_of_nat take_bit_eq_mod)

lemma unat_word_nat_u32: "unat (word_of_nat n :: u32) = n mod 4294967296"
  by (simp add: unsigned_of_nat take_bit_eq_mod)

lemma unat_ucast_u8: "unat (ucast w :: u8) = unat w mod 256" for w :: "'a::len word"
  by (simp add: unsigned_ucast_eq take_bit_eq_mod)

lemma bytes_of_16: "x < 65536 \<Longrightarrow> x div 256 mod 256 * 256 + x mod 256 = x" for x :: nat
  by (simp add: less_mult_imp_div_less)

lemma bytes_of_32:
  fixes x :: nat
  assumes "x < 4294967296"
  shows "x div 16777216 mod 256 * 16777216 + (x div 65536 mod 256 * 65536 +
    (x div 256 mod 256 * 256 + x mod 256)) = x"
proof -
  have top: "x div 16777216 mod 256 = x div 16777216"
    using assms by (simp add: less_mult_imp_div_less)
  have "x div 65536 = x div 16777216 * 256 + x div 65536 mod 256"
    using div_mult_mod_eq [of "x div 65536" 256] by (simp flip: div_mult2_eq)
  moreover have "x div 256 = x div 65536 * 256 + x div 256 mod 256"
    using div_mult_mod_eq [of "x div 256" 256] by (simp flip: div_mult2_eq)
  moreover have "x = x div 256 * 256 + x mod 256" by simp
  ultimately show ?thesis unfolding top by linarith
qed

lemma be_nat_u16_to_be: "be_nat (u16_to_be w) = unat w"
  using bytes_of_16 [OF unat_u16_less, of w] by (simp add: u16_to_be_def unat_word_nat_u8)

lemma be_nat_u32_to_be: "be_nat (u32_to_be w) = unat w"
proof -
  have "unat w div 16777216 < 256"
    using unat_u32_less [of w] by (simp add: less_mult_imp_div_less)
  with bytes_of_32 [OF unat_u32_less, of w] show ?thesis
    by (simp add: u32_to_be_def unat_word_nat_u8)
qed

lemma u16_to_be_u16_be [simp]: "u16_to_be (u16_be a b) = [a, b]"
proof -
  have "(unat a * 256 + unat b) div 256 = unat a" "(unat a * 256 + unat b) mod 256 = unat b"
    using unat_u8_less [of b] by simp_all
  then show ?thesis by (simp add: u16_to_be_def)
qed

text \<open>\<open>[(w >> 8) as u8, (w & 0xFF) as u8]\<close> are the two bytes of \<open>w\<close>.\<close>

lemma u16_shifted_bytes: "[ucast (drop_bit 8 w), ucast (w AND 0xFF)] = u16_to_be w" for w :: u16
proof -
  have "unat (w AND 0xFF) = unat w mod 256"
  proof -
    have "w AND 0xFF = take_bit 8 w" by (simp add: take_bit_eq_mask mask_eq_exp_minus_1)
    then have "unat (w AND 0xFF) = take_bit 8 (unat w)" by (simp only: unsigned_take_bit_eq)
    then show ?thesis by (simp add: take_bit_eq_mod)
  qed
  moreover have "unat (drop_bit 8 w) = unat w div 256"
    by (simp add: drop_bit_eq_div unat_div)
  ultimately show ?thesis
    by (simp add: u16_to_be_def word_unat_eq_iff unat_ucast_u8 unat_word_nat_u8)
qed

text \<open>The top bit of a byte.\<close>

lemma high_bit_clear: "b AND 0x80 = 0 \<longleftrightarrow> unat b < 128" for b :: u8
proof -
  have "bit b 7 \<longleftrightarrow> bit (unat b) 7" by (simp add: bit_simps)
  also have "\<dots> \<longleftrightarrow> odd (unat b div 128)" by (simp add: bit_iff_odd)
  also have "\<dots> \<longleftrightarrow> \<not> unat b < 128"
  proof -
    have "unat b div 128 = 0 \<or> unat b div 128 = 1"
      using unat_u8_less [of b] by linarith
    then show ?thesis by (auto simp: div_eq_0_iff)
  qed
  finally show ?thesis using and_exp_eq_0_iff_not_bit [of b 7] by simp
qed

lemma low_seven_bits: "unat (b AND 0x7F) = unat b mod 128" for b :: u8
proof -
  have "b AND 0x7F = take_bit 7 b"
    by (simp add: take_bit_eq_mask mask_eq_exp_minus_1)
  then have "unat (b AND 0x7F) = take_bit 7 (unat b)"
    by (simp only: unsigned_take_bit_eq)
  then show ?thesis by (simp add: take_bit_eq_mod)
qed

end
