(* ===== verification/Ldap.thy ===== *)
theory Ldap
  imports Taste_Ber Rust_Bits
begin

text \<open>
  The LDAP handler, \<open>nettrap-proto-ldap/src/handler.rs\<close> and \<open>handler/parsing.rs\<close>: BER lengths in
  both directions, the envelope with its message id, the checks of Bind and Search requests with
  nested filters and controls, and the two responses. The definitions carry the names of
  the source, except \<open>ldap_handle\<close> (\<open>LdapHandler::handle\<close>) and \<open>ldap_base_dn\<close> (\<open>LdapHandler::new\<close>).
  Logging is not modelled, but the calls that only feed
  the log stay in place because they could panic.
\<close>

section \<open>BER lengths\<close>

definition MAX_BER_LENGTH :: nat where "MAX_BER_LENGTH = 16 * 1024 * 1024"
definition MAX_LDAP_FILTER_DEPTH :: nat where "MAX_LDAP_FILTER_DEPTH = 32"
definition MAX_LDAP_MATCHED_DN_BYTES :: nat where "MAX_LDAP_MATCHED_DN_BYTES = 4096"

definition parse_ber_length :: "bytes \<Rightarrow> (usize \<times> usize) option rs" where
  "parse_ber_length data =
     (if data = [] then Some None
      else do {
        d0 \<leftarrow> idx data 0;
        if d0 AND 0x80 = 0 then Some (Some (unat d0, 1))
        else
          let num_bytes = unat (d0 AND 0x7F) in
          if num_bytes = 0 \<or> num_bytes > 4 \<or> length data < 1 + num_bytes then Some None
          else do {
            d1 \<leftarrow> idx data 1;
            if num_bytes = 1 \<and> d1 < 128 \<or> num_bytes \<noteq> 1 \<and> d1 = 0 then Some None
            else do {
              bs \<leftarrow> slice data 1 (1 + num_bytes);
              let len = be_nat bs in
              Some (if len > MAX_BER_LENGTH then None else Some (len, 1 + num_bytes)) } } })"

text \<open>The bytes \<open>encode_ber_length\<close> appends; \<open>None\<close> when it returns \<open>false\<close>.\<close>

definition encode_ber_length :: "usize \<Rightarrow> bytes option" where
  "encode_ber_length len =
     (if len < 128 then Some [word_of_nat len]
      else if len < 256 then Some [0x81, word_of_nat len]
      else if len < 65536 then Some (0x82 # u16_to_be (word_of_nat len))
      else if len < 0x1000000 then Some (0x83 # drop 1 (u32_to_be (word_of_nat len)))
      else if len < 0x100000000 then Some (0x84 # u32_to_be (word_of_nat len))
      else None)"

lemma parse_ber_length_wp [no_panic]:
  "wp (parse_ber_length data)
     (\<lambda>r. \<forall>len n. r = Some (len, n) \<longrightarrow> 1 \<le> n \<and> n \<le> length data \<and> len \<le> MAX_BER_LENGTH)"
proof -
  have "unat b \<le> MAX_BER_LENGTH" for b :: u8
    using unat_u8_le [of b] unfolding MAX_BER_LENGTH_def by linarith
  then show ?thesis
    unfolding parse_ber_length_def Let_def by (auto simp: wp_rules Suc_le_eq split: if_splits)
qed

section \<open>Elements\<close>

definition consume_any_tlv :: "bytes \<Rightarrow> usize \<Rightarrow> usize \<Rightarrow> (u8 \<times> bytes \<times> usize) option rs" where
  "consume_any_tlv data pos limit =
     tryo (idx data pos) (\<lambda>tag. do {
       len_bytes_at \<leftarrow> slice data (pos + 1) limit;
       l \<leftarrow> parse_ber_length len_bytes_at;
       tryo l (\<lambda>(len, len_bytes).
       let pos = pos + 1 + len_bytes in
       tryo (checked_add pos len) (\<lambda>e.
         if e > limit then Some None
         else tryo (slice data pos e) (\<lambda>v. Some (Some (tag, v, e))))) })"

definition consume_expected_tlv_value ::
    "bytes \<Rightarrow> usize \<Rightarrow> usize \<Rightarrow> u8 \<Rightarrow> (bytes \<times> usize) option rs" where
  "consume_expected_tlv_value data pos limit expected_tag =
     (if pos \<ge> limit then Some None
      else do {
        tag \<leftarrow> idx data pos;
        if tag \<noteq> expected_tag then Some None
        else do {
          len_bytes_at \<leftarrow> slice data (pos + 1) limit;
          l \<leftarrow> parse_ber_length len_bytes_at;
          tryo l (\<lambda>(len, len_bytes).
          let pos = pos + 1 + len_bytes in
          tryo (checked_add pos len) (\<lambda>e.
            if e > limit then Some None
            else tryo (slice data pos e) (\<lambda>v. Some (Some (v, e))))) } })"

text \<open>The length and the new position.\<close>

definition consume_expected_tlv :: "bytes \<Rightarrow> usize \<Rightarrow> usize \<Rightarrow> u8 \<Rightarrow> (usize \<times> usize) option rs" where
  "consume_expected_tlv data pos limit expected_tag =
     (if pos \<ge> limit then Some None
      else do {
        tag \<leftarrow> idx data pos;
        if tag \<noteq> expected_tag then Some None
        else do {
          len_bytes_at \<leftarrow> slice data (pos + 1) limit;
          l \<leftarrow> parse_ber_length len_bytes_at;
          tryo l (\<lambda>(len, len_bytes).
          let pos = pos + 1 + len_bytes in
          tryo (checked_add pos len) (\<lambda>e.
            if e > limit then Some None else Some (Some (len, e)))) } })"

interpretation ldap: bounded_tlv_reader consume_expected_tlv_value
  by unfold_locales
    (auto simp: consume_expected_tlv_value_def wp_rules Let_def slice_Some_iff
      intro!: wp_call [OF parse_ber_length_wp])

lemma consume_expected_tlv_wp:
  "limit \<le> length data \<Longrightarrow> wp (consume_expected_tlv data pos limit tag)
     (\<lambda>r. \<forall>v e. r = Some (v, e) \<longrightarrow> pos < e \<and> e \<le> limit)"
  by (auto simp: consume_expected_tlv_def wp_rules Let_def intro!: wp_call [OF parse_ber_length_wp])

text \<open>\<open>consume_any_tlv\<close> does not compare the position with the limit before it slices, so its
  contract needs the position to be below the limit, or the limit to be the end of the data.\<close>

lemma consume_any_tlv_wp:
  "limit \<le> length data \<Longrightarrow> pos < limit \<or> limit = length data \<Longrightarrow>
   wp (consume_any_tlv data pos limit)
     (\<lambda>r. \<forall>t v e. r = Some (t, v, e) \<longrightarrow> pos < e \<and> e \<le> limit \<and> length v < length data)"
  by (auto simp: consume_any_tlv_def wp_rules Let_def idx_Some_iff slice_Some_iff
      intro!: wp_call [OF parse_ber_length_wp])

lemma consume_any_tlv_bounds:
  "consume_any_tlv v pos (length v) = Some (Some (t, c, e)) \<Longrightarrow> pos < e \<and> e \<le> length v \<and> length c < length v"
  using wp_result [OF consume_any_tlv_wp [of "length v" v pos]] by blast

section \<open>Envelope\<close>

definition parse_message_id_value :: "bytes \<Rightarrow> u32 option rs" where
  "parse_message_id_value v =
     (if v = [] \<or> length v > 4 then Some None
      else do {
        v0 \<leftarrow> idx v 0;
        if v0 AND 0x80 \<noteq> 0 then Some None
        else do {
          padded \<leftarrow> (if length v > 1 \<and> v0 = 0x00 then do { v1 \<leftarrow> idx v 1; Some (v1 AND 0x80 = 0) }
                     else Some False);
          if padded then Some None
          else
            let msg_id = be_word v in
            Some (if msg_id = 0 \<or> msg_id > 0x7FFFFFFF then None else Some msg_id) } })"

definition parse_message_id :: "bytes \<Rightarrow> (u32 \<times> usize \<times> usize) option rs" where
  "parse_message_id data =
     tryo (idx data 0) (\<lambda>d0.
       if d0 \<noteq> 0x30 then Some None
       else do {
         after_tag \<leftarrow> slice_from data 1;
         l \<leftarrow> parse_ber_length after_tag;
         tryo l (\<lambda>(seq_len, len_bytes).
         let pos = 1 + len_bytes in
         tryo (checked_add pos seq_len) (\<lambda>seq_end.
           if seq_end > length data then Some None
           else if pos \<ge> seq_end then Some None
           else do {
             tag \<leftarrow> idx data pos;
             if tag \<noteq> 0x02 then Some None
             else do {
               id_at \<leftarrow> slice data (pos + 1) seq_end;
               l \<leftarrow> parse_ber_length id_at;
               tryo l (\<lambda>(id_len, len_bytes).
               let pos = pos + 1 + len_bytes in
               tryo (checked_add pos id_len) (\<lambda>id_end.
                 if id_len = 0 \<or> id_len > 4 \<or> id_end > seq_end then Some None
                 else do {
                   v \<leftarrow> slice data pos id_end;
                   m \<leftarrow> parse_message_id_value v;
                   tryo m (\<lambda>msg_id. Some (Some (msg_id, id_end, seq_end))) })) } })) })"

definition operation_end :: "bytes \<Rightarrow> usize \<Rightarrow> usize \<Rightarrow> usize option rs" where
  "operation_end data op_offset seq_end =
     tryo (checked_add op_offset 1) (\<lambda>pos.
       if pos > seq_end then Some None
       else do {
         at \<leftarrow> slice data pos seq_end;
         l \<leftarrow> parse_ber_length at;
         tryo l (\<lambda>(op_len, len_bytes).
         tryo (checked_add (pos + len_bytes) op_len) (\<lambda>op_end.
           Some (if op_end > seq_end then None else Some op_end))) })"

lemma parse_message_id_value_wp: "wp (parse_message_id_value v) (\<lambda>_. True)"
  unfolding parse_message_id_value_def Let_def by (auto simp: wp_rules)

lemma parse_message_id_wp:
  "wp (parse_message_id data)
     (\<lambda>r. \<forall>i p e. r = Some (i, p, e) \<longrightarrow> p \<le> e \<and> e \<le> length data \<and> 0 < p)"
  unfolding parse_message_id_def Let_def
  by (auto simp: wp_rules idx_Some_iff Suc_le_eq intro!: wp_call [OF parse_ber_length_wp]
      wp_call [OF parse_message_id_value_wp])

lemma operation_end_wp:
  "seq_end \<le> length data \<Longrightarrow> wp (operation_end data op_offset seq_end)
     (\<lambda>r. \<forall>e. r = Some e \<longrightarrow> op_offset + 1 < e \<and> e \<le> seq_end)"
  unfolding operation_end_def
  by (auto simp: wp_rules intro!: wp_call [OF parse_ber_length_wp])

section \<open>Filters\<close>

definition attribute_value_assertion_filter_is_well_formed :: "bytes \<Rightarrow> bool rs" where
  "attribute_value_assertion_filter_is_well_formed v =
     do { c \<leftarrow> consume_any_tlv v 0 (length v);
          let_else c False (\<lambda>(seq_tag, seq_value, pos).
            if seq_tag \<noteq> 0x30 \<or> pos \<noteq> length v then Some False
            else do {
              a \<leftarrow> consume_expected_tlv seq_value 0 (length seq_value) 0x04;
              let_else a False (\<lambda>(_, seq_pos). do {
              b \<leftarrow> consume_expected_tlv seq_value seq_pos (length seq_value) 0x04;
              let_else b False (\<lambda>(_, seq_pos). Some (seq_pos = length seq_value)) }) }) }"

definition approx_match_filter_is_well_formed :: "bytes \<Rightarrow> bool rs" where
  "approx_match_filter_is_well_formed v = attribute_value_assertion_filter_is_well_formed v"

function substring_loop :: "bytes \<Rightarrow> usize \<Rightarrow> bool \<Rightarrow> bool rs" where
  "substring_loop seq_value seq_pos saw_substring =
     (if seq_pos < length seq_value then
        (case idx seq_value seq_pos of
           None \<Rightarrow> Some False
         | Some tag \<Rightarrow>
             if \<not> (0x80 \<le> tag \<and> tag \<le> 0x82) then Some False
             else
               (case consume_expected_tlv seq_value seq_pos (length seq_value) tag of
                  None \<Rightarrow> None
                | Some None \<Rightarrow> Some False
                | Some (Some (_, seq_pos)) \<Rightarrow> substring_loop seq_value seq_pos True))
      else Some saw_substring)"
  by pat_completeness auto
termination
  by (relation "measure (\<lambda>(v, pos, saw). length v - pos)")
    (auto dest!: wp_result [OF consume_expected_tlv_wp, rotated])

declare substring_loop.simps [simp del]

definition substring_filter_is_well_formed :: "bytes \<Rightarrow> bool rs" where
  "substring_filter_is_well_formed v =
     do { c \<leftarrow> consume_any_tlv v 0 (length v);
          let_else c False (\<lambda>(seq_tag, seq_value, pos).
            if seq_tag \<noteq> 0x30 \<or> pos \<noteq> length v then Some False
            else do {
              a \<leftarrow> consume_expected_tlv seq_value 0 (length seq_value) 0x04;
              let_else a False (\<lambda>(_, seq_pos). substring_loop seq_value seq_pos False) }) }"

text \<open>\<open>filter_is_well_formed\<close> and its loop over the children of \<open>and\<close> and \<open>or\<close>.\<close>

function filter_is_well_formed :: "u8 \<Rightarrow> bytes \<Rightarrow> nat \<Rightarrow> bool rs"
  and filter_children :: "bytes \<Rightarrow> usize \<Rightarrow> bool \<Rightarrow> nat \<Rightarrow> bool rs" where
  "filter_is_well_formed tag v depth =
     (if depth > MAX_LDAP_FILTER_DEPTH then Some False
      else if tag = 0xA0 \<or> tag = 0xA1 then
        if v = [] then Some False else filter_children v 0 False depth
      else if tag = 0xA2 then
        (case consume_any_tlv v 0 (length v) of
           None \<Rightarrow> None
         | Some None \<Rightarrow> Some False
         | Some (Some (child_tag, child_value, pos)) \<Rightarrow>
             if pos = length v then filter_is_well_formed child_tag child_value (depth + 1)
             else Some False)
      else if tag = 0x87 then Some (v \<noteq> [])
      else if tag = 0xA8 then approx_match_filter_is_well_formed v
      else if tag = 0xA3 \<or> tag = 0xA5 \<or> tag = 0xA6 then
        attribute_value_assertion_filter_is_well_formed v
      else if tag = 0xA4 then substring_filter_is_well_formed v
      else if tag = 0xA9 then Some (v \<noteq> [])
      else Some False)"
| "filter_children v pos saw_child depth =
     (if pos < length v then
        (case consume_any_tlv v pos (length v) of
           None \<Rightarrow> None
         | Some None \<Rightarrow> Some False
         | Some (Some (child_tag, child_value, pos)) \<Rightarrow>
             (case filter_is_well_formed child_tag child_value (depth + 1) of
                None \<Rightarrow> None
              | Some False \<Rightarrow> Some False
              | Some True \<Rightarrow> filter_children v pos True depth))
      else Some saw_child)"
  by pat_completeness auto
termination
  by (relation "measures [\<lambda>x. case x of Inl (tag, v, depth) \<Rightarrow> length v | Inr (v, pos, saw, depth) \<Rightarrow> length v,
        \<lambda>x. case x of Inl (tag, v, depth) \<Rightarrow> length v + 1 | Inr (v, pos, saw, depth) \<Rightarrow> length v - pos]")
    (auto dest!: consume_any_tlv_bounds)

declare filter_is_well_formed.simps [simp del]
declare filter_children.simps [simp del]

lemma ava_filter_wp: "wp (attribute_value_assertion_filter_is_well_formed v) (\<lambda>_. True)"
  unfolding attribute_value_assertion_filter_is_well_formed_def
  by (auto simp: wp_rules intro!: wp_call [OF consume_any_tlv_wp] wp_call [OF consume_expected_tlv_wp])

lemma substring_loop_wp: "wp (substring_loop v pos saw) (\<lambda>_. True)"
proof (induction v pos saw rule: substring_loop.induct)
  case (1 v pos saw)
  then show ?case
    by (subst substring_loop.simps)
      (auto simp: wp_rules wp_not_None [OF consume_expected_tlv_wp] split: option.split)
qed

lemma substring_filter_wp: "wp (substring_filter_is_well_formed v) (\<lambda>_. True)"
  unfolding substring_filter_is_well_formed_def
  by (auto simp: wp_rules substring_loop_wp intro!: wp_call [OF consume_any_tlv_wp]
      wp_call [OF consume_expected_tlv_wp])

lemma filter_wp:
  "wp (filter_is_well_formed tag v depth) (\<lambda>_. True)"
  "wp (filter_children v' pos saw depth') (\<lambda>_. True)"
proof (induction tag v depth and v' pos saw depth' rule: filter_is_well_formed_filter_children.induct)
  case (1 tag v depth)
  then show ?case
    by (subst filter_is_well_formed.simps)
      (auto simp: wp_rules approx_match_filter_is_well_formed_def ava_filter_wp substring_filter_wp
        wp_not_None [OF consume_any_tlv_wp] split: option.split)
next
  case (2 v pos saw depth)
  have "filter_is_well_formed t c (depth + 1) \<noteq> None"
    if "pos < length v" "consume_any_tlv v pos (length v) = Some (Some (t, c, p))" for t c p
    using that 2(1) by (blast dest: wp_not_None)
  with 2(2) show ?case
    by (subst filter_children.simps)
      (auto simp: wp_rules wp_not_None [OF consume_any_tlv_wp] split: option.split bool.split)
qed

section \<open>Controls\<close>

definition control_is_well_formed :: "bytes \<Rightarrow> bool rs" where
  "control_is_well_formed data =
     do { t \<leftarrow> consume_expected_tlv_value data 0 (length data) 0x04;
          let_else t False (\<lambda>(control_type, pos).
            if control_type = [] then Some False
            else if pos = length data then Some True
            else do {
              tag \<leftarrow> idx data pos;
              crit \<leftarrow> (if tag = 0x01 then do {
                  c \<leftarrow> consume_expected_tlv_value data pos (length data) 0x01;
                  Some (case c of
                          None \<Rightarrow> Inl False
                        | Some (criticality, pos) \<Rightarrow>
                            if length criticality \<noteq> 1 then Inl False
                            else if pos = length data then Inl True
                            else Inr pos) }
                else Some (Inr pos));
              (case crit of
                 Inl b \<Rightarrow> Some b
               | Inr pos \<Rightarrow> do {
                   tag \<leftarrow> idx data pos;
                   if tag \<noteq> 0x04 then Some False
                   else do {
                     v \<leftarrow> consume_expected_tlv data pos (length data) 0x04;
                     Some (case v of None \<Rightarrow> False | Some (_, pos) \<Rightarrow> pos = length data) } }) }) }"

function controls_loop :: "bytes \<Rightarrow> usize \<Rightarrow> bool rs" where
  "controls_loop data pos =
     (if pos < length data then
        (case idx data pos of
           None \<Rightarrow> None
         | Some tag \<Rightarrow>
             if tag \<noteq> 0x30 then Some False
             else
               (case slice_from data (pos + 1) of
                  None \<Rightarrow> None
                | Some at \<Rightarrow>
                    (case parse_ber_length at of
                       None \<Rightarrow> None
                     | Some None \<Rightarrow> Some False
                     | Some (Some (len, len_bytes)) \<Rightarrow>
                         let start = pos + 1 + len_bytes in
                         (case checked_add start len of
                            None \<Rightarrow> Some False
                          | Some e \<Rightarrow>
                              if e > length data then Some False
                              else
                                (case slice data start e of
                                   None \<Rightarrow> None
                                 | Some control \<Rightarrow>
                                     (case control_is_well_formed control of
                                        None \<Rightarrow> None
                                      | Some False \<Rightarrow> Some False
                                      | Some True \<Rightarrow> controls_loop data e))))))
      else Some True)"
  by pat_completeness auto
termination
  by (relation "measure (\<lambda>(data, pos). length data - pos)") auto

declare controls_loop.simps [simp del]

definition controls_are_well_formed :: "bytes \<Rightarrow> bool rs" where
  "controls_are_well_formed data = controls_loop data 0"

definition message_tail_is_valid :: "bytes \<Rightarrow> usize \<Rightarrow> usize \<Rightarrow> bool rs" where
  "message_tail_is_valid data tail_start seq_end =
     (if tail_start = seq_end then Some True
      else if tail_start \<ge> seq_end then Some False
      else do {
        tag \<leftarrow> idx data tail_start;
        if tag \<noteq> 0xA0 then Some False
        else let_else (checked_add tail_start 1) False (\<lambda>pos. do {
          at \<leftarrow> slice data pos seq_end;
          l \<leftarrow> parse_ber_length at;
          let_else l False (\<lambda>(controls_len, len_bytes).
          let pos = pos + len_bytes in
          let_else (checked_add pos controls_len) False (\<lambda>controls_end.
            if controls_end = seq_end then do {
              controls \<leftarrow> slice data pos controls_end;
              controls_are_well_formed controls }
            else Some False)) }) })"

lemma control_wp: "wp (control_is_well_formed data) (\<lambda>_. True)"
  unfolding control_is_well_formed_def
  by (auto simp: wp_rules intro!: ldap.bounded_read_wp wp_call [OF consume_expected_tlv_wp])

lemma controls_loop_wp: "wp (controls_loop data pos) (\<lambda>_. True)"
proof (induction data pos rule: controls_loop.induct)
  case (1 data pos)
  then show ?case
    by (subst controls_loop.simps)
      (auto simp: wp_rules Let_def wp_not_None [OF parse_ber_length_wp] wp_not_None [OF control_wp]
        split: option.split bool.split)
qed

lemma message_tail_wp:
  "seq_end \<le> length data \<Longrightarrow> wp (message_tail_is_valid data tail_start seq_end) (\<lambda>_. True)"
  unfolding message_tail_is_valid_def controls_are_well_formed_def Let_def
  by (auto simp: wp_rules controls_loop_wp intro!: wp_call [OF parse_ber_length_wp])

section \<open>Requests\<close>

definition is_canonical_non_negative_integer :: "bytes \<Rightarrow> bool rs" where
  "is_canonical_non_negative_integer v =
     (if v = [] \<or> length v > 4 then Some False
      else do {
        v0 \<leftarrow> idx v 0;
        if v0 AND 0x80 \<noteq> 0 then Some False
        else if length v > 1 \<and> v0 = 0x00 then do { v1 \<leftarrow> idx v 1; Some (\<not> v1 AND 0x80 = 0) }
        else Some True })"

definition parse_canonical_non_negative_integer :: "bytes \<Rightarrow> u32 option rs" where
  "parse_canonical_non_negative_integer v =
     do { ok \<leftarrow> is_canonical_non_negative_integer v;
          Some (if \<not> ok then None else Some (be_word v)) }"

text \<open>The three readers below return the new position, \<open>None\<close> standing for \<open>false\<close>.\<close>

definition consume_enumerated_in_range :: "bytes \<Rightarrow> usize \<Rightarrow> usize \<Rightarrow> u32 \<Rightarrow> usize option rs" where
  "consume_enumerated_in_range data pos limit high =
     do { r \<leftarrow> consume_expected_tlv_value data pos limit 0x0A;
          tryo r (\<lambda>(v, pos). do {
            n \<leftarrow> parse_canonical_non_negative_integer v;
            tryo n (\<lambda>v. Some (if v \<le> high then Some pos else None)) }) }"

definition consume_canonical_integer :: "bytes \<Rightarrow> usize \<Rightarrow> usize \<Rightarrow> usize option rs" where
  "consume_canonical_integer data pos limit =
     do { r \<leftarrow> consume_expected_tlv_value data pos limit 0x02;
          tryo r (\<lambda>(v, pos). do {
            ok \<leftarrow> is_canonical_non_negative_integer v;
            Some (if ok then Some pos else None) }) }"

definition consume_boolean :: "bytes \<Rightarrow> usize \<Rightarrow> usize \<Rightarrow> usize option rs" where
  "consume_boolean data pos limit =
     do { r \<leftarrow> consume_expected_tlv_value data pos limit 0x01;
          tryo r (\<lambda>(v, pos). Some (if length v = 1 then Some pos else None)) }"

definition extract_bind_dn :: "bytes \<Rightarrow> usize \<Rightarrow> usize \<Rightarrow> bytes option rs" where
  "extract_bind_dn data op_offset op_end =
     tryo (checked_add op_offset 1) (\<lambda>pos.
     if pos \<ge> op_end then Some None
     else do {
       at \<leftarrow> slice data pos op_end;
       l \<leftarrow> parse_ber_length at;
       tryo l (\<lambda>(_, len_bytes).
       let pos = pos + len_bytes in
       if pos \<ge> op_end then Some None
       else do {
         tag \<leftarrow> idx data pos;
         if tag \<noteq> 0x02 then Some None
         else do {
           at \<leftarrow> slice data (pos + 1) op_end;
           l \<leftarrow> parse_ber_length at;
           tryo l (\<lambda>(ver_len, len_bytes).
           tryo (checked_add (pos + 1) (len_bytes + ver_len)) (\<lambda>version_end.
           if version_end > op_end then Some None
           else if version_end \<ge> op_end then Some None
           else do {
             tag \<leftarrow> idx data version_end;
             if tag \<noteq> 0x04 then Some None
             else do {
               at \<leftarrow> slice data (version_end + 1) op_end;
               l \<leftarrow> parse_ber_length at;
               tryo l (\<lambda>(dn_len, len_bytes).
               let pos = version_end + 1 + len_bytes in
               tryo (checked_add pos dn_len) (\<lambda>dn_end.
               if dn_end > op_end then Some None
               else do { dn \<leftarrow> slice data pos dn_end; Some (Some (single_line_bytes dn)) })) } })) } }) })"

definition sasl_auth_choice_is_well_formed :: "bytes \<Rightarrow> bool rs" where
  "sasl_auth_choice_is_well_formed v =
     do { r \<leftarrow> consume_expected_tlv_value v 0 (length v) 0x04;
          let_else r False (\<lambda>(mechanism, pos).
            if mechanism = [] \<or> from_utf8 mechanism = None then Some False
            else if pos = length v then Some True
            else do {
              c \<leftarrow> consume_expected_tlv v pos (length v) 0x04;
              Some (case c of None \<Rightarrow> False | Some (_, pos) \<Rightarrow> pos = length v) }) }"

definition bind_request_is_well_formed :: "bytes \<Rightarrow> usize \<Rightarrow> usize \<Rightarrow> bool rs" where
  "bind_request_is_well_formed data op_offset op_end =
     let_else (checked_add op_offset 1) False (\<lambda>pos.
     if pos \<ge> op_end then Some False
     else do {
       at \<leftarrow> slice data pos op_end;
       l \<leftarrow> parse_ber_length at;
       let_else l False (\<lambda>(_, len_bytes). do {
       v \<leftarrow> consume_expected_tlv_value data (pos + len_bytes) op_end 0x02;
       let_else v False (\<lambda>(version, pos). do {
       ok \<leftarrow> is_canonical_non_negative_integer version;
       if \<not> ok then Some False
       else do {
         n \<leftarrow> consume_expected_tlv data pos op_end 0x04;
         let_else n False (\<lambda>(_, pos).
         let_else (idx data pos) False (\<lambda>tag.
         if \<not> (tag = 0x80 \<or> tag = 0xA3) then Some False
         else do {
           at \<leftarrow> slice data (pos + 1) op_end;
           l \<leftarrow> parse_ber_length at;
           let_else l False (\<lambda>(auth_len, len_bytes).
           let pos = pos + 1 + len_bytes in
           let_else (checked_add pos auth_len) False (\<lambda>auth_end.
           if auth_end \<noteq> op_end then Some False
           else if tag = 0xA3 then do {
             v \<leftarrow> slice data pos auth_end;
             sasl_auth_choice_is_well_formed v }
           else Some True)) })) } }) }) })"

definition search_request_is_well_formed :: "bytes \<Rightarrow> usize \<Rightarrow> usize \<Rightarrow> bool rs" where
  "search_request_is_well_formed data op_offset op_end =
     let_else (checked_add op_offset 1) False (\<lambda>pos.
     if pos \<ge> op_end then Some False
     else do {
       at \<leftarrow> slice data pos op_end;
       l \<leftarrow> parse_ber_length at;
       let_else l False (\<lambda>(_, len_bytes). do {
       base \<leftarrow> consume_expected_tlv data (pos + len_bytes) op_end 0x04;
       let_else base False (\<lambda>(_, pos). do {
       scope \<leftarrow> consume_enumerated_in_range data pos op_end 2;
       let_else scope False (\<lambda>pos. do {
       deref \<leftarrow> consume_enumerated_in_range data pos op_end 3;
       let_else deref False (\<lambda>pos. do {
       size_limit \<leftarrow> consume_canonical_integer data pos op_end;
       let_else size_limit False (\<lambda>pos. do {
       time_limit \<leftarrow> consume_canonical_integer data pos op_end;
       let_else time_limit False (\<lambda>pos. do {
       types_only \<leftarrow> consume_boolean data pos op_end;
       let_else types_only False (\<lambda>pos. do {
       f \<leftarrow> consume_any_tlv data pos op_end;
       let_else f False (\<lambda>(filter_tag, filter_value, pos). do {
       ok \<leftarrow> filter_is_well_formed filter_tag filter_value 0;
       if \<not> ok then Some False
       else do {
         attributes \<leftarrow> consume_expected_tlv data pos op_end 0x30;
         let_else attributes False (\<lambda>(_, pos). Some (pos = op_end)) } }) }) }) }) }) }) }) }) })"

section \<open>Responses\<close>

definition message_id_tlv :: "u32 \<Rightarrow> bytes" where
  "message_id_tlv msg_id =
     (let be = u32_to_be msg_id in
      0x02 #
      (if msg_id \<le> 0x7F then 1 # drop 3 be
       else if msg_id \<le> 0xFF then 2 # 0x00 # drop 3 be
       else if msg_id \<le> 0x7FFF then 2 # drop 2 be
       else if msg_id \<le> 0xFFFF then 3 # 0x00 # drop 2 be
       else if msg_id \<le> 0x7FFFFF then 3 # drop 1 be
       else if msg_id \<le> 0xFFFFFF then 4 # 0x00 # drop 1 be
       else if msg_id \<le> 0x7FFFFFFF then 4 # be
       else 5 # 0x00 # be))"

definition wrap_ldap_message :: "u32 \<Rightarrow> bytes \<Rightarrow> bytes" where
  "wrap_ldap_message msg_id op_data =
     (let msg_id_bytes = message_id_tlv msg_id in
      case encode_ber_length (length msg_id_bytes + length op_data) of
        None \<Rightarrow> []
      | Some l \<Rightarrow> 0x30 # l @ msg_id_bytes @ op_data)"

definition build_bind_response :: "u32 \<Rightarrow> bytes" where
  "build_bind_response msg_id =
     (let result = [0x0A, 0x01, 0x00, 0x04, 0x00, 0x04, 0x00] in
      case encode_ber_length (length result) of
        None \<Rightarrow> []
      | Some l \<Rightarrow> wrap_ldap_message msg_id (0x61 # l @ result))"

definition build_search_result_done :: "bytes \<Rightarrow> u32 \<Rightarrow> bytes" where
  "build_search_result_done matched_dn msg_id =
     (if length matched_dn > MAX_LDAP_MATCHED_DN_BYTES then []
      else case encode_ber_length (length matched_dn) of
        None \<Rightarrow> []
      | Some l \<Rightarrow>
          (let result = [0x0A, 0x01, 0x00, 0x04] @ l @ matched_dn @ [0x04, 0x00] in
           case encode_ber_length (length result) of
             None \<Rightarrow> []
           | Some l \<Rightarrow>
               (let packet = wrap_ldap_message msg_id (0x65 # l @ result) in
                if length packet > MAX_LDAP_MATCHED_DN_BYTES then [] else packet)))"

text \<open>\<open>LdapHandler::handle\<close>; the field \<open>base_dn\<close> of the handler is a parameter and \<open>LdapHandler::new\<close>
  sets it to \<open>ldap_base_dn\<close>.\<close>

definition ldap_base_dn :: bytes where
  "ldap_base_dn = bstr ''dc=nettrap,dc=local''"

definition ldap_handle :: "bytes \<Rightarrow> bytes \<Rightarrow> bytes rs" where
  "ldap_handle base_dn data =
     (if length data < 7 then Some []
      else do {
        d0 \<leftarrow> idx data 0;
        if d0 \<noteq> 0x30 then Some []
        else do {
          m \<leftarrow> parse_message_id data;
          let_else m [] (\<lambda>(msg_id, op_offset, seq_end).
          if seq_end \<noteq> length data \<or> op_offset \<ge> seq_end then Some []
          else do {
            oe \<leftarrow> operation_end data op_offset seq_end;
            let_else oe [] (\<lambda>op_end. do {
            tail \<leftarrow> message_tail_is_valid data op_end seq_end;
            if \<not> tail then Some []
            else do {
              op_byte \<leftarrow> idx data op_offset;
              if op_byte = 0x60 then do {
                ok \<leftarrow> bind_request_is_well_formed data op_offset op_end;
                if \<not> ok then Some []
                else do {
                  _ \<leftarrow> extract_bind_dn data op_offset op_end;
                  Some (build_bind_response msg_id) } }
              else if op_byte = 0x63 then do {
                ok \<leftarrow> search_request_is_well_formed data op_offset op_end;
                Some (if \<not> ok then [] else build_search_result_done base_dn msg_id) }
              else Some [] } }) }) } })"

section \<open>Panics\<close>

lemma canonical_integer_wp: "wp (is_canonical_non_negative_integer v) (\<lambda>_. True)"
  unfolding is_canonical_non_negative_integer_def by (auto simp: wp_rules)

lemma consume_field_wp:
  assumes "limit \<le> length data"
  shows "wp (consume_enumerated_in_range data pos limit high) (\<lambda>r. \<forall>p. r = Some p \<longrightarrow> pos < p \<and> p \<le> limit)"
    and "wp (consume_canonical_integer data pos limit) (\<lambda>r. \<forall>p. r = Some p \<longrightarrow> pos < p \<and> p \<le> limit)"
    and "wp (consume_boolean data pos limit) (\<lambda>r. \<forall>p. r = Some p \<longrightarrow> pos < p \<and> p \<le> limit)"
  using assms
  by (auto simp: consume_enumerated_in_range_def consume_canonical_integer_def consume_boolean_def
      parse_canonical_non_negative_integer_def wp_rules
      intro!: ldap.bounded_read_wp wp_call [OF canonical_integer_wp])

lemmas consume_calls = consume_field_wp [THEN wp_call] wp_call [OF consume_expected_tlv_wp]
  ldap.bounded_read_wp wp_call [OF parse_ber_length_wp] wp_call [OF canonical_integer_wp]

lemma extract_bind_dn_wp: "op_end \<le> length data \<Longrightarrow> wp (extract_bind_dn data op_offset op_end) (\<lambda>_. True)"
  unfolding extract_bind_dn_def Let_def by (auto simp: wp_rules intro!: consume_calls)

lemma sasl_auth_choice_wp: "wp (sasl_auth_choice_is_well_formed v) (\<lambda>_. True)"
  unfolding sasl_auth_choice_is_well_formed_def by (auto simp: wp_rules intro!: consume_calls)

lemma bind_request_wp:
  assumes "op_end \<le> length data" and "op_end < length data \<Longrightarrow> data ! op_end = 0xA0"
  shows "wp (bind_request_is_well_formed data op_offset op_end) (\<lambda>_. True)"
proof -
  have below: "idx data pos = Some 0x80 \<Longrightarrow> Suc pos \<le> op_end" "idx data pos = Some 0xA3 \<Longrightarrow> Suc pos \<le> op_end"
    if "pos \<le> op_end" for pos
    using that assms by (cases "pos = op_end"; auto simp: idx_Some_iff)+
  show ?thesis
    unfolding bind_request_is_well_formed_def Let_def
    using assms(1)
    by (auto simp: wp_rules sasl_auth_choice_wp intro!: consume_calls intro: below)
qed

lemma search_request_wp:
  "op_end = length data \<Longrightarrow> wp (search_request_is_well_formed data op_offset op_end) (\<lambda>_. True)"
  unfolding search_request_is_well_formed_def
  by (auto simp: wp_rules intro!: consume_calls wp_call [OF consume_any_tlv_wp] wp_call [OF filter_wp(1)])

lemma message_tail_controls:
  "message_tail_is_valid data tail_start seq_end = Some True \<Longrightarrow> tail_start < seq_end \<Longrightarrow>
   tail_start < length data \<and> data ! tail_start = 0xA0"
  by (auto simp: message_tail_is_valid_def bind_eq_Some_conv idx_Some_iff split: if_splits)

text \<open>Property C20. The LDAP handler can panic on one kind of message only: a well-framed SearchRequest
  whose operation is followed by a controls element. Every other input gets an answer (possibly
  empty).\<close>

theorem ldap_handle_panic_only_search_controls:
  assumes "ldap_handle base_dn data = None"
  shows "\<exists>msg_id op_offset op_end.
    parse_message_id data = Some (Some (msg_id, op_offset, length data)) \<and>
    data ! op_offset = 0x63 \<and>
    operation_end data op_offset (length data) = Some (Some op_end) \<and>
    op_end < length data \<and> data ! op_end = 0xA0"
proof (rule ccontr)
  assume no: "\<not> ?thesis"
  have "wp (ldap_handle base_dn data) (\<lambda>_. True)"
  proof (cases "\<exists>i p e oe. parse_message_id data = Some (Some (i, p, e)) \<and> e = length data \<and> p < e \<and>
      operation_end data p e = Some (Some oe)")
    case True
    then obtain i p oe where *: "parse_message_id data = Some (Some (i, p, length data))" "p < length data"
      "operation_end data p (length data) = Some (Some oe)" by blast
    have oe: "oe \<le> length data"
      using wp_result [OF operation_end_wp *(3)] by simp
    obtain t where t: "message_tail_is_valid data oe (length data) = Some t"
      using wp_not_None [OF message_tail_wp [of "length data" data oe]] by auto
    have tail: "t \<Longrightarrow> oe < length data \<Longrightarrow> data ! oe = 0xA0"
      using message_tail_controls t by auto
    have search: "t \<Longrightarrow> data ! p = 0x63 \<Longrightarrow> oe = length data"
      using no * oe tail by (cases "oe = length data") auto
    show ?thesis
      unfolding ldap_handle_def
      using * oe t search tail
      by (auto simp: wp_rules search_request_wp
          intro!: wp_call [OF bind_request_wp] wp_call [OF extract_bind_dn_wp])
  next
    case False
    obtain m where m: "parse_message_id data = Some m"
      using wp_not_None [OF parse_message_id_wp [of data]] by auto
    have "operation_end data p (length data) = Some None" if "m = Some (i, p, length data)" "p < length data" for i p
      using False m that wp_not_None [OF operation_end_wp [of "length data" data p]] by auto
    then show ?thesis
      unfolding ldap_handle_def by (auto simp: wp_rules m)
  qed
  with assms show False by (simp add: wp_def)
qed

text \<open>A SearchRequest that ends behind \<open>typesOnly\<close>, followed by an empty controls element.\<close>

definition truncated_search :: bytes where
  "truncated_search =
     [0x30, 0x18, 0x02, 0x01, 0x01,
      0x63, 0x11, 0x04, 0x00, 0x0A, 0x01, 0x00, 0x0A, 0x01, 0x00, 0x02, 0x01, 0x00, 0x02, 0x01, 0x00,
      0x01, 0x01, 0x00,
      0xA0, 0x00]"

lemmas ldap_eval = ldap_handle_def parse_message_id_def parse_ber_length_def parse_message_id_value_def
  operation_end_def message_tail_is_valid_def controls_are_well_formed_def controls_loop.simps
  search_request_is_well_formed_def consume_expected_tlv_def consume_enumerated_in_range_def
  consume_canonical_integer_def consume_boolean_def consume_expected_tlv_value_def
  parse_canonical_non_negative_integer_def is_canonical_non_negative_integer_def consume_any_tlv_def
  be_word_eq Let_def idx_def slice_def slice_from_def checked_add_def usize_max_def MAX_BER_LENGTH_def

lemma truncated_search_panics: "ldap_handle base_dn truncated_search = None"
  by (simp add: truncated_search_def ldap_eval)


theorem ldap_handle_panic_only_search_controls_witness:
  "\<exists>msg_id op_offset op_end.
    parse_message_id truncated_search = Some (Some (msg_id, op_offset, length truncated_search)) \<and>
    truncated_search ! op_offset = 0x63 \<and>
    operation_end truncated_search op_offset (length truncated_search) = Some (Some op_end) \<and>
    op_end < length truncated_search \<and> truncated_search ! op_end = 0xA0"
  by (rule ldap_handle_panic_only_search_controls [OF truncated_search_panics [of "[]"]])

section \<open>Round trips\<close>

lemma encode_ber_length_parse:
  assumes "len \<le> MAX_BER_LENGTH"
  shows "\<exists>l. encode_ber_length len = Some l \<and>
    (\<forall>rest. parse_ber_length (l @ rest) = Some (Some (len, length l)))"
proof -
  have le: "len \<le> 16777216" using assms by (simp add: MAX_BER_LENGTH_def)
  have short: ?thesis if "len < 128"
    using that by (simp add: encode_ber_length_def parse_ber_length_def high_bit_clear unat_word_nat_u8)
  have one: ?thesis if "128 \<le> len" "len < 256"
    using that by (simp add: encode_ber_length_def parse_ber_length_def word_less_nat_alt unat_word_nat_u8
        MAX_BER_LENGTH_def Let_def)
  have two: ?thesis if "256 \<le> len" "len < 65536"
  proof -
    have "0 < len div 256 mod 256" using that by (simp add: less_mult_imp_div_less)
    then show ?thesis
      using that bytes_of_16 [of len] unfolding encode_ber_length_def
      by (simp add: parse_ber_length_def u16_to_be_def unat_word_nat_u16 word_unat_eq_iff unat_word_nat_u8
          MAX_BER_LENGTH_def Let_def)
  qed
  have three: ?thesis if "65536 \<le> len" "len < 16777216"
  proof -
    have "0 < len div 65536 mod 256" "len div 16777216 = 0" using that by (simp_all add: less_mult_imp_div_less)
    then show ?thesis
      using that bytes_of_32 [of len] unfolding encode_ber_length_def
      by (simp add: parse_ber_length_def u32_to_be_def unat_word_nat_u32 word_unat_eq_iff unat_word_nat_u8
          MAX_BER_LENGTH_def Let_def)
  qed
  have four: ?thesis if "len = 16777216"
    unfolding that by (simp add: encode_ber_length_def parse_ber_length_def u32_to_be_def unat_word_nat_u32
        MAX_BER_LENGTH_def Let_def)
  consider "len < 128" | "128 \<le> len" "len < 256" | "256 \<le> len" "len < 65536"
    | "65536 \<le> len" "len < 16777216" | "len = 16777216"
    using le by linarith
  then show ?thesis by cases (use short one two three four in blast)+
qed

lemma parse_message_id_value_bytes:
  assumes "bs \<noteq> []" "length bs \<le> 4" "be_nat bs = unat msg_id" "0 < msg_id" "msg_id \<le> 0x7FFFFFFF"
    and "unat (hd bs) < 128" and "1 < length bs \<Longrightarrow> hd bs = 0 \<Longrightarrow> 128 \<le> unat (bs ! 1)"
  shows "parse_message_id_value bs = Some (Some msg_id)"
proof -
  have "be_word bs = msg_id" using assms(3) by (simp add: be_word_eq)
  then show ?thesis
    using assms by (auto simp: parse_message_id_value_def Let_def high_bit_clear hd_conv_nth not_less)
qed

lemma message_id_tlv_parse:
  assumes "0 < msg_id" and "msg_id \<le> 0x7FFFFFFF"
  shows "\<exists>bs. message_id_tlv msg_id = 0x02 # word_of_nat (length bs) # bs \<and> bs \<noteq> [] \<and> length bs \<le> 4 \<and>
    parse_message_id_value bs = Some (Some msg_id)"
proof -
  let ?n = "unat msg_id"
  have n: "?n \<le> 0x7FFFFFFF" "0 < ?n" "?n < 4294967296"
    using assms by (simp_all add: word_le_nat_alt unat_gt_0)
  have le: "msg_id \<le> numeral k \<longleftrightarrow> ?n \<le> unat (numeral k :: u32)" for k
    by (simp add: word_le_nat_alt)
  have b16: "?n div 256 mod 256 * 256 + ?n mod 256 = ?n" if "?n < 65536"
    using that by (rule bytes_of_16)
  have b24: "?n div 65536 mod 256 * 65536 + (?n div 256 mod 256 * 256 + ?n mod 256) = ?n" if "?n < 16777216"
    using that bytes_of_32 [OF n(3)] by simp
  have b32: "?n div 16777216 mod 256 * 16777216 + (?n div 65536 mod 256 * 65536 +
      (?n div 256 mod 256 * 256 + ?n mod 256)) = ?n"
    using n(3) by (rule bytes_of_32)
  note simps = message_id_tlv_def u32_to_be_def Let_def le unat_word_nat_u8 unat_ucast_u8 word_unat_eq_iff
  consider "?n \<le> 0x7F" | "0x7F < ?n" "?n \<le> 0xFF" | "0xFF < ?n" "?n \<le> 0x7FFF" | "0x7FFF < ?n" "?n \<le> 0xFFFF"
    | "0xFFFF < ?n" "?n \<le> 0x7FFFFF" | "0x7FFFFF < ?n" "?n \<le> 0xFFFFFF" | "0xFFFFFF < ?n"
    using n by linarith
  then show ?thesis
  proof cases
    case 1
    then show ?thesis
      by (intro exI [of _ "drop 3 (u32_to_be msg_id)"] conjI parse_message_id_value_bytes)
        (use assms in \<open>simp_all add: simps\<close>)
  next
    case 2
    then show ?thesis
      by (intro exI [of _ "0 # drop 3 (u32_to_be msg_id)"] conjI parse_message_id_value_bytes)
        (use assms in \<open>simp_all add: simps\<close>)
  next
    case 3
    then show ?thesis
      by (intro exI [of _ "drop 2 (u32_to_be msg_id)"] conjI parse_message_id_value_bytes)
        (use assms b16 in \<open>simp_all add: simps less_mult_imp_div_less\<close>)
  next
    case 4
    then show ?thesis
      by (intro exI [of _ "0 # drop 2 (u32_to_be msg_id)"] conjI parse_message_id_value_bytes)
        (use assms b16 in \<open>simp_all add: simps less_mult_imp_div_less\<close>)
  next
    case 5
    then show ?thesis
      by (intro exI [of _ "drop 1 (u32_to_be msg_id)"] conjI parse_message_id_value_bytes)
        (use assms b24 in \<open>simp_all add: simps less_mult_imp_div_less\<close>)
  next
    case 6
    then show ?thesis
      by (intro exI [of _ "0 # drop 1 (u32_to_be msg_id)"] conjI parse_message_id_value_bytes)
        (use assms b24 in \<open>simp_all add: simps less_mult_imp_div_less\<close>)
  next
    case 7
    then show ?thesis
      by (intro exI [of _ "u32_to_be msg_id"] conjI parse_message_id_value_bytes)
        (use assms b32 n in \<open>simp_all add: simps less_mult_imp_div_less\<close>)
  qed
qed

lemma parse_wrap_ldap_message:
  assumes "0 < msg_id" "msg_id \<le> 0x7FFFFFFF" and "length op_data + 6 \<le> MAX_BER_LENGTH"
  obtains p where "parse_message_id (wrap_ldap_message msg_id op_data) =
    Some (Some (msg_id, p, length (wrap_ldap_message msg_id op_data)))"
proof -
  obtain bs where bs: "message_id_tlv msg_id = 0x02 # word_of_nat (length bs) # bs" "bs \<noteq> []" "length bs \<le> 4"
    and v: "parse_message_id_value bs = Some (Some msg_id)"
    using message_id_tlv_parse [OF assms(1,2)] by blast
  let ?rest = "message_id_tlv msg_id @ op_data"
  have "length ?rest \<le> MAX_BER_LENGTH" using assms(3) bs by simp
  then obtain l where l: "encode_ber_length (length ?rest) = Some l"
    and p: "\<And>rest. parse_ber_length (l @ rest) = Some (Some (length ?rest, length l))"
    using encode_ber_length_parse [of "length ?rest"] by blast
  have wrap: "wrap_ldap_message msg_id op_data = 0x30 # l @ ?rest"
    using l by (simp add: wrap_ldap_message_def)
  have ll: "length l \<le> 5"
    using l by (auto simp: encode_ber_length_def split: if_splits)
  have idl: "parse_ber_length (word_of_nat (length bs) # bs @ op_data) = Some (Some (length bs, 1))"
    using bs(3) by (simp add: parse_ber_length_def high_bit_clear unat_word_nat_u8)
  have "parse_message_id (wrap_ldap_message msg_id op_data) =
    Some (Some (msg_id, length l + 3 + length bs, length (wrap_ldap_message msg_id op_data)))"
    unfolding wrap parse_message_id_def bs(1)
    using bs(2,3) p [of "0x02 # word_of_nat (length bs) # bs @ op_data"] idl v ll assms(3)
    by (simp add: bs(1) checked_add_def usize_max_def MAX_BER_LENGTH_def nth_append)
  then show thesis by (rule that)
qed

text \<open>\<open>parse_ber_length\<close> reads back every length up to the 16 MiB limit that
  \<open>encode_ber_length\<close> writes, consumes exactly the bytes written, and ignores what follows.\<close>

lemma ber_length_roundtrip:
  assumes "len \<le> MAX_BER_LENGTH"
  shows "\<exists>l. encode_ber_length len = Some l \<and>
    parse_ber_length (l @ rest) = Some (Some (len, length l))"
  using encode_ber_length_parse [OF assms] by blast

lemma ber_length_roundtrip_example:
  "\<exists>l. encode_ber_length 70000 = Some l \<and> parse_ber_length (l @ [7]) = Some (Some (70000, length l))"
  by (rule ber_length_roundtrip) (simp add: MAX_BER_LENGTH_def)

lemma parse_message_id_range:
  assumes "parse_message_id data = Some (Some (msg_id, p, e))"
  shows "0 < msg_id \<and> msg_id \<le> 0x7FFFFFFF"
proof -
  have v: "wp (parse_message_id_value v) (\<lambda>r. \<forall>i. r = Some i \<longrightarrow> 0 < i \<and> i \<le> 0x7FFFFFFF)" for v
    unfolding parse_message_id_value_def Let_def
    by (auto simp: wp_rules word_neq_0_conv not_less split: if_splits)
  have "wp (parse_message_id data) (\<lambda>r. \<forall>i p e. r = Some (i, p, e) \<longrightarrow> 0 < i \<and> i \<le> 0x7FFFFFFF)"
    unfolding parse_message_id_def Let_def
    by (auto simp: wp_rules idx_Some_iff Suc_le_eq intro!: wp_call [OF parse_ber_length_wp] wp_call [OF v])
  with assms show ?thesis by (blast dest: wp_result)
qed

lemma ldap_handle_response:
  assumes "ldap_handle base_dn data = Some r" and "r \<noteq> []"
  obtains msg_id p where "parse_message_id data = Some (Some (msg_id, p, length data))"
    "r = build_bind_response msg_id \<or> r = build_search_result_done base_dn msg_id"
proof -
  have "wlp (ldap_handle base_dn data) (\<lambda>r. r \<noteq> [] \<longrightarrow>
      (\<exists>msg_id p. parse_message_id data = Some (Some (msg_id, p, length data)) \<and>
         (r = build_bind_response msg_id \<or> r = build_search_result_done base_dn msg_id)))"
    unfolding ldap_handle_def by (auto simp: wlp_rules)
  with assms that show thesis by (blast dest: wlpD)
qed


text \<open>An anonymous simple Bind.\<close>

definition anonymous_bind :: bytes where
  "anonymous_bind =
     [0x30, 0x0C, 0x02, 0x01, 0x05, 0x60, 0x07, 0x02, 0x01, 0x03, 0x04, 0x00, 0x80, 0x00]"

definition anonymous_bind_response :: bytes where
  "anonymous_bind_response =
     [0x30, 0x0C, 0x02, 0x01, 0x05, 0x61, 0x07, 0x0A, 0x01, 0x00, 0x04, 0x00, 0x04, 0x00]"

lemma anonymous_bind_answer: "ldap_handle ldap_base_dn anonymous_bind = Some anonymous_bind_response"
  by (simp add: anonymous_bind_def anonymous_bind_response_def ldap_eval bind_request_is_well_formed_def
      extract_bind_dn_def build_bind_response_def encode_ber_length_def wrap_ldap_message_def
      message_id_tlv_def u32_to_be_def)


end
