(* ===== verification/Mqtt.thy ===== *)
theory Mqtt
  imports Taste_Mqtt Rust_Bits
begin

text \<open>
  The MQTT broker emulation, \<open>nettrap-proto-mqtt/src/handler.rs\<close>, \<open>handler/parsing.rs\<close> and
  \<open>mqtt.rs\<close>: the session state, the packet parsers and the answers. A parser that returns
  \<open>Option<T>\<close> and may panic has a result in \<open>'a option rs\<close>; one that advances \<open>&mut pos\<close> returns the
  new position next to its value. Four functions have the same body in this crate and in the
  detector of the proxy crate; here they are defined by the detector's definition. The loops over
  property and topic lists use the loop \<open>mqtt_scan\<close> of the detector theory and its contract.
\<close>

section \<open>Constants and data\<close>

definition MQTT_MAX_TOPIC_FILTERS :: nat where "MQTT_MAX_TOPIC_FILTERS = 1024"
definition MQTT_PUBLISH_PAYLOAD_PREVIEW_BYTES :: nat where "MQTT_PUBLISH_PAYLOAD_PREVIEW_BYTES = 1024"

abbreviation MQTT_CONNECT :: u8 where "MQTT_CONNECT \<equiv> 1"
abbreviation MQTT_CONNACK :: u8 where "MQTT_CONNACK \<equiv> 2"
abbreviation MQTT_PUBLISH :: u8 where "MQTT_PUBLISH \<equiv> 3"
abbreviation MQTT_PUBACK :: u8 where "MQTT_PUBACK \<equiv> 4"
abbreviation MQTT_PUBREC :: u8 where "MQTT_PUBREC \<equiv> 5"
abbreviation MQTT_PUBREL :: u8 where "MQTT_PUBREL \<equiv> 6"
abbreviation MQTT_PUBCOMP :: u8 where "MQTT_PUBCOMP \<equiv> 7"
abbreviation MQTT_SUBSCRIBE :: u8 where "MQTT_SUBSCRIBE \<equiv> 8"
abbreviation MQTT_SUBACK :: u8 where "MQTT_SUBACK \<equiv> 9"
abbreviation MQTT_UNSUBSCRIBE :: u8 where "MQTT_UNSUBSCRIBE \<equiv> 10"
abbreviation MQTT_UNSUBACK :: u8 where "MQTT_UNSUBACK \<equiv> 11"
abbreviation MQTT_PINGREQ :: u8 where "MQTT_PINGREQ \<equiv> 12"
abbreviation MQTT_PINGRESP :: u8 where "MQTT_PINGRESP \<equiv> 13"
abbreviation MQTT_DISCONNECT :: u8 where "MQTT_DISCONNECT \<equiv> 14"

datatype mqtt_state = WaitingConnect | Connected | Disconnected

record mqtt_connect_info =
  ci_client_id :: bytes
  ci_username :: "bytes option"
  ci_password :: "bytes option"
  ci_protocol_level :: u8
  ci_client_id_rejected :: bool

record mqtt_publish_info =
  pi_topic :: bytes
  pi_payload_len :: usize
  pi_payload_preview :: bytes
  pi_packet_id :: "u16 option"

record mqtt_subscribe_info =
  si_packet_id :: u16
  si_topic_count :: usize
  si_granted_qos :: bytes
  si_has_properties :: bool

record mqtt_unsubscribe_info =
  ui_packet_id :: u16
  ui_topic_count :: usize
  ui_has_properties :: bool

record mqtt_handler =
  mh_state :: mqtt_state
  mh_protocol_level :: "u8 option"

definition mqtt_handler_new :: mqtt_handler where
  "mqtt_handler_new = \<lparr>mh_state = WaitingConnect, mh_protocol_level = None\<rparr>"

section \<open>Lengths and strings\<close>

definition remaining_length_encoded_len :: "usize \<Rightarrow> usize" where
  "remaining_length_encoded_len = mqtt_remaining_length_encoded_len"

function parse_remaining_length_loop :: "bytes \<Rightarrow> nat \<Rightarrow> nat \<Rightarrow> nat \<Rightarrow> (usize \<times> usize) option rs" where
  "parse_remaining_length_loop data multiplier v bytes_read =
     (if bytes_read \<ge> 4 \<or> bytes_read + 1 \<ge> length data then Some None
      else case idx data (bytes_read + 1) of
        None \<Rightarrow> None
      | Some byte \<Rightarrow>
          let bytes_read = bytes_read + 1 in
          tryo (checked_mul (unat (byte AND 0x7F)) multiplier) (\<lambda>part.
          tryo (checked_add v part) (\<lambda>v.
            if byte AND 0x80 = 0 then Some (Some (v, bytes_read))
            else tryo (checked_mul multiplier 128) (\<lambda>multiplier.
              parse_remaining_length_loop data multiplier v bytes_read))))"
  by pat_completeness auto
termination
  by (relation "measure (\<lambda>(data, m, v, n). 4 - n)") auto

declare parse_remaining_length_loop.simps [simp del]

definition parse_remaining_length :: "bytes \<Rightarrow> (usize \<times> usize) option rs" where
  "parse_remaining_length data =
     (if length data < 2 then Some None
      else do {
        r \<leftarrow> parse_remaining_length_loop data 1 0 0;
        tryo r (\<lambda>(v, bytes_read).
          Some (if v > MQTT_MAX_VARIABLE_BYTE_INTEGER \<or> remaining_length_encoded_len v \<noteq> bytes_read
                then None else Some (v, bytes_read + 1))) })"

definition valid_mqtt_utf8_string :: "bytes \<Rightarrow> bool" where
  "valid_mqtt_utf8_string = mqtt_utf8_string_is_valid"

definition valid_publish_topic_name :: "bytes \<Rightarrow> bool" where
  "valid_publish_topic_name v \<longleftrightarrow> valid_mqtt_utf8_string v \<and> \<not> (0x2B \<in> set v \<or> 0x23 \<in> set v)"

definition valid_subscribe_topic_filter :: "bytes \<Rightarrow> bool rs" where
  "valid_subscribe_topic_filter = mqtt_subscribe_topic_filter_is_valid"

definition read_mqtt_string :: "bytes \<Rightarrow> usize \<Rightarrow> (bytes \<times> usize) option rs" where
  "read_mqtt_string data pos =
     tryo (checked_add pos 2) (\<lambda>len_end.
     if len_end > length data then Some None
     else do {
       b0 \<leftarrow> idx data pos; b1 \<leftarrow> idx data (pos + 1);
       tryo (checked_add len_end (unat (u16_be b0 b1))) (\<lambda>e.
       if e > length data then Some None
       else do { v \<leftarrow> slice data len_end e; Some (Some (v, e)) }) })"

definition read_mqtt_utf8_string :: "bytes \<Rightarrow> usize \<Rightarrow> (bytes \<times> usize) option rs" where
  "read_mqtt_utf8_string data pos =
     do { r \<leftarrow> read_mqtt_string data pos;
          tryo r (\<lambda>(v, pos).
          tryo (from_utf8 v) (\<lambda>v.
            Some (if \<not> valid_mqtt_utf8_string v then None else Some (v, pos)))) }"

function read_variable_int_loop :: "bytes \<Rightarrow> nat \<Rightarrow> usize \<Rightarrow> nat \<Rightarrow> nat \<Rightarrow> (usize \<times> usize) option rs" where
  "read_variable_int_loop data bytes_read pos multiplier v =
     (if bytes_read \<le> 4 then
        if pos \<ge> length data then Some None
        else (case idx data pos of
          None \<Rightarrow> None
        | Some byte \<Rightarrow>
            tryo (checked_mul (unat (byte AND 0x7F)) multiplier) (\<lambda>part.
            tryo (checked_add v part) (\<lambda>v.
              if byte AND 0x80 = 0 then
                Some (if v > MQTT_MAX_VARIABLE_BYTE_INTEGER \<or> remaining_length_encoded_len v \<noteq> bytes_read
                      then None else Some (v, pos + 1))
              else tryo (checked_mul multiplier 128) (\<lambda>multiplier.
                read_variable_int_loop data (bytes_read + 1) (pos + 1) multiplier v))))
      else Some None)"
  by pat_completeness auto
termination
  by (relation "measure (\<lambda>(data, n, p, m, v). 5 - n)") auto

declare read_variable_int_loop.simps [simp del]

definition read_variable_int :: "bytes \<Rightarrow> usize \<Rightarrow> (usize \<times> usize) option rs" where
  "read_variable_int data pos = read_variable_int_loop data 1 pos 1 0"

definition consume_fixed_len :: "bytes \<Rightarrow> usize \<Rightarrow> usize \<Rightarrow> usize option" where
  "consume_fixed_len = mqtt_consume_fixed_len"

definition consume_utf8_string :: "bytes \<Rightarrow> usize \<Rightarrow> usize option rs" where
  "consume_utf8_string data pos = map_option (map_option snd) (read_mqtt_utf8_string data pos)"

definition consume_binary_string :: "bytes \<Rightarrow> usize \<Rightarrow> usize option rs" where
  "consume_binary_string data pos = map_option (map_option snd) (read_mqtt_string data pos)"

definition consume_utf8_pair :: "bytes \<Rightarrow> usize \<Rightarrow> usize option rs" where
  "consume_utf8_pair data pos =
     do { r \<leftarrow> consume_utf8_string data pos; tryo r (\<lambda>pos. consume_utf8_string data pos) }"

lemma parse_remaining_length_loop_wp:
  "wp (parse_remaining_length_loop data m v n) (\<lambda>r. \<forall>l k. r = Some (l, k) \<longrightarrow> n < k \<and> k < length data)"
proof (induction data m v n rule: parse_remaining_length_loop.induct)
  case (1 data m v n)
  show ?case
    by (subst parse_remaining_length_loop.simps)
      (auto simp: wp_rules Let_def intro!: wp_call [OF "1.IH"])
qed

lemma parse_remaining_length_wp [no_panic]:
  "wp (parse_remaining_length data)
     (\<lambda>r. \<forall>l s. r = Some (l, s) \<longrightarrow> 2 \<le> s \<and> s \<le> length data)"
  unfolding parse_remaining_length_def
  by (auto simp: wp_rules intro!: wp_call [OF parse_remaining_length_loop_wp])

lemma read_mqtt_string_wp [no_panic]:
  "wp (read_mqtt_string data pos) (\<lambda>r. \<forall>v p. r = Some (v, p) \<longrightarrow> pos < p \<and> p \<le> length data)"
  unfolding read_mqtt_string_def by (auto simp: wp_rules)

lemma read_mqtt_utf8_string_wp [no_panic]:
  "wp (read_mqtt_utf8_string data pos) (\<lambda>r. \<forall>v p. r = Some (v, p) \<longrightarrow> pos < p \<and> p \<le> length data)"
  unfolding read_mqtt_utf8_string_def
  by (auto simp: wp_rules intro!: wp_call [OF read_mqtt_string_wp])

lemma read_variable_int_loop_wp:
  "wp (read_variable_int_loop data n pos m v) (\<lambda>r. \<forall>l p. r = Some (l, p) \<longrightarrow> pos < p \<and> p \<le> length data)"
proof (induction "5 - n" arbitrary: n pos m v rule: less_induct)
  case less
  have IH: "wp (read_variable_int_loop data (Suc n) (Suc pos) m' v')
      (\<lambda>r. \<forall>l p. r = Some (l, p) \<longrightarrow> Suc pos < p \<and> p \<le> length data)" if "n \<le> 4" for m' v'
    by (rule less) (use that in simp)
  show ?case
    by (subst read_variable_int_loop.simps, simp add: wp_rules split del: if_split, intro conjI impI allI)
      (auto intro!: wp_call [OF IH] split: if_split_asm)
qed

lemma read_variable_int_wp [no_panic]:
  "wp (read_variable_int data pos) (\<lambda>r. \<forall>l p. r = Some (l, p) \<longrightarrow> pos < p \<and> p \<le> length data)"
  unfolding read_variable_int_def by (rule read_variable_int_loop_wp)

lemma wp_map_option: "wp (map_option f m) P \<longleftrightarrow> wp m (\<lambda>v. P (f v))"
  by (cases m) (simp_all add: wp_def)

lemma consume_string_wp:
  "wp (consume_utf8_string data pos) (\<lambda>r. \<forall>p. r = Some p \<longrightarrow> pos < p \<and> p \<le> length data)"
  "wp (consume_binary_string data pos) (\<lambda>r. \<forall>p. r = Some p \<longrightarrow> pos < p \<and> p \<le> length data)"
  unfolding consume_utf8_string_def consume_binary_string_def wp_map_option
  by (rule wp_call [OF read_mqtt_utf8_string_wp], fastforce) (rule wp_call [OF read_mqtt_string_wp], fastforce)

lemma consume_utf8_pair_wp:
  "wp (consume_utf8_pair data pos) (\<lambda>r. \<forall>p. r = Some p \<longrightarrow> pos < p \<and> p \<le> length data)"
  unfolding consume_utf8_pair_def
  by (auto simp: wp_rules intro!: wp_call [OF consume_string_wp(1)])

lemmas mqtt_handler_calls = consume_string_wp [THEN wp_call] wp_call [OF consume_utf8_pair_wp]
  wp_call [OF read_variable_int_wp] wp_call [OF read_mqtt_string_wp] wp_call [OF read_mqtt_utf8_string_wp]
  wp_call [OF parse_remaining_length_wp]

section \<open>Property lists and topic lists\<close>

datatype property_context = Ctx_Connect | Ctx_Will | Ctx_Disconnect

record property_state = mqtt_property_state +
  reason_string :: bool
  server_reference :: bool

definition property_state_default :: property_state where
  "property_state_default =
     mqtt_property_state.extend mqtt_property_state_default
       (property_state.fields False False)"

text \<open>One round of the loop of \<open>parse_property_block\<close>.\<close>

definition property_block_step ::
    "property_context \<Rightarrow> bytes \<Rightarrow> usize \<Rightarrow> property_state \<Rightarrow> (usize \<times> property_state) option rs" where
  "property_block_step ctx properties pos st =
     do { property_id \<leftarrow> idx properties pos;
       let pos = pos + 1;
           fixed = (\<lambda>n. Some (consume_fixed_len properties pos n));
           utf8 = consume_utf8_string properties pos;
           binary = consume_binary_string properties pos;
           pair = once False (consume_utf8_pair properties pos) st
       in case ctx of
         Ctx_Connect \<Rightarrow>
           if property_id = 0x11 then
             once (session_expiry_interval st) (fixed 4) (st\<lparr>session_expiry_interval := True\<rparr>)
           else if property_id = 0x21 then
             once (receive_maximum st) (fixed 2) (st\<lparr>receive_maximum := True\<rparr>)
           else if property_id = 0x27 then
             once (maximum_packet_size st) (fixed 4) (st\<lparr>maximum_packet_size := True\<rparr>)
           else if property_id = 0x22 then
             once (topic_alias_maximum st) (fixed 2) (st\<lparr>topic_alias_maximum := True\<rparr>)
           else if property_id = 0x19 then
             once (request_response_information st) (fixed 1) (st\<lparr>request_response_information := True\<rparr>)
           else if property_id = 0x17 then
             once (request_problem_information st) (fixed 1) (st\<lparr>request_problem_information := True\<rparr>)
           else if property_id = 0x26 then pair
           else if property_id = 0x15 then
             once (authentication_method st) utf8 (st\<lparr>authentication_method := True\<rparr>)
           else if property_id = 0x16 then
             once (authentication_data st) binary (st\<lparr>authentication_data := True\<rparr>)
           else Some None
       | Ctx_Will \<Rightarrow>
           if property_id = 0x18 then
             once (will_delay_interval st) (fixed 4) (st\<lparr>will_delay_interval := True\<rparr>)
           else if property_id = 0x01 then
             once (payload_format_indicator st) (fixed 1) (st\<lparr>payload_format_indicator := True\<rparr>)
           else if property_id = 0x02 then
             once (message_expiry_interval st) (fixed 4) (st\<lparr>message_expiry_interval := True\<rparr>)
           else if property_id = 0x23 then
             once (content_type st) utf8 (st\<lparr>content_type := True\<rparr>)
           else if property_id = 0x09 then
             once (response_topic st) utf8 (st\<lparr>response_topic := True\<rparr>)
           else if property_id = 0x08 then
             once (correlation_data st) binary (st\<lparr>correlation_data := True\<rparr>)
           else if property_id = 0x26 then pair
           else Some None
       | Ctx_Disconnect \<Rightarrow>
           if property_id = 0x11 then
             once (session_expiry_interval st) (fixed 4) (st\<lparr>session_expiry_interval := True\<rparr>)
           else if property_id = 0x1F then
             once (reason_string st) utf8 (st\<lparr>reason_string := True\<rparr>)
           else if property_id = 0x1C then
             once (server_reference st) utf8 (st\<lparr>server_reference := True\<rparr>)
           else if property_id = 0x26 then pair
           else Some None }"

definition parse_property_block :: "bytes \<Rightarrow> property_context \<Rightarrow> bool rs" where
  "parse_property_block properties ctx =
     mqtt_all (property_block_step ctx) property_state_default properties"

definition parse_connect_properties :: "bytes \<Rightarrow> bool rs" where
  "parse_connect_properties properties = parse_property_block properties Ctx_Connect"

definition parse_will_properties :: "bytes \<Rightarrow> bool rs" where
  "parse_will_properties properties = parse_property_block properties Ctx_Will"

definition parse_disconnect_properties :: "bytes \<Rightarrow> bool rs" where
  "parse_disconnect_properties properties = parse_property_block properties Ctx_Disconnect"

text \<open>The loop state is \<open>saw_subscription_identifier\<close>.\<close>

definition subscribe_properties_step :: "bytes \<Rightarrow> usize \<Rightarrow> bool \<Rightarrow> (usize \<times> bool) option rs" where
  "subscribe_properties_step properties pos saw =
     do { property_id \<leftarrow> idx properties pos;
          if property_id = 0x0B then
            if saw then Some None
            else do {
              r \<leftarrow> read_variable_int properties (pos + 1);
              tryo r (\<lambda>(subscription_identifier, pos).
                if subscription_identifier = 0 then Some None else Some (Some (pos, True))) }
          else if property_id = 0x26 then
            once False (consume_utf8_pair properties (pos + 1)) saw
          else Some None }"

definition parse_subscribe_properties :: "bytes \<Rightarrow> bool rs" where
  "parse_subscribe_properties = mqtt_all subscribe_properties_step False"

definition unsubscribe_properties_step :: "bytes \<Rightarrow> usize \<Rightarrow> unit \<Rightarrow> (usize \<times> unit) option rs" where
  "unsubscribe_properties_step properties pos st =
     do { property_id \<leftarrow> idx properties pos;
          if property_id = 0x26 then once False (consume_utf8_pair properties (pos + 1)) st
          else Some None }"

definition parse_unsubscribe_properties :: "bytes \<Rightarrow> bool rs" where
  "parse_unsubscribe_properties = mqtt_all unsubscribe_properties_step ()"

text \<open>The loop state is \<open>saw_reason_string\<close>.\<close>

definition pubrel_properties_step :: "bytes \<Rightarrow> usize \<Rightarrow> bool \<Rightarrow> (usize \<times> bool) option rs" where
  "pubrel_properties_step properties pos saw =
     do { property_id \<leftarrow> idx properties pos;
          if property_id = 0x1F then
            once saw (consume_utf8_string properties (pos + 1)) True
          else if property_id = 0x26 then
            once False (consume_utf8_pair properties (pos + 1)) saw
          else Some None }"

definition parse_pubrel_properties :: "bytes \<Rightarrow> bool rs" where
  "parse_pubrel_properties = mqtt_all pubrel_properties_step False"

definition valid_subscription_options :: "u8 \<Rightarrow> u8 option \<Rightarrow> bool" where
  "valid_subscription_options options protocol_level =
     (if options AND 0xC0 \<noteq> 0 \<or> options AND 0x03 = 3 then False
      else if protocol_level = Some 3 \<or> protocol_level = Some 4 then options = options AND 0x03
      else options AND 0x30 \<noteq> 0x30)"

text \<open>The start of a round of both topic loops: the length, the topic bytes and their check. The
  result is the position behind the topic.\<close>

definition topic_filter_at :: "(usize \<Rightarrow> usize \<Rightarrow> bool) \<Rightarrow> bytes \<Rightarrow> usize \<Rightarrow> usize option rs" where
  "topic_filter_at too_long payload pos =
     tryo (checked_add pos 2) (\<lambda>topic_len_end.
       if topic_len_end > length payload then Some None
       else do {
         b0 \<leftarrow> idx payload pos; b1 \<leftarrow> idx payload (pos + 1);
         let topic_len = unat (u16_be b0 b1); pos = topic_len_end in
         if topic_len = 0 then Some None
         else tryo (checked_add pos topic_len) (\<lambda>topic_end.
           if too_long topic_end (length payload) then Some None
           else do {
             t \<leftarrow> slice payload pos topic_end;
             tryo (from_utf8 t) (\<lambda>topic. do {
               ok \<leftarrow> valid_subscribe_topic_filter topic;
               Some (if \<not> ok then None else Some topic_end) }) }) })"

text \<open>The loop state is \<open>granted_qos\<close>.\<close>

definition subscribe_topics_step ::
    "u8 option \<Rightarrow> bytes \<Rightarrow> usize \<Rightarrow> bytes \<Rightarrow> (usize \<times> bytes) option rs" where
  "subscribe_topics_step protocol_level payload pos granted_qos =
     do { r \<leftarrow> topic_filter_at (\<lambda>e n. e \<ge> n) payload pos;
       tryo r (\<lambda>pos. do {
         subscription_options \<leftarrow> idx payload pos;
         if \<not> valid_subscription_options subscription_options protocol_level then Some None
         else if length granted_qos \<ge> MQTT_MAX_TOPIC_FILTERS then Some None
         else Some (Some (pos + 1, granted_qos @ [subscription_options AND 0x03])) }) }"

definition parse_subscribe_topics :: "bytes \<Rightarrow> usize \<Rightarrow> u8 option \<Rightarrow> bytes option rs" where
  "parse_subscribe_topics payload pos protocol_level =
     do { r \<leftarrow> mqtt_scan (subscribe_topics_step protocol_level) payload pos [];
          tryo r (\<lambda>granted_qos. Some (if granted_qos = [] then None else Some granted_qos)) }"

text \<open>The loop state is \<open>topic_count\<close>.\<close>

definition unsubscribe_topics_step :: "bytes \<Rightarrow> usize \<Rightarrow> nat \<Rightarrow> (usize \<times> nat) option rs" where
  "unsubscribe_topics_step payload pos topic_count =
     do { r \<leftarrow> topic_filter_at (\<lambda>e n. e > n) payload pos;
       tryo r (\<lambda>topic_end.
         if topic_count \<ge> MQTT_MAX_TOPIC_FILTERS then Some None
         else Some (Some (topic_end, topic_count + 1))) }"

definition parse_unsubscribe_topics :: "bytes \<Rightarrow> usize \<Rightarrow> nat option rs" where
  "parse_unsubscribe_topics payload pos =
     do { r \<leftarrow> mqtt_scan unsubscribe_topics_step payload pos 0;
          tryo r (\<lambda>topic_count. Some (if topic_count = 0 then None else Some topic_count)) }"

lemma consume_fixed_len_Some:
  "consume_fixed_len data pos len = Some p \<Longrightarrow> p = pos + len \<and> p \<le> length data"
  unfolding consume_fixed_len_def by (rule mqtt_consume_fixed_len_Some)

interpretation block_step: scan_body "property_block_step ctx" for ctx
  by unfold_locales
    (cases ctx; auto simp: property_block_step_def wp_rules Let_def dest!: consume_fixed_len_Some
      intro!: mqtt_handler_calls split: option.split)

interpretation subscribe_step: scan_body subscribe_properties_step
  by unfold_locales
    (auto simp: subscribe_properties_step_def wp_rules intro!: mqtt_handler_calls split: option.split)

interpretation unsubscribe_step: scan_body unsubscribe_properties_step
  by unfold_locales
    (auto simp: unsubscribe_properties_step_def wp_rules intro!: mqtt_handler_calls split: option.split)

interpretation pubrel_step: scan_body pubrel_properties_step
  by unfold_locales
    (auto simp: pubrel_properties_step_def wp_rules intro!: mqtt_handler_calls split: option.split)

lemma topic_filter_at_wp:
  assumes "\<And>e n. \<not> too_long e n \<Longrightarrow> e \<le> n"
  shows "wp (topic_filter_at too_long payload pos)
    (\<lambda>r. \<forall>p. r = Some p \<longrightarrow> pos < p \<and> \<not> too_long p (length payload))"
  unfolding topic_filter_at_def Let_def valid_subscribe_topic_filter_def
  by (auto simp: wp_rules intro!: wp_call [OF mqtt_subscribe_topic_filter_wp] dest!: assms)

lemmas topic_filter_at_wps =
  topic_filter_at_wp [of "\<lambda>e n. e \<ge> n", simplified] topic_filter_at_wp [of "\<lambda>e n. e > n", simplified]

interpretation subscribe_topics_step: scan_body "subscribe_topics_step protocol_level" for protocol_level
  by unfold_locales
    (auto simp: subscribe_topics_step_def wp_rules intro!: topic_filter_at_wps [THEN wp_call])

interpretation unsubscribe_topics_step: scan_body unsubscribe_topics_step
  by unfold_locales
    (auto simp: unsubscribe_topics_step_def wp_rules intro!: topic_filter_at_wps [THEN wp_call])

lemmas mqtt_block_wps =
  block_step.all_wp [of _ property_state_default, folded parse_property_block_def]
  subscribe_step.all_wp [of False, folded parse_subscribe_properties_def]
  unsubscribe_step.all_wp [of "()", folded parse_unsubscribe_properties_def]
  pubrel_step.all_wp [of False, folded parse_pubrel_properties_def]

lemma parse_subscribe_topics_wp:
  "wp (parse_subscribe_topics payload pos level)
     (\<lambda>r. \<forall>q. r = Some q \<longrightarrow> 0 < length q \<and> length q \<le> MQTT_MAX_TOPIC_FILTERS)"
proof -
  have "length s \<le> MQTT_MAX_TOPIC_FILTERS"
    if "subscribe_topics_step level payload pos st = Some (Some (p, s))" for pos st p s
    using that
    by (auto simp: subscribe_topics_step_def tryo_def bind_eq_Some_conv split: option.splits if_splits)
  then show ?thesis
    unfolding parse_subscribe_topics_def
    by (auto simp: wp_rules
        intro!: wp_call [OF subscribe_topics_step.scan_invariant [where I = "\<lambda>q. length q \<le> MQTT_MAX_TOPIC_FILTERS"]])
qed

lemma parse_unsubscribe_topics_wp:
  "wp (parse_unsubscribe_topics payload pos)
     (\<lambda>r. \<forall>n. r = Some n \<longrightarrow> 0 < n \<and> n \<le> MQTT_MAX_TOPIC_FILTERS)"
proof -
  have "s \<le> MQTT_MAX_TOPIC_FILTERS"
    if "unsubscribe_topics_step payload pos st = Some (Some (p, s))" for pos st p s
    using that
    by (auto simp: unsubscribe_topics_step_def tryo_def bind_eq_Some_conv split: option.splits if_splits)
  then show ?thesis
    unfolding parse_unsubscribe_topics_def
    by (auto simp: wp_rules
        intro!: wp_call [OF unsubscribe_topics_step.scan_invariant [where I = "\<lambda>n. n \<le> MQTT_MAX_TOPIC_FILTERS"]])
qed

section \<open>Packets\<close>

definition is_valid_disconnect_reason_code :: "u8 \<Rightarrow> bool" where
  "is_valid_disconnect_reason_code = mqtt_disconnect_reason_code_is_valid"

definition valid_fixed_header :: "u8 \<Rightarrow> u8 \<Rightarrow> usize \<Rightarrow> bool" where
  "valid_fixed_header first packet_type remaining_len =
     (let flags = first AND 0x0F in
      if packet_type = MQTT_CONNECT then flags = 0
      else if packet_type = MQTT_PINGREQ then flags = 0 \<and> remaining_len = 0
      else if packet_type = MQTT_PINGRESP then flags = 0 \<and> remaining_len = 0
      else if packet_type = MQTT_DISCONNECT then flags = 0
      else if packet_type = MQTT_PUBLISH then drop_bit 1 flags AND 0x03 \<noteq> 0x03
      else if packet_type = MQTT_SUBSCRIBE then flags = 0x02
      else if packet_type = MQTT_UNSUBSCRIBE then flags = 0x02
      else if packet_type = MQTT_PUBREL then flags = 0x02
      else False)"

definition parse_disconnect_packet_for_level :: "bytes \<Rightarrow> u8 option \<Rightarrow> unit option rs" where
  "parse_disconnect_packet_for_level payload protocol_level =
     (if protocol_level = Some 3 \<or> protocol_level = Some 4 then
        Some (if payload = [] then Some () else None)
      else if payload = [] then Some (Some ())
      else do {
        reason_code \<leftarrow> idx payload 0;
        if \<not> is_valid_disconnect_reason_code reason_code then Some None
        else if length payload = 1 then Some (Some ())
        else do {
          r \<leftarrow> read_variable_int payload 1;
          tryo r (\<lambda>(properties_len, properties_start).
          tryo (checked_add properties_start properties_len) (\<lambda>properties_end.
            if properties_end \<noteq> length payload then Some None
            else do {
              properties \<leftarrow> slice payload properties_start properties_end;
              ok \<leftarrow> parse_disconnect_properties properties;
              Some (if \<not> ok then None else Some ()) })) } })"

definition parse_disconnect_packet :: "bytes \<Rightarrow> unit option rs" where
  "parse_disconnect_packet payload = parse_disconnect_packet_for_level payload None"

text \<open>The property block of CONNECT, once for CONNECT itself and once for its will: absent unless
  the protocol level is 5. The result is the position behind it.\<close>

definition connect_block :: "(bytes \<Rightarrow> bool rs) \<Rightarrow> u8 \<Rightarrow> bytes \<Rightarrow> usize \<Rightarrow> usize option rs" where
  "connect_block parse proto_level payload pos =
     (if proto_level = 5 then do {
        r \<leftarrow> read_variable_int payload pos;
        tryo r (\<lambda>(properties_len, properties_start).
        tryo (checked_add properties_start properties_len) (\<lambda>pos.
          if pos > length payload then Some None
          else do {
            properties \<leftarrow> slice payload properties_start pos;
            ok \<leftarrow> parse properties;
            Some (if \<not> ok then None else Some pos) })) }
      else Some (Some pos))"

text \<open>The will of CONNECT: its properties, topic and message.\<close>

definition connect_will :: "bool \<Rightarrow> u8 \<Rightarrow> bytes \<Rightarrow> usize \<Rightarrow> usize option rs" where
  "connect_will will_flag proto_level payload pos =
     (if will_flag then do {
        r \<leftarrow> connect_block parse_will_properties proto_level payload pos;
        tryo r (\<lambda>pos. do {
          topic \<leftarrow> read_mqtt_utf8_string payload pos;
          tryo topic (\<lambda>(_, pos). do {
            message \<leftarrow> read_mqtt_string payload pos;
            tryo message (\<lambda>(_, pos). Some (Some pos)) }) }) }
      else Some (Some pos))"

text \<open>The payload of CONNECT, from its properties on.\<close>

definition connect_payload :: "u8 \<Rightarrow> u8 \<Rightarrow> bytes \<Rightarrow> usize \<Rightarrow> mqtt_connect_info option rs" where
  "connect_payload proto_level flags payload pos = do {
     block \<leftarrow> connect_block parse_connect_properties proto_level payload pos;
     tryo block (\<lambda>pos. do {
     client \<leftarrow> read_mqtt_utf8_string payload pos;
     tryo client (\<lambda>(client_id, pos). do {
     will \<leftarrow> connect_will (flags AND 0x04 \<noteq> 0) proto_level payload pos;
     tryo will (\<lambda>pos. do {
     user \<leftarrow> (if flags AND 0x80 \<noteq> 0
               then map_option (map_option (map_prod Some id)) (read_mqtt_utf8_string payload pos)
               else Some (Some (None, pos)));
     tryo user (\<lambda>(username, pos). do {
     pw \<leftarrow> (if flags AND 0x40 \<noteq> 0
             then map_option (map_option (map_prod Some id)) (read_mqtt_string payload pos)
             else Some (Some (None, pos)));
     tryo pw (\<lambda>(password, pos).
       Some (if pos \<noteq> length payload then None
             else Some \<lparr>ci_client_id = client_id, ci_username = username, ci_password = password,
               ci_protocol_level = proto_level,
               ci_client_id_rejected =
                 (proto_level = 3 \<or> proto_level = 4) \<and> client_id = [] \<and> flags AND 0x02 = 0\<rparr>)) }) }) }) }) }"

definition parse_connect :: "bytes \<Rightarrow> mqtt_connect_info option rs" where
  "parse_connect data =
     tryo (idx data 0) (\<lambda>first.
     if first \<noteq> push_bit 4 MQTT_CONNECT then Some None
     else do {
       frame \<leftarrow> parse_remaining_length data;
       tryo frame (\<lambda>(remaining_len, start).
       tryo (checked_add start remaining_len) (\<lambda>frame_end.
       if frame_end \<noteq> length data then Some None
       else do {
         payload \<leftarrow> slice_from data start;
         proto \<leftarrow> read_mqtt_string payload 0;
         tryo proto (\<lambda>(proto_name, proto_level_pos).
         tryo (checked_add proto_level_pos 4) (\<lambda>variable_header_end.
         if variable_header_end > length payload then Some None
         else do {
           proto_level \<leftarrow> idx payload proto_level_pos;
           if \<not> (proto_name = bstr ''MQTT'' \<and> (proto_level = 4 \<or> proto_level = 5)
                 \<or> proto_name = bstr ''MQIsdp'' \<and> proto_level = 3) then Some None
           else do {
             flags \<leftarrow> idx payload (proto_level_pos + 1);
             if flags AND 0x01 \<noteq> 0 then Some None
             else if flags AND 0x40 \<noteq> 0 \<and> \<not> flags AND 0x80 \<noteq> 0 then Some None
             else if drop_bit 3 flags AND 0x03 = 0x03
                 \<or> \<not> flags AND 0x04 \<noteq> 0
                    \<and> (drop_bit 3 flags AND 0x03 \<noteq> 0 \<or> flags AND 0x20 \<noteq> 0) then Some None
             else connect_payload proto_level flags payload variable_header_end } })) })) })"

definition parse_publish :: "bytes \<Rightarrow> mqtt_publish_info option rs" where
  "parse_publish data = do {
     frame \<leftarrow> parse_remaining_length data;
     tryo frame (\<lambda>(remaining_len, start).
     tryo (checked_add start remaining_len) (\<lambda>frame_end.
     if frame_end \<noteq> length data then Some None
     else if start \<ge> length data then Some None
     else do {
       payload \<leftarrow> slice_from data start;
       if length payload < 2 then Some None
       else do {
         b0 \<leftarrow> idx payload 0; b1 \<leftarrow> idx payload 1;
         let topic_len = unat (u16_be b0 b1) in
         tryo (checked_add 2 topic_len) (\<lambda>topic_end.
         if topic_len = 0 \<or> topic_end > length payload then Some None
         else do {
           t \<leftarrow> slice payload 2 topic_end;
           tryo (from_utf8 t) (\<lambda>topic.
           if \<not> valid_publish_topic_name topic then Some None
           else do {
             first \<leftarrow> idx data 0;
             id_pos \<leftarrow> (if drop_bit 1 first AND 0x03 \<ge> 1 then
                 tryo (checked_add topic_end 2) (\<lambda>packet_id_end.
                   if packet_id_end > length payload then Some None
                   else do {
                     p0 \<leftarrow> idx payload topic_end; p1 \<leftarrow> idx payload (topic_end + 1);
                     let i = u16_be p0 p1 in
                     Some (if i = 0 then None else Some (Some i, packet_id_end)) })
               else Some (Some (None, topic_end)));
             tryo id_pos (\<lambda>(packet_id, pos). do {
               msg_payload \<leftarrow> (if pos < length payload then slice_from payload pos else Some []);
               let preview_len = min (length msg_payload) MQTT_PUBLISH_PAYLOAD_PREVIEW_BYTES in do {
               preview \<leftarrow> slice msg_payload 0 preview_len;
               Some (Some \<lparr>pi_topic = topic, pi_payload_len = length msg_payload,
                 pi_payload_preview = preview, pi_packet_id = packet_id\<rparr>) } }) }) }) } })) }"

text \<open>The part that SUBSCRIBE and UNSUBSCRIBE have in common (the two functions of the source differ
  only in the property parser, the topic parser and the record they build): the packet identifier,
  the optional properties and where the topics start. \<open>parse_topics\<close> takes that position.\<close>

definition parse_topics_packet ::
    "(bytes \<Rightarrow> bool rs) \<Rightarrow> (usize \<Rightarrow> 'a option rs) \<Rightarrow> bytes \<Rightarrow> u8 option \<Rightarrow> (u16 \<times> 'a \<times> bool) option rs" where
  "parse_topics_packet parse_properties parse_topics payload protocol_level =
     (if length payload < 5 then Some None
      else do {
        b0 \<leftarrow> idx payload 0; b1 \<leftarrow> idx payload 1;
        let packet_id = u16_be b0 b1;
            without_properties = do {
              topics \<leftarrow> parse_topics 2;
              tryo topics (\<lambda>topics. Some (Some (packet_id, topics, False))) } in
        if packet_id = 0 then Some None
        else if protocol_level = Some 3 \<or> protocol_level = Some 4 then without_properties
        else do {
          r \<leftarrow> read_variable_int payload 2;
          case r of
            None \<Rightarrow> without_properties
          | Some (properties_len, properties_start) \<Rightarrow>
              tryo (checked_add properties_start properties_len) (\<lambda>properties_end.
              if \<not> properties_end \<le> length payload then Some None
              else do {
                properties \<leftarrow> slice payload properties_start properties_end;
                ok \<leftarrow> parse_properties properties;
                if ok then do {
                  topics \<leftarrow> parse_topics properties_end;
                  tryo topics (\<lambda>topics. Some (Some (packet_id, topics, True))) }
                else Some None }) } })"

definition parse_subscribe_packet_for_level :: "bytes \<Rightarrow> u8 option \<Rightarrow> mqtt_subscribe_info option rs" where
  "parse_subscribe_packet_for_level payload protocol_level = do {
     r \<leftarrow> parse_topics_packet parse_subscribe_properties
            (\<lambda>pos. parse_subscribe_topics payload pos protocol_level) payload protocol_level;
     tryo r (\<lambda>(packet_id, granted_qos, has_properties).
       Some (Some \<lparr>si_packet_id = packet_id, si_topic_count = length granted_qos,
         si_granted_qos = granted_qos, si_has_properties = has_properties\<rparr>)) }"

definition parse_unsubscribe_packet_for_level :: "bytes \<Rightarrow> u8 option \<Rightarrow> mqtt_unsubscribe_info option rs" where
  "parse_unsubscribe_packet_for_level payload protocol_level = do {
     r \<leftarrow> parse_topics_packet parse_unsubscribe_properties
            (parse_unsubscribe_topics payload) payload protocol_level;
     tryo r (\<lambda>(packet_id, topic_count, has_properties).
       Some (Some \<lparr>ui_packet_id = packet_id, ui_topic_count = topic_count,
         ui_has_properties = has_properties\<rparr>)) }"

definition parse_pubrel_packet :: "bytes \<Rightarrow> u16 option rs" where
  "parse_pubrel_packet payload =
     (if length payload < 2 then Some None
      else do {
        b0 \<leftarrow> idx payload 0; b1 \<leftarrow> idx payload 1;
        let packet_id = u16_be b0 b1 in
        if packet_id = 0 then Some None
        else if 2 = length payload then Some (Some packet_id)
        else do {
          reason_code \<leftarrow> idx payload 2;
          if \<not> (reason_code = 0x00 \<or> reason_code = 0x92) then Some None
          else if 3 = length payload then Some (Some packet_id)
          else do {
            r \<leftarrow> read_variable_int payload 3;
            tryo r (\<lambda>(properties_len, properties_start).
            tryo (checked_add properties_start properties_len) (\<lambda>pos.
            if pos > length payload then Some None
            else do {
              properties \<leftarrow> slice payload properties_start pos;
              ok \<leftarrow> parse_pubrel_properties properties;
              Some (if \<not> ok then None
                    else if pos \<noteq> length payload then None
                    else Some packet_id) })) } } })"

lemmas mqtt_packet_calls = mqtt_handler_calls mqtt_block_wps [THEN wp_call]
  wp_call [OF parse_subscribe_topics_wp] wp_call [OF parse_unsubscribe_topics_wp]

lemma parse_disconnect_packet_for_level_wp: "wp (parse_disconnect_packet_for_level payload level) (\<lambda>_. True)"
  unfolding parse_disconnect_packet_for_level_def parse_disconnect_properties_def
  by (auto simp: wp_rules intro!: mqtt_packet_calls)

lemma connect_block_wp:
  assumes "\<And>properties. wp (parse properties) (\<lambda>_. True)"
  shows "wp (connect_block parse level payload pos) (\<lambda>_. True)"
  unfolding connect_block_def by (auto simp: wp_rules intro!: mqtt_packet_calls wp_call [OF assms])

lemma connect_will_wp: "wp (connect_will flag level payload pos) (\<lambda>_. True)"
  unfolding connect_will_def
  by (auto simp: wp_rules parse_will_properties_def
      intro!: mqtt_packet_calls wp_call [OF connect_block_wp])

lemma connect_payload_wp: "wp (connect_payload level flags payload pos) (\<lambda>_. True)"
  unfolding connect_payload_def
  by (auto simp: wp_rules wp_map_option parse_connect_properties_def
      intro!: mqtt_packet_calls wp_call [OF connect_will_wp] wp_call [OF connect_block_wp])

lemma parse_connect_wp: "wp (parse_connect data) (\<lambda>_. True)"
  unfolding parse_connect_def
  by (auto simp: wp_rules intro!: mqtt_packet_calls wp_call [OF connect_payload_wp])

text \<open>The bytes behind the fixed header, and the two bytes of the packet identifier in them: behind
  the topic in PUBLISH, at the start in the other packets.\<close>

definition frame_body :: "bytes \<Rightarrow> bytes" where
  "frame_body data =
     (case parse_remaining_length data of Some (Some (_, start)) \<Rightarrow> drop start data | _ \<Rightarrow> [])"

definition publish_id_bytes :: "bytes \<Rightarrow> bytes" where
  "publish_id_bytes payload = take 2 (drop (2 + be_nat (take 2 payload)) payload)"

lemma take_2_nth: "2 \<le> length xs \<Longrightarrow> take 2 xs = [xs ! 0, xs ! 1]"
  by (cases xs; cases "tl xs") auto

lemma take_2_drop: "p + 2 \<le> length xs \<Longrightarrow> take 2 (drop p xs) = [xs ! p, xs ! Suc p]"
  by (simp add: take_2_nth)

lemma parse_publish_wp:
  "wp (parse_publish data)
     (\<lambda>r. \<forall>i p. r = Some i \<longrightarrow> pi_packet_id i = Some p \<longrightarrow> u16_to_be p = publish_id_bytes (frame_body data))"
  unfolding parse_publish_def Let_def
  by (auto simp: wp_rules frame_body_def publish_id_bytes_def take_2_drop take_2_nth ac_simps
      intro!: wp_call_eq [OF parse_remaining_length_wp])

lemma parse_topics_packet_wp:
  assumes "\<And>properties. wp (parse_properties properties) (\<lambda>_. True)"
    and "\<And>pos. wp (parse_topics pos) (\<lambda>r. \<forall>t. r = Some t \<longrightarrow> Q t)"
  shows "wp (parse_topics_packet parse_properties parse_topics payload level)
    (\<lambda>r. \<forall>i t b. r = Some (i, t, b) \<longrightarrow> Q t \<and> u16_to_be i = take 2 payload)"
  unfolding parse_topics_packet_def Let_def
  by (auto simp: wp_rules take_2_nth
      intro!: mqtt_handler_calls wp_call [OF assms(1)] wp_call [OF assms(2)])

lemma parse_subscribe_packet_for_level_wp:
  "wp (parse_subscribe_packet_for_level payload level)
     (\<lambda>r. \<forall>i. r = Some i \<longrightarrow> length (si_granted_qos i) = si_topic_count i
       \<and> si_topic_count i \<le> MQTT_MAX_TOPIC_FILTERS \<and> u16_to_be (si_packet_id i) = take 2 payload)"
  unfolding parse_subscribe_packet_for_level_def
  by (auto simp: wp_rules
      intro!: wp_call [OF parse_topics_packet_wp [OF mqtt_block_wps(2) parse_subscribe_topics_wp]])

lemma parse_unsubscribe_packet_for_level_wp:
  "wp (parse_unsubscribe_packet_for_level payload level)
     (\<lambda>r. \<forall>i. r = Some i \<longrightarrow> ui_topic_count i \<le> MQTT_MAX_TOPIC_FILTERS
       \<and> u16_to_be (ui_packet_id i) = take 2 payload)"
  unfolding parse_unsubscribe_packet_for_level_def
  by (auto simp: wp_rules
      intro!: wp_call [OF parse_topics_packet_wp [OF mqtt_block_wps(3) parse_unsubscribe_topics_wp]])

lemma parse_pubrel_packet_wp:
  "wp (parse_pubrel_packet payload) (\<lambda>r. \<forall>i. r = Some i \<longrightarrow> u16_to_be i = take 2 payload)"
  unfolding parse_pubrel_packet_def Let_def
  by (auto simp: wp_rules take_2_nth intro!: mqtt_packet_calls)

section \<open>The handler\<close>

definition is_valid_disconnect_frame :: "bytes \<Rightarrow> bool rs" where
  "is_valid_disconnect_frame data =
     (if data = [] \<or> length data > MQTT_MAX_PACKET_BYTES then Some False
      else do {
        first \<leftarrow> idx data 0;
        let packet_type = drop_bit 4 first AND 0x0F in
        if packet_type \<noteq> MQTT_DISCONNECT then Some False
        else do {
          frame \<leftarrow> parse_remaining_length data;
          let_else frame False (\<lambda>(remaining_len, start).
            if checked_add start remaining_len = Some (length data)
              \<and> valid_fixed_header first packet_type remaining_len
            then do {
              payload \<leftarrow> slice_from data start;
              r \<leftarrow> parse_disconnect_packet payload;
              Some (r \<noteq> None) }
            else Some False) } })"

function push_remaining_length :: "bytes \<Rightarrow> usize \<Rightarrow> bytes" where
  "push_remaining_length out v =
     (let byte = word_of_nat v AND 0x7F;
          v = v div 128;
          byte = (if v > 0 then byte OR 0x80 else byte);
          out = out @ [byte]
      in if v = 0 then out else push_remaining_length out v)"
  by pat_completeness auto
termination
  by (relation "measure snd") auto

declare push_remaining_length.simps [simp del]

text \<open>The arms of \<open>handle_packet\<close>, one definition each: the answer and the state after it.\<close>

definition on_connect :: "mqtt_handler \<Rightarrow> bytes \<Rightarrow> (bytes \<times> mqtt_handler) rs" where
  "on_connect h data = do {
     r \<leftarrow> parse_connect data;
     let_else r ([], h) (\<lambda>info.
       if ci_client_id_rejected info then
         Some ([push_bit 4 MQTT_CONNACK, 2, 0, 2], h\<lparr>mh_state := Disconnected\<rparr>)
       else
         let h = h\<lparr>mh_protocol_level := Some (ci_protocol_level info)\<rparr>;
             h = h\<lparr>mh_state := Connected\<rparr> in
         if ci_protocol_level info = 5 then Some ([push_bit 4 MQTT_CONNACK, 3, 0, 0, 0], h)
         else Some ([push_bit 4 MQTT_CONNACK, 2, 0, 0], h)) }"

definition on_publish :: "bytes \<Rightarrow> bytes rs" where
  "on_publish data = do {
     r \<leftarrow> parse_publish data;
     let_else r [] (\<lambda>info. do {
       first \<leftarrow> idx data 0;
       let qos = drop_bit 1 first AND 0x03 in
       let_else (pi_packet_id info) [] (\<lambda>packet_id.
         let ack_type = (if qos = 2 then MQTT_PUBREC else MQTT_PUBACK) in
         Some [push_bit 4 ack_type, 2, ucast (drop_bit 8 packet_id), ucast (packet_id AND 0xFF)]) }) }"

definition on_subscribe :: "mqtt_handler \<Rightarrow> bytes \<Rightarrow> bytes rs" where
  "on_subscribe h payload = do {
     r \<leftarrow> parse_subscribe_packet_for_level payload (mh_protocol_level h);
     let_else r [] (\<lambda>info.
       let properties_len = (if si_has_properties info then 1 else 0) in
       let_else (Option.bind (checked_add 2 properties_len) (\<lambda>len. checked_add len (si_topic_count info))) []
         (\<lambda>remaining_len.
           let response = push_remaining_length [push_bit 4 MQTT_SUBACK] remaining_len;
               response = response @ u16_to_be (si_packet_id info);
               response = (if si_has_properties info then response @ [0] else response)
           in Some (response @ si_granted_qos info))) }"

definition on_unsubscribe :: "mqtt_handler \<Rightarrow> bytes \<Rightarrow> bytes rs" where
  "on_unsubscribe h payload = do {
     r \<leftarrow> parse_unsubscribe_packet_for_level payload (mh_protocol_level h);
     let_else r [] (\<lambda>info.
       let_else (if ui_has_properties info
                 then Option.bind (checked_add 2 1) (\<lambda>len. checked_add len (ui_topic_count info))
                 else Some 2) []
         (\<lambda>remaining_len.
           let response = push_remaining_length [push_bit 4 MQTT_UNSUBACK] remaining_len;
               response = response @ u16_to_be (ui_packet_id info)
           in Some (if ui_has_properties info
                    then response @ [0] @ replicate (ui_topic_count info) 0 else response))) }"

definition on_pubrel :: "bytes \<Rightarrow> bytes rs" where
  "on_pubrel payload = do {
     r \<leftarrow> parse_pubrel_packet payload;
     let_else r [] (\<lambda>packet_id.
       Some [push_bit 4 MQTT_PUBCOMP, 2, ucast (drop_bit 8 packet_id), ucast (packet_id AND 0xFF)]) }"

definition on_disconnect :: "mqtt_handler \<Rightarrow> bytes \<Rightarrow> (bytes \<times> mqtt_handler) rs" where
  "on_disconnect h payload = do {
     r \<leftarrow> parse_disconnect_packet_for_level payload (mh_protocol_level h);
     Some ([], if r = None then h else h\<lparr>mh_state := Disconnected\<rparr>) }"

definition handle_packet :: "mqtt_handler \<Rightarrow> bytes \<Rightarrow> (bytes \<times> mqtt_handler) rs" where
  "handle_packet h data =
     (if data = [] then Some ([], h)
      else if length data > MQTT_MAX_PACKET_BYTES then Some ([], h)
      else do {
        first \<leftarrow> idx data 0;
        let packet_type = drop_bit 4 first AND 0x0F in do {
        frame \<leftarrow> parse_remaining_length data;
        let_else frame ([], h) (\<lambda>(remaining_len, start).
        if checked_add start remaining_len \<noteq> Some (length data)
          \<or> \<not> valid_fixed_header first packet_type remaining_len then Some ([], h)
        else if mh_state h = WaitingConnect \<and> packet_type \<noteq> MQTT_CONNECT then Some ([], h)
        else if mh_state h = Connected \<and> packet_type = MQTT_CONNECT then Some ([], h)
        else if mh_state h = Disconnected then Some ([], h)
        else if packet_type = MQTT_CONNECT then on_connect h data
        else if packet_type = MQTT_PUBLISH then do { r \<leftarrow> on_publish data; Some (r, h) }
        else if packet_type = MQTT_SUBSCRIBE then do {
          payload \<leftarrow> slice_from data start; r \<leftarrow> on_subscribe h payload; Some (r, h) }
        else if packet_type = MQTT_UNSUBSCRIBE then do {
          payload \<leftarrow> slice_from data start; r \<leftarrow> on_unsubscribe h payload; Some (r, h) }
        else if packet_type = MQTT_PUBREL then do {
          payload \<leftarrow> slice_from data start; r \<leftarrow> on_pubrel payload; Some (r, h) }
        else if packet_type = MQTT_PINGREQ then
          if remaining_len = 0 then Some ([push_bit 4 MQTT_PINGRESP, 0], h) else Some ([], h)
        else if packet_type = MQTT_DISCONNECT then do {
          payload \<leftarrow> slice_from data start; on_disconnect h payload }
        else Some ([], h)) } })"

text \<open>A session: the packets of a connection in order, each handled in the state the one before
  left. The result is the list of answers and the last state.\<close>

fun mqtt_session :: "mqtt_handler \<Rightarrow> bytes list \<Rightarrow> (bytes list \<times> mqtt_handler) rs" where
  "mqtt_session h [] = Some ([], h)"
| "mqtt_session h (p # ps) = do {
     (r, h) \<leftarrow> handle_packet h p;
     (rs, h) \<leftarrow> mqtt_session h ps;
     Some (r # rs, h) }"

end
