(* ===== verification/Mqtt_Session.thy ===== *)
theory Mqtt_Session
  imports Mqtt
begin

text \<open>
  Properties of the MQTT broker emulation: the remaining-length field is read back as it was
  written and both readers of it agree; every answer is one complete frame of the acknowledging
  type; and a session, as a sequence of packets, follows the abstract connection automaton
  \<open>mqtt_step\<close>.
\<close>

section \<open>The remaining-length field\<close>

lemma encoded_len_loop_acc: "mqtt_encoded_len_loop v (Suc n) = Suc (mqtt_encoded_len_loop v n)"
proof (induction v n rule: mqtt_encoded_len_loop.induct)
  case (1 v n)
  then show ?case
    by (subst mqtt_encoded_len_loop.simps, subst (2) mqtt_encoded_len_loop.simps) simp
qed

lemma remaining_length_encoded_len_rec:
  "remaining_length_encoded_len v =
     (if v < 128 then 1 else Suc (remaining_length_encoded_len (v div 128)))"
  unfolding remaining_length_encoded_len_def mqtt_remaining_length_encoded_len_def
  by (subst mqtt_encoded_len_loop.simps) (simp add: encoded_len_loop_acc)

lemma remaining_length_encoded_len_le:
  "v < 128 ^ k \<Longrightarrow> 0 < k \<Longrightarrow> remaining_length_encoded_len v \<le> k"
proof (induction k arbitrary: v)
  case (Suc k)
  then show ?case
    by (cases "k = 0"; subst remaining_length_encoded_len_rec)
      (auto simp: less_mult_imp_div_less mult.commute)
qed simp

lemma push_remaining_length_append:
  "push_remaining_length out v = out @ push_remaining_length [] v"
proof (induction v arbitrary: out rule: less_induct)
  case (less v)
  show ?case
  proof (cases "v div 128 = 0")
    case True
    then show ?thesis by (simp add: push_remaining_length.simps [of _ v])
  next
    case False
    then have "v div 128 < v" by simp
    note IH = less.IH [OF this]
    show ?thesis
      using False
      by (subst (1 2) push_remaining_length.simps)
        (simp add: Let_def IH [of "out @ [b]" for b] IH [of "[b]" for b])
  qed
qed

lemma push_remaining_length_rec:
  "push_remaining_length [] v =
     (if v < 128 then [word_of_nat v AND 0x7F]
      else ((word_of_nat v AND 0x7F) OR 0x80) # push_remaining_length [] (v div 128))"
  by (subst push_remaining_length.simps)
    (auto simp: Let_def div_eq_0_iff push_remaining_length_append [of "[b]" for b])

lemma continuation_byte:
  fixes x :: u8
  shows "((x AND 0x7F) OR 0x80) AND 0x7F = x AND 0x7F" "((x AND 0x7F) OR 0x80) AND 0x80 = 0x80"
    "(x AND 0x7F) AND 0x7F = x AND 0x7F" "(x AND 0x7F) AND 0x80 = 0"
  by (simp_all add: word_ao_dist and.assoc)

lemma word_low_seven: "unat (word_of_nat v AND 0x7F :: u8) = v mod 128"
  by (simp add: low_seven_bits unat_word_nat_u8 mod_mod_cancel)

lemma length_push_remaining_length:
  "length (push_remaining_length [] v) = remaining_length_encoded_len v"
proof (induction v rule: less_induct)
  case (less v)
  show ?case
  proof (cases "v < 128")
    case True
    then show ?thesis by (simp add: push_remaining_length_rec remaining_length_encoded_len_rec)
  next
    case False
    then show ?thesis
      using less.IH [of "v div 128"]
      by (subst push_remaining_length_rec, subst remaining_length_encoded_len_rec) simp
  qed
qed

lemma parse_loop_steps:
  assumes "idx data (Suc k) = Some b" "k < 4" "acc + unat (b AND 0x7F) * m \<le> usize_max"
  shows "b AND 0x80 = 0 \<Longrightarrow>
      parse_remaining_length_loop data m acc k = Some (Some (acc + unat (b AND 0x7F) * m, Suc k))"
    and "b AND 0x80 \<noteq> 0 \<Longrightarrow> m * 128 \<le> usize_max \<Longrightarrow>
      parse_remaining_length_loop data m acc k =
      parse_remaining_length_loop data (m * 128) (acc + unat (b AND 0x7F) * m) (Suc k)"
proof -
  have "Suc k < length data" using assms(1) by (auto simp: idx_def split: if_splits)
  with assms show "b AND 0x80 = 0 \<Longrightarrow>
      parse_remaining_length_loop data m acc k = Some (Some (acc + unat (b AND 0x7F) * m, Suc k))"
    and "b AND 0x80 \<noteq> 0 \<Longrightarrow> m * 128 \<le> usize_max \<Longrightarrow>
      parse_remaining_length_loop data m acc k =
      parse_remaining_length_loop data (m * 128) (acc + unat (b AND 0x7F) * m) (Suc k)"
    by (subst parse_remaining_length_loop.simps, simp add: checked_mul_def checked_add_def)+
qed

lemma parse_push_loop:
  assumes "data = pre @ push_remaining_length [] v @ rest" "length pre = Suc k"
    and "k + remaining_length_encoded_len v \<le> 4" "acc + v * m \<le> usize_max"
  shows "parse_remaining_length_loop data m acc k =
    Some (Some (acc + v * m, k + remaining_length_encoded_len v))"
  using assms
proof (induction v arbitrary: pre k acc m rule: less_induct)
  case (less v)
  show ?case
  proof (cases "v < 128")
    case True
    then have "idx data (Suc k) = Some (word_of_nat v AND 0x7F)"
      using less.prems(1,2) by (simp add: push_remaining_length_rec [of v] idx_def nth_append)
    from parse_loop_steps(1) [OF this, of acc m] True less.prems(3,4) show ?thesis
      by (simp add: continuation_byte word_low_seven remaining_length_encoded_len_rec [of v])
  next
    case False
    let ?b = "(word_of_nat v AND 0x7F) OR 0x80 :: u8"
    have "v * m = (v mod 128 + v div 128 * 128) * m"
      by (simp only: mod_div_mult_eq)
    then have vm: "acc + v * m = (acc + v mod 128 * m) + v div 128 * (m * 128)"
      by (simp only: distrib_right mult.assoc mult.commute [of 128] add.assoc)
    have data: "data = (pre @ [?b]) @ push_remaining_length [] (v div 128) @ rest"
      using less.prems(1) False by (simp add: push_remaining_length_rec [of v])
    have len: "remaining_length_encoded_len v = Suc (remaining_length_encoded_len (v div 128))"
      using False by (simp add: remaining_length_encoded_len_rec [of v])
    have m128: "m * 128 \<le> usize_max"
      using order_trans [OF mult_le_mono2 [of 128 v m]] less.prems(4) False
      by (simp add: mult.commute [of v] add_leD2)
    have "parse_remaining_length_loop data (m * 128) (acc + v mod 128 * m) (Suc k) =
        Some (Some (acc + v mod 128 * m + v div 128 * (m * 128),
          Suc k + remaining_length_encoded_len (v div 128)))"
    proof (rule less.IH [OF _ data])
      show "v div 128 < v" using False by simp
      show "acc + v mod 128 * m + v div 128 * (m * 128) \<le> usize_max"
        using less.prems(4) unfolding vm .
    qed (use less.prems(2,3) len in simp_all)
    moreover have "idx data (Suc k) = Some ?b"
      unfolding data using less.prems(2) by (simp add: idx_def nth_append)
    from parse_loop_steps(2) [OF this, of acc m]
    have "parse_remaining_length_loop data m acc k =
        parse_remaining_length_loop data (m * 128) (acc + v mod 128 * m) (Suc k)"
      using less.prems(3,4) m128 len by (simp add: vm continuation_byte word_low_seven)
    ultimately show ?thesis by (simp only: vm len add_Suc_right add_Suc)
  qed
qed

lemma parse_push_remaining_length:
  assumes "n \<le> MQTT_MAX_VARIABLE_BYTE_INTEGER"
  shows "parse_remaining_length (push_remaining_length [t] n @ rest) =
    Some (Some (n, Suc (remaining_length_encoded_len n)))"
proof -
  have "remaining_length_encoded_len n \<le> 4"
    by (rule remaining_length_encoded_len_le)
      (use assms in \<open>simp_all add: MQTT_MAX_VARIABLE_BYTE_INTEGER_def\<close>)
  moreover have "0 < remaining_length_encoded_len n"
    by (subst remaining_length_encoded_len_rec) simp
  ultimately show ?thesis
    using parse_push_loop [of "push_remaining_length [t] n @ rest" "[t]" n rest 0 0 1] assms
    by (simp add: parse_remaining_length_def push_remaining_length_append [of "[t]"]
        length_push_remaining_length MQTT_MAX_VARIABLE_BYTE_INTEGER_def usize_max_def)
qed

text \<open>A value beyond the four-byte range needs five bytes, so the handler's separate range check
  rejects nothing that its length check accepts: it reads what the detector reads.\<close>

lemma remaining_length_encoded_len_gt: "128 ^ k \<le> v \<Longrightarrow> k < remaining_length_encoded_len v"
proof (induction k arbitrary: v)
  case 0
  show ?case by (subst remaining_length_encoded_len_rec) simp
next
  case (Suc k)
  then have "128 ^ k \<le> v div 128" "\<not> v < 128"
    using order_trans [of 128 "128 * 128 ^ k" v]
    by (auto simp: less_eq_div_iff_mult_less_eq mult.commute)
  with Suc.IH show ?case by (subst remaining_length_encoded_len_rec) simp
qed

lemma parse_remaining_length_loop_le:
  "parse_remaining_length_loop data m v k = Some (Some (l, n)) \<Longrightarrow> n \<le> 4"
proof (induction "4 - k" arbitrary: k m v rule: less_induct)
  case less
  have "n \<le> 4" if "parse_remaining_length_loop data m' v' (Suc k) = Some (Some (l, n))" "k < 4" for m' v'
    using less.hyps [OF _ that(1)] that(2) by simp
  with less.prems show ?case
    by (subst (asm) parse_remaining_length_loop.simps)
      (auto simp: Let_def tryo_eq_Some_Some split: if_splits option.splits)
qed

lemma remaining_length_loops_agree:
  "k \<le> 4 \<Longrightarrow> mqtt_remaining_length_loop data [Suc k..<5] m v =
     do { r \<leftarrow> parse_remaining_length_loop data m v k;
          tryo r (\<lambda>(v, n). Some (if remaining_length_encoded_len v \<noteq> n then None else Some (v, n + 1))) }"
proof (induction "4 - k" arbitrary: k m v)
  case 0
  then show ?case by (subst parse_remaining_length_loop.simps) simp
next
  case (Suc d)
  then have IH: "mqtt_remaining_length_loop data [Suc (Suc k)..<5] m v =
     do { r \<leftarrow> parse_remaining_length_loop data m v (Suc k);
          tryo r (\<lambda>(v, n). Some (if remaining_length_encoded_len v \<noteq> n then None else Some (v, n + 1))) }"
    for m v by simp
  from Suc(2) have "k < 4" by simp
  moreover have "[Suc k..<5] = Suc k # [Suc (Suc k)..<5]"
    using \<open>k < 4\<close> by (simp add: upt_rec)
  ultimately show ?case
    by (subst parse_remaining_length_loop.simps)
      (simp add: IH Let_def remaining_length_encoded_len_def idx_def checked_mul_def checked_add_def)
qed

section \<open>Answers\<close>

text \<open>The frame of a packet type and a body, and the type that acknowledges a request: the next one
  in the numbering of the protocol, except that a PUBLISH of quality 2 is answered by PUBREC.\<close>

definition framed :: "u8 \<Rightarrow> bytes \<Rightarrow> bytes" where
  "framed first body = push_remaining_length [first] (length body) @ body"

definition packet_type_of :: "bytes \<Rightarrow> u8" where
  "packet_type_of data = drop_bit 4 (data ! 0) AND 0x0F"

definition ack_type_of :: "bytes \<Rightarrow> u8" where
  "ack_type_of data =
     packet_type_of data +
     (if packet_type_of data = MQTT_PUBLISH \<and> drop_bit 1 (data ! 0) AND 0x03 = 2 then 2 else 1)"

definition id_bytes_of :: "bytes \<Rightarrow> bytes" where
  "id_bytes_of data =
     (if packet_type_of data = MQTT_PUBLISH then publish_id_bytes (frame_body data)
      else take 2 (frame_body data))"

text \<open>What an arm may answer: nothing, or one frame with the given first byte whose body starts with
  the bytes \<open>i\<close>, short enough for the length field.\<close>

definition answers :: "u8 \<Rightarrow> bytes \<Rightarrow> bytes \<Rightarrow> bool" where
  "answers first i r \<longleftrightarrow> r = [] \<or>
     (\<exists>body. r = framed first body \<and> take 2 body = i
       \<and> length body \<le> MQTT_MAX_TOPIC_FILTERS + 3)"

lemma answers_nothing [simp]: "answers first i []"
  by (simp add: answers_def)

lemma answers_framed:
  assumes "u16_to_be p = i" "n = 2 + length rest" "length rest \<le> Suc MQTT_MAX_TOPIC_FILTERS"
  shows "answers first i (push_remaining_length [first] n @ i @ rest)"
  unfolding answers_def framed_def
  by (rule disjI2, rule exI [of _ "i @ rest"]) (use assms in auto)

lemma push_remaining_length_short:
  "v < 128 \<Longrightarrow> push_remaining_length out v = out @ [word_of_nat v]"
proof -
  assume "v < 128"
  moreover from this have "(word_of_nat v AND 0x7F :: u8) = word_of_nat v"
    by (simp add: word_unat_eq_iff word_low_seven unat_word_nat_u8)
  ultimately show ?thesis
    by (subst push_remaining_length_append, subst push_remaining_length_rec) simp
qed

lemma parse_remaining_length_short:
  "unat b < 128 \<Longrightarrow> parse_remaining_length (t # b # rest) = Some (Some (unat b, 2))"
  using parse_push_remaining_length [of "unat b" t rest]
  by (simp add: push_remaining_length_short MQTT_MAX_VARIABLE_BYTE_INTEGER_def
      remaining_length_encoded_len_rec [of "unat b"])

lemma answers_id: "u16_to_be p = i \<Longrightarrow> answers first i (first # 2 # i)"
  using answers_framed [of p i 2 "[]" first] by (simp add: push_remaining_length_short)

lemma answers_id_only: "u16_to_be p = i \<Longrightarrow> answers first i (push_remaining_length [first] 2 @ i)"
  using answers_framed [of p i 2 "[]" first] by simp

lemma on_publish_wp:
  "data \<noteq> [] \<Longrightarrow> wp (on_publish data)
     (answers (if drop_bit 1 (data ! 0) AND 0x03 = 2 then 0x50 else 0x40)
        (publish_id_bytes (frame_body data)))"
  unfolding on_publish_def Let_def
  by (auto simp: wp_rules u16_shifted_bytes intro!: wp_call [OF parse_publish_wp] intro: answers_id)

lemma on_pubrel_wp: "wp (on_pubrel payload) (answers 0x70 (take 2 payload))"
  unfolding on_pubrel_def
  by (auto simp: wp_rules u16_shifted_bytes intro!: wp_call [OF parse_pubrel_packet_wp] intro: answers_id)

lemma on_subscribe_wp: "wp (on_subscribe h payload) (answers 0x90 (take 2 payload))"
  unfolding on_subscribe_def Let_def
  by (auto simp: wp_rules bind_eq_Some_conv
      intro!: wp_call [OF parse_subscribe_packet_for_level_wp] answers_framed)

lemma on_unsubscribe_wp: "wp (on_unsubscribe h payload) (answers 0xB0 (take 2 payload))"
  unfolding on_unsubscribe_def Let_def
  by (auto simp: wp_rules bind_eq_Some_conv
      intro!: wp_call [OF parse_unsubscribe_packet_for_level_wp] answers_framed
      intro: answers_id_only split: if_splits)

lemma answers_first: "answers first i r \<Longrightarrow> r \<noteq> [] \<Longrightarrow> r ! 0 = first"
  by (auto simp: answers_def framed_def push_remaining_length_append [of "[b]" for b])

lemma on_connect_wp:
  "wp (on_connect h data) (\<lambda>(r, h').
     r = [] \<and> h' = h
     \<or> r = [0x20, 2, 0, 2] \<and> h' = h\<lparr>mh_state := Disconnected\<rparr>
     \<or> (r = [0x20, 3, 0, 0, 0] \<or> r = [0x20, 2, 0, 0]) \<and> mh_state h' = Connected)"
  unfolding on_connect_def Let_def
  by (auto simp: wp_rules intro!: wp_call [OF parse_connect_wp])

lemma on_disconnect_wp:
  "wp (on_disconnect h payload) (\<lambda>(r, h'). r = [] \<and> (h' = h \<or> h' = h\<lparr>mh_state := Disconnected\<rparr>))"
  unfolding on_disconnect_def
  by (auto simp: wp_rules intro!: wp_call [OF parse_disconnect_packet_for_level_wp])

text \<open>Everything the handler can do with a packet.\<close>

inductive mqtt_reaction :: "mqtt_handler \<Rightarrow> bytes \<Rightarrow> bytes \<Rightarrow> mqtt_handler \<Rightarrow> bool" for h data where
  ignored: "mqtt_reaction h data [] h"
| rejected: "mh_state h = WaitingConnect \<Longrightarrow> packet_type_of data = MQTT_CONNECT \<Longrightarrow>
    mqtt_reaction h data [0x20, 2, 0, 2] (h\<lparr>mh_state := Disconnected\<rparr>)"
| accepted: "mh_state h = WaitingConnect \<Longrightarrow> packet_type_of data = MQTT_CONNECT \<Longrightarrow>
    r = [0x20, 3, 0, 0, 0] \<or> r = [0x20, 2, 0, 0] \<Longrightarrow> mh_state h' = Connected \<Longrightarrow> mqtt_reaction h data r h'"
| acknowledged: "mh_state h = Connected \<Longrightarrow>
    packet_type_of data \<in> {MQTT_PUBLISH, MQTT_PUBREL, MQTT_SUBSCRIBE, MQTT_UNSUBSCRIBE} \<Longrightarrow>
    answers (push_bit 4 (ack_type_of data)) (id_bytes_of data) r \<Longrightarrow> r \<noteq> [] \<Longrightarrow> mqtt_reaction h data r h"
| pong: "mh_state h = Connected \<Longrightarrow> packet_type_of data = MQTT_PINGREQ \<Longrightarrow>
    mqtt_reaction h data [0xD0, 0] h"
| left: "mh_state h = Connected \<Longrightarrow> packet_type_of data = MQTT_DISCONNECT \<Longrightarrow>
    mqtt_reaction h data [] (h\<lparr>mh_state := Disconnected\<rparr>)"

lemma answers_reaction:
  assumes "answers first i r" "mh_state h = Connected"
    "packet_type_of data \<in> {MQTT_PUBLISH, MQTT_PUBREL, MQTT_SUBSCRIBE, MQTT_UNSUBSCRIBE}"
    "first = push_bit 4 (ack_type_of data)" "i = id_bytes_of data"
  shows "mqtt_reaction h data r h"
  using assms by (cases "r = []") (auto intro: mqtt_reaction.intros)

lemma arm_reactions:
  assumes "mh_state h = Connected" "data \<noteq> []"
  shows "packet_type_of data = MQTT_PUBLISH \<Longrightarrow> wp (on_publish data) (\<lambda>r. mqtt_reaction h data r h)"
    and "packet_type_of data = MQTT_PUBREL \<Longrightarrow> wp (on_pubrel (frame_body data)) (\<lambda>r. mqtt_reaction h data r h)"
    and "packet_type_of data = MQTT_SUBSCRIBE \<Longrightarrow>
      wp (on_subscribe h (frame_body data)) (\<lambda>r. mqtt_reaction h data r h)"
    and "packet_type_of data = MQTT_UNSUBSCRIBE \<Longrightarrow>
      wp (on_unsubscribe h (frame_body data)) (\<lambda>r. mqtt_reaction h data r h)"
    and "packet_type_of data = MQTT_DISCONNECT \<Longrightarrow>
      wp (on_disconnect h (frame_body data)) (\<lambda>(r, h'). mqtt_reaction h data r h')"
  using assms
  by (auto intro!: wp_call [OF on_publish_wp] wp_call [OF on_pubrel_wp] wp_call [OF on_subscribe_wp]
      wp_call [OF on_unsubscribe_wp] wp_call [OF on_disconnect_wp] intro: mqtt_reaction.intros
      elim!: answers_reaction simp: ack_type_of_def id_bytes_of_def)

lemma on_connect_reaction:
  "mh_state h = WaitingConnect \<Longrightarrow> packet_type_of data = MQTT_CONNECT \<Longrightarrow>
   wp (on_connect h data) (\<lambda>(r, h'). mqtt_reaction h data r h')"
  by (rule wp_call [OF on_connect_wp]) (auto intro: mqtt_reaction.intros)

lemma handle_packet_reaction: "wp (handle_packet h data) (\<lambda>(r, h'). mqtt_reaction h data r h')"
proof -
  have body: "frame_body data = drop b data" if "parse_remaining_length data = Some (Some (a, b))" for a b
    using that by (simp add: frame_body_def)
  show ?thesis
    unfolding handle_packet_def packet_type_of_def [symmetric]
    by (cases "mh_state h")
      (auto simp: wp_rules packet_type_of_def [symmetric] body [symmetric] intro: mqtt_reaction.intros
        intro!: wp_call_eq [OF parse_remaining_length_wp] on_connect_reaction arm_reactions)
qed

lemma handle_packet_result:
  "handle_packet h data = Some (r, h') \<Longrightarrow> mqtt_reaction h data r h'"
  using wp_result [OF handle_packet_reaction] by fastforce

lemma reaction_frame:
  assumes "mqtt_reaction h data r h'" "r \<noteq> []"
  shows "\<exists>body. r = framed (push_bit 4 (ack_type_of data)) body
    \<and> length body \<le> MQTT_MAX_TOPIC_FILTERS + 3
    \<and> (packet_type_of data \<in> {MQTT_PUBLISH, MQTT_PUBREL, MQTT_SUBSCRIBE, MQTT_UNSUBSCRIBE}
       \<longrightarrow> take 2 body = id_bytes_of data)"
  using assms
proof cases
  case rejected
  then show ?thesis
    by (intro exI [of _ "[0, 2]"])
      (simp add: ack_type_of_def framed_def push_remaining_length_short)
next
  case accepted
  then show ?thesis
    by (intro exI [of _ "drop 2 r"])
      (auto simp: ack_type_of_def framed_def push_remaining_length_short MQTT_MAX_TOPIC_FILTERS_def)
next
  case pong
  then show ?thesis
    by (intro exI [of _ "[]"]) (simp add: ack_type_of_def framed_def push_remaining_length_short)
qed (auto simp: answers_def)

section \<open>Sessions\<close>

text \<open>The connection automaton: what an observer sees of a session is, per packet, an accepted or
  rejected CONNECT, another acknowledgement, or silence.\<close>

datatype mqtt_label = Silent | Accepted | Rejected | Acked

definition label_of :: "bytes \<Rightarrow> mqtt_label" where
  "label_of r =
     (if r = [] then Silent
      else if r ! 0 = 0x20 then if r ! 3 = 0 then Accepted else Rejected
      else Acked)"

inductive mqtt_step :: "mqtt_state \<Rightarrow> mqtt_label \<Rightarrow> mqtt_state \<Rightarrow> bool" where
  stay: "mqtt_step s Silent s"
| connect: "mqtt_step WaitingConnect Accepted Connected"
| refuse: "mqtt_step WaitingConnect Rejected Disconnected"
| acknowledge: "mqtt_step Connected Acked Connected"
| disconnect: "mqtt_step Connected Silent Disconnected"

inductive mqtt_run :: "mqtt_state \<Rightarrow> mqtt_label list \<Rightarrow> mqtt_state \<Rightarrow> bool" where
  finished: "mqtt_run s [] s"
| step: "mqtt_step s l s' \<Longrightarrow> mqtt_run s' ls s'' \<Longrightarrow> mqtt_run s (l # ls) s''"

inductive_cases mqtt_step_from: "mqtt_step s l s'"
inductive_cases mqtt_run_Cons: "mqtt_run s (l # ls) s'"
inductive_simps mqtt_run_simps: "mqtt_run s [] s'" "mqtt_run s (l # ls) s'"
inductive_simps mqtt_step_simps:
  "mqtt_step WaitingConnect l s'" "mqtt_step Connected l s'" "mqtt_step Disconnected l s'"

lemma acknowledged_first:
  "packet_type_of data \<in> {MQTT_PUBLISH, MQTT_PUBREL, MQTT_SUBSCRIBE, MQTT_UNSUBSCRIBE} \<Longrightarrow>
   answers (push_bit 4 (ack_type_of data)) i r \<Longrightarrow> r \<noteq> [] \<Longrightarrow> r ! 0 \<noteq> 0x20"
  by (auto dest!: answers_first simp: ack_type_of_def split: if_splits)

lemma reaction_step: "mqtt_reaction h data r h' \<Longrightarrow> mqtt_step (mh_state h) (label_of r) (mh_state h')"
  by (induction rule: mqtt_reaction.induct)
    (auto simp: label_of_def acknowledged_first intro: mqtt_step.intros)

lemma session_run:
  "wp (mqtt_session h ps) (\<lambda>(rs, h'). length rs = length ps \<and>
     mqtt_run (mh_state h) (map label_of rs) (mh_state h'))"
proof (induction ps arbitrary: h)
  case (Cons p ps)
  show ?case
    by (auto simp: wp_rules intro!: wp_call [OF handle_packet_reaction] wp_call [OF Cons.IH]
        intro: mqtt_run.intros dest: reaction_step)
qed (simp add: wp_rules mqtt_run.intros)

lemma disconnected_run: "mqtt_run Disconnected ls s \<Longrightarrow> set ls \<subseteq> {Silent} \<and> s = Disconnected"
  by (induction ls) (auto simp: mqtt_run_simps mqtt_step_simps)

lemma connected_run: "mqtt_run Connected ls s \<Longrightarrow> set ls \<subseteq> {Silent, Acked}"
proof (induction ls)
  case (Cons l ls)
  then show ?case by (auto simp: mqtt_run_simps mqtt_step_simps dest: disconnected_run)
qed simp

lemma waiting_run:
  "mqtt_run WaitingConnect ls s \<Longrightarrow> filter (\<lambda>l. l \<noteq> Silent) ls = m # ms \<Longrightarrow>
   m \<in> {Accepted, Rejected} \<and> set ms \<subseteq> {Acked}"
proof (induction ls)
  case (Cons l ls)
  have "set (filter (\<lambda>l. l \<noteq> Silent) ls) \<subseteq> {Acked}" if "mqtt_run Connected ls s"
    using connected_run [OF that] by auto
  moreover have "filter (\<lambda>l. l \<noteq> Silent) ls = []" if "mqtt_run Disconnected ls s"
    using disconnected_run [OF that] by (auto simp: filter_empty_conv)
  ultimately show ?case
    using Cons by (auto simp: mqtt_run_simps mqtt_step_simps split: if_splits)
qed simp

lemma filter_answers: "filter (\<lambda>l. l \<noteq> Silent) (map label_of rs) = map label_of (filter (\<lambda>r. r \<noteq> []) rs)"
  by (induction rs) (auto simp: label_of_def)

lemma label_of_first: "label_of r \<in> {Accepted, Rejected} \<Longrightarrow> r ! 0 = 0x20" "label_of r = Acked \<Longrightarrow> r ! 0 \<noteq> 0x20"
  by (auto simp: label_of_def split: if_splits)

lemma reaction_stays:
  "mqtt_reaction h data r h' \<Longrightarrow> mh_state h = Connected \<Longrightarrow> packet_type_of data \<noteq> MQTT_DISCONNECT \<Longrightarrow>
   mh_state h' = Connected"
  by (induction rule: mqtt_reaction.induct) auto

lemma session_stays_connected:
  "mqtt_session h ps = Some (rs, h') \<Longrightarrow> mh_state h = Connected \<Longrightarrow>
   \<forall>p \<in> set ps. packet_type_of p \<noteq> MQTT_DISCONNECT \<Longrightarrow> mh_state h' = Connected"
proof (induction ps arbitrary: h rs)
  case (Cons p ps)
  then show ?case
    by (fastforce simp: bind_eq_Some_conv dest!: handle_packet_result intro: reaction_stays)
qed simp

lemma session_connects:
  "mqtt_session h ps = Some (rs, h') \<Longrightarrow> Accepted \<in> label_of ` set rs \<Longrightarrow>
   \<forall>p \<in> set ps. packet_type_of p \<noteq> MQTT_DISCONNECT \<Longrightarrow> mh_state h' = Connected"
proof (induction ps arbitrary: h rs)
  case (Cons p ps)
  then obtain r h1 rs' where first: "handle_packet h p = Some (r, h1)"
    and rest: "mqtt_session h1 ps = Some (rs', h')" and rs: "rs = r # rs'"
    by (auto simp: bind_eq_Some_conv)
  show ?case
  proof (cases "label_of r = Accepted")
    case True
    then have "mh_state h1 = Connected"
      using reaction_step [OF handle_packet_result [OF first]] by (auto elim: mqtt_step_from)
    then show ?thesis using session_stays_connected [OF rest] Cons.prems(3) by simp
  next
    case False
    then show ?thesis using Cons.IH [OF rest] Cons.prems rs by auto
  qed
qed simp

section \<open>Main properties\<close>

text \<open>Property C18. No sequence of packets makes the broker panic, each packet gets one (possibly
  empty) answer, and the answers and the last state are a run of the connection automaton from
  \<open>WaitingConnect\<close>: nothing but a CONNECT is answered before the connection, no CONNECT is answered
  twice, and nothing is answered after a rejected CONNECT or a DISCONNECT.\<close>

theorem mqtt_session_refines:
  "\<exists>rs h. mqtt_session mqtt_handler_new ps = Some (rs, h) \<and> length rs = length ps
     \<and> mqtt_run WaitingConnect (map label_of rs) (mh_state h)"
  using session_run [of mqtt_handler_new ps]
  by (auto simp: wp_def mqtt_handler_new_def split: option.splits)

text \<open>In every session the first answer that is not empty is a CONNACK and no later
  answer is one.\<close>

lemma mqtt_connack_first:
  assumes "mqtt_session mqtt_handler_new ps = Some (rs, h)"
    and "filter (\<lambda>r. r \<noteq> []) rs = a # as"
  shows "a ! 0 = push_bit 4 MQTT_CONNACK \<and> (\<forall>b \<in> set as. b ! 0 \<noteq> push_bit 4 MQTT_CONNACK)"
proof -
  have "mqtt_run WaitingConnect (map label_of rs) (mh_state h)"
    using wp_result [OF session_run assms(1)] by (simp add: mqtt_handler_new_def)
  from waiting_run [OF this, unfolded filter_answers assms(2), of "label_of a" "map label_of as"]
  have "label_of a \<in> {Accepted, Rejected}" "\<forall>b \<in> set as. label_of b = Acked" by auto
  then show ?thesis by (simp add: label_of_first)
qed

text \<open>A CONNECT of MQTT 3.1.1 with an empty client identifier, and a PINGREQ.\<close>

definition mqtt_connect_sample :: bytes where
  "mqtt_connect_sample = [0x10, 12, 0, 4, 0x4D, 0x51, 0x54, 0x54, 4, 2, 0, 60, 0, 0]"

lemmas mqtt_session_evals = handle_packet_def parse_remaining_length_short idx_def slice_def slice_from_def
  checked_add_def usize_max_def MQTT_MAX_PACKET_BYTES_def valid_fixed_header_def
  on_connect_def parse_connect_def read_mqtt_string_def connect_payload_def connect_block_def
  connect_will_def read_mqtt_utf8_string_def from_utf8_def utf8_decode_ascii valid_mqtt_utf8_string_def
  mqtt_utf8_string_is_valid_def chars_def bstr_def
  on_subscribe_def parse_subscribe_packet_for_level_def parse_topics_packet_def parse_subscribe_topics_def
  mqtt_scan.simps subscribe_topics_step_def topic_filter_at_def valid_subscribe_topic_filter_def
  mqtt_subscribe_topic_filter_is_valid_def valid_subscription_options_def MQTT_MAX_TOPIC_FILTERS_def
  push_remaining_length_short

lemma mqtt_sample_session:
  "mqtt_session mqtt_handler_new [[0xC0, 0], mqtt_connect_sample, [0xC0, 0]] =
     Some ([[], [0x20, 2, 0, 0], [0xD0, 0]], \<lparr>mh_state = Connected, mh_protocol_level = Some 4\<rparr>)"
  by (simp add: mqtt_session_evals mqtt_connect_sample_def mqtt_handler_new_def)

lemma mqtt_connack_first_example:
  "[0x20, 2, 0, 0 :: u8] ! 0 = push_bit 4 MQTT_CONNACK \<and> [0xD0, 0] ! 0 \<noteq> push_bit 4 MQTT_CONNACK"
proof -
  have "[0x20, 2, 0, 0 :: u8] ! 0 = push_bit 4 MQTT_CONNACK
      \<and> (\<forall>b \<in> set [[0xD0, 0]]. b ! 0 \<noteq> push_bit 4 MQTT_CONNACK)"
    by (rule mqtt_connack_first [OF mqtt_sample_session]) simp
  then show ?thesis by (simp only: list.set ball_simps simp_thms)
qed

text \<open>After an accepted CONNECT, as long as the client sends no DISCONNECT packet, the
  connection stays up whatever else it sends: the next PINGREQ is answered by PINGRESP.\<close>

lemma mqtt_ping_live:
  assumes "mqtt_session mqtt_handler_new ps = Some (rs, h)"
    and "Accepted \<in> label_of ` set rs"
    and "\<forall>p \<in> set ps. packet_type_of p \<noteq> MQTT_DISCONNECT"
  shows "handle_packet h [push_bit 4 MQTT_PINGREQ, 0] = Some ([push_bit 4 MQTT_PINGRESP, 0], h)"
proof -
  from session_connects [OF assms] show ?thesis
    by (simp add: handle_packet_def parse_remaining_length_short idx_def valid_fixed_header_def MQTT_MAX_PACKET_BYTES_def
        checked_add_def usize_max_def)
qed

lemma mqtt_ping_live_example:
  "handle_packet \<lparr>mh_state = Connected, mh_protocol_level = Some 4\<rparr> [push_bit 4 MQTT_PINGREQ, 0] =
     Some ([push_bit 4 MQTT_PINGRESP, 0], \<lparr>mh_state = Connected, mh_protocol_level = Some 4\<rparr>)"
  by (rule mqtt_ping_live [OF mqtt_sample_session])
    (simp_all add: label_of_def packet_type_of_def mqtt_connect_sample_def)

text \<open>Property C19. An answer that is not empty is exactly one frame: its type is the one that
  acknowledges the request, its length field covers the rest of the answer and is read back by the
  parser, and the body starts with the packet identifier of a PUBLISH, PUBREL, SUBSCRIBE or
  UNSUBSCRIBE.\<close>

theorem mqtt_answer_frame:
  assumes "handle_packet h data = Some (r, h')" and "r \<noteq> []"
  shows "\<exists>body. r = framed (push_bit 4 (ack_type_of data)) body
    \<and> parse_remaining_length r = Some (Some (length body, length r - length body))
    \<and> frame_body r = body
    \<and> (packet_type_of data \<in> {MQTT_PUBLISH, MQTT_PUBREL, MQTT_SUBSCRIBE, MQTT_UNSUBSCRIBE}
       \<longrightarrow> take 2 body = id_bytes_of data)"
proof -
  obtain body where body: "r = framed (push_bit 4 (ack_type_of data)) body"
      "length body \<le> MQTT_MAX_TOPIC_FILTERS + 3"
      "packet_type_of data \<in> {MQTT_PUBLISH, MQTT_PUBREL, MQTT_SUBSCRIBE, MQTT_UNSUBSCRIBE}
        \<longrightarrow> take 2 body = id_bytes_of data"
    using handle_packet_result [OF assms(1)] assms(2) by (auto dest!: reaction_frame)
  have "length r = Suc (remaining_length_encoded_len (length body)) + length body"
    unfolding body(1) framed_def
    by (simp add: push_remaining_length_append [of "[b]" for b] length_push_remaining_length)
  moreover have "parse_remaining_length r =
      Some (Some (length body, Suc (remaining_length_encoded_len (length body))))"
    unfolding body(1) framed_def using body(2)
    by (intro parse_push_remaining_length)
      (simp add: MQTT_MAX_VARIABLE_BYTE_INTEGER_def MQTT_MAX_TOPIC_FILTERS_def)
  moreover from this have "frame_body r = body"
    unfolding body(1) framed_def
    by (simp add: frame_body_def push_remaining_length_append [of "[b]" for b] length_push_remaining_length)
  ultimately show ?thesis using body by auto
qed

lemma mqtt_subscribe_sample:
  "handle_packet \<lparr>mh_state = Connected, mh_protocol_level = Some 4\<rparr> [0x82, 6, 0, 7, 0, 1, 0x61, 1] =
     Some ([0x90, 3, 0, 7, 1], \<lparr>mh_state = Connected, mh_protocol_level = Some 4\<rparr>)"
  by (simp add: mqtt_session_evals Let_def u16_be_def u16_to_be_def)

theorem mqtt_answer_frame_witness:
  "\<exists>body. [0x90, 3, 0, 7, 1] = framed (push_bit 4 (ack_type_of [0x82, 6, 0, 7, 0, 1, 0x61, 1])) body
     \<and> parse_remaining_length [0x90, 3, 0, 7, 1] = Some (Some (length body, 5 - length body))
     \<and> frame_body [0x90, 3, 0, 7, 1] = body
     \<and> take 2 body = id_bytes_of [0x82, 6, 0, 7, 0, 1, 0x61, 1]"
  using mqtt_answer_frame [OF mqtt_subscribe_sample] by (auto simp: packet_type_of_def)

text \<open>Every length up to the limit of the protocol is read back as it was written, behind
  any first byte and in front of any rest.\<close>

lemma remaining_length_roundtrip:
  assumes "n \<le> MQTT_MAX_VARIABLE_BYTE_INTEGER"
  shows "parse_remaining_length (push_remaining_length [t] n @ rest) =
    Some (Some (n, length (push_remaining_length [t] n)))"
  using parse_push_remaining_length [OF assms]
  by (simp add: push_remaining_length_append [of "[b]" for b] length_push_remaining_length)

lemma remaining_length_roundtrip_example:
  "parse_remaining_length (push_remaining_length [0x30] 321 @ [1]) =
     Some (Some (321, length (push_remaining_length [0x30] 321)))"
  by (rule remaining_length_roundtrip) (simp add: MQTT_MAX_VARIABLE_BYTE_INTEGER_def)

text \<open>The protocol detector of the proxy and the broker read the length field of every
  byte sequence alike, although they are written differently.\<close>

lemma remaining_length_detector_agrees: "parse_remaining_length data = mqtt_remaining_length data"
proof -
  have detector: "mqtt_remaining_length data =
      do { r \<leftarrow> parse_remaining_length_loop data 1 0 0;
           tryo r (\<lambda>(v, n). Some (if remaining_length_encoded_len v \<noteq> n then None else Some (v, n + 1))) }"
  proof -
    have "[1, 2, 3, 4] = [Suc 0..<5]" by (simp add: upt_rec)
    then show ?thesis
      using remaining_length_loops_agree [of 0 data 1 0] by (simp only: mqtt_remaining_length_def)
  qed
  have "\<not> (l > MQTT_MAX_VARIABLE_BYTE_INTEGER)"
    if "parse_remaining_length_loop data 1 0 0 = Some (Some (l, n))" "remaining_length_encoded_len l = n" for l n
    using remaining_length_encoded_len_gt [of 4 l] parse_remaining_length_loop_le [OF that(1)] that(2)
    by (auto simp: MQTT_MAX_VARIABLE_BYTE_INTEGER_def)
  moreover have "parse_remaining_length_loop data 1 0 0 = Some None" if "length data < 2"
    using that by (subst parse_remaining_length_loop.simps) auto
  ultimately show ?thesis
    using wp_not_None [OF parse_remaining_length_loop_wp, of data 1 0 0]
    unfolding detector
    by (auto simp: parse_remaining_length_def tryo_def split: option.split)
qed

end
