(* ===== verification/Tftp.thy ===== *)
theory Tftp
  imports Taste_Records Core_Text Rust_Bits
begin

text \<open>
  The TFTP packets and handler, \<open>nettrap-proto-tftp/src/tftp.rs\<close> and \<open>handler.rs\<close>: parsing and
  serialising the five packet kinds, file names and options, and the blocks of the served content.
  A Rust \<open>Result\<close> is a sum with the error on the left. The text check that this crate and the
  detector share (\<open>tftp_text_field_is_safe\<close>) comes from the detector theory. Opening and reading a
  file below the configured root is an argument, \<open>open_beneath\<close>, since it is done by the operating
  system.
\<close>

section \<open>Packets\<close>

definition TFTP_BLOCK_SIZE :: nat where "TFTP_BLOCK_SIZE = 512"
definition TFTP_MAX_PACKET_BYTES :: nat where "TFTP_MAX_PACKET_BYTES = 4 + TFTP_BLOCK_SIZE"

abbreviation TFTP_OPCODE_RRQ :: u16 where "TFTP_OPCODE_RRQ \<equiv> 1"
abbreviation TFTP_OPCODE_WRQ :: u16 where "TFTP_OPCODE_WRQ \<equiv> 2"
abbreviation TFTP_OPCODE_DATA :: u16 where "TFTP_OPCODE_DATA \<equiv> 3"
abbreviation TFTP_OPCODE_ACK :: u16 where "TFTP_OPCODE_ACK \<equiv> 4"
abbreviation TFTP_OPCODE_ERROR :: u16 where "TFTP_OPCODE_ERROR \<equiv> 5"

datatype tftp_packet =
  ReadRequest bytes bytes "(bytes \<times> bytes) list"
| WriteRequest bytes bytes "(bytes \<times> bytes) list"
| Data u16 bytes
| Ack u16
| Error u16 bytes

text \<open>The messages of \<open>Error::Protocol\<close>.\<close>

datatype tftp_failure = Invalid_data | Unsafe_text | Invalid_options | Too_large

definition u16_at :: "bytes \<Rightarrow> usize \<Rightarrow> u16 option" where
  "u16_at data i =
     (case checked_add i 2 of
        None \<Rightarrow> None
      | Some e \<Rightarrow>
          (case slice data i e of
             Some [a, b] \<Rightarrow> Some (u16_be a b)
           | _ \<Rightarrow> None))"

definition tftp_filename_is_safe :: "bytes \<Rightarrow> bool rs" where
  "tftp_filename_is_safe v =
     (if \<not> tftp_text_field_is_safe v then Some False
      else if starts_with v [0x2F] \<or> starts_with v [0x5C] then Some False
      else do {
        drive \<leftarrow> looks_like_windows_drive_path v;
        if drive then Some False
        else if 0x3A \<in> set v then Some False
        else Some (\<not> list_ex (\<lambda>segment. segment = bstr ''.'' \<or> segment = bstr ''..'')
          (split_on (\<lambda>b. b = 0x2F \<or> b = 0x5C) v)) })"

text \<open>The loop of \<open>parse_options\<close> over \<open>chunks_exact(2)\<close>; \<open>names\<close> holds the names seen so far.\<close>

fun parse_options_loop ::
    "bytes list \<Rightarrow> bytes list \<Rightarrow> (bytes \<times> bytes) list \<Rightarrow> (bytes \<times> bytes) list option" where
  "parse_options_loop (name # v # rest) names options =
     (if name = [] \<or> v = [] then None
      else if \<not> tftp_text_field_is_safe name \<or> \<not> tftp_text_field_is_safe v then None
      else
        let name = to_ascii_lowercase name in
        if name \<in> set names then None
        else parse_options_loop rest (name # names) (options @ [(name, v)]))"
| "parse_options_loop _ names options = Some options"

definition parse_options :: "bytes list \<Rightarrow> (bytes \<times> bytes) list option" where
  "parse_options parts =
     (if length parts mod 2 \<noteq> 0 then None else parse_options_loop parts [] [])"

text \<open>The arm of \<open>TftpPacket::parse\<close> for RRQ and WRQ. Behind the text check \<open>from_utf8_lossy\<close> is the
  identity (the fields are printable ASCII).\<close>

definition parse_request :: "u16 \<Rightarrow> bytes \<Rightarrow> tftp_packet option rs" where
  "parse_request opcode data =
     (if length data > TFTP_MAX_CONTROL_PACKET_BYTES then Some None
      else tryo (slice_from data 2) (\<lambda>payload.
        if \<not> ends_with payload [0] then Some None
        else
          let parts = split_on (\<lambda>b. b = 0) payload;
              parts = (if parts \<noteq> [] \<and> last parts = [] then butlast parts else parts) in
          tryo (idx parts 0) (\<lambda>filename.
          tryo (idx parts 1) (\<lambda>mode.
            if filename = [] \<or> mode = [] then Some None
            else if \<not> tftp_text_field_is_safe filename then Some None
            else do {
              safe \<leftarrow> tftp_filename_is_safe filename;
              if \<not> safe then Some None
              else if \<not> tftp_text_field_is_safe mode then Some None
              else if \<not> one_of (to_ascii_lowercase mode) [''netascii'', ''octet'', ''mail''] then Some None
              else tryo (parse_options (drop 2 parts)) (\<lambda>options.
                Some (Some (if opcode = TFTP_OPCODE_RRQ then ReadRequest filename mode options
                            else WriteRequest filename mode options))) }))))"

definition tftp_parse :: "bytes \<Rightarrow> tftp_packet option rs" where
  "tftp_parse data =
     (if length data < 4 then Some None
      else tryo (u16_at data 0) (\<lambda>opcode.
        if opcode = TFTP_OPCODE_RRQ \<or> opcode = TFTP_OPCODE_WRQ then parse_request opcode data
        else if opcode = TFTP_OPCODE_DATA then
          if length data < 4 \<or> length data > TFTP_MAX_PACKET_BYTES then Some None
          else tryo (u16_at data 2) (\<lambda>block.
            if block = 0 then Some None
            else tryo (slice_from data 4) (\<lambda>payload. Some (Some (Data block payload))))
        else if opcode = TFTP_OPCODE_ACK then
          if length data \<noteq> 4 then Some None
          else tryo (u16_at data 2) (\<lambda>block. Some (Some (Ack block)))
        else if opcode = TFTP_OPCODE_ERROR then
          if length data > TFTP_MAX_CONTROL_PACKET_BYTES then Some None
          else if length data < 5 \<or> \<not> ends_with data [0] then Some None
          else tryo (u16_at data 2) (\<lambda>code.
            tryo (slice data 4 (length data - 1)) (\<lambda>msg_bytes.
              if 0 \<in> set msg_bytes \<or> \<not> tftp_text_field_is_safe msg_bytes then Some None
              else Some (Some (Error code msg_bytes))))
        else Some None))"

definition ensure_control_packet_size :: "usize \<Rightarrow> tftp_failure + unit" where
  "ensure_control_packet_size len =
     (if len > TFTP_MAX_CONTROL_PACKET_BYTES then Inl Too_large else Inr ())"

text \<open>The option loop of \<open>serialize_request\<close>: the checks and the packet length.\<close>

definition add_fields :: "usize \<Rightarrow> bytes \<Rightarrow> bytes \<Rightarrow> usize option" where
  "add_fields len a b = do {
     len \<leftarrow> checked_add len (length a); len \<leftarrow> checked_add len 1;
     len \<leftarrow> checked_add len (length b); checked_add len 1 }"

fun serialize_options_loop ::
    "(bytes \<times> bytes) list \<Rightarrow> bytes list \<Rightarrow> usize \<Rightarrow> tftp_failure + usize" where
  "serialize_options_loop [] names packet_len = Inr packet_len"
| "serialize_options_loop ((name, v) # rest) names packet_len =
     (if name = [] \<or> v = [] \<or> \<not> tftp_text_field_is_safe name \<or> \<not> tftp_text_field_is_safe v
         \<or> to_ascii_lowercase name \<in> set names
      then Inl Invalid_options
      else case add_fields packet_len name v of
        None \<Rightarrow> Inl Too_large
      | Some packet_len \<Rightarrow>
          serialize_options_loop rest (to_ascii_lowercase name # names) packet_len)"

definition serialize_request ::
    "u16 \<Rightarrow> bytes \<Rightarrow> bytes \<Rightarrow> (bytes \<times> bytes) list \<Rightarrow> (tftp_failure + bytes) rs" where
  "serialize_request opcode filename mode options =
     (if filename = [] \<or> mode = [] \<or> \<not> tftp_text_field_is_safe filename
         \<or> \<not> tftp_text_field_is_safe mode
         \<or> \<not> one_of (to_ascii_lowercase mode) [''netascii'', ''octet'', ''mail'']
      then Some (Inl Unsafe_text)
      else case add_fields 2 filename mode of
        None \<Rightarrow> Some (Inl Too_large)
      | Some packet_len \<Rightarrow> do {
          safe \<leftarrow> tftp_filename_is_safe filename;
          Some (if \<not> safe then Inl Unsafe_text
            else case serialize_options_loop options [] packet_len of
              Inl e \<Rightarrow> Inl e
            | Inr packet_len \<Rightarrow>
                (case ensure_control_packet_size packet_len of
                   Inl e \<Rightarrow> Inl e
                 | Inr _ \<Rightarrow>
                     Inr (u16_to_be opcode @ filename @ [0] @ mode @ [0]
                       @ concat (map (\<lambda>(name, v). name @ [0] @ v @ [0]) options)))) })"

definition tftp_to_bytes :: "tftp_packet \<Rightarrow> (tftp_failure + bytes) rs" where
  "tftp_to_bytes packet =
     (case packet of
        ReadRequest filename mode options \<Rightarrow> serialize_request TFTP_OPCODE_RRQ filename mode options
      | WriteRequest filename mode options \<Rightarrow> serialize_request TFTP_OPCODE_WRQ filename mode options
      | Data block data \<Rightarrow>
          Some (if block = 0 \<or> length data > TFTP_BLOCK_SIZE then Inl Invalid_data
                else Inr (u16_to_be TFTP_OPCODE_DATA @ u16_to_be block @ data))
      | Ack block \<Rightarrow> Some (Inr (u16_to_be TFTP_OPCODE_ACK @ u16_to_be block))
      | Error code message \<Rightarrow>
          Some (if \<not> tftp_text_field_is_safe message then Inl Unsafe_text
            else case checked_add 5 (length message) of
              None \<Rightarrow> Inl Too_large
            | Some packet_len \<Rightarrow>
                (case ensure_control_packet_size packet_len of
                   Inl e \<Rightarrow> Inl e
                 | Inr _ \<Rightarrow>
                     Inr (u16_to_be TFTP_OPCODE_ERROR @ u16_to_be code @ message @ [0]))))"

section \<open>The handler\<close>

definition MAX_TFTP_SERVE_BYTES :: nat where "MAX_TFTP_SERVE_BYTES = 8 * 1024 * 1024"

record tftp_handler =
  th_root_dir :: "bytes option"
  th_upload_prefix :: bytes
  th_default_content :: bytes

datatype tftp_config_error =
  Root_empty | Prefix_blank | Prefix_unsafe | Content_too_large

definition tftp_handler_new :: tftp_handler where
  "tftp_handler_new =
     \<lparr>th_root_dir = None, th_upload_prefix = bstr ''tftp_upload'',
      th_default_content = bstr ''NetTrap TFTP default file content'' @ [0x0A]\<rparr>"

definition with_root_dir :: "tftp_handler \<Rightarrow> bytes \<Rightarrow> tftp_config_error + tftp_handler" where
  "with_root_dir h dir = (if dir = [] then Inl Root_empty else Inr (h\<lparr>th_root_dir := Some dir\<rparr>))"

definition with_upload_prefix :: "tftp_handler \<Rightarrow> bytes \<Rightarrow> (tftp_config_error + tftp_handler) rs" where
  "with_upload_prefix h prefix =
     (if trim_matches (\<lambda>b. b = 0x20 \<or> b = 0x09) prefix = [] then Some (Inl Prefix_blank)
      else if \<not> list_all is_ascii prefix then Some (Inl Prefix_unsafe)
      else if list_ex char_is_control (chars prefix) then Some (Inl Prefix_unsafe)
      else do {
        safe \<leftarrow> tftp_filename_is_safe prefix;
        Some (if \<not> safe then Inl Prefix_unsafe else Inr (h\<lparr>th_upload_prefix := prefix\<rparr>)) })"

definition with_default_content :: "tftp_handler \<Rightarrow> bytes \<Rightarrow> tftp_config_error + tftp_handler" where
  "with_default_content h content =
     (if length content > MAX_TFTP_SERVE_BYTES then Inl Content_too_large
      else Inr (h\<lparr>th_default_content := content\<rparr>))"

text \<open>What the operating system gives for a path below the root: no such file, another error, or an
  open file with its metadata (regular file or not, length) and the result of seeking to an offset
  and reading up to one block there.\<close>

record tftp_file =
  tf_metadata :: "(bool \<times> nat) option"
  tf_read_at :: "nat \<Rightarrow> bytes option"

datatype tftp_open = Not_found | Open_failed | Opened tftp_file

definition tftp_access_violation :: tftp_packet where
  "tftp_access_violation = Error 2 (bstr ''Access violation'')"

text \<open>The block number is positive here: \<open>handle_read_request_block\<close> answers block 0 with an error, so
  \<open>block - 1\<close> does not underflow.\<close>

definition default_content_block :: "tftp_handler \<Rightarrow> u16 \<Rightarrow> bytes" where
  "default_content_block h block =
     (let offset = (unat block - 1) * TFTP_BLOCK_SIZE in
      if offset \<ge> length (th_default_content h) then []
      else
        let e = min (offset + TFTP_BLOCK_SIZE) (length (th_default_content h)) in
        case slice (th_default_content h) offset e of None \<Rightarrow> [] | Some v \<Rightarrow> v)"

definition read_open_file_block :: "tftp_file \<Rightarrow> u16 \<Rightarrow> nat \<Rightarrow> tftp_packet" where
  "read_open_file_block file block offset =
     (case tf_read_at file offset of
        None \<Rightarrow> Error 0 (bstr ''Read failed'')
      | Some data \<Rightarrow> Data block data)"

definition read_file_block ::
    "(bytes \<Rightarrow> bytes \<Rightarrow> tftp_open) \<Rightarrow> tftp_handler \<Rightarrow> bytes \<Rightarrow> bytes \<Rightarrow> u16 \<Rightarrow> tftp_packet" where
  "read_file_block open_beneath h root filename block =
     (case open_beneath root filename of
        Not_found \<Rightarrow> Data block (default_content_block h block)
      | Open_failed \<Rightarrow> tftp_access_violation
      | Opened file \<Rightarrow>
          (case tf_metadata file of
             None \<Rightarrow> tftp_access_violation
           | Some (is_file, len) \<Rightarrow>
               if \<not> is_file \<or> len > MAX_TFTP_SERVE_BYTES then tftp_access_violation
               else
                 let offset = (unat block - 1) * TFTP_BLOCK_SIZE in
                 if offset > len then Data block []
                 else read_open_file_block file block offset))"

definition handle_read_request_block ::
    "(bytes \<Rightarrow> bytes \<Rightarrow> tftp_open) \<Rightarrow> tftp_handler \<Rightarrow> bytes \<Rightarrow> u16 \<Rightarrow> tftp_packet" where
  "handle_read_request_block open_beneath h filename block =
     (if block = 0 then Error 4 (bstr ''Invalid block'')
      else case th_root_dir h of
        Some root \<Rightarrow> read_file_block open_beneath h root filename block
      | None \<Rightarrow> Data block (default_content_block h block))"

definition handle_read_request ::
    "(bytes \<Rightarrow> bytes \<Rightarrow> tftp_open) \<Rightarrow> tftp_handler \<Rightarrow> bytes \<Rightarrow> tftp_packet list" where
  "handle_read_request open_beneath h filename = [handle_read_request_block open_beneath h filename 1]"

definition handle_write_request :: "bytes \<Rightarrow> tftp_packet" where
  "handle_write_request filename = Ack 0"

definition handle_data_block :: "u16 \<Rightarrow> bytes \<Rightarrow> tftp_packet" where
  "handle_data_block block data = Ack block"

definition option_negotiation_failed :: tftp_packet where
  "option_negotiation_failed = Error 8 (bstr ''Option negotiation failed'')"

definition tftp_handle_packet ::
    "(bytes \<Rightarrow> bytes \<Rightarrow> tftp_open) \<Rightarrow> tftp_handler \<Rightarrow> tftp_packet \<Rightarrow> tftp_packet list" where
  "tftp_handle_packet open_beneath h packet =
     (case packet of
        ReadRequest filename mode options \<Rightarrow>
          if options \<noteq> [] then [option_negotiation_failed] else handle_read_request open_beneath h filename
      | WriteRequest filename mode options \<Rightarrow>
          if options \<noteq> [] then [option_negotiation_failed] else [handle_write_request filename]
      | Data _ _ \<Rightarrow> []
      | Ack _ \<Rightarrow> []
      | Error _ _ \<Rightarrow> [])"

section \<open>Parsing and serialising\<close>

lemma tftp_filename_is_safe_total: "tftp_filename_is_safe v \<noteq> None"
  using looks_like_windows_drive_path_total [of v]
  by (auto simp: tftp_filename_is_safe_def bind_eq_None_conv)

lemma tftp_filename_is_safe_iff:
  "tftp_filename_is_safe v = Some True \<longleftrightarrow>
     tftp_text_field_is_safe v \<and> \<not> starts_with v [0x2F] \<and> \<not> starts_with v [0x5C] \<and> 0x3A \<notin> set v \<and>
     \<not> list_ex (\<lambda>segment. segment = bstr ''.'' \<or> segment = bstr ''..'')
        (split_on (\<lambda>b. b = 0x2F \<or> b = 0x5C) v)"
proof -
  have "looks_like_windows_drive_path v = Some False" if "0x3A \<notin> set v"
    using that position_None_iff [of "\<lambda>x. x = 0x3A" v]
    by (auto simp: looks_like_windows_drive_path_def split_once_def)
  moreover have "looks_like_windows_drive_path v \<noteq> None" by (rule looks_like_windows_drive_path_total)
  ultimately show ?thesis
    by (cases "looks_like_windows_drive_path v") (auto simp: tftp_filename_is_safe_def)
qed

lemma tftp_safe_no_nul: "tftp_text_field_is_safe v \<Longrightarrow> 0 \<notin> set v"
  by (auto simp: tftp_text_field_is_safe_def list_all_iff is_ascii_control_def)

lemma u16_at_start [simp]: "u16_at (a # b # rest) 0 = Some (u16_be a b)"
  by (simp add: u16_at_def slice_def checked_add_def usize_max_def)

lemma u16_at_2 [simp]: "u16_at (x # y # a # b # rest) 2 = Some (u16_be a b)"
  by (simp add: u16_at_def slice_def checked_add_def usize_max_def)

lemma u16_at_0: "4 \<le> length data \<Longrightarrow> u16_at data 0 = Some (u16_be (data ! 0) (data ! 1))"
  by (cases data; cases "tl data") auto

text \<open>NUL-terminated fields.\<close>

definition nul_fields :: "bytes list \<Rightarrow> bytes" where
  "nul_fields fs = concat (map (\<lambda>f. f @ [0]) fs)"

lemma nul_fields_simps [simp]:
  "nul_fields [] = []" "nul_fields (f # fs) = f @ 0 # nul_fields fs"
  by (simp_all add: nul_fields_def)

lemma split_nul_fields:
  "\<forall>f \<in> set fs. 0 \<notin> set f \<Longrightarrow> split_on (\<lambda>b. b = 0) (nul_fields fs) = fs @ [[]]"
proof (induction fs)
  case (Cons f fs)
  then show ?case
    using split_on_append_sep [of f "\<lambda>b. b = 0" 0 "nul_fields fs"]
    by auto
qed simp

lemma ends_with_nul_fields: "fs \<noteq> [] \<Longrightarrow> ends_with (nul_fields fs) [0]"
  by (cases fs rule: rev_cases) (simp_all add: nul_fields_def ends_with_def)

definition option_fields :: "(bytes \<times> bytes) list \<Rightarrow> bytes list" where
  "option_fields options = concat (map (\<lambda>(name, v). [name, v]) options)"

lemma option_fields_bytes:
  "concat (map (\<lambda>(name, v). name @ 0 # v @ [0]) options) = nul_fields (option_fields options)"
  by (induction options) (auto simp: option_fields_def)

lemma length_option_fields [simp]: "length (option_fields options) = 2 * length options"
  by (induction options) (auto simp: option_fields_def)

lemma add_fields_Some:
  "add_fields n a b = Some m \<longleftrightarrow> m = n + length a + length b + 2 \<and> m \<le> usize_max"
  by (auto simp: add_fields_def bind_eq_Some_conv)

lemma serialized_options_parse:
  "serialize_options_loop options names n = Inr m \<Longrightarrow>
   parse_options_loop (option_fields options) names acc =
     Some (acc @ map (\<lambda>(name, v). (to_ascii_lowercase name, v)) options)
   \<and> (\<forall>f \<in> set (option_fields options). tftp_text_field_is_safe f)
   \<and> m = n + length (nul_fields (option_fields options))"
proof (induction options names n arbitrary: acc rule: serialize_options_loop.induct)
  case (2 name v rest names n)
  let ?n = "n + length name + length v + 2"
  have step: "\<not> (name = [] \<or> v = [] \<or> \<not> tftp_text_field_is_safe name \<or> \<not> tftp_text_field_is_safe v
      \<or> to_ascii_lowercase name \<in> set names)" "add_fields n name v = Some ?n"
    "serialize_options_loop rest (to_ascii_lowercase name # names) ?n = Inr m"
    using "2.prems" by (auto simp: add_fields_Some split: if_splits option.splits)
  from "2.IH" [OF step] step(1) show ?case
    by (auto simp: option_fields_def Let_def)
qed (simp add: option_fields_def)

definition lower_options :: "(bytes \<times> bytes) list \<Rightarrow> (bytes \<times> bytes) list" where
  "lower_options = map (\<lambda>(name, v). (to_ascii_lowercase name, v))"

lemma serialize_request_parse:
  assumes "serialize_request opcode filename mode options = Some (Inr b)"
  shows "length b \<ge> 4 \<and> u16_at b 0 = Some opcode
    \<and> parse_request opcode b = Some (Some (if opcode = TFTP_OPCODE_RRQ
        then ReadRequest filename mode (lower_options options)
        else WriteRequest filename mode (lower_options options)))"
proof -
  let ?fs = "filename # mode # option_fields options"
  obtain n m where checks: "filename \<noteq> []" "mode \<noteq> []" "tftp_text_field_is_safe filename"
      "tftp_text_field_is_safe mode" "one_of (to_ascii_lowercase mode) [''netascii'', ''octet'', ''mail'']"
      "add_fields 2 filename mode = Some n" "tftp_filename_is_safe filename = Some True"
      "serialize_options_loop options [] n = Inr m" "m \<le> TFTP_MAX_CONTROL_PACKET_BYTES"
    and b: "b = u16_to_be opcode @ nul_fields ?fs"
    using assms
    by (auto simp: serialize_request_def bind_eq_Some_conv ensure_control_packet_size_def
        option_fields_bytes split: if_splits option.splits sum.splits)
  note options = serialized_options_parse [OF checks(8), of "[]"]
  have "length b = m"
    using options checks(6) by (simp add: b add_fields_Some)
  obtain x y where xy: "u16_to_be opcode = [x, y]" by (simp add: u16_to_be_def)
  then have "u16_be x y = opcode" by (rule u16_be_roundtrip)
  moreover have "split_on (\<lambda>b. b = 0) (nul_fields ?fs) = ?fs @ [[]]"
    using options checks by (intro split_nul_fields) (auto dest: tftp_safe_no_nul)
  moreover have "length b \<ge> 4"
    using checks(1,2) by (cases filename; cases mode) (auto simp: b xy)
  ultimately show ?thesis
    using checks options \<open>length b = m\<close> ends_with_nul_fields [of ?fs]
    by (simp add: b xy parse_request_def slice_from_def idx_def Let_def parse_options_def lower_options_def)
qed

text \<open>Two packets carry the same request when they differ at most in the case of option names.\<close>

fun lower_packet :: "tftp_packet \<Rightarrow> tftp_packet" where
  "lower_packet (ReadRequest f m os) = ReadRequest f m (lower_options os)"
| "lower_packet (WriteRequest f m os) = WriteRequest f m (lower_options os)"
| "lower_packet p = p"

lemma control_limit_usize: "n \<le> TFTP_MAX_CONTROL_PACKET_BYTES \<Longrightarrow> n \<le> usize_max"
  by (simp add: TFTP_MAX_CONTROL_PACKET_BYTES_def usize_max_def)

lemma short_packets_parse:
  "tftp_to_bytes (Data block data) = Some (Inr b) \<Longrightarrow> tftp_parse b = Some (Some (Data block data))"
  "tftp_to_bytes (Ack block) = Some (Inr b) \<Longrightarrow> tftp_parse b = Some (Some (Ack block))"
  "tftp_to_bytes (Error code message) = Some (Inr b) \<Longrightarrow> tftp_parse b = Some (Some (Error code message))"
proof -
  have be: "\<exists>x y. u16_to_be w = [x, y] \<and> u16_be x y = w" for w
    using u16_be_roundtrip by (fastforce simp: u16_to_be_def)
  obtain x y where op: "u16_to_be 3 = [x, y]" "u16_be x y = 3" using be [of 3] by auto
  obtain x' y' where bl: "u16_to_be block = [x', y']" "u16_be x' y' = block" using be [of block] by auto
  show "tftp_to_bytes (Data block data) = Some (Inr b) \<Longrightarrow> tftp_parse b = Some (Some (Data block data))"
    by (auto simp: tftp_to_bytes_def tftp_parse_def op bl slice_from_def TFTP_MAX_PACKET_BYTES_def
        split: if_splits)
  obtain x y where op: "u16_to_be 4 = [x, y]" "u16_be x y = 4" using be [of 4] by auto
  show "tftp_to_bytes (Ack block) = Some (Inr b) \<Longrightarrow> tftp_parse b = Some (Some (Ack block))"
    by (auto simp: tftp_to_bytes_def tftp_parse_def op bl)
  obtain x y where op: "u16_to_be 5 = [x, y]" "u16_be x y = 5" using be [of 5] by auto
  obtain x' y' where co: "u16_to_be code = [x', y']" "u16_be x' y' = code" using be [of code] by auto
  show "tftp_to_bytes (Error code message) = Some (Inr b) \<Longrightarrow> tftp_parse b = Some (Some (Error code message))"
    by (auto simp: tftp_to_bytes_def tftp_parse_def op co slice_def ends_with_def tftp_safe_no_nul
        ensure_control_packet_size_def split: if_splits option.splits sum.splits)
qed

lemma request_parse:
  assumes "serialize_request opcode filename mode options = Some (Inr b)"
    and "opcode = TFTP_OPCODE_RRQ \<or> opcode = TFTP_OPCODE_WRQ"
  shows "tftp_parse b = Some (Some (if opcode = TFTP_OPCODE_RRQ
    then ReadRequest filename mode (lower_options options)
    else WriteRequest filename mode (lower_options options)))"
  using serialize_request_parse [OF assms(1)] assms(2) by (auto simp: tftp_parse_def)

text \<open>Property C28. Every packet that can be serialised is parsed back from its bytes, with option
  names in lower case and everything else unchanged.\<close>

theorem tftp_roundtrip:
  assumes "tftp_to_bytes p = Some (Inr b)"
  shows "tftp_parse b = Some (Some (lower_packet p))"
  using assms
  by (cases p) (simp_all add: short_packets_parse, simp_all add: tftp_to_bytes_def request_parse)

lemma tftp_sample_bytes:
  "tftp_to_bytes (ReadRequest (bstr ''a'') (bstr ''octet'') [(bstr ''BLKSIZE'', bstr ''9'')]) =
     Some (Inr ([0, 1] @ bstr ''a'' @ [0] @ bstr ''octet'' @ [0] @ bstr ''BLKSIZE'' @ [0] @ bstr ''9'' @ [0]))"
  by (simp add: tftp_to_bytes_def serialize_request_def tftp_text_field_is_safe_def is_ascii_control_def
      is_ascii_def bstr_def one_of_def to_ascii_lowercase_def ascii_lower_def is_ascii_uppercase_def add_fields_def
      checked_add_def usize_max_def ensure_control_packet_size_def TFTP_MAX_CONTROL_PACKET_BYTES_def
      tftp_filename_is_safe_def starts_with_def looks_like_windows_drive_path_def split_once_def
      u16_to_be_def)

theorem tftp_roundtrip_witness:
  "tftp_parse ([0, 1] @ bstr ''a'' @ [0] @ bstr ''octet'' @ [0] @ bstr ''BLKSIZE'' @ [0] @ bstr ''9'' @ [0]) =
     Some (Some (lower_packet
       (ReadRequest (bstr ''a'') (bstr ''octet'') [(bstr ''BLKSIZE'', bstr ''9'')])))"
  by (rule tftp_roundtrip [OF tftp_sample_bytes])

section \<open>Agreement with the detector\<close>

lemma options_loops_agree:
  "list_all tftp_text_field_is_safe parts \<Longrightarrow>
   tftp_options_loop parts names \<longleftrightarrow> parse_options_loop parts names acc \<noteq> None"
  by (induction parts names acc rule: parse_options_loop.induct) (auto simp: Let_def)

lemma parse_options_loop_safe:
  "parse_options_loop parts names acc = Some r \<Longrightarrow> even (length parts) \<Longrightarrow>
   list_all tftp_text_field_is_safe parts"
  by (induction parts names acc rule: parse_options_loop.induct) (auto simp: Let_def split: if_splits)

lemma split_on_snoc_sep: "p x \<Longrightarrow> split_on p (xs @ [x]) = split_on p xs @ [[]]"
  by (induction xs) (auto split: list.split)

lemma last_split_nul: "ends_with payload [0] \<Longrightarrow> last (split_on (\<lambda>b. b = 0) payload) = []"
  by (cases payload rule: rev_cases) (auto simp: ends_with_def split_on_snoc_sep)

lemma tftp_filename_is_safe_wp: "wp (tftp_filename_is_safe v) (\<lambda>_. True)"
  using tftp_filename_is_safe_total by (auto simp: wp_def split: option.split)

lemma parse_request_wp: "wp (parse_request opcode data) (\<lambda>_. True)"
  unfolding parse_request_def Let_def
  by (auto simp: wp_rules intro!: wp_call [OF tftp_filename_is_safe_wp])

lemma tftp_parse_wp: "wp (tftp_parse data) (\<lambda>_. True)"
  unfolding tftp_parse_def by (auto simp: wp_rules intro!: wp_call [OF parse_request_wp])

text \<open>The checks of both readers on the fields of a request.\<close>

definition request_fields_ok :: "bytes list \<Rightarrow> bool" where
  "request_fields_ok parts =
     (case parts of
        filename # mode # options \<Rightarrow>
          even (length options) \<and> filename \<noteq> [] \<and> mode \<noteq> []
          \<and> list_all tftp_text_field_is_safe parts \<and> tftp_filename_is_safe filename = Some True
          \<and> one_of (to_ascii_lowercase mode) [''netascii'', ''octet'', ''mail'']
          \<and> tftp_options_loop options []
      | _ \<Rightarrow> False)"

lemma options_accepted:
  "parse_options options \<noteq> None \<longleftrightarrow>
     even (length options) \<and> list_all tftp_text_field_is_safe options \<and> tftp_options_loop options []"
  using options_loops_agree [of options "[]" "[]"] parse_options_loop_safe [of options "[]" "[]"]
  by (auto simp: parse_options_def mod_2_eq_odd)

lemma parse_request_iff:
  assumes "2 \<le> length data"
  shows "(\<exists>p. parse_request opcode data = Some (Some p)) \<longleftrightarrow>
     length data \<le> TFTP_MAX_CONTROL_PACKET_BYTES \<and> ends_with (drop 2 data) [0]
     \<and> request_fields_ok (tftp_fields (drop 2 data))"
proof (cases "length data \<le> TFTP_MAX_CONTROL_PACKET_BYTES \<and> ends_with (drop 2 data) [0]")
  case True
  let ?parts = "tftp_fields (drop 2 data)"
  have parts: "butlast (split_on (\<lambda>b. b = 0) (drop 2 data)) = ?parts"
    using True by (simp add: tftp_fields_def last_split_nul)
  note pr = parse_request_def Let_def slice_from_def parts last_split_nul idx_def request_fields_ok_def
  show ?thesis
  proof (cases ?parts)
    case Nil
    then show ?thesis using assms True by (simp add: pr)
  next
    case (Cons filename rest)
    show ?thesis
    proof (cases rest)
      case Nil
      then show ?thesis using assms True Cons by (simp add: pr)
    next
      case (Cons mode options)
      then show ?thesis
        using assms True \<open>?parts = filename # rest\<close> options_accepted [of options]
          tftp_filename_is_safe_total [of filename]
        by (cases "tftp_filename_is_safe filename"; cases "parse_options options")
          (auto simp: pr)
    qed
  qed
qed (use assms in \<open>auto simp: parse_request_def\<close>)

lemma split_on_length_le: "y \<in> set (split_on p xs) \<Longrightarrow> length y \<le> length xs"
proof (induction xs arbitrary: y)
  case (Cons x xs)
  then show ?case by (cases "split_on p xs") (fastforce split: if_splits)+
qed simp

lemma request_fields_length:
  assumes "request_fields_ok (tftp_fields payload)"
  shows "4 \<le> length payload"
proof -
  obtain filename mode options where parts: "tftp_fields payload = filename # mode # options"
    and mode: "one_of (to_ascii_lowercase mode) [''netascii'', ''octet'', ''mail'']"
    using assms by (auto simp: request_fields_ok_def split: list.splits)
  have "mode \<in> set (split_on (\<lambda>b. b = 0) payload)"
    using parts by (auto simp: tftp_fields_def Let_def intro: in_set_butlastD split: if_splits)
  moreover have "4 \<le> length (to_ascii_lowercase mode)"
    using mode by (auto simp: one_of_def bstr_def)
  ultimately show ?thesis
    using split_on_length_le by (fastforce simp: to_ascii_lowercase_def)
qed

lemma detector_request_iff:
  "looks_like_tftp_request data = Some True \<longleftrightarrow>
     6 \<le> length data \<and> length data \<le> TFTP_MAX_CONTROL_PACKET_BYTES \<and> ends_with data [0]
     \<and> (u16_be (data ! 0) (data ! 1) = 1 \<or> u16_be (data ! 0) (data ! 1) = 2)
     \<and> request_fields_ok (tftp_fields (drop 2 data))"
proof (cases "6 \<le> length data")
  case True
  let ?parts = "tftp_fields (drop 2 data)"
  show ?thesis
  proof (cases ?parts)
    case Nil
    then show ?thesis using True
      by (simp add: looks_like_tftp_request_def idx_def slice_from_def request_fields_ok_def)
  next
    case (Cons filename rest)
    note parts = Cons
    show ?thesis
    proof (cases rest)
      case Nil
      then show ?thesis using True parts
        by (simp add: looks_like_tftp_request_def idx_def slice_from_def request_fields_ok_def)
    next
      case (Cons mode options)
      then show ?thesis using True parts
        by (auto simp: looks_like_tftp_request_def idx_def slice_from_def request_fields_ok_def
            tftp_filename_is_safe_iff tftp_options_are_well_formed_def mod_2_eq_odd Let_def)
    qed
  qed
qed (simp add: looks_like_tftp_request_def)

definition is_request :: "tftp_packet \<Rightarrow> bool" where
  "is_request p \<longleftrightarrow> (case p of ReadRequest _ _ _ \<Rightarrow> True | WriteRequest _ _ _ \<Rightarrow> True | _ \<Rightarrow> False)"

lemma parse_request_is_request: "parse_request opcode data = Some (Some p) \<Longrightarrow> is_request p"
  by (auto simp: parse_request_def is_request_def Let_def tryo_eq_Some_Some bind_eq_Some_conv
      split: if_splits)

lemma parse_is_request_iff:
  "(\<exists>p. tftp_parse data = Some (Some p) \<and> is_request p) \<longleftrightarrow>
     4 \<le> length data \<and> (let opcode = u16_be (data ! 0) (data ! 1) in
       (opcode = 1 \<or> opcode = 2) \<and> (\<exists>p. parse_request opcode data = Some (Some p)))"
  by (auto simp: tftp_parse_def u16_at_0 tryo_eq_Some_Some is_request_def Let_def
      dest: parse_request_is_request [unfolded is_request_def] split: if_splits)

lemma ends_with_drop: "n < length xs \<Longrightarrow> ends_with (drop n xs) [x] \<longleftrightarrow> ends_with xs [x]"
  by (auto simp: ends_with_def)

text \<open>Property C27. The detector of the proxy takes a datagram for TFTP exactly when the TFTP server
  parses it as a read or write request.\<close>

theorem tftp_detector_agrees:
  "looks_like_tftp_request data = Some True \<longleftrightarrow>
     (\<exists>p. tftp_parse data = Some (Some p) \<and> is_request p)"
proof (cases "4 \<le> length data")
  case True
  then have "(\<exists>p. parse_request opcode data = Some (Some p)) \<longleftrightarrow>
      length data \<le> TFTP_MAX_CONTROL_PACKET_BYTES \<and> ends_with data [0]
      \<and> request_fields_ok (tftp_fields (drop 2 data))" for opcode
    using parse_request_iff [of data opcode] by (simp add: ends_with_drop)
  moreover have "6 \<le> length data" if "request_fields_ok (tftp_fields (drop 2 data))"
    using request_fields_length [OF that] by simp
  ultimately show ?thesis
    unfolding detector_request_iff parse_is_request_iff Let_def using True by blast
next
  case False
  then show ?thesis unfolding detector_request_iff parse_is_request_iff by simp
qed

end
