(* ===== verification/Tftp_Transfers.thy ===== *)
theory Tftp_Transfers
  imports Tftp Keyed_Map Core_Net
begin

text \<open>
  The TFTP transfers of the UDP listener, \<open>nettrap-cli/src/listeners/udp_tftp.rs\<close>: the table of
  running transfers, the lock-step of blocks and acknowledgements in both directions, duplicates,
  time-outs and limits, and the files that uploads create.

  The server state is the table (a \<open>HashMap\<close>, here an association list with the interface of
  \<open>keyed_map\<close>) and the contents of the files by path. What the operating system decides comes with
  each datagram in \<open>tftp_env\<close>: the clock (one reading per datagram), whether a new file can be
  created, and whether a write succeeds. Logging, the session statistics and the packet capture are
  not modelled; the answers are the datagrams that the code sends.
\<close>

section \<open>State\<close>

definition TFTP_TRANSFER_TIMEOUT :: nat where "TFTP_TRANSFER_TIMEOUT = 60 * 10 ^ 9"
definition MAX_TFTP_ACTIVE_TRANSFERS :: nat where "MAX_TFTP_ACTIVE_TRANSFERS = 1024"
definition MAX_TFTP_UPLOAD_BYTES :: nat where "MAX_TFTP_UPLOAD_BYTES = 8 * 1024 * 1024"

record tftp_transfer_key =
  tk_src_ip :: ip_addr
  tk_src_port :: u16
  tk_dst_ip :: ip_addr
  tk_dst_port :: u16

text \<open>The destination address comes as text. The source keeps the printed addresses in the key, here
  the addresses themselves.\<close>

definition transfer_key_new :: "ip_addr \<Rightarrow> u16 \<Rightarrow> bytes \<Rightarrow> u16 \<Rightarrow> tftp_transfer_key option" where
  "transfer_key_new src sport destination dport =
     (case parse_ip_addr destination of
        None \<Rightarrow> None
      | Some dst \<Rightarrow>
          Some \<lparr>tk_src_ip = canonicalize_ip src, tk_src_port = sport,
            tk_dst_ip = canonicalize_ip dst, tk_dst_port = dport\<rparr>)"

record tftp_read =
  rd_filename :: bytes
  rd_last_block_sent :: u16
  rd_last_response :: tftp_packet
  rd_complete :: bool
  rd_last_activity :: nat

text \<open>\<open>wr_upload_file\<close> is the path of the open file.\<close>

record tftp_write =
  wr_filename :: bytes
  wr_next_block_expected :: u16
  wr_bytes_received :: nat
  wr_last_ack :: tftp_packet
  wr_upload_file :: "bytes option"
  wr_complete :: bool
  wr_last_activity :: nat

datatype tftp_transfer = Read tftp_read | Write tftp_write

type_synonym tftp_transfers = "(tftp_transfer_key, tftp_transfer) dash_map"
type_synonym tftp_disk = "bytes \<Rightarrow> bytes option"

text \<open>\<open>te_write_error\<close> is None when \<open>write_all\<close> and \<open>flush\<close> succeed, and the number of bytes that
  still reached the file when they fail.\<close>

record tftp_env =
  te_now :: nat
  te_open_beneath :: "bytes \<Rightarrow> bytes \<Rightarrow> tftp_open"
  te_can_create :: "bytes \<Rightarrow> bool"
  te_write_error :: "nat option"

record tftp_server =
  ts_transfers :: tftp_transfers
  ts_disk :: tftp_disk

section \<open>The table\<close>

fun last_activity :: "tftp_transfer \<Rightarrow> nat" where
  "last_activity (Read r) = rd_last_activity r"
| "last_activity (Write w) = wr_last_activity w"

definition prune_tftp_transfers :: "nat \<Rightarrow> tftp_transfers \<Rightarrow> tftp_transfers" where
  "prune_tftp_transfers now = retain (\<lambda>st. now - last_activity st \<le> TFTP_TRANSFER_TIMEOUT)"

definition tftp_transfer_limit_reached :: "tftp_transfers \<Rightarrow> tftp_transfer_key \<Rightarrow> bool" where
  "tftp_transfer_limit_reached transfers key \<longleftrightarrow>
     map_of transfers key = None \<and> length transfers \<ge> MAX_TFTP_ACTIVE_TRANSFERS"

definition tftp_error :: "u16 \<Rightarrow> string \<Rightarrow> tftp_packet" where
  "tftp_error code message = Error code (bstr message)"

definition remember_tftp_read_response ::
    "nat \<Rightarrow> tftp_transfers \<Rightarrow> tftp_transfer_key \<Rightarrow> bytes \<Rightarrow> u16 \<Rightarrow> tftp_packet \<Rightarrow> tftp_transfers" where
  "remember_tftp_read_response now transfers key filename block response =
     (case response of
        Data _ data \<Rightarrow>
          AList.update key
            (Read \<lparr>rd_filename = filename, rd_last_block_sent = block, rd_last_response = response,
               rd_complete = length data < TFTP_BLOCK_SIZE, rd_last_activity = now\<rparr>) transfers
      | _ \<Rightarrow> AList.delete key transfers)"

datatype tftp_read_ack_action = SendNext bytes u16 | Retransmit tftp_packet | Complete

definition duplicate_tftp_read_request_response ::
    "nat \<Rightarrow> tftp_transfers \<Rightarrow> tftp_transfer_key \<Rightarrow> bytes \<Rightarrow> (tftp_packet \<times> tftp_transfers) option" where
  "duplicate_tftp_read_request_response now transfers key requested_filename =
     (case map_of transfers key of
        None \<Rightarrow> None
      | Some (Read r) \<Rightarrow>
          if rd_filename r = requested_filename then
            Some (rd_last_response r, AList.update key (Read (r\<lparr>rd_last_activity := now\<rparr>)) transfers)
          else Some (tftp_error 4 ''Transfer already active'', transfers)
      | Some (Write w) \<Rightarrow> Some (tftp_error 4 ''Transfer already active'', transfers))"

definition duplicate_tftp_write_request_response ::
    "nat \<Rightarrow> tftp_transfers \<Rightarrow> tftp_transfer_key \<Rightarrow> bytes \<Rightarrow> (tftp_packet \<times> tftp_transfers) option" where
  "duplicate_tftp_write_request_response now transfers key requested_filename =
     (case map_of transfers key of
        None \<Rightarrow> None
      | Some (Write w) \<Rightarrow>
          if wr_filename w = requested_filename then
            Some (wr_last_ack w, AList.update key (Write (w\<lparr>wr_last_activity := now\<rparr>)) transfers)
          else Some (tftp_error 4 ''Transfer already active'', transfers)
      | Some (Read r) \<Rightarrow> Some (tftp_error 4 ''Transfer already active'', transfers))"

definition next_tftp_read_action ::
    "nat \<Rightarrow> tftp_transfers \<Rightarrow> tftp_transfer_key \<Rightarrow> u16 \<Rightarrow> tftp_read_ack_action option \<times> tftp_transfers" where
  "next_tftp_read_action now transfers key ack_block =
     (case map_of transfers key of
        Some (Read r) \<Rightarrow>
          if ack_block = rd_last_block_sent r then
            if rd_complete r then (Some Complete, AList.delete key transfers)
            else (Some (SendNext (rd_filename r) (ack_block + 1)),
                  AList.update key (Read (r\<lparr>rd_last_activity := now\<rparr>)) transfers)
          else if ack_block + 1 = rd_last_block_sent r then
            (Some (Retransmit (rd_last_response r)),
             AList.update key (Read (r\<lparr>rd_last_activity := now\<rparr>)) transfers)
          else (None, transfers)
      | _ \<Rightarrow> (None, transfers))"

text \<open>A DATA block that is the expected one: the write to the file, if there is one, and the new state.
  \<open>write_all\<close> appends to the open file.\<close>

definition append_to :: "tftp_disk \<Rightarrow> bytes \<Rightarrow> bytes \<Rightarrow> tftp_disk" where
  "append_to disk path data =
     (case disk path of None \<Rightarrow> disk | Some content \<Rightarrow> disk(path \<mapsto> content @ data))"

definition accept_block :: "nat \<Rightarrow> tftp_write \<Rightarrow> nat \<Rightarrow> u16 \<Rightarrow> bytes \<Rightarrow> tftp_write" where
  "accept_block now w new_total block data =
     (let complete = length data < TFTP_BLOCK_SIZE in
      w\<lparr>wr_bytes_received := new_total, wr_next_block_expected := block + 1, wr_last_activity := now,
        wr_last_ack := handle_data_block block data, wr_complete := complete,
        wr_upload_file := (if complete then None else wr_upload_file w)\<rparr>)"

definition handle_tftp_write_data ::
    "tftp_env \<Rightarrow> tftp_server \<Rightarrow> tftp_transfer_key \<Rightarrow> u16 \<Rightarrow> bytes \<Rightarrow> tftp_packet \<times> tftp_server" where
  "handle_tftp_write_data env s key block data =
     (let transfers = ts_transfers s;
          put = (\<lambda>w. s\<lparr>ts_transfers := AList.update key (Write w) transfers\<rparr>);
          removed = (\<lambda>s. s\<lparr>ts_transfers := AList.delete key (ts_transfers s)\<rparr>)
      in
      if block = 0 then (tftp_error 4 ''Invalid block'', s)
      else case map_of transfers key of
        None \<Rightarrow> (tftp_error 5 ''Unknown transfer id'', s)
      | Some (Read r) \<Rightarrow> (tftp_error 4 ''Unexpected DATA for read transfer'', s)
      | Some (Write w) \<Rightarrow>
          if wr_complete w then
            if block + 1 = wr_next_block_expected w
            then (wr_last_ack w, put (w\<lparr>wr_last_activity := te_now env\<rparr>))
            else (tftp_error 4 ''Unexpected DATA block'', s)
          else if block \<noteq> wr_next_block_expected w then
            if block + 1 = wr_next_block_expected w
            then (wr_last_ack w, put (w\<lparr>wr_last_activity := te_now env\<rparr>))
            else (tftp_error 4 ''Unexpected DATA block'', s)
          else if length data > TFTP_BLOCK_SIZE then (tftp_error 4 ''DATA block too large'', removed s)
          else
            (case checked_add (wr_bytes_received w) (length data) of
               None \<Rightarrow> (tftp_error 3 ''Upload too large'', removed s)
             | Some new_total \<Rightarrow>
                 if new_total > MAX_TFTP_UPLOAD_BYTES then (tftp_error 3 ''Upload too large'', removed s)
                 else
                   (case wr_upload_file w of
                      None \<Rightarrow>
                        (handle_data_block block data, put (accept_block (te_now env) w new_total block data))
                    | Some path \<Rightarrow>
                        (case te_write_error env of
                           Some n \<Rightarrow>
                             (tftp_error 3 ''Disk full or allocation exceeded'',
                              removed (s\<lparr>ts_disk := append_to (ts_disk s) path (take n data)\<rparr>))
                         | None \<Rightarrow>
                             (handle_data_block block data,
                              (put (accept_block (te_now env) w new_total block data))
                                \<lparr>ts_disk := append_to (ts_disk s) path data\<rparr>)))))"

section \<open>Datagrams\<close>

text \<open>\<open>Path::join\<close> on Unix.\<close>

definition path_join :: "bytes \<Rightarrow> bytes \<Rightarrow> bytes" where
  "path_join a b =
     (if starts_with b [0x2F] then b
      else if a = [] \<or> ends_with a [0x2F] then a @ b
      else a @ [0x2F] @ b)"

datatype upload_failure = Upload_unsafe | Upload_io

text \<open>\<open>create_new\<close> fails for an existing file; whether the directories and the file can be created
  otherwise is \<open>te_can_create\<close>.\<close>

definition open_upload_file ::
    "tftp_env \<Rightarrow> tftp_handler \<Rightarrow> tftp_disk \<Rightarrow> bytes \<Rightarrow> (upload_failure + bytes option \<times> tftp_disk) rs" where
  "open_upload_file env h disk filename =
     (case th_root_dir h of
        None \<Rightarrow> Some (Inr (None, disk))
      | Some root \<Rightarrow> do {
          safe \<leftarrow> tftp_filename_is_safe filename;
          Some (if \<not> safe then Inl Upload_unsafe
            else
              let path = path_join (path_join root (th_upload_prefix h)) filename in
              if disk path \<noteq> None \<or> \<not> te_can_create env path then Inl Upload_io
              else Inr (Some path, disk(path \<mapsto> []))) })"

definition on_read_request ::
    "tftp_env \<Rightarrow> tftp_handler \<Rightarrow> tftp_server \<Rightarrow> tftp_transfer_key \<Rightarrow> bytes \<Rightarrow> tftp_packet \<times> tftp_server" where
  "on_read_request env h s key filename =
     (case duplicate_tftp_read_request_response (te_now env) (ts_transfers s) key filename of
        Some (response, transfers) \<Rightarrow> (response, s\<lparr>ts_transfers := transfers\<rparr>)
      | None \<Rightarrow>
          if tftp_transfer_limit_reached (ts_transfers s) key
          then (tftp_error 4 ''Too many active transfers'', s)
          else
            let response = handle_read_request_block (te_open_beneath env) h filename 1 in
            (response, s\<lparr>ts_transfers :=
               remember_tftp_read_response (te_now env) (ts_transfers s) key filename 1 response\<rparr>))"

definition on_write_request ::
    "tftp_env \<Rightarrow> tftp_handler \<Rightarrow> tftp_server \<Rightarrow> tftp_transfer_key \<Rightarrow> bytes \<Rightarrow> (tftp_packet \<times> tftp_server) rs" where
  "on_write_request env h s key filename =
     (case duplicate_tftp_write_request_response (te_now env) (ts_transfers s) key filename of
        Some (response, transfers) \<Rightarrow> Some (response, s\<lparr>ts_transfers := transfers\<rparr>)
      | None \<Rightarrow>
          if tftp_transfer_limit_reached (ts_transfers s) key
          then Some (tftp_error 4 ''Too many active transfers'', s)
          else do {
            opened \<leftarrow> open_upload_file env h (ts_disk s) filename;
            Some (case opened of
                Inl e \<Rightarrow> (tftp_error 2 ''Access violation'', s)
              | Inr (upload_file, disk) \<Rightarrow>
                  let response = handle_write_request filename in
                  (response,
                   \<lparr>ts_transfers = AList.update key
                      (Write \<lparr>wr_filename = filename, wr_next_block_expected = 1, wr_bytes_received = 0,
                         wr_last_ack = response, wr_upload_file = upload_file, wr_complete = False,
                         wr_last_activity = te_now env\<rparr>) (ts_transfers s),
                    ts_disk = disk\<rparr>)) })"

definition on_ack ::
    "tftp_env \<Rightarrow> tftp_handler \<Rightarrow> tftp_server \<Rightarrow> tftp_transfer_key \<Rightarrow> u16 \<Rightarrow> tftp_packet list \<times> tftp_server" where
  "on_ack env h s key block =
     (case next_tftp_read_action (te_now env) (ts_transfers s) key block of
        (action, transfers) \<Rightarrow>
          (case action of
             Some (SendNext filename next_block) \<Rightarrow>
               let response = handle_read_request_block (te_open_beneath env) h filename next_block in
               ([response], s\<lparr>ts_transfers :=
                  remember_tftp_read_response (te_now env) transfers key filename next_block response\<rparr>)
           | Some (Retransmit response) \<Rightarrow> ([response], s\<lparr>ts_transfers := transfers\<rparr>)
           | Some Complete \<Rightarrow> ([], s\<lparr>ts_transfers := transfers\<rparr>)
           | None \<Rightarrow> ([], s\<lparr>ts_transfers := transfers\<rparr>)))"

text \<open>One parsed packet; \<open>key\<close> is None when the destination address does not parse, and then the
  packet is dropped (except that a request with options is refused before the key is built).\<close>

definition tftp_packet_step ::
    "tftp_env \<Rightarrow> tftp_handler \<Rightarrow> tftp_server \<Rightarrow> tftp_transfer_key option \<Rightarrow> tftp_packet
       \<Rightarrow> (tftp_packet list \<times> tftp_server) rs" where
  "tftp_packet_step env h s key packet =
     (case packet of
        ReadRequest filename mode options \<Rightarrow>
          if options \<noteq> [] then Some ([option_negotiation_failed], s)
          else let_else key ([], s) (\<lambda>key.
            case on_read_request env h s key filename of (r, s) \<Rightarrow> Some ([r], s))
      | WriteRequest filename mode options \<Rightarrow>
          if options \<noteq> [] then Some ([option_negotiation_failed], s)
          else let_else key ([], s) (\<lambda>key. do {
            (r, s) \<leftarrow> on_write_request env h s key filename;
            Some ([r], s) })
      | Ack block \<Rightarrow> let_else key ([], s) (\<lambda>key. Some (on_ack env h s key block))
      | Data block data \<Rightarrow>
          let_else key ([], s) (\<lambda>key.
            case handle_tftp_write_data env s key block data of (r, s) \<Rightarrow> Some ([r], s))
      | Error _ _ \<Rightarrow>
          let_else key ([], s) (\<lambda>key.
            Some (tftp_handle_packet (te_open_beneath env) h packet,
              s\<lparr>ts_transfers := AList.delete key (ts_transfers s)\<rparr>)))"

text \<open>The datagrams sent for the responses; a response that does not serialise is dropped.\<close>

fun send_responses :: "tftp_packet list \<Rightarrow> bytes list rs" where
  "send_responses [] = Some []"
| "send_responses (r # rs) = do {
     b \<leftarrow> tftp_to_bytes r;
     rest \<leftarrow> send_responses rs;
     Some (case b of Inl _ \<Rightarrow> rest | Inr b \<Rightarrow> b # rest) }"

definition handle_tftp ::
    "tftp_env \<Rightarrow> tftp_handler \<Rightarrow> tftp_server \<Rightarrow> tftp_transfer_key option \<Rightarrow> bytes
       \<Rightarrow> (bytes list \<times> tftp_server) rs" where
  "handle_tftp env h s key query_data =
     (let s = s\<lparr>ts_transfers := prune_tftp_transfers (te_now env) (ts_transfers s)\<rparr> in do {
        p \<leftarrow> tftp_parse query_data;
        let_else p ([], s) (\<lambda>packet. do {
          (responses, s) \<leftarrow> tftp_packet_step env h s key packet;
          sent \<leftarrow> send_responses responses;
          Some (sent, s) }) })"

end
