(* ===== verification/Tftp_Props.thy ===== *)
theory Tftp_Props
  imports Tftp_Transfers
begin

text \<open>
  Properties of the TFTP server. \<open>tftp_change\<close> lists what a datagram can do to the server state;
  the invariants (bounds of the table, the block arithmetic of uploads, the agreement of the byte
  count with the file, the confinement of new files) are proved over it once. The two transfer
  theorems say that an upload and a download in lock step carry the content over unchanged.
\<close>

section \<open>What a datagram can change\<close>

definition read_ok :: "tftp_read \<Rightarrow> bool" where
  "read_ok r \<longleftrightarrow> (\<exists>data. rd_last_response r = Data (rd_last_block_sent r) data
     \<and> rd_last_block_sent r \<noteq> 0 \<and> (rd_complete r \<longleftrightarrow> length data < TFTP_BLOCK_SIZE))"

definition write_disk :: "tftp_disk \<Rightarrow> bytes option \<Rightarrow> bytes \<Rightarrow> tftp_disk" where
  "write_disk disk file data = (case file of None \<Rightarrow> disk | Some path \<Rightarrow> append_to disk path data)"

inductive tftp_change :: "tftp_handler \<Rightarrow> tftp_server \<Rightarrow> tftp_server \<Rightarrow> bool" for h s where
  shrunk: "\<forall>k v. map_of t k = Some v \<longrightarrow> map_of (ts_transfers s) k = Some v \<Longrightarrow> distinct (map fst t) \<Longrightarrow>
    length t \<le> length (ts_transfers s) \<Longrightarrow> tftp_change h s (s\<lparr>ts_transfers := t\<rparr>)"
| reading: "read_ok r \<Longrightarrow> \<not> tftp_transfer_limit_reached (ts_transfers s) key \<Longrightarrow>
    tftp_change h s (s\<lparr>ts_transfers := AList.update key (Read r) (ts_transfers s)\<rparr>)"
| touched: "map_of (ts_transfers s) key = Some (Write w) \<Longrightarrow>
    tftp_change h s (s\<lparr>ts_transfers := AList.update key (Write (w\<lparr>wr_last_activity := n\<rparr>)) (ts_transfers s)\<rparr>)"
| opened: "map_of (ts_transfers s) key = None \<Longrightarrow> \<not> tftp_transfer_limit_reached (ts_transfers s) key \<Longrightarrow>
    open_upload_file env h (ts_disk s) filename = Some (Inr (file, disk)) \<Longrightarrow>
    tftp_change h s
      \<lparr>ts_transfers = AList.update key
         (Write \<lparr>wr_filename = filename, wr_next_block_expected = 1, wr_bytes_received = 0,
            wr_last_ack = Ack 0, wr_upload_file = file, wr_complete = False,
            wr_last_activity = te_now env\<rparr>) (ts_transfers s),
       ts_disk = disk\<rparr>"
| accepted: "map_of (ts_transfers s) key = Some (Write w) \<Longrightarrow> \<not> wr_complete w \<Longrightarrow>
    length data \<le> TFTP_BLOCK_SIZE \<Longrightarrow> wr_bytes_received w + length data \<le> MAX_TFTP_UPLOAD_BYTES \<Longrightarrow>
    tftp_change h s
      (s\<lparr>ts_transfers := AList.update key
         (Write (accept_block n w (wr_bytes_received w + length data) (wr_next_block_expected w) data))
         (ts_transfers s),
       ts_disk := write_disk (ts_disk s) (wr_upload_file w) data\<rparr>)"
| failed: "map_of (ts_transfers s) key = Some (Write w) \<Longrightarrow> wr_upload_file w = Some path \<Longrightarrow>
    tftp_change h s
      (s\<lparr>ts_disk := append_to (ts_disk s) path data, ts_transfers := AList.delete key (ts_transfers s)\<rparr>)"

definition table_ok :: "tftp_server \<Rightarrow> bool" where
  "table_ok s \<longleftrightarrow> distinct (map fst (ts_transfers s))
     \<and> (\<forall>k r. map_of (ts_transfers s) k = Some (Read r) \<longrightarrow> read_ok r)"

lemma unchanged: "table_ok s \<Longrightarrow> tftp_change h s s"
  using shrunk [of "ts_transfers s" s h] by (simp add: table_ok_def)

lemma removed_change:
  "table_ok s \<Longrightarrow> tftp_change h s (s\<lparr>ts_transfers := AList.delete key (ts_transfers s)\<rparr>)"
  by (rule shrunk) (auto simp: table_ok_def delete_conv' distinct_delete length_delete_le)

lemma prune_change:
  "table_ok s \<Longrightarrow> tftp_change h s (s\<lparr>ts_transfers := prune_tftp_transfers now (ts_transfers s)\<rparr>)"
  by (rule shrunk)
    (auto simp: table_ok_def prune_tftp_transfers_def map_of_retain distinct_retain length_retain
      split: option.splits if_splits)

lemma read_block_Data:
  "handle_read_request_block ob h filename block = Data b data \<Longrightarrow> b = block \<and> block \<noteq> 0"
  by (auto simp: handle_read_request_block_def read_file_block_def read_open_file_block_def
      tftp_access_violation_def Let_def split: if_splits option.splits tftp_open.splits)

lemma remember_change:
  assumes "table_ok s" "\<not> tftp_transfer_limit_reached (ts_transfers s) key"
  shows "tftp_change h s (s\<lparr>ts_transfers := remember_tftp_read_response now (ts_transfers s) key filename block
    (handle_read_request_block ob h filename block)\<rparr>)"
proof (cases "handle_read_request_block ob h filename block")
  case (Data b data)
  with read_block_Data [OF Data] show ?thesis
    by (simp add: remember_tftp_read_response_def) (rule reading [OF _ assms(2)], simp add: read_ok_def)
qed (simp_all add: remember_tftp_read_response_def removed_change [OF assms(1)])

lemma table_ok_read: "table_ok s \<Longrightarrow> map_of (ts_transfers s) k = Some (Read r) \<Longrightarrow> read_ok r"
  by (simp add: table_ok_def)

lemma on_read_request_change:
  "table_ok s \<Longrightarrow> tftp_change h s (snd (on_read_request env h s key filename))"
  by (auto simp: on_read_request_def duplicate_tftp_read_request_response_def Let_def remember_change
      unchanged read_ok_def tftp_transfer_limit_reached_def
      intro!: reading dest!: table_ok_read split: option.split tftp_transfer.split)

lemma on_write_request_wp:
  "table_ok s \<Longrightarrow> wp (on_write_request env h s key filename) (\<lambda>(r, s'). tftp_change h s s')"
proof -
  assume ok: "table_ok s"
  have total: "wp (open_upload_file env h disk filename) (\<lambda>_. True)" for disk
    by (auto simp: open_upload_file_def wp_rules intro!: wp_call [OF tftp_filename_is_safe_wp]
        split: option.split)
  from ok show ?thesis
    unfolding on_write_request_def duplicate_tftp_write_request_response_def Let_def
    by (auto simp: wp_rules unchanged handle_write_request_def intro!: touched opened wp_call_eq [OF total]
        split: option.split tftp_transfer.split sum.split)
qed

lemma on_ack_change: "table_ok s \<Longrightarrow> tftp_change h s (snd (on_ack env h s key block))"
proof -
  assume ok: "table_ok s"
  have step: "tftp_change h s (s\<lparr>ts_transfers := remember_tftp_read_response now
      (AList.update key (Read r') (ts_transfers s)) key filename block
      (handle_read_request_block ob h filename block)\<rparr>)"
    if "map_of (ts_transfers s) key = Some (Read r)" for now r r' filename block ob
  proof (cases "handle_read_request_block ob h filename block")
    case (Data b data)
    then show ?thesis
      using that read_block_Data [OF Data]
      by (auto simp: remember_tftp_read_response_def tftp_transfer_limit_reached_def read_ok_def
          intro!: reading)
  qed (simp_all add: remember_tftp_read_response_def delete_update_same removed_change [OF ok])
  show ?thesis
    using ok
    by (auto simp: on_ack_def next_tftp_read_action_def Let_def unchanged removed_change step
        tftp_transfer_limit_reached_def read_ok_def intro!: reading dest!: table_ok_read
        split: option.split tftp_transfer.split)
qed

lemma accepted_change:
  assumes "map_of (ts_transfers s) key = Some (Write w)" "\<not> wr_complete w"
    "length data \<le> TFTP_BLOCK_SIZE" "wr_bytes_received w + length data \<le> MAX_TFTP_UPLOAD_BYTES"
  shows "wr_upload_file w = None \<Longrightarrow> tftp_change h s (s\<lparr>ts_transfers := AList.update key
      (Write (accept_block n w (wr_bytes_received w + length data) (wr_next_block_expected w) data))
      (ts_transfers s)\<rparr>)"
    and "wr_upload_file w = Some path \<Longrightarrow> tftp_change h s (s\<lparr>ts_transfers := AList.update key
      (Write (accept_block n w (wr_bytes_received w + length data) (wr_next_block_expected w) data))
      (ts_transfers s), ts_disk := append_to (ts_disk s) path data\<rparr>)"
  using accepted [OF assms, of h n] by (simp_all add: write_disk_def)

lemma write_data_change:
  "table_ok s \<Longrightarrow> tftp_change h s (snd (handle_tftp_write_data env s key block data))"
  unfolding handle_tftp_write_data_def Let_def
  by (auto simp: unchanged removed_change
      intro: accepted_change touched failed
      split: option.split tftp_transfer.split)

lemma table_ok_change: "tftp_change h s s' \<Longrightarrow> table_ok s \<Longrightarrow> table_ok s'"
proof (induction rule: tftp_change.induct)
  case (shrunk t)
  have "ts_transfers (s\<lparr>ts_transfers := t\<rparr>) = t" by simp
  with shrunk show ?case unfolding table_ok_def by metis
qed (auto simp: table_ok_def update_conv' delete_conv' distinct_update distinct_delete split: if_splits)

lemma packet_step_wp:
  assumes "table_ok s"
  shows "wp (tftp_packet_step env h s key packet) (\<lambda>(rs, s'). tftp_change h s s')"
proof (cases packet)
  case (ReadRequest filename mode options)
  then show ?thesis
    using on_read_request_change [OF assms, of h env _ filename]
    by (auto simp: tftp_packet_step_def wp_rules unchanged [OF assms] split: prod.splits)
      (metis snd_conv)
next
  case (WriteRequest filename mode options)
  then show ?thesis
    by (auto simp: tftp_packet_step_def wp_rules unchanged [OF assms]
        intro!: wp_call [OF on_write_request_wp [OF assms]])
next
  case (Data block data)
  then show ?thesis
    using write_data_change [OF assms, of h env _ block data]
    by (auto simp: tftp_packet_step_def wp_rules unchanged [OF assms] split: prod.splits)
      (metis snd_conv)
next
  case (Ack block)
  then show ?thesis
    using on_ack_change [OF assms, of h env _ block]
    by (auto simp: tftp_packet_step_def wp_rules unchanged [OF assms] split: prod.splits)
      (metis snd_conv)
next
  case (Error code message)
  then show ?thesis
    by (auto simp: tftp_packet_step_def wp_rules unchanged [OF assms] removed_change [OF assms])
qed

lemma serialize_request_total: "serialize_request opcode filename mode options \<noteq> None"
  using tftp_filename_is_safe_total [of filename]
  by (auto simp: serialize_request_def split: option.splits)

lemma tftp_to_bytes_wp: "wp (tftp_to_bytes p) (\<lambda>_. True)"
  using serialize_request_total
  by (auto simp: tftp_to_bytes_def wp_def split: tftp_packet.splits option.splits)

lemma send_responses_wp: "wp (send_responses rs) (\<lambda>_. True)"
  by (induction rs) (auto simp: wp_rules intro!: wp_call [OF tftp_to_bytes_wp])

lemma handle_tftp_wp:
  assumes "table_ok s"
  shows "wp (handle_tftp env h s key data) (\<lambda>(rs, s'). (tftp_change h)\<^sup>*\<^sup>* s s')"
proof -
  let ?s = "s\<lparr>ts_transfers := prune_tftp_transfers (te_now env) (ts_transfers s)\<rparr>"
  have prune: "tftp_change h s ?s" by (rule prune_change [OF assms])
  then have "table_ok ?s" using table_ok_change assms by blast
  then show ?thesis
    unfolding handle_tftp_def Let_def
    by (auto simp: wp_rules prune intro!: wp_call [OF tftp_parse_wp] wp_call [OF packet_step_wp]
        wp_call [OF send_responses_wp] intro: rtranclp.rtrancl_into_rtrancl [OF r_into_rtranclp [of "tftp_change h", OF prune]])
qed

text \<open>A run of the server: each datagram with its environment and key.\<close>

fun tftp_run :: "tftp_handler \<Rightarrow> tftp_server \<Rightarrow> (tftp_env \<times> tftp_transfer_key option \<times> bytes) list
    \<Rightarrow> (bytes list list \<times> tftp_server) rs" where
  "tftp_run h s [] = Some ([], s)"
| "tftp_run h s ((env, key, data) # rest) = do {
     (r, s) \<leftarrow> handle_tftp env h s key data;
     (rs, s) \<leftarrow> tftp_run h s rest;
     Some (r # rs, s) }"

lemma table_ok_changes: "(tftp_change h)\<^sup>*\<^sup>* s s' \<Longrightarrow> table_ok s \<Longrightarrow> table_ok s'"
  by (induction rule: rtranclp_induct) (auto intro: table_ok_change)

lemma tftp_run_wp:
  "table_ok s \<Longrightarrow> wp (tftp_run h s steps) (\<lambda>(rs, s'). (tftp_change h)\<^sup>*\<^sup>* s s')"
proof (induction h s steps rule: tftp_run.induct)
  case (2 h s env key data rest)
  have IH: "wp (tftp_run h s1 rest) (\<lambda>(rs, s'). (tftp_change h)\<^sup>*\<^sup>* s s')"
    if "(tftp_change h)\<^sup>*\<^sup>* s s1" "handle_tftp env h s key data = Some (r, s1)" for r s1
    by (rule wp_call [OF "2.IH" [OF that(2) refl table_ok_changes [OF that(1) "2.prems"]]])
      (use that(1) in auto)
  show ?case
    by (auto simp: wp_rules intro!: wp_call_eq [OF handle_tftp_wp [OF "2.prems"]]
        wp_call [OF IH])
qed (simp add: wp_rules)

section \<open>Invariants\<close>

text \<open>An upload: the byte count fits the next expected block, the last acknowledgement is for the
  block before it, and the open file holds as many bytes.\<close>

definition write_ok :: "tftp_disk \<Rightarrow> tftp_write \<Rightarrow> bool" where
  "write_ok disk w \<longleftrightarrow>
     wr_bytes_received w \<le> MAX_TFTP_UPLOAD_BYTES
     \<and> wr_last_ack w = Ack (wr_next_block_expected w - 1)
     \<and> (if wr_complete w
        then wr_upload_file w = None
          \<and> TFTP_BLOCK_SIZE * unat (wr_next_block_expected w) \<le> wr_bytes_received w + 2 * TFTP_BLOCK_SIZE
          \<and> wr_bytes_received w + TFTP_BLOCK_SIZE < TFTP_BLOCK_SIZE * unat (wr_next_block_expected w)
        else wr_bytes_received w + TFTP_BLOCK_SIZE = TFTP_BLOCK_SIZE * unat (wr_next_block_expected w))
     \<and> (case wr_upload_file w of
          None \<Rightarrow> True
        | Some path \<Rightarrow>
            (case disk path of None \<Rightarrow> False | Some content \<Rightarrow> length content = wr_bytes_received w))"

definition writing_to :: "tftp_transfers \<Rightarrow> tftp_transfer_key \<Rightarrow> bytes \<Rightarrow> bool" where
  "writing_to transfers k path \<longleftrightarrow>
     (case map_of transfers k of Some (Write w) \<Rightarrow> wr_upload_file w = Some path | _ \<Rightarrow> False)"

definition server_ok :: "tftp_server \<Rightarrow> bool" where
  "server_ok s \<longleftrightarrow> table_ok s \<and> length (ts_transfers s) \<le> MAX_TFTP_ACTIVE_TRANSFERS
     \<and> (\<forall>k w. map_of (ts_transfers s) k = Some (Write w) \<longrightarrow> write_ok (ts_disk s) w)
     \<and> (\<forall>k k' path. writing_to (ts_transfers s) k path \<longrightarrow> writing_to (ts_transfers s) k' path \<longrightarrow> k = k')"

lemma accept_block_ok:
  assumes ok: "write_ok disk w" and "\<not> wr_complete w" "length data \<le> TFTP_BLOCK_SIZE"
    and total: "wr_bytes_received w + length data \<le> MAX_TFTP_UPLOAD_BYTES"
  shows "write_ok (write_disk disk (wr_upload_file w) data)
    (accept_block n w (wr_bytes_received w + length data) (wr_next_block_expected w) data)"
proof -
  have eq: "wr_bytes_received w + TFTP_BLOCK_SIZE = TFTP_BLOCK_SIZE * unat (wr_next_block_expected w)"
    using assms(1,2) by (simp add: write_ok_def)
  with total have "unat (wr_next_block_expected w) < 65535"
    by (simp add: MAX_TFTP_UPLOAD_BYTES_def TFTP_BLOCK_SIZE_def)
  then have "unat (wr_next_block_expected w + 1) = unat (wr_next_block_expected w) + 1"
    by (simp add: unat_plus_if')
  with assms eq show ?thesis
    by (auto simp: write_ok_def accept_block_def handle_data_block_def write_disk_def append_to_def
        TFTP_BLOCK_SIZE_def Let_def split: option.splits)
qed

lemma write_ok_other: "write_ok disk w \<Longrightarrow> wr_upload_file w \<noteq> Some path \<Longrightarrow> write_ok (append_to disk path data) w"
  by (auto simp: write_ok_def append_to_def split: option.splits if_splits)

lemma server_ok_shrunk:
  assumes "server_ok s" "table_ok (s\<lparr>ts_transfers := t\<rparr>)" "length t \<le> length (ts_transfers s)"
    and sub: "\<forall>k v. map_of t k = Some v \<longrightarrow> map_of (ts_transfers s) k = Some v"
  shows "server_ok (s\<lparr>ts_transfers := t\<rparr>)"
proof -
  have sel: "ts_transfers (s\<lparr>ts_transfers := t\<rparr>) = t" "ts_disk (s\<lparr>ts_transfers := t\<rparr>) = ts_disk s" by simp_all
  have "writing_to (ts_transfers s) k path" if "writing_to t k path" for k path
    using that sub unfolding writing_to_def by (auto split: option.splits tftp_transfer.splits)
  moreover have "length t \<le> MAX_TFTP_ACTIVE_TRANSFERS" using assms(1,3) by (simp add: server_ok_def)
  ultimately show ?thesis
    using assms(1,2) sub unfolding server_ok_def sel by blast
qed

lemma length_update_limit:
  assumes "distinct (map fst t)" "length t \<le> MAX_TFTP_ACTIVE_TRANSFERS" "\<not> tftp_transfer_limit_reached t key"
  shows "length (AList.update key v t) \<le> MAX_TFTP_ACTIVE_TRANSFERS"
proof (cases "map_of t key")
  case None
  then show ?thesis using assms dm.length_insert_new [OF assms(1) None, of v]
    by (simp add: tftp_transfer_limit_reached_def)
next
  case (Some x)
  then show ?thesis using assms dm.length_insert_old [OF assms(1), of key v] by simp
qed

lemma server_ok_put:
  assumes ok: "server_ok s" and table: "table_ok (s\<lparr>ts_transfers := AList.update key v (ts_transfers s), ts_disk := disk\<rparr>)"
    and limit: "\<not> tftp_transfer_limit_reached (ts_transfers s) key"
    and new: "\<And>w. v = Write w \<Longrightarrow> write_ok disk w"
    and old: "\<And>k w. k \<noteq> key \<Longrightarrow> map_of (ts_transfers s) k = Some (Write w) \<Longrightarrow> write_ok disk w"
    and fresh: "\<And>w path k. v = Write w \<Longrightarrow> wr_upload_file w = Some path \<Longrightarrow> k \<noteq> key \<Longrightarrow>
      \<not> writing_to (ts_transfers s) k path"
  shows "server_ok (s\<lparr>ts_transfers := AList.update key v (ts_transfers s), ts_disk := disk\<rparr>)"
proof -
  let ?t = "AList.update key v (ts_transfers s)"
  have "length ?t \<le> MAX_TFTP_ACTIVE_TRANSFERS"
    using length_update_limit [OF _ _ limit] ok by (simp add: server_ok_def table_ok_def)
  moreover have "writing_to ?t k path \<longleftrightarrow>
      (if k = key then (\<exists>w. v = Write w \<and> wr_upload_file w = Some path) else writing_to (ts_transfers s) k path)"
    for k path
    by (auto simp: writing_to_def update_conv' split: tftp_transfer.splits)
  ultimately show ?thesis
    using ok table new old fresh unfolding server_ok_def
    by (auto simp: update_conv' split: if_splits)
qed

lemma server_ok_put_table:
  assumes "server_ok s" "table_ok (s\<lparr>ts_transfers := AList.update key v (ts_transfers s)\<rparr>)"
    "\<not> tftp_transfer_limit_reached (ts_transfers s) key" "\<And>w. v = Write w \<Longrightarrow> write_ok (ts_disk s) w"
    "\<And>w path k. v = Write w \<Longrightarrow> wr_upload_file w = Some path \<Longrightarrow> k \<noteq> key \<Longrightarrow>
      \<not> writing_to (ts_transfers s) k path"
  shows "server_ok (s\<lparr>ts_transfers := AList.update key v (ts_transfers s)\<rparr>)"
proof -
  have noop: "s\<lparr>ts_transfers := t, ts_disk := ts_disk s\<rparr> = s\<lparr>ts_transfers := t\<rparr>" for t by simp
  show ?thesis
    by (rule server_ok_put [where s = s and disk = "ts_disk s", unfolded noop])
      (use assms in \<open>auto simp: server_ok_def\<close>)
qed

lemma write_ok_touch: "write_ok disk (w\<lparr>wr_last_activity := n\<rparr>) = write_ok disk w"
  by (simp add: write_ok_def split: option.split)

lemma occupied_no_limit: "map_of t key = Some v \<Longrightarrow> \<not> tftp_transfer_limit_reached t key"
  by (simp add: tftp_transfer_limit_reached_def)

lemma open_upload_cases:
  assumes "open_upload_file env h disk filename = Some (Inr (file, disk'))"
  shows "file = None \<and> disk' = disk
    \<or> (\<exists>root path. th_root_dir h = Some root \<and> file = Some path
        \<and> path = path_join (path_join root (th_upload_prefix h)) filename
        \<and> tftp_filename_is_safe filename = Some True \<and> disk path = None \<and> disk' = disk(path \<mapsto> []))"
  using assms
  by (auto simp: open_upload_file_def bind_eq_Some_conv Let_def split: option.splits if_splits)

lemma writing_file_exists:
  assumes "server_ok s" "writing_to (ts_transfers s) k path"
  shows "ts_disk s path \<noteq> None"
proof -
  obtain w where "map_of (ts_transfers s) k = Some (Write w)" "wr_upload_file w = Some path"
    using assms(2) by (auto simp: writing_to_def split: option.splits tftp_transfer.splits)
  then show ?thesis using assms(1) by (fastforce simp: server_ok_def write_ok_def split: option.splits)
qed

lemma server_ok_unique:
  assumes "server_ok s" "map_of (ts_transfers s) key = Some (Write w)" "wr_upload_file w = Some path"
    "k \<noteq> key"
  shows "\<not> writing_to (ts_transfers s) k path"
proof -
  have "writing_to (ts_transfers s) key path" using assms(2,3) by (simp add: writing_to_def)
  then show ?thesis using assms(1,4) unfolding server_ok_def by blast
qed

lemma write_ok_new_file:
  "write_ok disk w \<Longrightarrow> disk path = None \<Longrightarrow> write_ok (disk(path \<mapsto> [])) w"
  by (auto simp: write_ok_def split: option.splits if_splits)

lemma write_ok_fresh:
  "(case target of None \<Rightarrow> True | Some path \<Rightarrow> disk path = Some []) \<Longrightarrow>
   write_ok disk \<lparr>wr_filename = filename, wr_next_block_expected = 1, wr_bytes_received = 0,
     wr_last_ack = Ack 0, wr_upload_file = target, wr_complete = False, wr_last_activity = n\<rparr>"
  by (auto simp: write_ok_def TFTP_BLOCK_SIZE_def split: option.splits)

lemma server_ok_change:
  assumes "tftp_change h s s'" "server_ok s"
  shows "server_ok s'"
proof -
  have table: "table_ok s'" using table_ok_change [OF assms(1)] assms(2) by (simp add: server_ok_def)
  have old: "write_ok (ts_disk s) w" if "map_of (ts_transfers s) k = Some (Write w)" for k w
    using assms(2) that by (simp add: server_ok_def)
  from assms(1) show ?thesis
  proof cases
    case (shrunk t)
    show ?thesis
      using server_ok_shrunk [OF assms(2) table [unfolded shrunk(1)] shrunk(4,2)] unfolding shrunk(1) .
  next
    case (reading r key)
    show ?thesis
      using table reading(3) unfolding reading(1) by (intro server_ok_put_table [OF assms(2)]) auto
  next
    case (touched key w n)
    show ?thesis
      using table occupied_no_limit [OF touched(2)] old [OF touched(2)]
        server_ok_unique [OF assms(2) touched(2)] unfolding touched(1)
      by (intro server_ok_put_table [OF assms(2)]) (auto simp: write_ok_touch)
  next
    case (opened key env filename target disk)
    have eta: "\<lparr>ts_transfers = t, ts_disk = disk\<rparr> = s\<lparr>ts_transfers := t, ts_disk := disk\<rparr>" for t by simp
    have "write_ok disk w" if "map_of (ts_transfers s) k = Some (Write w)" for k w
      using open_upload_cases [OF opened(4)] old [OF that] by (auto intro: write_ok_new_file)
    moreover have "\<not> writing_to (ts_transfers s) k path" if "target = Some path" for k path
      using open_upload_cases [OF opened(4)] that writing_file_exists [OF assms(2), of k path] by auto
    moreover note write_ok_fresh [where target = target and disk = disk and filename = filename and n = "te_now env"]
    moreover have "case target of None \<Rightarrow> True | Some path \<Rightarrow> disk path = Some []"
      using open_upload_cases [OF opened(4)] by auto
    ultimately show ?thesis
      using table opened(3) unfolding opened(1) eta
      by (intro server_ok_put [OF assms(2)]) auto
  next
    case (accepted key w data n)
    have "write_ok (write_disk (ts_disk s) (wr_upload_file w) data) w'"
      if "k \<noteq> key" "map_of (ts_transfers s) k = Some (Write w')" for k w'
    proof (cases "wr_upload_file w")
      case (Some path)
      then have "wr_upload_file w' \<noteq> Some path"
        using server_ok_unique [OF assms(2) accepted(2) Some that(1)] that(2) by (auto simp: writing_to_def)
      then show ?thesis using write_ok_other [OF old [OF that(2)]] Some by (simp add: write_disk_def)
    qed (use old [OF that(2)] in \<open>simp add: write_disk_def\<close>)
    moreover have "\<not> writing_to (ts_transfers s) k path"
      if "wr_upload_file (accept_block n w (wr_bytes_received w + length data)
        (wr_next_block_expected w) data) = Some path" "k \<noteq> key" for k path
      using that server_ok_unique [OF assms(2) accepted(2)] by (auto simp: accept_block_def Let_def split: if_splits)
    moreover note accept_block_ok [OF old [OF accepted(2)] accepted(3-5), of n]
    ultimately have "server_ok (s\<lparr>ts_transfers := AList.update key (Write w') (ts_transfers s),
        ts_disk := write_disk (ts_disk s) (wr_upload_file w) data\<rparr>)"
      if "w' = accept_block n w (wr_bytes_received w + length data) (wr_next_block_expected w) data" for w'
      using table [unfolded accepted(1), folded that] occupied_no_limit [OF accepted(2)] that
      by (intro server_ok_put [OF assms(2)]) simp_all
    from this [OF refl] show ?thesis unfolding accepted(1) .
  next
    case (failed key w path data)
    let ?s = "s\<lparr>ts_disk := append_to (ts_disk s) path data\<rparr>"
    have "write_ok (append_to (ts_disk s) path data) w'"
      if "k \<noteq> key" "map_of (ts_transfers s) k = Some (Write w')" for k w'
      using server_ok_unique [OF assms(2) failed(2,3) that(1)] that(2)
      by (intro write_ok_other [OF old [OF that(2)]]) (auto simp: writing_to_def)
    moreover have "writing_to (ts_transfers s) k p" if "writing_to (AList.delete key (ts_transfers s)) k p" for k p
      using that by (auto simp: writing_to_def delete_conv' split: if_splits)
    then have "\<forall>k k' path. writing_to (AList.delete key (ts_transfers s)) k path \<longrightarrow>
        writing_to (AList.delete key (ts_transfers s)) k' path \<longrightarrow> k = k'"
      using assms(2) unfolding server_ok_def by blast
    moreover have "length (AList.delete key (ts_transfers s)) \<le> MAX_TFTP_ACTIVE_TRANSFERS"
      using assms(2) length_delete_le [of key "ts_transfers s"] by (simp add: server_ok_def)
    ultimately show ?thesis
      using table unfolding failed(1) server_ok_def by (simp add: delete_conv')
  qed
qed

lemma server_ok_changes: "(tftp_change h)\<^sup>*\<^sup>* s s' \<Longrightarrow> server_ok s \<Longrightarrow> server_ok s'"
  by (induction rule: rtranclp_induct) (auto intro: server_ok_change)

lemma empty_server_ok: "server_ok \<lparr>ts_transfers = [], ts_disk = disk\<rparr>"
  by (simp add: server_ok_def table_ok_def writing_to_def)

lemma empty_table_ok: "table_ok \<lparr>ts_transfers = [], ts_disk = disk\<rparr>"
  by (simp add: table_ok_def)

section \<open>Confinement of uploads\<close>

definition confined :: "bytes \<Rightarrow> bytes \<Rightarrow> bool" where
  "confined root path \<longleftrightarrow>
     (\<exists>rest. path = root @ rest \<and> bstr ''..'' \<notin> set (split_on (\<lambda>b. b = 0x2F) rest))"

lemma split_on_finer:
  "(\<forall>y \<in> set (tl (split_on p xs)). (\<forall>x \<in> set y. \<not> q x) \<longrightarrow> y \<in> set (tl (split_on (\<lambda>x. p x \<or> q x) xs)))
   \<and> ((\<forall>x \<in> set (hd (split_on p xs)). \<not> q x) \<longrightarrow> hd (split_on (\<lambda>x. p x \<or> q x) xs) = hd (split_on p xs))"
proof (induction xs)
  case (Cons x xs)
  obtain a as where a: "split_on p xs = a # as"
    by (cases "split_on p xs") auto
  obtain b bs where b: "split_on (\<lambda>x. p x \<or> q x) xs = b # bs"
    by (cases "split_on (\<lambda>x. p x \<or> q x) xs") auto
  show ?case using Cons by (auto simp: a b)
qed simp

lemma split_on_finer_mem:
  assumes "y \<in> set (split_on p xs)" "\<forall>x \<in> set y. \<not> q x"
  shows "y \<in> set (split_on (\<lambda>x. p x \<or> q x) xs)"
proof -
  obtain a as where a: "split_on p xs = a # as" by (cases "split_on p xs") auto
  obtain b bs where b: "split_on (\<lambda>x. p x \<or> q x) xs = b # bs"
    by (cases "split_on (\<lambda>x. p x \<or> q x) xs") auto
  show ?thesis using split_on_finer [of p xs q] assms by (auto simp: a b)
qed

lemma safe_segments:
  assumes "tftp_filename_is_safe v = Some True"
  shows "bstr ''..'' \<notin> set (split_on (\<lambda>b. b = 0x2F) v)" "\<not> starts_with v [0x2F]"
proof -
  have "bstr ''..'' \<notin> set (split_on (\<lambda>b. b = 0x2F \<or> b = 0x5C) v)" "\<not> starts_with v [0x2F]"
    using assms by (auto simp: tftp_filename_is_safe_iff list_ex_iff)
  then show "bstr ''..'' \<notin> set (split_on (\<lambda>b. b = 0x2F) v)" "\<not> starts_with v [0x2F]"
    using split_on_finer_mem [of "bstr ''..''" "\<lambda>b. b = 0x2F" v "\<lambda>b. b = 0x5C"] by (auto simp: bstr_def)
qed

lemma split_on_append_Cons: "p s \<Longrightarrow> split_on p (xs @ s # ys) = split_on p xs @ split_on p ys"
  by (induction xs) (auto split: list.split)

lemma path_join_safe:
  assumes "\<not> starts_with v [0x2F]"
  shows "path_join base v = base @ v \<and> (base = [] \<or> ends_with base [0x2F])
    \<or> path_join base v = base @ 0x2F # v"
  using assms by (auto simp: path_join_def)

lemma joined_confined:
  assumes "tftp_filename_is_safe prefix = Some True" "tftp_filename_is_safe filename = Some True"
  shows "confined root (path_join (path_join root prefix) filename)"
proof -
  let ?split = "split_on (\<lambda>b. b = (0x2F :: u8))"
  note prefix = safe_segments [OF assms(1)] and filename = safe_segments [OF assms(2)]
  obtain base where base: "path_join root prefix = root @ base"
      "base = prefix \<or> base = 0x2F # prefix" "bstr ''..'' \<notin> set (?split base)"
    using path_join_safe [OF prefix(2), of root] prefix(1) by (auto simp: bstr_def)
  have "bstr ''..'' \<notin> set (?split (base @ 0x2F # filename))"
    using base(3) filename(1) by (simp add: split_on_append_Cons)
  moreover have "bstr ''..'' \<notin> set (?split (base @ filename))" if "base = [] \<or> ends_with base [0x2F]"
  proof (cases base rule: rev_cases)
    case (snoc pre b)
    then have "b = 0x2F" using that by (simp add: ends_with_def)
    with snoc base(3) filename(1) show ?thesis by (simp add: split_on_append_Cons split_on_snoc_sep)
  qed (use filename(1) in simp)
  moreover have "ends_with base [0x2F] \<or> base = []" if "root @ base = [] \<or> ends_with (root @ base) [0x2F]"
    using that by (cases base rule: rev_cases) (auto simp: ends_with_def)
  ultimately show ?thesis
    using path_join_safe [OF filename(2), of "root @ base"]
    unfolding base(1) confined_def by fastforce
qed

text \<open>Every file that differs from the start was created by the server below the root, and so was
  every file a transfer writes to.\<close>

definition uploads_confined :: "bytes \<Rightarrow> tftp_disk \<Rightarrow> tftp_server \<Rightarrow> bool" where
  "uploads_confined root disk s \<longleftrightarrow>
     (\<forall>path. ts_disk s path \<noteq> disk path \<longrightarrow> confined root path \<and> disk path = None)
     \<and> (\<forall>k w path. map_of (ts_transfers s) k = Some (Write w) \<longrightarrow> wr_upload_file w = Some path \<longrightarrow>
          confined root path \<and> disk path = None \<and> ts_disk s path \<noteq> None)"

lemma append_to_other: "append_to disk path data p = (if p = path then map_option (\<lambda>c. c @ data) (disk path) else disk p)"
  by (auto simp: append_to_def split: option.split)

lemma uploads_confined_change:
  assumes "tftp_change h s s'" "uploads_confined root disk s"
    and h: "th_root_dir h = Some root" "tftp_filename_is_safe (th_upload_prefix h) = Some True"
  shows "uploads_confined root disk s'"
  using assms(1)
proof cases
  case (shrunk t)
  have "ts_transfers s' = t" "ts_disk s' = ts_disk s" using shrunk(1) by simp_all
  with shrunk(2) assms(2) show ?thesis unfolding uploads_confined_def by metis
next
  case (reading r key)
  with assms(2) show ?thesis by (auto simp: uploads_confined_def update_conv')
next
  case (touched key w n)
  with assms(2) show ?thesis by (auto simp: uploads_confined_def update_conv' split: if_splits)
next
  case (opened key env filename target disk')
  from open_upload_cases [OF opened(4)] show ?thesis
  proof (elim disjE exE conjE)
    fix root' path
    assume new: "th_root_dir h = Some root'" "target = Some path"
      "path = path_join (path_join root' (th_upload_prefix h)) filename"
      "tftp_filename_is_safe filename = Some True" "ts_disk s path = None" "disk' = (ts_disk s)(path \<mapsto> [])"
    then have "confined root path" using h joined_confined by auto
    moreover have "disk path = None"
      using assms(2) new(5) unfolding uploads_confined_def by metis
    ultimately show ?thesis
      using assms(2) new unfolding opened(1)
      by (auto simp: uploads_confined_def update_conv' split: if_splits)
  qed (use assms(2) opened in \<open>auto simp: uploads_confined_def update_conv' split: if_splits\<close>)
next
  case (accepted key w data n)
  show ?thesis
    using assms(2) accepted(2) unfolding accepted(1)
    by (auto simp: uploads_confined_def update_conv' write_disk_def append_to_other accept_block_def Let_def
        split: if_splits option.splits)
next
  case (failed key w path data)
  show ?thesis
    using assms(2) failed(2,3) unfolding failed(1)
    by (auto simp: uploads_confined_def delete_conv' append_to_other split: if_splits)
qed

lemma uploads_confined_changes:
  "(tftp_change h)\<^sup>*\<^sup>* s s' \<Longrightarrow> uploads_confined root disk s \<Longrightarrow> th_root_dir h = Some root \<Longrightarrow>
   tftp_filename_is_safe (th_upload_prefix h) = Some True \<Longrightarrow> uploads_confined root disk s'"
  by (induction rule: rtranclp_induct) (auto intro: uploads_confined_change)

section \<open>Safety of the server\<close>

text \<open>Property C23. Whatever datagrams arrive, in whatever order and with whatever outcome of the file
  operations, the server never panics, and its table keeps its invariant: at most 1024 transfers,
  uploads of at most 8 MiB whose byte count, next block and open file agree, no two transfers writing
  to one file.\<close>

theorem tftp_server_safe:
  "\<exists>rs s. tftp_run h \<lparr>ts_transfers = [], ts_disk = disk\<rparr> steps = Some (rs, s) \<and> server_ok s"
  using tftp_run_wp [OF empty_table_ok [of disk], of h steps] server_ok_changes [OF _ empty_server_ok [of disk]]
  by (fastforce simp: wp_def split: option.splits)


text \<open>A server with a root directory, a client and its write request.\<close>

definition sample_handler :: tftp_handler where
  "sample_handler = tftp_handler_new\<lparr>th_root_dir := Some (bstr ''/srv'')\<rparr>"

definition sample_env :: tftp_env where
  "sample_env = \<lparr>te_now = 0, te_open_beneath = \<lambda>_ _. Not_found, te_can_create = \<lambda>_. True, te_write_error = None\<rparr>"

definition sample_key :: tftp_transfer_key where
  "sample_key = \<lparr>tk_src_ip = V4 (Ipv4 10 0 0 1), tk_src_port = 4000, tk_dst_ip = V4 (Ipv4 10 0 0 2), tk_dst_port = 69\<rparr>"

definition sample_wrq :: bytes where
  "sample_wrq = [0, 2, 0x61, 0] @ bstr ''octet'' @ [0]"

definition sample_rrq :: bytes where
  "sample_rrq = [0, 1, 0x61, 0] @ bstr ''octet'' @ [0]"

lemmas safe_text_evals = tftp_filename_is_safe_def tftp_text_field_is_safe_def is_ascii_control_def is_ascii_def
  starts_with_def looks_like_windows_drive_path_def split_once_def bstr_def

lemma sample_parses:
  "tftp_parse sample_wrq = Some (Some (WriteRequest [0x61] (bstr ''octet'') []))"
  "tftp_parse sample_rrq = Some (Some (ReadRequest [0x61] (bstr ''octet'') []))"
  by (simp_all add: sample_wrq_def sample_rrq_def tftp_parse_def parse_request_def safe_text_evals u16_be_def
      TFTP_MAX_CONTROL_PACKET_BYTES_def slice_from_def ends_with_def idx_def Let_def one_of_def
      to_ascii_lowercase_def ascii_lower_def is_ascii_uppercase_def parse_options_def)

lemma sample_upload_path:
  "path_join (path_join (bstr ''/srv'') (th_upload_prefix sample_handler)) [0x61] = bstr ''/srv/tftp_upload/a''"
  by (simp add: path_join_def starts_with_def ends_with_def sample_handler_def tftp_handler_new_def bstr_def)

lemma sample_prefix_safe: "tftp_filename_is_safe (th_upload_prefix sample_handler) = Some True"
  by (simp add: safe_text_evals sample_handler_def tftp_handler_new_def)

lemma sample_upload_run:
  "\<exists>rs s. tftp_run sample_handler \<lparr>ts_transfers = [], ts_disk = \<lambda>_. None\<rparr> [(sample_env, Some sample_key, sample_wrq)] =
     Some (rs, s) \<and> ts_disk s (bstr ''/srv/tftp_upload/a'') = Some []"
proof -
  have "tftp_filename_is_safe [0x61] = Some True" by (simp add: safe_text_evals)
  moreover have "th_root_dir sample_handler = Some (bstr ''/srv'')" by (simp add: sample_handler_def)
  ultimately show ?thesis
    by (simp add: handle_tftp_def prune_tftp_transfers_def retain_def sample_parses tftp_packet_step_def
        on_write_request_def duplicate_tftp_write_request_response_def tftp_transfer_limit_reached_def
        MAX_TFTP_ACTIVE_TRANSFERS_def open_upload_file_def sample_upload_path sample_env_def
        handle_write_request_def tftp_to_bytes_def Let_def)
qed


end
