(* ===== verification/Tftp_Lockstep.thy ===== *)
theory Tftp_Lockstep
  imports Tftp_Props
begin

text \<open>
  Whole transfers. A client that sends the blocks of a file one after the other, or acknowledges the
  blocks it receives, gets the whole content across: the theorems run the datagrams through
  \<open>handle_tftp\<close>, from the bytes received to the bytes sent and the file written.
\<close>

section \<open>Blocks of a content\<close>

definition block_of :: "bytes \<Rightarrow> nat \<Rightarrow> bytes" where
  "block_of c k = take TFTP_BLOCK_SIZE (drop (TFTP_BLOCK_SIZE * k) c)"

definition last_block :: "bytes \<Rightarrow> nat" where
  "last_block c = length c div TFTP_BLOCK_SIZE"

lemma take_Suc_block: "take (TFTP_BLOCK_SIZE * k) c @ block_of c k = take (TFTP_BLOCK_SIZE * Suc k) c"
  by (simp add: block_of_def take_add [symmetric] add.commute)

lemma take_all_blocks: "take (TFTP_BLOCK_SIZE * Suc (last_block c)) c = c"
proof -
  have "length c \<le> TFTP_BLOCK_SIZE * Suc (last_block c)"
    using dividend_less_times_div [of TFTP_BLOCK_SIZE "length c"]
    by (simp add: last_block_def TFTP_BLOCK_SIZE_def)
  then show ?thesis by simp
qed

lemma concat_blocks: "concat (map (block_of c) [0..<Suc (last_block c)]) = c"
proof -
  have "concat (map (block_of c) [0..<k]) = take (TFTP_BLOCK_SIZE * k) c" for k
    by (induction k) (simp_all add: take_Suc_block del: mult_Suc_right)
  then show ?thesis by (simp only: take_all_blocks)
qed

lemma length_block_of:
  "length (block_of c k) \<le> TFTP_BLOCK_SIZE"
  "k \<le> last_block c \<Longrightarrow> length (block_of c k) < TFTP_BLOCK_SIZE \<longleftrightarrow> k = last_block c"
proof -
  show "length (block_of c k) \<le> TFTP_BLOCK_SIZE" by (simp add: block_of_def)
  assume "k \<le> last_block c"
  then show "length (block_of c k) < TFTP_BLOCK_SIZE \<longleftrightarrow> k = last_block c"
    unfolding block_of_def last_block_def TFTP_BLOCK_SIZE_def by (simp add: min_def) linarith
qed

lemma few_blocks:
  "length c \<le> 8 * 1024 * 1024 \<Longrightarrow> k \<le> Suc (last_block c) \<Longrightarrow> Suc k < 65536"
  by (simp add: last_block_def TFTP_BLOCK_SIZE_def)

lemma u16_of_nat_eq:
  "a < 65536 \<Longrightarrow> b < 65536 \<Longrightarrow> (word_of_nat a :: u16) = word_of_nat b \<longleftrightarrow> a = b"
  by (simp add: word_unat_eq_iff unat_word_nat_u16)

lemma u16_of_nat_nonzero: "0 < a \<Longrightarrow> a < 65536 \<Longrightarrow> (word_of_nat a :: u16) \<noteq> 0"
  by (simp add: word_unat_eq_iff unat_word_nat_u16)

section \<open>Datagrams\<close>

definition data_datagram :: "bytes \<Rightarrow> nat \<Rightarrow> bytes" where
  "data_datagram c k = u16_to_be 3 @ u16_to_be (word_of_nat (Suc k)) @ block_of c k"

definition ack_datagram :: "nat \<Rightarrow> bytes" where
  "ack_datagram k = u16_to_be 4 @ u16_to_be (word_of_nat k)"

lemma data_to_bytes:
  "Suc k < 65536 \<Longrightarrow> tftp_to_bytes (Data (word_of_nat (Suc k)) (block_of c k)) = Some (Inr (data_datagram c k))"
  using length_block_of(1) [of c k] u16_of_nat_nonzero [of "Suc k"]
  by (simp add: tftp_to_bytes_def data_datagram_def)

lemma ack_to_bytes: "tftp_to_bytes (Ack (word_of_nat k)) = Some (Inr (ack_datagram k))"
  by (simp add: tftp_to_bytes_def ack_datagram_def)

lemmas parse_data = short_packets_parse(1) [OF data_to_bytes]
lemmas parse_ack = short_packets_parse(2) [OF ack_to_bytes]

lemma tftp_run_snoc:
  assumes "tftp_run h s xs = Some (rs, s')" "handle_tftp env h s' key data = Some (r, s'')"
  shows "tftp_run h s (xs @ [(env, key, data)]) = Some (rs @ [r], s'')"
  using assms
proof (induction h s xs arbitrary: rs rule: tftp_run.induct)
  case (2 h s env key data rest)
  then show ?case by (fastforce simp: bind_eq_Some_conv)
qed simp

section \<open>Upload\<close>

definition upload_state :: "bytes \<Rightarrow> bytes \<Rightarrow> bytes \<Rightarrow> nat \<Rightarrow> nat \<Rightarrow> tftp_write" where
  "upload_state filename path c t k =
     \<lparr>wr_filename = filename, wr_next_block_expected = word_of_nat (Suc k),
      wr_bytes_received = length (take (TFTP_BLOCK_SIZE * k) c), wr_last_ack = Ack (word_of_nat k),
      wr_upload_file = (if last_block c < k then None else Some path),
      wr_complete = (last_block c < k), wr_last_activity = t\<rparr>"

lemma upload_state_activity [simp]: "wr_last_activity (upload_state filename path c t k) = t"
  by (simp add: upload_state_def)

lemma upload_step:
  assumes "length c \<le> MAX_TFTP_UPLOAD_BYTES" "k \<le> last_block c"
    and "te_now env - t \<le> TFTP_TRANSFER_TIMEOUT" "te_write_error env = None"
  shows "handle_tftp env h
      \<lparr>ts_transfers = [(key, Write (upload_state filename path c t k))],
       ts_disk = disk(path \<mapsto> take (TFTP_BLOCK_SIZE * k) c)\<rparr> (Some key) (data_datagram c k) =
    Some ([ack_datagram (Suc k)],
      \<lparr>ts_transfers = [(key, Write (upload_state filename path c (te_now env) (Suc k)))],
       ts_disk = disk(path \<mapsto> take (TFTP_BLOCK_SIZE * Suc k) c)\<rparr>)"
proof -
  have small: "Suc k < 65536" "Suc (Suc k) < 65536"
    using few_blocks [of c "Suc k"] assms(1,2) by (simp_all add: MAX_TFTP_UPLOAD_BYTES_def)
  have nonzero: "(word_of_nat (Suc k) :: u16) \<noteq> 0" by (rule u16_of_nat_nonzero) (use small in auto)
  have total: "length (take (TFTP_BLOCK_SIZE * k) c) + length (block_of c k) =
      length (take (TFTP_BLOCK_SIZE * Suc k) c)"
    unfolding length_append [symmetric] take_Suc_block ..
  have bound: "length (take (TFTP_BLOCK_SIZE * Suc k) c) \<le> MAX_TFTP_UPLOAD_BYTES"
    using assms(1) by simp
  have usize: "length (take (TFTP_BLOCK_SIZE * Suc k) c) \<le> usize_max"
    using bound by (simp add: MAX_TFTP_UPLOAD_BYTES_def usize_max_def)
  have "handle_tftp_write_data env
      \<lparr>ts_transfers = [(key, Write (upload_state filename path c t k))],
       ts_disk = disk(path \<mapsto> take (TFTP_BLOCK_SIZE * k) c)\<rparr> key (word_of_nat (Suc k)) (block_of c k) =
    (Ack (word_of_nat (Suc k)),
      \<lparr>ts_transfers = [(key, Write (upload_state filename path c (te_now env) (Suc k)))],
       ts_disk = disk(path \<mapsto> take (TFTP_BLOCK_SIZE * Suc k) c)\<rparr>)"
    using assms(2,4) nonzero total bound usize length_block_of(1) [of c k] length_block_of(2) [of k c]
    by (auto simp: handle_tftp_write_data_def upload_state_def checked_add_def handle_data_block_def
        accept_block_def append_to_def take_Suc_block Let_def add.commute)
  then show ?thesis
    using assms(3) small
    by (simp add: handle_tftp_def prune_tftp_transfers_def retain_def parse_data
        tftp_packet_step_def ack_to_bytes del: mult_Suc_right of_nat_Suc)
qed

lemma parsed_write_request_safe:
  "tftp_parse data = Some (Some (WriteRequest filename mode options)) \<Longrightarrow> tftp_filename_is_safe filename = Some True"
  by (auto simp: tftp_parse_def parse_request_def Let_def tryo_eq_Some_Some bind_eq_Some_conv split: if_splits)

lemma upload_start:
  assumes "tftp_parse wrq = Some (Some (WriteRequest filename mode []))" "th_root_dir h = Some root"
    and "path = path_join (path_join root (th_upload_prefix h)) filename" "disk path = None"
    and "te_can_create env path"
  shows "handle_tftp env h \<lparr>ts_transfers = [], ts_disk = disk\<rparr> (Some key) wrq =
    Some ([ack_datagram 0],
      \<lparr>ts_transfers = [(key, Write (upload_state filename path c (te_now env) 0))],
       ts_disk = disk(path \<mapsto> [])\<rparr>)"
  using assms parsed_write_request_safe [OF assms(1)] ack_to_bytes [of 0]
  by (simp add: handle_tftp_def prune_tftp_transfers_def retain_def tftp_packet_step_def on_write_request_def
      duplicate_tftp_write_request_response_def tftp_transfer_limit_reached_def open_upload_file_def
      MAX_TFTP_ACTIVE_TRANSFERS_def handle_write_request_def upload_state_def Let_def)

lemma upload_run:
  assumes "tftp_parse wrq = Some (Some (WriteRequest filename mode []))" "th_root_dir h = Some root"
    and "path = path_join (path_join root (th_upload_prefix h)) filename" "disk path = None"
    and "length c \<le> MAX_TFTP_UPLOAD_BYTES" and "te_can_create (env 0) path"
    and "\<And>i. te_write_error (env i) = None"
    and "\<And>i. te_now (env (Suc i)) - te_now (env i) \<le> TFTP_TRANSFER_TIMEOUT"
  shows "k \<le> Suc (last_block c) \<Longrightarrow>
    tftp_run h \<lparr>ts_transfers = [], ts_disk = disk\<rparr>
      ((env 0, Some key, wrq) # map (\<lambda>i. (env (Suc i), Some key, data_datagram c i)) [0..<k]) =
    Some (map (\<lambda>i. [ack_datagram i]) [0..<Suc k],
      \<lparr>ts_transfers = [(key, Write (upload_state filename path c (te_now (env k)) k))],
       ts_disk = disk(path \<mapsto> take (TFTP_BLOCK_SIZE * k) c)\<rparr>)"
proof (induction k)
  case 0
  then show ?case using upload_start [where disk = disk and path = path and env = "env 0" and key = key and c = c, OF assms(1-4,6)]
    by (simp add: fun_upd_def)
next
  case (Suc k)
  have "handle_tftp (env (Suc k)) h
      \<lparr>ts_transfers = [(key, Write (upload_state filename path c (te_now (env k)) k))],
       ts_disk = disk(path \<mapsto> take (TFTP_BLOCK_SIZE * k) c)\<rparr> (Some key) (data_datagram c k) =
    Some ([ack_datagram (Suc k)],
      \<lparr>ts_transfers = [(key, Write (upload_state filename path c (te_now (env (Suc k))) (Suc k)))],
       ts_disk = disk(path \<mapsto> take (TFTP_BLOCK_SIZE * Suc k) c)\<rparr>)"
    by (rule upload_step [OF assms(5) _ assms(8,7)]) (use Suc.prems in simp)
  from tftp_run_snoc [OF Suc.IH this] Suc.prems show ?case by (simp add: fun_upd_def)
qed

text \<open>Property C24. A client that is granted a write request and sends the blocks of a content of at
  most 8 MiB in order gets every block acknowledged, and the new file then holds exactly that
  content. The clock may advance up to the time-out between two datagrams.\<close>

theorem tftp_upload_exact:
  assumes "tftp_parse wrq = Some (Some (WriteRequest filename mode []))" "th_root_dir h = Some root"
    and "path = path_join (path_join root (th_upload_prefix h)) filename" "disk path = None"
    and "length c \<le> MAX_TFTP_UPLOAD_BYTES" and "te_can_create (env 0) path"
    and "\<And>i. te_write_error (env i) = None"
    and "\<And>i. te_now (env (Suc i)) - te_now (env i) \<le> TFTP_TRANSFER_TIMEOUT"
  shows "\<exists>s. tftp_run h \<lparr>ts_transfers = [], ts_disk = disk\<rparr>
      ((env 0, Some key, wrq)
        # map (\<lambda>i. (env (Suc i), Some key, data_datagram c i)) [0..<Suc (length c div 512)]) =
      Some (map (\<lambda>i. [ack_datagram i]) [0..<Suc (Suc (length c div 512))], s)
    \<and> ts_disk s = disk(path \<mapsto> c)"
  using upload_run [where disk = disk and path = path and env = env, OF assms, of "Suc (last_block c)" key] take_all_blocks [of c]
  unfolding last_block_def TFTP_BLOCK_SIZE_def by (simp only: order_refl) auto

theorem tftp_upload_exact_witness:
  "\<exists>s. tftp_run sample_handler \<lparr>ts_transfers = [], ts_disk = \<lambda>_. None\<rparr>
      ((sample_env, Some sample_key, sample_wrq)
        # map (\<lambda>i. (sample_env, Some sample_key, data_datagram [1, 2, 3] i)) [0..<Suc (length [1, 2, 3 :: u8] div 512)]) =
      Some (map (\<lambda>i. [ack_datagram i]) [0..<Suc (Suc (length [1, 2, 3 :: u8] div 512))], s)
    \<and> ts_disk s = (\<lambda>_. None)(bstr ''/srv/tftp_upload/a'' \<mapsto> [1, 2, 3])"
  by (rule tftp_upload_exact [where env = "\<lambda>_. sample_env", OF sample_parses(1)])
    (simp_all add: sample_upload_path [symmetric] sample_handler_def sample_env_def MAX_TFTP_UPLOAD_BYTES_def)

section \<open>Download\<close>

definition download_state :: "bytes \<Rightarrow> bytes \<Rightarrow> nat \<Rightarrow> nat \<Rightarrow> tftp_read" where
  "download_state filename c t k =
     \<lparr>rd_filename = filename, rd_last_block_sent = word_of_nat (Suc k),
      rd_last_response = Data (word_of_nat (Suc k)) (block_of c k),
      rd_complete = (k = last_block c), rd_last_activity = t\<rparr>"

lemma download_state_activity [simp]: "rd_last_activity (download_state filename c t k) = t"
  by (simp add: download_state_def)

lemma default_block:
  assumes "th_root_dir h = None" "Suc k < 65536"
  shows "handle_read_request_block ob h filename (word_of_nat (Suc k)) =
    Data (word_of_nat (Suc k)) (block_of (th_default_content h) k)"
proof -
  have "unat (word_of_nat (Suc k) :: u16) = Suc k"
    using assms(2) by (simp only: unat_word_nat_u16) simp
  then have "default_content_block h (word_of_nat (Suc k)) = block_of (th_default_content h) k"
    by (auto simp: default_content_block_def block_of_def slice_def Let_def mult.commute min_def)
  with assms u16_of_nat_nonzero [of "Suc k"] show ?thesis
    by (simp add: handle_read_request_block_def)
qed

lemma download_start:
  assumes "tftp_parse rrq = Some (Some (ReadRequest filename mode []))" "th_root_dir h = None"
  shows "handle_tftp env h \<lparr>ts_transfers = [], ts_disk = disk\<rparr> (Some key) rrq =
    Some ([data_datagram (th_default_content h) 0],
      \<lparr>ts_transfers = [(key, Read (download_state filename (th_default_content h) (te_now env) 0))],
       ts_disk = disk\<rparr>)"
  using assms default_block [OF assms(2), of 0 "te_open_beneath env" filename]
    data_to_bytes [of 0 "th_default_content h"] length_block_of(2) [of 0 "th_default_content h"]
  by (simp add: handle_tftp_def prune_tftp_transfers_def retain_def tftp_packet_step_def on_read_request_def
      duplicate_tftp_read_request_response_def tftp_transfer_limit_reached_def
      MAX_TFTP_ACTIVE_TRANSFERS_def remember_tftp_read_response_def download_state_def Let_def)

lemma download_step:
  assumes "th_root_dir h = None" "c = th_default_content h" "length c \<le> MAX_TFTP_SERVE_BYTES"
    and "Suc k \<le> last_block c" "te_now env - t \<le> TFTP_TRANSFER_TIMEOUT"
  shows "handle_tftp env h
      \<lparr>ts_transfers = [(key, Read (download_state filename c t k))], ts_disk = disk\<rparr>
      (Some key) (ack_datagram (Suc k)) =
    Some ([data_datagram c (Suc k)],
      \<lparr>ts_transfers = [(key, Read (download_state filename c (te_now env) (Suc k)))], ts_disk = disk\<rparr>)"
proof -
  have small: "Suc (Suc k) < 65536"
    using few_blocks [of c "Suc k"] assms(3,4) by (simp add: MAX_TFTP_SERVE_BYTES_def)
  have next_block: "(word_of_nat (Suc k) :: u16) + 1 = word_of_nat (Suc (Suc k))" by (simp add: add.commute)
  have "next_tftp_read_action (te_now env) [(key, Read (download_state filename c t k))] key (word_of_nat (Suc k)) =
      (Some (SendNext filename (word_of_nat (Suc (Suc k)))),
       [(key, Read (download_state filename c (te_now env) k))])"
    using assms(4)
    by (simp add: next_tftp_read_action_def download_state_def next_block del: of_nat_Suc)
  then have "on_ack env h \<lparr>ts_transfers = [(key, Read (download_state filename c t k))], ts_disk = disk\<rparr> key
      (word_of_nat (Suc k)) =
    ([Data (word_of_nat (Suc (Suc k))) (block_of c (Suc k))],
      \<lparr>ts_transfers = [(key, Read (download_state filename c (te_now env) (Suc k)))], ts_disk = disk\<rparr>)"
    using default_block [OF assms(1) small] length_block_of(2) [OF assms(4)] assms(2)
    by (simp add: on_ack_def remember_tftp_read_response_def download_state_def Let_def del: of_nat_Suc)
  then show ?thesis
    using assms(5) data_to_bytes [OF small]
    by (simp add: handle_tftp_def prune_tftp_transfers_def retain_def parse_ack tftp_packet_step_def
        del: of_nat_Suc)
qed

lemma download_end:
  assumes "k = last_block c" "te_now env - t \<le> TFTP_TRANSFER_TIMEOUT"
  shows "handle_tftp env h \<lparr>ts_transfers = [(key, Read (download_state filename c t k))], ts_disk = disk\<rparr>
      (Some key) (ack_datagram (Suc k)) = Some ([], \<lparr>ts_transfers = [], ts_disk = disk\<rparr>)"
  using assms
  by (simp add: handle_tftp_def prune_tftp_transfers_def retain_def parse_ack tftp_packet_step_def
      on_ack_def next_tftp_read_action_def download_state_def del: of_nat_Suc)

lemma download_run:
  assumes "tftp_parse rrq = Some (Some (ReadRequest filename mode []))" "th_root_dir h = None"
    and "length (th_default_content h) \<le> MAX_TFTP_SERVE_BYTES"
    and "\<And>i. te_now (env (Suc i)) - te_now (env i) \<le> TFTP_TRANSFER_TIMEOUT"
  shows "k \<le> last_block (th_default_content h) \<Longrightarrow>
    tftp_run h \<lparr>ts_transfers = [], ts_disk = disk\<rparr>
      ((env 0, Some key, rrq) # map (\<lambda>i. (env (Suc i), Some key, ack_datagram (Suc i))) [0..<k]) =
    Some (map (\<lambda>i. [data_datagram (th_default_content h) i]) [0..<Suc k],
      \<lparr>ts_transfers = [(key, Read (download_state filename (th_default_content h) (te_now (env k)) k))],
       ts_disk = disk\<rparr>)"
proof (induction k)
  case 0
  show ?case using download_start [OF assms(1,2), of "env 0" disk key] by simp
next
  case (Suc k)
  from tftp_run_snoc [OF Suc.IH download_step [OF assms(2) refl assms(3) Suc.prems assms(4)]] Suc.prems
  show ?case by simp
qed

text \<open>Property C25. A client that requests a file from a server without a root directory and
  acknowledges every block receives exactly the configured content, block by block, and its last
  acknowledgement ends the transfer.\<close>

theorem tftp_download_exact:
  assumes "tftp_parse rrq = Some (Some (ReadRequest filename mode []))" "th_root_dir h = None"
    and "length (th_default_content h) \<le> MAX_TFTP_SERVE_BYTES"
    and "\<And>i. te_now (env (Suc i)) - te_now (env i) \<le> TFTP_TRANSFER_TIMEOUT"
    and "n = length (th_default_content h) div 512"
  shows "tftp_run h \<lparr>ts_transfers = [], ts_disk = disk\<rparr>
      ((env 0, Some key, rrq) # map (\<lambda>i. (env (Suc i), Some key, ack_datagram (Suc i))) [0..<Suc n]) =
    Some (map (\<lambda>i. [data_datagram (th_default_content h) i]) [0..<Suc n] @ [[]],
      \<lparr>ts_transfers = [], ts_disk = disk\<rparr>)
    \<and> concat (map (\<lambda>i. drop 4 (data_datagram (th_default_content h) i)) [0..<Suc n]) = th_default_content h"
proof
  have n: "n = last_block (th_default_content h)"
    using assms(5) by (simp add: last_block_def TFTP_BLOCK_SIZE_def)
  from tftp_run_snoc [OF download_run [where env = env, OF assms(1-4), of n] download_end [OF n assms(4)], of disk key]
  show "tftp_run h \<lparr>ts_transfers = [], ts_disk = disk\<rparr>
      ((env 0, Some key, rrq) # map (\<lambda>i. (env (Suc i), Some key, ack_datagram (Suc i))) [0..<Suc n]) =
    Some (map (\<lambda>i. [data_datagram (th_default_content h) i]) [0..<Suc n] @ [[]],
      \<lparr>ts_transfers = [], ts_disk = disk\<rparr>)"
    using n by simp
  have "drop 4 (data_datagram c i) = block_of c i" for c i
    by (simp add: data_datagram_def u16_to_be_def)
  then show "concat (map (\<lambda>i. drop 4 (data_datagram (th_default_content h) i)) [0..<Suc n]) = th_default_content h"
    using concat_blocks [of "th_default_content h"] n by (simp only:)
qed

theorem tftp_download_exact_witness:
  "tftp_run tftp_handler_new \<lparr>ts_transfers = [], ts_disk = \<lambda>_. None\<rparr>
      ((sample_env, Some sample_key, sample_rrq)
        # map (\<lambda>i. (sample_env, Some sample_key, ack_datagram (Suc i))) [0..<Suc 0]) =
    Some (map (\<lambda>i. [data_datagram (th_default_content tftp_handler_new) i]) [0..<Suc 0] @ [[]],
      \<lparr>ts_transfers = [], ts_disk = \<lambda>_. None\<rparr>)
    \<and> concat (map (\<lambda>i. drop 4 (data_datagram (th_default_content tftp_handler_new) i)) [0..<Suc 0]) =
      th_default_content tftp_handler_new"
  by (rule tftp_download_exact [where env = "\<lambda>_. sample_env", OF sample_parses(2)])
    (simp_all add: tftp_handler_new_def MAX_TFTP_SERVE_BYTES_def bstr_def)

end
