(* ===== verification/Rust_Buffers.thy ===== *)
theory Rust_Buffers
  imports Rust_Bits Rust_Net
begin

text \<open>
  Byte buffers: the \<open>?\<close> operator on \<open>Result\<close>, \<open>copy_from_slice\<close>, \<open>try_from\<close> between integer
  widths, little-endian bytes and byte swapping, the octets of addresses and the address classes the
  packet codecs use, with the facts that make a decoder undo an encoder.
\<close>

section \<open>Operations\<close>

text \<open>\<open>e?\<close> in a function that returns \<open>Result\<close>: \<open>Inl\<close> is the error.\<close>

definition tryr :: "'e + 'a \<Rightarrow> ('a \<Rightarrow> ('e + 'b) rs) \<Rightarrow> ('e + 'b) rs" where
  "tryr x f = (case x of Inl e \<Rightarrow> Some (Inl e) | Inr v \<Rightarrow> f v)"

text \<open>\<open>e.ok_or(err)?\<close>.\<close>

definition ok_or :: "'e \<Rightarrow> 'a option \<Rightarrow> 'e + 'a" where
  "ok_or e x = (case x of None \<Rightarrow> Inl e | Some v \<Rightarrow> Inr v)"

text \<open>\<open>xs[a..b].copy_from_slice(ys)\<close>.\<close>

definition copy_from_slice :: "'a list \<Rightarrow> usize \<Rightarrow> usize \<Rightarrow> 'a list \<Rightarrow> 'a list rs" where
  "copy_from_slice xs a b ys =
     (if a \<le> b \<and> b \<le> length xs \<and> length ys = b - a then Some (take a xs @ ys @ drop b xs) else None)"

definition u16_try_from :: "nat \<Rightarrow> u16 option" where
  "u16_try_from n = (if n < 65536 then Some (word_of_nat n) else None)"

definition u32_try_from :: "int \<Rightarrow> u32 option" where
  "u32_try_from n = (if 0 \<le> n \<and> n < 4294967296 then Some (word_of_int n) else None)"

definition u16_to_le :: "u16 \<Rightarrow> bytes" where
  "u16_to_le w = rev (u16_to_be w)"

definition u32_to_le :: "u32 \<Rightarrow> bytes" where
  "u32_to_le w = rev (u32_to_be w)"

definition u16_swap_bytes :: "u16 \<Rightarrow> u16" where
  "u16_swap_bytes w = (case u16_to_be w of [a, b] \<Rightarrow> u16_be b a | _ \<Rightarrow> w)"

definition u32_swap_bytes :: "u32 \<Rightarrow> u32" where
  "u32_swap_bytes w = (case u32_to_be w of [a, b, c, d] \<Rightarrow> u32_be d c b a | _ \<Rightarrow> w)"

fun v6_octets :: "ipv6 \<Rightarrow> bytes" where
  "v6_octets (Ipv6 s0 s1 s2 s3 s4 s5 s6 s7) =
     u16_to_be s0 @ u16_to_be s1 @ u16_to_be s2 @ u16_to_be s3 @ u16_to_be s4 @ u16_to_be s5
       @ u16_to_be s6 @ u16_to_be s7"

fun v4_is_private :: "ipv4 \<Rightarrow> bool" where
  "v4_is_private (Ipv4 a b c d) \<longleftrightarrow>
     a = 10 \<or> (a = 172 \<and> 16 \<le> b \<and> b \<le> 31) \<or> (a = 192 \<and> b = 168)"

fun v4_is_link_local :: "ipv4 \<Rightarrow> bool" where
  "v4_is_link_local (Ipv4 a b c d) \<longleftrightarrow> a = 169 \<and> b = 254"

fun ip_is_loopback :: "ip_addr \<Rightarrow> bool" where
  "ip_is_loopback (V4 a) = v4_is_loopback a"
| "ip_is_loopback (V6 a) = v6_is_loopback a"

section \<open>Rules\<close>

lemma tryr_simps [simp]:
  "tryr (Inl e) f = Some (Inl e)"
  "tryr (Inr v) f = f v"
  by (simp_all add: tryr_def)

lemma tryr_Inr_iff: "tryr x f = Some (Inr w) \<longleftrightarrow> (\<exists>v. x = Inr v \<and> f v = Some (Inr w))"
  by (cases x) auto

lemma wp_tryr [wp_rules]:
  "wp (tryr x f) P \<longleftrightarrow> (\<forall>e. x = Inl e \<longrightarrow> P (Inl e)) \<and> (\<forall>v. x = Inr v \<longrightarrow> wp (f v) P)"
  by (cases x) (simp_all add: wp_def)

lemma ok_or_simps [simp]:
  "ok_or e None = Inl e"
  "ok_or e (Some v) = Inr v"
  by (simp_all add: ok_or_def)

lemma ok_or_Inr_iff [simp]: "ok_or e x = Inr v \<longleftrightarrow> x = Some v"
  by (cases x) auto

lemma copy_from_slice_Some:
  "a \<le> b \<Longrightarrow> b \<le> length xs \<Longrightarrow> length ys = b - a \<Longrightarrow>
     copy_from_slice xs a b ys = Some (take a xs @ ys @ drop b xs)"
  by (simp add: copy_from_slice_def)

lemma wp_copy_from_slice [wp_rules]:
  "wp (copy_from_slice xs a b ys) P \<longleftrightarrow>
     a \<le> b \<and> b \<le> length xs \<and> length ys = b - a \<and> P (take a xs @ ys @ drop b xs)"
  by (auto simp: wp_def copy_from_slice_def)

lemma u16_try_from_Some [simp]: "u16_try_from n = Some w \<longleftrightarrow> n < 65536 \<and> w = word_of_nat n"
  by (auto simp: u16_try_from_def)

section \<open>Bytes and back\<close>

lemma u16_be_to_be [simp]: "u16_be (u16_to_be w ! 0) (u16_to_be w ! Suc 0) = w"
  by (rule u16_be_roundtrip) (simp add: u16_to_be_def)

lemma u16_be_bytes [simp]: "u16_be (word_of_nat (unat w div 256)) (word_of_nat (unat w mod 256)) = w"
  using u16_be_to_be [of w] by (simp add: u16_to_be_def)

lemma u32_be_bytes [simp]:
  "u32_be (word_of_nat (unat w div 16777216)) (word_of_nat (unat w div 65536 mod 256))
     (word_of_nat (unat w div 256 mod 256)) (word_of_nat (unat w mod 256)) = w"
proof -
  have top: "unat w div 16777216 mod 256 = unat w div 16777216"
    using unat_u32_less [of w] by (simp add: less_mult_imp_div_less)
  show ?thesis
    using bytes_of_32 [OF unat_u32_less, of w] unfolding top
    by (simp add: word_unat_eq_iff unat_word_nat_u8 top algebra_simps)
qed

lemma u32_le_to_le:
  "u32_le (u32_to_le w ! 0) (u32_to_le w ! Suc 0) (u32_to_le w ! 2) (u32_to_le w ! 3) = w"
  by (simp add: u32_to_le_def u32_to_be_def u32_le_def nth_Cons')

lemma length_to_le [simp]:
  "length (u16_to_le w) = 2" "length (u32_to_le v) = 4"
  by (simp_all add: u16_to_le_def u32_to_le_def)

lemma length_octets [simp]: "length (v4_octets a) = 4" "length (v6_octets b) = 16"
  by (cases a; simp) (cases b; simp)

lemma ipv6_from_octets_octets [simp]: "ipv6_from_octets (v6_octets a) = a"
  by (cases a) (simp add: ipv6_from_octets_def u16_to_be_def)

end
