(* ===== verification/Pcap_Encode.thy ===== *)
theory Pcap_Encode
  imports Core_Net Rust_Buffers
begin

text \<open>
  \<open>nettrap-pcap/src/pcap/encoding.rs\<close>: a \<open>Packet\<close> (five-tuple and payload) is turned into an IP
  packet with synthesised headers and checksums. An error is a value of \<open>pcap_error\<close>, one
  constructor per message; an index or a slice out of range is a panic. The lemmas treat the
  Internet checksum as a sum modulo 65535 and show that every emitted header and segment verifies.

  \<open>TcpFlags\<close> comes from the \<open>bitflags\<close> crate; its methods are the fields of \<open>flag_ops\<close>, and
  \<open>flag_ops_ok\<close> is what the crate documents about them (all eight bits are named flags).
\<close>

record flag_ops =
  fl_contains :: flag_test
  fl_from_bits_truncate :: "u8 \<Rightarrow> tcp_flags"
  fl_bits :: "tcp_flags \<Rightarrow> u8"
  fl_union :: "tcp_flags \<Rightarrow> tcp_flags \<Rightarrow> tcp_flags"

definition flag_ops_ok :: "flag_ops \<Rightarrow> bool" where
  "flag_ops_ok fl \<longleftrightarrow>
     (\<forall>a b. fl_contains fl a b = (a AND b = b)) \<and> (\<forall>b. fl_from_bits_truncate fl b = b)
     \<and> (\<forall>f. fl_bits fl f = f) \<and> (\<forall>a b. fl_union fl a b = a OR b)"

datatype pcap_error =
    Mixed_endpoints
  | Mixed_icmp
  | Mixed_checksum
  | Icmp_overflow
  | Tcp_overflow
  | Tcp_too_large nat
  | Udp_overflow
  | Udp_too_large nat
  | Ipv4_overflow
  | Ipv4_too_large nat
  | Ipv6_overflow
  | Ipv6_too_large nat
  | Pseudo_too_large nat
  | Pseudo_overflow
  | Timestamp_range int
  | Record_too_large nat
  | Not_open
  | Io_error
  | File_too_short
  | Invalid_magic u32
  | Unsupported_version u16 u16
  | Snaplen_too_large nat
  | Unsupported_linktype u32
  | Too_many_records
  | Length_overflow nat
  | Exceeds_snaplen nat nat nat
  | Original_smaller nat nat nat
  | Truncated_packet nat
  | Nanos_range nat u32
  | Micros_range nat u32
  | Truncated_header nat
  | File_too_large nat
  | Path_not_file
  | Path_empty

section \<open>Checksums\<close>

text \<open>The two loops of \<open>internet_checksum\<close>: the sum over \<open>data.chunks(2)\<close> and the folding of
  the carries.\<close>

fun checksum_words :: "bytes \<Rightarrow> u32 \<Rightarrow> u32" where
  "checksum_words [] s = s"
| "checksum_words [a] s = s + push_bit 8 (ucast a)"
| "checksum_words (a # b # rest) s = checksum_words rest (s + ucast (u16_be a b))"

definition fold_step :: "u32 \<Rightarrow> u32" where
  "fold_step s = (s AND 0xffff) + drop_bit 16 s"

lemma unat_drop_16: "unat (drop_bit 16 s) = unat s div 65536" for s :: u32
  by (simp add: drop_bit_eq_div unat_div)

lemma unat_low_16: "unat (s AND 0xffff) = unat s mod 65536" for s :: u32
proof -
  have "s AND 0xffff = take_bit 16 s" by (simp add: take_bit_eq_mask mask_eq_exp_minus_1)
  then have "unat (s AND 0xffff) = take_bit 16 (unat s)" by (simp only: unsigned_take_bit_eq)
  then show ?thesis by (simp add: take_bit_eq_mod)
qed

lemma unat_fold_step: "unat (fold_step s) = unat s mod 65536 + unat s div 65536"
proof -
  have "unat s div 65536 < 65536"
    using unat_u32_less [of s] by (simp add: less_mult_imp_div_less)
  moreover have "unat s mod 65536 < 65536" by simp
  ultimately have "unat s mod 65536 + unat s div 65536 < 2 ^ 32" by simp
  then show ?thesis
    unfolding fold_step_def by (simp add: unat_plus_if' unat_low_16 unat_drop_16)
qed

lemma high_half_zero: "drop_bit 16 s = 0 \<longleftrightarrow> unat s < 65536" for s :: u32
  by (simp add: word_unat_eq_iff unat_drop_16 div_eq_0_iff)

lemma fold_step_less: "drop_bit 16 s \<noteq> 0 \<Longrightarrow> unat (fold_step s) < unat s"
proof -
  assume "drop_bit 16 s \<noteq> 0"
  then have "1 \<le> unat s div 65536"
    by (simp add: high_half_zero Suc_le_eq div_greater_zero_iff)
  moreover have "unat s = unat s div 65536 * 65536 + unat s mod 65536" by simp
  ultimately show ?thesis unfolding unat_fold_step by linarith
qed

function fold_carries :: "u32 \<Rightarrow> u32" where
  "fold_carries s = (if drop_bit 16 s \<noteq> 0 then fold_carries (fold_step s) else s)"
  by pat_completeness auto
termination
  by (relation "measure unat") (auto dest: fold_step_less)

definition internet_checksum :: "bytes \<Rightarrow> u16" where
  "internet_checksum data =
     (let bytes = u32_to_be (fold_carries (checksum_words data 0)) in
      NOT (u16_be (bytes ! 2) (bytes ! 3)))"

definition checksum_ipv4_pseudo :: "ipv4 \<Rightarrow> ipv4 \<Rightarrow> u8 \<Rightarrow> bytes \<Rightarrow> pcap_error + u16" where
  "checksum_ipv4_pseudo src dst proto segment =
     (if length segment > 65535 then Inl (Pseudo_too_large (length segment))
      else case u16_try_from (length segment) of
        None \<Rightarrow> Inl Pseudo_overflow
      | Some segment_len \<Rightarrow>
          Inr (internet_checksum
            (v4_octets src @ v4_octets dst @ [0, proto] @ u16_to_be segment_len @ segment)))"

definition checksum_ipv6_pseudo :: "ipv6 \<Rightarrow> ipv6 \<Rightarrow> u8 \<Rightarrow> bytes \<Rightarrow> pcap_error + u16" where
  "checksum_ipv6_pseudo src dst proto segment =
     (if length segment > 4294967295 then Inl (Pseudo_too_large (length segment))
      else case u32_try_from (int (length segment)) of
        None \<Rightarrow> Inl Pseudo_overflow
      | Some segment_len \<Rightarrow>
          Inr (internet_checksum
            (v6_octets src @ v6_octets dst @ u32_to_be segment_len @ [0, 0, 0] @ [proto] @ segment)))"

definition transport_checksum :: "packet \<Rightarrow> u8 \<Rightarrow> bytes \<Rightarrow> pcap_error + u16" where
  "transport_checksum packet proto segment =
     (case (src_ip (pkt_five_tuple packet), dst_ip (pkt_five_tuple packet)) of
        (V4 src, V4 dst) \<Rightarrow> checksum_ipv4_pseudo src dst proto segment
      | (V6 src, V6 dst) \<Rightarrow> checksum_ipv6_pseudo src dst proto segment
      | _ \<Rightarrow> Inl Mixed_checksum)"

section \<open>Segments\<close>

definition encode_icmp_segment :: "packet \<Rightarrow> (pcap_error + bytes) rs" where
  "encode_icmp_segment packet =
     (let payload = pkt_payload packet in
      tryr (ok_or Icmp_overflow (checked_add 8 (length payload))) (\<lambda>_.
      case (src_ip (pkt_five_tuple packet), dst_ip (pkt_five_tuple packet)) of
        (V4 _, V4 _) \<Rightarrow>
          let icmp_type = (if is_inbound (pkt_direction packet) then 0 else 8);
              segment = [icmp_type, 0, 0, 0, 0, 0, 0, 0] @ payload;
              checksum = internet_checksum segment
          in do { segment \<leftarrow> copy_from_slice segment 2 4 (u16_to_be checksum); Some (Inr segment) }
      | (V6 _, V6 _) \<Rightarrow>
          let icmp_type = (if is_inbound (pkt_direction packet) then 129 else 128);
              segment = [icmp_type, 0, 0, 0, 0, 0, 0, 0] @ payload
          in tryr (transport_checksum packet 58 segment) (\<lambda>checksum.
               do { segment \<leftarrow> copy_from_slice segment 2 4 (u16_to_be checksum); Some (Inr segment) })
      | _ \<Rightarrow> Some (Inl Mixed_icmp)))"

definition encode_tcp_segment :: "flag_ops \<Rightarrow> packet \<Rightarrow> (pcap_error + bytes) rs" where
  "encode_tcp_segment fl packet =
     (let payload = pkt_payload packet in
      tryr (ok_or Tcp_overflow (checked_add 20 (length payload))) (\<lambda>segment_len.
      if segment_len > 65535 then Some (Inl (Tcp_too_large segment_len))
      else
        let flags = fl_bits fl (case pkt_tcp_flags packet of
              Some flags \<Rightarrow> flags
            | None \<Rightarrow> if payload = [] then ACK else fl_union fl PSH ACK);
            segment = u16_to_be (src_port (pkt_five_tuple packet))
              @ u16_to_be (dst_port (pkt_five_tuple packet)) @ u32_to_be 0 @ u32_to_be 0
              @ [push_bit 4 5] @ [flags] @ u16_to_be 64240 @ u16_to_be 0 @ u16_to_be 0 @ payload
        in tryr (transport_checksum packet 6 segment) (\<lambda>checksum.
             do { segment \<leftarrow> copy_from_slice segment 16 18 (u16_to_be checksum); Some (Inr segment) })))"

definition encode_udp_segment :: "packet \<Rightarrow> (pcap_error + bytes) rs" where
  "encode_udp_segment packet =
     (let payload = pkt_payload packet in
      tryr (ok_or Udp_overflow (checked_add 8 (length payload))) (\<lambda>udp_len.
      if udp_len > 65535 then Some (Inl (Udp_too_large udp_len))
      else tryr (ok_or Udp_overflow (u16_try_from udp_len)) (\<lambda>udp_len.
        let segment = u16_to_be (src_port (pkt_five_tuple packet))
              @ u16_to_be (dst_port (pkt_five_tuple packet)) @ u16_to_be udp_len @ u16_to_be 0 @ payload
        in tryr (transport_checksum packet 17 segment) (\<lambda>checksum.
             let checksum = (if checksum = 0 then 0xffff else checksum) in
             do { segment \<leftarrow> copy_from_slice segment 6 8 (u16_to_be checksum); Some (Inr segment) }))))"

definition encode_transport_segment :: "flag_ops \<Rightarrow> packet \<Rightarrow> (pcap_error + bytes) rs" where
  "encode_transport_segment fl packet =
     (case protocol (pkt_five_tuple packet) of
        Tcp \<Rightarrow> encode_tcp_segment fl packet
      | Udp \<Rightarrow> encode_udp_segment packet
      | Icmp \<Rightarrow> encode_icmp_segment packet
      | Igmp \<Rightarrow> Some (Inr (pkt_payload packet))
      | UnknownProtocol _ \<Rightarrow> Some (Inr (pkt_payload packet)))"

section \<open>IP packets\<close>

definition ip_protocol_for_packet :: "packet \<Rightarrow> bool \<Rightarrow> u8" where
  "ip_protocol_for_packet packet ipv6 =
     (if ipv6 \<and> protocol (pkt_five_tuple packet) = Icmp then 58
      else to_ip_protocol (protocol (pkt_five_tuple packet)))"

definition encode_ipv4_packet :: "packet \<Rightarrow> ipv4 \<Rightarrow> ipv4 \<Rightarrow> bytes \<Rightarrow> (pcap_error + bytes) rs" where
  "encode_ipv4_packet packet src dst transport =
     tryr (ok_or Ipv4_overflow (checked_add 20 (length transport))) (\<lambda>total_len.
     if total_len > 65535 then Some (Inl (Ipv4_too_large total_len))
     else tryr (ok_or Ipv4_overflow (u16_try_from total_len)) (\<lambda>total_len.
       let data = [0x45] @ [0] @ u16_to_be total_len @ u16_to_be 0 @ u16_to_be 0 @ [64]
             @ [ip_protocol_for_packet packet False] @ u16_to_be 0 @ v4_octets src @ v4_octets dst
       in do {
         header \<leftarrow> slice data 0 20;
         let checksum = internet_checksum header in do {
         data \<leftarrow> copy_from_slice data 10 12 (u16_to_be checksum);
         Some (Inr (data @ transport)) } }))"

definition encode_ipv6_packet :: "packet \<Rightarrow> ipv6 \<Rightarrow> ipv6 \<Rightarrow> bytes \<Rightarrow> pcap_error + bytes" where
  "encode_ipv6_packet packet src dst transport =
     (if length transport > 65535 then Inl (Ipv6_too_large (length transport))
      else case u16_try_from (length transport) of
        None \<Rightarrow> Inl Ipv6_overflow
      | Some payload_len \<Rightarrow>
          Inr ([0x60, 0, 0, 0] @ u16_to_be payload_len @ [ip_protocol_for_packet packet True] @ [64]
            @ v6_octets src @ v6_octets dst @ transport))"

definition encode_raw_ip_packet :: "flag_ops \<Rightarrow> packet \<Rightarrow> (pcap_error + bytes) rs" where
  "encode_raw_ip_packet fl packet = do {
     transport \<leftarrow> encode_transport_segment fl packet;
     tryr transport (\<lambda>transport.
     case (src_ip (pkt_five_tuple packet), dst_ip (pkt_five_tuple packet)) of
       (V4 src, V4 dst) \<Rightarrow> encode_ipv4_packet packet src dst transport
     | (V6 src, V6 dst) \<Rightarrow> Some (encode_ipv6_packet packet src dst transport)
     | _ \<Rightarrow> Some (Inl Mixed_endpoints)) }"

definition encode_ip_packet :: "flag_ops \<Rightarrow> packet \<Rightarrow> (pcap_error + bytes) rs" where
  "encode_ip_packet fl packet = encode_raw_ip_packet fl packet"

section \<open>The checksum as a sum modulo 65535\<close>

declare fold_carries.simps [simp del]

text \<open>The sum of the big-endian 16-bit words of the data, an odd byte at the end padded with 0.\<close>

fun words_total :: "bytes \<Rightarrow> nat" where
  "words_total [] = 0"
| "words_total [a] = unat a * 256"
| "words_total (a # b # rest) = unat a * 256 + unat b + words_total rest"

lemma words_total_le: "words_total data \<le> 32768 * (length data + 1)"
proof (induction data rule: words_total.induct)
  case (2 a)
  have "unat a * 256 \<le> 255 * 256" by (intro mult_right_mono) simp_all
  also have "\<dots> \<le> 32768 * (length [a] + 1)" by simp
  finally show ?case by simp
next
  case (3 a b rest)
  have "unat a * 256 + unat b \<le> 65535"
    using unat_u8_le [of a] unat_u8_le [of b] by linarith
  with 3 show ?case by simp
qed simp

lemma words_total_append:
  "even (length xs) \<Longrightarrow> words_total (xs @ ys) = words_total xs + words_total ys"
  by (induction xs rule: words_total.induct) auto

lemma unat_widened:
  "unat (ucast a :: u32) = unat a" "unat (ucast b :: u32) = unat b" for a :: u8 and b :: u16
proof -
  have "unat a < 4294967296" "unat b < 4294967296"
    using unat_u8_less [of a] unat_u16_less [of b] by linarith+
  then show "unat (ucast a :: u32) = unat a" "unat (ucast b :: u32) = unat b"
    by (simp_all add: unsigned_ucast_eq take_bit_nat_eq_self)
qed

lemma unat_checksum_words:
  "unat s + words_total data < 2 ^ 32 \<Longrightarrow> unat (checksum_words data s) = unat s + words_total data"
proof (induction data s rule: checksum_words.induct)
  case (2 a s)
  have a: "unat (push_bit 8 (ucast a) :: u32) = unat a * 256"
  proof -
    have "unat a < 16777216" using unat_u8_less [of a] by linarith
    then show ?thesis by (simp add: push_bit_eq_mult unat_word_ariths unat_widened mult.commute)
  qed
  with 2 show ?case by (simp add: unat_plus_if')
next
  case (3 a b rest s)
  have w: "unat (ucast (u16_be a b) :: u32) = unat a * 256 + unat b"
    by (simp add: unat_widened)
  with 3(2) have step: "unat (s + ucast (u16_be a b)) = unat s + (unat a * 256 + unat b)"
    by (simp add: unat_plus_if')
  then have "unat (checksum_words rest (s + ucast (u16_be a b))) =
      unat (s + ucast (u16_be a b)) + words_total rest"
    using 3(2) by (intro 3(1)) simp
  with step show ?case by simp
qed simp

definition ones_fold :: "nat \<Rightarrow> nat" where
  "ones_fold n = (if n = 0 then 0 else (n - 1) mod 65535 + 1)"

lemma ones_fold_le: "ones_fold n \<le> 65535"
proof -
  have "(n - 1) mod 65535 < 65535" by simp
  then have "(n - 1) mod 65535 + 1 \<le> 65535" by linarith
  then show ?thesis unfolding ones_fold_def by auto
qed

lemma ones_fold_small: "n < 65536 \<Longrightarrow> ones_fold n = n"
  by (simp add: ones_fold_def)

lemma ones_fold_shift: "0 < n \<Longrightarrow> ones_fold (n + 65535 * q) = ones_fold n"
proof -
  assume "0 < n"
  then have "n + 65535 * q - 1 = (n - 1) + 65535 * q" by simp
  then have "(n + 65535 * q - 1) mod 65535 = (n - 1) mod 65535" by (simp only: mod_mult_self2)
  with \<open>0 < n\<close> show ?thesis unfolding ones_fold_def by simp
qed

lemma unat_fold_carries: "unat (fold_carries s) = ones_fold (unat s)"
proof (induction s rule: fold_carries.induct)
  case (1 s)
  show ?case
  proof (cases "drop_bit 16 s = 0")
    case True
    then show ?thesis by (simp add: fold_carries.simps [of s] high_half_zero ones_fold_small)
  next
    case False
    let ?n = "unat s"
    have "?n = (?n mod 65536 + ?n div 65536) + 65535 * (?n div 65536)"
      using div_mult_mod_eq [of ?n 65536] by linarith
    moreover have "0 < ?n mod 65536 + ?n div 65536"
      using False by (simp add: high_half_zero div_greater_zero_iff)
    ultimately have "ones_fold ?n = ones_fold (?n mod 65536 + ?n div 65536)"
      using ones_fold_shift [of "?n mod 65536 + ?n div 65536" "?n div 65536"] by simp
    with False 1 show ?thesis by (simp add: fold_carries.simps [of s] unat_fold_step)
  qed
qed

lemma unat_not_u16: "unat (NOT w) = 65535 - unat w" for w :: u16
proof -
  have "NOT w = - 1 - w" by (simp add: not_eq_complement)
  then show ?thesis
    using unat_sub [of w "- 1"] by (simp add: unat_max_word)
qed

text \<open>Data short enough that the 32-bit sum cannot wrap: 100,000 bytes are enough for any IP packet
  with its pseudo-header.\<close>

lemma unat_internet_checksum:
  assumes "length data \<le> 100000"
  shows "unat (internet_checksum data) = 65535 - ones_fold (words_total data)"
proof -
  have "words_total data < 2 ^ 32"
    using words_total_le [of data] assms by simp
  then have total: "unat (fold_carries (checksum_words data 0)) = ones_fold (words_total data)"
    by (simp add: unat_fold_carries unat_checksum_words)
  let ?f = "fold_carries (checksum_words data 0)"
  have "unat ?f < 65536" unfolding total using ones_fold_le [of "words_total data"] by simp
  then have "unat (u16_be (u32_to_be ?f ! 2) (u32_to_be ?f ! 3)) = unat ?f"
    by (simp add: u32_to_be_def unat_word_nat_u8 nth_Cons' bytes_of_16)
  with total show ?thesis by (simp add: internet_checksum_def Let_def unat_not_u16)
qed

lemma checksum_filled:
  assumes "even (length pre)" "length (pre @ [0, 0] @ post) \<le> 100000"
    and "c = internet_checksum (pre @ [0, 0] @ post) \<or>
      c = 0xffff \<and> internet_checksum (pre @ [0, 0] @ post) = 0"
  shows "internet_checksum (pre @ u16_to_be c @ post) = 0"
proof -
  let ?S = "words_total (pre @ [0, 0] @ post)"
  have total: "words_total (pre @ u16_to_be c @ post) = ?S + unat c"
    using assms(1) be_nat_u16_to_be [of c]
    by (simp add: words_total_append u16_to_be_def unat_word_nat_u8)
  have old: "unat (internet_checksum (pre @ [0, 0] @ post)) = 65535 - ones_fold ?S"
    using assms(2) by (rule unat_internet_checksum)
  have "ones_fold (?S + unat c) = 65535"
  proof (cases "?S = 0")
    case True
    have "unat c = 65535" using assms(3) old True by (auto simp: ones_fold_def)
    then show ?thesis unfolding True by (simp add: ones_fold_def)
  next
    case False
    define r where "r = (?S - 1) mod 65535"
    define q where "q = (?S - 1) div 65535"
    have S: "?S = 65535 * q + r + 1" "r < 65535" "ones_fold ?S = r + 1"
      using False by (simp_all add: r_def q_def ones_fold_def)
    have "unat c = 65534 - r \<or> unat c = 65535 \<and> r = 65534"
      using assms(3) old S by (auto simp: word_unat_eq_iff)
    then have "?S + unat c = 65535 + 65535 * q \<or> ?S + unat c = 65535 + 65535 * Suc q"
      using S by auto
    then show ?thesis
      using ones_fold_shift [of 65535 q] ones_fold_shift [of 65535 "Suc q"] by (auto simp: ones_fold_def)
  qed
  moreover have "length (pre @ u16_to_be c @ post) \<le> 100000" using assms(2) by simp
  ultimately show ?thesis
    by (simp add: word_unat_eq_iff unat_internet_checksum total del: length_append)
qed

section \<open>Encoded segments\<close>

text \<open>The bytes of a segment before its checksum and after it.\<close>

definition tcp_flags_byte :: "flag_ops \<Rightarrow> packet \<Rightarrow> u8" where
  "tcp_flags_byte fl packet = fl_bits fl (case pkt_tcp_flags packet of
     Some flags \<Rightarrow> flags
   | None \<Rightarrow> if pkt_payload packet = [] then ACK else fl_union fl PSH ACK)"

definition port_bytes :: "packet \<Rightarrow> bytes" where
  "port_bytes packet =
     u16_to_be (src_port (pkt_five_tuple packet)) @ u16_to_be (dst_port (pkt_five_tuple packet))"

definition tcp_pre :: "flag_ops \<Rightarrow> packet \<Rightarrow> bytes" where
  "tcp_pre fl packet =
     port_bytes packet @ [0, 0, 0, 0, 0, 0, 0, 0, 0x50, tcp_flags_byte fl packet, 0xFA, 0xF0]"

definition tcp_post :: "packet \<Rightarrow> bytes" where
  "tcp_post packet = [0, 0] @ pkt_payload packet"

definition udp_pre :: "packet \<Rightarrow> bytes" where
  "udp_pre packet = port_bytes packet @ u16_to_be (word_of_nat (8 + length (pkt_payload packet)))"

definition icmp_pre :: "packet \<Rightarrow> bytes" where
  "icmp_pre packet =
     [case src_ip (pkt_five_tuple packet) of
        V4 _ \<Rightarrow> if is_inbound (pkt_direction packet) then 0 else 8
      | V6 _ \<Rightarrow> if is_inbound (pkt_direction packet) then 129 else 128, 0]"

definition icmp_post :: "packet \<Rightarrow> bytes" where
  "icmp_post packet = [0, 0, 0, 0] @ pkt_payload packet"

lemma length_pre [simp]:
  "length (tcp_pre fl p) = 16" "length (udp_pre p) = 6" "length (icmp_pre p) = 2"
  "length (port_bytes p) = 4"
  by (simp_all add: tcp_pre_def udp_pre_def icmp_pre_def port_bytes_def)

lemma length_post [simp]:
  "length (tcp_post p) = 2 + length (pkt_payload p)" "length (icmp_post p) = 4 + length (pkt_payload p)"
  by (simp_all add: tcp_post_def icmp_post_def)

lemma copy_checksum:
  "length pre = a \<Longrightarrow> b = a + 2 \<Longrightarrow>
     copy_from_slice (pre @ x # y # post) a b (u16_to_be c) = Some (pre @ u16_to_be c @ post)"
  by (simp add: copy_from_slice_Some)

lemma usize_max_ge: "n \<le> 100000 \<Longrightarrow> n \<le> usize_max"
  by (simp add: usize_max_def)

lemma u32_to_be_0: "u32_to_be 0 = [0, 0, 0, 0]" "u16_to_be 0 = [0, 0]" "u16_to_be 64240 = [0xFA, 0xF0]"
  by (simp_all add: u32_to_be_def u16_to_be_def)

lemma encode_tcp_segment_eq:
  "encode_tcp_segment fl p =
     (let n = 20 + length (pkt_payload p) in
      if n > usize_max then Some (Inl Tcp_overflow)
      else if n > 65535 then Some (Inl (Tcp_too_large n))
      else tryr (transport_checksum p 6 (tcp_pre fl p @ [0, 0] @ tcp_post p))
        (\<lambda>c. Some (Inr (tcp_pre fl p @ u16_to_be c @ tcp_post p))))"
proof -
  have seg: "u16_to_be (src_port (pkt_five_tuple p)) @ u16_to_be (dst_port (pkt_five_tuple p))
      @ u32_to_be 0 @ u32_to_be 0 @ [push_bit 4 5] @ [tcp_flags_byte fl p] @ u16_to_be 64240
      @ u16_to_be 0 @ u16_to_be 0 @ pkt_payload p = tcp_pre fl p @ [0, 0] @ tcp_post p"
    by (simp add: tcp_pre_def tcp_post_def port_bytes_def u32_to_be_0)
  show ?thesis
    unfolding encode_tcp_segment_def Let_def tcp_flags_byte_def [symmetric] seg
    by (cases "transport_checksum p 6 (tcp_pre fl p @ [0, 0] @ tcp_post p)")
      (auto simp: checked_add_def copy_checksum)
qed

lemma encode_udp_segment_eq:
  "encode_udp_segment p =
     (let n = 8 + length (pkt_payload p) in
      if n > usize_max then Some (Inl Udp_overflow)
      else if n > 65535 then Some (Inl (Udp_too_large n))
      else tryr (transport_checksum p 17 (udp_pre p @ [0, 0] @ pkt_payload p))
        (\<lambda>c. Some (Inr (udp_pre p @ u16_to_be (if c = 0 then 0xffff else c) @ pkt_payload p))))"
proof -
  have seg: "u16_to_be (src_port (pkt_five_tuple p)) @ u16_to_be (dst_port (pkt_five_tuple p))
      @ u16_to_be (word_of_nat (8 + length (pkt_payload p))) @ u16_to_be 0 @ pkt_payload p =
      udp_pre p @ [0, 0] @ pkt_payload p"
    by (simp add: udp_pre_def port_bytes_def u32_to_be_0)
  show ?thesis
    unfolding encode_udp_segment_def Let_def
    by (cases "transport_checksum p 17 (udp_pre p @ [0, 0] @ pkt_payload p)")
      (auto simp: checked_add_def copy_checksum u16_try_from_def seg simp del: of_nat_add)
qed

lemma encode_icmp_segment_eq:
  "encode_icmp_segment p =
     (if 8 + length (pkt_payload p) > usize_max then Some (Inl Icmp_overflow)
      else let seg = icmp_pre p @ [0, 0] @ icmp_post p in
        case (src_ip (pkt_five_tuple p), dst_ip (pkt_five_tuple p)) of
          (V4 _, V4 _) \<Rightarrow> Some (Inr (icmp_pre p @ u16_to_be (internet_checksum seg) @ icmp_post p))
        | (V6 _, V6 _) \<Rightarrow> tryr (transport_checksum p 58 seg)
            (\<lambda>c. Some (Inr (icmp_pre p @ u16_to_be c @ icmp_post p)))
        | _ \<Rightarrow> Some (Inl Mixed_icmp))"
proof -
  have copy: "copy_from_slice (t # 0 # 0 # 0 # 0 # 0 # 0 # 0 # pkt_payload p) 2 4 (u16_to_be c) =
      Some (t # 0 # u16_to_be c @ icmp_post p)" for t c
    using copy_checksum [of "[t, 0]" 2 4 0 0 "icmp_post p" c] by (simp add: icmp_post_def)
  show ?thesis
    by (auto simp: encode_icmp_segment_def Let_def checked_add_def copy icmp_pre_def icmp_post_def
        tryr_def split: ip_addr.splits sum.splits)
qed

section \<open>Checksums of the emitted bytes\<close>

lemma checksum_ipv4_pseudo_filled:
  assumes "checksum_ipv4_pseudo s d k (pre @ [0, 0] @ post) = Inr c" "even (length pre)"
    and "c' = c \<or> c' = 0xffff \<and> c = 0"
  shows "checksum_ipv4_pseudo s d k (pre @ u16_to_be c' @ post) = Inr 0"
proof -
  let ?n = "length pre + (2 + length post)"
  let ?h = "v4_octets s @ v4_octets d @ [0, k] @ u16_to_be (word_of_nat ?n) @ pre"
  have n: "?n \<le> 65535" and c: "c = internet_checksum (?h @ [0, 0] @ post)"
    using assms(1) by (auto simp: checksum_ipv4_pseudo_def u16_try_from_def split: if_splits)
  have "internet_checksum (?h @ u16_to_be c' @ post) = 0"
    using assms(2,3) n c by (intro checksum_filled) auto
  with n show ?thesis by (simp add: checksum_ipv4_pseudo_def u16_try_from_def)
qed

lemma checksum_ipv6_pseudo_filled:
  assumes "checksum_ipv6_pseudo s d k (pre @ [0, 0] @ post) = Inr c" "even (length pre)"
    and "c' = c \<or> c' = 0xffff \<and> c = 0" "length pre + length post \<le> 65535"
  shows "checksum_ipv6_pseudo s d k (pre @ u16_to_be c' @ post) = Inr 0"
proof -
  let ?n = "length pre + (2 + length post)"
  let ?h = "v6_octets s @ v6_octets d @ u32_to_be (word_of_int (int ?n)) @ [0, 0, 0, k] @ pre"
  have c: "c = internet_checksum (?h @ [0, 0] @ post)"
    using assms(1) by (auto simp: checksum_ipv6_pseudo_def u32_try_from_def split: if_splits)
  have "internet_checksum (?h @ u16_to_be c' @ post) = 0"
    using assms(2-4) c by (intro checksum_filled) auto
  with assms(4) show ?thesis by (simp add: checksum_ipv6_pseudo_def u32_try_from_def)
qed

lemma transport_checksum_filled:
  assumes "transport_checksum p k (pre @ [0, 0] @ post) = Inr c" "even (length pre)"
    and "c' = c \<or> c' = 0xffff \<and> c = 0" "length pre + length post \<le> 65535"
  shows "transport_checksum p k (pre @ u16_to_be c' @ post) = Inr 0"
  using assms checksum_ipv4_pseudo_filled checksum_ipv6_pseudo_filled
  unfolding transport_checksum_def by (fastforce split: ip_addr.splits)

definition ipv4_pre :: "packet \<Rightarrow> nat \<Rightarrow> bytes" where
  "ipv4_pre packet total_len =
     [0x45, 0] @ u16_to_be (word_of_nat total_len) @ [0, 0, 0, 0, 64, ip_protocol_for_packet packet False]"

lemma length_ipv4_pre [simp]: "length (ipv4_pre p n) = 10"
  by (simp add: ipv4_pre_def)

lemma encode_ipv4_packet_eq:
  "encode_ipv4_packet p s d t =
     (let n = 20 + length t; hosts = v4_octets s @ v4_octets d in
      if n > usize_max then Some (Inl Ipv4_overflow)
      else if n > 65535 then Some (Inl (Ipv4_too_large n))
      else Some (Inr (ipv4_pre p n @ u16_to_be (internet_checksum (ipv4_pre p n @ [0, 0] @ hosts))
        @ hosts @ t)))"
proof -
  have header: "0x45 # 0 # u16_to_be (word_of_nat n) @ u16_to_be 0 @ u16_to_be 0 @ 64
      # ip_protocol_for_packet p False # u16_to_be 0 @ xs = ipv4_pre p n @ 0 # 0 # xs" for n xs
    by (simp add: ipv4_pre_def u32_to_be_0)
  have copy: "copy_from_slice (ipv4_pre p n @ [0, 0] @ v4_octets s @ v4_octets d) 10 12 (u16_to_be c) =
      Some (ipv4_pre p n @ u16_to_be c @ v4_octets s @ v4_octets d)" for n c
    by (simp add: copy_checksum)
  show ?thesis
    unfolding encode_ipv4_packet_def Let_def
    by (auto simp: checked_add_def u16_try_from_def header copy [simplified] simp del: of_nat_add)
qed

lemma encode_transport_segment_returns: "wp (encode_transport_segment fl p) (\<lambda>_. True)"
  by (auto simp: wp_def encode_transport_segment_def encode_tcp_segment_eq encode_udp_segment_eq
      encode_icmp_segment_eq Let_def tryr_def split: protocol.split ip_addr.split sum.split)

lemma encode_raw_ip_packet_returns: "wp (encode_raw_ip_packet fl p) (\<lambda>_. True)"
  unfolding encode_raw_ip_packet_def wp_bind
  by (rule wp_call [OF encode_transport_segment_returns])
    (auto simp: wp_def encode_ipv4_packet_eq Let_def tryr_def split: ip_addr.split sum.split)

lemma encode_raw_ip_packet_Ok:
  assumes "encode_raw_ip_packet fl p = Some (Inr data)"
  obtains s d t where "src_ip (pkt_five_tuple p) = V4 s" "dst_ip (pkt_five_tuple p) = V4 d"
      "encode_transport_segment fl p = Some (Inr t)" "20 + length t \<le> 65535"
      "data = ipv4_pre p (20 + length t)
        @ u16_to_be (internet_checksum (ipv4_pre p (20 + length t) @ [0, 0] @ v4_octets s @ v4_octets d))
        @ v4_octets s @ v4_octets d @ t"
  | s d t where "src_ip (pkt_five_tuple p) = V6 s" "dst_ip (pkt_five_tuple p) = V6 d"
      "encode_transport_segment fl p = Some (Inr t)" "length t \<le> 65535"
      "data = [0x60, 0, 0, 0] @ u16_to_be (word_of_nat (length t))
        @ [ip_protocol_for_packet p True, 64] @ v6_octets s @ v6_octets d @ t"
proof -
  from assms obtain t where t: "encode_transport_segment fl p = Some (Inr t)"
    and rest: "(case (src_ip (pkt_five_tuple p), dst_ip (pkt_five_tuple p)) of
       (V4 src, V4 dst) \<Rightarrow> encode_ipv4_packet p src dst t
     | (V6 src, V6 dst) \<Rightarrow> Some (encode_ipv6_packet p src dst t)
     | _ \<Rightarrow> Some (Inl Mixed_endpoints)) = Some (Inr data)"
    by (auto simp: encode_raw_ip_packet_def bind_eq_Some_conv tryr_Inr_iff)
  from rest show ?thesis
  proof (cases "src_ip (pkt_five_tuple p)"; cases "dst_ip (pkt_five_tuple p)")
    fix s d assume "src_ip (pkt_five_tuple p) = V4 s" "dst_ip (pkt_five_tuple p) = V4 d"
    with rest t that(1) [of s d t] show ?thesis
      by (auto simp: encode_ipv4_packet_eq Let_def split: if_splits)
  next
    fix s d assume "src_ip (pkt_five_tuple p) = V6 s" "dst_ip (pkt_five_tuple p) = V6 d"
    with rest t that(2) [of s d t] show ?thesis
      by (auto simp: encode_ipv6_packet_def u16_try_from_def split: if_splits)
  qed auto
qed

lemma transport_segment_checksum:
  assumes "encode_transport_segment fl p = Some (Inr t)" "length t \<le> 65535"
    and "protocol (pkt_five_tuple p) \<in> {Tcp, Udp}"
  shows "transport_checksum p (ip_protocol_for_packet p v6) t = Inr 0"
proof (cases "protocol (pkt_five_tuple p) = Tcp")
  case True
  with assms(1) obtain c where
    "transport_checksum p 6 (tcp_pre fl p @ [0, 0] @ tcp_post p) = Inr c"
    "t = tcp_pre fl p @ u16_to_be c @ tcp_post p"
    by (auto simp: encode_transport_segment_def encode_tcp_segment_eq Let_def tryr_Inr_iff split: if_splits)
  with True assms(2) show ?thesis
    using transport_checksum_filled [of p 6 "tcp_pre fl p" "tcp_post p" c c]
    by (simp add: ip_protocol_for_packet_def)
next
  case False
  with assms(3) have udp: "protocol (pkt_five_tuple p) = Udp" by simp
  with assms(1) obtain c where
    "transport_checksum p 17 (udp_pre p @ [0, 0] @ pkt_payload p) = Inr c"
    "t = udp_pre p @ u16_to_be (if c = 0 then 0xffff else c) @ pkt_payload p"
    by (auto simp: encode_transport_segment_def encode_udp_segment_eq Let_def tryr_Inr_iff split: if_splits)
  with udp assms(2) show ?thesis
    using transport_checksum_filled [of p 17 "udp_pre p" "pkt_payload p" c "if c = 0 then 0xffff else c"]
    by (simp add: ip_protocol_for_packet_def)
qed

lemma icmp_segment_checksum:
  assumes "encode_transport_segment fl p = Some (Inr t)" "length t \<le> 65535"
    and "protocol (pkt_five_tuple p) = Icmp"
  shows "(case src_ip (pkt_five_tuple p) of
      V4 _ \<Rightarrow> internet_checksum t = 0 | V6 _ \<Rightarrow> transport_checksum p 58 t = Inr 0)"
proof -
  let ?seg = "icmp_pre p @ [0, 0] @ icmp_post p"
  from assms(1,3) obtain c where t: "t = icmp_pre p @ u16_to_be c @ icmp_post p"
    and c: "case src_ip (pkt_five_tuple p) of
      V4 _ \<Rightarrow> c = internet_checksum ?seg | V6 _ \<Rightarrow> transport_checksum p 58 ?seg = Inr c"
    by (auto simp: encode_transport_segment_def encode_icmp_segment_eq Let_def tryr_Inr_iff
        split: if_splits ip_addr.splits)
  show ?thesis
  proof (cases "src_ip (pkt_five_tuple p)")
    case (V4 s)
    have "internet_checksum (icmp_pre p @ u16_to_be c @ icmp_post p) = 0"
      using V4 c assms(2) t by (intro checksum_filled) auto
    with V4 t show ?thesis by simp
  next
    case (V6 s)
    with c t assms(2) show ?thesis
      using transport_checksum_filled [of p 58 "icmp_pre p" "icmp_post p" c c] by simp
  qed
qed

lemma udp_checksum_nonzero:
  assumes "encode_transport_segment fl p = Some (Inr t)" "protocol (pkt_five_tuple p) = Udp"
  shows "u16_be (t ! 6) (t ! 7) \<noteq> 0"
proof -
  obtain c0 where "transport_checksum p 17 (udp_pre p @ [0, 0] @ pkt_payload p) = Inr c0"
    and t: "t = udp_pre p @ u16_to_be (if c0 = 0 then 0xffff else c0) @ pkt_payload p"
    using assms by (auto simp: encode_transport_segment_def encode_udp_segment_eq Let_def tryr_Inr_iff
        split: if_splits)
  define c where "c = (if c0 = 0 then 0xffff else c0)"
  have "c \<noteq> 0" by (simp add: c_def)
  have "t ! 6 = u16_to_be c ! 0" "t ! 7 = u16_to_be c ! Suc 0"
    unfolding t c_def [symmetric] by (simp_all add: nth_append)
  with \<open>c \<noteq> 0\<close> show ?thesis by simp
qed


text \<open>A datagram from 10.0.0.1 to a DNS port, with the bit operations of the \<open>bitflags\<close> crate.\<close>

definition demo_flags :: flag_ops where
  "demo_flags = \<lparr>fl_contains = \<lambda>a b. a AND b = b, fl_from_bits_truncate = \<lambda>b. b, fl_bits = \<lambda>f. f,
     fl_union = \<lambda>a b. a OR b\<rparr>"

definition demo_datagram :: packet where
  "demo_datagram = packet_new 1 1000 (five_tuple_new (V4 (Ipv4 10 0 0 1)) (V4 (Ipv4 10 0 0 2)) 4444 53 Udp)
     PktOutbound [0x61]"

definition demo_bytes :: bytes where
  "demo_bytes = [0x45, 0, 0, 0x1d, 0, 0, 0, 0, 0x40, 0x11, 0x66, 0xce, 10, 0, 0, 1, 10, 0, 0, 2,
     0x11, 0x5c, 0, 0x35, 0, 9, 0x79, 0x48, 0x61]"

lemma demo_flags_ok: "flag_ops_ok demo_flags"
  by (simp add: flag_ops_ok_def demo_flags_def)

lemma demo_encoded: "encode_raw_ip_packet fl demo_datagram = Some (Inr demo_bytes)"
  by (simp add: encode_raw_ip_packet_def encode_transport_segment_def encode_udp_segment_eq
      encode_ipv4_packet_eq demo_datagram_def packet_new_def five_tuple_new_def Let_def usize_max_def
      transport_checksum_def checksum_ipv4_pseudo_def u16_try_from_def udp_pre_def port_bytes_def
      ipv4_pre_def ip_protocol_for_packet_def u16_to_be_def u16_be_def internet_checksum_def
      u32_to_be_def fold_carries.simps fold_step_def demo_bytes_def)


end
