(* ===== verification/Pcap_File.thy ===== *)
theory Pcap_File
  imports Pcap_Encode
begin

text \<open>
  \<open>nettrap-pcap/src/pcap.rs\<close>: the capture file writer and reader. The writer's file is the bytes
  written so far; \<open>fault\<close> says after how many bytes the write calls of an operation fail (\<open>None\<close>: no
  failure). The reader gets the outcome of the file operations as a \<open>pcap_source\<close>.

  Timestamps come from the \<open>chrono\<close> crate; the functions used are the fields of \<open>chrono_ops\<close>, and
  \<open>chrono_ok\<close> is what the crate documents about them for a time in nanoseconds since the epoch.
  \<open>Packet::new\<close> draws an identifier and reads the clock; both come from \<open>fresh\<close>, indexed by the
  number of the record.
\<close>

record chrono_ops =
  ch_timestamp :: "timestamp \<Rightarrow> int"
  ch_subsec_micros :: "timestamp \<Rightarrow> u32"
  ch_from_timestamp :: "int \<Rightarrow> u32 \<Rightarrow> timestamp option"
  ch_unix_epoch :: timestamp

definition chrono_ok :: "chrono_ops \<Rightarrow> bool" where
  "chrono_ok ch \<longleftrightarrow>
     (\<forall>t. ch_timestamp ch t = t div 1000000000)
     \<and> (\<forall>t. uint (ch_subsec_micros ch t) = t mod 1000000000 div 1000)
     \<and> (\<forall>s n. 0 \<le> s \<and> s < 4294967296 \<and> uint n < 1000000000 \<longrightarrow>
          ch_from_timestamp ch s n = Some (s * 1000000000 + uint n))"

definition PCAP_MAGIC :: u32 where "PCAP_MAGIC = 0xa1b2c3d4"
definition PCAP_VERSION_MAJOR :: u16 where "PCAP_VERSION_MAJOR = 2"
definition PCAP_VERSION_MINOR :: u16 where "PCAP_VERSION_MINOR = 4"
definition PCAP_SNAPLEN :: u32 where "PCAP_SNAPLEN = 65535"
definition PCAP_LINKTYPE_ETHERNET :: u32 where "PCAP_LINKTYPE_ETHERNET = 1"
definition PCAP_LINKTYPE_NULL :: u32 where "PCAP_LINKTYPE_NULL = 12"
definition PCAP_LINKTYPE_LOOP :: u32 where "PCAP_LINKTYPE_LOOP = 14"
definition PCAP_LINKTYPE_RAW :: u32 where "PCAP_LINKTYPE_RAW = 101"
definition PCAP_LINKTYPE_LINUX_SLL :: u32 where "PCAP_LINKTYPE_LINUX_SLL = 113"
definition PCAP_LINKTYPE_IPV4 :: u32 where "PCAP_LINKTYPE_IPV4 = 228"
definition PCAP_LINKTYPE_IPV6 :: u32 where "PCAP_LINKTYPE_IPV6 = 229"
definition PCAP_MAGIC_SWAPPED :: u32 where "PCAP_MAGIC_SWAPPED = 0xd4c3b2a1"
definition PCAP_MAGIC_NANO :: u32 where "PCAP_MAGIC_NANO = 0xa1b23c4d"
definition PCAP_MAGIC_NANO_SWAPPED :: u32 where "PCAP_MAGIC_NANO_SWAPPED = 0x4d3cb2a1"
definition MAX_PCAP_READ_BYTES :: nat where "MAX_PCAP_READ_BYTES = 512 * 1024 * 1024"
definition MAX_PCAP_RECORDS :: nat where "MAX_PCAP_RECORDS = 100000"
definition MAX_PCAP_RECORD_BYTES :: nat where "MAX_PCAP_RECORD_BYTES = 65535"
definition MAX_VLAN_DEPTH :: nat where "MAX_VLAN_DEPTH = 8"

lemmas linktype_defs = PCAP_LINKTYPE_ETHERNET_def PCAP_LINKTYPE_NULL_def PCAP_LINKTYPE_LOOP_def
  PCAP_LINKTYPE_RAW_def PCAP_LINKTYPE_LINUX_SLL_def PCAP_LINKTYPE_IPV4_def PCAP_LINKTYPE_IPV6_def

section \<open>PcapWriter\<close>

record pcap_writer =
  pw_file :: "bytes option"
  pw_path :: bytes
  pw_enabled :: bool

definition pcap_writer_new :: "bytes \<Rightarrow> pcap_error + pcap_writer" where
  "pcap_writer_new path =
     (if path = [] then Inl Path_empty
      else Inr \<lparr>pw_file = None, pw_path = path, pw_enabled = False\<rparr>)"

definition pcap_enable :: "pcap_writer \<Rightarrow> pcap_writer" where
  "pcap_enable w = w\<lparr>pw_enabled := True\<rparr>"

definition pcap_disable :: "pcap_writer \<Rightarrow> pcap_writer" where
  "pcap_disable w = w\<lparr>pw_enabled := False\<rparr>"

text \<open>Consecutive \<open>write_all\<close> calls of one operation, the first failure ending it.\<close>

definition write_all :: "nat option \<Rightarrow> bytes \<Rightarrow> pcap_writer \<Rightarrow> (pcap_error + unit) \<times> pcap_writer" where
  "write_all fault data w =
     (case pw_file w of
        None \<Rightarrow> (Inr (), w)
      | Some f \<Rightarrow>
          (case fault of
             None \<Rightarrow> (Inr (), w\<lparr>pw_file := Some (f @ data)\<rparr>)
           | Some n \<Rightarrow>
               if length data \<le> n then (Inr (), w\<lparr>pw_file := Some (f @ data)\<rparr>)
               else (Inl Io_error, w\<lparr>pw_file := Some (f @ take n data)\<rparr>)))"

definition global_header :: bytes where
  "global_header = u32_to_le PCAP_MAGIC @ u16_to_le PCAP_VERSION_MAJOR @ u16_to_le PCAP_VERSION_MINOR
     @ u32_to_le 0 @ u32_to_le 0 @ u32_to_le PCAP_SNAPLEN @ u32_to_le PCAP_LINKTYPE_RAW"

definition write_global_header :: "nat option \<Rightarrow> pcap_writer \<Rightarrow> (pcap_error + unit) \<times> pcap_writer" where
  "write_global_header fault w = write_all fault global_header w"

text \<open>\<open>created\<close>: the output file could be created (it is then empty).\<close>

definition pcap_open ::
    "bool \<Rightarrow> nat option \<Rightarrow> pcap_writer \<Rightarrow> (pcap_error + unit) \<times> pcap_writer" where
  "pcap_open created fault w =
     (if \<not> created then (Inl Io_error, w)
      else write_global_header fault (w\<lparr>pw_file := Some [], pw_enabled := True\<rparr>))"

text \<open>\<open>flush\<close> changes nothing of the bytes written; \<open>flushed\<close> is its outcome on an open file.\<close>

definition pcap_flush :: "bool \<Rightarrow> pcap_writer \<Rightarrow> pcap_error + unit" where
  "pcap_flush flushed w = (if pw_file w \<noteq> None \<and> \<not> flushed then Inl Io_error else Inr ())"

definition pcap_close :: "bool \<Rightarrow> pcap_writer \<Rightarrow> (pcap_error + unit) \<times> pcap_writer" where
  "pcap_close flushed w =
     (case pcap_flush flushed w of
        Inl e \<Rightarrow> (Inl e, w)
      | Inr () \<Rightarrow> (Inr (), w\<lparr>pw_file := None, pw_enabled := False\<rparr>))"

definition pcap_record_len :: "usize \<Rightarrow> pcap_error + u32" where
  "pcap_record_len len =
     (if len > MAX_PCAP_RECORD_BYTES then Inl (Record_too_large len)
      else case u32_try_from (int len) of None \<Rightarrow> Inl (Record_too_large len) | Some n \<Rightarrow> Inr n)"

definition pcap_timestamp_seconds :: "chrono_ops \<Rightarrow> timestamp \<Rightarrow> pcap_error + u32" where
  "pcap_timestamp_seconds ch t =
     (case u32_try_from (ch_timestamp ch t) of
        None \<Rightarrow> Inl (Timestamp_range (ch_timestamp ch t))
      | Some n \<Rightarrow> Inr n)"

definition write_packet ::
    "flag_ops \<Rightarrow> chrono_ops \<Rightarrow> nat option \<Rightarrow> packet \<Rightarrow> pcap_writer
       \<Rightarrow> ((pcap_error + unit) \<times> pcap_writer) rs" where
  "write_packet fl ch fault packet w =
     (if \<not> pw_enabled w then Some (Inr (), w)
      else if pw_file w = None then Some (Inl Not_open, w)
      else case pcap_timestamp_seconds ch (pkt_timestamp packet) of
        Inl e \<Rightarrow> Some (Inl e, w)
      | Inr ts_sec \<Rightarrow> do {
          let ts_usec = ch_subsec_micros ch (pkt_timestamp packet);
          encoded \<leftarrow> encode_raw_ip_packet fl packet;
          (case encoded of
             Inl e \<Rightarrow> Some (Inl e, w)
           | Inr data \<Rightarrow>
               (case pcap_record_len (length data) of
                  Inl e \<Rightarrow> Some (Inl e, w)
                | Inr incl_len \<Rightarrow>
                    let orig_len = incl_len in
                    Some (write_all fault (u32_to_le ts_sec @ u32_to_le ts_usec @ u32_to_le incl_len
                      @ u32_to_le orig_len @ data) w))) })"

definition write_raw ::
    "chrono_ops \<Rightarrow> timestamp \<Rightarrow> nat option \<Rightarrow> bytes \<Rightarrow> pcap_writer \<Rightarrow> (pcap_error + unit) \<times> pcap_writer" where
  "write_raw ch now fault data w =
     (if \<not> pw_enabled w then (Inr (), w)
      else if pw_file w = None then (Inl Not_open, w)
      else case pcap_timestamp_seconds ch now of
        Inl e \<Rightarrow> (Inl e, w)
      | Inr ts_sec \<Rightarrow>
          (case pcap_record_len (length data) of
             Inl e \<Rightarrow> (Inl e, w)
           | Inr len \<Rightarrow>
               write_all fault (u32_to_le ts_sec @ u32_to_le (ch_subsec_micros ch now) @ u32_to_le len
                 @ u32_to_le len @ data) w))"

definition write_packet_pair ::
    "flag_ops \<Rightarrow> chrono_ops \<Rightarrow> nat option \<times> nat option \<Rightarrow> packet \<Rightarrow> packet \<Rightarrow> pcap_writer
       \<Rightarrow> ((pcap_error + unit) \<times> pcap_writer) rs" where
  "write_packet_pair fl ch faults original mangled w = do {
     (r, w) \<leftarrow> write_packet fl ch (fst faults) original w;
     (case r of
        Inl e \<Rightarrow> Some (Inl e, w)
      | Inr () \<Rightarrow> write_packet fl ch (snd faults) mangled w) }"

section \<open>Directions\<close>

fun is_local_address :: "ip_addr \<Rightarrow> bool" where
  "is_local_address (V4 ip) \<longleftrightarrow> v4_is_loopback ip \<or> v4_is_private ip \<or> v4_is_link_local ip"
| "is_local_address (V6 ip) \<longleftrightarrow>
     v6_is_loopback ip \<or>
     (case to_ipv4_mapped ip of
        Some mapped \<Rightarrow> v4_is_private mapped \<or> v4_is_link_local mapped \<or> v4_is_loopback mapped
      | None \<Rightarrow>
          let octets = v6_octets ip in
          octets ! 0 AND 0xFE = 0xFC \<or> (octets ! 0 = 0xFE \<and> octets ! 1 AND 0xC0 = 0x80))"

definition infer_direction :: "ip_addr \<Rightarrow> ip_addr \<Rightarrow> packet_direction" where
  "infer_direction src dst =
     (case (is_local_address src, is_local_address dst) of
        (True, False) \<Rightarrow> PktOutbound
      | (False, True) \<Rightarrow> PktInbound
      | _ \<Rightarrow> PktUnknown)"

definition infer_tcp_direction :: "flag_ops \<Rightarrow> ip_addr \<Rightarrow> ip_addr \<Rightarrow> tcp_flags \<Rightarrow> packet_direction" where
  "infer_tcp_direction fl src dst flags =
     (if fl_contains fl flags SYN \<and> \<not> fl_contains fl flags ACK then PktOutbound
      else if fl_contains fl flags SYN \<and> fl_contains fl flags ACK then PktInbound
      else infer_direction src dst)"

section \<open>PcapReader: packets\<close>

definition be16 :: "bytes \<Rightarrow> usize \<Rightarrow> u16 rs" where
  "be16 data i = do { a \<leftarrow> idx data i; b \<leftarrow> idx data (i + 1); Some (u16_be a b) }"

text \<open>\<open>parse_transport\<close>: \<open>fresh\<close> is the identifier and the clock \<open>Packet::new\<close> reads.\<close>

definition pcap_parse_transport ::
    "flag_ops \<Rightarrow> uuid \<times> timestamp \<Rightarrow> bytes \<Rightarrow> usize \<Rightarrow> u8 \<Rightarrow> ip_addr \<Rightarrow> ip_addr \<Rightarrow> timestamp \<Rightarrow> usize
       \<Rightarrow> packet option rs" where
  "pcap_parse_transport fl fresh data transport_offset proto src dst timestamp orig_len =
     (if proto = 6 then
        tryo (checked_add transport_offset 20) (\<lambda>header_end.
        if length data < header_end then Some None
        else do {
          off \<leftarrow> idx data (transport_offset + 12);
          let tcp_hdr_len = unat (drop_bit 4 off) * 4 in
          if \<not> (20 \<le> tcp_hdr_len \<and> tcp_hdr_len \<le> 60) then Some None
          else tryo (checked_add transport_offset tcp_hdr_len) (\<lambda>payload_start.
            if length data < payload_start then Some None
            else do {
              sp \<leftarrow> be16 data transport_offset;
              dp \<leftarrow> be16 data (transport_offset + 2);
              fb \<leftarrow> idx data (transport_offset + 13);
              payload \<leftarrow> slice_from data payload_start;
              let flags = fl_from_bits_truncate fl fb;
                  direction = infer_tcp_direction fl src dst flags;
                  pkt = with_tcp_flags (fl_contains fl)
                    (packet_new (fst fresh) (snd fresh) (five_tuple_new src dst sp dp Tcp) direction payload)
                    flags
              in Some (Some (pkt\<lparr>pkt_timestamp := timestamp, pkt_length := orig_len\<rparr>)) }) })
      else if proto = 17 then
        tryo (checked_add transport_offset 8) (\<lambda>header_end.
        if length data < header_end then Some None
        else do {
          sp \<leftarrow> be16 data transport_offset;
          dp \<leftarrow> be16 data (transport_offset + 2);
          udp_len \<leftarrow> be16 data (transport_offset + 4);
          let udp_len = unat udp_len in
          tryo (checked_add transport_offset udp_len) (\<lambda>payload_end.
          if udp_len < 8 \<or> payload_end > length data then Some None
          else tryo (checked_add transport_offset 8) (\<lambda>payload_start. do {
            payload \<leftarrow> slice data payload_start payload_end;
            let direction = infer_direction src dst;
                pkt = packet_new (fst fresh) (snd fresh) (five_tuple_new src dst sp dp Udp) direction payload
            in Some (Some (pkt\<lparr>pkt_timestamp := timestamp, pkt_length := orig_len\<rparr>)) })) })
      else if proto = 1 \<or> proto = 58 then
        tryo (checked_add transport_offset 8) (\<lambda>payload_start.
        if length data < payload_start then Some None
        else do {
          payload \<leftarrow> slice_from data payload_start;
          let direction = infer_direction src dst;
              pkt = packet_new (fst fresh) (snd fresh) (five_tuple_new src dst 0 0 Icmp) direction payload
          in Some (Some (pkt\<lparr>pkt_timestamp := timestamp, pkt_length := orig_len\<rparr>)) })
      else Some None)"

definition pcap_parse_ipv4_packet ::
    "flag_ops \<Rightarrow> uuid \<times> timestamp \<Rightarrow> bytes \<Rightarrow> timestamp \<Rightarrow> usize \<Rightarrow> packet option rs" where
  "pcap_parse_ipv4_packet fl fresh data timestamp orig_len =
     (if length data < 20 then Some None
      else do {
        first \<leftarrow> idx data 0;
        if drop_bit 4 first \<noteq> 4 then Some None
        else let ihl = unat (first AND 0x0F) * 4 in
        if ihl < 20 \<or> length data < ihl then Some None
        else do {
          total_len \<leftarrow> be16 data 2;
          let total_len = unat total_len in
          if total_len < ihl \<or> total_len > length data then Some None
          else do {
            fragment \<leftarrow> be16 data 6;
            if fragment AND 0x3fff \<noteq> 0 then Some None
            else do {
              packet_data \<leftarrow> slice data 0 total_len;
              proto \<leftarrow> idx packet_data 9;
              s0 \<leftarrow> idx packet_data 12; s1 \<leftarrow> idx packet_data 13;
              s2 \<leftarrow> idx packet_data 14; s3 \<leftarrow> idx packet_data 15;
              d0 \<leftarrow> idx packet_data 16; d1 \<leftarrow> idx packet_data 17;
              d2 \<leftarrow> idx packet_data 18; d3 \<leftarrow> idx packet_data 19;
              pcap_parse_transport fl fresh packet_data ihl proto (V4 (Ipv4 s0 s1 s2 s3))
                (V4 (Ipv4 d0 d1 d2 d3)) timestamp orig_len } } } })"

text \<open>The loop of \<open>ipv6_transport_start\<close>; the first argument counts its remaining iterations.\<close>

fun pcap_ipv6_headers :: "nat \<Rightarrow> bytes \<Rightarrow> u8 \<Rightarrow> usize \<Rightarrow> (u8 \<times> usize) option rs" where
  "pcap_ipv6_headers 0 data proto offset = Some None"
| "pcap_ipv6_headers (Suc n) data proto offset =
     (if proto = 0 \<or> proto = 43 \<or> proto = 60 then
        tryo (idx data offset) (\<lambda>next_proto.
        tryo (idx data (offset + 1)) (\<lambda>len.
        tryo (checked_add (unat len) 1) (\<lambda>units.
        tryo (checked_mul 8 units) (\<lambda>header_len.
        tryo (checked_add offset header_len) (\<lambda>next_offset.
        if next_offset > length data then Some None
        else pcap_ipv6_headers n data next_proto next_offset)))))
      else if proto = 44 then
        tryo (checked_add offset 8) (\<lambda>header_end.
        tryo (slice data offset header_end) (\<lambda>header. do {
          fragment \<leftarrow> be16 header 2;
          if fragment \<noteq> 0 then Some None
          else do {
            next_proto \<leftarrow> idx header 0;
            tryo (checked_add offset 8) (\<lambda>offset. pcap_ipv6_headers n data next_proto offset) } }))
      else if proto = 59 then Some None
      else Some (Some (proto, offset)))"

definition pcap_ipv6_transport_start :: "bytes \<Rightarrow> (u8 \<times> usize) option rs" where
  "pcap_ipv6_transport_start data = do { proto \<leftarrow> idx data 6; pcap_ipv6_headers 8 data proto 40 }"

definition pcap_parse_ipv6_packet ::
    "flag_ops \<Rightarrow> uuid \<times> timestamp \<Rightarrow> bytes \<Rightarrow> timestamp \<Rightarrow> usize \<Rightarrow> packet option rs" where
  "pcap_parse_ipv6_packet fl fresh data timestamp orig_len =
     (if length data < 40 then Some None
      else do {
        first \<leftarrow> idx data 0;
        if drop_bit 4 first \<noteq> 6 then Some None
        else do {
          payload_len \<leftarrow> be16 data 4;
          tryo (checked_add 40 (unat payload_len)) (\<lambda>total_len.
          if total_len > length data then Some None
          else do {
            packet_data \<leftarrow> slice data 0 total_len;
            src \<leftarrow> slice packet_data 8 24;
            dst \<leftarrow> slice packet_data 24 40;
            start \<leftarrow> pcap_ipv6_transport_start packet_data;
            tryo start (\<lambda>(proto, transport_offset).
              pcap_parse_transport fl fresh packet_data transport_offset proto
                (V6 (ipv6_from_octets src)) (V6 (ipv6_from_octets dst)) timestamp orig_len) }) } })"

definition pcap_apply_vlan_tag :: "packet \<Rightarrow> u16 option \<Rightarrow> packet" where
  "pcap_apply_vlan_tag packet vlan_tag =
     (case vlan_tag of Some tag \<Rightarrow> with_vlan packet tag | None \<Rightarrow> packet)"

definition bsd_loopback_family_is_ip :: "bytes \<Rightarrow> bool" where
  "bsd_loopback_family_is_ip header \<longleftrightarrow>
     header = [2, 0, 0, 0] \<or> header = [0, 0, 0, 2] \<or> header = [24, 0, 0, 0] \<or> header = [0, 0, 0, 24]
     \<or> header = [28, 0, 0, 0] \<or> header = [0, 0, 0, 28] \<or> header = [30, 0, 0, 0] \<or> header = [0, 0, 0, 30]"

text \<open>The loop over VLAN tags; the first argument counts the tags that may still follow.\<close>

fun pcap_vlan_loop :: "nat \<Rightarrow> bytes \<Rightarrow> u16 \<Rightarrow> usize \<Rightarrow> u16 option \<Rightarrow> (u16 \<times> usize \<times> u16 option) option rs" where
  "pcap_vlan_loop left data ethertype offset vlan_tag =
     (if ethertype = 0x8100 \<or> ethertype = 0x88A8 then
        (case left of
           0 \<Rightarrow> Some None
         | Suc left \<Rightarrow>
             if length data < offset + 4 then Some None
             else do {
               tag \<leftarrow> be16 data offset;
               ethertype \<leftarrow> be16 data (offset + 2);
               pcap_vlan_loop left data ethertype (offset + 4)
                 (Some (case vlan_tag of Some t \<Rightarrow> t | None \<Rightarrow> tag AND 0x0fff)) })
      else Some (Some (ethertype, offset, vlan_tag)))"

text \<open>The bytes of the IP packet in a link-layer frame, and the VLAN tag.\<close>

definition link_ip_data :: "bytes \<Rightarrow> u32 \<Rightarrow> (bytes \<times> u16 option) option rs" where
  "link_ip_data data linktype =
     (if linktype = PCAP_LINKTYPE_ETHERNET then
        if length data < 14 then Some None
        else do {
          ethertype \<leftarrow> be16 data 12;
          r \<leftarrow> pcap_vlan_loop MAX_VLAN_DEPTH data ethertype 14 None;
          tryo r (\<lambda>(ethertype, offset, vlan_tag).
            if ethertype = 0x0800 \<or> ethertype = 0x86DD then do {
              ip_data \<leftarrow> slice_from data offset; Some (Some (ip_data, vlan_tag)) }
            else Some None) }
      else if linktype = PCAP_LINKTYPE_NULL \<or> linktype = PCAP_LINKTYPE_LOOP then
        if length data < 4 then Some None
        else do {
          family \<leftarrow> slice data 0 4;
          if \<not> bsd_loopback_family_is_ip family then Some None
          else do { ip_data \<leftarrow> slice_from data 4; Some (Some (ip_data, None)) } }
      else if linktype = PCAP_LINKTYPE_LINUX_SLL then
        if length data < 16 then Some None
        else do {
          proto \<leftarrow> be16 data 14;
          if \<not> (proto = 0x0800 \<or> proto = 0x86DD) then Some None
          else do { ip_data \<leftarrow> slice_from data 16; Some (Some (ip_data, None)) } }
      else if linktype = PCAP_LINKTYPE_RAW \<or> linktype = PCAP_LINKTYPE_IPV4 \<or> linktype = PCAP_LINKTYPE_IPV6
      then Some (Some (data, None))
      else Some None)"

definition parse_link_packet ::
    "flag_ops \<Rightarrow> uuid \<times> timestamp \<Rightarrow> bytes \<Rightarrow> u32 \<Rightarrow> usize \<Rightarrow> timestamp \<Rightarrow> usize \<Rightarrow> packet option rs" where
  "parse_link_packet fl fresh data linktype link_header_len timestamp orig_len =
     (if length data < link_header_len then Some None
      else do {
        r \<leftarrow> link_ip_data data linktype;
        tryo r (\<lambda>(ip_data, vlan_tag).
          if ip_data = [] then Some None
          else do {
            first \<leftarrow> idx ip_data 0;
            let version = (if linktype = PCAP_LINKTYPE_IPV4 then 4
                  else if linktype = PCAP_LINKTYPE_IPV6 then 6 else drop_bit 4 first AND 0x0F) in
            if version = 4 then do {
              p \<leftarrow> pcap_parse_ipv4_packet fl fresh ip_data timestamp orig_len;
              Some (map_option (\<lambda>p. pcap_apply_vlan_tag p vlan_tag) p) }
            else if version = 6 then do {
              p \<leftarrow> pcap_parse_ipv6_packet fl fresh ip_data timestamp orig_len;
              Some (map_option (\<lambda>p. pcap_apply_vlan_tag p vlan_tag) p) }
            else Some None }) })"

section \<open>PcapReader: files\<close>

definition read_u32 :: "bool \<Rightarrow> bytes \<Rightarrow> usize \<Rightarrow> u32 rs" where
  "read_u32 swapped data offset = do {
     a \<leftarrow> idx data offset; b \<leftarrow> idx data (offset + 1); c \<leftarrow> idx data (offset + 2); d \<leftarrow> idx data (offset + 3);
     let raw = u32_le a b c d in Some (if swapped then u32_swap_bytes raw else raw) }"

definition read_u16 :: "bool \<Rightarrow> bytes \<Rightarrow> usize \<Rightarrow> u16 rs" where
  "read_u16 swapped data offset = do {
     a \<leftarrow> idx data offset; b \<leftarrow> idx data (offset + 1);
     let raw = u16_le a b in Some (if swapped then u16_swap_bytes raw else raw) }"

record pcap_header =
  ph_swapped :: bool
  ph_nano :: bool
  ph_snaplen :: usize
  ph_linktype :: u32
  ph_link_header_len :: usize

definition magic_format :: "u32 \<Rightarrow> (bool \<times> bool) option" where
  "magic_format magic =
     (if magic = PCAP_MAGIC then Some (False, False)
      else if magic = PCAP_MAGIC_SWAPPED then Some (True, False)
      else if magic = PCAP_MAGIC_NANO then Some (False, True)
      else if magic = PCAP_MAGIC_NANO_SWAPPED then Some (True, True)
      else None)"

definition link_header_len_of :: "u32 \<Rightarrow> usize option" where
  "link_header_len_of linktype =
     (if linktype = PCAP_LINKTYPE_ETHERNET then Some 14
      else if linktype = PCAP_LINKTYPE_RAW \<or> linktype = PCAP_LINKTYPE_IPV4 \<or> linktype = PCAP_LINKTYPE_IPV6
      then Some 0
      else if linktype = PCAP_LINKTYPE_NULL \<or> linktype = PCAP_LINKTYPE_LOOP then Some 4
      else if linktype = PCAP_LINKTYPE_LINUX_SLL then Some 16
      else None)"

definition read_global_header :: "bytes \<Rightarrow> (pcap_error + pcap_header) rs" where
  "read_global_header buf =
     (if length buf < 24 then Some (Inl File_too_short)
      else do {
        magic \<leftarrow> read_u32 False buf 0;
        tryr (ok_or (Invalid_magic magic) (magic_format magic)) (\<lambda>(swapped, nano). do {
        version_major \<leftarrow> read_u16 swapped buf 4;
        version_minor \<leftarrow> read_u16 swapped buf 6;
        if version_major \<noteq> PCAP_VERSION_MAJOR \<or> version_minor \<noteq> PCAP_VERSION_MINOR
        then Some (Inl (Unsupported_version version_major version_minor))
        else do {
          snaplen \<leftarrow> read_u32 swapped buf 16;
          if unat snaplen > MAX_PCAP_RECORD_BYTES then Some (Inl (Snaplen_too_large (unat snaplen)))
          else do {
            linktype \<leftarrow> read_u32 swapped buf 20;
            tryr (ok_or (Unsupported_linktype linktype) (link_header_len_of linktype)) (\<lambda>len.
              Some (Inr \<lparr>ph_swapped = swapped, ph_nano = nano, ph_snaplen = unat snaplen,
                ph_linktype = linktype, ph_link_header_len = len\<rparr>)) } } }) })"

text \<open>One iteration of the loop over the records: the packet of the record, if any, and the position
  of the next record.\<close>

definition read_record ::
    "flag_ops \<Rightarrow> chrono_ops \<Rightarrow> (nat \<Rightarrow> uuid \<times> timestamp) \<Rightarrow> bytes \<Rightarrow> pcap_header \<Rightarrow> usize \<Rightarrow> nat
       \<Rightarrow> (pcap_error + packet option \<times> usize) rs" where
  "read_record fl ch fresh buf hdr pos record_count =
     (if record_count \<ge> MAX_PCAP_RECORDS then Some (Inl Too_many_records)
      else do {
        ts_sec \<leftarrow> read_u32 (ph_swapped hdr) buf pos;
        ts_frac \<leftarrow> read_u32 (ph_swapped hdr) buf (pos + 4);
        incl_len \<leftarrow> read_u32 (ph_swapped hdr) buf (pos + 8);
        orig_len \<leftarrow> read_u32 (ph_swapped hdr) buf (pos + 12);
        let incl_len = unat incl_len; orig_len = unat orig_len; pos = pos + 16 in
        tryr (ok_or (Length_overflow pos) (checked_add pos incl_len)) (\<lambda>packet_end.
        if incl_len > ph_snaplen hdr then Some (Inl (Exceeds_snaplen pos incl_len (ph_snaplen hdr)))
        else if orig_len < incl_len then Some (Inl (Original_smaller pos orig_len incl_len))
        else if packet_end > length buf then Some (Inl (Truncated_packet pos))
        else do {
          pkt_data \<leftarrow> slice buf pos packet_end;
          let pos = packet_end in
          if ph_nano hdr \<and> unat ts_frac \<ge> 1000000000 then Some (Inl (Nanos_range pos ts_frac))
          else if \<not> ph_nano hdr \<and> unat ts_frac \<ge> 1000000 then Some (Inl (Micros_range pos ts_frac))
          else
            let ts_nsec = (if ph_nano hdr then ts_frac else ts_frac * 1000);
                timestamp = (case ch_from_timestamp ch (uint ts_sec) ts_nsec of
                    Some t \<Rightarrow> t | None \<Rightarrow> ch_unix_epoch ch)
            in do {
              pkt \<leftarrow> parse_link_packet fl (fresh record_count) pkt_data (ph_linktype hdr)
                (ph_link_header_len hdr) timestamp orig_len;
              Some (Inr (pkt, pos)) } }) })"

partial_function (option) read_records ::
    "(usize \<Rightarrow> nat \<Rightarrow> (pcap_error + packet option \<times> usize) rs) \<Rightarrow> usize \<Rightarrow> usize \<Rightarrow> nat \<Rightarrow> packet list
       \<Rightarrow> (pcap_error + packet list \<times> usize) rs" where
  "read_records step buf_len pos record_count packets =
     (if pos + 16 \<le> buf_len then
        Option.bind (step pos record_count) (\<lambda>r.
          case r of
            Inl e \<Rightarrow> Some (Inl e)
          | Inr (pkt, pos) \<Rightarrow>
              read_records step buf_len pos (Suc record_count)
                (packets @ (case pkt of None \<Rightarrow> [] | Some p \<Rightarrow> [p])))
      else Some (Inr (packets, pos)))"

definition read_limited_pcap_bytes :: "bytes \<Rightarrow> nat \<Rightarrow> pcap_error + bytes option" where
  "read_limited_pcap_bytes content max_bytes =
     (case checked_add max_bytes 1 of
        None \<Rightarrow> Inl Io_error
      | Some sentinel_limit \<Rightarrow>
          let buf = take sentinel_limit content in
          Inr (if length buf > max_bytes then None else Some buf))"

text \<open>What the file system answers: whether the path names a file, the contents of the opened
  regular file and the length \<open>metadata\<close> reported for it.\<close>

record pcap_source =
  so_has_file_name :: bool
  so_content :: "bytes option"
  so_len :: nat

definition read_file ::
    "flag_ops \<Rightarrow> chrono_ops \<Rightarrow> (nat \<Rightarrow> uuid \<times> timestamp) \<Rightarrow> pcap_source \<Rightarrow> (pcap_error + packet list) rs" where
  "read_file fl ch fresh src =
     (if \<not> so_has_file_name src then Some (Inl Path_not_file)
      else tryr (ok_or Io_error (so_content src)) (\<lambda>content.
      if so_len src > MAX_PCAP_READ_BYTES then Some (Inl (File_too_large (so_len src)))
      else tryr (read_limited_pcap_bytes content MAX_PCAP_READ_BYTES) (\<lambda>limited.
      tryr (ok_or (File_too_large MAX_PCAP_READ_BYTES) limited) (\<lambda>buf. do {
        header \<leftarrow> read_global_header buf;
        tryr header (\<lambda>hdr. do {
          records \<leftarrow> read_records (read_record fl ch fresh buf hdr) (length buf) 24 0 [];
          tryr records (\<lambda>(packets, pos).
            if pos \<noteq> length buf then Some (Inl (Truncated_header pos))
            else Some (Inr packets)) }) }))))"

declare pcap_vlan_loop.simps [simp del]

section \<open>Reading never panics\<close>

lemma wp_be16 [wp_rules]:
  "wp (be16 data i) P \<longleftrightarrow> i + 1 < length data \<and> P (u16_be (data ! i) (data ! (i + 1)))"
  by (auto simp: be16_def wp_rules)

lemma wp_read_u16 [wp_rules]:
  "wp (read_u16 sw data i) P \<longleftrightarrow> i + 1 < length data
     \<and> P (let raw = u16_le (data ! i) (data ! (i + 1)) in if sw then u16_swap_bytes raw else raw)"
  by (auto simp: read_u16_def wp_rules Let_def)

lemma wp_read_u32 [wp_rules]:
  "wp (read_u32 sw data i) P \<longleftrightarrow> i + 3 < length data
     \<and> P (let raw = u32_le (data ! i) (data ! (i + 1)) (data ! (i + 2)) (data ! (i + 3)) in
          if sw then u32_swap_bytes raw else raw)"
  by (auto simp: read_u32_def wp_rules Let_def)

text \<open>What every packet built from captured bytes satisfies.\<close>

definition captured_wf :: "packet \<Rightarrow> bool" where
  "captured_wf p \<longleftrightarrow>
     protocol (pkt_five_tuple p) \<in> {Tcp, Udp, Icmp}
     \<and> (pkt_tcp_flags p \<noteq> None \<longleftrightarrow> protocol (pkt_five_tuple p) = Tcp)
     \<and> is_canonical_ip (src_ip (pkt_five_tuple p)) \<and> is_canonical_ip (dst_ip (pkt_five_tuple p))
     \<and> (protocol (pkt_five_tuple p) = Icmp \<longrightarrow>
          src_port (pkt_five_tuple p) = 0 \<and> dst_port (pkt_five_tuple p) = 0)
     \<and> length (pkt_payload p) \<le> 65527
     \<and> (\<forall>tag. pkt_vlan_tag p = Some tag \<longrightarrow> unat tag < 4096)"

lemmas packet_build_defs = packet_new_def with_tcp_flags_def five_tuple_new_def with_vlan_def

lemma pcap_parse_transport_wp:
  assumes "length data \<le> transport_offset + 65535"
  shows "wp (pcap_parse_transport fl fresh data transport_offset proto src dst t n)
    (\<lambda>r. \<forall>p. r = Some p \<longrightarrow> captured_wf p \<and> pkt_vlan_tag p = None)"
  using assms
  by (auto simp: pcap_parse_transport_def wp_rules captured_wf_def packet_build_defs
      canonicalize_ip_canonical Let_def)

lemma pcap_parse_ipv4_packet_wp:
  "wp (pcap_parse_ipv4_packet fl fresh data t n)
     (\<lambda>r. \<forall>p. r = Some p \<longrightarrow> captured_wf p \<and> pkt_vlan_tag p = None)"
proof -
  have "unat w \<le> 65535" for w :: u16 using unat_u16_less [of w] by linarith
  then show ?thesis
    unfolding pcap_parse_ipv4_packet_def
    by (auto simp: wp_rules Let_def intro!: pcap_parse_transport_wp le_trans [OF min.cobounded2] trans_le_add2
        simp del: unat_u16_be)
qed

lemma pcap_ipv6_headers_wp:
  "wp (pcap_ipv6_headers k data proto offset) (\<lambda>r. \<forall>proto' offset'. r = Some (proto', offset') \<longrightarrow> offset \<le> offset')"
proof (induction k arbitrary: proto offset)
  case (Suc k)
  show ?case by (auto simp: wp_rules slice_Some_iff intro!: wp_call [OF Suc])
qed (simp add: wp_rules)

lemma pcap_parse_ipv6_packet_wp:
  "wp (pcap_parse_ipv6_packet fl fresh data t n)
     (\<lambda>r. \<forall>p. r = Some p \<longrightarrow> captured_wf p \<and> pkt_vlan_tag p = None)"
proof -
  have len: "unat w \<le> 65495 + b" if "40 \<le> b" for w :: u16 and b
    using unat_u16_less [of w] that by linarith
  show ?thesis
    unfolding pcap_parse_ipv6_packet_def pcap_ipv6_transport_start_def
    by (auto simp: wp_rules Let_def intro!: wp_call [OF pcap_ipv6_headers_wp] pcap_parse_transport_wp len
        simp del: unat_u16_be)
qed

lemma pcap_vlan_loop_wp:
  assumes "offset \<le> length data" "\<And>tag. vlan_tag = Some tag \<Longrightarrow> unat tag < 4096"
  shows "wp (pcap_vlan_loop left data ethertype offset vlan_tag)
    (\<lambda>r. \<forall>e offset' tag'. r = Some (e, offset', tag') \<longrightarrow>
       offset' \<le> length data \<and> (\<forall>tag. tag' = Some tag \<longrightarrow> unat tag < 4096))"
  using assms
proof (induction left arbitrary: ethertype offset vlan_tag)
  case 0
  then show ?case by (simp add: pcap_vlan_loop.simps wp_rules)
next
  case (Suc left)
  have "unat (w AND 0x0fff) < 4096" for w :: u16
  proof -
    have "w AND 0x0fff = take_bit 12 w" by (simp add: take_bit_eq_mask mask_eq_exp_minus_1)
    then have "unat (w AND 0x0fff) = take_bit 12 (unat w)" by (simp only: unsigned_take_bit_eq)
    then show ?thesis by (simp add: take_bit_eq_mod)
  qed
  then show ?case
    using Suc.prems
    by (subst pcap_vlan_loop.simps) (auto simp: wp_rules intro!: Suc.IH split: option.splits)
qed

lemma link_ip_data_wp:
  "wp (link_ip_data data linktype)
    (\<lambda>r. \<forall>ip_data tag'. r = Some (ip_data, tag') \<longrightarrow> (\<forall>tag. tag' = Some tag \<longrightarrow> unat tag < 4096))"
  unfolding link_ip_data_def
  by (auto simp: wp_rules intro!: wp_call [OF pcap_vlan_loop_wp])

lemma wp_bindI: "wp m Q \<Longrightarrow> (\<And>v. Q v \<Longrightarrow> wp (f v) P) \<Longrightarrow> wp (Option.bind m f) P"
  by (auto simp: wp_bind intro: wp_call)

lemma wp_bind_idx: "wp (Option.bind (idx xs i) f) P \<longleftrightarrow> i < length xs \<and> wp (f (xs ! i)) P"
  by (simp add: wp_bind wp_idx)

lemma parse_link_packet_wp:
  "wp (parse_link_packet fl fresh data linktype len t n) (\<lambda>r. \<forall>p. r = Some p \<longrightarrow> captured_wf p)"
proof -
  have tagged: "wp (Option.bind m (\<lambda>p. Some (map_option (\<lambda>p. pcap_apply_vlan_tag p tag) p)))
      (\<lambda>r. \<forall>p. r = Some p \<longrightarrow> captured_wf p)"
    if "wp m (\<lambda>r. \<forall>p. r = Some p \<longrightarrow> captured_wf p \<and> pkt_vlan_tag p = None)"
      "\<And>t. tag = Some t \<Longrightarrow> unat t < 4096" for m tag
    using that(2) by (intro wp_bindI [OF that(1)])
      (auto simp: wp_Some pcap_apply_vlan_tag_def captured_wf_def with_vlan_def split: option.split)
  show ?thesis
    unfolding parse_link_packet_def wp_if
    by (auto simp: wp_Some wp_tryo wp_bind_idx Let_def intro!: wp_bindI [OF link_ip_data_wp]
        tagged pcap_parse_ipv4_packet_wp pcap_parse_ipv6_packet_wp)
qed

lemma read_record_wp:
  assumes "pos + 16 \<le> length buf"
  shows "wp (read_record fl ch fresh buf hdr pos k)
    (\<lambda>r. \<forall>pkt pos'. r = Inr (pkt, pos') \<longrightarrow>
       pos + 16 \<le> pos' \<and> pos' \<le> length buf \<and> k < MAX_PCAP_RECORDS \<and> (\<forall>p. pkt = Some p \<longrightarrow> captured_wf p))"
  unfolding read_record_def using assms
  by (auto simp: wp_rules intro!: wp_call [OF parse_link_packet_wp])

text \<open>The loop over the records: any step that moves forward by at least 16 bytes makes it end.\<close>

lemma read_records_wp:
  assumes step: "\<And>pos k. pos + 16 \<le> n \<Longrightarrow> wp (step pos k)
      (\<lambda>r. \<forall>pkt pos'. r = Inr (pkt, pos') \<longrightarrow> pos + 16 \<le> pos' \<and> (\<forall>p. pkt = Some p \<longrightarrow> Q p))"
    and "\<And>p. p \<in> set packets \<Longrightarrow> Q p" "16 * length packets \<le> pos"
  shows "wp (read_records step n pos k packets)
    (\<lambda>r. \<forall>ps pos'. r = Inr (ps, pos') \<longrightarrow> (\<forall>p\<in>set ps. Q p) \<and> 16 * length ps \<le> pos')"
  using assms(2-)
proof (induction "n - pos" arbitrary: pos k packets rule: less_induct)
  case less
  show ?case
  proof (cases "pos + 16 \<le> n")
    case True
    have "wp (read_records step n pos' (Suc k) (packets @ (case pkt of None \<Rightarrow> [] | Some p \<Rightarrow> [p])))
      (\<lambda>r. \<forall>ps pos'. r = Inr (ps, pos') \<longrightarrow> (\<forall>p\<in>set ps. Q p) \<and> 16 * length ps \<le> pos')"
      if "pos + 16 \<le> pos'" "\<And>p. pkt = Some p \<Longrightarrow> Q p" for pkt pos'
      using that True less.prems
      by (intro less.hyps) (auto split: option.splits)
    with True show ?thesis
      by (subst read_records.simps)
        (auto simp: wp_rules intro!: wp_call [OF step [OF True]] split: sum.splits)
  next
    case False
    with less.prems show ?thesis by (subst read_records.simps) (auto simp: wp_rules)
  qed
qed

lemma read_global_header_wp:
  "wp (read_global_header buf) (\<lambda>r. \<forall>h. r = Inr h \<longrightarrow> 24 \<le> length buf \<and> ph_snaplen h \<le> MAX_PCAP_RECORD_BYTES)"
  unfolding read_global_header_def by (auto simp: wp_rules Let_def)

lemma read_file_wp:
  "wp (read_file fl ch fresh src)
     (\<lambda>r. \<forall>ps. r = Inr ps \<longrightarrow> (\<forall>p\<in>set ps. captured_wf p) \<and> 16 * length ps \<le> MAX_PCAP_READ_BYTES)"
proof -
  have records: "wp (read_records (read_record fl ch fresh buf hdr) (length buf) 24 0 [])
      (\<lambda>r. \<forall>ps pos'. r = Inr (ps, pos') \<longrightarrow> (\<forall>p\<in>set ps. captured_wf p) \<and> 16 * length ps \<le> pos')" for buf hdr
    by (rule read_records_wp) (auto intro!: wp_call [OF read_record_wp])
  have body: "wp (do { header \<leftarrow> read_global_header buf;
        tryr header (\<lambda>hdr. do {
          records \<leftarrow> read_records (read_record fl ch fresh buf hdr) (length buf) 24 0 [];
          tryr records (\<lambda>(packets, pos).
            if pos \<noteq> length buf then Some (Inl (Truncated_header pos)) else Some (Inr packets)) }) })
      (\<lambda>r. \<forall>ps. r = Inr ps \<longrightarrow> (\<forall>p\<in>set ps. captured_wf p) \<and> 16 * length ps \<le> MAX_PCAP_READ_BYTES)"
    if "length buf \<le> MAX_PCAP_READ_BYTES" for buf
    using that by (intro wp_bindI [OF read_global_header_wp])
      (auto simp: wp_tryr wp_Some intro!: wp_bindI [OF records])
  have small: "length buf \<le> MAX_PCAP_READ_BYTES"
    if "read_limited_pcap_bytes c MAX_PCAP_READ_BYTES = Inr (Some buf)" for c buf
    using that by (auto simp: read_limited_pcap_bytes_def Let_def split: if_splits option.splits)
  show ?thesis
    unfolding read_file_def by (auto simp: wp_tryr wp_Some intro!: body small)
qed

text \<open>
  Property C32. Reading a capture file always ends with a result: for every content of the file and
  every answer of the file system the reader returns a list of packets or an error and never panics,
  although the record lengths that drive its loop come from the file.
\<close>

theorem read_file_returns: "\<exists>r. read_file fl ch fresh src = Some r"
  using read_file_wp [of fl ch fresh src] by (auto simp: wp_def)

end
