(* ===== verification/Pcap_Roundtrip.thy ===== *)
theory Pcap_Roundtrip
  imports Pcap_File
begin

text \<open>
  The reader of \<open>nettrap-pcap\<close> undoes its writer: from the bytes of an encoded packet back to the
  packet, then from a capture file back to the packets written to it.
\<close>

section \<open>Reading behind a prefix\<close>

lemma idx_append [simp]: "idx (xs @ ys) (length xs + i) = idx ys i"
  by (simp add: idx_def)

lemma be16_append [simp]: "be16 (xs @ ys) (length xs + i) = be16 ys i"
  unfolding be16_def add.assoc idx_append ..

lemma slice_from_append [simp]: "slice_from (xs @ ys) (length xs + i) = slice_from ys i"
  by (simp add: slice_from_def)

lemma slice_append [simp]: "slice (xs @ ys) (length xs + i) (length xs + j) = slice ys i j"
  by (simp add: slice_def)

lemmas behind_prefix = idx_append be16_append slice_from_append slice_append

lemma at_prefix:
  "idx (xs @ ys) (length xs) = idx ys 0" "be16 (xs @ ys) (length xs) = be16 ys 0"
  "slice_from (xs @ ys) (length xs) = slice_from ys 0"
  using behind_prefix [of xs ys 0] by simp_all

lemma parse_transport_behind:
  assumes "length hdr + length seg \<le> 100000"
  shows "pcap_parse_transport fl fresh (hdr @ seg) (length hdr) proto s d t n =
    pcap_parse_transport fl fresh seg 0 proto s d t n"
proof -
  have add: "checked_add (length hdr) k = Some (length hdr + k)" "checked_add 0 k = Some k"
    if "k \<le> 65535" for k
    using that assms by (simp_all add: checked_add_def usize_max_def)
  have off: "unat (drop_bit 4 b) * 4 \<le> 65535" for b :: u8
    using unat_u8_less [of "drop_bit 4 b"] by linarith
  have len: "unat w \<le> 65535" for w :: u16
    using unat_u16_less [of w] by linarith
  show ?thesis
    unfolding pcap_parse_transport_def
    by (simp add: add off len at_prefix Let_def cong: bind_option_cong if_cong
        del: add_2_eq_Suc add_2_eq_Suc')
qed

section \<open>Segments\<close>

text \<open>The packet that is read back: the protocol, the endpoints (without ports for ICMP) and the payload
  are those of \<open>p\<close>, the flags are those that were sent, the direction is inferred again.\<close>

definition reread :: "uuid \<Rightarrow> timestamp \<Rightarrow> usize \<Rightarrow> packet_direction \<Rightarrow> packet \<Rightarrow> packet" where
  "reread new_v4 t n dir p =
     \<lparr>pkt_id = new_v4, pkt_timestamp = t, pkt_five_tuple = pkt_five_tuple p, pkt_direction = dir,
      pkt_packet_type = TypeUnknown, pkt_tcp_flags = None, pkt_payload = pkt_payload p, pkt_length = n,
      pkt_interface = None, pkt_vlan_tag = None\<rparr>"

definition recaptured :: "flag_ops \<Rightarrow> uuid \<Rightarrow> timestamp \<Rightarrow> usize \<Rightarrow> packet \<Rightarrow> packet option" where
  "recaptured fl new_v4 t n p =
     (let ft = pkt_five_tuple p; flags = tcp_flags_byte fl p; dir = infer_direction (src_ip ft) (dst_ip ft) in
      case protocol ft of
        Tcp \<Rightarrow> Some ((reread new_v4 t n (infer_tcp_direction fl (src_ip ft) (dst_ip ft) flags) p)
          \<lparr>pkt_packet_type := to_packet_type (fl_contains fl) flags, pkt_tcp_flags := Some flags\<rparr>)
      | Udp \<Rightarrow> Some (reread new_v4 t n dir p)
      | Icmp \<Rightarrow> Some ((reread new_v4 t n dir p)\<lparr>pkt_five_tuple := ft\<lparr>src_port := 0, dst_port := 0\<rparr>\<rparr>)
      | _ \<Rightarrow> None)"

definition canonical_packet :: "packet \<Rightarrow> bool" where
  "canonical_packet p \<longleftrightarrow> is_canonical_ip (src_ip (pkt_five_tuple p)) \<and> is_canonical_ip (dst_ip (pkt_five_tuple p))"

lemma five_tuple_rebuilt:
  "canonical_packet p \<Longrightarrow> five_tuple_new (src_ip (pkt_five_tuple p)) (dst_ip (pkt_five_tuple p)) sp dp k =
     (pkt_five_tuple p)\<lparr>src_port := sp, dst_port := dp, protocol := k\<rparr>"
  by (simp add: canonical_packet_def five_tuple_new_def canonicalize_ip_id)

lemma five_tuple_same: "protocol ft = k \<Longrightarrow>
    ft\<lparr>src_port := src_port ft, dst_port := dst_port ft, protocol := k\<rparr> = ft"
  "protocol ft = k \<Longrightarrow> ft\<lparr>src_port := a, dst_port := b, protocol := k\<rparr> = ft\<lparr>src_port := a, dst_port := b\<rparr>"
  by simp_all

lemma small_add: "n \<le> 100000 \<Longrightarrow> checked_add 0 n = Some n"
  by (simp add: checked_add_def usize_max_def)

lemma parse_tcp_segment:
  assumes "flag_ops_ok fl" "canonical_packet p" "protocol (pkt_five_tuple p) = Tcp"
  shows "pcap_parse_transport fl fresh (tcp_pre fl p @ u16_to_be c @ tcp_post p) 0 6
      (src_ip (pkt_five_tuple p)) (dst_ip (pkt_five_tuple p)) t n = Some (recaptured fl (fst fresh) t n p)"
  using assms
  by (simp add: pcap_parse_transport_def small_add tcp_pre_def tcp_post_def port_bytes_def u16_to_be_def
      be16_def idx_def slice_from_def Let_def five_tuple_rebuilt recaptured_def reread_def packet_new_def
      with_tcp_flags_def flag_ops_ok_def)

lemma parse_udp_segment:
  assumes "canonical_packet p" "protocol (pkt_five_tuple p) = Udp" "8 + length (pkt_payload p) \<le> 65535"
  shows "pcap_parse_transport fl fresh (udp_pre p @ u16_to_be c @ pkt_payload p) 0 17
      (src_ip (pkt_five_tuple p)) (dst_ip (pkt_five_tuple p)) t n = Some (recaptured fl (fst fresh) t n p)"
proof -
  have len: "unat (word_of_nat (8 + length (pkt_payload p)) :: u16) = 8 + length (pkt_payload p)"
    unfolding unat_word_nat_u16 using assms(3) by simp
  have udp_len: "be16 (udp_pre p @ u16_to_be c @ pkt_payload p) 4 = Some (word_of_nat (8 + length (pkt_payload p)))"
    by (simp add: udp_pre_def port_bytes_def be16_def idx_def u16_to_be_def)
  have ports: "be16 (udp_pre p @ u16_to_be c @ pkt_payload p) 0 = Some (src_port (pkt_five_tuple p))"
    "be16 (udp_pre p @ u16_to_be c @ pkt_payload p) (0 + 2) = Some (dst_port (pkt_five_tuple p))"
    by (simp_all add: udp_pre_def port_bytes_def be16_def idx_def u16_to_be_def)
  show ?thesis
    using assms
    by (simp add: pcap_parse_transport_def small_add udp_len ports [simplified] len Let_def
        five_tuple_rebuilt recaptured_def reread_def packet_new_def del: of_nat_add)
qed

lemma parse_icmp_segment:
  assumes "canonical_packet p" "protocol (pkt_five_tuple p) = Icmp" "k = 1 \<or> k = 58"
  shows "pcap_parse_transport fl fresh (icmp_pre p @ u16_to_be c @ icmp_post p) 0 k
      (src_ip (pkt_five_tuple p)) (dst_ip (pkt_five_tuple p)) t n = Some (recaptured fl (fst fresh) t n p)"
  using assms
  by (auto simp: pcap_parse_transport_def small_add icmp_pre_def icmp_post_def u16_to_be_def
      slice_from_def Let_def five_tuple_rebuilt recaptured_def reread_def packet_new_def)

lemma parse_encoded_segment:
  assumes "encode_transport_segment fl p = Some (Inr seg)" "flag_ops_ok fl" "canonical_packet p"
    and "protocol (pkt_five_tuple p) \<in> {Tcp, Udp, Icmp, Igmp}"
  shows "pcap_parse_transport fl fresh seg 0 (ip_protocol_for_packet p v6)
      (src_ip (pkt_five_tuple p)) (dst_ip (pkt_five_tuple p)) t n = Some (recaptured fl (fst fresh) t n p)"
proof (cases "protocol (pkt_five_tuple p)")
  case Tcp
  with assms(1) obtain c where "seg = tcp_pre fl p @ u16_to_be c @ tcp_post p"
    by (auto simp: encode_transport_segment_def encode_tcp_segment_eq Let_def tryr_Inr_iff split: if_splits)
  with Tcp assms show ?thesis by (simp add: parse_tcp_segment ip_protocol_for_packet_def)
next
  case Udp
  with assms(1) obtain c where "8 + length (pkt_payload p) \<le> 65535"
    "seg = udp_pre p @ u16_to_be c @ pkt_payload p"
    by (auto simp: encode_transport_segment_def encode_udp_segment_eq Let_def tryr_Inr_iff split: if_splits)
  with Udp assms show ?thesis by (simp add: parse_udp_segment ip_protocol_for_packet_def)
next
  case Icmp
  with assms(1) obtain c where "seg = icmp_pre p @ u16_to_be c @ icmp_post p"
    by (auto simp: encode_transport_segment_def encode_icmp_segment_eq Let_def tryr_Inr_iff
        split: if_splits ip_addr.splits)
  with Icmp assms show ?thesis by (simp add: parse_icmp_segment ip_protocol_for_packet_def)
next
  case Igmp
  then show ?thesis
    by (simp add: pcap_parse_transport_def ip_protocol_for_packet_def recaptured_def Let_def)
qed (use assms in auto)

section \<open>IP packets\<close>

lemma version_4: "drop_bit 4 (0x45 :: u8) = 4" "(4 :: u8) AND 0x0F = 4" "unat ((0x45 :: u8) AND 0x0F) = 5"
  "drop_bit 4 (0x60 :: u8) = 6" "(6 :: u8) AND 0x0F = 6"
  by simp_all

lemma parse_raw_link:
  assumes "idx data 0 = Some b"
  shows "parse_link_packet fl fresh data PCAP_LINKTYPE_RAW 0 t n =
    (if drop_bit 4 b AND 0x0F = 4 then pcap_parse_ipv4_packet fl fresh data t n
     else if drop_bit 4 b AND 0x0F = 6 then pcap_parse_ipv6_packet fl fresh data t n else Some None)"
proof -
  have link: "link_ip_data data PCAP_LINKTYPE_RAW = Some (Some (data, None))"
    "PCAP_LINKTYPE_RAW \<noteq> PCAP_LINKTYPE_IPV4" "PCAP_LINKTYPE_RAW \<noteq> PCAP_LINKTYPE_IPV6"
    by (simp_all add: link_ip_data_def linktype_defs)
  have "data \<noteq> []" using assms by (auto simp: idx_def)
  moreover have "(\<lambda>p. pcap_apply_vlan_tag p None) = (\<lambda>p. p)"
    by (simp add: pcap_apply_vlan_tag_def)
  ultimately show ?thesis
    using assms by (simp add: parse_link_packet_def link option.map_ident)
qed

lemma parse_encoded_ipv4:
  assumes "encode_transport_segment fl p = Some (Inr seg)" "flag_ops_ok fl" "canonical_packet p"
    and "protocol (pkt_five_tuple p) \<in> {Tcp, Udp, Icmp, Igmp}"
    and "src_ip (pkt_five_tuple p) = V4 s" "dst_ip (pkt_five_tuple p) = V4 d" "20 + length seg \<le> 65535"
  shows "parse_link_packet fl fresh
      (ipv4_pre p (20 + length seg) @ u16_to_be c @ v4_octets s @ v4_octets d @ seg)
      PCAP_LINKTYPE_RAW 0 t n = Some (recaptured fl (fst fresh) t n p)"
proof -
  obtain s0 s1 s2 s3 where s: "s = Ipv4 s0 s1 s2 s3" by (cases s)
  obtain d0 d1 d2 d3 where d: "d = Ipv4 d0 d1 d2 d3" by (cases d)
  define hdr where "hdr = ipv4_pre p (20 + length seg) @ u16_to_be c @ v4_octets s @ v4_octets d"
  have hdr: "length hdr = 20" by (simp add: hdr_def)
  have total: "unat (word_of_nat (20 + length seg) :: u16) = 20 + length seg"
    unfolding unat_word_nat_u16 using assms(7) by simp
  have bytes: "idx (hdr @ seg) 0 = Some 0x45" "idx (hdr @ seg) 9 = Some (ip_protocol_for_packet p False)"
    "be16 (hdr @ seg) 2 = Some (word_of_nat (20 + length seg))"
    "idx (hdr @ seg) 12 = Some s0" "idx (hdr @ seg) 13 = Some s1" "idx (hdr @ seg) 14 = Some s2"
    "idx (hdr @ seg) 15 = Some s3" "idx (hdr @ seg) 16 = Some d0" "idx (hdr @ seg) 17 = Some d1"
    "idx (hdr @ seg) 18 = Some d2" "idx (hdr @ seg) 19 = Some d3"
    by (simp_all add: hdr_def ipv4_pre_def s d u16_to_be_def idx_def be16_def)
  have fragment: "be16 (hdr @ seg) 6 = Some 0"
    by (simp add: hdr_def ipv4_pre_def u16_to_be_def idx_def be16_def u16_be_def)
  have parse: "pcap_parse_ipv4_packet fl fresh (hdr @ seg) t n = Some (recaptured fl (fst fresh) t n p)"
    unfolding pcap_parse_ipv4_packet_def
    using parse_transport_behind [of hdr seg] assms(7) hdr total
      parse_encoded_segment [OF assms(1-4), of fresh False t n]
    by (simp add: bytes fragment version_4 slice_def assms(5,6) s d Let_def del: of_nat_add)
  have "parse_link_packet fl fresh (hdr @ seg) PCAP_LINKTYPE_RAW 0 t n = Some (recaptured fl (fst fresh) t n p)"
    by (simp add: parse_raw_link [OF bytes(1)] version_4 parse)
  then show ?thesis by (simp add: hdr_def)
qed

lemma parse_encoded_ipv6:
  assumes "encode_transport_segment fl p = Some (Inr seg)" "flag_ops_ok fl" "canonical_packet p"
    and "protocol (pkt_five_tuple p) \<in> {Tcp, Udp, Icmp, Igmp}"
    and "src_ip (pkt_five_tuple p) = V6 s" "dst_ip (pkt_five_tuple p) = V6 d" "length seg \<le> 65535"
  shows "parse_link_packet fl fresh
      ([0x60, 0, 0, 0] @ u16_to_be (word_of_nat (length seg)) @ [ip_protocol_for_packet p True, 64]
        @ v6_octets s @ v6_octets d @ seg)
      PCAP_LINKTYPE_RAW 0 t n = Some (recaptured fl (fst fresh) t n p)"
proof -
  define h8 where "h8 = [0x60, 0, 0, 0] @ u16_to_be (word_of_nat (length seg)) @ [ip_protocol_for_packet p True, 64]"
  define hdr where "hdr = h8 @ v6_octets s @ v6_octets d"
  have hdr: "length h8 = 8" "length hdr = 40" by (simp_all add: hdr_def h8_def)
  have total: "unat (word_of_nat (length seg) :: u16) = length seg"
    unfolding unat_word_nat_u16 using assms(7) by simp
  have bytes: "idx (hdr @ seg) 0 = Some 0x60" "idx (hdr @ seg) 6 = Some (ip_protocol_for_packet p True)"
    "be16 (hdr @ seg) 4 = Some (word_of_nat (length seg))"
    by (simp_all add: hdr_def h8_def u16_to_be_def idx_def be16_def)
  have addrs: "slice (hdr @ seg) 8 24 = Some (v6_octets s)" "slice (hdr @ seg) 24 40 = Some (v6_octets d)"
    using hdr by (simp_all add: hdr_def slice_def)
  have start: "pcap_ipv6_transport_start (hdr @ seg) = Some (Some (ip_protocol_for_packet p True, 40))"
    using assms(4) bytes(2) pcap_ipv6_headers.simps(2) [of 7 "hdr @ seg" "ip_protocol_for_packet p True" 40]
    by (auto simp: pcap_ipv6_transport_start_def ip_protocol_for_packet_def)
  have parse: "pcap_parse_ipv6_packet fl fresh (hdr @ seg) t n = Some (recaptured fl (fst fresh) t n p)"
    unfolding pcap_parse_ipv6_packet_def
    using parse_transport_behind [of hdr seg] assms(7) hdr total
      parse_encoded_segment [OF assms(1-4), of fresh True t n]
    by (simp add: bytes version_4 addrs start slice_in checked_add_def usize_max_def assms(5,6))
  have "parse_link_packet fl fresh (hdr @ seg) PCAP_LINKTYPE_RAW 0 t n = Some (recaptured fl (fst fresh) t n p)"
    by (simp add: parse_raw_link [OF bytes(1)] version_4 parse)
  then show ?thesis by (simp add: hdr_def h8_def)
qed

lemma parse_encoded_packet:
  assumes "encode_raw_ip_packet fl p = Some (Inr data)" "flag_ops_ok fl" "canonical_packet p"
    and "protocol (pkt_five_tuple p) \<in> {Tcp, Udp, Icmp, Igmp}"
  shows "parse_link_packet fl fresh data PCAP_LINKTYPE_RAW 0 t n = Some (recaptured fl (fst fresh) t n p)"
  using assms(1)
proof (cases rule: encode_raw_ip_packet_Ok)
  case (1 s d seg)
  then show ?thesis using parse_encoded_ipv4 [OF 1(3) assms(2-4) 1(1,2)] by simp
next
  case (2 s d seg)
  then show ?thesis using parse_encoded_ipv6 [OF 2(3) assms(2-4) 2(1,2)] by simp
qed

section \<open>Records\<close>

lemma read_u32_at: "i = length pre \<Longrightarrow> read_u32 False (pre @ u32_to_le w @ post) i = Some w"
  by (simp add: read_u32_def idx_def u32_to_le_def u32_to_be_def u32_le_def nth_append)

text \<open>The bytes \<open>write_packet\<close> appends for a packet, \<open>None\<close> when it refuses the packet.\<close>

definition packet_record :: "flag_ops \<Rightarrow> chrono_ops \<Rightarrow> packet \<Rightarrow> bytes option" where
  "packet_record fl ch p =
     (case (pcap_timestamp_seconds ch (pkt_timestamp p), encode_raw_ip_packet fl p) of
        (Inr ts_sec, Some (Inr data)) \<Rightarrow>
          (case pcap_record_len (length data) of
             Inr len \<Rightarrow> Some (u32_to_le ts_sec @ u32_to_le (ch_subsec_micros ch (pkt_timestamp p))
               @ u32_to_le len @ u32_to_le len @ data)
           | Inl _ \<Rightarrow> None)
      | _ \<Rightarrow> None)"

lemma write_packet_open:
  assumes "pw_enabled w" "pw_file w = Some f"
  shows "\<exists>r. write_packet fl ch None p w =
    Some (r, w\<lparr>pw_file := Some (f @ (case packet_record fl ch p of None \<Rightarrow> [] | Some b \<Rightarrow> b))\<rparr>)"
  using encode_raw_ip_packet_returns [of fl p] assms
  by (auto simp: wp_def write_packet_def write_all_def packet_record_def split: sum.splits)

lemma packet_record_Some:
  assumes "packet_record fl ch p = Some b" "chrono_ok ch"
  obtains ts us len data where "encode_raw_ip_packet fl p = Some (Inr data)"
    "b = u32_to_le ts @ u32_to_le us @ u32_to_le len @ u32_to_le len @ data"
    "uint ts = pkt_timestamp p div 1000000000" "uint us = pkt_timestamp p mod 1000000000 div 1000"
    "unat len = length data" "length data \<le> 65535"
proof -
  obtain ts len data where b: "pcap_timestamp_seconds ch (pkt_timestamp p) = Inr ts"
    "encode_raw_ip_packet fl p = Some (Inr data)" "pcap_record_len (length data) = Inr len"
    "b = u32_to_le ts @ u32_to_le (ch_subsec_micros ch (pkt_timestamp p)) @ u32_to_le len @ u32_to_le len @ data"
    using assms(1) by (auto simp: packet_record_def split: sum.splits option.splits)
  have "uint ts = pkt_timestamp p div 1000000000"
    using b(1) assms(2)
    by (auto simp: pcap_timestamp_seconds_def chrono_ok_def u32_try_from_def of_int_of_nat_eq
        unsigned_of_int take_bit_int_eq_self split: if_splits)
  moreover have "unat len = length data" "length data \<le> 65535"
    using b(3) by (auto simp: pcap_record_len_def MAX_PCAP_RECORD_BYTES_def u32_try_from_def
        unat_word_nat_u32 split: if_splits)
  moreover have "uint (ch_subsec_micros ch (pkt_timestamp p)) = pkt_timestamp p mod 1000000000 div 1000"
    using assms(2) by (simp add: chrono_ok_def)
  ultimately show thesis using b that by blast
qed

text \<open>Capture files keep microseconds.\<close>

lemma micros_of_timestamp:
  fixes t :: int
  shows "t div 1000000000 * 1000000000 + t mod 1000000000 div 1000 * 1000 = t - t mod 1000"
proof -
  have "t mod 1000000000 div 1000 * 1000 = t mod 1000000000 - t mod 1000000000 mod 1000"
    by (simp add: minus_mod_eq_div_mult)
  moreover have "t mod 1000000000 mod 1000 = t mod 1000"
    by (rule mod_mod_cancel) simp
  moreover have "t div 1000000000 * 1000000000 = t - t mod 1000000000"
    by (simp add: minus_mod_eq_div_mult)
  ultimately show ?thesis by linarith
qed

definition writer_header :: pcap_header where
  "writer_header = \<lparr>ph_swapped = False, ph_nano = False, ph_snaplen = 65535, ph_linktype = PCAP_LINKTYPE_RAW,
     ph_link_header_len = 0\<rparr>"

lemma read_record_written:
  assumes "packet_record fl ch p = Some b" "flag_ops_ok fl" "chrono_ok ch" "canonical_packet p"
    and "protocol (pkt_five_tuple p) \<in> {Tcp, Udp, Icmp, Igmp}" "k < MAX_PCAP_RECORDS"
    and "length pre \<le> MAX_PCAP_READ_BYTES"
  shows "read_record fl ch fresh (pre @ b @ post) writer_header (length pre) k =
    Some (Inr (recaptured fl (fst (fresh k)) (pkt_timestamp p - pkt_timestamp p mod 1000) (length b - 16) p,
      length pre + length b))"
proof -
  obtain ts us len data where data: "encode_raw_ip_packet fl p = Some (Inr data)"
    "b = u32_to_le ts @ u32_to_le us @ u32_to_le len @ u32_to_le len @ data"
    "uint ts = pkt_timestamp p div 1000000000" "uint us = pkt_timestamp p mod 1000000000 div 1000"
    "unat len = length data" "length data \<le> 65535"
    using assms(1,3) by (rule packet_record_Some)
  let ?buf = "pre @ b @ post"
  have fields: "read_u32 False ?buf (length pre) = Some ts" "read_u32 False ?buf (length pre + 4) = Some us"
    "read_u32 False ?buf (length pre + 8) = Some len" "read_u32 False ?buf (length pre + 12) = Some len"
    using read_u32_at [of _ pre ts] read_u32_at [of _ "pre @ u32_to_le ts" us]
      read_u32_at [of _ "pre @ u32_to_le ts @ u32_to_le us" len]
      read_u32_at [of _ "pre @ u32_to_le ts @ u32_to_le us @ u32_to_le len" len]
    by (simp_all add: data(2))
  have slice: "slice ?buf (length pre + 16) (length pre + 16 + length data) = Some data"
    by (simp add: data(2) slice_def)
  have room: "checked_add (length pre + 16) (length data) = Some (length pre + 16 + length data)"
    using assms(7) data(6) by (simp add: checked_add_def usize_max_def MAX_PCAP_READ_BYTES_def)
  have "pkt_timestamp p mod 1000000000 < 1000000000" by simp
  then have "pkt_timestamp p mod 1000000000 div 1000 \<le> 999999999 div 1000" by (intro zdiv_mono1) auto
  then have us: "uint us < 1000000" unfolding data(4) by simp
  then have "int (unat us) < 1000000" by simp
  then have micros: "\<not> 1000000 \<le> unat us" by linarith
  have "uint (us * 1000) = uint us * 1000"
    using us uint_mult_lem [of us 1000] by simp
  moreover have "0 \<le> uint ts" "uint ts < 4294967296" using unsigned_less [of ts, where ?'a = int] by simp_all
  ultimately have "ch_from_timestamp ch (uint ts) (us * 1000) = Some (uint ts * 1000000000 + uint us * 1000)"
    using assms(3) us by (simp add: chrono_ok_def)
  then have time: "ch_from_timestamp ch (uint ts) (us * 1000) =
      Some (pkt_timestamp p - pkt_timestamp p mod 1000)"
    unfolding data(3,4) micros_of_timestamp .
  have len: "length b = 16 + length data" "length pre + 16 + length data \<le> length ?buf"
    by (simp_all add: data(2))
  show ?thesis
    using assms(6) len data(6)
    by (simp add: read_record_def writer_header_def fields slice room micros time data(5)
        parse_encoded_packet [OF data(1) assms(2,4,5)] Let_def)
qed

section \<open>Files\<close>

text \<open>A capture session: a new writer is opened and offered a list of packets; the packets it refuses
  leave the file as it is. The result is the file.\<close>

fun offer_packets :: "flag_ops \<Rightarrow> chrono_ops \<Rightarrow> packet list \<Rightarrow> pcap_writer \<Rightarrow> pcap_writer rs" where
  "offer_packets fl ch [] w = Some w"
| "offer_packets fl ch (p # ps) w = do { (r, w) \<leftarrow> write_packet fl ch None p w; offer_packets fl ch ps w }"

definition capture_session :: "flag_ops \<Rightarrow> chrono_ops \<Rightarrow> bytes \<Rightarrow> packet list \<Rightarrow> bytes option rs" where
  "capture_session fl ch path ps =
     (case pcap_writer_new path of
        Inl e \<Rightarrow> Some None
      | Inr w \<Rightarrow> do { w \<leftarrow> offer_packets fl ch ps (snd (pcap_open True None w)); Some (pw_file w) })"

definition recaptures :: "flag_ops \<Rightarrow> (nat \<Rightarrow> uuid \<times> timestamp) \<Rightarrow> nat \<Rightarrow> (packet \<times> bytes) list \<Rightarrow> packet list" where
  "recaptures fl fresh k qs = concat (map (\<lambda>(i, p, b).
     case recaptured fl (fst (fresh i)) (pkt_timestamp p - pkt_timestamp p mod 1000) (length b - 16) p of
       None \<Rightarrow> [] | Some q \<Rightarrow> [q]) (enumerate k qs))"

definition written :: "flag_ops \<Rightarrow> chrono_ops \<Rightarrow> packet list \<Rightarrow> (packet \<times> bytes) list" where
  "written fl ch ps = List.map_filter (\<lambda>p. map_option (\<lambda>b. (p, b)) (packet_record fl ch p)) ps"

lemma written_simps [simp]:
  "written fl ch [] = []"
  "written fl ch (p # ps) =
     (case packet_record fl ch p of None \<Rightarrow> written fl ch ps | Some b \<Rightarrow> (p, b) # written fl ch ps)"
  by (simp_all add: written_def split: option.split)

lemma set_written: "(p, b) \<in> set (written fl ch ps) \<Longrightarrow> p \<in> set ps \<and> packet_record fl ch p = Some b"
  by (induction ps) (auto split: option.splits)

lemma length_written: "length (written fl ch ps) \<le> length ps"
  by (induction ps) (auto split: option.splits)

lemma recaptures_simps [simp]:
  "recaptures fl fresh k [] = []"
  "recaptures fl fresh k ((p, b) # qs) =
     (case recaptured fl (fst (fresh k)) (pkt_timestamp p - pkt_timestamp p mod 1000) (length b - 16) p of
        None \<Rightarrow> [] | Some q \<Rightarrow> [q]) @ recaptures fl fresh (Suc k) qs"
  by (simp_all add: recaptures_def)

lemma offer_packets_file:
  assumes "pw_enabled w" "pw_file w = Some f"
  shows "offer_packets fl ch ps w = Some (w\<lparr>pw_file := Some (f @ concat (map snd (written fl ch ps)))\<rparr>)"
  using assms
proof (induction ps arbitrary: w f)
  case (Cons p ps)
  obtain r where "write_packet fl ch None p w =
      Some (r, w\<lparr>pw_file := Some (f @ (case packet_record fl ch p of None \<Rightarrow> [] | Some b \<Rightarrow> b))\<rparr>)"
    using write_packet_open [OF Cons.prems] by blast
  with Cons show ?case by (simp split: option.split)
qed simp

lemma capture_session_file:
  "path \<noteq> [] \<Longrightarrow> capture_session fl ch path ps = Some (Some (global_header @ concat (map snd (written fl ch ps))))"
  by (simp add: capture_session_def pcap_writer_new_def pcap_open_def write_global_header_def write_all_def
      offer_packets_file)

lemma read_global_header_written: "read_global_header (global_header @ rest) = Some (Inr writer_header)"
  by (simp add: read_global_header_def global_header_def read_u32_def read_u16_def idx_def u32_to_le_def
      u16_to_le_def u32_to_be_def u16_to_be_def u32_le_def u16_le_def u32_be_def u16_be_def magic_format_def
      link_header_len_of_def writer_header_def linktype_defs PCAP_MAGIC_def PCAP_VERSION_MAJOR_def
      PCAP_VERSION_MINOR_def PCAP_SNAPLEN_def MAX_PCAP_RECORD_BYTES_def Let_def)

lemma record_length: "packet_record fl ch p = Some b \<Longrightarrow> 16 \<le> length b"
  by (auto simp: packet_record_def split: sum.splits option.splits)

lemma read_records_written:
  assumes "flag_ops_ok fl" "chrono_ok ch"
    and "\<And>p b. (p, b) \<in> set qs \<Longrightarrow> packet_record fl ch p = Some b \<and> canonical_packet p
      \<and> protocol (pkt_five_tuple p) \<in> {Tcp, Udp, Icmp, Igmp}"
    and "buf = pre @ concat (map snd qs)" "length buf \<le> MAX_PCAP_READ_BYTES" "k + length qs \<le> MAX_PCAP_RECORDS"
  shows "read_records (read_record fl ch fresh buf writer_header) (length buf) (length pre) k packets =
    Some (Inr (packets @ recaptures fl fresh k qs, length buf))"
  using assms(3-)
proof (induction qs arbitrary: pre k packets)
  case Nil
  then show ?case by (subst read_records.simps) simp
next
  case (Cons q qs)
  obtain p b where q: "q = (p, b)" by (cases q)
  have p: "packet_record fl ch p = Some b" "canonical_packet p"
    "protocol (pkt_five_tuple p) \<in> {Tcp, Udp, Icmp, Igmp}"
    using Cons.prems(1) [of p b] by (simp_all add: q)
  have buf: "buf = pre @ b @ concat (map snd qs)" using Cons.prems(2) by (simp add: q)
  have step: "read_record fl ch fresh buf writer_header (length pre) k = Some (Inr (recaptured fl
      (fst (fresh k)) (pkt_timestamp p - pkt_timestamp p mod 1000) (length b - 16) p, length (pre @ b)))"
    using read_record_written [OF p(1) assms(1,2) p(2,3), of k pre] Cons.prems(3,4) by (simp add: buf)
  have "read_records (read_record fl ch fresh buf writer_header) (length buf) (length (pre @ b)) (Suc k) ps =
      Some (Inr (ps @ recaptures fl fresh (Suc k) qs, length buf))" for ps
    using Cons.prems by (intro Cons.IH) (auto simp: q)
  moreover have "length pre + 16 \<le> length buf" using record_length [OF p(1)] by (simp add: buf)
  ultimately show ?case
    by (subst read_records.simps) (simp add: step q split: option.split)
qed

lemma read_written_file:
  assumes "flag_ops_ok fl" "chrono_ok ch"
    and "\<And>p b. (p, b) \<in> set qs \<Longrightarrow> packet_record fl ch p = Some b \<and> canonical_packet p
      \<and> protocol (pkt_five_tuple p) \<in> {Tcp, Udp, Icmp, Igmp}"
    and "f = global_header @ concat (map snd qs)" "length f \<le> MAX_PCAP_READ_BYTES" "length qs \<le> MAX_PCAP_RECORDS"
  shows "read_file fl ch fresh \<lparr>so_has_file_name = True, so_content = Some f, so_len = length f\<rparr> =
    Some (Inr (recaptures fl fresh 0 qs))"
proof -
  have "length global_header = 24" by (simp add: global_header_def)
  then have records: "read_records (read_record fl ch fresh f writer_header) (length f) 24 0 [] =
      Some (Inr ([] @ recaptures fl fresh 0 qs, length f))"
    using read_records_written [OF assms(1-5), of 0 fresh "[]"] assms(6) by simp
  have "read_limited_pcap_bytes f MAX_PCAP_READ_BYTES = Inr (Some f)"
    using assms(5) by (simp add: read_limited_pcap_bytes_def checked_add_def usize_max_def MAX_PCAP_READ_BYTES_def)
  then show ?thesis
    using assms(5) read_global_header_written [of "concat (map snd qs)"]
    by (simp add: read_file_def records flip: assms(4))
qed


text \<open>The datagram of the checksum example in a capture file.\<close>

definition demo_chrono :: chrono_ops where
  "demo_chrono = \<lparr>ch_timestamp = \<lambda>t. t div 1000000000,
     ch_subsec_micros = \<lambda>t. word_of_int (t mod 1000000000 div 1000),
     ch_from_timestamp = \<lambda>s n. Some (s * 1000000000 + uint n), ch_unix_epoch = 0\<rparr>"

definition demo_record :: bytes where
  "demo_record = [0, 0, 0, 0, 1, 0, 0, 0, 29, 0, 0, 0, 29, 0, 0, 0] @ demo_bytes"

definition demo_source :: pcap_source where
  "demo_source = \<lparr>so_has_file_name = True, so_content = Some (global_header @ demo_record), so_len = 69\<rparr>"

lemma demo_chrono_ok: "chrono_ok demo_chrono"
proof -
  have "0 \<le> t mod 1000000000 div 1000" "t mod 1000000000 div 1000 < 4294967296" for t :: int
  proof -
    have "t mod 1000000000 < 1000000000" "0 \<le> t mod 1000000000" by simp_all
    then have "t mod 1000000000 div 1000 \<le> 999999999 div 1000" by (intro zdiv_mono1) auto
    then show "t mod 1000000000 div 1000 < 4294967296" by simp
    show "0 \<le> t mod 1000000000 div 1000" using \<open>0 \<le> t mod 1000000000\<close> by simp
  qed
  then show ?thesis
    by (simp add: chrono_ok_def demo_chrono_def unsigned_of_int take_bit_int_eq_self)
qed

lemma demo_packet_record: "packet_record demo_flags demo_chrono demo_datagram = Some demo_record"
proof -
  have "pkt_timestamp demo_datagram = 1000" "length demo_bytes = 29"
    by (simp_all add: demo_datagram_def packet_new_def demo_bytes_def)
  then show ?thesis
    by (simp add: packet_record_def demo_encoded demo_chrono_def pcap_timestamp_seconds_def u32_try_from_def
        pcap_record_len_def MAX_PCAP_RECORD_BYTES_def u32_to_le_def u32_to_be_def demo_record_def)
qed

lemma demo_written: "written demo_flags demo_chrono [demo_datagram] = [(demo_datagram, demo_record)]"
  by (simp add: demo_packet_record)

lemma demo_recaptures:
  "recaptures demo_flags (\<lambda>_. (7, 0)) 0 [(demo_datagram, demo_record)] = [reread 7 1000 29 PktUnknown demo_datagram]"
proof -
  have "length demo_record = 45" by (simp add: demo_record_def demo_bytes_def)
  moreover have "pkt_timestamp demo_datagram = 1000" "protocol (pkt_five_tuple demo_datagram) = Udp"
    "infer_direction (src_ip (pkt_five_tuple demo_datagram)) (dst_ip (pkt_five_tuple demo_datagram)) = PktUnknown"
    by (simp_all add: demo_datagram_def packet_new_def five_tuple_new_def infer_direction_def)
  ultimately show ?thesis by (simp add: recaptured_def Let_def)
qed

lemma demo_capture:
  "capture_session demo_flags demo_chrono [0x61] [demo_datagram] = Some (Some (global_header @ demo_record))"
  "length (global_header @ demo_record) = 69"
  "canonical_packet demo_datagram" "protocol (pkt_five_tuple demo_datagram) = Udp"
proof -
  show "capture_session demo_flags demo_chrono [0x61] [demo_datagram] = Some (Some (global_header @ demo_record))"
    by (simp add: capture_session_file demo_written del: written_simps)
  show "length (global_header @ demo_record) = 69"
    by (simp add: global_header_def demo_record_def demo_bytes_def)
  show "canonical_packet demo_datagram" "protocol (pkt_five_tuple demo_datagram) = Udp"
    by (simp_all add: canonical_packet_def demo_datagram_def packet_new_def five_tuple_new_def)
qed


lemma demo_read:
  "read_file demo_flags demo_chrono (\<lambda>_. (7, 0)) demo_source =
     Some (Inr [reread 7 1000 29 PktUnknown demo_datagram])"
  using read_written_file [OF demo_flags_ok demo_chrono_ok, of "[(demo_datagram, demo_record)]"
      "global_header @ demo_record" "\<lambda>_. (7, 0)"] demo_capture
  by (simp add: demo_source_def demo_packet_record demo_recaptures MAX_PCAP_READ_BYTES_def MAX_PCAP_RECORDS_def
      del: recaptures_simps length_append)

text \<open>
  Property C33. Every packet read from a capture file is well formed: its protocol is TCP, UDP or ICMP
  and exactly the TCP packets have flags, its addresses are in canonical form, ICMP packets have no
  ports, its payload is at most 65527 bytes and its VLAN tag has twelve bits.
\<close>

theorem read_file_packets_wf:
  assumes "read_file fl ch fresh src = Some (Inr ps)" and "p \<in> set ps"
  shows "captured_wf p"
  using wp_result [OF read_file_wp assms(1)] assms(2) by simp

theorem read_file_packets_wf_witness: "captured_wf (reread 7 1000 29 PktUnknown demo_datagram)"
  by (rule read_file_packets_wf [OF demo_read]) simp

end
