(* ===== verification/Intercept.thy ===== *)
theory Intercept
  imports Pcap_Roundtrip
begin

text \<open>
  \<open>nettrap-interceptor/src/pcap.rs\<close>: decoding of frames captured live. The parsers get the whole frame
  and a position, where those of the capture file reader get the IP packet cut out; the agreement of
  the two on Ethernet frames is proved below. The interceptor has its own copies of
  \<open>is_local_address\<close>, \<open>infer_direction\<close>, \<open>infer_tcp_direction\<close> and \<open>apply_vlan_tag\<close> with the text of
  those of the reader, so the definitions of the reader serve for both. The link types are constants
  of the \<open>pcap\<close> crate. Opening the device and the capture loop are input and output.
\<close>

datatype link_type = LT_Ethernet | LT_Raw | LT_Ipv4 | LT_Ipv6 | LT_Null | LT_Loop | LT_Other

definition live_parse_transport ::
    "flag_ops \<Rightarrow> uuid \<times> timestamp \<Rightarrow> bytes \<Rightarrow> usize \<Rightarrow> usize \<Rightarrow> u8 \<Rightarrow> ip_addr \<Rightarrow> ip_addr \<Rightarrow> bytes
       \<Rightarrow> packet option rs" where
  "live_parse_transport fl fresh data packet_end transport_offset proto src dst iface =
     (if packet_end < transport_offset then Some None
      else if proto = 6 then
        if packet_end < transport_offset + 20 then Some None
        else do {
          off \<leftarrow> idx data (transport_offset + 12);
          let tcp_header_len = unat (drop_bit 4 off) * 4 in
          if tcp_header_len < 20 \<or> packet_end < transport_offset + tcp_header_len then Some None
          else do {
            sp \<leftarrow> be16 data transport_offset;
            dp \<leftarrow> be16 data (transport_offset + 2);
            fb \<leftarrow> idx data (transport_offset + 13);
            let flags = fl_from_bits_truncate fl fb;
                direction = infer_tcp_direction fl src dst flags;
                payload_start = transport_offset + tcp_header_len
            in do {
              payload \<leftarrow> slice data payload_start packet_end;
              let packet = with_interface (with_tcp_flags (fl_contains fl)
                    (packet_new (fst fresh) (snd fresh) (five_tuple_new src dst sp dp Tcp) direction payload)
                    flags) iface
              in Some (Some (packet\<lparr>pkt_length := packet_end\<rparr>)) } } }
      else if proto = 17 then
        if packet_end < transport_offset + 8 then Some None
        else do {
          let direction = infer_direction src dst;
          udp_len \<leftarrow> be16 data (transport_offset + 4);
          let udp_len = unat udp_len in
          if udp_len < 8 then Some None
          else let_else (checked_add transport_offset udp_len) None (\<lambda>udp_end.
            if udp_end > packet_end then Some None
            else do {
              sp \<leftarrow> be16 data transport_offset;
              dp \<leftarrow> be16 data (transport_offset + 2);
              let payload_start = transport_offset + 8 in do {
              payload \<leftarrow> slice data payload_start udp_end;
              let packet = with_interface
                    (packet_new (fst fresh) (snd fresh) (five_tuple_new src dst sp dp Udp) direction payload) iface
              in Some (Some (packet\<lparr>pkt_length := udp_end\<rparr>)) } }) }
      else if proto = 1 \<or> proto = 58 then
        let direction = infer_direction src dst in
        let_else (checked_add transport_offset 8) None (\<lambda>payload_start.
        if packet_end < payload_start then Some None
        else do {
          payload \<leftarrow> slice data payload_start packet_end;
          let packet = with_interface
                (packet_new (fst fresh) (snd fresh) (five_tuple_new src dst 0 0 Icmp) direction payload) iface
          in Some (Some (packet\<lparr>pkt_length := packet_end\<rparr>)) })
      else Some None)"

definition live_parse_ipv4 ::
    "flag_ops \<Rightarrow> uuid \<times> timestamp \<Rightarrow> bytes \<Rightarrow> usize \<Rightarrow> usize \<Rightarrow> bytes \<Rightarrow> packet option rs" where
  "live_parse_ipv4 fl fresh data len ip_offset iface =
     (if len < ip_offset + 20 then Some None
      else do {
        first \<leftarrow> idx data ip_offset;
        let ihl = unat (first AND 0x0F) * 4 in
        if ihl < 20 \<or> len < ip_offset + ihl then Some None
        else do {
          total_len \<leftarrow> be16 data (ip_offset + 2);
          let total_len = unat total_len in
          if total_len < ihl then Some None
          else let_else (checked_add ip_offset total_len) None (\<lambda>packet_end.
            if packet_end > len then Some None
            else do {
              fragment \<leftarrow> be16 data (ip_offset + 6);
              if fragment AND 0x3fff \<noteq> 0 then Some None
              else do {
                s0 \<leftarrow> idx data (ip_offset + 12); s1 \<leftarrow> idx data (ip_offset + 13);
                s2 \<leftarrow> idx data (ip_offset + 14); s3 \<leftarrow> idx data (ip_offset + 15);
                d0 \<leftarrow> idx data (ip_offset + 16); d1 \<leftarrow> idx data (ip_offset + 17);
                d2 \<leftarrow> idx data (ip_offset + 18); d3 \<leftarrow> idx data (ip_offset + 19);
                protocol_num \<leftarrow> idx data (ip_offset + 9);
                live_parse_transport fl fresh data packet_end (ip_offset + ihl) protocol_num
                  (V4 (Ipv4 s0 s1 s2 s3)) (V4 (Ipv4 d0 d1 d2 d3)) iface } }) } })"

text \<open>The loop of \<open>ipv6_transport_start\<close>; the first argument counts its remaining iterations.\<close>

fun live_ipv6_headers :: "nat \<Rightarrow> bytes \<Rightarrow> usize \<Rightarrow> u8 \<Rightarrow> usize \<Rightarrow> (u8 \<times> usize) option rs" where
  "live_ipv6_headers 0 data packet_end proto offset = Some None"
| "live_ipv6_headers (Suc n) data packet_end proto offset =
     (if proto = 0 \<or> proto = 43 \<or> proto = 60 then
        tryo (idx data offset) (\<lambda>next_proto.
        tryo (idx data (offset + 1)) (\<lambda>len.
        tryo (checked_add (unat len) 1) (\<lambda>units.
        tryo (checked_mul 8 units) (\<lambda>header_len.
        tryo (checked_add offset header_len) (\<lambda>next_offset.
        if next_offset > packet_end then Some None
        else live_ipv6_headers n data packet_end next_proto next_offset)))))
      else if proto = 44 then
        tryo (checked_add offset 8) (\<lambda>header_end.
        tryo (slice data offset header_end) (\<lambda>header. do {
          fragment \<leftarrow> be16 header 2;
          if fragment \<noteq> 0 then Some None
          else do {
            next_proto \<leftarrow> idx header 0;
            tryo (checked_add offset 8) (\<lambda>offset. live_ipv6_headers n data packet_end next_proto offset) } }))
      else if proto = 59 then Some None
      else Some (Some (proto, offset)))"

definition live_ipv6_transport_start :: "bytes \<Rightarrow> usize \<Rightarrow> usize \<Rightarrow> (u8 \<times> usize) option rs" where
  "live_ipv6_transport_start data ip_offset packet_end = do {
     proto \<leftarrow> idx data (ip_offset + 6);
     tryo (checked_add ip_offset 40) (\<lambda>offset. live_ipv6_headers 8 data packet_end proto offset) }"

definition live_parse_ipv6 ::
    "flag_ops \<Rightarrow> uuid \<times> timestamp \<Rightarrow> bytes \<Rightarrow> usize \<Rightarrow> usize \<Rightarrow> bytes \<Rightarrow> packet option rs" where
  "live_parse_ipv6 fl fresh data len ip_offset iface =
     (if len < ip_offset + 40 then Some None
      else do {
        payload_len \<leftarrow> be16 data (ip_offset + 4);
        let_else (checked_add ip_offset (40 + unat payload_len)) None (\<lambda>packet_end.
        if packet_end > len then Some None
        else do {
          src \<leftarrow> slice data (ip_offset + 8) (ip_offset + 24);
          dst \<leftarrow> slice data (ip_offset + 24) (ip_offset + 40);
          start \<leftarrow> live_ipv6_transport_start data ip_offset packet_end;
          let_else start None (\<lambda>(protocol_num, transport_offset).
            live_parse_transport fl fresh data packet_end transport_offset protocol_num
              (V6 (ipv6_from_octets src)) (V6 (ipv6_from_octets dst)) iface) }) })"

definition live_parse_ip_packet ::
    "flag_ops \<Rightarrow> uuid \<times> timestamp \<Rightarrow> bytes \<Rightarrow> usize \<Rightarrow> usize \<Rightarrow> u8 option \<Rightarrow> bytes \<Rightarrow> packet option rs" where
  "live_parse_ip_packet fl fresh data len offset version_hint iface =
     (if len \<le> offset then Some None
      else do {
        first \<leftarrow> idx data offset;
        let version = (case version_hint of Some v \<Rightarrow> v | None \<Rightarrow> drop_bit 4 first AND 0x0F) in
        if version = 4 then live_parse_ipv4 fl fresh data len offset iface
        else if version = 6 then live_parse_ipv6 fl fresh data len offset iface
        else Some None })"

text \<open>\<open>little\<close>: the byte order of the host.\<close>

definition live_parse_null_loopback ::
    "flag_ops \<Rightarrow> bool \<Rightarrow> uuid \<times> timestamp \<Rightarrow> bytes \<Rightarrow> usize \<Rightarrow> bool \<Rightarrow> bytes \<Rightarrow> packet option rs" where
  "live_parse_null_loopback fl little fresh data len big_endian iface =
     (if len < 4 then Some None
      else do {
        a \<leftarrow> idx data 0; b \<leftarrow> idx data 1; c \<leftarrow> idx data 2; d \<leftarrow> idx data 3;
        let family = (if big_endian \<or> \<not> little then u32_be a b c d else u32_le a b c d) in
        if family = 2 then live_parse_ipv4 fl fresh data len 4 iface
        else if family = 23 \<or> family = 24 \<or> family = 28 \<or> family = 30
        then live_parse_ipv6 fl fresh data len 4 iface
        else Some None })"

text \<open>The loop over VLAN tags; the first argument counts the tags that may still follow.\<close>

fun live_vlan_loop :: "nat \<Rightarrow> bytes \<Rightarrow> usize \<Rightarrow> u16 \<Rightarrow> usize \<Rightarrow> u16 option \<Rightarrow> (u16 \<times> usize \<times> u16 option) option rs" where
  "live_vlan_loop left data len ethertype ip_offset vlan_tag =
     (if ethertype = 0x8100 \<or> ethertype = 0x88A8 then
        (case left of
           0 \<Rightarrow> Some None
         | Suc left \<Rightarrow>
             if len < ip_offset + 4 then Some None
             else do {
               tag \<leftarrow> be16 data ip_offset;
               ethertype \<leftarrow> be16 data (ip_offset + 2);
               live_vlan_loop left data len ethertype (ip_offset + 4)
                 (Some (case vlan_tag of Some t \<Rightarrow> t | None \<Rightarrow> tag AND 0x0fff)) })
      else Some (Some (ethertype, ip_offset, vlan_tag)))"

definition live_parse_ethernet ::
    "flag_ops \<Rightarrow> uuid \<times> timestamp \<Rightarrow> bytes \<Rightarrow> usize \<Rightarrow> bytes \<Rightarrow> packet option rs" where
  "live_parse_ethernet fl fresh data len iface =
     (if len < 14 then Some None
      else do {
        ethertype \<leftarrow> be16 data 12;
        r \<leftarrow> live_vlan_loop MAX_VLAN_DEPTH data len ethertype 14 None;
        let_else r None (\<lambda>(ethertype, ip_offset, vlan_tag).
          if ethertype = 0x0800 then do {
            p \<leftarrow> live_parse_ipv4 fl fresh data len ip_offset iface;
            Some (map_option (\<lambda>p. pcap_apply_vlan_tag p vlan_tag) p) }
          else if ethertype = 0x86DD then do {
            p \<leftarrow> live_parse_ipv6 fl fresh data len ip_offset iface;
            Some (map_option (\<lambda>p. pcap_apply_vlan_tag p vlan_tag) p) }
          else Some None) })"

definition live_parse_packet ::
    "flag_ops \<Rightarrow> bool \<Rightarrow> uuid \<times> timestamp \<Rightarrow> bytes \<Rightarrow> usize \<Rightarrow> link_type \<Rightarrow> bytes \<Rightarrow> packet option rs" where
  "live_parse_packet fl little fresh data len linktype iface =
     (let len = min len (length data) in
      case linktype of
        LT_Ethernet \<Rightarrow> live_parse_ethernet fl fresh data len iface
      | LT_Raw \<Rightarrow> live_parse_ip_packet fl fresh data len 0 (Some 4) iface
      | LT_Ipv4 \<Rightarrow> live_parse_ip_packet fl fresh data len 0 (Some 4) iface
      | LT_Ipv6 \<Rightarrow> live_parse_ip_packet fl fresh data len 0 (Some 6) iface
      | LT_Null \<Rightarrow> live_parse_null_loopback fl little fresh data len False iface
      | LT_Loop \<Rightarrow> live_parse_null_loopback fl little fresh data len True iface
      | LT_Other \<Rightarrow> live_parse_ip_packet fl fresh data len 0 None iface)"

declare live_vlan_loop.simps [simp del]

section \<open>Agreement with the capture file reader\<close>

text \<open>What an observer of a packet sees: everything but its identifier, time, length and interface.\<close>

definition observation ::
    "packet \<Rightarrow> five_tuple \<times> packet_direction \<times> packet_type \<times> tcp_flags option \<times> bytes \<times> u16 option" where
  "observation p = (pkt_five_tuple p, pkt_direction p, pkt_packet_type p, pkt_tcp_flags p, pkt_payload p,
     pkt_vlan_tag p)"

definition agree :: "packet option rs \<Rightarrow> packet option rs \<Rightarrow> bool" where
  "agree a b \<longleftrightarrow> (\<exists>x y. a = Some x \<and> b = Some y \<and> map_option observation x = map_option observation y)"

lemma agree_Some [simp]: "agree (Some x) (Some y) \<longleftrightarrow> map_option observation x = map_option observation y"
  by (simp add: agree_def)

text \<open>The frame is \<open>pre @ pd @ pad\<close>: the bytes before the IP packet, the IP packet and the padding.\<close>

lemma frame_bytes:
  assumes "i < length pd"
  shows "idx pd i = Some (pd ! i)" "idx (pre @ pd @ pad) (length pre + i) = Some (pd ! i)"
  using assms by (simp_all add: nth_append)

lemma frame_be16:
  assumes "i + 1 < length pd"
  shows "be16 pd i = Some (u16_be (pd ! i) (pd ! (i + 1)))"
    "be16 (pre @ pd @ pad) (length pre + i) = Some (u16_be (pd ! i) (pd ! (i + 1)))"
  using assms by (simp_all add: be16_def nth_append)

lemma frame_slice:
  assumes "i \<le> j" "j \<le> length pd"
  shows "slice pd i j = Some (take (j - i) (drop i pd))"
    "slice (pre @ pd @ pad) (length pre + i) (length pre + j) = Some (take (j - i) (drop i pd))"
  using assms by simp_all

lemmas frame_reads = frame_bytes frame_be16 frame_slice

declare idx_in [simp del] slice_in [simp del] behind_prefix [simp del]
  add_2_eq_Suc [simp del] add_2_eq_Suc' [simp del]

lemma tcp_agree:
  assumes "length pre + to + 100000 \<le> usize_max" "to \<le> length pd"
  shows "agree (live_parse_transport fl fr (pre @ pd @ pad) (length pre + length pd) (length pre + to) 6 s d iface)
    (pcap_parse_transport fl fr' pd to 6 s d t n)"
proof (cases "length pd < to + 20")
  case True
  with assms show ?thesis
    by (simp add: live_parse_transport_def pcap_parse_transport_def checked_add_def)
next
  case False
  let ?n = "unat (drop_bit 4 (pd ! (to + 12))) * 4"
  have "unat (drop_bit 4 (pd ! (to + 12))) = unat (pd ! (to + 12)) div 16"
    by (simp add: drop_bit_eq_div unat_div)
  then have n: "?n \<le> 60"
    using div_le_mono [OF unat_u8_le, of "pd ! (to + 12)" 16] by simp
  note reads = frame_bytes [where i = "to + 12"] frame_bytes [where i = "to + 13"]
    frame_be16 [where i = to] frame_be16 [where i = "to + 2"]
    frame_slice(2) [where i = "to + ?n" and j = "length pd"]
  show ?thesis
    using n False assms
    by (auto simp: live_parse_transport_def pcap_parse_transport_def reads slice_from_def checked_add_def
        Let_def add.assoc observation_def packet_build_defs with_interface_def)
qed

lemma udp_agree:
  assumes "length pre + to + 100000 \<le> usize_max" "to \<le> length pd"
  shows "agree (live_parse_transport fl fr (pre @ pd @ pad) (length pre + length pd) (length pre + to) 17 s d iface)
    (pcap_parse_transport fl fr' pd to 17 s d t n)"
proof (cases "length pd < to + 8")
  case True
  with assms show ?thesis
    by (simp add: live_parse_transport_def pcap_parse_transport_def checked_add_def)
next
  case False
  define w where "w = u16_be (pd ! (to + 4)) (pd ! (to + 4 + 1))"
  have w: "unat w \<le> 65535" using unat_u16_less [of w] by linarith
  note reads = frame_be16 [where i = "to + 4" and pd = pd, folded w_def] frame_be16 [where i = to]
    frame_be16 [where i = "to + 2"] frame_slice [where i = "to + 8" and j = "to + unat w"]
  show ?thesis
    using w False assms
    by (auto simp: live_parse_transport_def pcap_parse_transport_def reads checked_add_def Let_def add.assoc
        observation_def packet_build_defs with_interface_def)
qed

lemma icmp_agree:
  assumes "length pre + to + 100000 \<le> usize_max" "to \<le> length pd" "proto = 1 \<or> proto = 58"
  shows "agree (live_parse_transport fl fr (pre @ pd @ pad) (length pre + length pd) (length pre + to) proto s d iface)
    (pcap_parse_transport fl fr' pd to proto s d t n)"
  using assms
  by (auto simp: live_parse_transport_def pcap_parse_transport_def checked_add_def Let_def add.assoc
      frame_slice(2) [where i = "to + 8" and j = "length pd"] slice_from_def
      observation_def packet_build_defs with_interface_def)

lemma transport_agree:
  assumes "length pre + to + 100000 \<le> usize_max"
  shows "agree (live_parse_transport fl fr (pre @ pd @ pad) (length pre + length pd) (length pre + to) proto s d iface)
    (pcap_parse_transport fl fr' pd to proto s d t n)"
proof (cases "to \<le> length pd")
  case True
  consider "proto = 6" | "proto = 17" | "proto = 1 \<or> proto = 58" | "proto \<notin> {1, 6, 17, 58}"
    by fastforce
  then show ?thesis
    using assms True tcp_agree udp_agree icmp_agree
    by cases (auto simp: live_parse_transport_def pcap_parse_transport_def)
next
  case False
  then have "checked_add to k = None \<or> checked_add to k = Some (to + k)" for k by (simp add: checked_add_def)
  with False show ?thesis
    using assms by (auto simp: live_parse_transport_def pcap_parse_transport_def checked_add_def)
qed

lemmas whole_reads = frame_bytes(1) frame_be16(1) frame_slice(1)
  frame_bytes(2) [where pad = "[]", simplified] frame_be16(2) [where pad = "[]", simplified]
  frame_slice(2) [where pad = "[]", simplified]

lemma ipv4_agree:
  assumes "length pre + length ip + 200000 \<le> usize_max" "ip \<noteq> [] \<Longrightarrow> drop_bit 4 (ip ! 0) = 4"
  shows "agree (live_parse_ipv4 fl fr (pre @ ip) (length (pre @ ip)) (length pre) iface)
    (pcap_parse_ipv4_packet fl fr' ip t n)"
proof (cases "length ip < 20")
  case True
  then show ?thesis by (simp add: live_parse_ipv4_def pcap_parse_ipv4_packet_def)
next
  case False
  define b where "b = ip ! 0"
  define w where "w = u16_be (ip ! 2) (ip ! (2 + 1))"
  define frag where "frag = u16_be (ip ! 6) (ip ! (6 + 1))"
  let ?ihl = "unat (b AND 0x0F) * 4"
  have w_le: "unat w \<le> 65535" using unat_u16_less [of w] by linarith
  have reads: "idx (pre @ ip) (length pre + i) = Some (ip ! i)" "idx ip i = Some (ip ! i)" if "i < 20" for i
    using that False by (simp_all add: whole_reads)
  have first: "idx (pre @ ip) (length pre) = Some b" "idx ip 0 = Some b"
    using reads [of 0] by (simp_all add: b_def)
  have reads16: "be16 (pre @ ip) (length pre + 2) = Some w" "be16 ip 2 = Some w"
    "be16 (pre @ ip) (length pre + 6) = Some frag" "be16 ip 6 = Some frag"
    using False frame_be16(1) [of 2 ip] frame_be16(2) [of 2 ip pre "[]"]
      frame_be16(1) [of 6 ip] frame_be16(2) [of 6 ip pre "[]"] by (simp_all add: w_def frag_def)
  have "ip \<noteq> []" using False by auto
  then have version: "drop_bit 4 b = 4" using assms(2) by (simp add: b_def)
  show ?thesis
  proof (cases "?ihl < 20 \<or> length ip < ?ihl \<or> unat w < ?ihl \<or> length ip < unat w \<or> frag AND 0x3fff \<noteq> 0")
    case True
    then show ?thesis
      using False version assms(1) w_le
      by (auto simp: live_parse_ipv4_def pcap_parse_ipv4_packet_def first reads16 checked_add_def Let_def)
  next
    case ok: False
    have pd: "slice ip 0 (unat w) = Some (take (unat w) ip)" using ok by (simp add: slice_def)
    have pd_reads: "idx (take (unat w) ip) i = Some (ip ! i)" if "i < 20" for i
      using ok that by (simp add: idx_def)
    have "agree (live_parse_transport fl fr (pre @ ip) (length pre + unat w) (length pre + ?ihl) (ip ! 9) s d iface)
        (pcap_parse_transport fl fr' (take (unat w) ip) ?ihl (ip ! 9) s d t n)" for s d
      using transport_agree [of pre ?ihl fl fr "take (unat w) ip" "drop (unat w) ip"] ok assms(1) by simp
    then show ?thesis
      using False version assms(1) w_le ok
      by (simp add: live_parse_ipv4_def pcap_parse_ipv4_packet_def first reads reads16 pd pd_reads
          checked_add_def Let_def)
  qed
qed

section \<open>IPv6 extension headers\<close>

text \<open>Once a fragment header has led past the end of the packet, the walk of the interceptor finds no
  transport header inside the packet.\<close>

lemma live_ipv6_headers_past:
  "packet_end < offset \<Longrightarrow> wp (live_ipv6_headers k data packet_end proto offset)
     (\<lambda>r. \<forall>p o'. r = Some (p, o') \<longrightarrow> packet_end < o')"
proof (induction k arbitrary: proto offset)
  case (Suc k)
  then show ?case
    by (auto simp: wp_rules slice_Some_iff intro!: wp_call [OF Suc.IH])
qed (simp add: wp_rules)

definition same_start :: "usize \<Rightarrow> usize \<Rightarrow> (u8 \<times> usize) option \<Rightarrow> (u8 \<times> usize) option \<Rightarrow> bool" where
  "same_start n packet_end a b \<longleftrightarrow>
     (case b of
        Some (p, k) \<Rightarrow> a = Some (p, n + k)
      | None \<Rightarrow> (\<forall>p k. a = Some (p, k) \<longrightarrow> packet_end < k))"

lemma live_option_header_agree:
  assumes "length pre + length (pd @ pad) + 100000 \<le> usize_max" "offset \<le> length pd"
    and "proto = 0 \<or> proto = 43 \<or> proto = 60"
    and IH: "\<And>proto offset. offset \<le> length pd \<Longrightarrow>
      \<exists>a b. live_ipv6_headers k (pre @ pd @ pad) (length pre + length pd) proto (length pre + offset) = Some a
        \<and> pcap_ipv6_headers k pd proto offset = Some b \<and> same_start (length pre) (length pre + length pd) a b"
  shows "\<exists>a b. live_ipv6_headers (Suc k) (pre @ pd @ pad) (length pre + length pd) proto (length pre + offset) = Some a
    \<and> pcap_ipv6_headers (Suc k) pd proto offset = Some b \<and> same_start (length pre) (length pre + length pd) a b"
proof (cases "offset + 1 < length pd")
  case True
  define m where "m = unat (pd ! (offset + 1))"
  let ?next = "offset + 8 * (m + 1)"
  have m: "m \<le> 255" unfolding m_def by (rule unat_u8_le)
  have arith: "checked_add m 1 = Some (m + 1)" "checked_mul 8 (m + 1) = Some (8 * (m + 1))"
    "checked_add offset (8 * (m + 1)) = Some ?next"
    "checked_add (length pre + offset) (8 * (m + 1)) = Some (length pre + ?next)"
    using m assms(1,2) by (auto simp: checked_add_def checked_mul_def usize_max_def)
  have reads: "idx pd offset = Some (pd ! offset)" "idx pd (offset + 1) = Some (pd ! (offset + 1))"
    "idx (pre @ pd @ pad) (length pre + offset) = Some (pd ! offset)"
    "idx (pre @ pd @ pad) (length pre + offset + 1) = Some (pd ! (offset + 1))"
    using True frame_bytes(2) [of offset pd pre pad] frame_bytes(2) [of "offset + 1" pd pre pad]
    by (simp_all add: idx_def add.assoc)
  have live: "live_ipv6_headers (Suc k) (pre @ pd @ pad) (length pre + length pd) proto (length pre + offset) =
      (if length pd < ?next then Some None
       else live_ipv6_headers k (pre @ pd @ pad) (length pre + length pd) (pd ! offset) (length pre + ?next))"
    unfolding live_ipv6_headers.simps reads tryo_simps m_def [symmetric] arith using assms(3) by simp
  have reader: "pcap_ipv6_headers (Suc k) pd proto offset =
      (if length pd < ?next then Some None else pcap_ipv6_headers k pd (pd ! offset) ?next)"
    unfolding pcap_ipv6_headers.simps reads tryo_simps m_def [symmetric] arith using assms(3) by simp
  show ?thesis
    unfolding live reader using IH [of ?next "pd ! offset"] by (simp add: same_start_def)
next
  case False
  then have "pcap_ipv6_headers (Suc k) pd proto offset = Some None"
    using assms(3) by (auto simp: tryo_def idx_def split: option.split)
  moreover have "live_ipv6_headers (Suc k) (pre @ pd @ pad) (length pre + length pd) proto (length pre + offset) =
      Some None"
    using assms(3) False by (auto simp: tryo_def checked_add_def checked_mul_def split: option.split)
  ultimately show ?thesis by (simp add: same_start_def)
qed

lemma live_fragment_header_agree:
  assumes "length pre + length (pd @ pad) + 100000 \<le> usize_max" "offset \<le> length pd"
    and IH: "\<And>proto offset. offset \<le> length pd \<Longrightarrow>
      \<exists>a b. live_ipv6_headers k (pre @ pd @ pad) (length pre + length pd) proto (length pre + offset) = Some a
        \<and> pcap_ipv6_headers k pd proto offset = Some b \<and> same_start (length pre) (length pre + length pd) a b"
  shows "\<exists>a b. live_ipv6_headers (Suc k) (pre @ pd @ pad) (length pre + length pd) 44 (length pre + offset) = Some a
    \<and> pcap_ipv6_headers (Suc k) pd 44 offset = Some b \<and> same_start (length pre) (length pre + length pd) a b"
proof -
  have add: "checked_add offset 8 = Some (offset + 8)"
    "checked_add (length pre + offset) 8 = Some (length pre + (offset + 8))"
    using assms(1,2) by (simp_all add: checked_add_def)
  show ?thesis
  proof (cases "offset + 8 \<le> length pd")
    case True
    let ?h = "take 8 (drop offset pd)"
    have reads: "slice pd offset (offset + 8) = Some ?h"
      "slice (pre @ pd @ pad) (length pre + offset) (length pre + (offset + 8)) = Some ?h"
      using True frame_slice(1) [of offset "offset + 8" pd] frame_slice(2) [of offset "offset + 8" pd pre pad]
      by simp_all
    obtain f x where hdr: "be16 ?h 2 = Some f" "idx ?h 0 = Some x"
      using True by (auto simp: be16_def idx_def)
    show ?thesis
      using True IH [of "offset + 8" x] by (simp add: add reads hdr same_start_def)
  next
    case False
    then have reader: "pcap_ipv6_headers (Suc k) pd 44 offset = Some None"
      by (simp add: add slice_def)
    have "wp (live_ipv6_headers (Suc k) (pre @ pd @ pad) (length pre + length pd) 44 (length pre + offset))
        (\<lambda>r. \<forall>p o'. r = Some (p, o') \<longrightarrow> length pre + length pd < o')"
      using False by (auto simp: wp_rules add slice_Some_iff intro!: live_ipv6_headers_past)
    then show ?thesis
      using reader by (auto simp: wp_def same_start_def)
  qed
qed

lemma live_ipv6_headers_agree:
  assumes "length pre + length (pd @ pad) + 100000 \<le> usize_max" "offset \<le> length pd"
  shows "\<exists>a b. live_ipv6_headers k (pre @ pd @ pad) (length pre + length pd) proto (length pre + offset) = Some a
    \<and> pcap_ipv6_headers k pd proto offset = Some b \<and> same_start (length pre) (length pre + length pd) a b"
  using assms(2)
proof (induction k arbitrary: proto offset)
  case (Suc k)
  consider "proto = 0 \<or> proto = 43 \<or> proto = 60" | "proto = 44" | "proto \<notin> {0, 43, 44, 60}" by auto
  then show ?case
  proof cases
    case 1
    with assms(1) Suc show ?thesis by (intro live_option_header_agree)
  next
    case 2
    with assms(1) Suc show ?thesis by (simp only: live_fragment_header_agree)
  next
    case 3
    then show ?thesis by (simp add: same_start_def)
  qed
qed (simp add: same_start_def)

lemma pcap_ipv6_headers_le:
  "offset \<le> length data \<Longrightarrow>
     wp (pcap_ipv6_headers k data proto offset) (\<lambda>r. \<forall>p o'. r = Some (p, o') \<longrightarrow> o' \<le> length data)"
proof (induction k arbitrary: proto offset)
  case (Suc k)
  then show ?case
    by (auto simp: wp_rules slice_Some_iff intro!: wp_call [OF Suc.IH])
qed (simp add: wp_rules)

lemma ipv6_agree:
  assumes "length pre + length ip + 200000 \<le> usize_max" "ip \<noteq> [] \<Longrightarrow> drop_bit 4 (ip ! 0) = 6"
  shows "agree (live_parse_ipv6 fl fr (pre @ ip) (length (pre @ ip)) (length pre) iface)
    (pcap_parse_ipv6_packet fl fr' ip t n)"
proof (cases "length ip < 40")
  case True
  then show ?thesis by (simp add: live_parse_ipv6_def pcap_parse_ipv6_packet_def)
next
  case False
  define b where "b = ip ! 0"
  define w where "w = u16_be (ip ! 4) (ip ! (4 + 1))"
  let ?total = "40 + unat w"
  have w_le: "unat w \<le> 65535" using unat_u16_less [of w] by linarith
  have reads: "idx ip 0 = Some b" "be16 (pre @ ip) (length pre + 4) = Some w" "be16 ip 4 = Some w"
    using False frame_be16(1) [of 4 ip] frame_be16(2) [of 4 ip pre "[]"]
    by (auto simp: b_def w_def idx_def)
  have "ip \<noteq> []" using False by auto
  then have version: "drop_bit 4 b = 6" using assms(2) by (simp add: b_def)
  have add: "checked_add (length pre) ?total = Some (length pre + ?total)" "checked_add 40 (unat w) = Some ?total"
    "checked_add (length pre) 40 = Some (length pre + 40)"
    using w_le assms(1) by (simp_all add: checked_add_def)
  show ?thesis
  proof (cases "length ip < ?total")
    case True
    then show ?thesis
      using False version by (simp add: live_parse_ipv6_def pcap_parse_ipv6_packet_def reads add)
  next
    case ok: False
    let ?pd = "take ?total ip"
    have slices: "slice ip 0 ?total = Some ?pd"
      "slice ?pd 8 24 = Some (take 16 (drop 8 ip))" "slice ?pd 24 40 = Some (take 16 (drop 24 ip))"
      "slice (pre @ ip) (length pre + 8) (length pre + 24) = Some (take 16 (drop 8 ip))"
      "slice (pre @ ip) (length pre + 24) (length pre + 40) = Some (take 16 (drop 24 ip))"
      "idx ?pd 6 = Some (ip ! 6)" "idx (pre @ ip) (length pre + 6) = Some (ip ! 6)"
      using ok frame_bytes(2) [of 6 ip pre "[]"] frame_slice(2) [of 8 24 ip pre "[]"]
        frame_slice(2) [of 24 40 ip pre "[]"]
      by (simp_all add: slice_def idx_def drop_take)
    obtain a c where start: "live_ipv6_headers 8 (pre @ ip) (length pre + ?total) (ip ! 6) (length pre + 40) = Some a"
      "pcap_ipv6_headers 8 ?pd (ip ! 6) 40 = Some c" "same_start (length pre) (length pre + ?total) a c"
      using live_ipv6_headers_agree [of pre ?pd "drop ?total ip" 40 8 "ip ! 6"] assms(1) ok by auto
    have "agree (let_else a None (\<lambda>(p, k). live_parse_transport fl fr (pre @ ip) (length pre + ?total) k p s d iface))
        (tryo c (\<lambda>(p, k). pcap_parse_transport fl fr' ?pd k p s d t n))" for s d
    proof (cases c)
      case None
      with start(3) show ?thesis
        by (cases a) (auto simp: same_start_def live_parse_transport_def)
    next
      case (Some pk)
      obtain p k where pk: "pk = (p, k)" by (cases pk)
      have "k \<le> length ip"
        using wp_result [OF pcap_ipv6_headers_le start(2)] Some pk ok by simp
      with Some pk start(3) show ?thesis
        using transport_agree [of pre k fl fr ?pd "drop ?total ip"] assms(1) ok
        by (simp add: same_start_def)
    qed
    then show ?thesis
      using False version ok
      by (simp add: live_parse_ipv6_def pcap_parse_ipv6_packet_def live_ipv6_transport_start_def
          pcap_ipv6_transport_start_def reads add slices start)
  qed
qed

lemma vlan_loop_agree: "live_vlan_loop left data (length data) e k tag = pcap_vlan_loop left data e k tag"
proof (induction left arbitrary: e k tag)
  case 0
  show ?case by (simp add: live_vlan_loop.simps pcap_vlan_loop.simps)
next
  case (Suc left)
  show ?case
    by (subst live_vlan_loop.simps, subst pcap_vlan_loop.simps) (simp add: Suc)
qed

text \<open>The IP version in the first byte behind the link header agrees with the Ethernet type.\<close>

definition version_matches :: "bytes \<Rightarrow> bool" where
  "version_matches data \<longleftrightarrow>
     (case Option.bind (be16 data 12) (\<lambda>e. pcap_vlan_loop MAX_VLAN_DEPTH data e 14 None) of
        Some (Some (e, k, _)) \<Rightarrow>
          (e = 0x0800 \<and> k < length data \<longrightarrow> drop_bit 4 (data ! k) = 4)
          \<and> (e = 0x86DD \<and> k < length data \<longrightarrow> drop_bit 4 (data ! k) = 6)
      | _ \<Rightarrow> True)"

abbreviation retag :: "u16 option \<Rightarrow> packet option \<Rightarrow> packet option rs" where
  "retag tag p \<equiv> Some (map_option (\<lambda>p. pcap_apply_vlan_tag p tag) p)"

lemma agree_tagged: "agree a b \<Longrightarrow> agree (Option.bind a (retag tag)) (Option.bind b (retag tag))"
proof -
  assume "agree a b"
  then obtain x y where xy: "a = Some x" "b = Some y" "map_option observation x = map_option observation y"
    by (auto simp: agree_def)
  then show ?thesis
    by (cases x; cases y)
      (auto simp: pcap_apply_vlan_tag_def observation_def with_vlan_def split: option.splits)
qed

lemma live_ethernet:
  assumes "14 \<le> length data" "be16 data 12 = Some e0"
    and "pcap_vlan_loop MAX_VLAN_DEPTH data e0 14 None = Some (Some (e, k, tag))"
  shows "live_parse_packet fl little fresh data (length data) LT_Ethernet iface =
    (if e = 0x0800 then Option.bind (live_parse_ipv4 fl fresh data (length data) k iface) (retag tag)
     else if e = 0x86DD then Option.bind (live_parse_ipv6 fl fresh data (length data) k iface) (retag tag)
     else Some None)"
  using assms by (simp add: live_parse_packet_def live_parse_ethernet_def vlan_loop_agree)

lemma reader_ethernet:
  assumes "14 \<le> length data" "be16 data 12 = Some e0" "k \<le> length data"
    and "pcap_vlan_loop MAX_VLAN_DEPTH data e0 14 None = Some (Some (e, k, tag))"
  shows "parse_link_packet fl fresh data PCAP_LINKTYPE_ETHERNET 14 t n =
    (let ip = drop k data in
     if ip = [] \<or> e \<noteq> 0x0800 \<and> e \<noteq> 0x86DD then Some None
     else if drop_bit 4 (ip ! 0) AND 0x0F = 4 then Option.bind (pcap_parse_ipv4_packet fl fresh ip t n) (retag tag)
     else if drop_bit 4 (ip ! 0) AND 0x0F = 6 then Option.bind (pcap_parse_ipv6_packet fl fresh ip t n) (retag tag)
     else Some None)"
proof -
  have "PCAP_LINKTYPE_ETHERNET \<noteq> PCAP_LINKTYPE_IPV4" "PCAP_LINKTYPE_ETHERNET \<noteq> PCAP_LINKTYPE_IPV6"
    by (simp_all add: linktype_defs)
  then show ?thesis
    using assms frame_bytes(1) [of 0 "drop k data"]
    by (auto simp: parse_link_packet_def link_ip_data_def slice_from_def Let_def)
qed

text \<open>
  Property C31. The live interceptor and the capture file reader see the same packet in an Ethernet
  frame: on every frame whose IP version agrees with its Ethernet type, with any VLAN tags, IPv6
  extension headers and trailing padding, both return nothing or packets with the same endpoints,
  direction, flags, payload and VLAN tag, and neither panics.
\<close>

theorem live_agrees_with_reader:
  assumes "length data + 200000 \<le> usize_max" "version_matches data"
  shows "agree (live_parse_packet fl little fresh data (length data) LT_Ethernet iface)
    (parse_link_packet fl fresh' data PCAP_LINKTYPE_ETHERNET 14 t n)"
proof (cases "length data < 14")
  case True
  then show ?thesis by (simp add: live_parse_packet_def live_parse_ethernet_def parse_link_packet_def)
next
  case False
  define e0 where "e0 = u16_be (data ! 12) (data ! (12 + 1))"
  have e0: "be16 data 12 = Some e0" using False frame_be16(1) [of 12 data] by (simp add: e0_def)
  obtain r where loop: "pcap_vlan_loop MAX_VLAN_DEPTH data e0 14 None = Some r"
    and bound: "\<And>e k tag. r = Some (e, k, tag) \<Longrightarrow> k \<le> length data"
    using pcap_vlan_loop_wp [of 14 data None MAX_VLAN_DEPTH e0] False by (auto simp: wp_def)
  show ?thesis
  proof (cases r)
    case None
    then show ?thesis
      using False loop e0
      by (simp add: live_parse_packet_def live_parse_ethernet_def parse_link_packet_def link_ip_data_def
          vlan_loop_agree)
  next
    case (Some x)
    obtain e k tag where x: "x = (e, k, tag)" by (cases x)
    have k: "k \<le> length data" using bound Some x by simp
    define pre where "pre = take k data"
    define ip where "ip = drop k data"
    have data: "data = pre @ ip" "length pre = k" using k by (simp_all add: pre_def ip_def)
    have version: "e = 0x0800 \<Longrightarrow> ip \<noteq> [] \<Longrightarrow> drop_bit 4 (ip ! 0) = 4"
      "e = 0x86DD \<Longrightarrow> ip \<noteq> [] \<Longrightarrow> drop_bit 4 (ip ! 0) = 6"
      using assms(2) loop Some x e0 by (auto simp: version_matches_def ip_def)
    have live: "live_parse_packet fl little fresh data (length data) LT_Ethernet iface =
        (if e = 0x0800 then Option.bind (live_parse_ipv4 fl fresh data (length data) k iface) (retag tag)
         else if e = 0x86DD then Option.bind (live_parse_ipv6 fl fresh data (length data) k iface) (retag tag)
         else Some None)"
      using False loop Some x e0 by (intro live_ethernet) auto
    have reader: "parse_link_packet fl fresh' data PCAP_LINKTYPE_ETHERNET 14 t n =
        (if ip = [] \<or> e \<noteq> 0x0800 \<and> e \<noteq> 0x86DD then Some None
         else if drop_bit 4 (ip ! 0) AND 0x0F = 4 then Option.bind (pcap_parse_ipv4_packet fl fresh' ip t n) (retag tag)
         else if drop_bit 4 (ip ! 0) AND 0x0F = 6 then Option.bind (pcap_parse_ipv6_packet fl fresh' ip t n) (retag tag)
         else Some None)"
      unfolding ip_def using reader_ethernet [of data e0 k e tag fl fresh' t n] False loop Some x e0 k
      by (simp add: Let_def)
    have v4: "agree (live_parse_ipv4 fl fresh data (length data) k iface) (pcap_parse_ipv4_packet fl fresh' ip t n)"
      if "e = 0x0800"
      using ipv4_agree [of pre ip fl fresh iface fresh' t n] assms(1) version(1) that data by simp
    have v6: "agree (live_parse_ipv6 fl fresh data (length data) k iface) (pcap_parse_ipv6_packet fl fresh' ip t n)"
      if "e = 0x86DD"
      using ipv6_agree [of pre ip fl fresh iface fresh' t n] assms(1) version(2) that data by simp
    have empty: "live_parse_ipv4 fl fresh data (length data) k iface = Some None"
      "live_parse_ipv6 fl fresh data (length data) k iface = Some None" if "ip = []"
      using data that by (simp_all add: live_parse_ipv4_def live_parse_ipv6_def)
    consider "e \<noteq> 0x0800" "e \<noteq> 0x86DD" | "e = 0x0800 \<or> e = 0x86DD" "ip = []"
      | "e = 0x0800" "ip \<noteq> []" | "e = 0x86DD" "ip \<noteq> []" by blast
    then show ?thesis
      unfolding live reader
      by cases (auto simp: empty version intro: agree_tagged v4 v6)
  qed
qed

text \<open>The datagram of the checksum example in a padded Ethernet frame.\<close>

definition demo_frame :: bytes where
  "demo_frame = [2, 0, 0, 0, 0, 1, 2, 0, 0, 0, 0, 2, 8, 0] @ demo_bytes @ [0, 0]"

theorem live_agrees_with_reader_witness:
  "agree (live_parse_packet demo_flags True (1, 2) demo_frame (length demo_frame) LT_Ethernet [0x65])
     (parse_link_packet demo_flags (3, 4) demo_frame PCAP_LINKTYPE_ETHERNET 14 5 60)"
proof (rule live_agrees_with_reader)
  show "length demo_frame + 200000 \<le> usize_max"
    by (simp add: demo_frame_def demo_bytes_def usize_max_def)
  show "version_matches demo_frame"
    by (simp add: version_matches_def demo_frame_def demo_bytes_def be16_def idx_def u16_be_def
        pcap_vlan_loop.simps MAX_VLAN_DEPTH_def)
qed

section \<open>Raw links\<close>

text \<open>
  Property C34. On a raw IP link the interceptor loses IPv6: an IPv6 packet that the encoder of this
  repository emits and that the capture file reader decodes on a raw link is dropped by the live
  parser, which takes every packet of such a link for IPv4.
\<close>

theorem live_raw_link_drops_ipv6:
  assumes "encode_raw_ip_packet fl p = Some (Inr data)" "src_ip (pkt_five_tuple p) = V6 s"
    and "flag_ops_ok fl" "canonical_packet p" "protocol (pkt_five_tuple p) \<in> {Tcp, Udp, Icmp}"
  shows "live_parse_packet fl little fresh data (length data) LT_Raw iface = Some None
    \<and> (\<exists>q. parse_link_packet fl fresh data PCAP_LINKTYPE_RAW 0 t n = Some (Some q)
         \<and> pkt_payload q = pkt_payload p)"
proof
  have "40 \<le> length data \<and> data ! 0 = 0x60"
    using assms(1) by (rule encode_raw_ip_packet_Ok) (use assms(2) in auto)
  then have "data \<noteq> []" "idx data 0 = Some 0x60" by (auto simp: idx_def)
  then show "live_parse_packet fl little fresh data (length data) LT_Raw iface = Some None"
    by (simp add: live_parse_packet_def live_parse_ip_packet_def live_parse_ipv4_def Let_def)
  have "parse_link_packet fl fresh data PCAP_LINKTYPE_RAW 0 t n = Some (recaptured fl (fst fresh) t n p)"
    using assms by (intro parse_encoded_packet) auto
  moreover have "\<exists>q. recaptured fl (fst fresh) t n p = Some q \<and> pkt_payload q = pkt_payload p"
    using assms(5) by (auto simp: recaptured_def reread_def Let_def)
  ultimately show "\<exists>q. parse_link_packet fl fresh data PCAP_LINKTYPE_RAW 0 t n = Some (Some q)
      \<and> pkt_payload q = pkt_payload p" by simp
qed

definition demo_datagram6 :: packet where
  "demo_datagram6 = packet_new 1 1000 (five_tuple_new (V6 (Ipv6 0x2001 0xdb8 0 0 0 0 0 1))
     (V6 (Ipv6 0x2001 0xdb8 0 0 0 0 0 2)) 4444 53 Udp) PktOutbound [0x61]"

definition demo_bytes6 :: bytes where
  "demo_bytes6 = [0x60, 0, 0, 0, 0, 9, 0x11, 0x40, 0x20, 1, 0xd, 0xb8, 0, 0, 0, 0, 0, 0, 0, 0, 0, 0, 0, 1,
     0x20, 1, 0xd, 0xb8, 0, 0, 0, 0, 0, 0, 0, 0, 0, 0, 0, 2, 0x11, 0x5c, 0, 0x35, 0, 9, 0x31,
     0xd6, 0x61]"

lemma demo_encoded6: "encode_raw_ip_packet demo_flags demo_datagram6 = Some (Inr demo_bytes6)"
  by (simp add: encode_raw_ip_packet_def encode_transport_segment_def encode_udp_segment_eq
      encode_ipv6_packet_def demo_datagram6_def packet_new_def five_tuple_new_def Let_def usize_max_def
      transport_checksum_def checksum_ipv6_pseudo_def u16_try_from_def u32_try_from_def udp_pre_def
      port_bytes_def ip_protocol_for_packet_def u16_to_be_def u16_be_def internet_checksum_def
      u32_to_be_def fold_carries.simps fold_step_def demo_bytes6_def)

theorem live_raw_link_drops_ipv6_witness:
  "live_parse_packet demo_flags True (1, 2) demo_bytes6 49 LT_Raw [0x65] = Some None
   \<and> (\<exists>q. parse_link_packet demo_flags (1, 2) demo_bytes6 PCAP_LINKTYPE_RAW 0 5 49 = Some (Some q)
        \<and> pkt_payload q = [0x61])"
proof -
  have "length demo_bytes6 = 49" by (simp add: demo_bytes6_def)
  then show ?thesis
    using live_raw_link_drops_ipv6 [OF demo_encoded6 _ demo_flags_ok,
        of "Ipv6 0x2001 0xdb8 0 0 0 0 0 1" True "(1, 2)" "[0x65]" 5 49]
    by (simp add: demo_datagram6_def packet_new_def five_tuple_new_def canonical_packet_def)
qed

end
