(* ===== verification/Redis_Resp.thy ===== *)
theory Redis_Resp
  imports Taste_Redis
begin

text \<open>
  RESP framing of the Redis handler: \<open>nettrap-proto-redis/src/handler/parser.rs\<close> and the parsing
  helpers of \<open>handler/commands.rs\<close>. A batch of commands is read from one buffer, as RESP arrays of bulk
  strings or as inline commands. The lemmas show that the parser never panics, that it respects the
  limits of the source, and that it reads back what \<open>resp_bulk_array\<close> of \<open>handler/client.rs\<close> writes.
\<close>

section \<open>Limits and numbers\<close>

definition MAX_RESP_COMMANDS :: usize where "MAX_RESP_COMMANDS = 1024"
definition MAX_RESP_ARRAY_COUNT :: usize where "MAX_RESP_ARRAY_COUNT = 1024"
definition MAX_RESP_BULK_SIZE :: usize where "MAX_RESP_BULK_SIZE = 64 * 1024"
definition MAX_RESP_FRAME_SIZE :: usize where "MAX_RESP_FRAME_SIZE = 1024 * 1024"
definition MAX_INLINE_COMMAND_BYTES :: usize where "MAX_INLINE_COMMAND_BYTES = 64 * 1024"
definition MAX_INLINE_COMMAND_ARGS :: usize where "MAX_INLINE_COMMAND_ARGS = 1024"

definition parse_resp_array_count :: "bytes \<Rightarrow> usize option" where
  "parse_resp_array_count t =
     (if t = [] \<or> \<not> list_all is_ascii_digit t then None else parse_digits usize_max t)"

definition parse_resp_bulk_len :: "bytes \<Rightarrow> usize option option" where
  "parse_resp_bulk_len t =
     (if t = bstr ''-1'' then Some None
      else if t = [] \<or> \<not> list_all is_ascii_digit t then None
      else map_option Some (parse_digits usize_max t))"

definition resp_find_crlf_from :: "bytes \<Rightarrow> usize \<Rightarrow> usize option" where
  "resp_find_crlf_from haystack start =
     (case slice_from haystack start of
        None \<Rightarrow> None
      | Some tail \<Rightarrow> map_option (\<lambda>off. start + off) (find_sub CRLF tail))"

section \<open>Arrays\<close>

text \<open>The \<open>for _ in 0..count\<close> loop of \<open>parse_resp_array_at\<close>.\<close>

fun resp_array_loop :: "bytes \<Rightarrow> nat \<Rightarrow> usize \<Rightarrow> bytes list \<Rightarrow> (bytes list \<times> usize) option rs" where
  "resp_array_loop data 0 pos parts = Some (Some (parts, pos))"
| "resp_array_loop data (Suc count) pos parts =
     (if idx data pos \<noteq> Some 0x24 then Some None
      else tryo (resp_find_crlf_from data pos) (\<lambda>bulk_header_end. do {
        raw \<leftarrow> slice data (pos + 1) bulk_header_end;
        tryo (from_utf8 raw) (\<lambda>bulk_len_text.
        tryo (parse_resp_bulk_len bulk_len_text) (\<lambda>bulk_len.
        let pos = bulk_header_end + 2 in
        tryo bulk_len (\<lambda>bulk_len.
        if bulk_len > MAX_RESP_BULK_SIZE then Some None
        else tryo (checked_add pos bulk_len) (\<lambda>data_end.
        tryo (checked_add data_end 2) (\<lambda>frame_end.
        if frame_end > length data then Some None
        else do {
          tail \<leftarrow> slice data data_end frame_end;
          if tail \<noteq> CRLF then Some None
          else do {
            part \<leftarrow> slice data pos data_end;
            resp_array_loop data count frame_end (parts @ [part]) } }))))) }))"

definition parse_resp_array_at :: "bytes \<Rightarrow> usize \<Rightarrow> (bytes list \<times> usize) option rs" where
  "parse_resp_array_at data start =
     tryo (resp_find_crlf_from data start) (\<lambda>header_end. do {
       raw \<leftarrow> slice data (start + 1) header_end;
       tryo (from_utf8 raw) (\<lambda>count_text.
       tryo (parse_resp_array_count count_text) (\<lambda>count.
       if count = 0 then Some None
       else if count > MAX_RESP_ARRAY_COUNT then Some None
       else resp_array_loop data count (header_end + 2) [])) })"

section \<open>Batches\<close>

text \<open>\<open>while data.get(pos..pos + 2) == Some(b"\r\n")\<close>.\<close>

function resp_skip_blank_lines :: "bytes \<Rightarrow> usize \<Rightarrow> usize" where
  "resp_skip_blank_lines data pos =
     (if slice data pos (pos + 2) = Some CRLF then resp_skip_blank_lines data (pos + 2) else pos)"
  by pat_completeness auto
termination
  by (relation "measure (\<lambda>(data, pos). length data - pos)") (auto simp: slice_Some_iff)

declare resp_skip_blank_lines.simps [simp del]

definition inline_text_is_valid :: "bytes \<Rightarrow> bool" where
  "inline_text_is_valid t \<longleftrightarrow>
     \<not> list_ex (\<lambda>ch. char_is_control ch \<and> ch \<noteq> 32) (chars t)
     \<and> \<not> (first_char_is_whitespace t
          \<or> list_ex (\<lambda>ch. char_is_control ch \<or> (char_is_whitespace ch \<and> ch \<noteq> 32)) (chars t))"

text \<open>One iteration of the loop of \<open>parse_resp\<close>, at a position that is not a blank line: the
  arguments of the command and the position after it.\<close>

definition parse_resp_item :: "bytes \<Rightarrow> usize \<Rightarrow> (bytes list \<times> usize) option rs" where
  "parse_resp_item data pos = do {
     b \<leftarrow> idx data pos;
     if b = 0x2A then parse_resp_array_at data pos
     else tryo (resp_find_crlf_from data pos) (\<lambda>line_end. do {
       line \<leftarrow> slice data pos line_end;
       if length line > MAX_INLINE_COMMAND_BYTES then Some None
       else tryo (from_utf8 line) (\<lambda>t.
         if \<not> inline_text_is_valid t then Some None
         else
           let parts = take (MAX_INLINE_COMMAND_ARGS + 1) (space_parts t) in
           if list_ex (\<lambda>part. part = []) (drop 1 parts) then Some None
           else if length parts > MAX_INLINE_COMMAND_ARGS then Some None
           else Some (Some (parts, line_end + 2))) }) }"

lemma resp_find_crlf_from_eq: "resp_find_crlf_from = find_crlf_from"
  by (simp add: fun_eq_iff resp_find_crlf_from_def find_crlf_from_def)

lemma resp_array_loop_wp:
  "0 < pos \<Longrightarrow> pos \<le> length data \<Longrightarrow>
   wp (resp_array_loop data count pos parts)
     (\<lambda>r. \<forall>ps e. r = Some (ps, e) \<longrightarrow> pos \<le> e \<and> e \<le> length data \<and> length ps = length parts + count
        \<and> (\<forall>p \<in> set ps. p \<in> set parts \<or> length p \<le> MAX_RESP_BULK_SIZE))"
proof (induction count arbitrary: pos parts)
  case (Suc count)
  show ?case
    unfolding resp_array_loop.simps resp_find_crlf_from_eq
    by (auto simp: wp_rules Let_def idx_Some_iff
        dest: find_crlf_from_after find_crlf_from_bound intro!: wp_call [OF Suc.IH])
      (drule (1) bspec, auto)
qed (simp add: wp_rules)

lemma parse_resp_array_at_wp:
  assumes "pos < length data" "data ! pos = 0x2A"
  shows "wp (parse_resp_array_at data pos)
     (\<lambda>r. \<forall>ps e. r = Some (ps, e) \<longrightarrow> pos < e \<and> e \<le> length data \<and> ps \<noteq> []
        \<and> length ps \<le> MAX_RESP_ARRAY_COUNT \<and> (\<forall>p \<in> set ps. length p \<le> MAX_RESP_BULK_SIZE))"
  unfolding parse_resp_array_at_def resp_find_crlf_from_eq using assms
  by (auto simp: wp_rules dest: find_crlf_from_after find_crlf_from_bound
      intro!: wp_call [OF resp_array_loop_wp])

lemma resp_skip_blank_lines_ge: "pos \<le> resp_skip_blank_lines data pos"
proof (induction data pos rule: resp_skip_blank_lines.induct)
  case (1 data pos)
  then show ?case by (subst resp_skip_blank_lines.simps) auto
qed

text \<open>The limits a parsed command meets.\<close>

definition command_in_limits :: "bytes list \<Rightarrow> bool" where
  "command_in_limits parts \<longleftrightarrow> parts \<noteq> [] \<and> length parts \<le> 1024 \<and> list_all (\<lambda>p. length p \<le> 65536) parts"

lemma length_split_on_part: "p \<in> set (split_on q xs) \<Longrightarrow> length p \<le> length xs"
proof (induction xs arbitrary: p)
  case (Cons x xs)
  then show ?case
    by (cases "split_on q xs") (auto split: if_splits intro: le_SucI)
qed simp

lemma inline_parts_in_limits:
  assumes "length (space_parts t) \<le> MAX_INLINE_COMMAND_ARGS" "length t \<le> MAX_INLINE_COMMAND_BYTES"
  shows "command_in_limits (space_parts t)"
proof -
  have "length p \<le> 65536" if "p \<in> set (space_parts t)" for p
    using that assms(2) length_split_on_part [of p _ t]
    by (fastforce simp: space_parts_def MAX_INLINE_COMMAND_BYTES_def)
  with assms(1) show ?thesis
    by (simp add: command_in_limits_def list_all_iff MAX_INLINE_COMMAND_ARGS_def space_parts_def)
qed

lemma array_in_limits:
  assumes "pos < length data" "data ! pos = 0x2A"
  shows "wp (parse_resp_array_at data pos)
     (\<lambda>r. \<forall>ps e. r = Some (ps, e) \<longrightarrow> pos < e \<and> e \<le> length data \<and> command_in_limits ps)"
  by (rule wp_call [OF parse_resp_array_at_wp [OF assms]])
    (auto simp: command_in_limits_def MAX_RESP_ARRAY_COUNT_def MAX_RESP_BULK_SIZE_def list_all_iff)

lemma parse_resp_item_wp:
  assumes "pos < length data"
  shows "wp (parse_resp_item data pos)
     (\<lambda>r. \<forall>ps e. r = Some (ps, e) \<longrightarrow> pos < e \<and> e \<le> length data \<and> command_in_limits ps)"
  unfolding parse_resp_item_def resp_find_crlf_from_eq Let_def using assms
  by (simp add: wp_rules array_in_limits from_utf8_Some_iff)
    (auto intro!: inline_parts_in_limits dest!: find_crlf_from_bound)

lemma parse_resp_item_progress:
  assumes "parse_resp_item data (resp_skip_blank_lines data start) = Some (Some (parts, e))"
    "\<not> length data \<le> resp_skip_blank_lines data start"
  shows "length data - e < length data - start"
  using wp_result [OF parse_resp_item_wp assms(1)] assms(2) resp_skip_blank_lines_ge [of start data]
  by auto

function parse_resp_loop :: "bytes \<Rightarrow> usize \<Rightarrow> bytes list list \<Rightarrow> bytes list list option rs" where
  "parse_resp_loop data start commands =
     (if start < length data then
        (let pos = resp_skip_blank_lines data start in
         if pos \<ge> length data then Some (Some commands)
         else
           (case parse_resp_item data pos of
              None \<Rightarrow> None
            | Some None \<Rightarrow> Some None
            | Some (Some (parts, next_pos)) \<Rightarrow>
                if parts \<noteq> [] then
                  if length commands \<ge> MAX_RESP_COMMANDS then Some None
                  else parse_resp_loop data next_pos (commands @ [parts])
                else parse_resp_loop data next_pos commands))
      else Some (Some commands))"
  by pat_completeness auto
termination
  by (relation "measure (\<lambda>(data, pos, _). length data - pos)") (auto dest: parse_resp_item_progress)

definition parse_resp :: "bytes \<Rightarrow> bytes list list option rs" where
  "parse_resp data =
     (if length data > MAX_RESP_FRAME_SIZE then Some None else parse_resp_loop data 0 [])"

declare parse_resp_loop.simps [simp del]

lemma parse_resp_loop_wp:
  "length commands \<le> MAX_RESP_COMMANDS \<Longrightarrow> list_all command_in_limits commands \<Longrightarrow>
   wp (parse_resp_loop data start commands)
     (\<lambda>r. \<forall>cs. r = Some cs \<longrightarrow> length cs \<le> MAX_RESP_COMMANDS \<and> list_all command_in_limits cs)"
proof (induction data start commands rule: parse_resp_loop.induct)
  case (1 data start commands)
  let ?pos = "resp_skip_blank_lines data start"
  show ?case
  proof (cases "start < length data \<and> ?pos < length data")
    case True
    then obtain r where r: "parse_resp_item data ?pos = Some r"
      "\<forall>ps e. r = Some (ps, e) \<longrightarrow> command_in_limits ps"
      using parse_resp_item_wp [of ?pos data] by (auto simp: wp_def)
    show ?thesis
    proof (cases r)
      case None
      with True r(1) show ?thesis
        by (subst parse_resp_loop.simps) (simp add: wp_rules Let_def)
    next
      case (Some pe)
      obtain ps e where pe: "pe = (ps, e)" by (cases pe)
      with Some r have "command_in_limits ps" "ps \<noteq> []" by (auto simp: command_in_limits_def)
      with "1.IH" (1) [OF _ refl _ r(1) Some pe [symmetric]] "1.prems" True r(1) Some pe show ?thesis
        by (subst parse_resp_loop.simps) (simp add: wp_rules Let_def)
    qed
  next
    case False
    with "1.prems" show ?thesis
      by (subst parse_resp_loop.simps) (auto simp: wp_rules Let_def)
  qed
qed

lemma parse_resp_wp [no_panic]:
  "wp (parse_resp data)
     (\<lambda>r. \<forall>cs. r = Some cs \<longrightarrow> length cs \<le> MAX_RESP_COMMANDS \<and> list_all command_in_limits cs)"
  unfolding parse_resp_def by (auto simp: wp_rules intro!: parse_resp_loop_wp)

section \<open>The size of what is read\<close>

text \<open>The arguments of a command are pieces of the bytes between its first position and its end.\<close>

lemma resp_array_loop_bytes:
  "0 < pos \<Longrightarrow> pos \<le> length data \<Longrightarrow>
   wp (resp_array_loop data count pos parts)
     (\<lambda>r. \<forall>ps e. r = Some (ps, e) \<longrightarrow> length (concat ps) + pos \<le> length (concat parts) + e)"
proof (induction count arbitrary: pos parts)
  case (Suc count)
  show ?case
    unfolding resp_array_loop.simps resp_find_crlf_from_eq
    by (auto simp: wp_rules Let_def idx_Some_iff
        dest: find_crlf_from_after find_crlf_from_bound intro!: wp_call [OF Suc.IH])
qed (simp add: wp_rules)

lemma length_concat_split_on: "length (concat (split_on q xs)) \<le> length xs"
proof (induction xs)
  case (Cons x xs)
  then show ?case by (cases "split_on q xs") auto
qed simp

lemma parse_resp_array_at_bytes:
  assumes "pos < length data" "data ! pos = 0x2A"
  shows "wp (parse_resp_array_at data pos) (\<lambda>r. \<forall>ps e. r = Some (ps, e) \<longrightarrow> length (concat ps) + pos \<le> e)"
  unfolding parse_resp_array_at_def resp_find_crlf_from_eq using assms
  by (auto simp: wp_rules dest: find_crlf_from_after find_crlf_from_bound
      intro!: wp_call [OF resp_array_loop_bytes])

lemma parse_resp_item_bytes:
  assumes "pos < length data"
  shows "wp (parse_resp_item data pos) (\<lambda>r. \<forall>ps e. r = Some (ps, e) \<longrightarrow> length (concat ps) + pos \<le> e)"
proof -
  have "length (concat (space_parts line)) + pos \<le> h + 2" if "length line = h - pos" "pos \<le> h" for line h
    using length_concat_split_on [of "\<lambda>b. b = 32" line] that by (simp add: space_parts_def)
  then show ?thesis
    unfolding parse_resp_item_def resp_find_crlf_from_eq Let_def using assms
    by (simp add: wp_rules parse_resp_array_at_bytes from_utf8_Some_iff)
      (auto dest!: find_crlf_from_bound)
qed

lemma parse_resp_loop_bytes:
  "parse_resp_loop data start commands = Some (Some cs) \<Longrightarrow>
   length (concat (concat cs)) \<le> length (concat (concat commands)) + (length data - start)"
proof (induction data start commands rule: parse_resp_loop.induct)
  case (1 data start commands)
  let ?pos = "resp_skip_blank_lines data start"
  show ?case
  proof (cases "start < length data \<and> ?pos < length data")
    case True
    with "1.prems" obtain ps e where item: "parse_resp_item data ?pos = Some (Some (ps, e))"
      by (subst (asm) parse_resp_loop.simps) (auto simp: Let_def split: option.splits)
    have "start \<le> ?pos" "length (concat ps) + ?pos \<le> e" "ps \<noteq> []" "e \<le> length data"
      using resp_skip_blank_lines_ge wp_result [OF parse_resp_item_bytes item]
        wp_result [OF parse_resp_item_wp item] True by (auto simp: command_in_limits_def)
    moreover have "parse_resp_loop data e (commands @ [ps]) = Some (Some cs)"
      using "1.prems" True item \<open>ps \<noteq> []\<close>
      by (subst (asm) parse_resp_loop.simps) (simp add: Let_def split: if_splits)
    ultimately show ?thesis
      using "1.IH"(1) [OF _ refl _ item refl refl] True "1.prems" item
      by (subst (asm) (3) parse_resp_loop.simps) (fastforce simp: Let_def split: if_splits)
  next
    case False
    with "1.prems" show ?thesis
      by (subst (asm) parse_resp_loop.simps) (auto simp: Let_def split: if_splits)
  qed
qed

text \<open>Property C15. The parser returns on every input without a panic. What it accepts is bounded: at most 1024
  commands, each of at least one and at most 1024 arguments, no argument longer than 65536 bytes, and
  all arguments together no longer than the input, whatever lengths the input announces.\<close>

theorem parse_resp_bounds:
  "case parse_resp data of
     None \<Rightarrow> False
   | Some None \<Rightarrow> True
   | Some (Some cs) \<Rightarrow>
       length cs \<le> MAX_RESP_COMMANDS
       \<and> list_all (\<lambda>c. 1 \<le> length c \<and> length c \<le> MAX_RESP_ARRAY_COUNT
            \<and> list_all (\<lambda>a. length a \<le> MAX_RESP_BULK_SIZE) c) cs
       \<and> length (concat (concat cs)) \<le> length data \<and> length data \<le> MAX_RESP_FRAME_SIZE"
proof -
  obtain r where r: "parse_resp data = Some r"
    "\<forall>cs. r = Some cs \<longrightarrow> length cs \<le> MAX_RESP_COMMANDS \<and> list_all command_in_limits cs"
    using parse_resp_wp [of data] by (auto simp: wp_def)
  have "length (concat (concat cs)) \<le> length data \<and> length data \<le> MAX_RESP_FRAME_SIZE" if "r = Some cs" for cs
    using r(1) that parse_resp_loop_bytes [of data 0 "[]" cs] by (auto simp: parse_resp_def split: if_splits)
  with r show ?thesis
    by (auto simp: command_in_limits_def MAX_RESP_ARRAY_COUNT_def MAX_RESP_BULK_SIZE_def list_all_iff
        Suc_le_eq split: option.splits)
qed

section \<open>Reading back what was written\<close>

definition resp_bulk_string :: "bytes \<Rightarrow> bytes" where
  "resp_bulk_string v = bstr ''$'' @ show_dec (length v) @ CRLF @ v @ CRLF"

definition resp_bulk_array :: "bytes list \<Rightarrow> bytes" where
  "resp_bulk_array values =
     bstr ''*'' @ show_dec (length values) @ CRLF
     @ concat (map (\<lambda>v. bstr ''$'' @ show_dec (length v) @ CRLF @ v @ CRLF) values)"

lemma find_sub_CRLF: "0x0D \<notin> set xs \<Longrightarrow> find_sub CRLF (xs @ CRLF @ ys) = Some (length xs)"
  by (induction xs) (auto simp: CRLF_def)

lemma resp_find_crlf_from_here:
  assumes "0x0D \<notin> set xs"
  shows "resp_find_crlf_from (pre @ xs @ CRLF @ ys) (length pre) = Some (length pre + length xs)"
  using find_sub_CRLF [OF assms] by (simp add: resp_find_crlf_from_def)

lemma digits_no_cr: "list_all is_ascii_digit xs \<Longrightarrow> 0x0D \<notin> set xs"
  by (auto simp: list_all_iff is_ascii_digit_def)

lemma show_dec_all_digits [simp]: "list_all is_ascii_digit (show_dec n)"
  using show_dec_digits by (simp add: list_all_iff)

lemma from_utf8_digits: "list_all is_ascii_digit xs \<Longrightarrow> from_utf8 xs = Some xs"
proof -
  assume "list_all is_ascii_digit xs"
  then have "\<forall>b \<in> set xs. unat b < 128" by (fastforce simp: list_all_iff is_ascii_digit_alt)
  then show "from_utf8 xs = Some xs" by (simp add: from_utf8_def utf8_decode_ascii)
qed

lemma from_utf8_show_dec [simp]: "from_utf8 (show_dec n) = Some (show_dec n)"
  by (rule from_utf8_digits) simp

lemma parse_resp_array_count_show_dec [simp]:
  "n \<le> usize_max \<Longrightarrow> parse_resp_array_count (show_dec n) = Some n"
  by (simp add: parse_resp_array_count_def parse_digits_def dec_value_show_dec)

lemma show_dec_not_minus: "show_dec n \<noteq> bstr ''-1''"
proof
  assume "show_dec n = bstr ''-1''"
  then have "list_all is_ascii_digit (bstr ''-1'')" using show_dec_all_digits [of n] by simp
  then show False by (simp add: bstr_def is_ascii_digit_def)
qed

lemma parse_resp_bulk_len_show_dec [simp]:
  "n \<le> usize_max \<Longrightarrow> parse_resp_bulk_len (show_dec n) = Some (Some n)"
  by (simp add: parse_resp_bulk_len_def show_dec_not_minus parse_digits_def dec_value_show_dec)

lemma slice_middle:
  "a = length pre \<Longrightarrow> b = a + length xs \<Longrightarrow> slice (pre @ xs @ post) a b = Some xs"
  by (simp add: slice_def)

lemma resp_array_loop_step:
  assumes "length v \<le> MAX_RESP_BULK_SIZE" "length pre + length (resp_bulk_string v) \<le> usize_max"
  shows "resp_array_loop (pre @ resp_bulk_string v @ post) (Suc count) (length pre) parts =
     resp_array_loop (pre @ resp_bulk_string v @ post) count (length pre + length (resp_bulk_string v))
       (parts @ [v])"
proof -
  let ?n = "show_dec (length v)"
  let ?data = "pre @ resp_bulk_string v @ post"
  have data: "?data = pre @ (0x24 # ?n) @ CRLF @ v @ CRLF @ post"
    by (simp add: resp_bulk_string_def bstr_def)
  have len: "length (resp_bulk_string v) = length ?n + length v + 5"
    by (simp add: resp_bulk_string_def bstr_def CRLF_def)
  have "0x0D \<notin> set (0x24 # ?n)" using digits_no_cr [OF show_dec_all_digits] by simp
  then have crlf: "resp_find_crlf_from ?data (length pre) = Some (length pre + Suc (length ?n))"
    unfolding data by (subst resp_find_crlf_from_here) simp_all
  have first: "idx ?data (length pre) = Some 0x24" by (simp add: data idx_def nth_append)
  have raw: "slice ?data (length pre + 1) (length pre + Suc (length ?n)) = Some ?n"
    using slice_middle [of _ "pre @ [0x24]" _ ?n "CRLF @ v @ CRLF @ post"] by (simp add: data)
  have tail: "slice ?data (length pre + Suc (length ?n) + 2 + length v)
      (length pre + Suc (length ?n) + 2 + length v + 2) = Some CRLF"
    using slice_middle [of _ "pre @ (0x24 # ?n) @ CRLF @ v" _ CRLF post] by (simp add: data CRLF_def)
  have part: "slice ?data (length pre + Suc (length ?n) + 2) (length pre + Suc (length ?n) + 2 + length v)
      = Some v"
    using slice_middle [of _ "pre @ (0x24 # ?n) @ CRLF" _ v "CRLF @ post"] by (simp add: data CRLF_def)
  have bounds: "length v \<le> usize_max" "length pre + length ?n + length v + 5 \<le> usize_max"
    using assms(2) len by simp_all
  show ?thesis
    unfolding resp_array_loop.simps first crlf
    using assms(1) bounds raw tail part
    by (simp add: checked_add_def Let_def len del: slice_in) (simp add: data CRLF_def numeral_eq_Suc add.assoc)
qed

lemma resp_array_loop_strings:
  assumes "list_all (\<lambda>v. length v \<le> MAX_RESP_BULK_SIZE) vs"
    "length pre + length (concat (map resp_bulk_string vs)) \<le> usize_max"
  shows "resp_array_loop (pre @ concat (map resp_bulk_string vs) @ post) (length vs) (length pre) parts =
     Some (Some (parts @ vs, length pre + length (concat (map resp_bulk_string vs))))"
  using assms
proof (induction vs arbitrary: pre parts)
  case (Cons v vs)
  then show ?case
    using resp_array_loop_step [of v pre "concat (map resp_bulk_string vs) @ post" "length vs" parts]
      Cons.IH [of "pre @ resp_bulk_string v" "parts @ [v]"]
    by simp
qed simp

lemma resp_bulk_array_alt:
  "resp_bulk_array vs = (0x2A # show_dec (length vs)) @ CRLF @ concat (map resp_bulk_string vs)"
proof -
  have "resp_bulk_string = (\<lambda>v. bstr ''$'' @ show_dec (length v) @ CRLF @ v @ CRLF)"
    by (simp add: fun_eq_iff resp_bulk_string_def)
  then show ?thesis by (simp add: resp_bulk_array_def bstr_def)
qed

lemma parse_resp_array_at_written:
  assumes "command_in_limits vs" "length pre + length (resp_bulk_array vs) \<le> usize_max"
  shows "parse_resp_array_at (pre @ resp_bulk_array vs @ post) (length pre) =
     Some (Some (vs, length pre + length (resp_bulk_array vs)))"
proof -
  let ?n = "show_dec (length vs)" and ?body = "concat (map resp_bulk_string vs)"
  let ?data = "pre @ resp_bulk_array vs @ post"
  have data: "?data = pre @ (0x2A # ?n) @ CRLF @ ?body @ post" by (simp add: resp_bulk_array_alt)
  have len: "length (resp_bulk_array vs) = length ?n + length ?body + 3"
    by (simp add: resp_bulk_array_alt CRLF_def)
  have "0x0D \<notin> set (0x2A # ?n)" using digits_no_cr [OF show_dec_all_digits] by simp
  then have crlf: "resp_find_crlf_from ?data (length pre) = Some (length pre + Suc (length ?n))"
    unfolding data by (subst resp_find_crlf_from_here) simp_all
  have raw: "slice ?data (length pre + 1) (length pre + Suc (length ?n)) = Some ?n"
    using slice_middle [of _ "pre @ [0x2A]" _ ?n "CRLF @ ?body @ post"] by (simp add: data)
  have limits: "vs \<noteq> []" "length vs \<le> MAX_RESP_ARRAY_COUNT" "length vs \<le> usize_max"
    "list_all (\<lambda>v. length v \<le> MAX_RESP_BULK_SIZE) vs"
    using assms(1) by (simp_all add: command_in_limits_def MAX_RESP_ARRAY_COUNT_def
        MAX_RESP_BULK_SIZE_def usize_max_def)
  have loop: "resp_array_loop ?data (length vs) (length pre + Suc (length ?n) + 2) [] =
      Some (Some (vs, length pre + length (resp_bulk_array vs)))"
    using resp_array_loop_strings [OF limits(4), of "pre @ (0x2A # ?n) @ CRLF" post "[]"] assms(2)
    by (simp add: data len CRLF_def numeral_eq_Suc)
  show ?thesis
    unfolding parse_resp_array_at_def crlf using raw loop limits by simp
qed

lemma parse_resp_loop_written:
  assumes "list_all command_in_limits cmds" "length commands + length cmds \<le> MAX_RESP_COMMANDS"
    "length pre + length (concat (map resp_bulk_array cmds)) \<le> usize_max"
  shows "parse_resp_loop (pre @ concat (map resp_bulk_array cmds)) (length pre) commands =
     Some (Some (commands @ cmds))"
  using assms
proof (induction cmds arbitrary: pre commands)
  case Nil
  then show ?case by (subst parse_resp_loop.simps) simp
next
  case (Cons c cs)
  let ?data = "pre @ concat (map resp_bulk_array (c # cs))"
  have star: "?data = pre @ 0x2A # show_dec (length c) @ CRLF @ concat (map resp_bulk_string c)
      @ concat (map resp_bulk_array cs)"
    by (simp add: resp_bulk_array_alt)
  have here: "resp_skip_blank_lines ?data (length pre) = length pre"
    unfolding star by (subst resp_skip_blank_lines.simps) (simp add: slice_def CRLF_def take_Cons')
  have first: "idx ?data (length pre) = Some 0x2A" unfolding star by (simp add: idx_def nth_append)
  have item: "parse_resp_item ?data (length pre) = Some (Some (c, length pre + length (resp_bulk_array c)))"
    using parse_resp_array_at_written [of c pre "concat (map resp_bulk_array cs)"] Cons.prems first
    by (simp add: parse_resp_item_def)
  have "c \<noteq> []" using Cons.prems by (simp add: command_in_limits_def)
  then show ?case
    using Cons.IH [of "commands @ [c]" "pre @ resp_bulk_array c"] Cons.prems item here first
    by (subst parse_resp_loop.simps) (simp add: Let_def idx_def split: if_splits)
qed

lemma parse_resp_written:
  assumes "list_all command_in_limits cmds" "length cmds \<le> MAX_RESP_COMMANDS"
    and "length (concat (map resp_bulk_array cmds)) \<le> MAX_RESP_FRAME_SIZE"
  shows "parse_resp (concat (map resp_bulk_array cmds)) = Some (Some cmds)"
  using parse_resp_loop_written [of cmds "[]" "[]"] assms
  by (simp add: parse_resp_def MAX_RESP_FRAME_SIZE_def usize_max_def)

text \<open>Property C16. A batch of commands that respects the limits of the parser, written as RESP arrays, is
  read back as exactly these commands.\<close>

theorem resp_roundtrip:
  assumes "list_all command_in_limits cmds" "length cmds \<le> MAX_RESP_COMMANDS"
    and "length (concat (map resp_bulk_array cmds)) \<le> MAX_RESP_FRAME_SIZE"
  shows "parse_resp (concat (map resp_bulk_array cmds)) = Some (Some cmds)"
  using assms by (rule parse_resp_written)

theorem resp_roundtrip_witness:
  "parse_resp (concat (map resp_bulk_array [[bstr ''SET'', bstr ''k'', [0x0D, 0x0A, 0xFF]], [bstr ''QUIT'']])) =
     Some (Some [[bstr ''SET'', bstr ''k'', [0x0D, 0x0A, 0xFF]], [bstr ''QUIT'']])"
  by (rule resp_roundtrip)
    (simp_all add: command_in_limits_def bstr_def MAX_RESP_COMMANDS_def MAX_RESP_FRAME_SIZE_def
      resp_bulk_array_def CRLF_def show_dec.simps)

end
