(* ===== verification/Redis_Replies.thy ===== *)
theory Redis_Replies
  imports Redis_Resp
begin

text \<open>
  The answers of the Redis handler that depend only on the arguments of a command:
  \<open>nettrap-proto-redis/src/handler.rs\<close> (the free functions), \<open>handler/collections.rs\<close>,
  \<open>handler/sorted_sets.rs\<close> and the error texts of \<open>handler/commands.rs\<close>. The emulation stores no keys,
  so an answer checks the grammar of the arguments and is otherwise fixed. \<open>resp_line\<close> is a literal
  that ends in \<open>\r\n\<close>.
\<close>

section \<open>Building blocks\<close>

definition resp_line :: "string \<Rightarrow> bytes" where
  "resp_line s = bstr s @ CRLF"

text \<open>\<open>Display\<close> of a signed integer.\<close>

definition show_int :: "int \<Rightarrow> bytes" where
  "show_int n = (if n < 0 then 0x2D # show_dec (nat (- n)) else show_dec (nat n))"

definition syntax_error :: bytes where
  "syntax_error = resp_line ''-ERR syntax error''"

definition wrong_number_of_arguments :: "string \<Rightarrow> bytes" where
  "wrong_number_of_arguments command =
     bstr ''-ERR wrong number of arguments for '' @ [0x27] @ bstr command @ [0x27]
     @ resp_line '' command''"

definition protocol_error :: bytes where
  "protocol_error = resp_line ''-ERR Protocol error''"

abbreviation integer_error :: bytes where
  "integer_error \<equiv> resp_line ''-ERR value is not an integer or out of range''"

abbreviation float_error :: bytes where
  "float_error \<equiv> resp_line ''-ERR value is not a valid float''"

definition text_command :: "bytes \<Rightarrow> bytes option" where
  "text_command v = from_utf8 v"

fun text_args :: "bytes list \<Rightarrow> bytes list option" where
  "text_args [] = Some []"
| "text_args (a # as) =
     (case text_command a of None \<Rightarrow> None | Some t \<Rightarrow> map_option (Cons t) (text_args as))"

definition parse_unsigned_decimal_bytes :: "nat \<Rightarrow> bytes \<Rightarrow> nat option" where
  "parse_unsigned_decimal_bytes limit v =
     (case from_utf8 v of
        None \<Rightarrow> None
      | Some t \<Rightarrow> if t = [] \<or> \<not> list_all is_ascii_digit t then None else parse_digits limit t)"

abbreviation unsigned_u64 :: "bytes \<Rightarrow> nat option" where
  "unsigned_u64 \<equiv> parse_unsigned_decimal_bytes (2 ^ 64 - 1)"

definition parse_signed_decimal_bytes :: "bytes \<Rightarrow> int option" where
  "parse_signed_decimal_bytes v =
     (case from_utf8 v of
        None \<Rightarrow> None
      | Some t \<Rightarrow>
          if t = [] then None
          else
            let digits = (if starts_with t [0x2B] \<or> starts_with t [0x2D] then drop 1 t else t) in
            if digits = [] \<or> \<not> list_all is_ascii_digit digits then None
            else parse_i64 t)"

text \<open>\<open>str::parse::<f64>\<close>: an optional sign, then \<open>inf\<close>, \<open>infinity\<close> or \<open>nan\<close> in any case, or digits
  with an optional point (at least one digit) and an optional exponent. The handler never looks at the
  number, only whether there is one and whether it is a NaN.\<close>

datatype f64_text = F64_nan | F64_number

definition f64_exponent :: "bytes \<Rightarrow> bool" where
  "f64_exponent s \<longleftrightarrow>
     s = [] \<or>
     (case s of
        [] \<Rightarrow> True
      | c # r \<Rightarrow>
          (c = 0x65 \<or> c = 0x45) \<and>
          (let ds = (case r of [] \<Rightarrow> [] | d # r' \<Rightarrow> if d = 0x2B \<or> d = 0x2D then r' else r) in
           ds \<noteq> [] \<and> list_all is_ascii_digit ds))"

definition f64_number :: "bytes \<Rightarrow> bool" where
  "f64_number s \<longleftrightarrow>
     (let whole = takeWhile is_ascii_digit s;
          rest = dropWhile is_ascii_digit s in
      case rest of
        [] \<Rightarrow> whole \<noteq> []
      | c # r \<Rightarrow>
          if c = 0x2E then
            (whole \<noteq> [] \<or> takeWhile is_ascii_digit r \<noteq> []) \<and> f64_exponent (dropWhile is_ascii_digit r)
          else whole \<noteq> [] \<and> f64_exponent rest)"

definition parse_f64 :: "bytes \<Rightarrow> f64_text option" where
  "parse_f64 s =
     (let t = (case s of [] \<Rightarrow> [] | c # r \<Rightarrow> if c = 0x2B \<or> c = 0x2D then r else s) in
      if eq_ignore_ascii_case t (bstr ''nan'') then Some F64_nan
      else if eq_ignore_ascii_case t (bstr ''inf'') \<or> eq_ignore_ascii_case t (bstr ''infinity'')
              \<or> f64_number t then Some F64_number
      else None)"

definition parse_float_decimal_bytes :: "bytes \<Rightarrow> f64_text option" where
  "parse_float_decimal_bytes v =
     (case from_utf8 v of
        None \<Rightarrow> None
      | Some t \<Rightarrow>
          (case parse_f64 t of None \<Rightarrow> None | Some x \<Rightarrow> if x \<noteq> F64_nan then Some x else None))"

text \<open>\<open>vec!["*", n, "\r\n"]\<close> followed by the same element for every argument.\<close>

definition repeated_reply :: "bytes list \<Rightarrow> bytes \<Rightarrow> bytes" where
  "repeated_reply args element =
     bstr ''*'' @ show_dec (length args) @ CRLF @ concat (map (\<lambda>_. element) args)"

definition ping_response :: "bytes list \<Rightarrow> bytes" where
  "ping_response args =
     (case args of
        [] \<Rightarrow> resp_line ''+PONG''
      | [message] \<Rightarrow> bstr ''$'' @ show_dec (length message) @ CRLF @ message @ CRLF
      | _ \<Rightarrow> wrong_number_of_arguments ''ping'')"

definition echo_response :: "bytes list \<Rightarrow> bytes" where
  "echo_response args =
     (case args of
        [message] \<Rightarrow> bstr ''$'' @ show_dec (length message) @ CRLF @ message @ CRLF
      | _ \<Rightarrow> wrong_number_of_arguments ''echo'')"

definition role_response :: "bytes list \<Rightarrow> bytes" where
  "role_response args =
     (if args \<noteq> [] then wrong_number_of_arguments ''role''
      else resp_line ''*3'' @ resp_line ''$6'' @ resp_line ''master'' @ resp_line '':0'' @ resp_line ''*0'')"

section \<open>Keys and strings\<close>

text \<open>The option loop of \<open>set_response\<close>; the last step is the answer after the loop.\<close>

function set_options_loop :: "bytes list \<Rightarrow> usize \<Rightarrow> bool \<Rightarrow> bool \<Rightarrow> bool \<Rightarrow> bytes rs" where
  "set_options_loop args index saw_expiry saw_condition saw_get =
     (if index < length args then
        (case idx args index of
           None \<Rightarrow> None
         | Some arg \<Rightarrow>
             (case map_option to_ascii_uppercase (text_command arg) of
                None \<Rightarrow> Some protocol_error
              | Some opt \<Rightarrow>
                  if one_of opt [''EX'', ''PX'', ''EXAT'', ''PXAT''] then
                    if saw_expiry then Some syntax_error
                    else
                      (case idx args (index + 1) of
                         None \<Rightarrow> Some syntax_error
                       | Some expiry \<Rightarrow>
                           if (case unsigned_u64 expiry of None \<Rightarrow> True | Some v \<Rightarrow> v = 0)
                           then Some (resp_line ''-ERR invalid expire time in 'set' command'')
                           else set_options_loop args (index + 1 + 1) True saw_condition saw_get)
                  else if opt = bstr ''KEEPTTL'' then
                    if saw_expiry then Some syntax_error
                    else set_options_loop args (index + 1) True saw_condition saw_get
                  else if one_of opt [''NX'', ''XX''] then
                    if saw_condition then Some syntax_error
                    else set_options_loop args (index + 1) saw_expiry True saw_get
                  else if one_of opt [''IFEQ'', ''IFNE'', ''IFDEQ'', ''IFDNE''] then
                    if saw_condition then Some syntax_error
                    else if idx args (index + 1) = None then Some syntax_error
                    else set_options_loop args (index + 1 + 1) saw_expiry True saw_get
                  else if opt = bstr ''GET'' then
                    if saw_get then Some syntax_error
                    else set_options_loop args (index + 1) saw_expiry saw_condition True
                  else Some syntax_error))
      else Some (if saw_get then resp_line ''$-1'' else resp_line ''+OK''))"
  by pat_completeness auto
termination
  by (relation "measure (\<lambda>(args, index, _). length args - index)") auto

declare set_options_loop.simps [simp del]

definition set_response :: "bytes list \<Rightarrow> bytes rs" where
  "set_response args =
     (if length args < 2 then Some (wrong_number_of_arguments ''set'')
      else set_options_loop args 2 False False False)"

definition mget_response :: "bytes list \<Rightarrow> bytes" where
  "mget_response args =
     (if args = [] then wrong_number_of_arguments ''mget''
      else repeated_reply args (resp_line ''$-1''))"

definition get_response :: "bytes list \<Rightarrow> bytes" where
  "get_response args =
     (if length args = 1 then resp_line ''$-1'' else wrong_number_of_arguments ''get'')"

definition getset_response :: "bytes list \<Rightarrow> bytes" where
  "getset_response args =
     (if length args \<noteq> 2 then wrong_number_of_arguments ''getset'' else resp_line ''$-1'')"

definition getdel_response :: "bytes list \<Rightarrow> bytes" where
  "getdel_response args =
     (if length args \<noteq> 1 then wrong_number_of_arguments ''getdel'' else resp_line ''$-1'')"

definition del_response :: "bytes list \<Rightarrow> bytes" where
  "del_response args = (if args = [] then wrong_number_of_arguments ''del'' else resp_line '':0'')"

definition exists_response :: "bytes list \<Rightarrow> bytes" where
  "exists_response args = (if args = [] then wrong_number_of_arguments ''exists'' else resp_line '':0'')"

definition ttl_response :: "bytes list \<Rightarrow> string \<Rightarrow> bytes" where
  "ttl_response args command =
     (if length args \<noteq> 1 then wrong_number_of_arguments command else resp_line '':-2'')"

definition expiretime_response :: "bytes list \<Rightarrow> string \<Rightarrow> bytes" where
  "expiretime_response args command =
     (if length args \<noteq> 1 then wrong_number_of_arguments command else resp_line '':-2'')"

definition expire_response :: "bytes list \<Rightarrow> string \<Rightarrow> bytes rs" where
  "expire_response args command =
     (if \<not> (length args = 2 \<or> length args = 3) then Some (wrong_number_of_arguments command)
      else do {
        seconds \<leftarrow> idx args 1;
        if unsigned_u64 seconds = None then Some integer_error
        else if (case idx args 2 of
                   None \<Rightarrow> False
                 | Some opt \<Rightarrow> \<not> one_of opt [''NX'', ''nx'', ''XX'', ''xx'', ''GT'', ''gt'', ''LT'', ''lt''])
        then Some (resp_line ''-ERR syntax error'')
        else Some (resp_line '':0'') })"

definition type_response :: "bytes list \<Rightarrow> bytes" where
  "type_response args =
     (if length args \<noteq> 1 then wrong_number_of_arguments ''type'' else resp_line ''+none'')"

definition strlen_response :: "bytes list \<Rightarrow> bytes" where
  "strlen_response args =
     (if length args \<noteq> 1 then wrong_number_of_arguments ''strlen'' else resp_line '':0'')"

definition setex_response :: "bytes list \<Rightarrow> string \<Rightarrow> bytes rs" where
  "setex_response args command =
     (if length args \<noteq> 3 then Some (wrong_number_of_arguments command)
      else do {
        seconds \<leftarrow> idx args 1;
        if (case unsigned_u64 seconds of None \<Rightarrow> True | Some v \<Rightarrow> v = 0) then Some integer_error
        else Some (resp_line ''+OK'') })"

definition setnx_response :: "bytes list \<Rightarrow> bytes" where
  "setnx_response args =
     (if length args \<noteq> 2 then wrong_number_of_arguments ''setnx'' else resp_line '':1'')"

definition mset_response :: "bytes list \<Rightarrow> string \<Rightarrow> bytes" where
  "mset_response args command =
     (if args = [] \<or> length args mod 2 \<noteq> 0 then wrong_number_of_arguments command
      else if command = ''mset'' then resp_line ''+OK'' else resp_line '':1'')"

definition append_response :: "bytes list \<Rightarrow> bytes rs" where
  "append_response args =
     (if length args \<noteq> 2 then Some (wrong_number_of_arguments ''append'')
      else do { v \<leftarrow> idx args 1; Some (bstr '':'' @ show_dec (length v) @ CRLF) })"

definition getbit_response :: "bytes list \<Rightarrow> bytes rs" where
  "getbit_response args =
     (if length args \<noteq> 2 then Some (wrong_number_of_arguments ''getbit'')
      else do {
        offset \<leftarrow> idx args 1;
        if unsigned_u64 offset = None then Some integer_error else Some (resp_line '':0'') })"

definition setbit_response :: "bytes list \<Rightarrow> bytes rs" where
  "setbit_response args =
     (if length args \<noteq> 3 then Some (wrong_number_of_arguments ''setbit'')
      else do {
        offset \<leftarrow> idx args 1;
        if unsigned_u64 offset = None then Some integer_error
        else do {
          bit_arg \<leftarrow> idx args 2;
          if one_of bit_arg [''0'', ''1''] then Some (resp_line '':0'')
          else Some (resp_line ''-ERR The bit argument must be 1 or 0.'') } })"

definition bitcount_response :: "bytes list \<Rightarrow> bytes rs" where
  "bitcount_response args =
     (if length args = 1 then Some (resp_line '':0'')
      else if length args = 3 then do {
        a \<leftarrow> idx args 1; b \<leftarrow> idx args 2;
        if parse_signed_decimal_bytes a = None \<or> parse_signed_decimal_bytes b = None
        then Some integer_error else Some (resp_line '':0'') }
      else if length args = 4 then do {
        a \<leftarrow> idx args 1; b \<leftarrow> idx args 2;
        if parse_signed_decimal_bytes a = None \<or> parse_signed_decimal_bytes b = None
        then Some integer_error
        else do {
          unit_arg \<leftarrow> idx args 3;
          if \<not> one_of unit_arg [''BYTE'', ''byte'', ''BIT'', ''bit'']
          then Some (resp_line ''-ERR syntax error'') else Some (resp_line '':0'') } }
      else Some (wrong_number_of_arguments ''bitcount''))"

definition pfadd_response :: "bytes list \<Rightarrow> bytes" where
  "pfadd_response args =
     (if length args < 2 then wrong_number_of_arguments ''pfadd'' else resp_line '':1'')"

definition pfcount_response :: "bytes list \<Rightarrow> bytes" where
  "pfcount_response args = (if args = [] then wrong_number_of_arguments ''pfcount'' else resp_line '':0'')"

definition pfmerge_response :: "bytes list \<Rightarrow> bytes" where
  "pfmerge_response args =
     (if length args < 2 then wrong_number_of_arguments ''pfmerge'' else resp_line ''+OK'')"

definition publish_response :: "bytes list \<Rightarrow> bytes" where
  "publish_response args =
     (if length args \<noteq> 2 then wrong_number_of_arguments ''publish'' else resp_line '':0'')"

definition pubsub_response :: "bytes list \<Rightarrow> bytes rs" where
  "pubsub_response args =
     (case args of
        [] \<Rightarrow> Some (wrong_number_of_arguments ''pubsub'')
      | first_arg # _ \<Rightarrow>
          (case text_command first_arg of
             None \<Rightarrow> Some protocol_error
           | Some subcommand \<Rightarrow>
               let sub = to_ascii_uppercase subcommand in
               if sub = bstr ''CHANNELS'' then
                 if length args > 2 then Some (wrong_number_of_arguments ''pubsub|channels'')
                 else Some (resp_line ''*0'')
               else if sub = bstr ''NUMSUB'' then
                 if length args < 2 then Some (wrong_number_of_arguments ''pubsub|numsub'')
                 else do {
                   channels \<leftarrow> slice_from args 1;
                   Some (bstr ''*'' @ show_dec (min ((length args - 1) * 2) usize_max) @ CRLF
                     @ concat (map (\<lambda>channel. bstr ''$'' @ show_dec (length channel) @ CRLF @ channel
                         @ CRLF @ resp_line '':0'') channels)) }
               else if sub = bstr ''NUMPAT'' then
                 if length args \<noteq> 1 then Some (wrong_number_of_arguments ''pubsub|numpat'')
                 else Some (resp_line '':0'')
               else Some (resp_line ''-ERR unknown PUBSUB subcommand'')))"

definition keys_response :: "bytes list \<Rightarrow> bytes" where
  "keys_response args =
     (if length args \<noteq> 1 then wrong_number_of_arguments ''keys'' else resp_line ''*0'')"

definition randomkey_response :: "bytes list \<Rightarrow> bytes" where
  "randomkey_response args =
     (if args \<noteq> [] then wrong_number_of_arguments ''randomkey'' else resp_line ''$-1'')"

function scan_options_loop :: "bytes list \<Rightarrow> usize \<Rightarrow> bytes rs" where
  "scan_options_loop args index =
     (if index < length args then
        (case idx args index of
           None \<Rightarrow> None
         | Some arg \<Rightarrow>
             (case map_option to_ascii_uppercase (text_command arg) of
                None \<Rightarrow> Some protocol_error
              | Some opt \<Rightarrow>
                  (case idx args (index + 1) of
                     None \<Rightarrow> Some syntax_error
                   | Some v \<Rightarrow>
                       if one_of opt [''MATCH'', ''TYPE''] then scan_options_loop args (index + 2)
                       else if opt = bstr ''COUNT'' then
                         if unsigned_u64 v = None then Some integer_error
                         else scan_options_loop args (index + 2)
                       else Some syntax_error)))
      else Some (resp_line ''*2'' @ resp_line ''$1'' @ resp_line ''0'' @ resp_line ''*0''))"
  by pat_completeness auto
termination
  by (relation "measure (\<lambda>(args, index). length args - index)") auto

declare scan_options_loop.simps [simp del]

definition scan_response :: "bytes list \<Rightarrow> bytes rs" where
  "scan_response args =
     (case args of
        [] \<Rightarrow> Some (wrong_number_of_arguments ''scan'')
      | cursor # _ \<Rightarrow>
          if unsigned_u64 cursor = None then Some integer_error
          else scan_options_loop args 1)"

definition touch_response :: "bytes list \<Rightarrow> bytes" where
  "touch_response args = (if args = [] then wrong_number_of_arguments ''touch'' else resp_line '':0'')"

definition unlink_response :: "bytes list \<Rightarrow> bytes" where
  "unlink_response args = (if args = [] then wrong_number_of_arguments ''unlink'' else resp_line '':0'')"

definition move_response :: "bytes list \<Rightarrow> bytes rs" where
  "move_response args =
     (if length args \<noteq> 2 then Some (wrong_number_of_arguments ''move'')
      else do {
        db \<leftarrow> idx args 1;
        if unsigned_u64 db = None then Some integer_error else Some (resp_line '':0'') })"

function copy_options_loop :: "bytes list \<Rightarrow> usize \<Rightarrow> bool \<Rightarrow> bytes rs" where
  "copy_options_loop args index saw_db =
     (if index < length args then
        (case idx args index of
           None \<Rightarrow> None
         | Some arg \<Rightarrow>
             if eq_ignore_ascii_case arg (bstr ''replace'') then
               if index + 1 \<noteq> length args then Some (resp_line ''-ERR syntax error'')
               else Some (resp_line '':0'')
             else if \<not> eq_ignore_ascii_case arg (bstr ''db'') then Some (resp_line ''-ERR syntax error'')
             else if saw_db then Some (resp_line ''-ERR syntax error'')
             else
               (case idx args (index + 1) of
                  None \<Rightarrow> Some (wrong_number_of_arguments ''copy'')
                | Some db \<Rightarrow>
                    if unsigned_u64 db = None then Some integer_error
                    else copy_options_loop args (index + 1 + 1) True))
      else Some (resp_line '':0''))"
  by pat_completeness auto
termination
  by (relation "measure (\<lambda>(args, index, _). length args - index)") auto

declare copy_options_loop.simps [simp del]

definition copy_response :: "bytes list \<Rightarrow> bytes rs" where
  "copy_response args =
     (if length args < 2 then Some (wrong_number_of_arguments ''copy'')
      else copy_options_loop args 2 False)"

text \<open>The flags of the loop of \<open>sort_response\<close>.\<close>

record sort_flags =
  saw_by :: bool
  saw_limit :: bool
  saw_order :: bool
  saw_alpha :: bool
  saw_store :: bool

function sort_options_loop :: "bytes list \<Rightarrow> bool \<Rightarrow> usize \<Rightarrow> sort_flags \<Rightarrow> bytes rs" where
  "sort_options_loop args allow_store index fl =
     (if index < length args then
        (case idx args index of
           None \<Rightarrow> None
         | Some arg \<Rightarrow>
             (case map_option to_ascii_uppercase (text_command arg) of
                None \<Rightarrow> Some protocol_error
              | Some opt \<Rightarrow>
                  if opt = bstr ''BY'' then
                    if saw_by fl then Some syntax_error
                    else if idx args (index + 2 - 1) = None then Some syntax_error
                    else sort_options_loop args allow_store (index + 2) (fl\<lparr>saw_by := True\<rparr>)
                  else if opt = bstr ''LIMIT'' then
                    if saw_limit fl then Some syntax_error
                    else if index + 2 \<ge> length args then Some syntax_error
                    else
                      (case (idx args (index + 1), idx args (index + 2)) of
                         (Some a, Some b) \<Rightarrow>
                           if unsigned_u64 a = None \<or> unsigned_u64 b = None then Some integer_error
                           else sort_options_loop args allow_store (index + 3) (fl\<lparr>saw_limit := True\<rparr>)
                       | _ \<Rightarrow> None)
                  else if opt = bstr ''GET'' then
                    if idx args (index + 2 - 1) = None then Some syntax_error
                    else sort_options_loop args allow_store (index + 2) fl
                  else if one_of opt [''ASC'', ''DESC'', ''ALPHA''] then
                    if opt = bstr ''ALPHA'' then
                      if saw_alpha fl then Some syntax_error
                      else sort_options_loop args allow_store (index + 1) (fl\<lparr>saw_alpha := True\<rparr>)
                    else
                      if saw_order fl then Some syntax_error
                      else sort_options_loop args allow_store (index + 1) (fl\<lparr>saw_order := True\<rparr>)
                  else if opt = bstr ''STORE'' then
                    if \<not> allow_store then Some syntax_error
                    else if saw_store fl then Some syntax_error
                    else if idx args (index + 2 - 1) = None then Some syntax_error
                    else sort_options_loop args allow_store (index + 2) (fl\<lparr>saw_store := True\<rparr>)
                  else Some syntax_error))
      else Some (if saw_store fl then resp_line '':0'' else resp_line ''*0''))"
  by pat_completeness auto
termination
  by (relation "measure (\<lambda>(args, _, index, _). length args - index)") auto

declare sort_options_loop.simps [simp del]

definition sort_response :: "bytes list \<Rightarrow> bool \<Rightarrow> bytes rs" where
  "sort_response args allow_store =
     (if args = [] then Some (wrong_number_of_arguments (if allow_store then ''sort'' else ''sort_ro''))
      else sort_options_loop args allow_store 1
        \<lparr>saw_by = False, saw_limit = False, saw_order = False, saw_alpha = False, saw_store = False\<rparr>)"

definition incr_decr_response :: "bytes list \<Rightarrow> string \<Rightarrow> int \<Rightarrow> bytes" where
  "incr_decr_response args command delta =
     (if length args \<noteq> 1 then wrong_number_of_arguments command
      else bstr '':'' @ show_int delta @ CRLF)"

text \<open>\<open>i64::checked_neg\<close>.\<close>

definition checked_neg :: "int \<Rightarrow> int option" where
  "checked_neg n = (if - n \<le> i64_max then Some (- n) else None)"

definition incrby_decrby_response :: "bytes list \<Rightarrow> string \<Rightarrow> int \<Rightarrow> bytes rs" where
  "incrby_decrby_response args command direction =
     (if length args \<noteq> 2 then Some (wrong_number_of_arguments command)
      else do {
        arg \<leftarrow> idx args 1;
        let_else (parse_signed_decimal_bytes arg) integer_error (\<lambda>amount.
        if direction > 0 then Some (bstr '':'' @ show_int amount @ CRLF)
        else let_else (checked_neg amount) integer_error (\<lambda>negated.
          Some (bstr '':'' @ show_int negated @ CRLF))) })"

section \<open>Server commands\<close>

definition is_usable_replication_ipv4 :: "ipv4 \<Rightarrow> bool" where
  "is_usable_replication_ipv4 ip \<longleftrightarrow>
     \<not> v4_is_unspecified ip \<and> \<not> v4_is_loopback ip \<and> \<not> v4_is_multicast ip \<and> \<not> v4_is_broadcast ip"

fun is_usable_replication_ip :: "ip_addr \<Rightarrow> bool" where
  "is_usable_replication_ip (V4 ip) = is_usable_replication_ipv4 ip"
| "is_usable_replication_ip (V6 ip) =
     (case to_ipv4_mapped ip of
        Some mapped \<Rightarrow> is_usable_replication_ipv4 mapped
      | None \<Rightarrow> \<not> v6_is_unspecified ip \<and> \<not> v6_is_loopback ip \<and> \<not> v6_is_multicast ip)"

definition is_valid_replication_host :: "bytes \<Rightarrow> bool" where
  "is_valid_replication_host host =
     (case strip_prefix host [0x5B] of
        Some rest \<Rightarrow>
          (case split_once rest 0x5D of
             None \<Rightarrow> False
           | Some (inner, suffix) \<Rightarrow>
               suffix = [] \<and>
               (case parse_ipv6 inner of None \<Rightarrow> False | Some ip \<Rightarrow> is_usable_replication_ip (V6 ip)))
      | None \<Rightarrow>
          (case parse_ipv4 host of
             Some ip \<Rightarrow> is_usable_replication_ipv4 ip
           | None \<Rightarrow>
               if (case strip_suffix host [0x2E] of
                     Some h \<Rightarrow> h = [] \<or> ends_with h [0x2E] | None \<Rightarrow> False)
               then False
               else
                 let host = (case strip_suffix host [0x2E] of Some h \<Rightarrow> h | None \<Rightarrow> host) in
                 length host \<le> 253 \<and> has_valid_domain_labels host
                 \<and> has_valid_domain_label_lengths host \<and> \<not> has_numeric_domain_labels host))"

definition replication_response :: "string \<Rightarrow> bytes list \<Rightarrow> bytes rs" where
  "replication_response command args0 =
     let_else (text_args args0) protocol_error (\<lambda>args.
     if length args \<noteq> 2 then Some (wrong_number_of_arguments command)
     else do {
       host \<leftarrow> idx args 0;
       port \<leftarrow> idx args 1;
       if eq_ignore_ascii_case host (bstr ''NO'') \<and> eq_ignore_ascii_case port (bstr ''ONE'')
       then Some (resp_line ''+OK'')
       else if host = [] \<or> \<not> is_valid_replication_host host then Some (resp_line ''-ERR invalid host'')
       else if (case parse_unsigned_decimal_bytes 65535 port of None \<Rightarrow> True | Some v \<Rightarrow> v = 0)
       then Some (resp_line ''-ERR invalid port'')
       else Some (resp_line ''+OK'') })"

definition eval_response :: "string \<Rightarrow> bytes list \<Rightarrow> bytes rs" where
  "eval_response command args =
     (if length args < 2 then Some (wrong_number_of_arguments command)
      else do {
        count_arg \<leftarrow> idx args 1;
        let_else (parse_unsigned_decimal_bytes usize_max count_arg) integer_error (\<lambda>key_count.
        if key_count > length args - 2
        then Some (resp_line ''-ERR Number of keys can't be greater than number of args'')
        else let_else (text_args args) protocol_error (\<lambda>_. Some (resp_line ''+OK''))) })"

definition flush_response :: "string \<Rightarrow> bytes list \<Rightarrow> bytes" where
  "flush_response command args =
     (case args of
        [] \<Rightarrow> resp_line ''+OK''
      | [mode_arg] \<Rightarrow>
          (case text_command mode_arg of
             None \<Rightarrow> protocol_error
           | Some mode \<Rightarrow>
               if eq_ignore_ascii_case mode (bstr ''ASYNC'') \<or> eq_ignore_ascii_case mode (bstr ''SYNC'')
               then resp_line ''+OK'' else syntax_error)
      | _ \<Rightarrow> wrong_number_of_arguments command)"

definition select_response :: "bytes list \<Rightarrow> bytes" where
  "select_response args0 =
     (case text_args args0 of
        None \<Rightarrow> protocol_error
      | Some args \<Rightarrow>
          (case args of
             [index] \<Rightarrow>
               if unsigned_u64 index \<noteq> None then resp_line ''+OK'' else resp_line ''-ERR invalid DB index''
           | _ \<Rightarrow> wrong_number_of_arguments ''select''))"

definition save_response :: "string \<Rightarrow> bytes list \<Rightarrow> bytes" where
  "save_response command args =
     (if args = [] then resp_line ''+OK'' else wrong_number_of_arguments command)"

definition bgsave_response :: "bytes list \<Rightarrow> bytes" where
  "bgsave_response args =
     (case args of
        [] \<Rightarrow> resp_line ''+OK''
      | [mode_arg] \<Rightarrow>
          (case text_command mode_arg of
             None \<Rightarrow> protocol_error
           | Some mode \<Rightarrow>
               if eq_ignore_ascii_case mode (bstr ''SCHEDULE'') then resp_line ''+OK'' else syntax_error)
      | _ \<Rightarrow> wrong_number_of_arguments ''bgsave'')"

text \<open>The arms of the command table that are written in place.\<close>

definition module_response :: "bytes list \<Rightarrow> bytes" where
  "module_response args =
     (if args = [] then wrong_number_of_arguments ''module''
      else resp_line ''-ERR Module loading is disabled'')"

definition dbsize_response :: "bytes list \<Rightarrow> bytes" where
  "dbsize_response args = (if args = [] then resp_line '':0'' else wrong_number_of_arguments ''dbsize'')"

definition command_response :: "bytes list \<Rightarrow> bytes" where
  "command_response args = (if args = [] then resp_line ''*0'' else wrong_number_of_arguments ''command'')"

definition cluster_response :: "bytes list \<Rightarrow> bytes" where
  "cluster_response args =
     (if args = [] then wrong_number_of_arguments ''cluster''
      else resp_line ''-ERR This instance has cluster support disabled'')"

subsection \<open>Configuration\<close>

text \<open>The matching loop of \<open>glob_match_config_pattern\<close>. Every index is in range by the test before it.
  In a state with \<open>match_t \<le> t\<close>, which the loop keeps, either \<open>match_t\<close> grows or \<open>p\<close> and \<open>t\<close> do.\<close>

function glob_loop :: "bytes \<Rightarrow> bytes \<Rightarrow> usize \<Rightarrow> usize \<Rightarrow> usize option \<Rightarrow> usize \<Rightarrow> (usize option)" where
  "glob_loop pattern txt p t star match_t =
     (if t < length txt then
        if p < length pattern
           \<and> (pattern ! p = 0x3F \<or> ascii_lower (pattern ! p) = ascii_lower (txt ! t))
        then glob_loop pattern txt (p + 1) (t + 1) star match_t
        else if p < length pattern \<and> pattern ! p = 0x2A
        then glob_loop pattern txt (p + 1) t (Some p) t
        else
          (case star of
             Some star_index \<Rightarrow>
               glob_loop pattern txt (star_index + 1) (match_t + 1) (Some star_index) (match_t + 1)
           | None \<Rightarrow> None)
      else Some p)"
  by pat_completeness auto
termination
  by (relation "measures [\<lambda>(pattern, txt, p, t, star, match_t). if match_t \<le> t then 0 else 1,
      \<lambda>(pattern, txt, p, t, star, match_t). length txt - match_t,
      \<lambda>(pattern, txt, p, t, star, match_t). (length txt - t) + (length pattern - p)]") auto

declare glob_loop.simps [simp del]

function glob_trailing :: "bytes \<Rightarrow> usize \<Rightarrow> usize" where
  "glob_trailing pattern p =
     (if p < length pattern \<and> pattern ! p = 0x2A then glob_trailing pattern (p + 1) else p)"
  by pat_completeness auto
termination
  by (relation "measure (\<lambda>(pattern, p). length pattern - p)") auto

declare glob_trailing.simps [simp del]

definition glob_match_config_pattern :: "bytes \<Rightarrow> bytes \<Rightarrow> bool" where
  "glob_match_config_pattern pattern txt =
     (case glob_loop pattern txt 0 0 None 0 of
        None \<Rightarrow> False
      | Some p \<Rightarrow> glob_trailing pattern p = length pattern)"

definition CONFIG_VALUES :: "(string \<times> string) list" where
  "CONFIG_VALUES =
     [(''dir'', ''/tmp/''), (''dbfilename'', ''dump.rdb''), (''save'', ''3600 1 300 100 60 10000''),
      (''maxmemory'', ''0''), (''bind'', ''0.0.0.0'')]"

definition config_get_response :: "bytes \<Rightarrow> bytes" where
  "config_get_response pattern0 =
     (let pattern = to_ascii_lowercase pattern0;
          entries = filter (\<lambda>(key, v). glob_match_config_pattern pattern (bstr key)) CONFIG_VALUES
      in bstr ''*'' @ show_dec (length entries * 2) @ CRLF
         @ concat (map (\<lambda>(key, v).
             bstr ''$'' @ show_dec (length (bstr key)) @ CRLF @ bstr key @ CRLF
             @ bstr ''$'' @ show_dec (length (bstr v)) @ CRLF @ bstr v @ CRLF) entries))"

text \<open>\<open>str::to_uppercase\<close>. The sources compare the result with ASCII literals only. Besides the ASCII
  letters exactly ten characters have an upper case of ASCII letters; every other character keeps, in
  its upper case, a character outside ASCII, and is left as it is.\<close>

definition char_uppercase :: "nat \<Rightarrow> bytes" where
  "char_uppercase c =
     (if c < 128 then [ascii_upper (word_of_nat c)]
      else if c = 0xDF then bstr ''SS''
      else if c = 0x131 then bstr ''I''
      else if c = 0x17F then bstr ''S''
      else if c = 0xFB00 then bstr ''FF''
      else if c = 0xFB01 then bstr ''FI''
      else if c = 0xFB02 then bstr ''FL''
      else if c = 0xFB03 then bstr ''FFI''
      else if c = 0xFB04 then bstr ''FFL''
      else if c = 0xFB05 \<or> c = 0xFB06 then bstr ''ST''
      else utf8_encode_char c)"

definition str_to_uppercase :: "bytes \<Rightarrow> bytes" where
  "str_to_uppercase s = concat (map char_uppercase (chars s))"

definition handle_config_command :: "bytes list \<Rightarrow> bytes rs" where
  "handle_config_command args0 =
     let_else (text_args args0) protocol_error (\<lambda>args.
     if args = [] then Some (wrong_number_of_arguments ''config'')
     else do {
       first_arg \<leftarrow> idx args 0;
       let subcommand = str_to_uppercase first_arg in
       if subcommand = bstr ''SET'' then
         if length args < 3 \<or> length args mod 2 = 0 then Some (wrong_number_of_arguments ''config|set'')
         else Some (resp_line ''+OK'')
       else if subcommand = bstr ''GET'' then
         if length args \<noteq> 2 then Some (wrong_number_of_arguments ''config|get'')
         else do { pattern \<leftarrow> idx args 1; Some (config_get_response pattern) }
       else Some (resp_line ''-ERR unknown CONFIG subcommand'') })"

definition handle_eval_command :: "bytes list \<Rightarrow> bytes rs" where
  "handle_eval_command args = eval_response ''eval'' args"

section \<open>Hashes, sets and lists\<close>

definition hash_set_response :: "bytes list \<Rightarrow> string \<Rightarrow> bytes" where
  "hash_set_response args command =
     (if length args < 3 \<or> length args mod 2 \<noteq> 1 then wrong_number_of_arguments command
      else bstr '':'' @ show_dec ((length args - 1) div 2) @ CRLF)"

definition hash_set_nx_response :: "bytes list \<Rightarrow> bytes" where
  "hash_set_nx_response args =
     (if length args \<noteq> 3 then wrong_number_of_arguments ''hsetnx'' else resp_line '':1'')"

definition hash_get_response :: "bytes list \<Rightarrow> bytes" where
  "hash_get_response args =
     (if length args \<noteq> 2 then wrong_number_of_arguments ''hget'' else resp_line ''$-1'')"

definition hash_del_response :: "bytes list \<Rightarrow> bytes" where
  "hash_del_response args =
     (if length args < 2 then wrong_number_of_arguments ''hdel'' else resp_line '':0'')"

definition hash_exists_response :: "bytes list \<Rightarrow> bytes" where
  "hash_exists_response args =
     (if length args \<noteq> 2 then wrong_number_of_arguments ''hexists'' else resp_line '':0'')"

definition hash_len_response :: "bytes list \<Rightarrow> bytes" where
  "hash_len_response args =
     (if length args \<noteq> 1 then wrong_number_of_arguments ''hlen'' else resp_line '':0'')"

definition hash_mget_response :: "bytes list \<Rightarrow> bytes rs" where
  "hash_mget_response args =
     (if length args < 2 then Some (wrong_number_of_arguments ''hmget'')
      else do { fields \<leftarrow> slice_from args 1; Some (repeated_reply fields (resp_line ''$-1'')) })"

definition set_add_response :: "bytes list \<Rightarrow> bytes" where
  "set_add_response args =
     (if length args < 2 then wrong_number_of_arguments ''sadd''
      else bstr '':'' @ show_dec (length args - 1) @ CRLF)"

definition set_remove_response :: "bytes list \<Rightarrow> bytes" where
  "set_remove_response args =
     (if length args < 2 then wrong_number_of_arguments ''srem'' else resp_line '':0'')"

definition set_member_response :: "bytes list \<Rightarrow> bytes" where
  "set_member_response args =
     (if length args \<noteq> 2 then wrong_number_of_arguments ''sismember'' else resp_line '':0'')"

definition set_card_response :: "bytes list \<Rightarrow> bytes" where
  "set_card_response args =
     (if length args \<noteq> 1 then wrong_number_of_arguments ''scard'' else resp_line '':0'')"

definition set_members_response :: "bytes list \<Rightarrow> bytes" where
  "set_members_response args =
     (if length args \<noteq> 1 then wrong_number_of_arguments ''smembers'' else resp_line ''*0'')"

definition set_multi_member_response :: "bytes list \<Rightarrow> bytes rs" where
  "set_multi_member_response args =
     (if length args < 2 then Some (wrong_number_of_arguments ''smismember'')
      else do { members \<leftarrow> slice_from args 1; Some (repeated_reply members (resp_line '':0'')) })"

definition list_push_response :: "bytes list \<Rightarrow> string \<Rightarrow> bytes" where
  "list_push_response args command =
     (if length args < 2 then wrong_number_of_arguments command
      else bstr '':'' @ show_dec (length args - 1) @ CRLF)"

definition list_pop_response :: "bytes list \<Rightarrow> string \<Rightarrow> bytes rs" where
  "list_pop_response args command =
     (if args = [] \<or> length args > 2 then Some (wrong_number_of_arguments command)
      else if length args = 2 then do {
        count_arg \<leftarrow> idx args 1;
        if unsigned_u64 count_arg = None then Some integer_error else Some (resp_line ''$-1'') }
      else Some (resp_line ''$-1''))"

definition list_len_response :: "bytes list \<Rightarrow> bytes" where
  "list_len_response args =
     (if length args \<noteq> 1 then wrong_number_of_arguments ''llen'' else resp_line '':0'')"

definition list_range_response :: "bytes list \<Rightarrow> bytes rs" where
  "list_range_response args =
     (if length args \<noteq> 3 then Some (wrong_number_of_arguments ''lrange'')
      else do {
        a \<leftarrow> idx args 1; b \<leftarrow> idx args 2;
        if parse_signed_decimal_bytes a = None \<or> parse_signed_decimal_bytes b = None
        then Some integer_error else Some (resp_line ''*0'') })"

definition list_index_response :: "bytes list \<Rightarrow> bytes rs" where
  "list_index_response args =
     (if length args \<noteq> 2 then Some (wrong_number_of_arguments ''lindex'')
      else do {
        a \<leftarrow> idx args 1;
        if parse_signed_decimal_bytes a = None then Some integer_error else Some (resp_line ''$-1'') })"

section \<open>Sorted sets\<close>

definition sorted_set_card_response :: "bytes list \<Rightarrow> bytes" where
  "sorted_set_card_response args =
     (if length args \<noteq> 1 then wrong_number_of_arguments ''zcard'' else resp_line '':0'')"

definition sorted_set_count_response :: "bytes list \<Rightarrow> bytes rs" where
  "sorted_set_count_response args =
     (if length args \<noteq> 3 then Some (wrong_number_of_arguments ''zcount'')
      else do {
        a \<leftarrow> idx args 1; b \<leftarrow> idx args 2;
        if parse_float_decimal_bytes a = None \<or> parse_float_decimal_bytes b = None
        then Some float_error else Some (resp_line '':0'') })"

definition sorted_set_incr_response :: "bytes list \<Rightarrow> bytes rs" where
  "sorted_set_incr_response args =
     (if length args \<noteq> 3 then Some (wrong_number_of_arguments ''zincrby'')
      else do {
        score \<leftarrow> idx args 1;
        if parse_float_decimal_bytes score = None then Some float_error
        else Some (bstr ''$'' @ show_dec (length score) @ CRLF @ score @ CRLF) })"

definition sorted_set_diff_store_response :: "bytes list \<Rightarrow> bytes rs" where
  "sorted_set_diff_store_response args =
     (if length args < 4 then Some (wrong_number_of_arguments ''zdiffstore'')
      else do {
        count_arg \<leftarrow> idx args 1;
        let_else (parse_unsigned_decimal_bytes usize_max count_arg) integer_error (\<lambda>numkeys.
        let_else (checked_add numkeys 2) (wrong_number_of_arguments ''zdiffstore'') (\<lambda>expected_len.
        if numkeys = 0 \<or> length args \<noteq> expected_len
        then Some (wrong_number_of_arguments ''zdiffstore'')
        else Some (resp_line '':0''))) })"

text \<open>The option loop of \<open>sorted_set_store_with_options_response\<close>.\<close>

function store_options_loop :: "bytes list \<Rightarrow> nat \<Rightarrow> usize \<Rightarrow> bool \<Rightarrow> bool \<Rightarrow> bytes rs" where
  "store_options_loop args numkeys index saw_weights saw_aggregate =
     (if index < length args then
        (case idx args index of
           None \<Rightarrow> None
         | Some arg \<Rightarrow>
             (case map_option to_ascii_uppercase (text_command arg) of
                None \<Rightarrow> Some protocol_error
              | Some opt \<Rightarrow>
                  if opt = bstr ''WEIGHTS'' then
                    if saw_weights \<or> saw_aggregate then Some syntax_error
                    else
                      let weights_end = index + 1 + numkeys in
                      if weights_end > length args then Some syntax_error
                      else
                        (case slice args (index + 1) weights_end of
                           None \<Rightarrow> None
                         | Some weights \<Rightarrow>
                             if list_ex (\<lambda>weight. parse_float_decimal_bytes weight = None) weights
                             then Some float_error
                             else store_options_loop args numkeys weights_end True saw_aggregate)
                  else if opt = bstr ''AGGREGATE'' then
                    if saw_aggregate then Some syntax_error
                    else
                      (case idx args (index + 1) of
                         None \<Rightarrow> Some syntax_error
                       | Some aggregate \<Rightarrow>
                           if \<not> one_of aggregate [''SUM'', ''sum'', ''MIN'', ''min'', ''MAX'', ''max'']
                           then Some syntax_error
                           else store_options_loop args numkeys (index + 1 + 1) saw_weights True)
                  else Some syntax_error))
      else Some (resp_line '':0''))"
  by pat_completeness auto
termination
  by (relation "measure (\<lambda>(args, _, index, _). length args - index)") auto

declare store_options_loop.simps [simp del]

definition sorted_set_store_with_options_response :: "bytes list \<Rightarrow> string \<Rightarrow> bytes rs" where
  "sorted_set_store_with_options_response args command =
     (if length args < 4 then Some (wrong_number_of_arguments command)
      else do {
        count_arg \<leftarrow> idx args 1;
        let_else (parse_unsigned_decimal_bytes usize_max count_arg) integer_error (\<lambda>numkeys.
        let_else (checked_add numkeys 2) (wrong_number_of_arguments command) (\<lambda>first_option_index.
        if numkeys = 0 \<or> length args < first_option_index
        then Some (wrong_number_of_arguments command)
        else store_options_loop args numkeys first_option_index False False)) })"

text \<open>The flag loop of \<open>sorted_set_add_response\<close>: an answer returned from inside the loop, or the index
  where it stopped and whether \<open>INCR\<close> was seen.\<close>

record zadd_flags =
  seen_nx :: bool
  seen_xx :: bool
  seen_gt :: bool
  seen_lt :: bool
  seen_ch :: bool
  seen_incr :: bool

function zadd_flags_loop :: "bytes list \<Rightarrow> usize \<Rightarrow> zadd_flags \<Rightarrow> (bytes + usize \<times> bool) rs" where
  "zadd_flags_loop args index fl =
     (if index < length args then
        (case idx args index of
           None \<Rightarrow> None
         | Some arg \<Rightarrow>
             (case map_option to_ascii_uppercase (text_command arg) of
                None \<Rightarrow> Some (Inr (index, seen_incr fl))
              | Some opt \<Rightarrow>
                  if opt = bstr ''NX'' then
                    if seen_nx fl \<or> seen_xx fl then Some (Inl (resp_line ''-ERR syntax error''))
                    else zadd_flags_loop args (index + 1) (fl\<lparr>seen_nx := True\<rparr>)
                  else if opt = bstr ''XX'' then
                    if seen_nx fl \<or> seen_xx fl then Some (Inl (resp_line ''-ERR syntax error''))
                    else zadd_flags_loop args (index + 1) (fl\<lparr>seen_xx := True\<rparr>)
                  else if opt = bstr ''GT'' then
                    if seen_gt fl \<or> seen_lt fl then Some (Inl (resp_line ''-ERR syntax error''))
                    else zadd_flags_loop args (index + 1) (fl\<lparr>seen_gt := True\<rparr>)
                  else if opt = bstr ''LT'' then
                    if seen_gt fl \<or> seen_lt fl then Some (Inl (resp_line ''-ERR syntax error''))
                    else zadd_flags_loop args (index + 1) (fl\<lparr>seen_lt := True\<rparr>)
                  else if opt = bstr ''CH'' then
                    if seen_ch fl then Some (Inl (resp_line ''-ERR syntax error''))
                    else zadd_flags_loop args (index + 1) (fl\<lparr>seen_ch := True\<rparr>)
                  else if opt = bstr ''INCR'' then
                    if seen_incr fl then Some (Inl (resp_line ''-ERR syntax error''))
                    else zadd_flags_loop args (index + 1) (fl\<lparr>seen_incr := True\<rparr>)
                  else Some (Inr (index, seen_incr fl))))
      else Some (Inr (index, seen_incr fl)))"
  by pat_completeness auto
termination
  by (relation "measure (\<lambda>(args, index, _). length args - index)") auto

declare zadd_flags_loop.simps [simp del]

definition is_zadd_flag :: "bytes \<Rightarrow> bool" where
  "is_zadd_flag v =
     (case text_command v of
        None \<Rightarrow> False
      | Some t \<Rightarrow> one_of (to_ascii_uppercase t) [''NX'', ''XX'', ''GT'', ''LT'', ''CH'', ''INCR''])"

text \<open>The first elements of \<open>chunks_exact(2)\<close>.\<close>

fun pair_heads :: "'a list \<Rightarrow> 'a list" where
  "pair_heads (a # b # r) = a # pair_heads r"
| "pair_heads _ = []"

definition sorted_set_add_response :: "bytes list \<Rightarrow> bytes rs" where
  "sorted_set_add_response args =
     (if length args < 3 then Some (wrong_number_of_arguments ''zadd'')
      else do {
        r \<leftarrow> zadd_flags_loop args 1 \<lparr>seen_nx = False, seen_xx = False, seen_gt = False,
               seen_lt = False, seen_ch = False, seen_incr = False\<rparr>;
        case r of
          Inl reply \<Rightarrow> Some reply
        | Inr (index, incr) \<Rightarrow>
            let remaining = length args - index in
            if incr then
              if remaining \<noteq> 2 then Some (wrong_number_of_arguments ''zadd'')
              else do {
                score \<leftarrow> idx args index;
                if parse_float_decimal_bytes score = None then Some float_error
                else Some (bstr ''$'' @ show_dec (length score) @ CRLF @ score @ CRLF) }
            else if remaining < 2 \<or> remaining mod 2 \<noteq> 0 then
              if args \<noteq> [] \<and> is_zadd_flag (last args) then Some (resp_line ''-ERR syntax error'')
              else Some (wrong_number_of_arguments ''zadd'')
            else do {
              rest \<leftarrow> slice_from args index;
              if list_ex is_zadd_flag (drop 1 (pair_heads rest)) then Some (resp_line ''-ERR syntax error'')
              else if list_ex (\<lambda>score. parse_float_decimal_bytes score = None) (pair_heads rest)
              then Some float_error
              else Some (bstr '':'' @ show_dec (remaining div 2) @ CRLF) } })"

text \<open>The option loop of the arm \<open>"zrange"\<close> in \<open>sorted_set_range_response\<close>.\<close>

record zrange_flags =
  by_score :: bool
  by_lex :: bool
  rev_order :: bool
  with_limit :: bool
  with_scores :: bool
  phase :: nat

function zrange_options_loop :: "bytes list \<Rightarrow> usize \<Rightarrow> zrange_flags \<Rightarrow> bytes rs" where
  "zrange_options_loop args index fl =
     (if index < length args then
        (case idx args index of
           None \<Rightarrow> None
         | Some arg \<Rightarrow>
             (case map_option to_ascii_uppercase (text_command arg) of
                None \<Rightarrow> Some protocol_error
              | Some opt \<Rightarrow>
                  if opt = bstr ''BYSCORE'' then
                    if phase fl \<noteq> 0 \<or> by_score fl \<or> by_lex fl then Some syntax_error
                    else zrange_options_loop args (index + 1) (fl\<lparr>by_score := True, phase := 1\<rparr>)
                  else if opt = bstr ''BYLEX'' then
                    if phase fl \<noteq> 0 \<or> by_score fl \<or> by_lex fl then Some syntax_error
                    else zrange_options_loop args (index + 1) (fl\<lparr>by_lex := True, phase := 1\<rparr>)
                  else if opt = bstr ''REV'' then
                    if phase fl > 1 \<or> rev_order fl then Some syntax_error
                    else zrange_options_loop args (index + 1) (fl\<lparr>rev_order := True, phase := 2\<rparr>)
                  else if opt = bstr ''LIMIT'' then
                    if phase fl > 2 \<or> with_limit fl then Some syntax_error
                    else if index + 2 \<ge> length args then Some syntax_error
                    else
                      (case (idx args (index + 1), idx args (index + 2)) of
                         (Some a, Some b) \<Rightarrow>
                           if unsigned_u64 a = None \<or> parse_signed_decimal_bytes b = None
                           then Some integer_error
                           else zrange_options_loop args (index + 3) (fl\<lparr>with_limit := True, phase := 3\<rparr>)
                       | _ \<Rightarrow> None)
                  else if opt = bstr ''WITHSCORES'' then
                    if phase fl > 3 \<or> with_scores fl then Some syntax_error
                    else zrange_options_loop args (index + 1) (fl\<lparr>with_scores := True, phase := 4\<rparr>)
                  else Some syntax_error))
      else Some (resp_line ''*0''))"
  by pat_completeness auto
termination
  by (relation "measure (\<lambda>(args, index, _). length args - index)") auto

declare zrange_options_loop.simps [simp del]

definition sorted_set_range_response :: "bytes list \<Rightarrow> string \<Rightarrow> bytes rs" where
  "sorted_set_range_response args command =
     (if command = ''zrange'' then
        if length args < 3 then Some (wrong_number_of_arguments command)
        else zrange_options_loop args 3 \<lparr>by_score = False, by_lex = False, rev_order = False,
               with_limit = False, with_scores = False, phase = 0\<rparr>
      else if command = ''zrevrange'' then
        if \<not> (length args = 3 \<or> length args = 4) then Some (wrong_number_of_arguments command)
        else if length args = 4 then do {
          opt \<leftarrow> idx args 3;
          if \<not> eq_ignore_ascii_case opt (bstr ''withscores'') then Some (resp_line ''-ERR syntax error'')
          else Some (resp_line ''*0'') }
        else Some (resp_line ''*0'')
      else Some syntax_error)"

definition sorted_set_remove_response :: "bytes list \<Rightarrow> bytes" where
  "sorted_set_remove_response args =
     (if length args < 2 then wrong_number_of_arguments ''zrem'' else resp_line '':0'')"

definition sorted_set_score_response :: "bytes list \<Rightarrow> bytes" where
  "sorted_set_score_response args =
     (if length args \<noteq> 2 then wrong_number_of_arguments ''zscore'' else resp_line ''$-1'')"

definition sorted_set_rank_response :: "bytes list \<Rightarrow> string \<Rightarrow> bytes rs" where
  "sorted_set_rank_response args command =
     (if \<not> (length args = 2 \<or> length args = 3) then Some (wrong_number_of_arguments command)
      else if length args = 3 then do {
        opt \<leftarrow> idx args 2;
        if \<not> eq_ignore_ascii_case opt (bstr ''withscore'') then Some (resp_line ''-ERR syntax error'')
        else Some (resp_line ''$-1'') }
      else Some (resp_line ''$-1''))"

definition sorted_set_mscore_response :: "bytes list \<Rightarrow> bytes rs" where
  "sorted_set_mscore_response args =
     (if length args < 2 then Some (wrong_number_of_arguments ''zmscore'')
      else do { members \<leftarrow> slice_from args 1; Some (repeated_reply members (resp_line ''$-1'')) })"

definition sorted_set_random_member_response :: "bytes list \<Rightarrow> bytes rs" where
  "sorted_set_random_member_response args =
     (if length args = 1 then Some (resp_line ''$-1'')
      else if length args = 2 then do {
        count_arg \<leftarrow> idx args 1;
        if eq_ignore_ascii_case count_arg (bstr ''withscores'') then Some (resp_line ''-ERR syntax error'')
        else if parse_signed_decimal_bytes count_arg = None then Some integer_error
        else Some (resp_line ''*0'') }
      else if length args = 3 then do {
        opt \<leftarrow> idx args 2;
        if \<not> eq_ignore_ascii_case opt (bstr ''withscores'') then Some (resp_line ''-ERR syntax error'')
        else do {
          count_arg \<leftarrow> idx args 1;
          if parse_signed_decimal_bytes count_arg = None then Some integer_error
          else Some (resp_line ''*0'') } }
      else Some (wrong_number_of_arguments ''zrandmember''))"

text \<open>The option loop of \<open>sorted_set_range_store_response\<close>; \<open>phase\<close> and \<open>with_scores\<close> are not used.\<close>

function range_store_options_loop :: "bytes list \<Rightarrow> usize \<Rightarrow> zrange_flags \<Rightarrow> bytes rs" where
  "range_store_options_loop args index fl =
     (if index < length args then
        (case idx args index of
           None \<Rightarrow> None
         | Some arg \<Rightarrow>
             (case map_option to_ascii_uppercase (text_command arg) of
                None \<Rightarrow> Some protocol_error
              | Some opt \<Rightarrow>
                  if opt = bstr ''BYSCORE'' then
                    if by_score fl \<or> by_lex fl then Some syntax_error
                    else range_store_options_loop args (index + 1) (fl\<lparr>by_score := True\<rparr>)
                  else if opt = bstr ''BYLEX'' then
                    if by_score fl \<or> by_lex fl then Some syntax_error
                    else range_store_options_loop args (index + 1) (fl\<lparr>by_lex := True\<rparr>)
                  else if opt = bstr ''REV'' then
                    if rev_order fl then Some syntax_error
                    else range_store_options_loop args (index + 1) (fl\<lparr>rev_order := True\<rparr>)
                  else if opt = bstr ''LIMIT'' then
                    if with_limit fl then Some syntax_error
                    else if index + 2 \<ge> length args then Some syntax_error
                    else
                      (case (idx args (index + 1), idx args (index + 2)) of
                         (Some a, Some b) \<Rightarrow>
                           if unsigned_u64 a = None \<or> parse_signed_decimal_bytes b = None
                           then Some integer_error
                           else range_store_options_loop args (index + 3) (fl\<lparr>with_limit := True\<rparr>)
                       | _ \<Rightarrow> None)
                  else Some syntax_error))
      else if with_limit fl \<and> \<not> (by_score fl \<or> by_lex fl) then Some syntax_error
      else Some (resp_line '':0''))"
  by pat_completeness auto
termination
  by (relation "measure (\<lambda>(args, index, _). length args - index)") auto

declare range_store_options_loop.simps [simp del]

definition sorted_set_range_store_response :: "bytes list \<Rightarrow> bytes rs" where
  "sorted_set_range_store_response args =
     (if length args < 4 then Some (wrong_number_of_arguments ''zrangestore'')
      else range_store_options_loop args 4 \<lparr>by_score = False, by_lex = False, rev_order = False,
             with_limit = False, with_scores = False, phase = 0\<rparr>)"

end
