(* ===== verification/Redis.thy ===== *)
theory Redis
  imports Redis_Replies
begin

text \<open>
  The Redis handler, \<open>nettrap-proto-redis/src/handler.rs\<close>, \<open>handler/client.rs\<close> and
  \<open>handler/state.rs\<close>: the state of a connection, the commands that change it (\<open>AUTH\<close>, \<open>HELLO\<close>, \<open>RESET\<close>,
  \<open>QUIT\<close>, \<open>CLIENT\<close>), the table of commands and the processing of a batch. The mutexes around the fields
  of the handler are not modelled; a batch is processed by one thread.
\<close>

section \<open>State\<close>

datatype client_reply_mode = Reply_On | Reply_Off | Reply_Skip

datatype redis_state = Redis_Connected | Redis_Authenticated | Redis_Disconnected

record redis_handler =
  rh_version :: bytes
  require_auth :: bool
  client_name :: "bytes option"
  client_lib_name :: "bytes option"
  client_lib_ver :: "bytes option"
  reply_mode :: client_reply_mode
  client_no_evict :: bool
  client_no_touch :: bool
  tracking_enabled :: bool
  tracking_bcast :: bool
  tracking_optin :: bool
  tracking_optout :: bool
  tracking_noloop :: bool
  tracking_redirect :: int
  tracking_prefixes :: "bytes list"
  tracking_caching :: "bool option"
  tracking_broken_redir :: bool
  resp_version :: u8
  rh_state :: redis_state

text \<open>What the clocks say when the \<open>k\<close>-th command of a batch asks: the seconds since the handler was
  created, and \<open>timestamp\<close> and \<open>timestamp_subsec_micros\<close> of the time (crate \<open>chrono\<close>).\<close>

record redis_clock =
  rc_uptime :: "nat \<Rightarrow> nat"
  rc_seconds :: "nat \<Rightarrow> int"
  rc_micros :: "nat \<Rightarrow> u32"

definition MAX_CLIENT_TRACKING_PREFIXES :: usize where "MAX_CLIENT_TRACKING_PREFIXES = 128"
definition MAX_CLIENT_TRACKING_PREFIX_BYTES :: usize where "MAX_CLIENT_TRACKING_PREFIX_BYTES = 1024"

definition redis_handler_new :: redis_handler where
  "redis_handler_new =
     \<lparr>rh_version = bstr ''7.0.15'', require_auth = False, client_name = None, client_lib_name = None,
      client_lib_ver = None, reply_mode = Reply_On, client_no_evict = False, client_no_touch = False,
      tracking_enabled = False, tracking_bcast = False, tracking_optin = False, tracking_optout = False,
      tracking_noloop = False, tracking_redirect = -1, tracking_prefixes = [], tracking_caching = None,
      tracking_broken_redir = False, resp_version = 2, rh_state = Redis_Connected\<rparr>"

definition with_auth :: "redis_handler \<Rightarrow> bool \<Rightarrow> redis_handler" where
  "with_auth h require = h\<lparr>require_auth := require\<rparr>"

definition client_flags :: "redis_handler \<Rightarrow> bytes" where
  "client_flags h =
     (let flags = (if client_no_evict h then bstr ''e'' else [])
                  @ (if tracking_enabled h then bstr ''t'' else [])
                  @ (if client_no_touch h then bstr ''T'' else [])
                  @ (if tracking_broken_redir h then bstr ''R'' else [])
                  @ (if tracking_bcast h then bstr ''B'' else [])
      in if flags = [] then bstr ''N'' else flags)"

section \<open>Authentication\<close>

definition is_effectively_blank_redis_value_bytes :: "bytes \<Rightarrow> bool" where
  "is_effectively_blank_redis_value_bytes v =
     (case from_utf8 v of
        Some t \<Rightarrow> str_trim t = [] \<or> list_all (\<lambda>ch. char_is_control ch \<or> char_is_whitespace ch) (chars t)
      | None \<Rightarrow> list_all (\<lambda>b. b \<in> {0x20, 0x09, 0x0D, 0x0A}) v)"

definition auth_args_are_valid_bytes :: "bytes list \<Rightarrow> bool" where
  "auth_args_are_valid_bytes args \<longleftrightarrow>
     (length args = 1 \<or> length args = 2)
     \<and> list_all (\<lambda>arg. \<not> is_effectively_blank_redis_value_bytes arg) args"

definition handle_auth_command :: "bytes list \<Rightarrow> bool \<Rightarrow> bytes \<times> bool" where
  "handle_auth_command args authenticated =
     (if \<not> auth_args_are_valid_bytes args
      then (resp_line ''-ERR wrong number of arguments for 'auth' command'', authenticated)
      else if length args = 2 then (resp_line ''+OK'', True)
      else (resp_line ''+OK'', True))"

definition handle_reset_command :: "redis_handler \<Rightarrow> bool \<Rightarrow> bytes list \<Rightarrow> bytes \<times> redis_handler \<times> bool" where
  "handle_reset_command h authenticated args =
     (if args \<noteq> [] then (wrong_number_of_arguments ''reset'', h, authenticated)
      else
        (resp_line ''+RESET'',
         h\<lparr>client_name := None, client_lib_name := None, client_lib_ver := None, reply_mode := Reply_On,
           client_no_evict := False, client_no_touch := False, tracking_enabled := False,
           tracking_bcast := False, tracking_optin := False, tracking_optout := False,
           tracking_noloop := False, tracking_redirect := -1, tracking_prefixes := [],
           tracking_caching := None, tracking_broken_redir := False, resp_version := 2\<rparr>,
         \<not> require_auth h))"

definition hello_has_auth :: "bytes list \<Rightarrow> bool" where
  "hello_has_auth args \<longleftrightarrow>
     list_ex (\<lambda>arg. case text_command arg of
                      None \<Rightarrow> False | Some v \<Rightarrow> eq_ignore_ascii_case v (bstr ''AUTH'')) (drop 1 args)"

definition parse_redis_client_name :: "bytes \<Rightarrow> unit + bytes option" where
  "parse_redis_client_name v =
     (if v = [] then Inr None
      else (case from_utf8 v of
              None \<Rightarrow> Inl ()
            | Some t \<Rightarrow>
                if list_ex (\<lambda>ch. char_is_whitespace ch \<or> char_is_control ch) (chars t) then Inl ()
                else Inr (Some t)))"

definition parse_redis_client_info_value :: "bytes \<Rightarrow> unit + bytes option" where
  "parse_redis_client_info_value v =
     (if v = [] then Inr (Some [])
      else (case from_utf8 v of
              None \<Rightarrow> Inl ()
            | Some t \<Rightarrow>
                if list_ex (\<lambda>ch. char_is_whitespace ch \<or> char_is_control ch) (chars t) then Inl ()
                else Inr (Some t)))"

section \<open>HELLO\<close>

definition hello_payload :: "bytes \<Rightarrow> u8 \<Rightarrow> bytes" where
  "hello_payload version resp =
     (if resp = 3 then
        resp_line ''%7''
        @ resp_line ''$6'' @ resp_line ''server'' @ resp_line ''$5'' @ resp_line ''redis''
        @ resp_line ''$7'' @ resp_line ''version'' @ bstr ''$''
        @ show_dec (length version) @ CRLF @ version @ CRLF
        @ resp_line ''$5'' @ resp_line ''proto'' @ resp_line '':3''
        @ resp_line ''$2'' @ resp_line ''id'' @ resp_line '':1''
        @ resp_line ''$4'' @ resp_line ''mode'' @ resp_line ''$10'' @ resp_line ''standalone''
        @ resp_line ''$4'' @ resp_line ''role'' @ resp_line ''$6'' @ resp_line ''master''
        @ resp_line ''$7'' @ resp_line ''modules'' @ resp_line ''*0''
      else
        resp_line ''*14''
        @ resp_line ''$6'' @ resp_line ''server'' @ resp_line ''$5'' @ resp_line ''redis''
        @ resp_line ''$7'' @ resp_line ''version'' @ bstr ''$''
        @ show_dec (length version) @ CRLF @ version @ CRLF
        @ resp_line ''$5'' @ resp_line ''proto'' @ resp_line '':2''
        @ resp_line ''$2'' @ resp_line ''id'' @ resp_line '':1''
        @ resp_line ''$4'' @ resp_line ''mode'' @ resp_line ''$10'' @ resp_line ''standalone''
        @ resp_line ''$4'' @ resp_line ''role'' @ resp_line ''$6'' @ resp_line ''master''
        @ resp_line ''$7'' @ resp_line ''modules'' @ resp_line ''*0'')"

text \<open>The option loop of \<open>hello_response\<close>: an answer returned from inside the loop, or \<open>saw_auth\<close>,
  \<open>pending_client_name\<close> and \<open>pending_authenticated\<close>.\<close>

function hello_options_loop ::
    "bytes list \<Rightarrow> usize \<Rightarrow> bool \<Rightarrow> bool \<Rightarrow> bytes option option \<Rightarrow> bool \<Rightarrow>
     (bytes + bool \<times> bytes option option \<times> bool) rs" where
  "hello_options_loop args index saw_auth saw_setname pending_client_name pending_authenticated =
     (if index < length args then
        (case idx args index of
           None \<Rightarrow> None
         | Some arg \<Rightarrow>
             (case text_command arg of
                None \<Rightarrow> Some (Inl protocol_error)
              | Some opt0 \<Rightarrow>
                  let opt = to_ascii_uppercase opt0 in
                  if opt = bstr ''AUTH'' then
                    if saw_auth then Some (Inl syntax_error)
                    else
                      (case idx args (index + 1) of
                         None \<Rightarrow> Some (Inl (wrong_number_of_arguments ''hello''))
                       | Some username \<Rightarrow>
                           (case idx args (index + 2) of
                              None \<Rightarrow> Some (Inl (wrong_number_of_arguments ''hello''))
                            | Some password \<Rightarrow>
                                (case handle_auth_command [username, password] pending_authenticated of
                                   (auth_reply, pending_authenticated') \<Rightarrow>
                                     if auth_reply \<noteq> resp_line ''+OK'' then Some (Inl auth_reply)
                                     else hello_options_loop args (index + 3) True saw_setname
                                            pending_client_name pending_authenticated')))
                  else if opt = bstr ''SETNAME'' then
                    if saw_setname then Some (Inl syntax_error)
                    else
                      (case idx args (index + 1) of
                         None \<Rightarrow> Some (Inl (wrong_number_of_arguments ''hello''))
                       | Some name \<Rightarrow>
                           (case parse_redis_client_name name of
                              Inr nm \<Rightarrow>
                                hello_options_loop args (index + 2) saw_auth True (Some nm)
                                  pending_authenticated
                            | Inl _ \<Rightarrow> Some (Inl (resp_line ''-ERR invalid client name''))))
                  else Some (Inl syntax_error)))
      else Some (Inr (saw_auth, pending_client_name, pending_authenticated)))"
  by pat_completeness auto
termination
  by (relation "measure (\<lambda>(args, index, _). length args - index)") auto

declare hello_options_loop.simps [simp del]

text \<open>The version named by the first argument of \<open>HELLO\<close>, or the answer that refuses it.\<close>

definition hello_version :: "bytes list \<Rightarrow> bytes \<Rightarrow> bytes + u8" where
  "hello_version args protover =
     (if protover = bstr ''2'' then Inr 2
      else if protover = bstr ''3'' then Inr 3
      else if length args > 1 \<and> \<not> list_all (\<lambda>c. 48 \<le> c \<and> c \<le> 57) (chars protover)
      then Inl (wrong_number_of_arguments ''hello'')
      else Inl (resp_line ''-NOPROTO unsupported protocol version''))"

definition hello_response :: "redis_handler \<Rightarrow> bytes list \<Rightarrow> bool \<Rightarrow> (bytes \<times> redis_handler \<times> bool) rs" where
  "hello_response h args authenticated =
     (case args of
        [] \<Rightarrow> Some (hello_payload (rh_version h) (if resp_version h \<ge> 3 then 3 else 2), h, authenticated)
      | first_arg # _ \<Rightarrow>
          let_else (text_command first_arg) (protocol_error, h, authenticated) (\<lambda>protover.
          case hello_version args protover of
            Inl reply \<Rightarrow> Some (reply, h, authenticated)
          | Inr version \<Rightarrow> do {
              r \<leftarrow> hello_options_loop args 1 False False None authenticated;
              case r of
                Inl reply \<Rightarrow> Some (reply, h, authenticated)
              | Inr (saw_auth, pending_client_name, pending_authenticated) \<Rightarrow>
                  let h1 = (case pending_client_name of
                              None \<Rightarrow> h | Some nm \<Rightarrow> h\<lparr>client_name := nm\<rparr>);
                      h2 = h1\<lparr>resp_version := version\<rparr>
                  in Some (hello_payload (rh_version h) version, h2,
                       if saw_auth then pending_authenticated else authenticated) }))"

section \<open>CLIENT TRACKING\<close>

definition prefixes_overlap :: "bytes \<Rightarrow> bytes \<Rightarrow> bool" where
  "prefixes_overlap l r \<longleftrightarrow> starts_with l r \<or> starts_with r l"

definition prefixes_have_overlap :: "bytes list \<Rightarrow> bool" where
  "prefixes_have_overlap ps \<longleftrightarrow>
     list_ex (\<lambda>i. list_ex (\<lambda>j. prefixes_overlap (ps ! i) (ps ! j)) [i + 1..<length ps]) [0..<length ps]"

text \<open>The local variables of the arm \<open>"ON"\<close> of \<open>client_tracking_response\<close>.\<close>

record tracking_options =
  to_bcast :: bool
  to_optin :: bool
  to_optout :: bool
  to_noloop :: bool
  to_redirect :: int
  to_prefixes :: "bytes list"

function tracking_options_loop :: "bytes list \<Rightarrow> usize \<Rightarrow> tracking_options \<Rightarrow> (bytes + tracking_options) rs" where
  "tracking_options_loop options index o1 =
     (if index < length options then
        (case idx options index of
           None \<Rightarrow> None
         | Some arg \<Rightarrow>
             (case map_option to_ascii_uppercase (text_command arg) of
                None \<Rightarrow> Some (Inl protocol_error)
              | Some opt \<Rightarrow>
                  if opt = bstr ''REDIRECT'' then
                    (case idx options (index + 1) of
                       None \<Rightarrow> Some (Inl (wrong_number_of_arguments ''client|tracking''))
                     | Some v0 \<Rightarrow>
                         (case text_command v0 of
                            None \<Rightarrow> Some (Inl protocol_error)
                          | Some v \<Rightarrow>
                              (case parse_unsigned_decimal_bytes (2 ^ 63 - 1) v of
                                 None \<Rightarrow> Some (Inl (resp_line ''-ERR invalid redirect id''))
                               | Some parsed \<Rightarrow>
                                   if parsed \<le> 0 \<or> parsed > 1
                                   then Some (Inl (resp_line ''-ERR invalid redirect id''))
                                   else tracking_options_loop options (index + 2)
                                          (o1\<lparr>to_redirect := if parsed = 1 then 0 else int parsed\<rparr>))))
                  else if opt = bstr ''PREFIX'' then
                    (case idx options (index + 1) of
                       None \<Rightarrow> Some (Inl (wrong_number_of_arguments ''client|tracking''))
                     | Some v0 \<Rightarrow>
                         (case text_command v0 of
                            None \<Rightarrow> Some (Inl protocol_error)
                          | Some v \<Rightarrow>
                              if length v > MAX_CLIENT_TRACKING_PREFIX_BYTES
                              then Some (Inl (resp_line ''-ERR client tracking prefix too large''))
                              else if length (to_prefixes o1) \<ge> MAX_CLIENT_TRACKING_PREFIXES
                              then Some (Inl (resp_line ''-ERR too many client tracking prefixes''))
                              else tracking_options_loop options (index + 2)
                                     (o1\<lparr>to_prefixes := to_prefixes o1 @ [v]\<rparr>)))
                  else if opt = bstr ''BCAST'' then
                    tracking_options_loop options (index + 1) (o1\<lparr>to_bcast := True\<rparr>)
                  else if opt = bstr ''OPTIN'' then
                    tracking_options_loop options (index + 1) (o1\<lparr>to_optin := True, to_optout := False\<rparr>)
                  else if opt = bstr ''OPTOUT'' then
                    tracking_options_loop options (index + 1) (o1\<lparr>to_optout := True, to_optin := False\<rparr>)
                  else if opt = bstr ''NOLOOP'' then
                    tracking_options_loop options (index + 1) (o1\<lparr>to_noloop := True\<rparr>)
                  else Some (Inl syntax_error)))
      else Some (Inr o1))"
  by pat_completeness auto
termination
  by (relation "measure (\<lambda>(options, index, _). length options - index)") auto

declare tracking_options_loop.simps [simp del]

abbreviation overlap_error :: bytes where
  "overlap_error \<equiv> resp_line ''-ERR Prefixes for a single client must not overlap.''"

text \<open>The loop \<open>for prefix in prefixes\<close> over the merged prefixes.\<close>

fun merge_prefixes :: "bytes list \<Rightarrow> bytes list \<Rightarrow> bytes + bytes list" where
  "merge_prefixes merged [] = Inr merged"
| "merge_prefixes merged (prefix # rest) =
     (if list_ex (\<lambda>existing. prefixes_overlap existing prefix) merged then Inl overlap_error
      else if length merged \<ge> MAX_CLIENT_TRACKING_PREFIXES
      then Inl (resp_line ''-ERR too many client tracking prefixes'')
      else merge_prefixes (merged @ [prefix]) rest)"

text \<open>The block \<open>if bcast\<close>: the new prefixes of the handler, or the answer that refuses them.\<close>

definition bcast_prefixes :: "bytes list \<Rightarrow> bytes list \<Rightarrow> bytes + bytes list" where
  "bcast_prefixes existing_prefixes prefixes =
     (if prefixes_have_overlap prefixes then Inl overlap_error
      else
        (case merge_prefixes existing_prefixes prefixes of
           Inl reply \<Rightarrow> Inl reply
         | Inr merged0 \<Rightarrow>
             let merged = (if merged0 = [] then merged0 @ [[]] else merged0) in
             if prefixes = [] \<and> \<not> list_ex (\<lambda>prefix. prefix = []) merged then Inl overlap_error
             else Inr merged))"

definition client_tracking_response :: "redis_handler \<Rightarrow> bytes list \<Rightarrow> (bytes \<times> redis_handler) rs" where
  "client_tracking_response h rest =
     (case rest of
        [] \<Rightarrow> Some (wrong_number_of_arguments ''client|tracking'', h)
      | mode_arg # options \<Rightarrow>
          let_else (text_command mode_arg) (protocol_error, h) (\<lambda>mode.
          if to_ascii_uppercase mode = bstr ''ON'' then do {
            r \<leftarrow> tracking_options_loop options 0 \<lparr>to_bcast = False, to_optin = False, to_optout = False,
                   to_noloop = False, to_redirect = 0, to_prefixes = []\<rparr>;
            case r of
              Inl reply \<Rightarrow> Some (reply, h)
            | Inr o1 \<Rightarrow>
                (case (if to_bcast o1 then bcast_prefixes (tracking_prefixes h) (to_prefixes o1)
                       else Inr (tracking_prefixes h)) of
                   Inl reply \<Rightarrow> Some (reply, h)
                 | Inr prefixes \<Rightarrow>
                     Some (resp_line ''+OK'',
                       h\<lparr>tracking_prefixes := prefixes, tracking_enabled := True,
                         tracking_bcast := to_bcast o1, tracking_optin := to_optin o1,
                         tracking_optout := to_optout o1, tracking_noloop := to_noloop o1,
                         tracking_redirect := to_redirect o1, tracking_caching := None,
                         tracking_broken_redir := False\<rparr>)) }
          else if to_ascii_uppercase mode = bstr ''OFF'' then
            if options = [] then
              Some (resp_line ''+OK'',
                h\<lparr>tracking_enabled := False, tracking_bcast := False, tracking_optin := False,
                  tracking_optout := False, tracking_noloop := False, tracking_redirect := -1,
                  tracking_prefixes := [], tracking_caching := None, tracking_broken_redir := False\<rparr>)
            else Some (wrong_number_of_arguments ''client|tracking'', h)
          else Some (resp_line ''-ERR syntax error'', h)))"

definition client_tracking_info_payload :: "redis_handler \<Rightarrow> bytes" where
  "client_tracking_info_payload h =
     (let flags = [if tracking_enabled h then bstr ''on'' else bstr ''off'']
            @ (if tracking_bcast h then [bstr ''bcast''] else [])
            @ (if tracking_optin h then [bstr ''optin''] else [])
            @ (if tracking_optout h then [bstr ''optout''] else [])
            @ (case tracking_caching h of
                 None \<Rightarrow> []
               | Some caching \<Rightarrow>
                   if tracking_optin h \<and> caching then [bstr ''caching-yes'']
                   else if tracking_optout h \<and> \<not> caching then [bstr ''caching-no''] else [])
            @ (if tracking_noloop h then [bstr ''noloop''] else [])
            @ (if tracking_broken_redir h then [bstr ''broken_redirect''] else []);
          prefixes = tracking_prefixes h
      in (if resp_version h \<ge> 3 then resp_line ''%3'' else resp_line ''*6'')
         @ resp_bulk_string (bstr ''flags'') @ resp_bulk_array flags
         @ resp_bulk_string (bstr ''redirect'') @ bstr '':'' @ show_int (tracking_redirect h) @ CRLF
         @ resp_bulk_string (bstr ''prefixes'') @ resp_bulk_array prefixes)"

section \<open>CLIENT\<close>

definition redis_client_payload ::
    "string \<Rightarrow> bytes option \<Rightarrow> bytes option \<Rightarrow> bytes option \<Rightarrow> bytes \<Rightarrow> int \<Rightarrow> u8 \<Rightarrow> bytes" where
  "redis_client_payload command name lib_name lib_ver flags redir resp =
     bstr ''id=1 addr=127.0.0.1:0 laddr=127.0.0.1:0 fd=1 name=''
     @ (case name of None \<Rightarrow> [] | Some v \<Rightarrow> v)
     @ bstr '' age=0 idle=0 flags='' @ flags
     @ bstr '' db=0 sub=0 psub=0 ssub=0 multi=-1 watch=0 qbuf=0 qbuf-free=0 argv-mem=0 multi-mem=0 rbs=0 rbp=0 obl=0 oll=0 omem=0 tot-mem=0 events=r cmd=''
     @ bstr command @ bstr '' user=default redir='' @ show_int redir
     @ bstr '' resp='' @ show_dec (unat resp)
     @ bstr '' lib-name='' @ (case lib_name of None \<Rightarrow> [] | Some v \<Rightarrow> v)
     @ bstr '' lib-ver='' @ (case lib_ver of None \<Rightarrow> [] | Some v \<Rightarrow> v)
     @ bstr '' io-thread=0 tot-net-in=0 tot-net-out=0 tot-cmds=0''"

definition client_payload_of :: "string \<Rightarrow> redis_handler \<Rightarrow> bytes" where
  "client_payload_of command h =
     (let info = redis_client_payload command (client_name h) (client_lib_name h) (client_lib_ver h)
            (client_flags h) (tracking_redirect h) (resp_version h)
      in bstr ''$'' @ show_dec (length info) @ CRLF @ info @ CRLF)"

definition client_help :: bytes where
  "client_help =
     resp_line ''*14'' @ resp_line ''$7'' @ resp_line ''GETNAME'' @ resp_line ''$2'' @ resp_line ''ID''
     @ resp_line ''$4'' @ resp_line ''INFO'' @ resp_line ''$4'' @ resp_line ''LIST''
     @ resp_line ''$7'' @ resp_line ''SETINFO'' @ resp_line ''$7'' @ resp_line ''SETNAME''
     @ resp_line ''$8'' @ resp_line ''GETREDIR'' @ resp_line ''$7'' @ resp_line ''CACHING''
     @ resp_line ''$6'' @ resp_line ''REPLY'' @ resp_line ''$8'' @ resp_line ''NO-TOUCH''
     @ resp_line ''$8'' @ resp_line ''NO-EVICT'' @ resp_line ''$8'' @ resp_line ''TRACKING''
     @ resp_line ''$12'' @ resp_line ''TRACKINGINFO'' @ resp_line ''$4'' @ resp_line ''HELP''"

definition client_caching_response :: "redis_handler \<Rightarrow> bytes \<Rightarrow> bytes \<times> redis_handler" where
  "client_caching_response h mode =
     (let yes = eq_ignore_ascii_case mode (bstr ''YES''); no = eq_ignore_ascii_case mode (bstr ''NO'') in
      if yes \<or> no then
        if \<not> tracking_enabled h \<or> \<not> (tracking_optin h \<or> tracking_optout h)
        then (resp_line ''-ERR CLIENT CACHING can only be called when tracking is enabled in OPTIN or OPTOUT mode'', h)
        else if yes \<and> \<not> tracking_optin h
        then (resp_line ''-ERR CLIENT CACHING YES can only be called when tracking is enabled in OPTIN mode'', h)
        else if no \<and> \<not> tracking_optout h
        then (resp_line ''-ERR CLIENT CACHING NO can only be called when tracking is enabled in OPTOUT mode'', h)
        else (resp_line ''+OK'', h\<lparr>tracking_caching := Some yes\<rparr>)
      else (resp_line ''-ERR argument must be yes or no'', h))"

text \<open>The arms \<open>"ON"\<close> and \<open>"OFF"\<close> of the two subcommands that set a flag.\<close>

definition client_flag_response ::
    "redis_handler \<Rightarrow> bytes list \<Rightarrow> string \<Rightarrow> string \<Rightarrow> (bool \<Rightarrow> redis_handler) \<Rightarrow> bytes \<times> redis_handler" where
  "client_flag_response h rest command bad_mode set_flag =
     (case rest of
        [mode_arg] \<Rightarrow>
          (case text_command mode_arg of
             None \<Rightarrow> (protocol_error, h)
           | Some mode0 \<Rightarrow>
               let mode = to_ascii_uppercase mode0 in
               if mode = bstr ''ON'' then (resp_line ''+OK'', set_flag True)
               else if mode = bstr ''OFF'' then (resp_line ''+OK'', set_flag False)
               else (resp_line bad_mode, h))
      | _ \<Rightarrow> (wrong_number_of_arguments command, h))"

definition client_setname_response :: "redis_handler \<Rightarrow> bytes list \<Rightarrow> bytes \<times> redis_handler" where
  "client_setname_response h rest =
     (case rest of
        [name] \<Rightarrow>
          (case parse_redis_client_name name of
             Inr nm \<Rightarrow> (resp_line ''+OK'', h\<lparr>client_name := nm\<rparr>)
           | Inl _ \<Rightarrow> (resp_line ''-ERR invalid client name'', h))
      | _ \<Rightarrow> (wrong_number_of_arguments ''client|setname'', h))"

definition client_setinfo_response :: "redis_handler \<Rightarrow> bytes list \<Rightarrow> bytes \<times> redis_handler" where
  "client_setinfo_response h rest =
     (case rest of
        [attr_arg, v0] \<Rightarrow>
          (case text_command attr_arg of
             None \<Rightarrow> (protocol_error, h)
           | Some attr0 \<Rightarrow>
               (case parse_redis_client_info_value v0 of
                  Inl _ \<Rightarrow> (resp_line ''-ERR invalid client info value'', h)
                | Inr v \<Rightarrow>
                    let attr = to_ascii_uppercase attr0 in
                    if attr = bstr ''LIB-NAME'' then (resp_line ''+OK'', h\<lparr>client_lib_name := v\<rparr>)
                    else if attr = bstr ''LIB-VER'' then (resp_line ''+OK'', h\<lparr>client_lib_ver := v\<rparr>)
                    else (resp_line ''-ERR invalid client info attribute'', h)))
      | _ \<Rightarrow> (wrong_number_of_arguments ''client|setinfo'', h))"

definition client_reply_response :: "redis_handler \<Rightarrow> bytes list \<Rightarrow> bytes \<times> redis_handler" where
  "client_reply_response h rest =
     (case rest of
        [mode_arg] \<Rightarrow>
          (case text_command mode_arg of
             None \<Rightarrow> (protocol_error, h)
           | Some mode0 \<Rightarrow>
               let mode = to_ascii_uppercase mode0 in
               if mode = bstr ''ON'' then (resp_line ''+OK'', h\<lparr>reply_mode := Reply_On\<rparr>)
               else if mode = bstr ''OFF'' then ([], h\<lparr>reply_mode := Reply_Off\<rparr>)
               else if mode = bstr ''SKIP'' then ([], h\<lparr>reply_mode := Reply_Skip\<rparr>)
               else (resp_line ''-ERR invalid CLIENT REPLY mode'', h))
      | _ \<Rightarrow> (wrong_number_of_arguments ''client|reply'', h))"

definition client_response :: "redis_handler \<Rightarrow> bytes list \<Rightarrow> (bytes \<times> redis_handler) rs" where
  "client_response h args =
     (case args of
        [] \<Rightarrow> Some (wrong_number_of_arguments ''client'', h)
      | sub_arg # rest \<Rightarrow>
          let_else (text_command sub_arg) (protocol_error, h) (\<lambda>sub0.
          let sub = to_ascii_uppercase sub0 in
          if sub = bstr ''SETNAME'' then Some (client_setname_response h rest)
          else if sub = bstr ''SETINFO'' then Some (client_setinfo_response h rest)
          else if sub = bstr ''REPLY'' then Some (client_reply_response h rest)
          else if sub = bstr ''CACHING'' then
            Some (case rest of
                    [mode_arg] \<Rightarrow>
                      (case text_command mode_arg of
                         None \<Rightarrow> (protocol_error, h)
                       | Some mode \<Rightarrow> client_caching_response h mode)
                  | _ \<Rightarrow> (wrong_number_of_arguments ''client|caching'', h))
          else if sub = bstr ''TRACKING'' then client_tracking_response h rest
          else if sub = bstr ''TRACKINGINFO'' then
            Some (if rest = [] then client_tracking_info_payload h
                  else wrong_number_of_arguments ''client|trackinginfo'', h)
          else if sub = bstr ''NO-EVICT'' then
            Some (client_flag_response h rest ''client|no-evict'' ''-ERR invalid CLIENT NO-EVICT mode''
                    (\<lambda>v. h\<lparr>client_no_evict := v\<rparr>))
          else if sub = bstr ''NO-TOUCH'' then
            Some (client_flag_response h rest ''client|no-touch'' ''-ERR invalid CLIENT NO-TOUCH mode''
                    (\<lambda>v. h\<lparr>client_no_touch := v\<rparr>))
          else if sub = bstr ''ID'' then
            Some (if rest = [] then resp_line '':1'' else wrong_number_of_arguments ''client|id'', h)
          else if sub = bstr ''INFO'' then
            Some (if rest = [] then client_payload_of ''client|info'' h
                  else wrong_number_of_arguments ''client|info'', h)
          else if sub = bstr ''GETNAME'' then
            Some (if rest = [] then
                    (case client_name h of
                       Some name \<Rightarrow> bstr ''$'' @ show_dec (length name) @ CRLF @ name @ CRLF
                     | None \<Rightarrow> resp_line ''$-1'')
                  else wrong_number_of_arguments ''client|getname'', h)
          else if sub = bstr ''GETREDIR'' then
            Some (if rest = [] then bstr '':'' @ show_int (tracking_redirect h) @ CRLF
                  else wrong_number_of_arguments ''client|getredir'', h)
          else if sub = bstr ''LIST'' then
            Some (if rest = [] then client_payload_of ''client|list'' h
                  else wrong_number_of_arguments ''client|list'', h)
          else if sub = bstr ''HELP'' then
            Some (if rest = [] then client_help else wrong_number_of_arguments ''client|help'', h)
          else Some (resp_line ''-ERR unknown CLIENT subcommand'', h)))"

section \<open>The command table\<close>

definition redis_info_payload :: "bytes \<Rightarrow> nat \<Rightarrow> bytes" where
  "redis_info_payload version uptime_secs =
     resp_line ''# Server'' @ bstr ''redis_version:'' @ version @ CRLF @ resp_line ''os:Linux''
     @ resp_line ''arch_bits:64'' @ resp_line ''tcp_port:6379''
     @ bstr ''uptime_in_seconds:'' @ show_dec uptime_secs @ CRLF
     @ bstr ''uptime_in_days:'' @ show_dec (uptime_secs div 86400) @ CRLF @ CRLF
     @ resp_line ''# Clients'' @ resp_line ''connected_clients:1'' @ CRLF
     @ resp_line ''# Memory'' @ resp_line ''used_memory:1000000'' @ resp_line ''used_memory_human:976.56K''"

definition info_response :: "bytes \<Rightarrow> nat \<Rightarrow> bytes list \<Rightarrow> bytes" where
  "info_response version uptime args0 =
     (case text_args args0 of
        Some args \<Rightarrow>
          if length args > 1 then wrong_number_of_arguments ''info''
          else (let info = redis_info_payload version uptime
                in bstr ''$'' @ show_dec (length info) @ CRLF @ info @ CRLF)
      | None \<Rightarrow> protocol_error)"

text \<open>\<open>format!("{:06}", n)\<close>.\<close>

definition show_dec_06 :: "nat \<Rightarrow> bytes" where
  "show_dec_06 n = replicate (6 - length (show_dec n)) 0x30 @ show_dec n"

definition time_response :: "bytes list \<Rightarrow> int \<Rightarrow> u32 \<Rightarrow> bytes" where
  "time_response args seconds micros =
     (if args \<noteq> [] then wrong_number_of_arguments ''time''
      else resp_line ''*2'' @ bstr ''$'' @ show_dec (length (show_int seconds)) @ CRLF
           @ show_int seconds @ CRLF @ bstr ''$'' @ show_dec 6 @ CRLF @ show_dec_06 (unat micros) @ CRLF)"

text \<open>The arms of \<open>match cmd.as_str()\<close> whose answer depends on the arguments only.\<close>

definition argument_commands :: "(string \<times> (bytes list \<Rightarrow> bytes rs)) list" where
  "argument_commands =
     [(''PING'', Some \<circ> ping_response), (''ECHO'', Some \<circ> echo_response), (''ROLE'', Some \<circ> role_response),
      (''SET'', set_response), (''SETEX'', \<lambda>a. setex_response a ''setex''),
      (''PSETEX'', \<lambda>a. setex_response a ''psetex''), (''SETNX'', Some \<circ> setnx_response),
      (''MSET'', \<lambda>a. Some (mset_response a ''mset'')), (''MSETNX'', \<lambda>a. Some (mset_response a ''msetnx'')),
      (''APPEND'', append_response), (''INCR'', \<lambda>a. Some (incr_decr_response a ''incr'' 1)),
      (''DECR'', \<lambda>a. Some (incr_decr_response a ''decr'' (-1))),
      (''INCRBY'', \<lambda>a. incrby_decrby_response a ''incrby'' 1),
      (''DECRBY'', \<lambda>a. incrby_decrby_response a ''decrby'' (-1)),
      (''HSET'', \<lambda>a. Some (hash_set_response a ''hset'')), (''HSETNX'', Some \<circ> hash_set_nx_response),
      (''HGET'', Some \<circ> hash_get_response), (''HDEL'', Some \<circ> hash_del_response),
      (''HEXISTS'', Some \<circ> hash_exists_response), (''HLEN'', Some \<circ> hash_len_response),
      (''HMGET'', hash_mget_response), (''SADD'', Some \<circ> set_add_response),
      (''SREM'', Some \<circ> set_remove_response), (''SISMEMBER'', Some \<circ> set_member_response),
      (''SCARD'', Some \<circ> set_card_response), (''SMEMBERS'', Some \<circ> set_members_response),
      (''SMISMEMBER'', set_multi_member_response),
      (''LPUSH'', \<lambda>a. Some (list_push_response a ''lpush'')),
      (''RPUSH'', \<lambda>a. Some (list_push_response a ''rpush'')),
      (''LPOP'', \<lambda>a. list_pop_response a ''lpop''), (''RPOP'', \<lambda>a. list_pop_response a ''rpop''),
      (''LLEN'', Some \<circ> list_len_response), (''LRANGE'', list_range_response),
      (''LINDEX'', list_index_response), (''GETBIT'', getbit_response), (''SETBIT'', setbit_response),
      (''BITCOUNT'', bitcount_response), (''PFADD'', Some \<circ> pfadd_response),
      (''PFCOUNT'', Some \<circ> pfcount_response), (''PFMERGE'', Some \<circ> pfmerge_response),
      (''PUBLISH'', Some \<circ> publish_response), (''PUBSUB'', pubsub_response),
      (''KEYS'', Some \<circ> keys_response), (''RANDOMKEY'', Some \<circ> randomkey_response),
      (''SCAN'', scan_response), (''ZCARD'', Some \<circ> sorted_set_card_response),
      (''ZADD'', sorted_set_add_response), (''ZCOUNT'', sorted_set_count_response),
      (''ZINCRBY'', sorted_set_incr_response), (''ZDIFFSTORE'', sorted_set_diff_store_response),
      (''ZINTERSTORE'', \<lambda>a. sorted_set_store_with_options_response a ''zinterstore''),
      (''ZUNIONSTORE'', \<lambda>a. sorted_set_store_with_options_response a ''zunionstore''),
      (''ZRANGE'', \<lambda>a. sorted_set_range_response a ''zrange''),
      (''ZREVRANGE'', \<lambda>a. sorted_set_range_response a ''zrevrange''),
      (''ZREM'', Some \<circ> sorted_set_remove_response), (''ZSCORE'', Some \<circ> sorted_set_score_response),
      (''ZRANK'', \<lambda>a. sorted_set_rank_response a ''zrank''),
      (''ZREVRANK'', \<lambda>a. sorted_set_rank_response a ''zrevrank''),
      (''ZMSCORE'', sorted_set_mscore_response), (''ZRANDMEMBER'', sorted_set_random_member_response),
      (''SORT'', \<lambda>a. sort_response a True), (''SORT_RO'', \<lambda>a. sort_response a False),
      (''ZRANGESTORE'', sorted_set_range_store_response), (''TOUCH'', Some \<circ> touch_response),
      (''UNLINK'', Some \<circ> unlink_response), (''MOVE'', move_response), (''COPY'', copy_response),
      (''GET'', Some \<circ> get_response), (''GETSET'', Some \<circ> getset_response),
      (''GETDEL'', Some \<circ> getdel_response), (''DEL'', Some \<circ> del_response),
      (''EXISTS'', Some \<circ> exists_response), (''MGET'', Some \<circ> mget_response),
      (''TTL'', \<lambda>a. Some (ttl_response a ''ttl'')), (''PTTL'', \<lambda>a. Some (ttl_response a ''pttl'')),
      (''EXPIRETIME'', \<lambda>a. Some (expiretime_response a ''expiretime'')),
      (''PEXPIRETIME'', \<lambda>a. Some (expiretime_response a ''pexpiretime'')),
      (''EXPIRE'', \<lambda>a. expire_response a ''expire''), (''PEXPIRE'', \<lambda>a. expire_response a ''pexpire''),
      (''EXPIREAT'', \<lambda>a. expire_response a ''expireat''),
      (''PEXPIREAT'', \<lambda>a. expire_response a ''pexpireat''), (''TYPE'', Some \<circ> type_response),
      (''STRLEN'', Some \<circ> strlen_response), (''CONFIG'', handle_config_command),
      (''SLAVEOF'', replication_response ''slaveof''), (''REPLICAOF'', replication_response ''replicaof''),
      (''MODULE'', Some \<circ> module_response), (''EVAL'', handle_eval_command),
      (''EVALSHA'', eval_response ''evalsha''), (''FLUSHALL'', Some \<circ> flush_response ''flushall''),
      (''FLUSHDB'', Some \<circ> flush_response ''flushdb''), (''DBSIZE'', Some \<circ> dbsize_response),
      (''SELECT'', Some \<circ> select_response), (''COMMAND'', Some \<circ> command_response),
      (''CLUSTER'', Some \<circ> cluster_response), (''SAVE'', Some \<circ> save_response ''save''),
      (''BGSAVE'', Some \<circ> bgsave_response)]"

text \<open>The whole \<open>match\<close>: the answer, the handler and the authentication state after the command.\<close>

definition redis_command ::
    "redis_clock \<Rightarrow> nat \<Rightarrow> redis_handler \<Rightarrow> bool \<Rightarrow> bytes \<Rightarrow> bytes list \<Rightarrow> (bytes \<times> redis_handler \<times> bool) rs" where
  "redis_command clk k h authenticated cmd args =
     (if cmd = bstr ''HELLO'' then hello_response h args authenticated
      else if cmd = bstr ''INFO'' then
        Some (info_response (rh_version h) (rc_uptime clk k) args, h, authenticated)
      else if cmd = bstr ''TIME'' then
        Some (time_response args (rc_seconds clk k) (rc_micros clk k), h, authenticated)
      else if cmd = bstr ''AUTH'' then
        (case handle_auth_command args authenticated of (reply, auth) \<Rightarrow> Some (reply, h, auth))
      else if cmd = bstr ''RESET'' then Some (handle_reset_command h authenticated args)
      else if cmd = bstr ''QUIT'' then
        if args = [] then Some (resp_line ''+OK'', h\<lparr>rh_state := Redis_Disconnected\<rparr>, authenticated)
        else Some (wrong_number_of_arguments ''quit'', h, authenticated)
      else if cmd = bstr ''CLIENT'' then do {
        (reply, h1) \<leftarrow> client_response h args;
        Some (reply, h1, authenticated) }
      else
        (case List.find (\<lambda>(name, _). cmd = bstr name) argument_commands of
           Some (_, f) \<Rightarrow> do { reply \<leftarrow> f args; Some (reply, h, authenticated) }
         | None \<Rightarrow> Some (resp_line ''-ERR unknown command'', h, authenticated)))"

section \<open>Batches\<close>

definition is_client_sub :: "bytes \<Rightarrow> bytes list \<Rightarrow> string \<Rightarrow> bool" where
  "is_client_sub cmd args sub \<longleftrightarrow>
     cmd = bstr ''CLIENT'' \<and>
     (case args of
        [] \<Rightarrow> False
      | arg # _ \<Rightarrow>
          (case text_command arg of None \<Rightarrow> False | Some v \<Rightarrow> eq_ignore_ascii_case v (bstr sub)))"

text \<open>The body of the loop of \<open>handle_command_with_auth_state\<close> for a command that is not empty: what is
  appended to the response, whether \<open>saw_reply\<close> is set, and the state after the command.\<close>

definition redis_step ::
    "redis_clock \<Rightarrow> nat \<Rightarrow> redis_handler \<Rightarrow> bool \<Rightarrow> bytes list \<Rightarrow> (bytes \<times> bool \<times> redis_handler \<times> bool) rs" where
  "redis_step clk k h authenticated cmd_parts = do {
     first_part \<leftarrow> idx cmd_parts 0;
     let_else (text_command first_part) (protocol_error, True, h, authenticated) (\<lambda>cmd0. do {
       args \<leftarrow> slice_from cmd_parts 1;
       let cmd = str_to_uppercase cmd0;
           caching_before = tracking_caching h;
           is_hello_auth_cmd = (cmd = bstr ''HELLO'' \<and> hello_has_auth args);
           reply_mode_before = reply_mode h
       in if require_auth h \<and> \<not> authenticated \<and> cmd \<noteq> bstr ''AUTH'' \<and> cmd \<noteq> bstr ''RESET''
             \<and> \<not> is_hello_auth_cmd
       then Some (resp_line ''-NOAUTH Authentication required.'', True, h, authenticated)
       else do {
         (resp, h1, auth1) \<leftarrow> redis_command clk k h authenticated cmd args;
         let h2 = (if caching_before \<noteq> None \<and> \<not> is_client_sub cmd args ''CACHING''
                   then h1\<lparr>tracking_caching := None\<rparr> else h1)
         in if reply_mode_before = Reply_Skip then
              Some ([], False,
                if \<not> is_client_sub cmd args ''REPLY'' then h2\<lparr>reply_mode := Reply_On\<rparr> else h2, auth1)
            else if reply_mode_before = Reply_Off then Some ([], False, h2, auth1)
            else Some (resp, resp \<noteq> [], h2, auth1) } }) }"

fun redis_batch ::
    "redis_clock \<Rightarrow> nat \<Rightarrow> bytes list list \<Rightarrow> redis_handler \<Rightarrow> bool \<Rightarrow> bytes \<Rightarrow> bool \<Rightarrow> bool \<Rightarrow>
     (bytes \<times> bool \<times> bool \<times> redis_handler \<times> bool) rs" where
  "redis_batch clk k [] h authenticated response saw_command saw_reply =
     Some (response, saw_command, saw_reply, h, authenticated)"
| "redis_batch clk k (cmd_parts # commands) h authenticated response saw_command saw_reply =
     (if rh_state h = Redis_Disconnected
      then Some (response, saw_command, saw_reply, h, authenticated)
      else if cmd_parts = []
      then redis_batch clk (Suc k) commands h authenticated response saw_command saw_reply
      else do {
        (out, replied, h1, auth1) \<leftarrow> redis_step clk k h authenticated cmd_parts;
        redis_batch clk (Suc k) commands h1 auth1 (response @ out) True (saw_reply \<or> replied) })"

definition handle_command_with_auth_state ::
    "redis_clock \<Rightarrow> redis_handler \<Rightarrow> bytes \<Rightarrow> bool \<Rightarrow> (bytes \<times> redis_handler \<times> bool) rs" where
  "handle_command_with_auth_state clk h data authenticated =
     (if rh_state h = Redis_Disconnected then Some ([], h, authenticated)
      else do {
        parsed \<leftarrow> parse_resp data;
        let_else parsed (if data = [] then [] else protocol_error, h, authenticated) (\<lambda>commands. do {
          (response, saw_command, saw_reply, h1, auth1) \<leftarrow>
            redis_batch clk 0 commands h authenticated [] False False;
          Some (if \<not> saw_command \<and> data \<noteq> [] then protocol_error
                else if \<not> saw_reply then [] else response, h1, auth1) }) })"

definition handle_command :: "redis_clock \<Rightarrow> redis_handler \<Rightarrow> bytes \<Rightarrow> (bytes \<times> redis_handler) rs" where
  "handle_command clk h data = do {
     (response, h1, _) \<leftarrow> handle_command_with_auth_state clk h data (\<not> require_auth h);
     Some (response, h1) }"

end
