(* ===== verification/Redis_Format.thy ===== *)
theory Redis_Format
  imports Redis
begin

text \<open>
  The format of the answers of the Redis handler. \<open>resp_value\<close> with its encoder and reader is the reference
  definition of the protocol: the reader gets back every well-formed value from its encoding. Every
  answer of the command table is the encoding of one such value.
\<close>

section \<open>RESP values\<close>

datatype resp_value =
    Simple bytes
  | Failure bytes
  | Number bytes
  | Bulk bytes
  | Null
  | Arr "resp_value list"
  | Dict "resp_value list"

definition no_crlf :: "bytes \<Rightarrow> bool" where
  "no_crlf s \<longleftrightarrow> list_all (\<lambda>b. b \<noteq> 0x0D \<and> b \<noteq> 0x0A) s"

definition is_numeral :: "bytes \<Rightarrow> bool" where
  "is_numeral s \<longleftrightarrow>
     (case s of
        [] \<Rightarrow> False
      | c # r \<Rightarrow> if c = 0x2D then r \<noteq> [] \<and> list_all is_ascii_digit r else list_all is_ascii_digit s)"

fun resp_encode :: "resp_value \<Rightarrow> bytes" where
  "resp_encode (Simple s) = 0x2B # s @ CRLF"
| "resp_encode (Failure s) = 0x2D # s @ CRLF"
| "resp_encode (Number s) = 0x3A # s @ CRLF"
| "resp_encode (Bulk s) = 0x24 # show_dec (length s) @ CRLF @ s @ CRLF"
| "resp_encode Null = 0x24 # bstr ''-1'' @ CRLF"
| "resp_encode (Arr vs) = 0x2A # show_dec (length vs) @ CRLF @ concat (map resp_encode vs)"
| "resp_encode (Dict vs) = 0x25 # show_dec (length vs div 2) @ CRLF @ concat (map resp_encode vs)"

text \<open>Well-formed values whose arrays are nested at most \<open>n\<close> deep.\<close>

fun resp_ok :: "nat \<Rightarrow> resp_value \<Rightarrow> bool" where
  "resp_ok n (Simple s) = no_crlf s"
| "resp_ok n (Failure s) = no_crlf s"
| "resp_ok n (Number s) = is_numeral s"
| "resp_ok n (Bulk s) = True"
| "resp_ok n Null = True"
| "resp_ok 0 (Arr vs) = False"
| "resp_ok (Suc n) (Arr vs) = list_all (resp_ok n) vs"
| "resp_ok 0 (Dict vs) = False"
| "resp_ok (Suc n) (Dict vs) = (even (length vs) \<and> list_all (resp_ok n) vs)"

text \<open>A reader as a client has it.\<close>

fun read_many :: "(bytes \<Rightarrow> (resp_value \<times> bytes) option) \<Rightarrow> nat \<Rightarrow> bytes \<Rightarrow> (resp_value list \<times> bytes) option" where
  "read_many rd 0 xs = Some ([], xs)"
| "read_many rd (Suc n) xs =
     (case rd xs of
        None \<Rightarrow> None
      | Some (v, ys) \<Rightarrow> map_option (\<lambda>(vs, zs). (v # vs, zs)) (read_many rd n ys))"

definition read_count :: "bytes \<Rightarrow> nat option" where
  "read_count ln = (if ln = [] \<or> \<not> list_all is_ascii_digit ln then None else Some (dec_value ln))"

definition read_value ::
    "(nat \<Rightarrow> bytes \<Rightarrow> (resp_value list \<times> bytes) option) \<Rightarrow> bytes \<Rightarrow> (resp_value \<times> bytes) option" where
  "read_value sub xs =
     (case xs of
        [] \<Rightarrow> None
      | b # r \<Rightarrow>
          (case find_sub CRLF r of
             None \<Rightarrow> None
           | Some i \<Rightarrow>
               let ln = take i r; rest = drop (i + 2) r in
               if b = 0x2B then if no_crlf ln then Some (Simple ln, rest) else None
               else if b = 0x2D then if no_crlf ln then Some (Failure ln, rest) else None
               else if b = 0x3A then if is_numeral ln then Some (Number ln, rest) else None
               else if b = 0x24 then
                 if ln = bstr ''-1'' then Some (Null, rest)
                 else
                   (case read_count ln of
                      None \<Rightarrow> None
                    | Some n \<Rightarrow>
                        if n \<le> length rest \<and> take 2 (drop n rest) = CRLF
                        then Some (Bulk (take n rest), drop (n + 2) rest) else None)
               else if b = 0x2A then
                 (case read_count ln of
                    None \<Rightarrow> None
                  | Some n \<Rightarrow> map_option (\<lambda>(vs, zs). (Arr vs, zs)) (sub n rest))
               else if b = 0x25 then
                 (case read_count ln of
                    None \<Rightarrow> None
                  | Some n \<Rightarrow> map_option (\<lambda>(vs, zs). (Dict vs, zs)) (sub (2 * n) rest))
               else None))"

primrec resp_read :: "nat \<Rightarrow> bytes \<Rightarrow> (resp_value \<times> bytes) option" where
  "resp_read 0 = read_value (\<lambda>_ _. None)"
| "resp_read (Suc d) = read_value (read_many (resp_read d))"

lemma read_count_show_dec [simp]: "read_count (show_dec n) = Some n"
  by (simp add: read_count_def dec_value_show_dec)

lemma no_cr: "no_crlf s \<Longrightarrow> 0x0D \<notin> set s" "is_numeral s \<Longrightarrow> 0x0D \<notin> set s"
  by (auto simp: no_crlf_def is_numeral_def list_all_iff is_ascii_digit_def split: list.splits if_splits)

lemma read_many_encode:
  assumes "\<forall>v \<in> set vs. \<forall>rest. rd (resp_encode v @ rest) = Some (v, rest)"
  shows "read_many rd (length vs) (concat (map resp_encode vs) @ rest) = Some (vs, rest)"
  using assms by (induction vs) auto

lemma CRLF_simps [simp]: "length CRLF = 2" "drop 2 CRLF = []" "take 2 CRLF = CRLF"
  by (simp_all add: CRLF_def)

text \<open>The reader at a value whose first line is known.\<close>

lemma read_value_line:
  assumes "0x0D \<notin> set ln"
  shows "read_value sub (0x2B # ln @ CRLF @ rest) = (if no_crlf ln then Some (Simple ln, rest) else None)"
    and "read_value sub (0x2D # ln @ CRLF @ rest) = (if no_crlf ln then Some (Failure ln, rest) else None)"
    and "read_value sub (0x3A # ln @ CRLF @ rest) = (if is_numeral ln then Some (Number ln, rest) else None)"
    and "read_value sub (0x24 # ln @ CRLF @ rest) =
       (if ln = bstr ''-1'' then Some (Null, rest)
        else (case read_count ln of
                None \<Rightarrow> None
              | Some n \<Rightarrow>
                  if n \<le> length rest \<and> take 2 (drop n rest) = CRLF
                  then Some (Bulk (take n rest), drop (n + 2) rest) else None))"
    and "read_value sub (0x2A # ln @ CRLF @ rest) =
       (case read_count ln of None \<Rightarrow> None | Some n \<Rightarrow> map_option (\<lambda>(vs, zs). (Arr vs, zs)) (sub n rest))"
    and "read_value sub (0x25 # ln @ CRLF @ rest) =
       (case read_count ln of None \<Rightarrow> None | Some n \<Rightarrow> map_option (\<lambda>(vs, zs). (Dict vs, zs)) (sub (2 * n) rest))"
  using find_sub_CRLF [OF assms] by (simp_all add: read_value_def Let_def)

lemma show_dec_no_cr [simp]: "0x0D \<notin> set (show_dec n)"
  by (rule digits_no_cr) simp

lemma read_value_simple:
  "no_crlf s \<Longrightarrow> read_value sub (resp_encode (Simple s) @ rest) = Some (Simple s, rest)"
  "no_crlf s \<Longrightarrow> read_value sub (resp_encode (Failure s) @ rest) = Some (Failure s, rest)"
  "is_numeral s \<Longrightarrow> read_value sub (resp_encode (Number s) @ rest) = Some (Number s, rest)"
  "read_value sub (resp_encode Null @ rest) = Some (Null, rest)"
proof -
  have "0x0D \<notin> set (bstr ''-1'')" by (simp add: bstr_def)
  then show "read_value sub (resp_encode Null @ rest) = Some (Null, rest)"
    by (simp add: read_value_line)
qed (simp_all add: read_value_line no_cr)

lemma read_value_bulk: "read_value sub (resp_encode (Bulk s) @ rest) = Some (Bulk s, rest)"
  by (simp add: read_value_line show_dec_not_minus)

lemma resp_read_value:
  "no_crlf s \<Longrightarrow> resp_read n (resp_encode (Simple s) @ rest) = Some (Simple s, rest)"
  "no_crlf s \<Longrightarrow> resp_read n (resp_encode (Failure s) @ rest) = Some (Failure s, rest)"
  "is_numeral s \<Longrightarrow> resp_read n (resp_encode (Number s) @ rest) = Some (Number s, rest)"
  "resp_read n (resp_encode Null @ rest) = Some (Null, rest)"
  "resp_read n (resp_encode (Bulk s) @ rest) = Some (Bulk s, rest)"
  by (cases n; simp only: resp_read.simps read_value_simple read_value_bulk)+

lemma resp_read_encode: "resp_ok n v \<Longrightarrow> resp_read n (resp_encode v @ rest) = Some (v, rest)"
proof (induction n v arbitrary: rest rule: resp_ok.induct)
  case (7 n vs)
  then have "read_many (resp_read n) (length vs) (concat (map resp_encode vs) @ rest) = Some (vs, rest)"
    by (intro read_many_encode) (auto simp: list_all_iff)
  then show ?case by (simp add: read_value_line)
next
  case (9 n vs)
  then have "read_many (resp_read n) (length vs) (concat (map resp_encode vs) @ rest) = Some (vs, rest)"
    by (intro read_many_encode) (auto simp: list_all_iff)
  with 9 show ?case by (simp add: read_value_line)
qed (simp_all only: resp_read_value resp_ok.simps)

section \<open>Answers are RESP values\<close>

definition is_resp_value :: "bytes \<Rightarrow> bool" where
  "is_resp_value b \<longleftrightarrow> (\<exists>v. resp_ok 2 v \<and> b = resp_encode v)"

named_theorems resp_values \<open>answers that are RESP values\<close>

text \<open>A check of a one-line literal that evaluates.\<close>

definition line_ok :: "string \<Rightarrow> bool" where
  "line_ok s \<longleftrightarrow>
     (case s of
        [] \<Rightarrow> False
      | c # t \<Rightarrow>
          (c = CHR ''+'' \<or> c = CHR ''-'') \<and> no_crlf (bstr t)
          \<or> c = CHR '':'' \<and> is_numeral (bstr t) \<or> s = ''$-1'' \<or> s = ''*0'')"

lemmas line_ok_eval = line_ok_def no_crlf_def is_numeral_def bstr_def is_ascii_digit_def

lemma is_resp_valueI: "b = resp_encode v \<Longrightarrow> resp_ok 2 v \<Longrightarrow> is_resp_value b"
  by (auto simp: is_resp_value_def)

lemma show_dec_0: "show_dec 0 = [0x30]"
  by (simp add: show_dec.simps)

lemma is_resp_line: "line_ok s \<Longrightarrow> is_resp_value (resp_line s)"
proof (cases s)
  case (Cons c t)
  assume "line_ok s"
  with Cons consider "c = CHR ''+''" "no_crlf (bstr t)" | "c = CHR ''-''" "no_crlf (bstr t)"
    | "c = CHR '':''" "is_numeral (bstr t)" | "s = ''$-1''" | "s = ''*0''"
    by (auto simp: line_ok_def)
  then show ?thesis
  proof cases
    case 1
    with Cons show ?thesis by (intro is_resp_valueI [of _ "Simple (bstr t)"]) (simp_all add: resp_line_def bstr_def)
  next
    case 2
    with Cons show ?thesis by (intro is_resp_valueI [of _ "Failure (bstr t)"]) (simp_all add: resp_line_def bstr_def)
  next
    case 3
    with Cons show ?thesis by (intro is_resp_valueI [of _ "Number (bstr t)"]) (simp_all add: resp_line_def bstr_def)
  next
    case 4
    then show ?thesis by (intro is_resp_valueI [of _ Null]) (simp_all add: resp_line_def bstr_def)
  next
    case 5
    then show ?thesis
      by (intro is_resp_valueI [of _ "Arr []"]) (simp_all add: resp_line_def bstr_def show_dec_0 numeral_2_eq_2)
  qed
qed (simp add: line_ok_def)

lemma is_resp_wrong_number [resp_values]:
  assumes "no_crlf (bstr c)"
  shows "is_resp_value (wrong_number_of_arguments c)"
proof (rule is_resp_valueI)
  show "wrong_number_of_arguments c = resp_encode (Failure (bstr ''ERR wrong number of arguments for '' @ [0x27]
      @ bstr c @ [0x27] @ bstr '' command''))"
    by (simp add: wrong_number_of_arguments_def resp_line_def bstr_def)
  show "resp_ok 2 (Failure (bstr ''ERR wrong number of arguments for '' @ [0x27] @ bstr c @ [0x27]
      @ bstr '' command''))"
    using assms by (simp add: no_crlf_def bstr_def)
qed

lemma is_resp_errors [resp_values]: "is_resp_value syntax_error" "is_resp_value protocol_error"
  unfolding syntax_error_def protocol_error_def by (rule is_resp_line, simp add: line_ok_eval)+

lemma is_numeral_show_dec: "is_numeral (show_dec n)"
proof -
  obtain c r where "show_dec n = c # r" by (cases "show_dec n") auto
  moreover from this have "is_ascii_digit c" "list_all is_ascii_digit r"
    using show_dec_all_digits [of n] by simp_all
  ultimately show ?thesis by (auto simp: is_numeral_def is_ascii_digit_def)
qed

lemma is_numeral_show_int: "is_numeral (show_int n)"
  using is_numeral_show_dec by (simp add: show_int_def is_numeral_def split: list.split)

lemma is_resp_number [resp_values]:
  "is_resp_value (bstr '':'' @ show_dec n @ CRLF)" "is_resp_value (bstr '':'' @ show_int i @ CRLF)"
  by (rule is_resp_valueI [of _ "Number (show_dec n)"], simp_all add: bstr_def is_numeral_show_dec)
    (rule is_resp_valueI [of _ "Number (show_int i)"], simp_all add: is_numeral_show_int)

lemma is_resp_bulk [resp_values]: "is_resp_value (bstr ''$'' @ show_dec (length v) @ CRLF @ v @ CRLF)"
  by (rule is_resp_valueI [of _ "Bulk v"]) (simp_all add: bstr_def)

lemma is_resp_repeated [resp_values]:
  assumes "element = resp_encode v" "resp_ok 1 v"
  shows "is_resp_value (repeated_reply args element)"
  by (rule is_resp_valueI [of _ "Arr (map (\<lambda>_. v) args)"])
    (use assms in \<open>simp_all add: repeated_reply_def bstr_def comp_def numeral_2_eq_2 list_all_iff\<close>)

lemma resp_line_encode: "resp_line ''$-1'' = resp_encode Null" "resp_line '':0'' = resp_encode (Number (bstr ''0''))"
  by (simp_all add: resp_line_def bstr_def)

lemma is_resp_repeated_lines [resp_values]:
  "is_resp_value (repeated_reply args (resp_line ''$-1''))" "is_resp_value (repeated_reply args (resp_line '':0''))"
  by (rule is_resp_repeated [OF resp_line_encode(1)], simp)
    (rule is_resp_repeated [OF resp_line_encode(2)], simp add: is_numeral_def bstr_def is_ascii_digit_def)

text \<open>The one-line answers of the sources.\<close>

lemma reply_lines [resp_values]:
  "is_resp_value (resp_line ''-ERR syntax error'')"
  "is_resp_value (resp_line ''-ERR Protocol error'')"
  "is_resp_value (resp_line ''-ERR value is not an integer or out of range'')"
  "is_resp_value (resp_line ''-ERR value is not a valid float'')"
  "is_resp_value (resp_line ''+PONG'')"
  "is_resp_value (resp_line '':0'')"
  "is_resp_value (resp_line ''*0'')"
  "is_resp_value (resp_line ''-ERR invalid expire time in 'set' command'')"
  "is_resp_value (resp_line ''$-1'')"
  "is_resp_value (resp_line ''+OK'')"
  "is_resp_value (resp_line '':-2'')"
  "is_resp_value (resp_line ''+none'')"
  "is_resp_value (resp_line '':1'')"
  "is_resp_value (resp_line ''-ERR The bit argument must be 1 or 0.'')"
  "is_resp_value (resp_line ''-ERR unknown PUBSUB subcommand'')"
  "is_resp_value (resp_line ''-ERR invalid host'')"
  "is_resp_value (resp_line ''-ERR invalid port'')"
  "is_resp_value (resp_line ''-ERR Number of keys can't be greater than number of args'')"
  "is_resp_value (resp_line ''-ERR invalid DB index'')"
  "is_resp_value (resp_line ''-ERR Module loading is disabled'')"
  "is_resp_value (resp_line ''-ERR This instance has cluster support disabled'')"
  "is_resp_value (resp_line ''-ERR unknown CONFIG subcommand'')"
  "is_resp_value (resp_line ''-ERR wrong number of arguments for 'auth' command'')"
  "is_resp_value (resp_line ''+RESET'')"
  "is_resp_value (resp_line '':3'')"
  "is_resp_value (resp_line '':2'')"
  "is_resp_value (resp_line ''-ERR invalid client name'')"
  "is_resp_value (resp_line ''-NOPROTO unsupported protocol version'')"
  "is_resp_value (resp_line ''-ERR invalid redirect id'')"
  "is_resp_value (resp_line ''-ERR client tracking prefix too large'')"
  "is_resp_value (resp_line ''-ERR too many client tracking prefixes'')"
  "is_resp_value (resp_line ''-ERR Prefixes for a single client must not overlap.'')"
  "is_resp_value (resp_line ''-ERR CLIENT CACHING can only be called when tracking is enabled in OPTIN or OPTOUT mode'')"
  "is_resp_value (resp_line ''-ERR CLIENT CACHING YES can only be called when tracking is enabled in OPTIN mode'')"
  "is_resp_value (resp_line ''-ERR CLIENT CACHING NO can only be called when tracking is enabled in OPTOUT mode'')"
  "is_resp_value (resp_line ''-ERR argument must be yes or no'')"
  "is_resp_value (resp_line ''-ERR invalid client info value'')"
  "is_resp_value (resp_line ''-ERR invalid client info attribute'')"
  "is_resp_value (resp_line ''-ERR invalid CLIENT REPLY mode'')"
  "is_resp_value (resp_line ''-ERR unknown CLIENT subcommand'')"
  "is_resp_value (resp_line ''-ERR unknown command'')"
  "is_resp_value (resp_line ''-NOAUTH Authentication required.'')"
  by (rule is_resp_line, simp add: line_ok_eval)+

lemma no_crlf_bstr: "no_crlf (bstr s) = list_all (\<lambda>c. (of_char c :: u8) \<noteq> 13 \<and> (of_char c :: u8) \<noteq> 10) s"
  by (simp add: no_crlf_def bstr_def list_all_iff)

lemma resp_ok_nested:
  "resp_ok 2 (Arr vs) = list_all (resp_ok 1) vs" "resp_ok 1 (Arr vs) = list_all (resp_ok 0) vs"
  "resp_ok 2 (Dict vs) = (even (length vs) \<and> list_all (resp_ok 1) vs)"
  by (simp_all add: numeral_2_eq_2)

lemma list_lines [resp_values]:
  "is_resp_value (resp_line ''*3'' @ resp_line ''$6'' @ resp_line ''master'' @ resp_line '':0'' @ resp_line ''*0'')"
  "is_resp_value (resp_line ''*2'' @ resp_line ''$1'' @ resp_line ''0'' @ resp_line ''*0'')"
proof -
  show "is_resp_value (resp_line ''*3'' @ resp_line ''$6'' @ resp_line ''master'' @ resp_line '':0'' @ resp_line ''*0'')"
    by (rule is_resp_valueI [of _ "Arr [Bulk (bstr ''master''), Number (bstr ''0''), Arr []]"])
      (simp_all add: resp_ok_nested resp_line_def bstr_def show_dec.simps is_numeral_def is_ascii_digit_def)
  show "is_resp_value (resp_line ''*2'' @ resp_line ''$1'' @ resp_line ''0'' @ resp_line ''*0'')"
    by (rule is_resp_valueI [of _ "Arr [Bulk (bstr ''0''), Arr []]"])
      (simp_all add: resp_ok_nested resp_line_def bstr_def show_dec.simps)
qed

lemmas plain_reply_defs = ping_response_def echo_response_def role_response_def mget_response_def
  get_response_def getset_response_def getdel_response_def del_response_def exists_response_def
  ttl_response_def expiretime_response_def type_response_def strlen_response_def setnx_response_def
  mset_response_def pfadd_response_def pfcount_response_def pfmerge_response_def publish_response_def
  keys_response_def randomkey_response_def touch_response_def unlink_response_def
  incr_decr_response_def flush_response_def select_response_def save_response_def bgsave_response_def
  module_response_def dbsize_response_def command_response_def cluster_response_def
  hash_set_response_def hash_set_nx_response_def hash_get_response_def hash_del_response_def
  hash_exists_response_def hash_len_response_def set_add_response_def set_remove_response_def
  set_member_response_def set_card_response_def set_members_response_def list_push_response_def
  list_len_response_def sorted_set_card_response_def sorted_set_remove_response_def
  sorted_set_score_response_def

lemmas checked_reply_defs = setex_response_def append_response_def incrby_decrby_response_def
  hash_mget_response_def set_multi_member_response_def list_pop_response_def list_range_response_def
  list_index_response_def getbit_response_def setbit_response_def bitcount_response_def
  sorted_set_count_response_def sorted_set_incr_response_def sorted_set_diff_store_response_def
  sorted_set_rank_response_def sorted_set_mscore_response_def sorted_set_random_member_response_def
  move_response_def expire_response_def replication_response_def eval_response_def
  handle_eval_command_def

lemma set_options_loop_resp: "wp (set_options_loop args i e c g) is_resp_value"
proof (induction args i e c g rule: set_options_loop.induct)
  case (1 args i e c g)
  then show ?case
    by (subst set_options_loop.simps) (auto simp: wp_rules resp_values)
qed

lemma scan_options_loop_resp: "wp (scan_options_loop args i) is_resp_value"
proof (induction args i rule: scan_options_loop.induct)
  case (1 args i)
  then show ?case
    by (subst scan_options_loop.simps) (auto simp: wp_rules resp_values)
qed

lemma copy_options_loop_resp: "wp (copy_options_loop args i d) is_resp_value"
proof (induction args i d rule: copy_options_loop.induct)
  case (1 args i d)
  then show ?case
    by (subst copy_options_loop.simps) (auto simp: wp_rules resp_values no_crlf_bstr)
qed

lemma sort_options_loop_resp: "wp (sort_options_loop args a i fl) is_resp_value"
proof (induction args a i fl rule: sort_options_loop.induct)
  case (1 args a i fl)
  then show ?case
    by (subst sort_options_loop.simps) (auto simp: wp_rules resp_values)
qed

lemma store_options_loop_resp: "wp (store_options_loop args n i w g) is_resp_value"
proof (induction args n i w g rule: store_options_loop.induct)
  case (1 args n i w g)
  then show ?case
    by (subst store_options_loop.simps) (auto simp: wp_rules resp_values Let_def)
qed

lemma zrange_options_loop_resp: "wp (zrange_options_loop args i fl) is_resp_value"
proof (induction args i fl rule: zrange_options_loop.induct)
  case (1 args i fl)
  then show ?case
    by (subst zrange_options_loop.simps) (auto simp: wp_rules resp_values)
qed

lemma range_store_options_loop_resp: "wp (range_store_options_loop args i fl) is_resp_value"
proof (induction args i fl rule: range_store_options_loop.induct)
  case (1 args i fl)
  then show ?case
    by (subst range_store_options_loop.simps) (auto simp: wp_rules resp_values)
qed

lemma zadd_flags_loop_resp:
  "wp (zadd_flags_loop args i fl) (\<lambda>r. case r of Inl reply \<Rightarrow> is_resp_value reply | Inr _ \<Rightarrow> True)"
proof (induction args i fl rule: zadd_flags_loop.induct)
  case (1 args i fl)
  then show ?case
    by (subst zadd_flags_loop.simps) (auto simp: wp_rules resp_values)
qed

lemmas option_loops_resp = set_options_loop_resp scan_options_loop_resp copy_options_loop_resp
  sort_options_loop_resp store_options_loop_resp zrange_options_loop_resp range_store_options_loop_resp

lemma simple_responses_resp:
  "wp (set_response args) is_resp_value" "wp (scan_response args) is_resp_value"
  "wp (copy_response args) is_resp_value" "wp (sort_response args b) is_resp_value"
  "wp (sorted_set_range_response args ''zrange'') is_resp_value"
  "wp (sorted_set_range_response args ''zrevrange'') is_resp_value"
  "wp (sorted_set_range_store_response args) is_resp_value"
  "no_crlf (bstr c) \<Longrightarrow> wp (sorted_set_store_with_options_response args c) is_resp_value"
  unfolding set_response_def scan_response_def copy_response_def sort_response_def
    sorted_set_range_response_def sorted_set_range_store_response_def
    sorted_set_store_with_options_response_def
  by (auto simp: wp_rules resp_values option_loops_resp no_crlf_bstr split: list.split)

lemma sorted_set_add_resp: "wp (sorted_set_add_response args) is_resp_value"
  unfolding sorted_set_add_response_def
  by (auto simp: wp_rules resp_values no_crlf_bstr Let_def split: sum.split
      intro!: wp_call [OF zadd_flags_loop_resp])

text \<open>Arrays of pairs, as \<open>PUBSUB NUMSUB\<close> and \<open>CONFIG GET\<close> write them.\<close>

lemma is_resp_pairs:
  assumes "\<forall>x \<in> set xs. resp_ok 1 (f x) \<and> resp_ok 1 (g x)" "n = length xs * 2"
    "\<And>x. part x = resp_encode (f x) @ resp_encode (g x)"
  shows "is_resp_value (bstr ''*'' @ show_dec n @ CRLF @ concat (map part xs))"
proof (rule is_resp_valueI)
  let ?vs = "concat (map (\<lambda>x. [f x, g x]) xs)"
  have "length ?vs = length xs * 2" by (induction xs) auto
  moreover have "concat (map resp_encode ?vs) = concat (map part xs)"
    unfolding assms(3) by (induction xs) auto
  ultimately show "bstr ''*'' @ show_dec n @ CRLF @ concat (map part xs) = resp_encode (Arr ?vs)"
    by (simp add: assms(2) bstr_def)
  show "resp_ok 2 (Arr ?vs)" using assms(1) by (auto simp: resp_ok_nested list_all_iff)
qed

lemma pubsub_resp: "length args \<le> 1024 \<Longrightarrow> wp (pubsub_response args) is_resp_value"
proof -
  assume "length args \<le> 1024"
  then have "is_resp_value (bstr ''*'' @ show_dec (min ((length args - 1) * 2) usize_max) @ CRLF
     @ concat (map (\<lambda>channel. bstr ''$'' @ show_dec (length channel) @ CRLF @ channel
         @ CRLF @ resp_line '':0'') (drop 1 args)))"
    by (intro is_resp_pairs [where f = Bulk and g = "\<lambda>_. Number (bstr ''0'')"])
      (auto simp: usize_max_def min_def bstr_def resp_line_def is_numeral_def is_ascii_digit_def)
  then show ?thesis
    unfolding pubsub_response_def
    by (auto simp: wp_rules resp_values no_crlf_bstr Let_def split: list.split)
qed

lemma config_resp: "wp (handle_config_command args) is_resp_value"
proof -
  have "is_resp_value (config_get_response pattern)" for pattern
    unfolding config_get_response_def Let_def
    by (rule is_resp_pairs [where f = "\<lambda>(k, v). Bulk (bstr k)" and g = "\<lambda>(k, v). Bulk (bstr v)"])
      (auto simp: bstr_def)
  then show ?thesis
    unfolding handle_config_command_def
    by (auto simp: wp_rules resp_values no_crlf_bstr Let_def)
qed

lemma argument_commands_resp:
  "length args \<le> 1024 \<Longrightarrow> (name, f) \<in> set argument_commands \<Longrightarrow> wp (f args) is_resp_value"
proof -
  assume "length args \<le> 1024"
  then have "list_all (\<lambda>(name, f). wp (f args) is_resp_value) argument_commands"
    unfolding argument_commands_def list.pred_inject case_prod_conv
    by (intro conjI TrueI; simp add: wp_rules resp_values no_crlf_bstr plain_reply_defs checked_reply_defs
        simple_responses_resp sorted_set_add_resp pubsub_resp config_resp split: list.split option.split)
  then show "(name, f) \<in> set argument_commands \<Longrightarrow> wp (f args) is_resp_value"
    by (auto simp: list_all_iff)
qed

end
