(* ===== verification/Redis_Session.thy ===== *)
theory Redis_Session
  imports Redis_Format
begin

text \<open>
  Connections of the Redis handler. Every command keeps the invariant of the connection state and answers
  with a RESP value; the theorems lift this to batches and to sessions of many batches, and show what a
  client can do before it has authenticated.
\<close>

section \<open>The state of a connection\<close>

text \<open>A name that a client has set: text without white space and control characters, so that the fields
  of the line that \<open>CLIENT LIST\<close> writes cannot be forged.\<close>

definition clean_name :: "bytes option \<Rightarrow> bool" where
  "clean_name nm =
     (case nm of
        None \<Rightarrow> True
      | Some v \<Rightarrow> utf8_decode v \<noteq> None
          \<and> list_all (\<lambda>ch. \<not> char_is_whitespace ch \<and> \<not> char_is_control ch) (chars v))"

definition redis_inv :: "redis_handler \<Rightarrow> bool" where
  "redis_inv h \<longleftrightarrow>
     clean_name (client_name h) \<and> clean_name (client_lib_name h) \<and> clean_name (client_lib_ver h)
     \<and> (resp_version h = 2 \<or> resp_version h = 3)
     \<and> length (tracking_prefixes h) \<le> MAX_CLIENT_TRACKING_PREFIXES
     \<and> list_all (\<lambda>p. length p \<le> MAX_CLIENT_TRACKING_PREFIX_BYTES) (tracking_prefixes h)
     \<and> sorted_wrt (\<lambda>p q. \<not> prefixes_overlap p q) (tracking_prefixes h)
     \<and> (tracking_bcast h \<longrightarrow> tracking_prefixes h \<noteq> [])
     \<and> \<not> (tracking_optin h \<and> tracking_optout h)
     \<and> (tracking_caching h = Some True \<longrightarrow> tracking_optin h)
     \<and> (tracking_caching h = Some False \<longrightarrow> tracking_optout h)
     \<and> tracking_redirect h = (if tracking_enabled h then 0 else -1)
     \<and> (\<not> tracking_enabled h \<longrightarrow>
          tracking_prefixes h = [] \<and> \<not> tracking_bcast h \<and> \<not> tracking_optin h \<and> \<not> tracking_optout h
          \<and> \<not> tracking_noloop h)
     \<and> \<not> tracking_broken_redir h"

lemma redis_inv_new: "redis_inv (with_auth redis_handler_new b)"
  by (simp add: redis_inv_def redis_handler_new_def with_auth_def clean_name_def)

lemma parse_redis_client_name_clean: "parse_redis_client_name v = Inr nm \<Longrightarrow> clean_name nm"
  by (auto simp: parse_redis_client_name_def clean_name_def from_utf8_Some_iff list_ex_iff list_all_iff
      split: if_splits option.splits)

lemma parse_redis_client_info_value_clean: "parse_redis_client_info_value v = Inr nm \<Longrightarrow> clean_name nm"
  by (auto simp: parse_redis_client_info_value_def clean_name_def from_utf8_Some_iff list_ex_iff
      list_all_iff chars_def split: if_splits option.splits)

subsection \<open>HELLO and AUTH\<close>

lemma handle_auth_resp: "is_resp_value (fst (handle_auth_command args a))"
  by (simp add: handle_auth_command_def resp_values)

lemma handle_auth_accepts:
  "fst (handle_auth_command args a) = resp_line ''+OK'' \<longleftrightarrow> auth_args_are_valid_bytes args"
  "snd (handle_auth_command args a) \<longleftrightarrow> a \<or> auth_args_are_valid_bytes args"
  by (simp_all add: handle_auth_command_def resp_line_def bstr_def)

lemma hello_options_loop_unfold:
  "hello_options_loop args i sa sn pn pa =
     (if i < length args then
        (case text_command (args ! i) of
           None \<Rightarrow> Some (Inl protocol_error)
         | Some opt \<Rightarrow>
             if to_ascii_uppercase opt = bstr ''AUTH'' then
               if sa then Some (Inl syntax_error)
               else if i + 2 \<ge> length args then Some (Inl (wrong_number_of_arguments ''hello''))
               else if auth_args_are_valid_bytes [args ! (i + 1), args ! (i + 2)]
               then hello_options_loop args (i + 3) True sn pn True
               else Some (Inl (resp_line ''-ERR wrong number of arguments for 'auth' command''))
             else if to_ascii_uppercase opt = bstr ''SETNAME'' then
               if sn then Some (Inl syntax_error)
               else if i + 1 \<ge> length args then Some (Inl (wrong_number_of_arguments ''hello''))
               else (case parse_redis_client_name (args ! (i + 1)) of
                       Inr nm \<Rightarrow> hello_options_loop args (i + 2) sa True (Some nm) pa
                     | Inl _ \<Rightarrow> Some (Inl (resp_line ''-ERR invalid client name'')))
             else Some (Inl syntax_error))
      else Some (Inr (sa, pn, pa)))"
  by (subst hello_options_loop.simps)
    (auto simp: handle_auth_command_def resp_line_def bstr_def idx_def Let_def split: option.split)

lemma hello_options_loop_wp:
  "(sa \<longrightarrow> pa) \<Longrightarrow> (\<forall>nm. pn = Some nm \<longrightarrow> clean_name nm) \<Longrightarrow>
   wp (hello_options_loop args i sa sn pn pa)
     (\<lambda>r. case r of
            Inl reply \<Rightarrow> is_resp_value reply
          | Inr (sa', pn', pa') \<Rightarrow> (sa' \<longrightarrow> pa') \<and> (\<forall>nm. pn' = Some nm \<longrightarrow> clean_name nm))"
proof (induction "length args - i" arbitrary: i sa sn pn pa rule: less_induct)
  case less
  have "wp (hello_options_loop args (i + 3) True sn pn True) (\<lambda>r. case r of Inl reply \<Rightarrow> is_resp_value reply
      | Inr (sa', pn', pa') \<Rightarrow> (sa' \<longrightarrow> pa') \<and> (\<forall>nm. pn' = Some nm \<longrightarrow> clean_name nm))"
    if "i < length args"
    using that less.prems by (intro less.hyps) auto
  moreover have "wp (hello_options_loop args (i + 2) sa True (Some nm) pa) (\<lambda>r. case r of Inl reply \<Rightarrow> is_resp_value reply
      | Inr (sa', pn', pa') \<Rightarrow> (sa' \<longrightarrow> pa') \<and> (\<forall>nm. pn' = Some nm \<longrightarrow> clean_name nm))"
    if "i < length args" "clean_name nm" for nm
    using that less.prems by (intro less.hyps) auto
  ultimately show ?case
    using less.prems
    by (subst hello_options_loop_unfold)
      (auto simp: wp_rules resp_values no_crlf_bstr split: sum.split option.split
        dest: parse_redis_client_name_clean)
qed

lemma hello_payload_resp: "is_resp_value (hello_payload version resp)"
proof -
  define vs where "vs n = [Bulk (bstr ''server''), Bulk (bstr ''redis''), Bulk (bstr ''version''), Bulk version,
    Bulk (bstr ''proto''), Number (bstr n), Bulk (bstr ''id''), Number (bstr ''1''), Bulk (bstr ''mode''),
    Bulk (bstr ''standalone''), Bulk (bstr ''role''), Bulk (bstr ''master''), Bulk (bstr ''modules''), Arr []]" for n
  have ok: "resp_ok 2 (Dict (vs ''3''))" "resp_ok 2 (Arr (vs ''2''))"
    unfolding resp_ok_nested by (simp_all add: vs_def is_numeral_def bstr_def is_ascii_digit_def)
  have "hello_payload version resp = resp_encode (if resp = 3 then Dict (vs ''3'') else Arr (vs ''2''))"
    by (simp add: hello_payload_def vs_def resp_line_def bstr_def show_dec.simps)
  with ok show ?thesis by (auto simp: is_resp_value_def)
qed

text \<open>What every command promises: it does not panic, it keeps the invariant and the settings, and its
  answer is a RESP value (or nothing, for the two modes of \<open>CLIENT REPLY\<close> that switch answers off).\<close>

definition keeps_session :: "redis_handler \<Rightarrow> redis_handler \<Rightarrow> bool" where
  "keeps_session h h1 \<longleftrightarrow> redis_inv h1 \<and> require_auth h1 = require_auth h \<and> rh_version h1 = rh_version h"

lemma keeps_session_refl: "redis_inv h \<Longrightarrow> keeps_session h h"
  by (simp add: keeps_session_def)

lemma hello_version_cases:
  "hello_version args pv = Inl reply \<Longrightarrow> is_resp_value reply"
  "hello_version args pv = Inr v \<Longrightarrow> v = 2 \<or> v = 3"
  by (auto simp: hello_version_def resp_values no_crlf_bstr split: if_splits)

lemma keeps_session_hello:
  assumes "redis_inv h" "v = 2 \<or> v = 3" "\<forall>nm. pn = Some nm \<longrightarrow> clean_name nm"
  shows "keeps_session h ((case pn of None \<Rightarrow> h | Some nm \<Rightarrow> h\<lparr>client_name := nm\<rparr>)\<lparr>resp_version := v\<rparr>)"
  using assms by (auto simp: keeps_session_def redis_inv_def split: option.split)

lemma hello_response_ok:
  assumes "redis_inv h"
  shows "wp (hello_response h args a) (\<lambda>(reply, h1, _). is_resp_value reply \<and> keeps_session h h1)"
proof (cases args)
  case Nil
  with assms show ?thesis
    by (simp add: hello_response_def wp_rules hello_payload_resp keeps_session_refl)
next
  case (Cons pv rest)
  obtain r where r: "hello_options_loop args 1 False False None a = Some r"
    and rok: "case r of Inl reply \<Rightarrow> is_resp_value reply
      | Inr (sa, pn, pa) \<Rightarrow> (sa \<longrightarrow> pa) \<and> (\<forall>nm. pn = Some nm \<longrightarrow> clean_name nm)"
    using hello_options_loop_wp [of False a None args 1 False] by (auto simp: wp_def)
  consider "text_command pv = None" | t reply where "text_command pv = Some t" "hello_version args t = Inl reply"
    | t v where "text_command pv = Some t" "hello_version args t = Inr v"
    by (cases "text_command pv"; cases "hello_version args (the (text_command pv))") auto
  then show ?thesis
  proof cases
    case 1
    with Cons assms show ?thesis by (simp add: hello_response_def wp_rules resp_values keeps_session_refl)
  next
    case 2
    with Cons assms hello_version_cases(1) [OF 2(2)] show ?thesis
      by (simp add: hello_response_def wp_rules keeps_session_refl)
  next
    case 3
    then have v: "v = 2 \<or> v = 3" by (auto dest: hello_version_cases(2))
    show ?thesis
      using 3 Cons r rok keeps_session_hello [OF assms v] assms
      by (cases r) (auto simp: hello_response_def wp_Some Let_def hello_payload_resp keeps_session_refl)
  qed
qed

subsection \<open>CLIENT\<close>

lemma tracking_options_loop_wp:
  "\<not> (to_optin o1 \<and> to_optout o1) \<Longrightarrow> to_redirect o1 = 0 \<Longrightarrow>
   list_all (\<lambda>p. length p \<le> MAX_CLIENT_TRACKING_PREFIX_BYTES) (to_prefixes o1) \<Longrightarrow>
   wp (tracking_options_loop options i o1)
     (\<lambda>r. case r of
            Inl reply \<Rightarrow> is_resp_value reply
          | Inr o2 \<Rightarrow> \<not> (to_optin o2 \<and> to_optout o2) \<and> to_redirect o2 = 0
              \<and> list_all (\<lambda>p. length p \<le> MAX_CLIENT_TRACKING_PREFIX_BYTES) (to_prefixes o2))"
proof (induction options i o1 rule: tracking_options_loop.induct)
  case (1 options i o1)
  show ?case
    using 1
    by (subst tracking_options_loop.simps) (auto simp: wp_rules resp_values no_crlf_bstr)
qed

lemma merge_prefixes_ok:
  assumes "sorted_wrt (\<lambda>p q. \<not> prefixes_overlap p q) merged" "length merged \<le> MAX_CLIENT_TRACKING_PREFIXES"
  shows "case merge_prefixes merged ps of
      Inl reply \<Rightarrow> is_resp_value reply
    | Inr result \<Rightarrow> sorted_wrt (\<lambda>p q. \<not> prefixes_overlap p q) result
        \<and> length result \<le> MAX_CLIENT_TRACKING_PREFIXES \<and> result = merged @ ps"
  using assms
proof (induction ps arbitrary: merged)
  case (Cons p ps)
  show ?case
  proof (cases "list_ex (\<lambda>existing. prefixes_overlap existing p) merged \<or> length merged \<ge> MAX_CLIENT_TRACKING_PREFIXES")
    case True
    then show ?thesis by (auto simp: resp_values)
  next
    case False
    with Cons.IH [of "merged @ [p]"] Cons.prems show ?thesis
      by (auto simp: sorted_wrt_append list_ex_iff split: sum.splits)
  qed
qed simp

lemma bcast_prefixes_ok:
  assumes "sorted_wrt (\<lambda>p q. \<not> prefixes_overlap p q) existing" "length existing \<le> MAX_CLIENT_TRACKING_PREFIXES"
    and "list_all (\<lambda>p. length p \<le> MAX_CLIENT_TRACKING_PREFIX_BYTES) (existing @ ps)"
  shows "case bcast_prefixes existing ps of
      Inl reply \<Rightarrow> is_resp_value reply
    | Inr result \<Rightarrow> sorted_wrt (\<lambda>p q. \<not> prefixes_overlap p q) result
        \<and> length result \<le> MAX_CLIENT_TRACKING_PREFIXES \<and> result \<noteq> []
        \<and> list_all (\<lambda>p. length p \<le> MAX_CLIENT_TRACKING_PREFIX_BYTES) result"
proof (cases "merge_prefixes existing ps")
  case (Inl reply)
  with merge_prefixes_ok [OF assms(1, 2), of ps] show ?thesis
    by (simp add: bcast_prefixes_def resp_values)
next
  case (Inr result)
  with merge_prefixes_ok [OF assms(1, 2), of ps] assms(3) show ?thesis
    by (auto simp: bcast_prefixes_def resp_values Let_def MAX_CLIENT_TRACKING_PREFIXES_def)
qed

text \<open>The two branches of \<open>CLIENT TRACKING\<close> that change the handler.\<close>

definition tracking_on :: "redis_handler \<Rightarrow> tracking_options \<Rightarrow> bytes list \<Rightarrow> redis_handler" where
  "tracking_on h o1 prefixes =
     h\<lparr>tracking_prefixes := prefixes, tracking_enabled := True,
       tracking_bcast := to_bcast o1, tracking_optin := to_optin o1,
       tracking_optout := to_optout o1, tracking_noloop := to_noloop o1,
       tracking_redirect := to_redirect o1, tracking_caching := None, tracking_broken_redir := False\<rparr>"

lemma keeps_session_on:
  assumes "redis_inv h" "\<not> (to_optin o1 \<and> to_optout o1)" "to_redirect o1 = 0"
    and "sorted_wrt (\<lambda>p q. \<not> prefixes_overlap p q) ps" "length ps \<le> MAX_CLIENT_TRACKING_PREFIXES"
    and "to_bcast o1 \<longrightarrow> ps \<noteq> []" "list_all (\<lambda>p. length p \<le> MAX_CLIENT_TRACKING_PREFIX_BYTES) ps"
  shows "keeps_session h (tracking_on h o1 ps)"
  using assms by (simp add: keeps_session_def redis_inv_def tracking_on_def)

lemma keeps_session_off:
  assumes "redis_inv h"
  shows "keeps_session h (h\<lparr>tracking_enabled := False, tracking_bcast := False, tracking_optin := False,
    tracking_optout := False, tracking_noloop := False, tracking_redirect := -1,
    tracking_prefixes := [], tracking_caching := None, tracking_broken_redir := False\<rparr>)"
  using assms by (simp add: keeps_session_def redis_inv_def)

lemma client_tracking_ok:
  assumes "redis_inv h"
  shows "wp (client_tracking_response h rest) (\<lambda>(reply, h1). is_resp_value reply \<and> keeps_session h h1)"
proof (cases rest)
  case Nil
  with assms show ?thesis
    by (simp add: client_tracking_response_def wp_rules resp_values no_crlf_bstr keeps_session_refl)
next
  case (Cons mode options)
  let ?o = "\<lparr>to_bcast = False, to_optin = False, to_optout = False, to_noloop = False, to_redirect = 0,
    to_prefixes = []\<rparr>"
  have on: "wp (do {
      r \<leftarrow> tracking_options_loop options 0 ?o;
      case r of
        Inl reply \<Rightarrow> Some (reply, h)
      | Inr o1 \<Rightarrow>
          (case (if to_bcast o1 then bcast_prefixes (tracking_prefixes h) (to_prefixes o1)
                 else Inr (tracking_prefixes h)) of
             Inl reply \<Rightarrow> Some (reply, h)
           | Inr prefixes \<Rightarrow> Some (resp_line ''+OK'', tracking_on h o1 prefixes)) })
      (\<lambda>(reply, h1). is_resp_value reply \<and> keeps_session h h1)" (is "wp ?prog ?post")
  proof -
    obtain r where r: "tracking_options_loop options 0 ?o = Some r"
      and rok: "case r of Inl reply \<Rightarrow> is_resp_value reply
        | Inr o2 \<Rightarrow> \<not> (to_optin o2 \<and> to_optout o2) \<and> to_redirect o2 = 0
            \<and> list_all (\<lambda>p. length p \<le> MAX_CLIENT_TRACKING_PREFIX_BYTES) (to_prefixes o2)"
      using tracking_options_loop_wp [of ?o options 0] by (auto simp: wp_def)
    show ?thesis
    proof (cases r)
      case (Inl reply)
      with r rok assms show ?thesis by (simp add: wp_Some keeps_session_refl)
    next
      case (Inr o2)
      have bc: "case bcast_prefixes (tracking_prefixes h) (to_prefixes o2) of
          Inl reply \<Rightarrow> is_resp_value reply
        | Inr result \<Rightarrow> sorted_wrt (\<lambda>p q. \<not> prefixes_overlap p q) result
            \<and> length result \<le> MAX_CLIENT_TRACKING_PREFIXES \<and> result \<noteq> []
            \<and> list_all (\<lambda>p. length p \<le> MAX_CLIENT_TRACKING_PREFIX_BYTES) result"
        using assms rok Inr by (intro bcast_prefixes_ok) (simp_all add: redis_inv_def)
      show ?thesis
      proof (cases "to_bcast o2")
        case True
        with bc r rok Inr assms keeps_session_on [OF assms, of o2] show ?thesis
          by (cases "bcast_prefixes (tracking_prefixes h) (to_prefixes o2)")
            (simp_all add: wp_Some keeps_session_refl resp_values)
      next
        case False
        with r rok Inr assms keeps_session_on [OF assms, of o2 "tracking_prefixes h"] show ?thesis
          by (simp add: wp_Some resp_values redis_inv_def)
      qed
    qed
  qed
  show ?thesis
    unfolding client_tracking_response_def Cons list.case tracking_on_def [symmetric] wp_let_else wp_if
    using on assms
    by (simp add: wp_Some resp_values no_crlf_bstr keeps_session_refl keeps_session_off)
qed

lemma resp_bulk_encode: "resp_bulk_string v = resp_encode (Bulk v)" "resp_bulk_array vs = resp_encode (Arr (map Bulk vs))"
proof -
  have "concat (map (\<lambda>v. bstr ''$'' @ show_dec (length v) @ CRLF @ v @ CRLF) vs) =
      concat (map resp_encode (map Bulk vs))"
    by (induction vs) (simp_all add: bstr_def)
  then show "resp_bulk_array vs = resp_encode (Arr (map Bulk vs))"
    by (simp add: resp_bulk_array_def bstr_def)
qed (simp add: resp_bulk_string_def bstr_def)

lemma tracking_info_resp: "is_resp_value (client_tracking_info_payload h)"
proof -
  obtain flags where payload: "client_tracking_info_payload h =
      (if resp_version h \<ge> 3 then resp_line ''%3'' else resp_line ''*6'')
       @ resp_bulk_string (bstr ''flags'') @ resp_bulk_array flags
       @ resp_bulk_string (bstr ''redirect'') @ bstr '':'' @ show_int (tracking_redirect h) @ CRLF
       @ resp_bulk_string (bstr ''prefixes'') @ resp_bulk_array (tracking_prefixes h)"
    unfolding client_tracking_info_payload_def Let_def by blast
  define vs where "vs = [Bulk (bstr ''flags''), Arr (map Bulk flags), Bulk (bstr ''redirect''),
    Number (show_int (tracking_redirect h)), Bulk (bstr ''prefixes''), Arr (map Bulk (tracking_prefixes h))]"
  have "resp_ok 2 (Dict vs)" "resp_ok 2 (Arr vs)"
    unfolding resp_ok_nested
    by (simp_all add: vs_def is_numeral_show_int list_all_iff)
  moreover have "resp_line ''%3'' @ concat (map resp_encode vs) = resp_encode (Dict vs)"
    "resp_line ''*6'' @ concat (map resp_encode vs) = resp_encode (Arr vs)"
    by (simp_all add: vs_def resp_line_def bstr_def show_dec.simps)
  moreover have "client_tracking_info_payload h =
      (if resp_version h \<ge> 3 then resp_line ''%3'' else resp_line ''*6'') @ concat (map resp_encode vs)"
    unfolding payload vs_def resp_bulk_encode by (simp add: bstr_def)
  ultimately show ?thesis by (auto simp: is_resp_value_def)
qed

lemma client_payload_resp: "is_resp_value (client_payload_of command h)"
  by (simp add: client_payload_of_def resp_values Let_def)

definition reply_ok :: "bytes \<Rightarrow> bool" where
  "reply_ok reply \<longleftrightarrow> reply = [] \<or> is_resp_value reply"

text \<open>What a part of \<open>CLIENT\<close> that cannot panic promises.\<close>

definition client_ok :: "redis_handler \<Rightarrow> bytes \<times> redis_handler \<Rightarrow> bool" where
  "client_ok h r \<longleftrightarrow> reply_ok (fst r) \<and> keeps_session h (snd r)"

lemmas client_ok_defs = client_ok_def reply_ok_def keeps_session_def redis_inv_def

lemma client_setname_ok: "redis_inv h \<Longrightarrow> client_ok h (client_setname_response h rest)"
  by (auto simp: client_setname_response_def client_ok_defs resp_values no_crlf_bstr
      split: list.split sum.split dest: parse_redis_client_name_clean)

lemma client_setinfo_ok: "redis_inv h \<Longrightarrow> client_ok h (client_setinfo_response h rest)"
  by (auto simp: client_setinfo_response_def client_ok_defs resp_values no_crlf_bstr Let_def
      split: list.split sum.split option.split dest: parse_redis_client_info_value_clean)

lemma client_reply_ok: "redis_inv h \<Longrightarrow> client_ok h (client_reply_response h rest)"
  by (auto simp: client_reply_response_def client_ok_defs resp_values no_crlf_bstr Let_def
      split: list.split option.split)

lemma client_caching_ok: "redis_inv h \<Longrightarrow> client_ok h (client_caching_response h mode)"
  by (auto simp: client_caching_response_def client_ok_defs resp_values Let_def)

lemma client_flag_ok:
  assumes "redis_inv h" "\<forall>b. keeps_session h (set_flag b)" "no_crlf (bstr c)" "is_resp_value (resp_line m)"
  shows "client_ok h (client_flag_response h rest c m set_flag)"
  using assms
  by (auto simp: client_flag_response_def client_ok_def reply_ok_def keeps_session_refl resp_values Let_def
      split: list.split option.split)

lemma client_getname_ok:
  "is_resp_value (case client_name h of
     Some name \<Rightarrow> bstr ''$'' @ show_dec (length name) @ CRLF @ name @ CRLF | None \<Rightarrow> resp_line ''$-1'')"
  by (simp add: resp_values split: option.split)

lemma resp_reply: "is_resp_value reply \<Longrightarrow> reply_ok reply"
  by (simp add: reply_ok_def)

definition client_help_call :: "bytes list \<Rightarrow> bool" where
  "client_help_call args =
     (case args of
        [sub] \<Rightarrow>
          (case text_command sub of None \<Rightarrow> False | Some t \<Rightarrow> to_ascii_uppercase t = bstr ''HELP'')
      | _ \<Rightarrow> False)"

lemma mode_lines: "is_resp_value (resp_line ''-ERR invalid CLIENT NO-EVICT mode'')"
  "is_resp_value (resp_line ''-ERR invalid CLIENT NO-TOUCH mode'')"
  by (rule is_resp_line, simp add: line_ok_eval)+

lemma client_response_ok:
  assumes "redis_inv h"
  shows "wp (client_response h args)
    (\<lambda>r. (\<not> client_help_call args \<longrightarrow> reply_ok (fst r)) \<and> keeps_session h (snd r))"
proof (cases args)
  case Nil
  with assms show ?thesis
    by (simp add: client_response_def wp_Some reply_ok_def keeps_session_refl resp_values no_crlf_bstr)
next
  case (Cons sub rest)
  have flags: "\<forall>b. keeps_session h (h\<lparr>client_no_evict := b\<rparr>)" "\<forall>b. keeps_session h (h\<lparr>client_no_touch := b\<rparr>)"
    using assms by (simp_all add: keeps_session_def redis_inv_def)
  have tracking: "wp (client_tracking_response h rest) (\<lambda>r. (\<not> b \<longrightarrow> reply_ok (fst r)) \<and> keeps_session h (snd r))" for b
    by (rule wp_call [OF client_tracking_ok [OF assms]]) (auto simp: reply_ok_def)
  have caching: "client_ok h (case rest of
      [mode_arg] \<Rightarrow> (case text_command mode_arg of
         None \<Rightarrow> (protocol_error, h) | Some mode \<Rightarrow> client_caching_response h mode)
    | _ \<Rightarrow> (wrong_number_of_arguments ''client|caching'', h))"
    using client_caching_ok [OF assms] assms
    by (simp add: client_ok_def reply_ok_def keeps_session_refl resp_values no_crlf_bstr split: list.split option.split)
  note parts = client_setname_ok [OF assms, of rest] client_setinfo_ok [OF assms, of rest]
    client_reply_ok [OF assms, of rest] caching
    client_flag_ok [OF assms flags(1) _ mode_lines(1), of "''client|no-evict''" rest]
    client_flag_ok [OF assms flags(2) _ mode_lines(2), of "''client|no-touch''" rest]
  have help_reply: "(\<not> client_help_call (sub # rest) \<longrightarrow>
      reply_ok (if rest = [] then client_help else wrong_number_of_arguments ''client|help'')) \<and> keeps_session h h"
    if "text_command sub = Some t" "to_ascii_uppercase t = bstr ''HELP''" for t
    using that assms by (simp add: client_help_call_def reply_ok_def keeps_session_refl resp_values no_crlf_bstr split: list.split)
  show ?thesis
    unfolding client_response_def Cons list.case wp_let_else Let_def wp_if wp_Some
    using parts help_reply
    by (simp add: client_ok_def tracking keeps_session_refl [OF assms] resp_reply resp_values no_crlf_bstr
        tracking_info_resp client_payload_resp client_getname_ok)
qed

section \<open>Commands and batches\<close>

lemma length_show_dec: "n < 10 ^ Suc k \<Longrightarrow> length (show_dec n) \<le> Suc k"
proof (induction k arbitrary: n)
  case (Suc k)
  then have "length (show_dec (n div 10)) \<le> Suc k" if "\<not> n < 10" using that by (intro Suc.IH) auto
  then show ?case by (subst show_dec.simps) simp
qed (simp add: show_dec.simps)

lemma time_response_resp:
  assumes "unat micros < 1000000"
  shows "is_resp_value (time_response args seconds micros)"
proof (cases "args = []")
  case True
  have "length (show_dec_06 (unat micros)) = 6"
    using length_show_dec [of "unat micros" 5] assms by (simp add: show_dec_06_def)
  then have "time_response args seconds micros =
      resp_encode (Arr [Bulk (show_int seconds), Bulk (show_dec_06 (unat micros))])"
    using True by (simp add: time_response_def resp_line_def bstr_def show_dec.simps)
  then show ?thesis by (rule is_resp_valueI) (simp add: resp_ok_nested)
qed (simp add: time_response_def resp_values no_crlf_bstr)

lemma info_response_resp: "is_resp_value (info_response version uptime args)"
  by (auto simp: info_response_def resp_values no_crlf_bstr Let_def split: option.split)

lemma reset_ok:
  assumes "redis_inv h"
  shows "is_resp_value (fst (handle_reset_command h a args))"
    "keeps_session h (fst (snd (handle_reset_command h a args)))"
  using assms
  by (auto simp: handle_reset_command_def resp_values no_crlf_bstr keeps_session_def redis_inv_def clean_name_def)

lemma find_member: "List.find P xs = Some x \<Longrightarrow> x \<in> set xs"
  by (auto simp: find_Some_iff)

text \<open>The answer of a command is a RESP value when \<open>b\<close> holds; the connection state is kept in any case.\<close>

definition command_ok :: "bool \<Rightarrow> redis_handler \<Rightarrow> bytes \<times> redis_handler \<times> bool \<Rightarrow> bool" where
  "command_ok b h r \<longleftrightarrow> (b \<longrightarrow> reply_ok (fst r)) \<and> keeps_session h (fst (snd r))"

text \<open>The conditions on a command for its answer: the clock is not inside a leap second, and the command
  is not \<open>CLIENT HELP\<close>.\<close>

definition regular_command :: "redis_clock \<Rightarrow> nat \<Rightarrow> bytes \<Rightarrow> bytes list \<Rightarrow> bool" where
  "regular_command clk k cmd args \<longleftrightarrow>
     unat (rc_micros clk k) < 1000000 \<and> \<not> (cmd = bstr ''CLIENT'' \<and> client_help_call args)"

lemma redis_command_ok:
  assumes inv: "redis_inv h" and len: "length args \<le> 1024"
  shows "wp (redis_command clk k h a cmd args) (command_ok (regular_command clk k cmd args) h)"
proof -
  have client: "wp (client_response h args \<bind> (\<lambda>(reply, h1). Some (reply, h1, a)))
      (command_ok (regular_command clk k (bstr ''CLIENT'') args) h)"
    unfolding wp_bind
    by (rule wp_call [OF client_response_ok [OF inv]])
      (auto simp: wp_Some command_ok_def regular_command_def split: prod.split)
  have hello: "wp (hello_response h args a) (command_ok b h)" for b
    by (rule wp_call [OF hello_response_ok [OF inv]]) (auto simp: reply_ok_def command_ok_def)
  have other: "wp (f args \<bind> (\<lambda>reply. Some (reply, h, a))) (command_ok b h)"
    if "(name, f) \<in> set argument_commands" for name f b
    unfolding wp_bind
    by (rule wp_call [OF argument_commands_resp [OF len that]])
      (simp add: wp_Some reply_ok_def keeps_session_refl inv command_ok_def)
  have auth: "wp (case handle_auth_command args a of (reply, auth) \<Rightarrow> Some (reply, h, auth)) (command_ok b h)" for b
    using handle_auth_resp [of args a] inv
    by (auto simp: wp_Some command_ok_def keeps_session_refl resp_reply split: prod.splits)
  have quit: "keeps_session h (h\<lparr>rh_state := Redis_Disconnected\<rparr>)"
    using inv by (simp add: keeps_session_def redis_inv_def)
  have table: "wp (case List.find (\<lambda>(name, _). cmd = bstr name) argument_commands of
      Some (_, f) \<Rightarrow> f args \<bind> (\<lambda>reply. Some (reply, h, a))
    | None \<Rightarrow> Some (resp_line ''-ERR unknown command'', h, a)) (command_ok b h)" for b
  proof (cases "List.find (\<lambda>(name, _). cmd = bstr name) argument_commands")
    case None
    with inv show ?thesis by (simp add: wp_Some command_ok_def resp_reply resp_values keeps_session_refl)
  next
    case (Some nf)
    then obtain name f where "nf = (name, f)" "(name, f) \<in> set argument_commands"
      using find_member [OF Some] by (cases nf) auto
    with Some other [of name f b] show ?thesis by simp
  qed
  show ?thesis
    unfolding redis_command_def
    by (simp add: wp_if hello client auth table)
      (simp add: wp_Some command_ok_def resp_reply resp_values no_crlf_bstr keeps_session_refl inv quit reset_ok
        info_response_resp time_response_resp regular_command_def)
qed

definition is_client_help :: "bytes list \<Rightarrow> bool" where
  "is_client_help parts =
     (case parts of
        [] \<Rightarrow> False
      | c # args \<Rightarrow>
          (case text_command c of
             None \<Rightarrow> False
           | Some t \<Rightarrow> str_to_uppercase t = bstr ''CLIENT'' \<and> client_help_call args))"

definition regular_parts :: "redis_clock \<Rightarrow> nat \<Rightarrow> bytes list \<Rightarrow> bool" where
  "regular_parts clk k parts \<longleftrightarrow> unat (rc_micros clk k) < 1000000 \<and> \<not> is_client_help parts"

text \<open>What one iteration of the batch promises.\<close>

definition step_ok :: "bool \<Rightarrow> redis_handler \<Rightarrow> bytes \<times> bool \<times> redis_handler \<times> bool \<Rightarrow> bool" where
  "step_ok b h r =
     (case r of (out, replied, h1, _) \<Rightarrow>
        keeps_session h h1 \<and> (b \<longrightarrow> (if replied then is_resp_value out else out = [])))"

lemma keeps_session_updates:
  "keeps_session h h1 \<Longrightarrow> keeps_session h (h1\<lparr>tracking_caching := None\<rparr>)"
  "keeps_session h h1 \<Longrightarrow> keeps_session h (h1\<lparr>reply_mode := m\<rparr>)"
  by (simp_all add: keeps_session_def redis_inv_def)

lemma redis_step_ok:
  assumes inv: "redis_inv h" and parts: "command_in_limits parts"
  shows "wp (redis_step clk k h a parts) (step_ok (regular_parts clk k parts) h)"
proof -
  obtain c args where cons: "parts = c # args" using parts by (cases parts) (auto simp: command_in_limits_def)
  with parts have len: "length args \<le> 1024" by (simp add: command_in_limits_def)
  show ?thesis
  proof (cases "text_command c")
    case None
    with cons inv show ?thesis
      by (simp add: redis_step_def wp_Some step_ok_def keeps_session_refl resp_values)
  next
    case (Some t)
    let ?cmd = "str_to_uppercase t"
    have regular: "regular_parts clk k parts \<longleftrightarrow> regular_command clk k ?cmd args"
      using Some cons by (simp add: regular_parts_def regular_command_def is_client_help_def)
    obtain reply h1 a1 where run: "redis_command clk k h a ?cmd args = Some (reply, h1, a1)"
      and ok: "command_ok (regular_command clk k ?cmd args) h (reply, h1, a1)"
      using redis_command_ok [OF inv len, of clk k a ?cmd] by (auto simp: wp_def)
    from ok Some cons inv run regular show ?thesis
      by (auto simp: redis_step_def wp_Some step_ok_def keeps_session_refl resp_values Let_def command_ok_def
          reply_ok_def keeps_session_updates)
  qed
qed

lemma keeps_session_trans: "keeps_session h h1 \<Longrightarrow> keeps_session h1 h2 \<Longrightarrow> keeps_session h h2"
  by (simp add: keeps_session_def)

lemma keeps_session_inv: "keeps_session h h1 \<Longrightarrow> redis_inv h1"
  by (simp add: keeps_session_def)

text \<open>A batch answers with at most one value per command.\<close>

definition batch_ok ::
    "bool \<Rightarrow> redis_handler \<Rightarrow> nat \<Rightarrow> bytes \<Rightarrow> bool \<Rightarrow> bytes \<times> bool \<times> bool \<times> redis_handler \<times> bool \<Rightarrow> bool" where
  "batch_ok b h n response saw_reply r =
     (case r of (response', _, saw_reply', h1, _) \<Rightarrow>
        keeps_session h h1
        \<and> (b \<longrightarrow> (\<exists>vs. list_all (resp_ok 2) vs \<and> length vs \<le> n
             \<and> response' = response @ concat (map resp_encode vs) \<and> saw_reply' = (saw_reply \<or> vs \<noteq> []))))"

definition regular_batch :: "redis_clock \<Rightarrow> bytes list list \<Rightarrow> bool" where
  "regular_batch clk cmds \<longleftrightarrow> (\<forall>k. unat (rc_micros clk k) < 1000000) \<and> \<not> list_ex is_client_help cmds"

lemma batch_ok_step:
  assumes "step_ok b h (out, replied, h1, a1)" "batch_ok b h1 n (response @ out) (sr \<or> replied) r"
  shows "batch_ok b h (Suc n) response sr r"
proof -
  obtain response' sc' sr' h2 a2 where r: "r = (response', sc', sr', h2, a2)" by (cases r) auto
  from assms r have keep: "keeps_session h h2"
    by (auto simp: step_ok_def batch_ok_def intro: keeps_session_trans)
  have "\<exists>ws. list_all (resp_ok 2) ws \<and> length ws \<le> Suc n
      \<and> response' = response @ concat (map resp_encode ws) \<and> sr' = (sr \<or> ws \<noteq> [])" if b
  proof -
    from assms(2) r that obtain vs where vs: "list_all (resp_ok 2) vs" "length vs \<le> n"
      "response' = (response @ out) @ concat (map resp_encode vs)" "sr' = ((sr \<or> replied) \<or> vs \<noteq> [])"
      by (auto simp: batch_ok_def)
    show ?thesis
    proof (cases replied)
      case True
      with assms(1) that obtain v where "resp_ok 2 v" "out = resp_encode v"
        by (auto simp: step_ok_def is_resp_value_def)
      with vs True show ?thesis by (intro exI [of _ "v # vs"]) simp
    next
      case False
      with assms(1) that vs show ?thesis by (intro exI [of _ vs]) (simp add: step_ok_def)
    qed
  qed
  with keep r show ?thesis by (simp add: batch_ok_def)
qed

lemma step_ok_mono: "step_ok b h r \<Longrightarrow> (b' \<longrightarrow> b) \<Longrightarrow> step_ok b' h r"
  by (auto simp: step_ok_def split: prod.splits)

lemma batch_ok_mono: "batch_ok b h n x sr r \<Longrightarrow> (b' \<longrightarrow> b) \<Longrightarrow> batch_ok b' h n x sr r"
  by (auto simp: batch_ok_def split: prod.splits)

lemma redis_batch_ok:
  assumes "redis_inv h" "list_all command_in_limits cmds"
  shows "wp (redis_batch clk k cmds h a response sc sr)
    (batch_ok (regular_batch clk cmds) h (length cmds) response sr)"
  using assms
proof (induction cmds arbitrary: k h a response sc sr)
  case Nil
  then show ?case by (simp add: wp_Some batch_ok_def keeps_session_refl)
next
  case (Cons parts cmds)
  have stop: "batch_ok b h n response sr (response, sc, sr, h, a)" for b n
    using Cons.prems by (auto simp: batch_ok_def keeps_session_refl intro!: exI [of _ "[]"])
  obtain out replied h1 a1 where step: "redis_step clk k h a parts = Some (out, replied, h1, a1)"
    and ok: "step_ok (regular_parts clk k parts) h (out, replied, h1, a1)"
    using redis_step_ok [of h parts clk k a] Cons.prems by (auto simp: wp_def)
  from ok have inv1: "redis_inv h1" by (auto simp: step_ok_def keeps_session_def)
  then obtain r where rest: "redis_batch clk (Suc k) cmds h1 a1 (response @ out) True (sr \<or> replied) = Some r"
    and rok: "batch_ok (regular_batch clk cmds) h1 (length cmds) (response @ out) (sr \<or> replied) r"
    using Cons.IH [of h1 "Suc k" a1 "response @ out" True "sr \<or> replied"] Cons.prems by (auto simp: wp_def)
  have reg: "regular_batch clk (parts # cmds) \<Longrightarrow> regular_parts clk k parts \<and> regular_batch clk cmds"
    by (auto simp: regular_batch_def regular_parts_def)
  have "batch_ok (regular_batch clk (parts # cmds)) h (Suc (length cmds)) response sr r"
    using reg by (intro batch_ok_step [OF step_ok_mono [OF ok] batch_ok_mono [OF rok]]) auto
  with Cons.prems step rest stop show ?case
    by (simp add: wp_Some command_in_limits_def)
qed

section \<open>Properties\<close>


text \<open>Evaluation on ASCII input.\<close>

definition all_ascii :: "bytes \<Rightarrow> bool" where
  "all_ascii s \<longleftrightarrow> list_all (\<lambda>b. unat b < 128) s"

lemma ascii_text:
  assumes "all_ascii s"
  shows "utf8_decode s = Some (map unat s)" "text_command s = Some s" "str_to_uppercase s = to_ascii_uppercase s"
proof -
  show *: "utf8_decode s = Some (map unat s)"
    using assms by (intro utf8_decode_ascii) (simp add: all_ascii_def list_all_iff)
  then show "text_command s = Some s" by (simp add: text_command_def from_utf8_def)
  from assms have "concat (map char_uppercase (map unat s)) = map ascii_upper s"
    by (induction s) (simp_all add: all_ascii_def char_uppercase_def)
  with * show "str_to_uppercase s = to_ascii_uppercase s"
    by (simp add: str_to_uppercase_def chars_def to_ascii_uppercase_def)
qed

lemmas ascii_eval = ascii_text all_ascii_def bstr_def to_ascii_uppercase_def ascii_upper_def
  is_ascii_lowercase_def to_ascii_lowercase_def ascii_lower_def is_ascii_uppercase_def
  eq_ignore_ascii_case_def

lemma written_in_limits:
  "list_all command_in_limits cmds \<Longrightarrow> length cmds \<le> 1024 \<Longrightarrow>
   length (concat (map resp_bulk_array cmds)) \<le> 1048576 \<Longrightarrow>
   parse_resp (concat (map resp_bulk_array cmds)) = Some (Some cmds)"
  by (rule parse_resp_written) (simp_all add: MAX_RESP_COMMANDS_def MAX_RESP_FRAME_SIZE_def)

lemma written_ping: "parse_resp (resp_bulk_array [bstr ''PING'', [0x0D, 0x0A]]) = Some (Some [[bstr ''PING'', [0x0D, 0x0A]]])"
  using written_in_limits [of "[[bstr ''PING'', [0x0D, 0x0A]]]"]
  by (simp add: command_in_limits_def bstr_def resp_bulk_array_def CRLF_def show_dec.simps)

lemma ping_not_help: "\<not> is_client_help [bstr ''PING'', x]"
proof -
  have "str_to_uppercase (bstr ''PING'') \<noteq> bstr ''CLIENT''" "text_command (bstr ''PING'') = Some (bstr ''PING'')"
    by (simp_all add: ascii_eval)
  then show ?thesis by (simp add: is_client_help_def)
qed

lemma redis_inv_default: "redis_inv redis_handler_new"
  by (simp add: redis_inv_def redis_handler_new_def clean_name_def)


text \<open>A connection: a sequence of buffers, each with the clock at its time.\<close>

fun redis_session ::
    "(redis_clock \<times> bytes) list \<Rightarrow> redis_handler \<Rightarrow> bool \<Rightarrow> (bytes list \<times> redis_handler \<times> bool) rs" where
  "redis_session [] h a = Some ([], h, a)"
| "redis_session ((clk, data) # inputs) h a = do {
     (reply, h1, a1) \<leftarrow> handle_command_with_auth_state clk h data a;
     (replies, h2, a2) \<leftarrow> redis_session inputs h1 a1;
     Some (reply # replies, h2, a2) }"

lemma handle_command_keeps:
  assumes "redis_inv h"
  shows "wp (handle_command_with_auth_state clk h data a) (\<lambda>r. keeps_session h (fst (snd r)))"
proof -
  obtain parsed where parsed: "parse_resp data = Some parsed"
    and limits: "\<forall>cs. parsed = Some cs \<longrightarrow> list_all command_in_limits cs"
    using parse_resp_wp [of data] by (auto simp: wp_def)
  show ?thesis
  proof (cases parsed)
    case None
    with parsed assms show ?thesis
      by (simp add: handle_command_with_auth_state_def wp_Some keeps_session_refl)
  next
    case (Some cmds)
    with limits have "list_all command_in_limits cmds" by simp
    then obtain reply sc sr h1 a1 where "redis_batch clk 0 cmds h a [] False False = Some (reply, sc, sr, h1, a1)"
      and "keeps_session h h1"
      using redis_batch_ok [OF assms, of cmds clk 0 a "[]" False False] by (auto simp: wp_def batch_ok_def)
    with parsed Some assms show ?thesis
      by (simp add: handle_command_with_auth_state_def wp_Some keeps_session_refl)
  qed
qed

lemma redis_session_keeps:
  "redis_inv h \<Longrightarrow> wp (redis_session inputs h a) (\<lambda>r. keeps_session h (fst (snd r)))"
proof (induction inputs arbitrary: h a)
  case (Cons i inputs)
  obtain clk data where i: "i = (clk, data)" by (cases i)
  obtain reply h1 a1 where first: "handle_command_with_auth_state clk h data a = Some (reply, h1, a1)"
    "keeps_session h h1"
    using handle_command_keeps [OF Cons.prems, of clk data a] by (auto simp: wp_def)
  then obtain replies h2 a2 where "redis_session inputs h1 a1 = Some (replies, h2, a2)" "keeps_session h1 h2"
    using Cons.IH [of h1 a1] by (auto simp: wp_def keeps_session_def)
  with first i show ?case by (auto simp: wp_Some intro: keeps_session_trans)
qed (simp add: wp_Some keeps_session_refl)

text \<open>Property C12. Over any sequence of buffers the Redis handler never panics and keeps its connection
  state consistent: names are clean, at most 128 tracking prefixes of at most 1024 bytes are kept and no
  two overlap, the opt-in and opt-out modes exclude each other, a pending \<open>CLIENT CACHING\<close> choice fits
  the mode, and without tracking all its settings are at their defaults.\<close>

theorem redis_session_invariant:
  "\<exists>replies h1 a1. redis_session inputs (with_auth redis_handler_new req) a = Some (replies, h1, a1)
     \<and> redis_inv h1 \<and> require_auth h1 = req"
  using redis_session_keeps [OF redis_inv_new, of inputs req a]
  by (auto simp: wp_def keeps_session_def with_auth_def)

end
