(* ===== verification/Redis_Auth.thy ===== *)
theory Redis_Auth
  imports Redis_Session
begin

text \<open>
  Authentication of Redis connections: what a client can do before it has sent credentials, the one way
  around the check, and the malformed answer to \<open>CLIENT HELP\<close>.
\<close>

section \<open>Before authentication\<close>

text \<open>A command that can authenticate the connection.\<close>

definition presents_credentials :: "bytes list \<Rightarrow> bool" where
  "presents_credentials parts =
     (case parts of
        [] \<Rightarrow> False
      | c # args \<Rightarrow>
          (case text_command c of
             None \<Rightarrow> False
           | Some t \<Rightarrow>
               str_to_uppercase t = bstr ''AUTH'' \<and> auth_args_are_valid_bytes args
               \<or> str_to_uppercase t = bstr ''HELLO'' \<and> hello_has_auth args))"

definition buffer_presents_credentials :: "bytes \<Rightarrow> bool" where
  "buffer_presents_credentials data =
     (case parse_resp data of Some (Some cmds) \<Rightarrow> list_ex presents_credentials cmds | _ \<Rightarrow> False)"

text \<open>The answers such a connection can get.\<close>

definition refusals :: "bytes set" where
  "refusals = {resp_line ''-NOAUTH Authentication required.'', protocol_error, resp_line ''+RESET'',
     wrong_number_of_arguments ''reset'', resp_line ''-ERR wrong number of arguments for 'auth' command''}"

abbreviation locked_handler :: redis_handler where
  "locked_handler \<equiv> with_auth redis_handler_new True"

lemma locked_handler_fields:
  "require_auth locked_handler" "tracking_caching locked_handler = None" "reply_mode locked_handler = Reply_On"
  "rh_state locked_handler = Redis_Connected"
  by (simp_all add: with_auth_def redis_handler_new_def)

lemma locked_reset:
  "handle_reset_command locked_handler False args =
     (if args \<noteq> [] then wrong_number_of_arguments ''reset'' else resp_line ''+RESET'', locked_handler, False)"
  by (simp add: handle_reset_command_def with_auth_def redis_handler_new_def)

lemma refusals_nonempty: "out \<in> refusals \<Longrightarrow> out \<noteq> []"
  by (auto simp: refusals_def resp_line_def protocol_error_def wrong_number_of_arguments_def CRLF_def)

lemma locked_step:
  assumes "parts \<noteq> []" "\<not> presents_credentials parts"
  shows "\<exists>out \<in> refusals. redis_step clk k locked_handler False parts = Some (out, True, locked_handler, False)"
proof -
  obtain c args where parts: "parts = c # args" using assms(1) by (cases parts) auto
  have names: "bstr ''AUTH'' \<noteq> bstr ''RESET''" "bstr ''AUTH'' \<noteq> bstr ''HELLO''" "bstr ''AUTH'' \<noteq> bstr ''INFO''"
    "bstr ''AUTH'' \<noteq> bstr ''TIME''" "bstr ''RESET'' \<noteq> bstr ''HELLO''" "bstr ''RESET'' \<noteq> bstr ''INFO''"
    "bstr ''RESET'' \<noteq> bstr ''TIME''" "bstr ''RESET'' \<noteq> bstr ''AUTH''"
    by (simp_all add: bstr_def)
  consider "text_command c = None"
    | t where "text_command c = Some t" "str_to_uppercase t = bstr ''AUTH''" "\<not> auth_args_are_valid_bytes args"
    | t where "text_command c = Some t" "str_to_uppercase t = bstr ''RESET''"
    | t where "text_command c = Some t" "str_to_uppercase t \<noteq> bstr ''AUTH''" "str_to_uppercase t \<noteq> bstr ''RESET''"
        "\<not> (str_to_uppercase t = bstr ''HELLO'' \<and> hello_has_auth args)"
    using assms(2) parts by (cases "text_command c") (auto simp: presents_credentials_def)
  then show ?thesis
  proof cases
    case 1
    then show ?thesis by (simp add: redis_step_def parts refusals_def)
  next
    case 2
    then show ?thesis
      using names
      by (simp add: redis_step_def parts refusals_def redis_command_def handle_auth_command_def Let_def
          locked_handler_fields resp_line_def CRLF_def)
  next
    case 3
    then show ?thesis
      using names refusals_nonempty
      by (simp add: redis_step_def parts redis_command_def locked_reset Let_def locked_handler_fields refusals_def)
  next
    case 4
    then show ?thesis by (simp add: redis_step_def parts refusals_def Let_def locked_handler_fields)
  qed
qed

lemma locked_batch:
  "list_all command_in_limits cmds \<Longrightarrow> \<not> list_ex presents_credentials cmds \<Longrightarrow>
   \<exists>outs. set outs \<subseteq> refusals \<and> redis_batch clk k cmds locked_handler False response sc sr =
     Some (response @ concat outs, sc \<or> cmds \<noteq> [], sr \<or> outs \<noteq> [], locked_handler, False)"
proof (induction cmds arbitrary: k response sc sr)
  case Nil
  show ?case by (rule exI [of _ "[]"]) simp
next
  case (Cons parts cmds)
  then have "parts \<noteq> []" "\<not> presents_credentials parts" by (simp_all add: command_in_limits_def)
  then obtain out where out: "out \<in> refusals"
    "redis_step clk k locked_handler False parts = Some (out, True, locked_handler, False)"
    using locked_step by blast
  obtain outs where "set outs \<subseteq> refusals"
    "redis_batch clk (Suc k) cmds locked_handler False (response @ out) True True =
       Some ((response @ out) @ concat outs, True, True, locked_handler, False)"
    using Cons.IH [of "Suc k" "response @ out" True True] Cons.prems by auto
  with out \<open>parts \<noteq> []\<close> show ?case
    by (intro exI [of _ "out # outs"]) (simp add: locked_handler_fields)
qed

lemma locked_buffer:
  assumes "\<not> buffer_presents_credentials data"
  shows "\<exists>outs. set outs \<subseteq> refusals
    \<and> handle_command_with_auth_state clk locked_handler data False = Some (concat outs, locked_handler, False)"
proof -
  obtain parsed where parsed: "parse_resp data = Some parsed"
    and limits: "\<forall>cs. parsed = Some cs \<longrightarrow> list_all command_in_limits cs"
    using parse_resp_wp [of data] by (auto simp: wp_def)
  have error: "set [protocol_error] \<subseteq> refusals" "set [] \<subseteq> refusals" by (simp_all add: refusals_def)
  show ?thesis
  proof (cases parsed)
    case None
    with parsed error show ?thesis
      by (intro exI [of _ "if data = [] then [] else [protocol_error]"])
        (simp add: handle_command_with_auth_state_def locked_handler_fields)
  next
    case (Some cmds)
    with assms parsed limits have "list_all command_in_limits cmds" "\<not> list_ex presents_credentials cmds"
      by (simp_all add: buffer_presents_credentials_def)
    then obtain outs where outs: "set outs \<subseteq> refusals"
      "redis_batch clk 0 cmds locked_handler False [] False False =
         Some (concat outs, cmds \<noteq> [], outs \<noteq> [], locked_handler, False)"
      using locked_batch [of cmds clk 0 "[]" False False] by auto
    with parsed Some error show ?thesis
      by (intro exI [of _ "if cmds = [] \<and> data \<noteq> [] then [protocol_error] else outs"])
        (simp add: handle_command_with_auth_state_def locked_handler_fields)
  qed
qed


lemma written_get:
  "parse_resp (resp_bulk_array [bstr ''GET'', bstr ''k'']) = Some (Some [[bstr ''GET'', bstr ''k'']])"
  using written_in_limits [of "[[bstr ''GET'', bstr ''k'']]"]
  by (simp add: command_in_limits_def bstr_def resp_bulk_array_def CRLF_def show_dec.simps)

lemma get_no_credentials: "\<not> buffer_presents_credentials (resp_bulk_array [bstr ''GET'', bstr ''k''])"
proof -
  have "\<not> presents_credentials [bstr ''GET'', bstr ''k'']"
    by (simp add: presents_credentials_def ascii_eval)
  then show ?thesis by (simp add: buffer_presents_credentials_def written_get)
qed


lemma written_hello:
  "parse_resp (resp_bulk_array [bstr ''HELLO'', bstr ''3'', bstr ''SETNAME'', bstr ''AUTH'']) =
     Some (Some [[bstr ''HELLO'', bstr ''3'', bstr ''SETNAME'', bstr ''AUTH'']])"
  using written_in_limits [of "[[bstr ''HELLO'', bstr ''3'', bstr ''SETNAME'', bstr ''AUTH'']]"]
  by (simp add: command_in_limits_def bstr_def resp_bulk_array_def CRLF_def show_dec.simps)

abbreviation hello_bypass :: "bytes list" where
  "hello_bypass \<equiv> [bstr ''HELLO'', bstr ''3'', bstr ''SETNAME'', bstr ''AUTH'']"

lemma hello_bypass_eval:
  "text_command (bstr ''HELLO'') = Some (bstr ''HELLO'')" "str_to_uppercase (bstr ''HELLO'') = bstr ''HELLO''"
  "text_command (bstr ''3'') = Some (bstr ''3'')" "text_command (bstr ''SETNAME'') = Some (bstr ''SETNAME'')"
  "to_ascii_uppercase (bstr ''SETNAME'') = bstr ''SETNAME''" "bstr ''SETNAME'' \<noteq> bstr ''AUTH''"
  "bstr ''3'' \<noteq> bstr ''2''" "hello_has_auth (tl hello_bypass)"
  "parse_redis_client_name (bstr ''AUTH'') = Inr (Some (bstr ''AUTH''))"
  by (simp_all add: ascii_eval hello_has_auth_def parse_redis_client_name_def from_utf8_def chars_def
      char_is_whitespace_def char_is_control_def)

lemma hello_bypass_loop:
  "hello_options_loop (tl hello_bypass) 1 False False None False =
     Some (Inr (False, Some (Some (bstr ''AUTH'')), False))"
  by (simp add: hello_options_loop_unfold hello_bypass_eval)

lemma hello_bypass_response:
  "hello_response locked_handler (tl hello_bypass) False =
     Some (hello_payload (rh_version locked_handler) 3,
       locked_handler\<lparr>client_name := Some (bstr ''AUTH''), resp_version := 3\<rparr>, False)"
  using hello_bypass_loop by (simp add: hello_response_def hello_version_def hello_bypass_eval)

text \<open>Property C35. The check can be passed without credentials: \<open>HELLO 3 SETNAME AUTH\<close> is taken for an
  authenticating \<open>HELLO\<close> because \<open>AUTH\<close> is among its arguments, yet its option loop reads \<open>AUTH\<close> as the
  client name. The unauthenticated client gets the description of the server and sets the name and the
  protocol version.\<close>

theorem redis_hello_gate_bypass:
  "handle_command_with_auth_state clk (with_auth redis_handler_new True)
       (resp_bulk_array [bstr ''HELLO'', bstr ''3'', bstr ''SETNAME'', bstr ''AUTH'']) False =
     Some (hello_payload (bstr ''7.0.15'') 3,
       (with_auth redis_handler_new True)\<lparr>client_name := Some (bstr ''AUTH''), resp_version := 3\<rparr>, False)"
proof -
  have version: "rh_version locked_handler = bstr ''7.0.15''" by (simp add: with_auth_def redis_handler_new_def)
  have "hello_payload v 3 \<noteq> []" for v by (simp add: hello_payload_def resp_line_def bstr_def)
  then have "redis_step clk 0 locked_handler False hello_bypass =
      Some (hello_payload (bstr ''7.0.15'') 3, True,
        locked_handler\<lparr>client_name := Some (bstr ''AUTH''), resp_version := 3\<rparr>, False)"
    using hello_bypass_response hello_bypass_eval(8)
    by (simp add: redis_step_def hello_bypass_eval Let_def locked_handler_fields redis_command_def version)
  then show ?thesis
    by (simp add: handle_command_with_auth_state_def written_hello locked_handler_fields)
qed

section \<open>CLIENT HELP\<close>

lemma written_client_help:
  "parse_resp (resp_bulk_array [bstr ''CLIENT'', bstr ''HELP'']) = Some (Some [[bstr ''CLIENT'', bstr ''HELP'']])"
  using written_in_limits [of "[[bstr ''CLIENT'', bstr ''HELP'']]"]
  by (simp add: command_in_limits_def bstr_def resp_bulk_array_def CRLF_def show_dec.simps)

lemma of_char_u8_eq: "(of_char c :: u8) = of_char d \<longleftrightarrow> c = d"
proof -
  have "unat (of_char e :: u8) = (of_char e :: nat)" for e
    using of_nat_of_char [of e, where 'a = u8] unat_word_of_nat_u8 [of "of_char e"] nat_of_char_less_256 [of e]
    by simp
  then show ?thesis by (metis of_char_eq_iff)
qed

lemma bstr_eq_iff: "bstr s = bstr t \<longleftrightarrow> s = t"
proof -
  have "inj (of_char :: char \<Rightarrow> u8)" by (rule injI) (simp add: of_char_u8_eq)
  then show ?thesis by (simp add: bstr_def inj_map_eq_map)
qed

lemma client_help_reply:
  "handle_command clk redis_handler_new (resp_bulk_array [bstr ''CLIENT'', bstr ''HELP'']) =
     Some (client_help, redis_handler_new)"
proof -
  have eval: "text_command (bstr ''CLIENT'') = Some (bstr ''CLIENT'')" "str_to_uppercase (bstr ''CLIENT'') = bstr ''CLIENT''"
    "text_command (bstr ''HELP'') = Some (bstr ''HELP'')" "to_ascii_uppercase (bstr ''HELP'') = bstr ''HELP''"
    by (simp_all add: ascii_eval)
  have fields: "\<not> require_auth redis_handler_new" "tracking_caching redis_handler_new = None"
    "reply_mode redis_handler_new = Reply_On" "rh_state redis_handler_new = Redis_Connected"
    by (simp_all add: redis_handler_new_def)
  have reply: "client_response redis_handler_new [bstr ''HELP''] = Some (client_help, redis_handler_new)"
    by (simp add: client_response_def eval Let_def bstr_eq_iff)
  have "client_help \<noteq> []" by (simp add: client_help_def resp_line_def bstr_def)
  moreover have "redis_command clk 0 redis_handler_new True (bstr ''CLIENT'') [bstr ''HELP''] =
      Some (client_help, redis_handler_new, True)"
    by (simp add: redis_command_def reply bstr_eq_iff)
  ultimately have "redis_step clk 0 redis_handler_new True [bstr ''CLIENT'', bstr ''HELP''] =
      Some (client_help, True, redis_handler_new, True)"
    by (simp add: redis_step_def eval Let_def fields)
  then show ?thesis
    by (simp add: handle_command_def handle_command_with_auth_state_def written_client_help fields)
qed

lemma read_many_fail:
  assumes "\<forall>v \<in> set vs. \<forall>rest. rd (resp_encode v @ rest) = Some (v, rest)" "rd ys = None"
  shows "read_many rd (length vs + Suc n) (concat (map resp_encode vs) @ ys) = None"
  using assms by (induction vs) auto

text \<open>The ninth entry announces six bytes, but \<open>REPLY\<close> has five.\<close>

lemma client_help_unreadable: "resp_read 2 client_help = None"
proof -
  define vs where "vs = map (Bulk \<circ> bstr)
    [''GETNAME'', ''ID'', ''INFO'', ''LIST'', ''SETINFO'', ''SETNAME'', ''GETREDIR'', ''CACHING'']"
  define ys where "ys = resp_line ''REPLY'' @ resp_line ''$8'' @ resp_line ''NO-TOUCH''
    @ resp_line ''$8'' @ resp_line ''NO-EVICT'' @ resp_line ''$8'' @ resp_line ''TRACKING''
    @ resp_line ''$12'' @ resp_line ''TRACKINGINFO'' @ resp_line ''$4'' @ resp_line ''HELP''"
  have parts: "client_help = 0x2A # bstr ''14'' @ CRLF @ concat (map resp_encode vs) @ 0x24 # bstr ''6'' @ CRLF @ ys"
    by (simp add: client_help_def vs_def ys_def resp_line_def bstr_def show_dec.simps)
  have counts: "0x0D \<notin> set (bstr ''14'')" "read_count (bstr ''14'') = Some 14"
    "0x0D \<notin> set (bstr ''6'')" "read_count (bstr ''6'') = Some 6" "bstr ''6'' \<noteq> bstr ''-1''"
    by (simp_all add: bstr_def read_count_def is_ascii_digit_def dec_value_def)
  have "take 2 (drop 6 ys) \<noteq> CRLF" by (simp add: ys_def resp_line_def bstr_def CRLF_def)
  then have bad: "resp_read 1 (0x24 # bstr ''6'' @ CRLF @ ys) = None"
    using counts by (simp add: read_value_line)
  have "read_many (resp_read 1) (length vs + Suc 5) (concat (map resp_encode vs) @ 0x24 # bstr ''6'' @ CRLF @ ys) = None"
    using bad by (intro read_many_fail) (auto simp: vs_def read_value_bulk simp del: resp_encode.simps)
  moreover have "length vs + Suc 5 = 14" by (simp add: vs_def)
  moreover have "resp_read 2 = read_value (read_many (resp_read 1))" by (simp add: numeral_2_eq_2)
  ultimately show ?thesis
    unfolding parts using counts by (simp add: read_value_line)
qed


end
