(* ===== verification/Redis_Glob.thy ===== *)
theory Redis_Glob
  imports Redis_Replies
begin

text \<open>
  The pattern matcher of \<open>CONFIG GET\<close>. \<open>glob_matches\<close> says what a pattern means; the loop of
  \<open>glob_match_config_pattern\<close>, which keeps one position to fall back to, computes it on every text
  without an asterisk. The names of the configuration have none.
\<close>

fun glob_matches :: "bytes \<Rightarrow> bytes \<Rightarrow> bool" where
  "glob_matches [] w = (w = [])"
| "glob_matches (p # ps) w =
     (if p = 0x2A then
        (case w of [] \<Rightarrow> glob_matches ps [] | t # ts \<Rightarrow> glob_matches ps w \<or> glob_matches (p # ps) ts)
      else
        (case w of
           [] \<Rightarrow> False
         | t # ts \<Rightarrow> (p = 0x3F \<or> ascii_lower p = ascii_lower t) \<and> glob_matches ps ts))"

definition char_match :: "u8 \<Rightarrow> u8 \<Rightarrow> bool" where
  "char_match p t \<longleftrightarrow> p = 0x3F \<or> ascii_lower p = ascii_lower t"

section \<open>The meaning of patterns\<close>

lemma glob_star: "glob_matches (0x2A # ps) w \<longleftrightarrow> (\<exists>u v. w = u @ v \<and> glob_matches ps v)"
proof (induction w)
  case (Cons t ts)
  have "(\<exists>u v. t # ts = u @ v \<and> glob_matches ps v) \<longleftrightarrow>
      glob_matches ps (t # ts) \<or> (\<exists>u v. ts = u @ v \<and> glob_matches ps v)"
    by (metis append_Cons append_Nil append_eq_Cons_conv)
  with Cons show ?case by simp
qed simp

lemma glob_nil: "glob_matches ps [] \<longleftrightarrow> list_all (\<lambda>p. p = 0x2A) ps"
  by (induction ps) auto

lemma glob_char: "c \<noteq> 0x2A \<Longrightarrow> glob_matches (c # ps) (t # ts) \<longleftrightarrow> char_match c t \<and> glob_matches ps ts"
  by (simp add: char_match_def)

text \<open>A piece of the pattern without asterisks matches character by character.\<close>

lemma glob_plain:
  assumes "0x2A \<notin> set b"
  shows "glob_matches (b @ rest) w \<longleftrightarrow>
    length b \<le> length w \<and> list_all2 char_match b (take (length b) w) \<and> glob_matches rest (drop (length b) w)"
  using assms
proof (induction b arbitrary: w)
  case (Cons c b)
  then show ?case by (cases w) (auto simp: glob_char glob_nil simp del: glob_matches.simps(2))
qed simp

text \<open>The three ways the loop goes on from a piece \<open>b\<close> after the last asterisk that matches at \<open>m\<close>.\<close>


lemma glob_end:
  assumes "0x2A \<notin> set b" "list_all2 char_match b w"
  shows "glob_matches (0x2A # b @ rest) w \<longleftrightarrow> list_all (\<lambda>p. p = 0x2A) rest"
proof
  have len: "length b = length w" using assms(2) by (rule list_all2_lengthD)
  { assume "glob_matches (0x2A # b @ rest) w"
    then obtain u v where "w = u @ v" "glob_matches (b @ rest) v" unfolding glob_star by blast
    then show "list_all (\<lambda>p. p = 0x2A) rest"
      using glob_plain [OF assms(1), of rest v] len by (simp add: glob_nil) }
  { assume "list_all (\<lambda>p. p = 0x2A) rest"
    then have "glob_matches (b @ rest) w"
      using glob_plain [OF assms(1), of rest w] assms(2) len by (simp add: glob_nil)
    then show "glob_matches (0x2A # b @ rest) w" unfolding glob_star by (metis append_Nil) }
qed

lemma glob_next_star:
  assumes "0x2A \<notin> set b" "list_all2 char_match b u"
  shows "glob_matches (0x2A # b @ 0x2A # c) (u @ v) \<longleftrightarrow> glob_matches (0x2A # c) v"
proof
  have len: "length b = length u" using assms(2) by (rule list_all2_lengthD)
  { assume "glob_matches (0x2A # b @ 0x2A # c) (u @ v)"
    then obtain x y where xy: "u @ v = x @ y" "glob_matches (b @ 0x2A # c) y" unfolding glob_star by blast
    then have y: "length b \<le> length y" "glob_matches (0x2A # c) (drop (length b) y)"
      using glob_plain [OF assms(1), of "0x2A # c" y] by auto
    from y(2) obtain p q where pq: "drop (length b) y = p @ q" "glob_matches c q" unfolding glob_star by blast
    have "v = drop (length u) (x @ take (length b) y) @ p @ q"
    proof -
      have "u @ v = (x @ take (length b) y) @ p @ q" using xy(1) pq(1) by (metis append.assoc append_take_drop_id)
      moreover have "length u \<le> length (x @ take (length b) y)" using len y(1) by simp
      ultimately show ?thesis by (metis append_eq_conv_conj drop_append diff_is_0_eq drop0)
    qed
    with pq(2) show "glob_matches (0x2A # c) v" unfolding glob_star by (metis append.assoc) }
  { assume "glob_matches (0x2A # c) v"
    then have "glob_matches (b @ 0x2A # c) (u @ v)"
      using glob_plain [OF assms(1), of "0x2A # c" "u @ v"] assms(2) len by simp
    then show "glob_matches (0x2A # b @ 0x2A # c) (u @ v)" unfolding glob_star [of "b @ 0x2A # c"] by (metis append_Nil) }
qed

lemma glob_back:
  assumes "0x2A \<notin> set b" "list_all2 char_match b u" "u @ v = x # xs" "v \<noteq> []"
    and "rest = [] \<or> hd rest \<noteq> 0x2A \<and> \<not> char_match (hd rest) (hd v)"
  shows "glob_matches (0x2A # b @ rest) (u @ v) \<longleftrightarrow> glob_matches (0x2A # b @ rest) xs"
proof -
  have len: "length b = length u" using assms(2) by (rule list_all2_lengthD)
  have "\<not> glob_matches rest v"
    using assms(4, 5) by (cases rest; cases v) (auto simp: glob_char simp del: glob_matches.simps(2))
  then have "\<not> glob_matches (b @ rest) (u @ v)"
    using glob_plain [OF assms(1), of rest "u @ v"] len by simp
  then show ?thesis unfolding assms(3) by simp
qed

section \<open>The loop\<close>

lemma glob_trailing_all:
  "p \<le> length pattern \<Longrightarrow> glob_trailing pattern p = length pattern \<longleftrightarrow> list_all (\<lambda>c. c = 0x2A) (drop p pattern)"
proof (induction pattern p rule: glob_trailing.induct)
  case (1 pattern p)
  show ?case
  proof (cases "p < length pattern")
    case True
    then have "drop p pattern = pattern ! p # drop (p + 1) pattern" by (simp add: Cons_nth_drop_Suc)
    with 1 True show ?thesis by (subst glob_trailing.simps) simp
  next
    case False
    with 1(2) show ?thesis by (subst glob_trailing.simps) simp
  qed
qed

lemma ascii_lower_star: "ascii_lower c = ascii_lower 0x2A \<Longrightarrow> c = 0x2A"
  by (simp add: ascii_lower_def is_ascii_uppercase_def split: if_splits)

text \<open>What the loop keeps: after an asterisk at \<open>star\<close>, the pattern between it and \<open>p\<close> has no other
  asterisk and matches the text between \<open>match_t\<close> and \<open>t\<close>.\<close>

definition since_star :: "bytes \<Rightarrow> bytes \<Rightarrow> usize \<Rightarrow> usize \<Rightarrow> usize \<Rightarrow> usize \<Rightarrow> bytes \<Rightarrow> bytes \<Rightarrow> bool" where
  "since_star pattern w p t s m b u \<longleftrightarrow>
     p \<le> length pattern \<and> t \<le> length w \<and> 0x2A \<notin> set b \<and> list_all2 char_match b u
     \<and> drop s pattern = 0x2A # b @ drop p pattern \<and> drop m w = u @ drop t w"

definition loop_ok :: "bytes \<Rightarrow> bytes \<Rightarrow> usize \<Rightarrow> usize \<Rightarrow> usize option \<Rightarrow> usize \<Rightarrow> bool" where
  "loop_ok pattern w p t star m \<longleftrightarrow>
     (case star of
        None \<Rightarrow> p \<le> length pattern \<and> t \<le> length w
      | Some s \<Rightarrow> \<exists>b u. since_star pattern w p t s m b u)"

definition loop_meaning :: "bytes \<Rightarrow> bytes \<Rightarrow> usize \<Rightarrow> usize \<Rightarrow> usize option \<Rightarrow> usize \<Rightarrow> bool" where
  "loop_meaning pattern w p t star m \<longleftrightarrow>
     (case star of
        None \<Rightarrow> glob_matches (drop p pattern) (drop t w)
      | Some s \<Rightarrow> glob_matches (drop s pattern) (drop m w))"

lemma loop_ok_range: "loop_ok pattern w p t star m \<Longrightarrow> p \<le> length pattern \<and> t \<le> length w"
  by (auto simp: loop_ok_def since_star_def split: option.splits)

lemma loop_match:
  assumes "loop_ok pattern w p t star m" "t < length w" "p < length pattern"
    and "char_match (pattern ! p) (w ! t)" "pattern ! p \<noteq> 0x2A"
  shows "loop_ok pattern w (p + 1) (t + 1) star m"
    and "loop_meaning pattern w p t star m \<longleftrightarrow> loop_meaning pattern w (p + 1) (t + 1) star m"
proof -
  have d: "drop p pattern = pattern ! p # drop (p + 1) pattern" "drop t w = w ! t # drop (t + 1) w"
    using assms(2, 3) by (simp_all add: Cons_nth_drop_Suc)
  show "loop_ok pattern w (p + 1) (t + 1) star m"
  proof (cases star)
    case (Some s)
    with assms(1) obtain b u where "since_star pattern w p t s m b u" by (auto simp: loop_ok_def)
    with d assms(2-5) have "since_star pattern w (p + 1) (t + 1) s m (b @ [pattern ! p]) (u @ [w ! t])"
      by (auto simp: since_star_def intro: list_all2_appendI)
    with Some show ?thesis by (auto simp: loop_ok_def)
  qed (use assms(2, 3) in \<open>simp add: loop_ok_def\<close>)
  show "loop_meaning pattern w p t star m \<longleftrightarrow> loop_meaning pattern w (p + 1) (t + 1) star m"
    using glob_char [OF assms(5), of "drop (p + 1) pattern" "w ! t" "drop (t + 1) w"] assms(4)
    unfolding loop_meaning_def d by (simp split: option.split)
qed

lemma loop_star:
  assumes "loop_ok pattern w p t star m" "p < length pattern" "pattern ! p = 0x2A"
  shows "loop_ok pattern w (p + 1) t (Some p) t"
    and "loop_meaning pattern w p t star m \<longleftrightarrow> loop_meaning pattern w (p + 1) t (Some p) t"
proof -
  have d: "drop p pattern = 0x2A # drop (p + 1) pattern"
    using assms(2, 3) by (metis Cons_nth_drop_Suc Suc_eq_plus1)
  have "since_star pattern w (p + 1) t p t [] []"
    using loop_ok_range [OF assms(1)] assms(2) d by (simp add: since_star_def)
  then show "loop_ok pattern w (p + 1) t (Some p) t" unfolding loop_ok_def by auto
  show "loop_meaning pattern w p t star m \<longleftrightarrow> loop_meaning pattern w (p + 1) t (Some p) t"
  proof (cases star)
    case (Some s)
    with assms(1) obtain b u where "since_star pattern w p t s m b u" by (auto simp: loop_ok_def)
    then show ?thesis
      using Some glob_next_star [of b u "drop (p + 1) pattern" "drop t w"] d
      by (simp add: since_star_def loop_meaning_def)
  qed (simp add: loop_meaning_def)
qed

lemma loop_back:
  assumes "loop_ok pattern w p t (Some s) m" "t < length w"
    and "p < length pattern \<Longrightarrow> pattern ! p \<noteq> 0x2A \<and> \<not> char_match (pattern ! p) (w ! t)"
  shows "loop_ok pattern w (s + 1) (m + 1) (Some s) (m + 1)"
    and "loop_meaning pattern w p t (Some s) m \<longleftrightarrow> loop_meaning pattern w (s + 1) (m + 1) (Some s) (m + 1)"
proof -
  from assms(1) obtain b u where i: "since_star pattern w p t s m b u" by (auto simp: loop_ok_def)
  have ne: "drop m w \<noteq> []" "drop s pattern \<noteq> []" using i assms(2) by (auto simp: since_star_def)
  then have r: "m < length w" "s < length pattern" by simp_all
  have dm: "drop m w = w ! m # drop (m + 1) w" using r by (simp add: Cons_nth_drop_Suc)
  have e: "u @ drop t w = w ! m # drop (m + 1) w" using i dm by (simp add: since_star_def)
  have ds: "drop s pattern = 0x2A # drop (s + 1) pattern"
    using i r by (metis Cons_nth_drop_Suc Suc_eq_plus1 list.inject since_star_def)
  have "since_star pattern w (s + 1) (m + 1) s (m + 1) [] []" using r ds by (simp add: since_star_def)
  then show "loop_ok pattern w (s + 1) (m + 1) (Some s) (m + 1)" unfolding loop_ok_def by auto
  have rest: "drop p pattern = [] \<or> hd (drop p pattern) \<noteq> 0x2A \<and> \<not> char_match (hd (drop p pattern)) (hd (drop t w))"
    using assms(2, 3) by (cases "p < length pattern") (simp_all add: hd_drop_conv_nth)
  have "glob_matches (0x2A # b @ drop p pattern) (u @ drop t w)
      \<longleftrightarrow> glob_matches (0x2A # b @ drop p pattern) (drop (m + 1) w)"
    by (rule glob_back [OF _ _ e _ rest]) (use i assms(2) in \<open>simp_all add: since_star_def\<close>)
  with i show "loop_meaning pattern w p t (Some s) m
      \<longleftrightarrow> loop_meaning pattern w (s + 1) (m + 1) (Some s) (m + 1)"
    by (simp add: loop_meaning_def since_star_def)
qed

lemma loop_end:
  assumes "loop_ok pattern w p t star m" "\<not> t < length w"
  shows "loop_meaning pattern w p t star m \<longleftrightarrow> glob_trailing pattern p = length pattern"
proof (cases star)
  case None
  with assms show ?thesis
    by (simp add: loop_ok_def loop_meaning_def glob_nil glob_trailing_all)
next
  case (Some s)
  with assms(1) obtain b u where "since_star pattern w p t s m b u" by (auto simp: loop_ok_def)
  then show ?thesis
    using Some assms(2) glob_end [of b u "drop p pattern"]
    by (simp add: since_star_def loop_meaning_def glob_trailing_all)
qed

lemma loop_stuck:
  assumes "t < length w" "p < length pattern \<Longrightarrow> pattern ! p \<noteq> 0x2A \<and> \<not> char_match (pattern ! p) (w ! t)"
  shows "\<not> loop_meaning pattern w p t None m"
proof -
  have "drop t w = w ! t # drop (t + 1) w" using assms(1) by (simp add: Cons_nth_drop_Suc)
  moreover have "p < length pattern \<Longrightarrow> drop p pattern = pattern ! p # drop (p + 1) pattern"
    by (simp add: Cons_nth_drop_Suc)
  ultimately show ?thesis
    using assms(2) by (cases "p < length pattern") (auto simp: loop_meaning_def char_match_def)
qed

lemma glob_loop_meaning:
  assumes "0x2A \<notin> set w" "loop_ok pattern w p t star m"
  shows "(case glob_loop pattern w p t star m of
      None \<Rightarrow> False | Some q \<Rightarrow> glob_trailing pattern q = length pattern) \<longleftrightarrow> loop_meaning pattern w p t star m"
  using assms
proof (induction pattern w p t star m rule: glob_loop.induct)
  case (1 pattern w p t star m)
  let ?match = "p < length pattern \<and> (pattern ! p = 0x3F \<or> ascii_lower (pattern ! p) = ascii_lower (w ! t))"
  let ?star = "p < length pattern \<and> pattern ! p = 0x2A"
  consider "\<not> t < length w" | "t < length w" "?match" | "t < length w" "\<not> ?match" "?star"
    | "t < length w" "\<not> ?match" "\<not> ?star" by blast
  then show ?case
  proof cases
    case 1
    then show ?thesis using loop_end [OF \<open>loop_ok pattern w p t star m\<close>]
      by (subst glob_loop.simps) simp
  next
    case 2
    have "w ! t \<noteq> 0x2A" using 2(1) \<open>0x2A \<notin> set w\<close> by (metis nth_mem)
    then have n: "pattern ! p \<noteq> 0x2A" using 2 ascii_lower_star [of "w ! t"] by auto
    have c: "char_match (pattern ! p) (w ! t)" using 2 by (simp add: char_match_def)
    from 2 "1.IH"(1) loop_match [OF \<open>loop_ok pattern w p t star m\<close> _ _ c n] \<open>0x2A \<notin> set w\<close> show ?thesis
      by (subst glob_loop.simps) simp
  next
    case 3
    then show ?thesis
      using "1.IH"(2) loop_star [OF \<open>loop_ok pattern w p t star m\<close>] \<open>0x2A \<notin> set w\<close>
      by (subst glob_loop.simps) auto
  next
    case 4
    then have n: "p < length pattern \<Longrightarrow> pattern ! p \<noteq> 0x2A \<and> \<not> char_match (pattern ! p) (w ! t)"
      by (auto simp: char_match_def)
    show ?thesis
    proof (cases star)
      case None
      with 4 loop_stuck [OF 4(1) n] show ?thesis by (subst glob_loop.simps) auto
    next
      case (Some s)
      with 4 "1.IH"(3) loop_back [OF _ 4(1) n] "1.prems" show ?thesis
        by (subst glob_loop.simps) auto
    qed
  qed
qed

section \<open>The equivalence\<close>

text \<open>Property C17. The matcher of \<open>CONFIG GET\<close>, a loop that remembers only the last asterisk, accepts
  a text exactly when the pattern matches it: an asterisk stands for any bytes, a question mark for one
  byte, any other byte for itself without regard to case. The text has no asterisk of its own, as the
  names of the configuration do not; the pattern, which the peer sends, is arbitrary.\<close>

theorem glob_match_equiv:
  assumes "0x2A \<notin> set w"
  shows "glob_match_config_pattern pattern w \<longleftrightarrow> glob_matches pattern w"
  using glob_loop_meaning [OF assms, of pattern 0 0 None 0]
  by (simp add: glob_match_config_pattern_def loop_ok_def loop_meaning_def split: option.splits)

theorem glob_match_equiv_witness:
  "0x2A \<notin> set (bstr ''dbfilename'')
    \<and> (glob_match_config_pattern (bstr ''D*f?le*'') (bstr ''dbfilename'')
        \<longleftrightarrow> glob_matches (bstr ''D*f?le*'') (bstr ''dbfilename''))
    \<and> glob_match_config_pattern (bstr ''D*f?le*'') (bstr ''dbfilename'')"
proof -
  have a: "0x2A \<notin> set (bstr ''dbfilename'')" by code_simp
  have m: "glob_matches (bstr ''D*f?le*'') (bstr ''dbfilename'')" by code_simp
  show ?thesis using a m glob_match_equiv [OF a, of "bstr ''D*f?le*''"] by blast
qed

end
