(* ===== verification/Tcp_Framing.thy ===== *)
theory Tcp_Framing
  imports Redis_Resp
begin

text \<open>
  Frame extraction of \<open>nettrap-cli/src/listeners/tcp_framing.rs\<close>: a TCP connection collects what it
  reads in a buffer, and one function per protocol takes the next complete frame from its front. Every
  function takes the buffer and returns its answer with the buffer it leaves. HTTP is in
  \<open>Http_Framing\<close>, the choice of a function in \<open>Tcp_Modes\<close>.
\<close>

section \<open>Answers\<close>

datatype tcp_frame_result =
    Frame_Complete bytes
  | Frame_Incomplete
  | Frame_Invalid "bytes option"
  | Frame_TooLarge "bytes option"

type_synonym frame_answer = "tcp_frame_result \<times> bytes"
type_synonym opt_frame_answer = "bytes option \<times> bytes"

text \<open>\<open>buffer.drain(..n).collect()\<close>, and the same wrapped in an answer; \<open>buffer.clear()\<close> before an
  answer; an answer that leaves the buffer as it is.\<close>

definition drain :: "bytes \<Rightarrow> usize \<Rightarrow> (bytes \<times> bytes) rs" where
  "drain buffer n = (if n \<le> length buffer then Some (take n buffer, drop n buffer) else None)"

definition drained :: "bytes \<Rightarrow> usize \<Rightarrow> frame_answer rs" where
  "drained buffer n = do { (f, buffer) \<leftarrow> drain buffer n; Some (Frame_Complete f, buffer) }"

definition drained_opt :: "bytes \<Rightarrow> usize \<Rightarrow> opt_frame_answer rs" where
  "drained_opt buffer n = do { (f, buffer) \<leftarrow> drain buffer n; Some (Some f, buffer) }"

definition cleared :: "tcp_frame_result \<Rightarrow> frame_answer rs" where
  "cleared r = Some (r, [])"

definition kept :: "tcp_frame_result \<Rightarrow> bytes \<Rightarrow> frame_answer rs" where
  "kept r buffer = Some (r, buffer)"

definition optional_frame :: "opt_frame_answer rs \<Rightarrow> frame_answer rs" where
  "optional_frame m = do {
     (f, buffer) \<leftarrow> m;
     Some (case f of Some f \<Rightarrow> Frame_Complete f | None \<Rightarrow> Frame_Incomplete, buffer) }"

definition MAX_LINE_FRAME_SIZE :: usize where "MAX_LINE_FRAME_SIZE = 64 * 1024"
definition MAX_SSH_PACKET_SIZE :: usize where "MAX_SSH_PACKET_SIZE = 64 * 1024"
definition MAX_SOCKS4_FRAME_SIZE :: usize where "MAX_SOCKS4_FRAME_SIZE = 8 * 1024"
definition MAX_SMTP_DATA_SIZE :: usize where "MAX_SMTP_DATA_SIZE = 50 * 1024 * 1024"
definition MAX_MYSQL_FRAME_SIZE :: usize where "MAX_MYSQL_FRAME_SIZE = 16 * 1024 * 1024"
definition MAX_POSTGRES_FRAME_SIZE :: usize where "MAX_POSTGRES_FRAME_SIZE = 16 * 1024 * 1024"
definition MAX_MQTT_FRAME_SIZE :: usize where "MAX_MQTT_FRAME_SIZE = 1024 * 1024"
definition MAX_REDIS_FRAME_SIZE :: usize where "MAX_REDIS_FRAME_SIZE = 1024 * 1024"
definition MAX_REDIS_ARRAY_COUNT :: usize where "MAX_REDIS_ARRAY_COUNT = 1024"
definition MAX_REDIS_BULK_SIZE :: usize where "MAX_REDIS_BULK_SIZE = 64 * 1024"
definition MAX_MEMCACHED_LINE_SIZE :: usize where "MAX_MEMCACHED_LINE_SIZE = 64 * 1024"
definition MAX_MEMCACHED_FRAME_SIZE :: usize where "MAX_MEMCACHED_FRAME_SIZE = 1024 * 1024"
definition MAX_NKN_FRAME_SIZE :: usize where "MAX_NKN_FRAME_SIZE = 4096"
definition MAX_TLS_RECORD_SIZE :: usize where "MAX_TLS_RECORD_SIZE = 64 * 1024"
definition MAX_LDAP_BER_PAYLOAD_SIZE :: usize where "MAX_LDAP_BER_PAYLOAD_SIZE = 16 * 1024 * 1024"
definition MAX_LDAP_FRAME_SIZE :: usize where "MAX_LDAP_FRAME_SIZE = MAX_LDAP_BER_PAYLOAD_SIZE + 6"

section \<open>Whole buffers, length prefixes and TLS records\<close>

definition extract_immediate_frame :: "bytes \<Rightarrow> opt_frame_answer rs" where
  "extract_immediate_frame buffer = (if buffer = [] then Some (None, buffer) else Some (Some buffer, []))"

definition extract_length_prefixed_frame :: "bytes \<Rightarrow> opt_frame_answer rs" where
  "extract_length_prefixed_frame buffer =
     (if length buffer < 2 then Some (None, buffer)
      else do {
        b0 \<leftarrow> idx buffer 0;
        b1 \<leftarrow> idx buffer 1;
        let declared_len = unat (u16_be b0 b1);
            total_len = 2 + declared_len
        in if length buffer < total_len then Some (None, buffer) else drained_opt buffer total_len })"

definition split_length_prefixed_payload :: "bytes \<Rightarrow> (bytes \<times> bool) option rs" where
  "split_length_prefixed_payload buffer =
     (if length buffer < 2 then Some None
      else do {
        b0 \<leftarrow> idx buffer 0;
        b1 \<leftarrow> idx buffer 1;
        tryo (checked_add 2 (unat (u16_be b0 b1))) (\<lambda>total_len.
          let complete = (length buffer \<ge> total_len);
              payload_end = (if complete then total_len else length buffer)
          in do { payload \<leftarrow> slice buffer 2 payload_end; Some (Some (payload, complete)) }) })"

definition has_tls_record_prefix :: "bytes \<Rightarrow> bool" where
  "has_tls_record_prefix buffer \<longleftrightarrow> length buffer \<ge> 2 \<and> buffer ! 0 = 0x16 \<and> buffer ! 1 = 0x03"

definition looks_like_dns_header :: "bytes \<Rightarrow> bool rs" where
  "looks_like_dns_header data =
     (if length data < 13 then Some False
      else do {
        b2 \<leftarrow> idx data 2; b3 \<leftarrow> idx data 3; b4 \<leftarrow> idx data 4; b5 \<leftarrow> idx data 5; b6 \<leftarrow> idx data 6;
        b7 \<leftarrow> idx data 7; b8 \<leftarrow> idx data 8; b9 \<leftarrow> idx data 9; first_label_len \<leftarrow> idx data 12;
        let flags = u16_be b2 b3;
            is_query = (flags AND 0x8000 = 0);
            opcode = drop_bit 11 flags AND 0x0F;
            qdcount = u16_be b4 b5;
            ancount = u16_be b6 b7;
            nscount = u16_be b8 b9
        in Some (is_query \<and> opcode \<le> 2 \<and> qdcount = 1 \<and> ancount = 0 \<and> nscount = 0
             \<and> 1 \<le> first_label_len \<and> first_label_len \<le> 63) })"

definition has_supported_tls_record_header :: "bytes \<Rightarrow> bool" where
  "has_supported_tls_record_header buffer \<longleftrightarrow>
     has_tls_record_prefix buffer \<and> length buffer \<ge> 3 \<and> 0x01 \<le> buffer ! 2 \<and> buffer ! 2 \<le> 0x04"

definition is_tls_client_hello :: "bytes \<Rightarrow> bool" where
  "is_tls_client_hello buffer \<longleftrightarrow>
     length buffer \<ge> 6 \<and> has_supported_tls_record_header buffer
     \<and> unat (u16_be (buffer ! 3) (buffer ! 4)) \<ge> 4 \<and> buffer ! 5 = 0x01"

definition is_implicit_tls_port :: "u16 \<Rightarrow> bool" where
  "is_implicit_tls_port port \<longleftrightarrow>
     port \<in> set [443, 465, 636, 853, 990, 992, 993, 994, 995, 6697, 8443, 8883, 9443]"

definition is_mysql_ssl_request :: "bytes \<Rightarrow> bool rs" where
  "is_mysql_ssl_request frame =
     (if length frame < 8 then Some False
      else do {
        b3 \<leftarrow> idx frame 3;
        if b3 \<noteq> 1 then Some False
        else do {
          b0 \<leftarrow> idx frame 0; b1 \<leftarrow> idx frame 1; b2 \<leftarrow> idx frame 2;
          let declared = unat b0 OR push_bit 8 (unat b1) OR push_bit 16 (unat b2)
          in if declared \<noteq> length frame - 4 then Some False
             else if \<not> (declared = 4 \<or> declared = 32) then Some False
             else do {
               b4 \<leftarrow> idx frame 4; b5 \<leftarrow> idx frame 5; b6 \<leftarrow> idx frame 6; b7 \<leftarrow> idx frame 7;
               if u32_le b4 b5 b6 b7 AND 0x00000800 = 0 then Some False
               else if declared = 4 then Some True
               else do {
                 filler \<leftarrow> slice frame 13 36;
                 Some (list_all (\<lambda>byte. byte = 0) filler) } } } })"

definition build_tls_alert_decode_error :: bytes where
  "build_tls_alert_decode_error = [21, 0x03, 0x03, 0x00, 0x02, 0x02, 50]"

definition extract_tls_frame :: "bytes \<Rightarrow> frame_answer rs" where
  "extract_tls_frame buffer =
     (if length buffer < 5 then kept Frame_Incomplete buffer
      else if \<not> has_tls_record_prefix buffer then kept (Frame_Invalid None) buffer
      else if \<not> has_supported_tls_record_header buffer
      then cleared (Frame_Invalid (Some build_tls_alert_decode_error))
      else do {
        b3 \<leftarrow> idx buffer 3;
        b4 \<leftarrow> idx buffer 4;
        let record_len = unat (u16_be b3 b4);
            total_len = 5 + record_len
        in if record_len < 4 then cleared (Frame_Invalid (Some build_tls_alert_decode_error))
           else if total_len > MAX_TLS_RECORD_SIZE
           then cleared (Frame_TooLarge (Some build_tls_alert_decode_error))
           else if length buffer < total_len then kept Frame_Incomplete buffer
           else drained buffer total_len })"

section \<open>Lines, SSH packets and mail\<close>

definition extract_limited_line_frame :: "bytes \<Rightarrow> usize \<Rightarrow> frame_answer rs" where
  "extract_limited_line_frame buffer max_len =
     (case position (\<lambda>byte. byte = 0x0A) buffer of
        Some line_end \<Rightarrow>
          let frame_len = line_end + 1
          in if frame_len > max_len then cleared (Frame_TooLarge None) else drained buffer frame_len
      | None \<Rightarrow>
          if length buffer > max_len then cleared (Frame_TooLarge None) else kept Frame_Incomplete buffer)"

definition extract_line_frame :: "bytes \<Rightarrow> frame_answer rs" where
  "extract_line_frame buffer = extract_limited_line_frame buffer MAX_LINE_FRAME_SIZE"

definition extract_ssh_payload_frame :: "bytes \<Rightarrow> frame_answer rs" where
  "extract_ssh_payload_frame buffer =
     (if length buffer < 5 then kept Frame_Incomplete buffer
      else do {
        b0 \<leftarrow> idx buffer 0; b1 \<leftarrow> idx buffer 1; b2 \<leftarrow> idx buffer 2; b3 \<leftarrow> idx buffer 3;
        let packet_len = unat (u32_be b0 b1 b2 b3)
        in if packet_len < 5 then cleared (Frame_Invalid None)
           else case checked_add 4 packet_len of
             None \<Rightarrow> cleared (Frame_TooLarge None)
           | Some total_len \<Rightarrow>
               if total_len > MAX_SSH_PACKET_SIZE then cleared (Frame_TooLarge None)
               else if length buffer < total_len then kept Frame_Incomplete buffer
               else drained buffer total_len })"

definition find_subslice :: "bytes \<Rightarrow> bytes \<Rightarrow> usize option" where
  "find_subslice haystack needle = find_sub needle haystack"

definition message_too_large :: bytes where
  "message_too_large = bstr ''552 Message too large'' @ CRLF"

definition extract_smtp_data_frame_with_limit :: "bytes \<Rightarrow> usize \<Rightarrow> frame_answer rs" where
  "extract_smtp_data_frame_with_limit buffer max_len =
     (if starts_with buffer ([0x2E] @ CRLF) then drained buffer 3
      else case find_subslice buffer (CRLF @ [0x2E] @ CRLF) of
        Some offset \<Rightarrow>
          let frame_len = offset + 5
          in if frame_len > max_len then cleared (Frame_TooLarge (Some message_too_large))
             else drained buffer frame_len
      | None \<Rightarrow>
          if length buffer > max_len then cleared (Frame_TooLarge (Some message_too_large))
          else kept Frame_Incomplete buffer)"

definition extract_smtp_data_frame :: "bytes \<Rightarrow> frame_answer rs" where
  "extract_smtp_data_frame buffer = extract_smtp_data_frame_with_limit buffer MAX_SMTP_DATA_SIZE"

section \<open>MQTT\<close>

fun frame_encoded_len_loop :: "usize \<Rightarrow> usize \<Rightarrow> usize" where
  "frame_encoded_len_loop v n = (if v \<ge> 128 then frame_encoded_len_loop (v div 128) (n + 1) else n)"

declare frame_encoded_len_loop.simps [simp del]

definition frame_mqtt_remaining_length_encoded_len :: "usize \<Rightarrow> usize" where
  "frame_mqtt_remaining_length_encoded_len v = frame_encoded_len_loop v 1"

definition mqtt_fixed_header_is_valid :: "u8 \<Rightarrow> u8 \<Rightarrow> usize \<Rightarrow> bool" where
  "mqtt_fixed_header_is_valid first_byte packet_type remaining_len =
     (let flags = first_byte AND 0x0F in
      if packet_type = 1 then flags = 0
      else if packet_type = 2 then False
      else if packet_type = 3 then drop_bit 1 flags AND 0x03 \<noteq> 0x03
      else if packet_type \<in> set [4, 5, 7, 9, 11] then flags = 0
      else if packet_type \<in> set [6, 8, 10] then flags = 0x02
      else if packet_type = 12 then flags = 0 \<and> remaining_len = 0
      else if packet_type = 13 then False
      else if packet_type = 14 then flags = 0 \<and> remaining_len = 0
      else False)"

text \<open>The loop \<open>for i in 1..=4\<close> of \<open>extract_mqtt_frame\<close>; the list holds the values of \<open>i\<close> to come.\<close>

fun mqtt_frame_loop :: "bytes \<Rightarrow> u8 \<Rightarrow> nat list \<Rightarrow> usize \<Rightarrow> usize \<Rightarrow> frame_answer rs" where
  "mqtt_frame_loop buffer packet_type [] multiplier remaining_len = cleared (Frame_Invalid None)"
| "mqtt_frame_loop buffer packet_type (i # is) multiplier remaining_len =
     (if i \<ge> length buffer then kept Frame_Incomplete buffer
      else do {
        byte \<leftarrow> idx buffer i;
        case checked_mul (unat (byte AND 0x7F)) multiplier of
          None \<Rightarrow> cleared (Frame_Invalid None)
        | Some partial_len \<Rightarrow>
        (case checked_add remaining_len partial_len of
          None \<Rightarrow> cleared (Frame_TooLarge None)
        | Some remaining_len \<Rightarrow>
            if remaining_len > MAX_MQTT_FRAME_SIZE then cleared (Frame_TooLarge None)
            else if byte AND 0x80 = 0 then
              if frame_mqtt_remaining_length_encoded_len remaining_len \<noteq> i then cleared (Frame_Invalid None)
              else do {
                first_byte \<leftarrow> idx buffer 0;
                if \<not> mqtt_fixed_header_is_valid first_byte packet_type remaining_len
                then cleared (Frame_Invalid None)
                else case checked_add (i + 1) remaining_len of
                  None \<Rightarrow> cleared (Frame_TooLarge None)
                | Some total_len \<Rightarrow>
                    if total_len > MAX_MQTT_FRAME_SIZE then cleared (Frame_TooLarge None)
                    else if length buffer < total_len then kept Frame_Incomplete buffer
                    else drained buffer total_len }
            else
              case checked_mul multiplier 128 of
                None \<Rightarrow> cleared (Frame_Invalid None)
              | Some multiplier \<Rightarrow> mqtt_frame_loop buffer packet_type is multiplier remaining_len) })"

definition extract_mqtt_frame :: "bytes \<Rightarrow> frame_answer rs" where
  "extract_mqtt_frame buffer =
     (if length buffer < 2 then kept Frame_Incomplete buffer
      else do {
        b0 \<leftarrow> idx buffer 0;
        let packet_type = drop_bit 4 b0 AND 0x0F
        in if \<not> (1 \<le> packet_type \<and> packet_type \<le> 14) then cleared (Frame_Invalid None)
           else mqtt_frame_loop buffer packet_type [1, 2, 3, 4] 1 0 })"

section \<open>Databases\<close>

definition extract_mysql_frame :: "bytes \<Rightarrow> frame_answer rs" where
  "extract_mysql_frame buffer =
     (if length buffer < 4 then kept Frame_Incomplete buffer
      else do {
        b0 \<leftarrow> idx buffer 0; b1 \<leftarrow> idx buffer 1; b2 \<leftarrow> idx buffer 2;
        let payload_len = unat b0 OR push_bit 8 (unat b1) OR push_bit 16 (unat b2)
        in case checked_add 4 payload_len of
             None \<Rightarrow> cleared (Frame_TooLarge None)
           | Some total_len \<Rightarrow>
               if total_len > MAX_MYSQL_FRAME_SIZE then cleared (Frame_TooLarge None)
               else if length buffer < total_len then kept Frame_Incomplete buffer
               else drained buffer total_len })"

definition is_postgres_typed_message :: "u8 \<Rightarrow> bool" where
  "is_postgres_typed_message byte \<longleftrightarrow> byte \<in> set (bstr ''QXPBDECHSF'')"

definition extract_postgres_frame :: "bytes \<Rightarrow> frame_answer rs" where
  "extract_postgres_frame buffer =
     (if buffer = [] then kept Frame_Incomplete buffer
      else do {
        b0 \<leftarrow> idx buffer 0;
        if is_postgres_typed_message b0 then
          if length buffer < 5 then kept Frame_Incomplete buffer
          else do {
            b1 \<leftarrow> idx buffer 1; b2 \<leftarrow> idx buffer 2; b3 \<leftarrow> idx buffer 3; b4 \<leftarrow> idx buffer 4;
            let n = unat (u32_be b1 b2 b3 b4)
            in if n < 4 then cleared (Frame_Invalid None)
               else case checked_add 1 n of
                 None \<Rightarrow> cleared (Frame_TooLarge None)
               | Some total_len \<Rightarrow>
                   if total_len > MAX_POSTGRES_FRAME_SIZE then cleared (Frame_TooLarge None)
                   else if length buffer < total_len then kept Frame_Incomplete buffer
                   else drained buffer total_len }
        else if length buffer < 4 then kept Frame_Incomplete buffer
        else do {
          b1 \<leftarrow> idx buffer 1; b2 \<leftarrow> idx buffer 2; b3 \<leftarrow> idx buffer 3;
          let n = unat (u32_be b0 b1 b2 b3)
          in if n < 4 then optional_frame (extract_immediate_frame buffer)
             else if n > MAX_POSTGRES_FRAME_SIZE then cleared (Frame_TooLarge None)
             else if length buffer < n then kept Frame_Incomplete buffer
             else drained buffer n } })"

section \<open>SOCKS, SMB and RDP\<close>

definition extract_socks4_frame :: "bytes \<Rightarrow> frame_answer rs" where
  "extract_socks4_frame buffer =
     (if length buffer > MAX_SOCKS4_FRAME_SIZE then cleared (Frame_TooLarge None)
      else if length buffer < 9 then kept Frame_Incomplete buffer
      else do {
        user \<leftarrow> slice_from buffer 8;
        case position (\<lambda>b. b = 0) user of
          None \<Rightarrow> kept Frame_Incomplete buffer
        | Some user_end \<Rightarrow>
            let total_len = 8 + user_end + 1 in do {
              b4 \<leftarrow> idx buffer 4; b5 \<leftarrow> idx buffer 5; b6 \<leftarrow> idx buffer 6; b7 \<leftarrow> idx buffer 7;
              let is_socks4a = (b4 = 0 \<and> b5 = 0 \<and> b6 = 0 \<and> b7 \<noteq> 0)
              in if is_socks4a then do {
                   host \<leftarrow> slice_from buffer total_len;
                   case position (\<lambda>b. b = 0) host of
                     None \<Rightarrow> kept Frame_Incomplete buffer
                   | Some host_end \<Rightarrow> drained buffer (total_len + host_end + 1) }
                 else drained buffer total_len } })"

definition extract_socks5_frame :: "bytes \<Rightarrow> opt_frame_answer rs" where
  "extract_socks5_frame buffer =
     (if length buffer < 2 then Some (None, buffer)
      else do {
        b1 \<leftarrow> idx buffer 1;
        case checked_add 2 (unat b1) of
          None \<Rightarrow> Some (None, buffer)
        | Some greeting_len \<Rightarrow>
            if unat b1 = 0 then drained_opt buffer greeting_len
            else if length buffer < greeting_len then Some (None, buffer)
            else if length buffer = greeting_len then drained_opt buffer greeting_len
            else if length buffer < 4 then Some (None, buffer)
            else do {
              b2 \<leftarrow> idx buffer 2;
              if b2 \<noteq> 0 then extract_immediate_frame buffer
              else do {
                b3 \<leftarrow> idx buffer 3;
                if b3 = 0x01 then
                  if length buffer < 10 then Some (None, buffer) else drained_opt buffer 10
                else if b3 = 0x03 then
                  if length buffer < 5 then Some (None, buffer)
                  else do {
                    b4 \<leftarrow> idx buffer 4;
                    case checked_add 7 (unat b4) of
                      None \<Rightarrow> Some (None, buffer)
                    | Some total_len \<Rightarrow>
                        if length buffer < total_len then Some (None, buffer)
                        else drained_opt buffer total_len }
                else if b3 = 0x04 then
                  if length buffer < 22 then Some (None, buffer) else drained_opt buffer 22
                else extract_immediate_frame buffer } } })"

definition extract_socks_frame :: "bytes \<Rightarrow> frame_answer rs" where
  "extract_socks_frame buffer =
     (case buffer of
        [] \<Rightarrow> kept Frame_Incomplete buffer
      | first_byte # _ \<Rightarrow>
          if first_byte = 0x04 then extract_socks4_frame buffer
          else if first_byte = 0x05 then
            if length buffer \<ge> 2 \<and> length buffer = 2 + unat (buffer ! 1)
            then optional_frame (extract_socks5_frame buffer)
            else if length buffer \<ge> 3 \<and> buffer ! 2 \<noteq> 0x00 then cleared (Frame_Invalid None)
            else optional_frame (extract_socks5_frame buffer)
          else optional_frame (extract_immediate_frame buffer))"

definition extract_smb_frame :: "bytes \<Rightarrow> opt_frame_answer rs" where
  "extract_smb_frame buffer =
     (if length buffer < 4 then Some (None, buffer)
      else do {
        b0 \<leftarrow> idx buffer 0; b1 \<leftarrow> idx buffer 1; b2 \<leftarrow> idx buffer 2; b3 \<leftarrow> idx buffer 3;
        if b0 \<noteq> 0x00 then extract_immediate_frame buffer
        else if b1 AND 0xFE \<noteq> 0 then extract_immediate_frame buffer
        else
          let payload_len = push_bit 16 (unat b1 AND 0x01) OR push_bit 8 (unat b2) OR unat b3
          in case checked_add 4 payload_len of
               None \<Rightarrow> Some (None, buffer)
             | Some total_len \<Rightarrow>
                 if length buffer < total_len then Some (None, buffer) else drained_opt buffer total_len })"

definition extract_rdp_frame :: "bytes \<Rightarrow> frame_answer rs" where
  "extract_rdp_frame buffer =
     (if length buffer < 4 then kept Frame_Incomplete buffer
      else do {
        b0 \<leftarrow> idx buffer 0; b1 \<leftarrow> idx buffer 1; b2 \<leftarrow> idx buffer 2; b3 \<leftarrow> idx buffer 3;
        if b0 \<noteq> 0x03 then kept (Frame_Invalid None) buffer
        else if b1 \<noteq> 0x00 then cleared (Frame_Invalid None)
        else
          let total_len = unat (u16_be b2 b3)
          in if total_len < 7 then cleared (Frame_Invalid None)
             else if length buffer < total_len then kept Frame_Incomplete buffer
             else drained buffer total_len })"

section \<open>LDAP\<close>

datatype ldap_ber_length =
    Ldap_Complete usize
  | Ldap_Incomplete
  | Ldap_Invalid
  | Ldap_TooLarge
  | Ldap_NotLdap

datatype ber_length_field =
    Ber_Complete usize usize
  | Ber_Incomplete
  | Ber_Invalid

definition frame_parse_ber_length :: "bytes \<Rightarrow> ber_length_field rs" where
  "frame_parse_ber_length data =
     (case data of
        [] \<Rightarrow> Some Ber_Incomplete
      | first_byte # _ \<Rightarrow>
          if first_byte AND 0x80 = 0 then Some (Ber_Complete (unat first_byte) 1)
          else
            let num_bytes = unat (first_byte AND 0x7F) in
            if num_bytes = 0 \<or> num_bytes > 4 then Some Ber_Invalid
            else if length data < 1 + num_bytes then Some Ber_Incomplete
            else do {
              b1 \<leftarrow> idx data 1;
              if num_bytes = 1 \<and> b1 < 128 then Some Ber_Invalid
              else if num_bytes \<noteq> 1 \<and> b1 = 0 then Some Ber_Invalid
              else do {
                body \<leftarrow> slice data 1 (num_bytes + 1);
                Some (Ber_Complete (foldl (\<lambda>n byte. push_bit 8 n OR unat byte) 0 body) (1 + num_bytes)) } })"

definition ldap_total_len :: "bytes \<Rightarrow> ldap_ber_length rs" where
  "ldap_total_len buffer =
     (if idx buffer 0 \<noteq> Some 0x30 then Some Ldap_NotLdap
      else do {
        tail \<leftarrow> slice_from buffer 1;
        field \<leftarrow> frame_parse_ber_length tail;
        Some (case field of
          Ber_Incomplete \<Rightarrow> Ldap_Incomplete
        | Ber_Invalid \<Rightarrow> Ldap_Invalid
        | Ber_Complete payload len_bytes \<Rightarrow>
            if payload > MAX_LDAP_BER_PAYLOAD_SIZE then Ldap_TooLarge
            else (case Option.bind (checked_add 1 len_bytes) (\<lambda>prefix_len. checked_add prefix_len payload) of
                    Some total_len \<Rightarrow> Ldap_Complete total_len
                  | None \<Rightarrow> Ldap_TooLarge)) })"

definition extract_ldap_frame :: "bytes \<Rightarrow> frame_answer rs" where
  "extract_ldap_frame buffer =
     (if length buffer < 2 then kept Frame_Incomplete buffer
      else do {
        r \<leftarrow> ldap_total_len buffer;
        case r of
          Ldap_Incomplete \<Rightarrow>
            if length buffer > MAX_LDAP_FRAME_SIZE then cleared (Frame_TooLarge None)
            else kept Frame_Incomplete buffer
        | Ldap_Invalid \<Rightarrow> cleared (Frame_Invalid None)
        | Ldap_TooLarge \<Rightarrow> cleared (Frame_TooLarge None)
        | Ldap_NotLdap \<Rightarrow> optional_frame (extract_immediate_frame buffer)
        | Ldap_Complete total_len \<Rightarrow>
            if total_len > MAX_LDAP_FRAME_SIZE then cleared (Frame_TooLarge None)
            else if length buffer < total_len then
              if length buffer > MAX_LDAP_FRAME_SIZE then cleared (Frame_TooLarge None)
              else kept Frame_Incomplete buffer
            else drained buffer total_len })"

section \<open>Redis\<close>

definition frame_resp_array_count :: "bytes \<Rightarrow> usize option" where
  "frame_resp_array_count t =
     (if t = [] \<or> \<not> list_all is_ascii_digit t then None else parse_digits usize_max t)"

definition frame_resp_bulk_len :: "bytes \<Rightarrow> usize option option" where
  "frame_resp_bulk_len t =
     (if t = bstr ''-1'' then Some None
      else if t = [] \<or> \<not> list_all is_ascii_digit t then None
      else map_option Some (parse_digits usize_max t))"

definition frame_find_crlf_from :: "bytes \<Rightarrow> usize \<Rightarrow> usize option" where
  "frame_find_crlf_from haystack start =
     (case slice_from haystack start of
        None \<Rightarrow> None
      | Some tail \<Rightarrow> map_option (\<lambda>offset. start + offset) (find_sub CRLF tail))"

text \<open>The loop \<open>for _ in 0..count\<close> of \<open>extract_redis_resp_array_frame\<close>.\<close>

fun redis_bulk_frames :: "bytes \<Rightarrow> nat \<Rightarrow> usize \<Rightarrow> frame_answer rs" where
  "redis_bulk_frames buffer 0 pos = drained buffer pos"
| "redis_bulk_frames buffer (Suc count) pos =
     (if pos \<ge> length buffer then kept Frame_Incomplete buffer
      else do {
        b \<leftarrow> idx buffer pos;
        if b \<noteq> 0x24 then cleared (Frame_Invalid None)
        else case frame_find_crlf_from buffer pos of
          None \<Rightarrow> kept Frame_Incomplete buffer
        | Some bulk_header_end \<Rightarrow> do {
            raw \<leftarrow> slice buffer (pos + 1) bulk_header_end;
            case from_utf8 raw of
              None \<Rightarrow> cleared (Frame_Invalid None)
            | Some bulk_len_text \<Rightarrow>
            (case frame_resp_bulk_len bulk_len_text of
              None \<Rightarrow> cleared (Frame_Invalid None)
            | Some None \<Rightarrow> cleared (Frame_Invalid None)
            | Some (Some bulk_len) \<Rightarrow>
                let pos = bulk_header_end + 2 in
                if bulk_len > MAX_REDIS_BULK_SIZE then cleared (Frame_TooLarge None)
                else case checked_add pos bulk_len of
                  None \<Rightarrow> cleared (Frame_TooLarge None)
                | Some data_end \<Rightarrow>
                (case checked_add data_end 2 of
                  None \<Rightarrow> cleared (Frame_TooLarge None)
                | Some frame_pos \<Rightarrow>
                    if frame_pos > MAX_REDIS_FRAME_SIZE then cleared (Frame_TooLarge None)
                    else if length buffer < frame_pos then kept Frame_Incomplete buffer
                    else do {
                      tail \<leftarrow> slice buffer data_end frame_pos;
                      if tail \<noteq> CRLF then cleared (Frame_Invalid None)
                      else redis_bulk_frames buffer count frame_pos })) } })"

definition extract_redis_resp_array_frame :: "bytes \<Rightarrow> frame_answer rs" where
  "extract_redis_resp_array_frame buffer =
     (case frame_find_crlf_from buffer 0 of
        None \<Rightarrow> kept Frame_Incomplete buffer
      | Some header_end \<Rightarrow> do {
          raw \<leftarrow> slice buffer 1 header_end;
          case from_utf8 raw of
            None \<Rightarrow> cleared (Frame_Invalid None)
          | Some count_text \<Rightarrow>
          (case frame_resp_array_count count_text of
            None \<Rightarrow> cleared (Frame_Invalid None)
          | Some count \<Rightarrow>
              if count = 0 then cleared (Frame_Invalid None)
              else if count > MAX_REDIS_ARRAY_COUNT then cleared (Frame_TooLarge None)
              else redis_bulk_frames buffer count (header_end + 2)) })"

definition extract_redis_frame :: "bytes \<Rightarrow> frame_answer rs" where
  "extract_redis_frame buffer =
     (if buffer = [] then kept Frame_Incomplete buffer
      else if length buffer > MAX_REDIS_FRAME_SIZE then cleared (Frame_TooLarge None)
      else do {
        b0 \<leftarrow> idx buffer 0;
        if b0 = 0x2A then extract_redis_resp_array_frame buffer
        else extract_limited_line_frame buffer MAX_LINE_FRAME_SIZE })"

section \<open>Memcached\<close>

definition extract_memcached_binary_frame :: "bytes \<Rightarrow> frame_answer rs" where
  "extract_memcached_binary_frame buffer =
     (if length buffer < 24 then kept Frame_Incomplete buffer
      else do {
        b8 \<leftarrow> idx buffer 8; b9 \<leftarrow> idx buffer 9; b10 \<leftarrow> idx buffer 10; b11 \<leftarrow> idx buffer 11;
        case checked_add 24 (unat (u32_be b8 b9 b10 b11)) of
          None \<Rightarrow> cleared (Frame_TooLarge None)
        | Some total_len \<Rightarrow>
            if total_len > MAX_MEMCACHED_FRAME_SIZE then cleared (Frame_TooLarge None)
            else if length buffer < total_len then kept Frame_Incomplete buffer
            else drained buffer total_len })"

definition parse_memcached_unsigned_decimal :: "nat \<Rightarrow> bytes \<Rightarrow> nat option" where
  "parse_memcached_unsigned_decimal limit v =
     (if v = [] \<or> \<not> list_all is_ascii_digit v then None else parse_digits limit v)"

definition memcached_storage_body_len :: "bytes \<Rightarrow> unit + usize option" where
  "memcached_storage_body_len header =
     (if list_ex (\<lambda>ch. char_is_whitespace ch \<and> ch \<noteq> 32) (chars header) then Inl ()
      else
        let parts = space_parts header in
        if list_ex (\<lambda>part. part = []) (drop 1 parts) then Inl ()
        else case parts of
          [] \<Rightarrow> Inr None
        | command # rest \<Rightarrow>
            if to_ascii_lowercase command
                 \<notin> set (map bstr [''set'', ''add'', ''replace'', ''append'', ''prepend'', ''cas''])
            then Inr None
            else if length rest \<le> 3 then Inl ()
            else (case parse_memcached_unsigned_decimal usize_max (rest ! 3) of
                    None \<Rightarrow> Inl ()
                  | Some n \<Rightarrow> Inr (Some n)))"

definition memcached_error :: bytes where
  "memcached_error = bstr ''ERROR'' @ CRLF"

text \<open>A text command whose line feed is at \<open>line_end\<close>.\<close>

definition memcached_text_frame :: "bytes \<Rightarrow> usize \<Rightarrow> frame_answer rs" where
  "memcached_text_frame buffer line_end =
     (if line_end = 0 \<or> idx buffer (line_end - 1) \<noteq> Some 0x0D
      then cleared (Frame_Invalid (Some memcached_error))
      else
        let header_len = line_end + 1 in
        if header_len > MAX_MEMCACHED_LINE_SIZE then cleared (Frame_TooLarge None)
        else do {
          header \<leftarrow> slice buffer 0 line_end;
          let header = (case strip_suffix header [0x0D] of Some h \<Rightarrow> h | None \<Rightarrow> header)
          in case from_utf8 header of
               None \<Rightarrow> cleared (Frame_Invalid None)
             | Some header_text \<Rightarrow>
             (case memcached_storage_body_len header_text of
               Inl _ \<Rightarrow> cleared (Frame_Invalid (Some memcached_error))
             | Inr None \<Rightarrow> drained buffer header_len
             | Inr (Some body_len) \<Rightarrow>
               (case checked_add header_len body_len of
                 None \<Rightarrow> cleared (Frame_TooLarge None)
               | Some body_end \<Rightarrow>
               (case checked_add body_end 2 of
                 None \<Rightarrow> cleared (Frame_TooLarge None)
               | Some total_len \<Rightarrow>
                   if total_len > MAX_MEMCACHED_FRAME_SIZE then cleared (Frame_TooLarge None)
                   else if length buffer < total_len then kept Frame_Incomplete buffer
                   else do {
                     tail \<leftarrow> slice buffer body_end total_len;
                     if tail \<noteq> CRLF then cleared (Frame_Invalid None)
                     else drained buffer total_len }))) })"

definition extract_memcached_frame :: "bytes \<Rightarrow> frame_answer rs" where
  "extract_memcached_frame buffer =
     (if buffer = [] then kept Frame_Incomplete buffer
      else do {
        b0 \<leftarrow> idx buffer 0;
        if b0 = 0x80 then extract_memcached_binary_frame buffer
        else case position (\<lambda>byte. byte = 0x0A) buffer of
          None \<Rightarrow>
            if length buffer > MAX_MEMCACHED_LINE_SIZE then cleared (Frame_TooLarge None)
            else kept Frame_Incomplete buffer
        | Some line_end \<Rightarrow> memcached_text_frame buffer line_end })"

section \<open>NKN\<close>

text \<open>What \<open>serde_json\<close> answers to \<open>Deserializer::from_slice(data).into_iter::<IgnoredAny>().next()\<close>: a value
  that ends at \<open>byte_offset\<close>, an error at the end of the input, another error, or nothing.\<close>

datatype json_next = Json_Value usize | Json_Eof | Json_Error | Json_End

type_synonym json_stream = "bytes \<Rightarrow> json_next"

definition is_ascii_whitespace :: "u8 \<Rightarrow> bool" where
  "is_ascii_whitespace b \<longleftrightarrow> b \<in> set [0x20, 0x09, 0x0A, 0x0C, 0x0D]"

definition extract_nkn_frame :: "json_stream \<Rightarrow> bytes \<Rightarrow> frame_answer rs" where
  "extract_nkn_frame js buffer =
     (if buffer = [] then kept Frame_Incomplete buffer
      else if length buffer > MAX_NKN_FRAME_SIZE then cleared (Frame_TooLarge None)
      else
        let json_start =
              (case position (\<lambda>byte. \<not> is_ascii_whitespace byte) buffer of
                 Some i \<Rightarrow> i | None \<Rightarrow> length buffer)
        in if json_start = length buffer then kept Frame_Incomplete buffer
           else do {
             b \<leftarrow> idx buffer json_start;
             if b \<noteq> 0x7B \<and> b \<noteq> 0x5B then Some (Frame_Complete buffer, [])
             else do {
               json \<leftarrow> slice_from buffer json_start;
               case js json of
                 Json_Value offset \<Rightarrow>
                   let frame_len = json_start + offset;
                       frame_len = frame_len + length (takeWhile is_ascii_whitespace (drop frame_len buffer))
                   in if frame_len \<noteq> length buffer then cleared (Frame_Invalid None)
                      else drained buffer frame_len
               | Json_Eof \<Rightarrow> kept Frame_Incomplete buffer
               | Json_Error \<Rightarrow> cleared (Frame_Invalid None)
               | Json_End \<Rightarrow> kept Frame_Incomplete buffer } })"

end
