(* ===== verification/Http_Framing.thy ===== *)
theory Http_Framing
  imports Tcp_Framing
begin

text \<open>
  Framing of HTTP requests, \<open>nettrap-cli/src/listeners/tcp_framing/http.rs\<close>: the end of the header block,
  the body by \<open>Content-Length\<close> or by chunks, and the errors that end a connection.
\<close>

section \<open>Bytes and lines\<close>

definition MAX_HTTP_HEADER_SIZE :: usize where "MAX_HTTP_HEADER_SIZE = 64 * 1024"
definition MAX_HTTP_REQUEST_SIZE :: usize where "MAX_HTTP_REQUEST_SIZE = 10 * 1024 * 1024"

definition is_http_token_byte :: "u8 \<Rightarrow> bool" where
  "is_http_token_byte byte \<longleftrightarrow> is_ascii_alphanumeric byte \<or> byte \<in> set (bstr ''!#$%&*+-.^_|~'') \<or> byte = 0x27 \<or> byte = 0x60"

definition is_http_field_value_byte :: "u8 \<Rightarrow> bool" where
  "is_http_field_value_byte byte \<longleftrightarrow> byte = 0x09 \<or> (0x20 \<le> byte \<and> byte \<le> 0x7E) \<or> 0x80 \<le> byte"

definition is_http_quoted_pair_byte :: "u8 \<Rightarrow> bool" where
  "is_http_quoted_pair_byte byte \<longleftrightarrow>
     byte = 0x09 \<or> byte = 0x20 \<or> (0x21 \<le> byte \<and> byte \<le> 0x7E) \<or> 0x80 \<le> byte"

definition is_ascii_graphic :: "u8 \<Rightarrow> bool" where
  "is_ascii_graphic byte \<longleftrightarrow> 0x21 \<le> byte \<and> byte \<le> 0x7E"

definition is_space_tab :: "u8 \<Rightarrow> bool" where
  "is_space_tab byte \<longleftrightarrow> byte = 0x20 \<or> byte = 0x09"

definition trim_ascii_space_tab :: "bytes \<Rightarrow> bytes" where
  "trim_ascii_space_tab bs = trim_matches is_space_tab bs"

text \<open>\<open>iter().enumerate().any\<close> with the condition for a line feed that no carriage return precedes, and
  the one for any broken line ending.\<close>

definition http_bare_lf :: "bytes \<Rightarrow> bool" where
  "http_bare_lf data \<longleftrightarrow>
     list_ex (\<lambda>i. data ! i = 0x0A \<and> (i = 0 \<or> data ! (i - 1) \<noteq> 0x0D)) [0..<length data]"

definition has_invalid_http_line_ending :: "bytes \<Rightarrow> bool" where
  "has_invalid_http_line_ending data \<longleftrightarrow>
     list_ex (\<lambda>i. data ! i = 0x0A \<and> (i = 0 \<or> data ! (i - 1) \<noteq> 0x0D)
        \<or> data ! i = 0x0D \<and> i + 1 < length data \<and> data ! (i + 1) \<noteq> 0x0A) [0..<length data]"

definition http_error_response :: "nat \<Rightarrow> string \<Rightarrow> bytes" where
  "http_error_response status_code reason =
     (let body = show_dec status_code @ bstr '' '' @ bstr reason @ CRLF
      in bstr ''HTTP/1.1 '' @ show_dec status_code @ bstr '' '' @ bstr reason @ CRLF
         @ bstr ''Connection: close'' @ CRLF @ bstr ''Content-Type: text/plain; charset=utf-8'' @ CRLF
         @ bstr ''Content-Length: '' @ show_dec (length body) @ CRLF @ CRLF @ body)"

definition valid_http_request_line :: "bytes \<Rightarrow> bool" where
  "valid_http_request_line headers_without_terminator =
     (if http_bare_lf headers_without_terminator then False
      else
        let line_end = (case find_subslice headers_without_terminator CRLF of
                          Some n \<Rightarrow> n | None \<Rightarrow> length headers_without_terminator);
            request_line = take line_end headers_without_terminator
        in if 0x0D \<in> set request_line then False
           else case split_on (\<lambda>byte. byte = 0x20) request_line of
             [method, target, version] \<Rightarrow>
               method \<noteq> [] \<and> list_all is_http_token_byte method
               \<and> target \<noteq> [] \<and> list_all (\<lambda>byte. is_ascii_graphic byte \<and> byte \<noteq> 0x20) target
               \<and> (version = bstr ''HTTP/1.0'' \<or> version = bstr ''HTTP/1.1'')
           | _ \<Rightarrow> False)"

section \<open>Header fields\<close>

datatype body_framing =
    Http_HeadersOnly
  | Http_ContentLength usize
  | Http_Chunked

datatype http_frame_error = Http_Invalid | Http_TooLarge

definition next_crlf_line :: "bytes \<Rightarrow> usize \<Rightarrow> (bytes \<times> usize) option rs" where
  "next_crlf_line bs start = do {
     tail \<leftarrow> slice_from bs start;
     tryo (find_sub CRLF tail) (\<lambda>relative_end.
       let e = start + relative_end in do {
         line \<leftarrow> slice bs start e;
         Some (Some (line, e + 2)) }) }"

definition parse_http_content_length :: "bytes \<Rightarrow> usize option" where
  "parse_http_content_length v =
     (let v = trim_matches is_space_tab v in
      if v = [] \<or> \<not> list_all is_ascii_digit v then None else parse_digits usize_max v)"

text \<open>The test that the trailers and the header fields share.\<close>

definition http_field_is_valid :: "bytes \<Rightarrow> bytes \<Rightarrow> bool" where
  "http_field_is_valid key v \<longleftrightarrow>
     key \<noteq> [] \<and> key = trim_ascii_space_tab key \<and> list_all is_http_token_byte key
     \<and> list_all is_http_field_value_byte v"

lemma next_crlf_line_progress:
  "next_crlf_line headers pos = Some (Some (line, next_pos)) \<Longrightarrow> pos < next_pos \<and> next_pos \<le> length headers"
  unfolding next_crlf_line_def
  by (auto simp: tryo_def bind_eq_Some_conv slice_from_Some_iff slice_Some_iff CRLF_def Let_def
      split: option.splits dest!: find_sub_Some_bound)

text \<open>One header field: the codings and the length it adds to those seen so far.\<close>

definition http_field_framing ::
    "bytes \<Rightarrow> bytes list \<Rightarrow> usize option \<Rightarrow> http_frame_error + (bytes list \<times> usize option)" where
  "http_field_framing line transfer_codings content_length =
     (case position (\<lambda>byte. byte = 0x3A) line of
        None \<Rightarrow> Inl Http_Invalid
      | Some colon \<Rightarrow>
          let name = take colon line;
              v = drop (colon + 1) line
          in if \<not> http_field_is_valid name v then Inl Http_Invalid
             else if eq_ignore_ascii_case name (bstr ''Transfer-Encoding'') then
               let codings = map trim_ascii_space_tab (split_on (\<lambda>byte. byte = 0x2C) v)
               in if list_ex (\<lambda>coding. coding = [] \<or> from_utf8 coding = None) codings then Inl Http_Invalid
                  else Inr (transfer_codings @ codings, content_length)
             else if eq_ignore_ascii_case name (bstr ''Content-Length'') then
               (case Option.bind (from_utf8 (trim_ascii_space_tab v)) parse_http_content_length of
                  None \<Rightarrow> Inl Http_Invalid
                | Some n \<Rightarrow>
                    (case content_length of
                       Some previous \<Rightarrow> if previous \<noteq> n then Inl Http_Invalid else Inr (transfer_codings, content_length)
                     | None \<Rightarrow> Inr (transfer_codings, Some n)))
             else Inr (transfer_codings, content_length))"

function http_header_loop ::
    "bytes \<Rightarrow> usize \<Rightarrow> bytes list \<Rightarrow> usize option \<Rightarrow> (http_frame_error + (bytes list \<times> usize option)) rs" where
  "http_header_loop headers pos transfer_codings content_length =
     (case next_crlf_line headers pos of
        None \<Rightarrow> None
      | Some None \<Rightarrow> Some (Inl Http_Invalid)
      | Some (Some (line, next_pos)) \<Rightarrow>
          if line = [] then Some (Inr (transfer_codings, content_length))
          else (case http_field_framing line transfer_codings content_length of
                  Inl e \<Rightarrow> Some (Inl e)
                | Inr (codings, n) \<Rightarrow> http_header_loop headers next_pos codings n))"
  by pat_completeness auto
termination
  by (relation "measure (\<lambda>(headers, pos, _). length headers - pos)")
    (auto dest!: next_crlf_line_progress)

declare http_header_loop.simps [simp del]

definition http_body_framing :: "bytes \<Rightarrow> (http_frame_error + body_framing) rs" where
  "http_body_framing headers =
     (if http_bare_lf headers then Some (Inl Http_Invalid)
      else do {
        first_line \<leftarrow> next_crlf_line headers 0;
        case first_line of
          None \<Rightarrow> Some (Inl Http_Invalid)
        | Some (request_line, pos) \<Rightarrow>
            if request_line = [] then Some (Inl Http_Invalid)
            else do {
              fields \<leftarrow> http_header_loop headers pos [] None;
              Some (case fields of
                Inl e \<Rightarrow> Inl e
              | Inr (transfer_codings, content_length) \<Rightarrow>
                  if transfer_codings \<noteq> [] then
                    if content_length \<noteq> None then Inl Http_Invalid
                    else
                      let chunked_count =
                            length (filter (\<lambda>coding. eq_ignore_ascii_case coding (bstr ''chunked'')) transfer_codings)
                      in if chunked_count = 1 \<and> length transfer_codings = 1 then Inr Http_Chunked
                         else Inl Http_Invalid
                  else (case content_length of
                    Some n \<Rightarrow> if n > MAX_HTTP_REQUEST_SIZE then Inl Http_TooLarge else Inr (Http_ContentLength n)
                  | None \<Rightarrow> Inr Http_HeadersOnly)) } })"

section \<open>Chunk headers\<close>

text \<open>\<open>while pos < bytes.len() && p(bytes[pos]) { pos += 1 }\<close>.\<close>

definition skip_while :: "(u8 \<Rightarrow> bool) \<Rightarrow> bytes \<Rightarrow> usize \<Rightarrow> usize" where
  "skip_while p bs pos = pos + length (takeWhile p (drop pos bs))"

definition skip_http_bws :: "bytes \<Rightarrow> usize \<Rightarrow> usize" where
  "skip_http_bws bs pos = skip_while is_space_tab bs pos"

definition is_ascii_hexdigit :: "u8 \<Rightarrow> bool" where
  "is_ascii_hexdigit b \<longleftrightarrow> is_ascii_digit b \<or> (0x41 \<le> b \<and> b \<le> 0x46) \<or> (0x61 \<le> b \<and> b \<le> 0x66)"

definition hex_digit_value :: "u8 \<Rightarrow> nat" where
  "hex_digit_value b =
     (if is_ascii_digit b then unat b - 48 else if b \<le> 0x46 then unat b - 55 else unat b - 87)"

text \<open>\<open>usize::from_str_radix(s, 16).ok()\<close> of a string of hexadecimal digits.\<close>

definition parse_hex :: "bytes \<Rightarrow> usize option" where
  "parse_hex s =
     (let n = foldl (\<lambda>a b. a * 16 + hex_digit_value b) 0 s in if n \<le> usize_max then Some n else None)"

text \<open>The loop over a quoted extension value, from its first byte: the position after it, and the flags
  \<open>escaped\<close> and \<open>closed\<close>; \<open>None\<close> is the early return.\<close>

fun http_quoted_loop :: "bytes \<Rightarrow> usize \<Rightarrow> bool \<Rightarrow> (usize \<times> bool \<times> bool) option" where
  "http_quoted_loop [] pos escaped = Some (pos, escaped, False)"
| "http_quoted_loop (byte # rest) pos escaped =
     (let pos = pos + 1 in
      if escaped then
        if \<not> is_http_quoted_pair_byte byte then None else http_quoted_loop rest pos False
      else if byte = 0x5C then http_quoted_loop rest pos True
      else if byte = 0x22 then Some (pos, escaped, True)
      else if (0x20 \<le> byte \<and> byte \<le> 0x7E) \<or> 0x80 \<le> byte then http_quoted_loop rest pos escaped
      else None)"

lemma http_quoted_loop_ge: "http_quoted_loop rest pos escaped = Some (e, f, c) \<Longrightarrow> pos \<le> e"
  by (induction rest arbitrary: pos escaped) (auto simp: Let_def split: if_splits dest: Suc_leD)

text \<open>The value of an extension after \<open>=\<close>: the position after it.\<close>

definition http_extension_value :: "bytes \<Rightarrow> usize \<Rightarrow> usize option rs" where
  "http_extension_value bs pos =
     (let pos = skip_http_bws bs pos in
      if pos \<ge> length bs then Some None
      else do {
        b \<leftarrow> idx bs pos;
        if b = 0x22 then
          tryo (http_quoted_loop (drop (pos + 1) bs) (pos + 1) False) (\<lambda>(pos, escaped, closed).
            Some (if escaped \<or> \<not> closed then None else Some pos))
        else
          let value_start = pos;
              pos = skip_while is_http_token_byte bs pos
          in Some (if pos = value_start then None else Some pos) })"

text \<open>One round of the loop over the extensions: the position before the next one.\<close>

definition http_extension :: "bytes \<Rightarrow> usize \<Rightarrow> usize option rs" where
  "http_extension bs pos = do {
     b \<leftarrow> idx bs pos;
     if b \<noteq> 0x3B then Some None
     else
       let pos = skip_http_bws bs (pos + 1) in
       if pos = length bs then Some None
       else
         let name_start = pos;
             pos = skip_while is_http_token_byte bs pos
         in if pos = name_start then Some None
            else
              let pos = skip_http_bws bs pos in
              if pos < length bs \<and> bs ! pos = 0x3D then do {
                r \<leftarrow> http_extension_value bs (pos + 1);
                tryo r (\<lambda>pos. Some (Some (skip_http_bws bs pos))) }
              else Some (Some (skip_http_bws bs pos)) }"

lemma http_extension_value_ge: "http_extension_value bs pos = Some (Some e) \<Longrightarrow> pos \<le> e"
  unfolding http_extension_value_def skip_http_bws_def Let_def
  by (auto simp: bind_eq_Some_conv tryo_eq_Some_Some skip_while_def split: if_splits prod.splits
      dest!: http_quoted_loop_ge)

lemma http_extension_progress: "http_extension bs pos = Some (Some e) \<Longrightarrow> pos < e"
  unfolding http_extension_def skip_http_bws_def Let_def
  by (auto simp: bind_eq_Some_conv tryo_eq_Some_Some skip_while_def split: if_splits
      dest!: http_extension_value_ge)

function http_extension_loop :: "bytes \<Rightarrow> usize \<Rightarrow> usize \<Rightarrow> usize option rs" where
  "http_extension_loop bs pos chunk_size =
     (if pos < length bs then
        (case http_extension bs pos of
           None \<Rightarrow> None
         | Some None \<Rightarrow> Some None
         | Some (Some pos) \<Rightarrow>
             if pos = length bs then Some (Some chunk_size) else http_extension_loop bs pos chunk_size)
      else Some (Some chunk_size))"
  by pat_completeness auto
termination
  by (relation "measure (\<lambda>(bs, pos, _). length bs - pos)") (auto dest!: http_extension_progress)

declare http_extension_loop.simps [simp del]

definition parse_http_chunk_size :: "bytes \<Rightarrow> usize option rs" where
  "parse_http_chunk_size bs =
     (let pos = skip_while is_ascii_hexdigit bs 0 in
      if pos = 0 then Some None
      else do {
        digits \<leftarrow> slice bs 0 pos;
        tryo (parse_hex digits) (\<lambda>chunk_size.
          let pos = skip_http_bws bs pos in
          if pos = length bs then Some (Some chunk_size) else http_extension_loop bs pos chunk_size) })"

section \<open>Chunked bodies\<close>

lemma find_crlf_progress:
  "find_subslice (drop pos bs) CRLF = Some n \<Longrightarrow> pos < length bs \<and> pos + n + 2 \<le> length bs"
  by (auto simp: find_subslice_def CRLF_def dest!: find_sub_Some_bound)

definition http_trailer_is_valid :: "bytes \<Rightarrow> bool" where
  "http_trailer_is_valid line =
     (case position (\<lambda>byte. byte = 0x3A) line of
        None \<Rightarrow> False
      | Some colon \<Rightarrow> http_field_is_valid (take colon line) (drop (colon + 1) line))"

function http_trailer_loop :: "bytes \<Rightarrow> usize \<Rightarrow> bool rs" where
  "http_trailer_loop trailers pos =
     (if length trailers < pos then None
      else case find_subslice (drop pos trailers) CRLF of
        None \<Rightarrow>
          let line = drop pos trailers in
          if line = [] then Some True else Some (http_trailer_is_valid line)
      | Some line_offset \<Rightarrow>
          let line = take line_offset (drop pos trailers);
              next_pos = pos + line_offset + 2
          in if line = [] then
               if next_pos = length trailers then Some True else http_trailer_loop trailers next_pos
             else if \<not> http_trailer_is_valid line then Some False
             else if next_pos = length trailers then Some True
             else http_trailer_loop trailers next_pos)"
  by pat_completeness auto
termination
  by (relation "measure (\<lambda>(trailers, pos). length trailers - pos)") (auto dest!: find_crlf_progress)

declare http_trailer_loop.simps [simp del]

definition chunk_trailers_are_well_formed :: "bytes \<Rightarrow> bool rs" where
  "chunk_trailers_are_well_formed trailers =
     (if http_bare_lf trailers then Some False else http_trailer_loop trailers 0)"

text \<open>One round of the loop over the chunks: the answer, or the position of the next chunk.\<close>

datatype chunk_step =
    Chunk_Return "http_frame_error + usize option"
  | Chunk_Next usize

definition http_need_more :: "bytes \<Rightarrow> chunk_step" where
  "http_need_more buffer =
     Chunk_Return (if length buffer > MAX_HTTP_REQUEST_SIZE then Inl Http_TooLarge else Inr None)"

definition http_last_chunk :: "bytes \<Rightarrow> usize \<Rightarrow> chunk_step rs" where
  "http_last_chunk buffer pos = do {
     trailers \<leftarrow> slice_from buffer pos;
     if starts_with trailers CRLF then Some (Chunk_Return (Inr (Some (pos + 2))))
     else case find_subslice trailers (CRLF @ CRLF) of
       None \<Rightarrow>
         if has_invalid_http_line_ending trailers then Some (Chunk_Return (Inl Http_Invalid))
         else Some (http_need_more buffer)
     | Some trailer_end \<Rightarrow> do {
         trailer_block \<leftarrow> slice trailers 0 trailer_end;
         ok \<leftarrow> chunk_trailers_are_well_formed trailer_block;
         if \<not> ok then Some (Chunk_Return (Inl Http_Invalid))
         else
           let total_len = pos + trailer_end + 4
           in Some (Chunk_Return (if total_len > MAX_HTTP_REQUEST_SIZE then Inl Http_TooLarge
                                  else Inr (Some total_len))) } }"

definition http_chunk_data :: "bytes \<Rightarrow> usize \<Rightarrow> usize \<Rightarrow> chunk_step rs" where
  "http_chunk_data buffer pos chunk_size =
     (case checked_add pos chunk_size of
        None \<Rightarrow> Some (Chunk_Return (Inl Http_TooLarge))
      | Some data_end \<Rightarrow>
      (case checked_add data_end 2 of
        None \<Rightarrow> Some (Chunk_Return (Inl Http_TooLarge))
      | Some frame_end \<Rightarrow>
          if frame_end > MAX_HTTP_REQUEST_SIZE then Some (Chunk_Return (Inl Http_TooLarge))
          else if length buffer < frame_end then Some (Chunk_Return (Inr None))
          else do {
            tail \<leftarrow> slice buffer data_end (data_end + 2);
            if tail \<noteq> CRLF then Some (Chunk_Return (Inl Http_Invalid)) else Some (Chunk_Next frame_end) }))"

text \<open>The chunk after its header line \<open>raw\<close>.\<close>

definition http_chunk_line :: "bytes \<Rightarrow> usize \<Rightarrow> bytes \<Rightarrow> chunk_step rs" where
  "http_chunk_line buffer pos raw =
     (case from_utf8 raw of
        None \<Rightarrow> Some (Chunk_Return (Inl Http_Invalid))
      | Some chunk_header \<Rightarrow> do {
          parsed \<leftarrow> parse_http_chunk_size chunk_header;
          case parsed of
            None \<Rightarrow> Some (Chunk_Return (Inl Http_Invalid))
          | Some chunk_size \<Rightarrow>
              if chunk_size = 0 then http_last_chunk buffer pos else http_chunk_data buffer pos chunk_size })"

definition http_chunk_step :: "bytes \<Rightarrow> usize \<Rightarrow> chunk_step rs" where
  "http_chunk_step buffer pos = do {
     tail \<leftarrow> slice_from buffer pos;
     case find_subslice tail CRLF of
       None \<Rightarrow>
         if has_invalid_http_line_ending tail then Some (Chunk_Return (Inl Http_Invalid))
         else Some (http_need_more buffer)
     | Some line_offset \<Rightarrow>
         let line_end = pos + line_offset in do {
           raw \<leftarrow> slice buffer pos line_end;
           http_chunk_line buffer (line_end + 2) raw } }"

lemma http_chunk_data_next:
  "http_chunk_data buffer pos n = Some (Chunk_Next e) \<Longrightarrow> e = pos + n + 2 \<and> e \<le> length buffer"
  by (auto simp: http_chunk_data_def bind_eq_Some_conv split: option.splits if_splits)

lemma http_last_chunk_stops: "http_last_chunk buffer pos \<noteq> Some (Chunk_Next e)"
  by (auto simp: http_last_chunk_def http_need_more_def bind_eq_Some_conv Let_def split: option.splits if_splits)

lemma http_chunk_step_progress:
  assumes "http_chunk_step buffer pos = Some (Chunk_Next e)"
  shows "pos < e \<and> e \<le> length buffer"
proof -
  have "wlp (http_chunk_step buffer pos) (\<lambda>r. \<forall>e. r = Chunk_Next e \<longrightarrow> pos < e \<and> e \<le> length buffer)"
    unfolding http_chunk_step_def http_chunk_line_def http_need_more_def wlp_rules
    by (auto simp: wlp_def http_last_chunk_stops dest!: http_chunk_data_next)
  with assms show ?thesis by (blast dest: wlpD)
qed

function extract_chunked_http_body_len :: "bytes \<Rightarrow> usize \<Rightarrow> (http_frame_error + usize option) rs" where
  "extract_chunked_http_body_len buffer pos =
     (case http_chunk_step buffer pos of
        None \<Rightarrow> None
      | Some (Chunk_Return r) \<Rightarrow> Some r
      | Some (Chunk_Next next_pos) \<Rightarrow> extract_chunked_http_body_len buffer next_pos)"
  by pat_completeness auto
termination
  by (relation "measure (\<lambda>(buffer, pos). length buffer - pos)") (auto dest!: http_chunk_step_progress)

declare extract_chunked_http_body_len.simps [simp del]

section \<open>Requests\<close>

definition bad_request :: "frame_answer rs" where
  "bad_request = cleared (Frame_Invalid (Some (http_error_response 400 ''Bad Request'')))"

definition payload_too_large :: "frame_answer rs" where
  "payload_too_large = cleared (Frame_TooLarge (Some (http_error_response 413 ''Payload Too Large'')))"

definition header_fields_too_large :: "frame_answer rs" where
  "header_fields_too_large =
     cleared (Frame_TooLarge (Some (http_error_response 431 ''Request Header Fields Too Large'')))"

definition extract_http_request_with_framing :: "bytes \<Rightarrow> usize \<Rightarrow> body_framing \<Rightarrow> frame_answer rs" where
  "extract_http_request_with_framing buffer headers_end framing =
     (case framing of
        Http_Chunked \<Rightarrow> do {
          r \<leftarrow> extract_chunked_http_body_len buffer headers_end;
          case r of
            Inr (Some total_len) \<Rightarrow> drained buffer total_len
          | Inr None \<Rightarrow> kept Frame_Incomplete buffer
          | Inl Http_Invalid \<Rightarrow> bad_request
          | Inl Http_TooLarge \<Rightarrow> payload_too_large }
      | Http_ContentLength content_length \<Rightarrow>
          (case checked_add headers_end content_length of
             None \<Rightarrow> payload_too_large
           | Some total_len \<Rightarrow>
               if total_len > MAX_HTTP_REQUEST_SIZE then payload_too_large
               else if length buffer < total_len then kept Frame_Incomplete buffer
               else drained buffer total_len)
      | Http_HeadersOnly \<Rightarrow> drained buffer headers_end)"

definition extract_http_request :: "bytes \<Rightarrow> frame_answer rs" where
  "extract_http_request buffer =
     (case find_subslice buffer (CRLF @ CRLF) of
        None \<Rightarrow>
          if length buffer > MAX_HTTP_HEADER_SIZE then header_fields_too_large
          else kept Frame_Incomplete buffer
      | Some header_end \<Rightarrow>
          let headers_end = header_end + 4 in do {
            headers \<leftarrow> slice buffer 0 headers_end;
            if header_end > MAX_HTTP_HEADER_SIZE then header_fields_too_large
            else do {
              request \<leftarrow> slice headers 0 header_end;
              if \<not> valid_http_request_line request then bad_request
              else do {
                r \<leftarrow> http_body_framing headers;
                case r of
                  Inr framing \<Rightarrow> extract_http_request_with_framing buffer headers_end framing
                | Inl Http_Invalid \<Rightarrow> bad_request
                | Inl Http_TooLarge \<Rightarrow> payload_too_large } } })"

end
