(* ===== verification/Tcp_Modes.thy ===== *)
theory Tcp_Modes
  imports Http_Framing Router
begin

text \<open>
  The choice of a framing function in \<open>nettrap-cli/src/listeners/tcp_framing.rs\<close>: from the name of the
  listener, the port, the first bytes and, last, the router. \<open>next_tcp_frame_with_mode\<close> is what the
  connection loops of \<open>tcp_handler/plain.rs\<close> and \<open>tcp_handler/wrapped.rs\<close> call for every frame.
\<close>

section \<open>Names of listeners\<close>

text \<open>\<open>str::to_lowercase\<close>. The sources compare the result with ASCII literals only. Besides the ASCII
  letters exactly two characters have ASCII letters in their lower case; every other character keeps,
  in its lower case, a character outside ASCII, and is left as it is.\<close>

definition char_lowercase :: "nat \<Rightarrow> bytes" where
  "char_lowercase c =
     (if c < 128 then [ascii_lower (word_of_nat c)]
      else if c = 0x130 then [0x69, 0xCC, 0x87]
      else if c = 0x212A then bstr ''k''
      else utf8_encode_char c)"

definition str_to_lowercase :: "bytes \<Rightarrow> bytes" where
  "str_to_lowercase s = concat (map char_lowercase (chars s))"

definition canonical_protocol_alias :: "bytes \<Rightarrow> bytes rs" where
  "canonical_protocol_alias listener_name =
     (let lower = str_to_lowercase listener_name in
      if lower = bstr ''qotd'' then Some (bstr ''quotd'')
      else if starts_with lower (bstr ''qotd-'') \<or> starts_with lower (bstr ''qotd_'')
      then do { suffix \<leftarrow> slice_from lower (length (bstr ''qotd'')); Some (bstr ''quotd'' @ suffix) }
      else Some lower)"

definition listener_name_matches_protocol :: "bytes \<Rightarrow> string \<Rightarrow> bool rs" where
  "listener_name_matches_protocol listener_name protocol =
     (if trim_matches is_space_tab listener_name \<noteq> listener_name \<or> listener_name = []
         \<or> list_ex (\<lambda>ch. char_is_control ch \<or> (char_is_whitespace ch \<and> ch \<noteq> 32)) (chars listener_name)
      then Some False
      else do {
        listener \<leftarrow> canonical_protocol_alias listener_name;
        Some (listener = bstr protocol
          \<or> (case strip_prefix listener (bstr protocol) of
               Some (byte # _) \<Rightarrow> byte = 0x2D \<or> byte = 0x5F
             | _ \<Rightarrow> False)) })"

text \<open>\<open>protocols.into_iter().find(|protocol| listener_name_matches_protocol(..))\<close>, and \<open>any\<close>.\<close>

fun find_matching :: "bytes \<Rightarrow> string list \<Rightarrow> string option rs" where
  "find_matching listener_name [] = Some None"
| "find_matching listener_name (p # ps) = do {
     hit \<leftarrow> listener_name_matches_protocol listener_name p;
     if hit then Some (Some p) else find_matching listener_name ps }"

definition matches_any :: "bytes \<Rightarrow> string list \<Rightarrow> bool rs" where
  "matches_any listener_name ps = do { r \<leftarrow> find_matching listener_name ps; Some (r \<noteq> None) }"

definition explicit_tcp_one_shot_protocol :: "bytes \<Rightarrow> string option rs" where
  "explicit_tcp_one_shot_protocol listener_name =
     find_matching listener_name [''daytime'', ''time'', ''chargen'', ''quotd'']"

section \<open>Modes\<close>

datatype frame_mode =
    Mode_DnsTcp | Mode_Http | Mode_Line | Mode_SmtpData | Mode_SshBanner | Mode_SshPayload | Mode_Mysql
  | Mode_Postgres | Mode_Socks | Mode_Smb | Mode_Rdp | Mode_Ldap | Mode_Mqtt | Mode_Tls | Mode_Redis
  | Mode_Memcached | Mode_Nkn | Mode_Immediate

definition ssh_mode :: "bool \<Rightarrow> frame_mode" where
  "ssh_mode ssh_first_packet = (if ssh_first_packet then Mode_SshBanner else Mode_SshPayload)"

text \<open>The chain of tests of \<open>protocol_frame_mode\<close>: names in the order of the source with their mode.\<close>

definition protocol_modes :: "bool \<Rightarrow> (string list \<times> frame_mode) list" where
  "protocol_modes ssh_first_packet =
     [([''dns''], Mode_DnsTcp), ([''tls'', ''ssl''], Mode_Tls), ([''http'', ''https''], Mode_Http),
      ([''upnp''], Mode_Http),
      ([''smtp'', ''smtps'', ''ftp'', ''ftps'', ''pop3'', ''pop3s'', ''imap'', ''imaps'', ''irc'', ''ircs'',
        ''telnet'', ''telnets'', ''finger'', ''ident'', ''syslogrecv''], Mode_Line),
      ([''daytime'', ''time'', ''chargen'', ''quotd'', ''dummy'', ''raw'', ''echo''], Mode_Immediate),
      ([''ssh''], ssh_mode ssh_first_packet), ([''mysql''], Mode_Mysql), ([''postgres''], Mode_Postgres),
      ([''socks''], Mode_Socks), ([''smb''], Mode_Smb), ([''rdp''], Mode_Rdp), ([''ldap''], Mode_Ldap),
      ([''ldaps''], Mode_Ldap), ([''redis''], Mode_Redis), ([''memcached''], Mode_Memcached),
      ([''mqtt''], Mode_Mqtt), ([''nkn''], Mode_Nkn)]"

fun first_matching_mode :: "bytes \<Rightarrow> (string list \<times> frame_mode) list \<Rightarrow> frame_mode option rs" where
  "first_matching_mode protocol [] = Some None"
| "first_matching_mode protocol ((names, mode) # rest) = do {
     hit \<leftarrow> matches_any protocol names;
     if hit then Some (Some mode) else first_matching_mode protocol rest }"

definition protocol_frame_mode :: "bytes \<Rightarrow> bool \<Rightarrow> frame_mode option rs" where
  "protocol_frame_mode protocol ssh_first_packet =
     first_matching_mode protocol (protocol_modes ssh_first_packet)"

definition listener_frame_mode :: "bytes \<Rightarrow> bool \<Rightarrow> frame_mode option rs" where
  "listener_frame_mode listener_name ssh_first_packet =
     (let listener = str_to_lowercase listener_name in
      if listener = bstr ''tcp'' \<or> listener = bstr ''auto'' \<or> listener = bstr ''autodetect'' then Some None
      else protocol_frame_mode listener ssh_first_packet)"

definition is_dns_over_tcp_frame :: "bytes \<Rightarrow> u16 \<Rightarrow> protocol_router \<Rightarrow> bool rs" where
  "is_dns_over_tcp_frame buffer destination_port router = do {
     split \<leftarrow> split_length_prefixed_payload buffer;
     let_else split False (\<lambda>(payload, complete).
       if complete then do {
         r \<leftarrow> route_tcp router payload destination_port;
         Some (case r of Some (name, _) \<Rightarrow> name = bstr ''dns'' | None \<Rightarrow> False) }
       else looks_like_dns_header payload) }"

definition port_frame_mode :: "u16 \<Rightarrow> bytes \<Rightarrow> protocol_router \<Rightarrow> bool \<Rightarrow> frame_mode option rs" where
  "port_frame_mode destination_port buffer router ssh_first_packet =
     (if destination_port = 53 then Some (Some Mode_DnsTcp)
      else do {
        dns \<leftarrow> is_dns_over_tcp_frame buffer destination_port router;
        Some (
          if dns then Some Mode_DnsTcp
          else if destination_port \<in> set [853, 636, 990, 992, 993, 994, 6697] then Some Mode_Tls
          else if destination_port \<in> set [443, 8443, 8883, 9443] \<and> has_tls_record_prefix buffer then Some Mode_Tls
          else if destination_port \<in> set [80, 443, 8000, 8080, 8443, 8888] then Some Mode_Http
          else if destination_port \<in> set [25, 465, 587, 2525] then Some Mode_Line
          else if destination_port = 21 then Some Mode_Line
          else if destination_port \<in> set [110, 995] then Some Mode_Line
          else if destination_port = 143 then Some Mode_Line
          else if destination_port \<in> set [194, 6667] then Some Mode_Line
          else if destination_port \<in> set [23, 79, 113, 514, 601] then Some Mode_Line
          else if destination_port \<in> set [13, 17, 19, 37] then Some Mode_Immediate
          else if destination_port = 22 then Some (ssh_mode ssh_first_packet)
          else if destination_port = 3306 then Some Mode_Mysql
          else if destination_port = 5432 then Some Mode_Postgres
          else if destination_port = 1080 then Some Mode_Socks
          else if destination_port \<in> set [139, 445] then Some Mode_Smb
          else if destination_port = 3389 then Some Mode_Rdp
          else if destination_port = 389 then Some Mode_Ldap
          else if destination_port = 6379 then Some Mode_Redis
          else if destination_port = 11211 then Some Mode_Memcached
          else if destination_port = 1883 then Some Mode_Mqtt
          else None) })"

definition tcp_frame_mode ::
    "bytes \<Rightarrow> bytes \<Rightarrow> u16 \<Rightarrow> protocol_router \<Rightarrow> bool \<Rightarrow> bool \<Rightarrow> frame_mode rs" where
  "tcp_frame_mode listener_name buffer destination_port router smtp_data_mode ssh_first_packet =
     (if smtp_data_mode then Some Mode_SmtpData
      else if has_tls_record_prefix buffer \<or> is_tls_client_hello buffer then Some Mode_Tls
      else do {
        by_name \<leftarrow> listener_frame_mode listener_name ssh_first_packet;
        case by_name of
          Some mode \<Rightarrow> Some mode
        | None \<Rightarrow> do {
            by_port \<leftarrow> port_frame_mode destination_port buffer router ssh_first_packet;
            case by_port of
              Some mode \<Rightarrow> Some mode
            | None \<Rightarrow> do {
                detected \<leftarrow> route_tcp router buffer destination_port;
                case detected of
                  Some (name, _) \<Rightarrow> do {
                    r \<leftarrow> protocol_frame_mode name ssh_first_packet;
                    Some (case r of Some mode \<Rightarrow> mode | None \<Rightarrow> Mode_Immediate) }
                | None \<Rightarrow> Some Mode_Immediate } } })"

section \<open>The next frame\<close>

fun next_tcp_frame_for_mode :: "json_stream \<Rightarrow> bytes \<Rightarrow> frame_mode \<Rightarrow> frame_answer rs" where
  "next_tcp_frame_for_mode js buffer Mode_DnsTcp = optional_frame (extract_length_prefixed_frame buffer)"
| "next_tcp_frame_for_mode js buffer Mode_Http = extract_http_request buffer"
| "next_tcp_frame_for_mode js buffer Mode_Line = extract_line_frame buffer"
| "next_tcp_frame_for_mode js buffer Mode_SshBanner = extract_line_frame buffer"
| "next_tcp_frame_for_mode js buffer Mode_SmtpData = extract_smtp_data_frame buffer"
| "next_tcp_frame_for_mode js buffer Mode_SshPayload = extract_ssh_payload_frame buffer"
| "next_tcp_frame_for_mode js buffer Mode_Mysql = extract_mysql_frame buffer"
| "next_tcp_frame_for_mode js buffer Mode_Postgres = extract_postgres_frame buffer"
| "next_tcp_frame_for_mode js buffer Mode_Socks = extract_socks_frame buffer"
| "next_tcp_frame_for_mode js buffer Mode_Smb = optional_frame (extract_smb_frame buffer)"
| "next_tcp_frame_for_mode js buffer Mode_Rdp = extract_rdp_frame buffer"
| "next_tcp_frame_for_mode js buffer Mode_Ldap = extract_ldap_frame buffer"
| "next_tcp_frame_for_mode js buffer Mode_Mqtt = extract_mqtt_frame buffer"
| "next_tcp_frame_for_mode js buffer Mode_Tls = extract_tls_frame buffer"
| "next_tcp_frame_for_mode js buffer Mode_Redis = extract_redis_frame buffer"
| "next_tcp_frame_for_mode js buffer Mode_Memcached = extract_memcached_frame buffer"
| "next_tcp_frame_for_mode js buffer Mode_Nkn = extract_nkn_frame js buffer"
| "next_tcp_frame_for_mode js buffer Mode_Immediate = optional_frame (extract_immediate_frame buffer)"

definition next_tcp_frame_with_mode ::
    "json_stream \<Rightarrow> bytes \<Rightarrow> bytes \<Rightarrow> u16 \<Rightarrow> protocol_router \<Rightarrow> bool \<Rightarrow> bool \<Rightarrow>
     (frame_mode \<times> frame_answer) rs" where
  "next_tcp_frame_with_mode js buffer listener_name destination_port router smtp_data_mode ssh_first_packet = do {
     mode \<leftarrow> tcp_frame_mode listener_name buffer destination_port router smtp_data_mode ssh_first_packet;
     frame \<leftarrow> next_tcp_frame_for_mode js buffer mode;
     Some (mode, frame) }"

definition tcp_dispatch_name_for_frame :: "bytes \<Rightarrow> frame_mode \<Rightarrow> bytes" where
  "tcp_dispatch_name_for_frame listener_name frame_mode =
     (if frame_mode = Mode_Tls then bstr ''tls'' else listener_name)"

end
