(* ===== verification/Framing_Safe.thy ===== *)
theory Framing_Safe
  imports Tcp_Modes
begin

text \<open>
  What every framing function promises: it never panics, a frame is cut from the front of the buffer
  and is not empty, an unfinished frame leaves the buffer as it is, and the bytes kept for an
  unfinished frame are bounded by the limit of the mode.
\<close>

section \<open>The contract\<close>

fun frame_ok :: "nat \<Rightarrow> bytes \<Rightarrow> frame_answer \<Rightarrow> bool" where
  "frame_ok limit buffer (Frame_Complete f, rest) \<longleftrightarrow> f \<noteq> [] \<and> buffer = f @ rest"
| "frame_ok limit buffer (Frame_Incomplete, rest) \<longleftrightarrow> rest = buffer \<and> length buffer \<le> limit"
| "frame_ok limit buffer (Frame_Invalid _, rest) \<longleftrightarrow> rest = [] \<or> rest = buffer"
| "frame_ok limit buffer (Frame_TooLarge _, rest) \<longleftrightarrow> rest = []"

lemma frame_ok_mono: "frame_ok m buffer r \<Longrightarrow> m \<le> n \<Longrightarrow> frame_ok n buffer r"
  by (cases "(n, buffer, r)" rule: frame_ok.cases) auto

named_theorems frame_rules

lemma wp_drained [frame_rules]:
  "wp (drained buffer n) (frame_ok limit buffer) \<longleftrightarrow> 0 < n \<and> n \<le> length buffer"
  by (auto simp: drained_def drain_def wp_def)

lemma wp_cleared [frame_rules]:
  "wp (cleared (Frame_Invalid e)) (frame_ok limit buffer)"
  "wp (cleared (Frame_TooLarge e)) (frame_ok limit buffer)"
  by (simp_all add: cleared_def wp_rules)

lemma wp_kept [frame_rules]:
  "wp (kept Frame_Incomplete buffer) (frame_ok limit buffer) \<longleftrightarrow> length buffer \<le> limit"
  "wp (kept (Frame_Invalid e) buffer) (frame_ok limit buffer)"
  by (simp_all add: kept_def wp_rules)

text \<open>The functions that return an option.\<close>

fun opt_frame_ok :: "nat \<Rightarrow> bytes \<Rightarrow> opt_frame_answer \<Rightarrow> bool" where
  "opt_frame_ok limit buffer (Some f, rest) \<longleftrightarrow> f \<noteq> [] \<and> buffer = f @ rest"
| "opt_frame_ok limit buffer (None, rest) \<longleftrightarrow> rest = buffer \<and> length buffer \<le> limit"

lemma wp_drained_opt [frame_rules]:
  "wp (drained_opt buffer n) (opt_frame_ok limit buffer) \<longleftrightarrow> 0 < n \<and> n \<le> length buffer"
  by (auto simp: drained_opt_def drain_def wp_def)

lemma wp_optional_frame [frame_rules]:
  "wp m (opt_frame_ok limit buffer) \<Longrightarrow> wp (optional_frame m) (frame_ok limit buffer)"
  by (auto simp: optional_frame_def wp_def split: option.splits)

lemma wp_immediate [frame_rules]: "wp (extract_immediate_frame buffer) (opt_frame_ok limit buffer)"
  by (simp add: extract_immediate_frame_def wp_rules)

section \<open>The functions\<close>

lemma two_bytes: "unat a * 256 + unat b < 65536" for a b :: u8
  using unat_u16_less [of "u16_be a b"] by (simp del: unat_u16_less)

lemma length_prefixed_ok: "wp (extract_length_prefixed_frame buffer) (opt_frame_ok 65536 buffer)"
  unfolding extract_length_prefixed_frame_def Let_def
  using two_bytes [of "buffer ! 0" "buffer ! 1"] by (auto simp: wp_rules frame_rules)

lemma tls_ok: "wp (extract_tls_frame buffer) (frame_ok MAX_TLS_RECORD_SIZE buffer)"
  unfolding extract_tls_frame_def Let_def
  by (auto simp: wp_rules frame_rules MAX_TLS_RECORD_SIZE_def)

lemma limited_line_ok: "wp (extract_limited_line_frame buffer max_len) (frame_ok max_len buffer)"
  unfolding extract_limited_line_frame_def Let_def
  by (auto simp: wp_rules frame_rules Suc_le_eq dest: position_Some_less)

lemma line_ok_frame: "wp (extract_line_frame buffer) (frame_ok MAX_LINE_FRAME_SIZE buffer)"
  unfolding extract_line_frame_def by (rule limited_line_ok)

lemma ssh_payload_ok: "wp (extract_ssh_payload_frame buffer) (frame_ok MAX_SSH_PACKET_SIZE buffer)"
  unfolding extract_ssh_payload_frame_def Let_def
  by (auto simp: wp_rules frame_rules MAX_SSH_PACKET_SIZE_def)

lemma smtp_data_ok: "wp (extract_smtp_data_frame buffer) (frame_ok MAX_SMTP_DATA_SIZE buffer)"
  unfolding extract_smtp_data_frame_def extract_smtp_data_frame_with_limit_def Let_def find_subslice_def
  by (auto simp: wp_rules frame_rules starts_with_def CRLF_def dest!: find_sub_Some_bound)

lemma mysql_ok: "wp (extract_mysql_frame buffer) (frame_ok MAX_MYSQL_FRAME_SIZE buffer)"
  unfolding extract_mysql_frame_def Let_def
  by (auto simp: wp_rules frame_rules MAX_MYSQL_FRAME_SIZE_def)

lemma postgres_ok: "wp (extract_postgres_frame buffer) (frame_ok MAX_POSTGRES_FRAME_SIZE buffer)"
  unfolding extract_postgres_frame_def Let_def
  by (auto simp: wp_rules frame_rules MAX_POSTGRES_FRAME_SIZE_def Suc_le_eq)

lemma mqtt_loop_ok:
  "0 < length buffer \<Longrightarrow> \<forall>i \<in> set is. i \<le> 4 \<Longrightarrow>
   wp (mqtt_frame_loop buffer packet_type is multiplier remaining_len) (frame_ok MAX_MQTT_FRAME_SIZE buffer)"
proof (induction "is" arbitrary: multiplier remaining_len)
  case (Cons i "is")
  have len: "length buffer \<le> i \<Longrightarrow> length buffer \<le> MAX_MQTT_FRAME_SIZE"
    using Cons.prems by (simp add: MAX_MQTT_FRAME_SIZE_def)
  show ?case
    unfolding mqtt_frame_loop.simps
    using Cons.prems by (auto simp: wp_rules frame_rules len intro: Cons.IH)
qed (simp add: frame_rules)

lemma mqtt_ok: "wp (extract_mqtt_frame buffer) (frame_ok MAX_MQTT_FRAME_SIZE buffer)"
proof -
  have "length buffer < 2 \<Longrightarrow> length buffer \<le> MAX_MQTT_FRAME_SIZE" by (simp add: MAX_MQTT_FRAME_SIZE_def)
  then show ?thesis
    unfolding extract_mqtt_frame_def Let_def
    by (auto simp: wp_rules frame_rules simp del: mqtt_frame_loop.simps intro!: mqtt_loop_ok)
qed

lemma socks4_ok: "wp (extract_socks4_frame buffer) (frame_ok MAX_SOCKS4_FRAME_SIZE buffer)"
  unfolding extract_socks4_frame_def Let_def
  by (auto simp: wp_rules frame_rules MAX_SOCKS4_FRAME_SIZE_def dest!: position_Some_less)

lemma socks5_ok: "wp (extract_socks5_frame buffer) (opt_frame_ok MAX_SOCKS4_FRAME_SIZE buffer)"
proof -
  have b: "unat b \<le> 255" for b :: u8 by simp
  show ?thesis
    unfolding extract_socks5_frame_def Let_def
    using b [of "buffer ! 1"] b [of "buffer ! 4"]
    by (auto simp: wp_rules frame_rules MAX_SOCKS4_FRAME_SIZE_def not_less usize_max_def checked_add_def simp del: unat_u8_le)
qed

lemma socks_ok: "wp (extract_socks_frame buffer) (frame_ok MAX_SOCKS4_FRAME_SIZE buffer)"
  unfolding extract_socks_frame_def
  by (cases buffer) (simp_all add: frame_rules wp_if socks4_ok socks5_ok)

lemma or_less_power: "x < 2 ^ n \<Longrightarrow> y < 2 ^ n \<Longrightarrow> x OR y < 2 ^ n" for x y :: nat
  by (metis take_bit_nat_eq_self_iff take_bit_or)

lemma smb_ok: "wp (extract_smb_frame buffer) (opt_frame_ok 131074 buffer)"
proof -
  have "push_bit 16 (a AND 1) OR push_bit 8 b OR c < 131072" if "b \<le> 255" "c \<le> 255" for a b c :: nat
  proof -
    have "push_bit 16 (a AND 1) < 2 ^ 17" by (simp add: push_bit_eq_mult and_one_eq mod_2_eq_odd)
    moreover have "push_bit 8 b < 2 ^ 17" "c < 2 ^ 17" using that by (simp_all add: push_bit_eq_mult)
    ultimately have "push_bit 16 (a AND 1) OR push_bit 8 b OR c < 2 ^ 17" by (intro or_less_power)
    then show ?thesis by simp
  qed
  from this [of "unat (buffer ! 2)" "unat (buffer ! 3)" "unat (buffer ! 1)"]
  show ?thesis
    unfolding extract_smb_frame_def Let_def
    by (auto simp: wp_rules frame_rules usize_max_def checked_add_def)
qed

lemma rdp_ok: "wp (extract_rdp_frame buffer) (frame_ok 65535 buffer)"
  unfolding extract_rdp_frame_def Let_def
  using two_bytes [of "buffer ! 2" "buffer ! 3"] by (auto simp: wp_rules frame_rules)

lemma frame_parse_ber_length_wp:
  "wp (frame_parse_ber_length data) (\<lambda>r. \<forall>n k. r = Ber_Complete n k \<longrightarrow> 1 \<le> k \<and> k \<le> 5 \<and> k \<le> length data)"
  unfolding frame_parse_ber_length_def Let_def
  by (cases data) (auto simp: wp_rules Suc_le_eq)

lemma ldap_total_len_wp:
  "wp (ldap_total_len buffer) (\<lambda>r. \<forall>n. r = Ldap_Complete n \<longrightarrow> 2 \<le> n \<and> n \<le> MAX_LDAP_FRAME_SIZE)"
  unfolding ldap_total_len_def
  by (auto simp: wp_rules idx_Some_iff Suc_le_eq MAX_LDAP_FRAME_SIZE_def bind_eq_Some_conv
      intro!: wp_call [OF frame_parse_ber_length_wp] split: ber_length_field.splits option.splits if_splits)

lemma ldap_ok: "wp (extract_ldap_frame buffer) (frame_ok MAX_LDAP_FRAME_SIZE buffer)"
proof -
  have len: "length buffer < 2 \<Longrightarrow> length buffer \<le> MAX_LDAP_FRAME_SIZE"
    by (simp add: MAX_LDAP_FRAME_SIZE_def)
  show ?thesis
    unfolding extract_ldap_frame_def wp_if wp_bind
    by (auto simp: frame_rules len intro!: wp_call [OF ldap_total_len_wp] split: ldap_ber_length.split)
qed

lemma frame_find_crlf_from_eq: "frame_find_crlf_from = find_crlf_from"
  by (simp add: fun_eq_iff frame_find_crlf_from_def find_crlf_from_def)

lemma redis_bulk_ok:
  "0 < pos \<Longrightarrow> pos \<le> length buffer \<Longrightarrow> length buffer \<le> MAX_REDIS_FRAME_SIZE \<Longrightarrow>
   wp (redis_bulk_frames buffer count pos) (frame_ok MAX_REDIS_FRAME_SIZE buffer)"
proof (induction count arbitrary: pos)
  case (Suc count)
  then show ?case
    unfolding redis_bulk_frames.simps frame_find_crlf_from_eq Let_def
    by (auto simp: wp_rules frame_rules dest: find_crlf_from_after find_crlf_from_bound intro!: Suc.IH)
qed (simp add: frame_rules)

lemma redis_ok: "wp (extract_redis_frame buffer) (frame_ok MAX_REDIS_FRAME_SIZE buffer)"
proof -
  have line: "wp (extract_limited_line_frame buffer MAX_LINE_FRAME_SIZE) (frame_ok MAX_REDIS_FRAME_SIZE buffer)"
    by (rule wp_call [OF limited_line_ok], erule frame_ok_mono)
      (simp add: MAX_LINE_FRAME_SIZE_def MAX_REDIS_FRAME_SIZE_def)
  show ?thesis
    unfolding extract_redis_frame_def extract_redis_resp_array_frame_def frame_find_crlf_from_eq
    by (auto simp: wp_rules frame_rules line dest: find_crlf_from_after find_crlf_from_bound
        intro!: redis_bulk_ok)
qed

lemma memcached_ok: "wp (extract_memcached_frame buffer) (frame_ok MAX_MEMCACHED_FRAME_SIZE buffer)"
proof -
  have bin: "wp (extract_memcached_binary_frame buffer) (frame_ok MAX_MEMCACHED_FRAME_SIZE buffer)"
    unfolding extract_memcached_binary_frame_def
    by (auto simp: wp_rules frame_rules MAX_MEMCACHED_FRAME_SIZE_def)
  have len: "length buffer \<le> MAX_MEMCACHED_LINE_SIZE \<Longrightarrow> length buffer \<le> MAX_MEMCACHED_FRAME_SIZE"
    by (simp add: MAX_MEMCACHED_LINE_SIZE_def MAX_MEMCACHED_FRAME_SIZE_def)
  show ?thesis
    unfolding extract_memcached_frame_def memcached_text_frame_def Let_def
    by (auto simp: wp_rules frame_rules bin len dest!: position_Some_less split: sum.split option.split)
qed

lemma nkn_ok: "wp (extract_nkn_frame js buffer) (frame_ok MAX_NKN_FRAME_SIZE buffer)"
  unfolding extract_nkn_frame_def Let_def
  by (auto simp: wp_rules frame_rules MAX_NKN_FRAME_SIZE_def dest: position_Some_less
      split: json_next.split option.splits)

section \<open>HTTP\<close>

lemma next_crlf_line_wp:
  "pos \<le> length bs \<Longrightarrow>
   wp (next_crlf_line bs pos) (\<lambda>r. \<forall>line e. r = Some (line, e) \<longrightarrow> pos < e \<and> e \<le> length bs)"
  unfolding next_crlf_line_def Let_def
  by (auto simp: wp_rules CRLF_def dest!: find_sub_Some_bound)

lemma http_header_loop_wp:
  "pos \<le> length headers \<Longrightarrow> wp (http_header_loop headers pos codings n) (\<lambda>_. True)"
proof (induction headers pos codings n rule: http_header_loop.induct)
  case (1 headers pos codings n)
  obtain r where r: "next_crlf_line headers pos = Some r"
    "\<forall>line e. r = Some (line, e) \<longrightarrow> pos < e \<and> e \<le> length headers"
    using next_crlf_line_wp [OF "1.prems"] by (auto simp: wp_def)
  show ?case
  proof (cases r)
    case None
    with r show ?thesis by (subst http_header_loop.simps) (simp add: wp_rules)
  next
    case (Some le)
    obtain line e where le: "le = (line, e)" by (cases le)
    with Some r "1.IH" [OF r(1) Some le [symmetric]] show ?thesis
      by (subst http_header_loop.simps) (auto simp: wp_rules split: sum.split)
  qed
qed

lemma http_body_framing_wp: "wp (http_body_framing headers) (\<lambda>_. True)"
proof -
  have "wp (http_header_loop headers pos [] None) (\<lambda>_. True)" if "pos \<le> length headers" for pos
    using that by (rule http_header_loop_wp)
  then show ?thesis
    unfolding http_body_framing_def
    by (auto simp: wp_rules intro!: wp_call [OF next_crlf_line_wp])
qed

lemma skip_while_le: "pos \<le> length bs \<Longrightarrow> skip_while p bs pos \<le> length bs"
  using length_takeWhile_le [of p "drop pos bs"] by (simp add: skip_while_def)

lemma http_quoted_loop_le:
  "http_quoted_loop rest pos escaped = Some (e, f, c) \<Longrightarrow> e \<le> pos + length rest"
  by (induction rest arbitrary: pos escaped) (fastforce simp: Let_def split: if_splits)+

lemma skip_http_bws_le: "pos \<le> length bs \<Longrightarrow> skip_http_bws bs pos \<le> length bs"
  unfolding skip_http_bws_def by (rule skip_while_le)

lemma http_extension_value_wp:
  "pos \<le> length bs \<Longrightarrow> wp (http_extension_value bs pos) (\<lambda>r. \<forall>e. r = Some e \<longrightarrow> e \<le> length bs)"
  unfolding http_extension_value_def Let_def
  by (auto simp: wp_rules skip_while_le dest!: http_quoted_loop_le)

lemma http_extension_wp:
  assumes "pos < length bs"
  shows "wp (http_extension bs pos) (\<lambda>r. \<forall>e. r = Some e \<longrightarrow> e \<le> length bs)"
proof -
  have v: "wp (http_extension_value bs (Suc p)) (\<lambda>r. \<forall>e. r = Some e \<longrightarrow> e \<le> length bs)" if "p < length bs" for p
    using that by (intro http_extension_value_wp) simp
  show ?thesis
    unfolding http_extension_def Let_def using assms
    by (auto simp: wp_rules skip_http_bws_le skip_while_le intro!: wp_call [OF v])
qed

lemma http_extension_loop_wp: "pos \<le> length bs \<Longrightarrow> wp (http_extension_loop bs pos n) (\<lambda>_. True)"
proof (induction bs pos n rule: http_extension_loop.induct)
  case (1 bs pos n)
  show ?case
  proof (cases "pos < length bs")
    case True
    then obtain r where r: "http_extension bs pos = Some r" "\<forall>e. r = Some e \<longrightarrow> e \<le> length bs"
      using http_extension_wp [of pos bs] by (auto simp: wp_def)
    with True "1.IH" [OF True r(1)] show ?thesis
      by (subst http_extension_loop.simps) (cases r; simp add: wp_rules)
  qed (subst http_extension_loop.simps, simp add: wp_rules)
qed

lemma parse_http_chunk_size_wp: "wp (parse_http_chunk_size bs) (\<lambda>_. True)"
  unfolding parse_http_chunk_size_def Let_def
  by (auto simp: wp_rules skip_http_bws_le skip_while_le intro!: http_extension_loop_wp)

lemma http_trailer_loop_wp: "pos \<le> length trailers \<Longrightarrow> wp (http_trailer_loop trailers pos) (\<lambda>_. True)"
proof (induction trailers pos rule: http_trailer_loop.induct)
  case (1 trailers pos)
  show ?case
  proof (cases "find_subslice (drop pos trailers) CRLF")
    case None
    with "1.prems" show ?thesis by (subst http_trailer_loop.simps) (simp add: wp_rules Let_def)
  next
    case (Some n)
    have "pos + n + 2 \<le> length trailers" using find_crlf_progress [OF Some] by simp
    with "1.prems" "1.IH"(1) [OF _ Some refl refl] "1.IH"(2) [OF _ Some refl refl] Some show ?thesis
      by (subst http_trailer_loop.simps) (simp add: wp_rules Let_def)
  qed
qed

fun chunk_ok :: "bytes \<Rightarrow> usize \<Rightarrow> chunk_step \<Rightarrow> bool" where
  "chunk_ok buffer pos (Chunk_Next e) \<longleftrightarrow> pos < e \<and> e \<le> length buffer"
| "chunk_ok buffer pos (Chunk_Return (Inr None)) \<longleftrightarrow> length buffer \<le> MAX_HTTP_REQUEST_SIZE"
| "chunk_ok buffer pos (Chunk_Return (Inr (Some n))) \<longleftrightarrow> 0 < n \<and> n \<le> length buffer"
| "chunk_ok buffer pos (Chunk_Return (Inl e)) \<longleftrightarrow> True"

lemma http_last_chunk_wp:
  "0 < p \<Longrightarrow> p \<le> length buffer \<Longrightarrow> wp (http_last_chunk buffer p) (chunk_ok buffer pos)"
  unfolding http_last_chunk_def http_need_more_def chunk_trailers_are_well_formed_def find_subslice_def Let_def
  by (auto simp: wp_rules starts_with_def CRLF_def dest!: find_sub_Some_bound
      intro!: wp_call [OF http_trailer_loop_wp])

lemma http_chunk_data_wp:
  "pos < p \<Longrightarrow> p \<le> length buffer \<Longrightarrow> wp (http_chunk_data buffer p n) (chunk_ok buffer pos)"
  unfolding http_chunk_data_def by (auto simp: wp_rules)

lemma http_chunk_step_wp:
  assumes "pos \<le> length buffer"
  shows "wp (http_chunk_step buffer pos) (chunk_ok buffer pos)"
proof -
  have line: "pos + n + 2 \<le> length buffer" if "find_subslice (drop pos buffer) CRLF = Some n" for n
    using find_crlf_progress [OF that] by simp
  show ?thesis
    unfolding http_chunk_step_def http_chunk_line_def http_need_more_def Let_def wp_rules
    using assms by (auto simp: wp_rules http_last_chunk_wp http_chunk_data_wp dest!: line
        intro!: wp_call [OF parse_http_chunk_size_wp])
qed

lemma chunked_body_wp:
  "pos \<le> length buffer \<Longrightarrow>
   wp (extract_chunked_http_body_len buffer pos) (\<lambda>r. chunk_ok buffer pos (Chunk_Return r))"
proof (induction buffer pos rule: extract_chunked_http_body_len.induct)
  case (1 buffer pos)
  obtain r where r: "http_chunk_step buffer pos = Some r" "chunk_ok buffer pos r"
    using http_chunk_step_wp [OF "1.prems"] by (auto simp: wp_def)
  have sub: "chunk_ok buffer e (Chunk_Return v) \<Longrightarrow> chunk_ok buffer pos (Chunk_Return v)" for e v
    by (cases "(buffer, e, Chunk_Return v)" rule: chunk_ok.cases) auto
  show ?case
  proof (cases r)
    case (Chunk_Next e)
    with r "1.IH" [OF r(1) Chunk_Next] show ?thesis
      by (subst extract_chunked_http_body_len.simps) (auto intro: wp_call sub)
  qed (use r in \<open>subst extract_chunked_http_body_len.simps, simp add: wp_rules\<close>)
qed

lemma http_ok: "wp (extract_http_request buffer) (frame_ok MAX_HTTP_REQUEST_SIZE buffer)"
proof -
  have len: "length buffer \<le> MAX_HTTP_HEADER_SIZE \<Longrightarrow> length buffer \<le> MAX_HTTP_REQUEST_SIZE"
    by (simp add: MAX_HTTP_HEADER_SIZE_def MAX_HTTP_REQUEST_SIZE_def)
  have err: "wp bad_request (frame_ok n buffer)" "wp payload_too_large (frame_ok n buffer)"
    "wp header_fields_too_large (frame_ok n buffer)" for n
    by (simp_all add: bad_request_def payload_too_large_def header_fields_too_large_def frame_rules)
  have body: "wp (extract_http_request_with_framing buffer e framing) (frame_ok MAX_HTTP_REQUEST_SIZE buffer)"
    if "0 < e" "e \<le> length buffer" for e framing
    unfolding extract_http_request_with_framing_def using that
    by (auto simp: wp_rules frame_rules err intro!: wp_call [OF chunked_body_wp]
        split: body_framing.split sum.split http_frame_error.split)
  show ?thesis
    unfolding extract_http_request_def Let_def find_subslice_def
    by (auto simp: wp_rules frame_rules err len body CRLF_def dest!: find_sub_Some_bound
        intro!: wp_call [OF http_body_framing_wp] split: sum.split http_frame_error.split)
qed

section \<open>All modes\<close>

text \<open>The most bytes a connection keeps for an unfinished frame.\<close>

fun frame_limit :: "frame_mode \<Rightarrow> usize" where
  "frame_limit Mode_DnsTcp = 65536"
| "frame_limit Mode_Http = MAX_HTTP_REQUEST_SIZE"
| "frame_limit Mode_Line = MAX_LINE_FRAME_SIZE"
| "frame_limit Mode_SshBanner = MAX_LINE_FRAME_SIZE"
| "frame_limit Mode_SmtpData = MAX_SMTP_DATA_SIZE"
| "frame_limit Mode_SshPayload = MAX_SSH_PACKET_SIZE"
| "frame_limit Mode_Mysql = MAX_MYSQL_FRAME_SIZE"
| "frame_limit Mode_Postgres = MAX_POSTGRES_FRAME_SIZE"
| "frame_limit Mode_Socks = MAX_SOCKS4_FRAME_SIZE"
| "frame_limit Mode_Smb = 131074"
| "frame_limit Mode_Rdp = 65535"
| "frame_limit Mode_Ldap = MAX_LDAP_FRAME_SIZE"
| "frame_limit Mode_Mqtt = MAX_MQTT_FRAME_SIZE"
| "frame_limit Mode_Tls = MAX_TLS_RECORD_SIZE"
| "frame_limit Mode_Redis = MAX_REDIS_FRAME_SIZE"
| "frame_limit Mode_Memcached = MAX_MEMCACHED_FRAME_SIZE"
| "frame_limit Mode_Nkn = MAX_NKN_FRAME_SIZE"
| "frame_limit Mode_Immediate = 0"

lemma immediate_ok: "wp (optional_frame (extract_immediate_frame buffer)) (frame_ok 0 buffer)"
  by (intro frame_rules)

lemmas frames_ok = length_prefixed_ok tls_ok line_ok_frame ssh_payload_ok smtp_data_ok mysql_ok postgres_ok
  socks_ok smb_ok rdp_ok ldap_ok mqtt_ok redis_ok memcached_ok nkn_ok http_ok immediate_ok

lemma next_tcp_frame_for_mode_wp:
  "wp (next_tcp_frame_for_mode js buffer mode) (frame_ok (frame_limit mode) buffer)"
  by (cases mode) (simp_all add: frames_ok wp_optional_frame)

section \<open>The choice of a mode\<close>

lemma canonical_protocol_alias_wp: "wp (canonical_protocol_alias n) (\<lambda>_. True)"
  unfolding canonical_protocol_alias_def Let_def
  by (auto simp: wp_rules starts_with_def bstr_def)

lemma listener_name_matches_protocol_wp: "wp (listener_name_matches_protocol n p) (\<lambda>_. True)"
  unfolding listener_name_matches_protocol_def
  by (auto simp: wp_rules intro!: wp_call [OF canonical_protocol_alias_wp])

lemma find_matching_wp: "wp (find_matching n ps) (\<lambda>_. True)"
  by (induction ps) (auto simp: wp_rules intro!: wp_call [OF listener_name_matches_protocol_wp])

lemma first_matching_mode_wp: "wp (first_matching_mode p ms) (\<lambda>_. True)"
proof (induction ms)
  case (Cons m ms)
  then show ?case
    by (cases m) (auto simp: wp_rules matches_any_def intro!: wp_call [OF find_matching_wp])
qed (simp add: wp_rules)

lemma protocol_frame_mode_wp: "wp (protocol_frame_mode p ssh) (\<lambda>_. True)"
  unfolding protocol_frame_mode_def by (rule first_matching_mode_wp)

lemma route_tcp_wp: "wp (route_tcp (with_default_tastes json dt du) data port) (\<lambda>_. True)"
proof -
  obtain name score where
    "route_filtered (with_default_tastes json dt du) data port (\<lambda>_. True) = Some (Some (name, score))"
    by (rule route_filtered_default [of "\<lambda>_. True" json dt du data port]) auto
  then show ?thesis
    by (auto simp: route_tcp_def route_with_default_def wp_def split: option.splits)
qed

lemma looks_like_dns_header_wp: "wp (looks_like_dns_header data) (\<lambda>_. True)"
  unfolding looks_like_dns_header_def Let_def by (auto simp: wp_rules)

lemma split_length_prefixed_wp: "wp (split_length_prefixed_payload buffer) (\<lambda>_. True)"
  unfolding split_length_prefixed_payload_def Let_def by (auto simp: wp_rules)

lemma tcp_frame_mode_wp:
  "wp (tcp_frame_mode n buffer port (with_default_tastes json dt du) smtp ssh) (\<lambda>_. True)"
proof -
  have dns: "wp (is_dns_over_tcp_frame buffer port (with_default_tastes json dt du)) (\<lambda>_. True)"
    unfolding is_dns_over_tcp_frame_def
    by (auto simp: wp_rules intro!: wp_call [OF split_length_prefixed_wp] wp_call [OF route_tcp_wp]
        looks_like_dns_header_wp)
  have port: "wp (port_frame_mode port buffer (with_default_tastes json dt du) ssh) (\<lambda>_. True)"
    unfolding port_frame_mode_def by (auto simp: wp_rules intro!: wp_call [OF dns])
  have name: "wp (listener_frame_mode n ssh) (\<lambda>_. True)"
    unfolding listener_frame_mode_def Let_def by (simp add: wp_rules protocol_frame_mode_wp)
  show ?thesis
    unfolding tcp_frame_mode_def
    by (auto simp: wp_rules intro!: wp_call [OF name] wp_call [OF port] wp_call [OF route_tcp_wp]
        wp_call [OF protocol_frame_mode_wp])
qed

text \<open>Property C8. Framing is safe on any input: for every listener name, port, buffer and state of the
  connection, with the router of \<open>with_default_tastes\<close>, a mode is chosen and its framing function
  returns without a panic. A complete frame is not empty and is cut from the front of the buffer, an
  unfinished one leaves the buffer unchanged and within the limit of the mode, and an error leaves it
  unchanged or empty.\<close>

theorem tcp_frame_safe:
  "\<exists>mode r. next_tcp_frame_with_mode js buffer listener_name destination_port
      (with_default_tastes json dt du) smtp_data_mode ssh_first_packet = Some (mode, r)
    \<and> frame_ok (frame_limit mode) buffer r"
proof -
  obtain mode where mode: "tcp_frame_mode listener_name buffer destination_port
      (with_default_tastes json dt du) smtp_data_mode ssh_first_packet = Some mode"
    using tcp_frame_mode_wp [of listener_name buffer destination_port json dt du smtp_data_mode ssh_first_packet]
    by (auto simp: wp_def)
  obtain r where "next_tcp_frame_for_mode js buffer mode = Some r" "frame_ok (frame_limit mode) buffer r"
    using next_tcp_frame_for_mode_wp [of js buffer mode] by (auto simp: wp_def)
  with mode show ?thesis by (auto simp: next_tcp_frame_with_mode_def)
qed

end
