(* ===== verification/Framing_Stream.thy ===== *)
theory Framing_Stream
  imports Framing_Safe
begin

text \<open>
  Framing of a stream that arrives in pieces. A connection appends what it reads to its buffer and takes
  frames until none is complete (the loops of \<open>tcp_handler/plain.rs\<close> and \<open>tcp_handler/wrapped.rs\<close>).
  For most modes the frames do not depend on where the stream was cut.
\<close>

section \<open>The loops\<close>

text \<open>The inner loop, for a connection whose mode does not change: the frames, and the answer that ended
  the loop with the buffer it left.\<close>

partial_function (option) frame_loop :: "(bytes \<Rightarrow> frame_answer rs) \<Rightarrow> bytes \<Rightarrow> (bytes list \<times> frame_answer) rs" where
  "frame_loop take_frame buffer = do {
     (r, rest) \<leftarrow> take_frame buffer;
     case r of
       Frame_Complete f \<Rightarrow> do { (fs, e) \<leftarrow> frame_loop take_frame rest; Some (f # fs, e) }
     | Frame_Incomplete \<Rightarrow> Some ([], (r, rest))
     | Frame_Invalid _ \<Rightarrow> Some ([], (r, rest))
     | Frame_TooLarge _ \<Rightarrow> Some ([], (r, rest)) }"

text \<open>The outer loop over the pieces read: an error ends the connection.\<close>

fun feed :: "(bytes \<Rightarrow> frame_answer rs) \<Rightarrow> bytes list \<Rightarrow> bytes \<Rightarrow> (bytes list \<times> frame_answer) rs" where
  "feed take_frame [] buffer = Some ([], (Frame_Incomplete, buffer))"
| "feed take_frame (piece # pieces) buffer = do {
     (fs, (r, rest)) \<leftarrow> frame_loop take_frame (buffer @ piece);
     if r = Frame_Incomplete then do { (gs, e) \<leftarrow> feed take_frame pieces rest; Some (fs @ gs, e) }
     else Some (fs, (r, rest)) }"

text \<open>What the peer can observe: the frames that were served, and whether the connection stays open, with
  the bytes it waits on.\<close>

definition outcome :: "bytes list \<times> frame_answer \<Rightarrow> bytes list \<times> bytes option" where
  "outcome = (\<lambda>(fs, (r, rest)). (fs, if r = Frame_Incomplete then Some rest else None))"

lemma outcome_prepend:
  "map_option outcome (map_option (\<lambda>(gs, e). (fs @ gs, e)) m) =
   map_option (\<lambda>(gs, e). (fs @ gs, e)) (map_option outcome m)"
  by (cases m) (auto simp: outcome_def)

section \<open>Answers on a longer buffer\<close>

fun is_error :: "tcp_frame_result \<Rightarrow> bool" where
  "is_error (Frame_Invalid _) = True"
| "is_error (Frame_TooLarge _) = True"
| "is_error _ = False"

text \<open>How the answer on a buffer with more bytes \<open>x\<close> follows from the one without: a complete frame is the
  same, an error stays an error.\<close>

definition extends :: "bytes \<Rightarrow> frame_answer rs \<Rightarrow> frame_answer rs \<Rightarrow> bool" where
  "extends x m m' \<longleftrightarrow>
     (\<forall>f rest. m = Some (Frame_Complete f, rest) \<longrightarrow> m' = Some (Frame_Complete f, rest @ x))
     \<and> (\<forall>r b. m = Some (r, b) \<longrightarrow> is_error r \<longrightarrow> (\<exists>r' b'. m' = Some (r', b') \<and> is_error r'))"

section \<open>Frames of a stream\<close>

text \<open>A framing function, and one whose answers do not depend on what follows as long as the buffer has a
  length that \<open>fits\<close>.\<close>

locale framer =
  fixes take_frame :: "bytes \<Rightarrow> frame_answer rs" and limit :: nat
  assumes contract: "wp (take_frame buffer) (frame_ok limit buffer)"

locale stream_framer = framer +
  fixes fits :: "nat \<Rightarrow> bool"
  assumes start: "take_frame [] = Some (Frame_Incomplete, [])"
    and fits_le: "fits n \<Longrightarrow> m \<le> n \<Longrightarrow> fits m"
    and more_bytes: "fits (length (b @ x)) \<Longrightarrow> extends x (take_frame b) (take_frame (b @ x))"

definition loop_post :: "(bytes \<Rightarrow> frame_answer rs) \<Rightarrow> nat \<Rightarrow> bytes \<Rightarrow> bytes list \<times> frame_answer \<Rightarrow> bool" where
  "loop_post take_frame limit buffer = (\<lambda>(fs, (r, rest)).
     [] \<notin> set fs \<and>
     (if r = Frame_Incomplete
      then buffer = concat fs @ rest \<and> length rest \<le> limit \<and> take_frame rest = Some (Frame_Incomplete, rest)
      else is_error r \<and> (\<exists>refused. buffer = concat fs @ refused)))"

lemma frame_loop_stop: "take_frame buffer = Some (r, rest) \<Longrightarrow> \<forall>f. r \<noteq> Frame_Complete f \<Longrightarrow>
    frame_loop take_frame buffer = Some ([], (r, rest))"
  by (subst frame_loop.simps) (cases r; simp)

lemma frame_loop_frame: "take_frame buffer = Some (Frame_Complete f, rest) \<Longrightarrow>
    frame_loop take_frame buffer = map_option (\<lambda>(fs, e). (f # fs, e)) (frame_loop take_frame rest)"
  by (subst frame_loop.simps) (cases "frame_loop take_frame rest"; auto)

context framer
begin

lemma answer_cases:
  obtains (frame) f rest where "take_frame buffer = Some (Frame_Complete f, rest)" "f \<noteq> []" "buffer = f @ rest"
  | (waiting) "take_frame buffer = Some (Frame_Incomplete, buffer)" "length buffer \<le> limit"
  | (error) r rest where "take_frame buffer = Some (r, rest)" "is_error r" "length rest \<le> length buffer"
proof -
  obtain r rest where "take_frame buffer = Some (r, rest)" "frame_ok limit buffer (r, rest)"
    using contract [of buffer] by (auto simp: wp_def)
  with that show thesis by (cases r) auto
qed

lemma loop_returns: "wp (frame_loop take_frame buffer) (loop_post take_frame limit buffer)"
proof (induction buffer rule: measure_induct_rule [where f = length])
  case (less buffer)
  show ?case
  proof (cases rule: answer_cases [of buffer])
    case (frame f rest)
    then have "length rest < length buffer" by simp
    from less.IH [OF this] obtain fs r e where
      "frame_loop take_frame rest = Some (fs, (r, e))" "loop_post take_frame limit rest (fs, (r, e))"
      by (auto simp: wp_def)
    moreover from this have "frame_loop take_frame buffer = Some (f # fs, (r, e))"
      using frame_loop_frame [of take_frame buffer f rest] frame(1) by simp
    ultimately show ?thesis using frame by (auto simp: loop_post_def wp_rules split: if_splits)
  next
    case waiting
    then show ?thesis by (simp add: frame_loop_stop wp_rules loop_post_def)
  next
    case (error r rest)
    then have "frame_loop take_frame buffer = Some ([], (r, rest))" by (intro frame_loop_stop) auto
    with error show ?thesis by (auto simp: wp_rules loop_post_def)
  qed
qed

lemma feed_returns:
  assumes "take_frame buffer = Some (Frame_Incomplete, buffer)"
  shows "wp (feed take_frame pieces buffer) (loop_post take_frame limit (buffer @ concat pieces))"
  using assms
proof (induction pieces arbitrary: buffer)
  case Nil
  then show ?case using contract [of buffer] by (simp add: wp_rules loop_post_def)
next
  case (Cons p ps)
  obtain fs r rest where l: "frame_loop take_frame (buffer @ p) = Some (fs, (r, rest))"
    "loop_post take_frame limit (buffer @ p) (fs, (r, rest))"
    using loop_returns [of "buffer @ p"] by (auto simp: wp_def)
  show ?case
  proof (cases "r = Frame_Incomplete")
    case True
    with l have rest: "take_frame rest = Some (Frame_Incomplete, rest)" "buffer @ p = concat fs @ rest" "[] \<notin> set fs"
      by (auto simp: loop_post_def)
    obtain gs r' e where g: "feed take_frame ps rest = Some (gs, (r', e))"
      "loop_post take_frame limit (rest @ concat ps) (gs, (r', e))"
      using Cons.IH [OF rest(1)] by (auto simp: wp_def)
    have all: "buffer @ concat (p # ps) = concat fs @ rest @ concat ps"
      using arg_cong [OF rest(2), of "\<lambda>z. z @ concat ps"] by simp
    have "feed take_frame (p # ps) buffer = Some (fs @ gs, (r', e))" using l(1) g(1) True by simp
    with g(2) rest(3) show ?thesis unfolding all by (auto simp: wp_rules loop_post_def split: if_splits)
  next
    case False
    with l obtain refused where r: "buffer @ p = concat fs @ refused" "is_error r" "[] \<notin> set fs"
      by (auto simp: loop_post_def)
    have all: "buffer @ concat (p # ps) = concat fs @ refused @ concat ps"
      using arg_cong [OF r(1), of "\<lambda>z. z @ concat ps"] by simp
    have "feed take_frame (p # ps) buffer = Some (fs, (r, rest))" using l(1) False by simp
    with r(2,3) False show ?thesis unfolding all by (auto simp: wp_rules loop_post_def)
  qed
qed

end

context stream_framer
begin

lemma loop_more:
  assumes "frame_loop take_frame a = Some (fs, (Frame_Incomplete, rest))" "fits (length (a @ x))"
  shows "frame_loop take_frame (a @ x) = map_option (\<lambda>(gs, e). (fs @ gs, e)) (frame_loop take_frame (rest @ x))"
  using assms
proof (induction fs arbitrary: a)
  case Nil
  show ?case
  proof (cases rule: answer_cases [of a])
    case (frame f b)
    with Nil.prems(1) show ?thesis by (auto simp: frame_loop_frame)
  next
    case waiting
    with Nil.prems(1) have "rest = a" by (simp add: frame_loop_stop)
    then show ?thesis by (cases "frame_loop take_frame (a @ x)") auto
  next
    case (error r b)
    then have "frame_loop take_frame a = Some ([], (r, b))" by (intro frame_loop_stop) auto
    with error Nil.prems(1) show ?thesis by simp
  qed
next
  case (Cons f fs)
  show ?case
  proof (cases rule: answer_cases [of a])
    case (frame g b)
    with Cons.prems(1) have g: "g = f" "frame_loop take_frame b = Some (fs, (Frame_Incomplete, rest))"
      by (auto simp: frame_loop_frame)
    have "take_frame (a @ x) = Some (Frame_Complete f, b @ x)"
      using more_bytes [OF Cons.prems(2)] frame(1) g(1) by (simp add: extends_def)
    moreover have "fits (length (b @ x))" using Cons.prems(2) frame(3) by (auto intro: fits_le)
    ultimately show ?thesis using Cons.IH [OF g(2)]
      by (cases "frame_loop take_frame (rest @ x)") (auto simp: frame_loop_frame)
  next
    case waiting
    with Cons.prems(1) show ?thesis by (simp add: frame_loop_stop)
  next
    case (error r b)
    then have "frame_loop take_frame a = Some ([], (r, b))" by (intro frame_loop_stop) auto
    with Cons.prems(1) show ?thesis by simp
  qed
qed

lemma loop_error:
  assumes "frame_loop take_frame a = Some (fs, (r, rest))" "is_error r" "fits (length (a @ x))"
  shows "\<exists>r' rest'. frame_loop take_frame (a @ x) = Some (fs, (r', rest')) \<and> is_error r'"
  using assms
proof (induction fs arbitrary: a)
  case Nil
  show ?case
  proof (cases rule: answer_cases [of a])
    case (error e b)
    then have "\<exists>r' b'. take_frame (a @ x) = Some (r', b') \<and> is_error r'"
      using more_bytes [OF Nil.prems(3)] by (auto simp: extends_def)
    then obtain r' b' where "take_frame (a @ x) = Some (r', b')" "is_error r'" by blast
    moreover from this have "\<forall>f. r' \<noteq> Frame_Complete f" by auto
    ultimately show ?thesis using frame_loop_stop [of take_frame "a @ x" r' b'] by auto
  qed (use Nil.prems in \<open>auto simp: frame_loop_frame frame_loop_stop\<close>)
next
  case (Cons f fs)
  show ?case
  proof (cases rule: answer_cases [of a])
    case (frame g b)
    with Cons.prems(1) have g: "g = f" "frame_loop take_frame b = Some (fs, (r, rest))"
      by (auto simp: frame_loop_frame)
    have "take_frame (a @ x) = Some (Frame_Complete f, b @ x)"
      using more_bytes [OF Cons.prems(3)] frame(1) g(1) by (simp add: extends_def)
    moreover have "fits (length (b @ x))" using Cons.prems(3) frame(3) by (auto intro: fits_le)
    ultimately show ?thesis using Cons.IH [OF g(2) Cons.prems(2)] by (auto simp: frame_loop_frame)
  next
    case (error e b)
    then have "frame_loop take_frame a = Some ([], (e, b))" by (intro frame_loop_stop) auto
    with Cons.prems(1) show ?thesis by simp
  qed (use Cons.prems in \<open>simp add: frame_loop_stop\<close>)
qed

text \<open>The pieces do not matter: only their concatenation does.\<close>

lemma feed_outcome:
  assumes "take_frame buffer = Some (Frame_Incomplete, buffer)" "fits (length (buffer @ concat pieces))"
  shows "map_option outcome (feed take_frame pieces buffer) =
    map_option outcome (frame_loop take_frame (buffer @ concat pieces))"
  using assms
proof (induction pieces arbitrary: buffer)
  case (Cons p ps)
  obtain fs r rest where l: "frame_loop take_frame (buffer @ p) = Some (fs, (r, rest))"
    "loop_post take_frame limit (buffer @ p) (fs, (r, rest))"
    using loop_returns [of "buffer @ p"] by (auto simp: wp_def)
  have fits: "fits (length ((buffer @ p) @ concat ps))" using Cons.prems(2) by simp
  show ?case
  proof (cases "r = Frame_Incomplete")
    case True
    with l have rest: "take_frame rest = Some (Frame_Incomplete, rest)" "buffer @ p = concat fs @ rest"
      by (auto simp: loop_post_def)
    have "fits (length (rest @ concat ps))"
      using fits by (rule fits_le) (use arg_cong [OF rest(2), of length] in simp)
    with Cons.IH [OF rest(1)] have "map_option outcome (feed take_frame ps rest) =
        map_option outcome (frame_loop take_frame (rest @ concat ps))" .
    moreover have "frame_loop take_frame (buffer @ concat (p # ps)) =
        map_option (\<lambda>(gs, e). (fs @ gs, e)) (frame_loop take_frame (rest @ concat ps))"
      using loop_more [OF _ fits] l(1) True by simp
    moreover have "feed take_frame (p # ps) buffer =
        map_option (\<lambda>(gs, e). (fs @ gs, e)) (feed take_frame ps rest)"
      using l(1) True by (cases "feed take_frame ps rest") auto
    ultimately show ?thesis by (simp add: outcome_prepend)
  next
    case False
    with l have "is_error r" by (auto simp: loop_post_def)
    with loop_error [OF l(1) _ fits] obtain r' rest' where
      "frame_loop take_frame (buffer @ concat (p # ps)) = Some (fs, (r', rest'))" "is_error r'" by auto
    with l(1) False show ?thesis by (auto simp: outcome_def)
  qed
qed (simp add: frame_loop_stop)

lemma feed_segments:
  assumes "concat pieces = concat pieces'" "fits (length (concat pieces))"
  shows "map_option outcome (feed take_frame pieces []) = map_option outcome (feed take_frame pieces' [])"
  using feed_outcome [OF start, of pieces] feed_outcome [OF start, of pieces'] assms by simp

end

named_theorems extends_rules

lemma extends_drained [extends_rules]: "extends x (drained b n) (drained (b @ x) n)"
  by (auto simp: extends_def drained_def drain_def)

lemma extends_error [extends_rules]:
  "is_error r \<Longrightarrow> is_error r' \<Longrightarrow> extends x (cleared r) (cleared r')"
  "is_error r \<Longrightarrow> is_error r' \<Longrightarrow> extends x (kept r b) (kept r' b')"
  by (auto simp: extends_def cleared_def kept_def)

lemma extends_waiting [extends_rules]: "extends x (kept Frame_Incomplete b) m"
  by (auto simp: extends_def kept_def)

text \<open>Both sides take the same branch, or the shorter buffer is still waiting.\<close>

lemma extends_if: "(c \<Longrightarrow> extends x A A') \<Longrightarrow> (\<not> c \<Longrightarrow> extends x B B') \<Longrightarrow>
    extends x (if c then A else B) (if c then A' else B')"
  by simp

lemma extends_need: "(n \<le> length b \<Longrightarrow> extends x B B') \<Longrightarrow>
    extends x (if length b < n then kept Frame_Incomplete b else B) (if length (b @ x) < n then A' else B')"
  by (simp add: extends_waiting)

lemma extends_past: "(i < length b \<Longrightarrow> extends x B B') \<Longrightarrow>
    extends x (if i \<ge> length b then kept Frame_Incomplete b else B) (if i \<ge> length (b @ x) then A' else B')"
  by (simp add: extends_waiting)

lemma extends_bind: "(\<And>v. m = Some v \<Longrightarrow> extends x (f v) (g v)) \<Longrightarrow> extends x (Option.bind m f) (Option.bind m g)"
  by (cases m) (simp_all add: extends_def)

lemma extends_option: "(v = None \<Longrightarrow> extends x A A') \<Longrightarrow> (\<And>w. v = Some w \<Longrightarrow> extends x (B w) (B' w)) \<Longrightarrow>
    extends x (case v of None \<Rightarrow> A | Some w \<Rightarrow> B w) (case v of None \<Rightarrow> A' | Some w \<Rightarrow> B' w)"
  by (cases v) simp_all

lemma extends_found: "(\<And>w. v = Some w \<Longrightarrow> v' = Some w) \<Longrightarrow> (\<And>w. v = Some w \<Longrightarrow> extends x (B w) (B' w)) \<Longrightarrow>
    extends x (case v of None \<Rightarrow> kept Frame_Incomplete b | Some w \<Rightarrow> B w) (case v' of None \<Rightarrow> A' | Some w \<Rightarrow> B' w)"
  by (cases v) (simp_all add: extends_waiting)

lemma extends_sum: "(\<And>w. v = Inl w \<Longrightarrow> extends x (A w) (A' w)) \<Longrightarrow> (\<And>w. v = Inr w \<Longrightarrow> extends x (B w) (B' w)) \<Longrightarrow>
    extends x (case v of Inl w \<Rightarrow> A w | Inr w \<Rightarrow> B w) (case v of Inl w \<Rightarrow> A' w | Inr w \<Rightarrow> B' w)"
  by (cases v) simp_all

lemma extends_idx: "i < length b \<Longrightarrow> extends x (f (b ! i)) (g (b ! i)) \<Longrightarrow>
    extends x (Option.bind (idx b i) f) (Option.bind (idx (b @ x) i) g)"
  by (simp add: nth_append)

lemma extends_slice: "j \<le> length b \<Longrightarrow> (\<And>v. slice b i j = Some v \<Longrightarrow> extends x (f v) (g v)) \<Longrightarrow>
    extends x (Option.bind (slice b i j) f) (Option.bind (slice (b @ x) i j) g)"
  by (cases "i \<le> j") (auto simp: extends_def slice_def)

lemmas extends_intros = extends_idx extends_slice extends_past extends_if extends_need extends_bind extends_option extends_sum extends_drained
  extends_waiting extends_error is_error.simps(1,2) [THEN iffD2, OF TrueI]

lemma position_append: "position p xs = Some i \<Longrightarrow> position p (xs @ ys) = Some i"
  by (induction xs arbitrary: i) (auto split: if_splits)

lemma position_append_None:
  assumes "position p xs = None" "position p (xs @ ys) = Some i"
  shows "length xs \<le> i"
  using assms by (induction xs arbitrary: i) (auto split: if_splits)

lemma take_Cons_append: "n \<le> Suc (length xs) \<Longrightarrow> take n (x # xs @ ys) = take n (x # xs)"
  using take_append [of n "x # xs" ys] by simp

lemma find_sub_append: "find_sub pat xs = Some i \<Longrightarrow> find_sub pat (xs @ ys) = Some i"
proof (induction xs arbitrary: i)
  case Nil
  then show ?case by (cases ys) (auto split: if_splits)
next
  case (Cons x xs)
  have "length pat \<le> Suc (length xs)" using find_sub_Some_bound [OF Cons.prems] by simp
  with Cons show ?case by (auto simp: take_Cons_append split: if_splits)
qed

lemma find_sub_append_None:
  assumes "find_sub pat xs = None" "find_sub pat (xs @ ys) = Some i"
  shows "length xs < i + length pat"
proof (rule ccontr)
  assume "\<not> length xs < i + length pat"
  then have "find_sub pat xs = Some i" using assms(2)
  proof (induction xs arbitrary: i)
    case (Cons x xs)
    then show ?case by (cases i) (auto simp: take_Cons_append split: if_splits)
  qed (cases ys; auto split: if_splits)
  with assms(1) show False by simp
qed

section \<open>The modes\<close>

lemma extends_length_prefixed:
  "extends x (optional_frame (extract_length_prefixed_frame b)) (optional_frame (extract_length_prefixed_frame (b @ x)))"
proof (cases "length b < 2")
  case False
  then have "idx b 0 = Some (b ! 0)" "idx (b @ x) 0 = Some (b ! 0)" by (auto simp: idx_def nth_append)
  with False show ?thesis
    by (auto simp: extract_length_prefixed_frame_def optional_frame_def drained_opt_def drain_def
        extends_def nth_append Let_def)
qed (simp add: extract_length_prefixed_frame_def optional_frame_def extends_def)

lemma extends_tls: "extends x (extract_tls_frame b) (extract_tls_frame (b @ x))"
  by (auto simp: extract_tls_frame_def has_tls_record_prefix_def has_supported_tls_record_header_def
      nth_append Let_def extends_rules)

lemma extends_limited_line:
  "extends x (extract_limited_line_frame b n) (extract_limited_line_frame (b @ x) n)"
  by (auto simp: extract_limited_line_frame_def Let_def extends_rules position_append split: option.split
      dest: position_append_None)

lemma extends_ssh: "extends x (extract_ssh_payload_frame b) (extract_ssh_payload_frame (b @ x))"
  unfolding extract_ssh_payload_frame_def Let_def by (intro extends_intros) auto

lemma extends_mysql: "extends x (extract_mysql_frame b) (extract_mysql_frame (b @ x))"
  unfolding extract_mysql_frame_def Let_def by (intro extends_intros) auto

lemma extends_rdp: "extends x (extract_rdp_frame b) (extract_rdp_frame (b @ x))"
  unfolding extract_rdp_frame_def Let_def by (intro extends_intros) auto

lemma starts_with_append: "length p \<le> length b \<Longrightarrow> starts_with (b @ x) p = starts_with b p"
  by (simp add: starts_with_def)

lemma extends_smtp_data: "extends x (extract_smtp_data_frame b) (extract_smtp_data_frame (b @ x))"
proof -
  let ?eom = "CRLF @ [0x2E] @ CRLF"
  have len: "length ?eom = 5" "length ([0x2E] @ CRLF) = 3" by (simp_all add: CRLF_def)
  have max: "3 \<le> MAX_SMTP_DATA_SIZE" by (simp add: MAX_SMTP_DATA_SIZE_def)
  show ?thesis
  proof (cases "length b < 3")
    case True
    then have "find_sub ?eom b = None"
      using find_sub_Some_bound [of ?eom b] len(1) by (cases "find_sub ?eom b") auto
    moreover have "\<not> starts_with b ([0x2E] @ CRLF)" using True len(2) by (auto simp: starts_with_def)
    ultimately show ?thesis using True max
      by (simp add: extract_smtp_data_frame_def extract_smtp_data_frame_with_limit_def find_subslice_def
          extends_rules)
  next
    case False
    have sw: "starts_with (b @ x) ([0x2E] @ CRLF) = starts_with b ([0x2E] @ CRLF)"
      using False len(2) by (intro starts_with_append) simp
    show ?thesis
    proof (cases "find_sub ?eom b")
      case None
      then show ?thesis using sw find_sub_append_None [OF None, of x] len(1)
        by (auto simp: extract_smtp_data_frame_def extract_smtp_data_frame_with_limit_def find_subslice_def
            extends_rules Let_def split: option.split)
    next
      case (Some i)
      then show ?thesis using sw find_sub_append [OF Some, of x]
        by (auto simp: extract_smtp_data_frame_def extract_smtp_data_frame_with_limit_def find_subslice_def
            extends_rules Let_def)
    qed
  qed
qed

lemma extends_mqtt_loop:
  "b \<noteq> [] \<Longrightarrow> extends x (mqtt_frame_loop b pt is m n) (mqtt_frame_loop (b @ x) pt is m n)"
proof (induction "is" arbitrary: m n)
  case (Cons i "is")
  then show ?case unfolding mqtt_frame_loop.simps by (intro extends_intros Cons.IH) auto
qed (simp add: extends_rules)

lemma extends_mqtt: "extends x (extract_mqtt_frame b) (extract_mqtt_frame (b @ x))"
  unfolding extract_mqtt_frame_def Let_def by (intro extends_intros extends_mqtt_loop) auto

lemma extends_memcached_binary:
  "extends x (extract_memcached_binary_frame b) (extract_memcached_binary_frame (b @ x))"
  unfolding extract_memcached_binary_frame_def by (intro extends_intros) auto

lemma extends_memcached_text:
  assumes "line_end < length b"
  shows "extends x (memcached_text_frame b line_end) (memcached_text_frame (b @ x) line_end)"
proof -
  have p: "idx (b @ x) (line_end - 1) = idx b (line_end - 1)" using assms by (auto simp: idx_def nth_append)
  show ?thesis
    unfolding memcached_text_frame_def p Let_def by (intro extends_intros) (use assms in auto)
qed

lemma memcached_text_late:
  assumes "MAX_MEMCACHED_LINE_SIZE < line_end + 1"
  shows "\<exists>r. memcached_text_frame b line_end = cleared r \<and> is_error r"
  using assms by (auto simp: memcached_text_frame_def)

lemma extends_memcached: "extends x (extract_memcached_frame b) (extract_memcached_frame (b @ x))"
proof (cases "b = []")
  case False
  let ?nl = "\<lambda>byte. byte = (0x0A :: u8)"
  have text_mode: "extends x
      (case position ?nl b of None \<Rightarrow> if length b > MAX_MEMCACHED_LINE_SIZE then cleared (Frame_TooLarge None)
         else kept Frame_Incomplete b | Some n \<Rightarrow> memcached_text_frame b n)
      (case position ?nl (b @ x) of None \<Rightarrow> if length (b @ x) > MAX_MEMCACHED_LINE_SIZE then cleared (Frame_TooLarge None)
         else kept Frame_Incomplete (b @ x) | Some n \<Rightarrow> memcached_text_frame (b @ x) n)"
  proof (cases "position ?nl b")
    case None
    show ?thesis
    proof (cases "position ?nl (b @ x)")
      case (Some n)
      with position_append_None [OF None Some] memcached_text_late [of n "b @ x"] None show ?thesis
        by (auto simp: extends_rules)
    qed (use None in \<open>simp add: extends_rules\<close>)
  next
    case (Some n)
    with extends_memcached_text [OF position_Some_less [OF Some]] show ?thesis by (simp add: position_append)
  qed
  with False extends_memcached_binary show ?thesis by (simp add: extract_memcached_frame_def nth_append)
qed (simp add: extract_memcached_frame_def extends_waiting)

lemma find_crlf_from_append:
  assumes "find_crlf_from b pos = Some i"
  shows "find_crlf_from (b @ x) pos = Some i"
  using assms find_sub_append [of CRLF "drop pos b" _ x]
  by (auto simp: find_crlf_from_def slice_from_def split: if_splits)

lemma extends_redis_bulks:
  "pos \<le> length b \<Longrightarrow> extends x (redis_bulk_frames b count pos) (redis_bulk_frames (b @ x) count pos)"
proof (induction count arbitrary: pos)
  case (Suc count)
  show ?case
    unfolding redis_bulk_frames.simps frame_find_crlf_from_eq Let_def
    by (intro extends_intros extends_found find_crlf_from_append Suc.IH)
      (auto dest: find_crlf_from_bound)
qed (simp add: extends_rules)

lemma extends_redis:
  assumes "length (b @ x) \<le> MAX_REDIS_FRAME_SIZE"
  shows "extends x (extract_redis_frame b) (extract_redis_frame (b @ x))"
proof (cases "b = []")
  case False
  have "extends x (extract_redis_resp_array_frame b) (extract_redis_resp_array_frame (b @ x))"
    unfolding extract_redis_resp_array_frame_def frame_find_crlf_from_eq
    by (intro extends_intros extends_found find_crlf_from_append extends_redis_bulks)
      (auto dest: find_crlf_from_bound)
  with False assms extends_limited_line show ?thesis
    by (simp add: extract_redis_frame_def nth_append)
qed (simp add: extract_redis_frame_def extends_waiting)

end
