(* ===== verification/Http_Stream.thy ===== *)
theory Http_Stream
  imports Framing_Stream
begin

text \<open>
  HTTP requests on a longer buffer: a request that is complete stays so, and one that is refused is
  refused whatever follows. The second part needs that a broken line ending, which the chunk reader
  reports before the line is complete, is also refused once the line is there.
\<close>

section \<open>Chunk headers have no line endings\<close>

definition clean :: "bytes \<Rightarrow> nat \<Rightarrow> nat \<Rightarrow> bool" where
  "clean bs a b \<longleftrightarrow> (\<forall>i. a \<le> i \<and> i < b \<longrightarrow> i < length bs \<and> bs ! i \<noteq> 0x0D \<and> bs ! i \<noteq> 0x0A)"

lemma clean_trans: "clean bs a b \<Longrightarrow> clean bs b c \<Longrightarrow> clean bs a c"
  unfolding clean_def by (metis not_less)

lemma clean_byte: "a < length bs \<Longrightarrow> bs ! a \<noteq> 0x0D \<Longrightarrow> bs ! a \<noteq> 0x0A \<Longrightarrow> clean bs a (Suc a)"
  unfolding clean_def by (metis le_antisym less_Suc_eq_le)

lemma clean_skip:
  assumes "\<And>c. p c \<Longrightarrow> c \<noteq> 0x0D \<and> c \<noteq> 0x0A"
  shows "clean bs pos (skip_while p bs pos)"
proof -
  have "i < length bs \<and> p (bs ! i)" if "pos \<le> i" "i < pos + length (takeWhile p (drop pos bs))" for i
  proof -
    let ?t = "takeWhile p (drop pos bs)"
    have j: "i - pos < length ?t" using that by linarith
    then have "p (?t ! (i - pos))" by (metis nth_mem set_takeWhileD)
    moreover have "?t ! (i - pos) = bs ! i" using j that(1) length_takeWhile_le [of p "drop pos bs"]
      by (simp add: takeWhile_nth)
    ultimately show ?thesis using that length_takeWhile_le [of p "drop pos bs"] by simp
  qed
  with assms show ?thesis unfolding clean_def skip_while_def by blast
qed

lemma byte_classes:
  "is_space_tab c \<Longrightarrow> c \<noteq> 0x0D \<and> c \<noteq> 0x0A"
  "is_http_token_byte c \<Longrightarrow> c \<noteq> 0x0D \<and> c \<noteq> 0x0A"
  "is_ascii_hexdigit c \<Longrightarrow> c \<noteq> 0x0D \<and> c \<noteq> 0x0A"
  "is_http_quoted_pair_byte c \<Longrightarrow> c \<noteq> 0x0D \<and> c \<noteq> 0x0A"
  "is_http_field_value_byte c \<Longrightarrow> c \<noteq> 0x0D \<and> c \<noteq> 0x0A"
  by (auto simp: is_space_tab_def is_http_token_byte_def is_ascii_hexdigit_def is_http_quoted_pair_byte_def
      is_http_field_value_byte_def is_ascii_alphanumeric_def is_ascii_alphabetic_def is_ascii_digit_def
      is_ascii_uppercase_def is_ascii_lowercase_def bstr_def)

lemmas clean_skips = clean_skip [OF byte_classes(1)] clean_skip [OF byte_classes(2)] clean_skip [OF byte_classes(3)]

lemma clean_bws: "clean bs pos (skip_http_bws bs pos)"
  unfolding skip_http_bws_def by (rule clean_skips)

lemma http_quoted_loop_bytes:
  "http_quoted_loop rest pos escaped = Some (e, f, c) \<Longrightarrow>
   \<exists>u v. rest = u @ v \<and> e = pos + length u \<and> 0x0D \<notin> set u \<and> 0x0A \<notin> set u"
proof (induction rest arbitrary: pos escaped)
  case (Cons byte rest)
  have byte: "byte \<noteq> 0x0D" "byte \<noteq> 0x0A"
    using Cons.prems byte_classes(4) [of byte] by (auto simp: Let_def split: if_splits)
  have "(\<exists>esc. http_quoted_loop rest (pos + 1) esc = Some (e, f, c)) \<or> e = pos + 1"
    using Cons.prems by (auto simp: Let_def split: if_splits)
  then show ?case
  proof
    assume "\<exists>esc. http_quoted_loop rest (pos + 1) esc = Some (e, f, c)"
    then obtain u v where "rest = u @ v" "e = pos + 1 + length u" "0x0D \<notin> set u" "0x0A \<notin> set u"
      using Cons.IH by blast
    with byte show ?thesis by (intro exI [of _ "byte # u"] exI [of _ v]) auto
  next
    assume "e = pos + 1"
    with byte show ?thesis by (intro exI [of _ "[byte]"] exI [of _ rest]) auto
  qed
qed simp

lemma quoted_clean:
  assumes "http_quoted_loop (drop pos bs) pos escaped = Some (e, f, c)" "pos \<le> length bs"
  shows "clean bs pos e"
proof -
  obtain u v where uv: "drop pos bs = u @ v" "e = pos + length u" "0x0D \<notin> set u" "0x0A \<notin> set u"
    using http_quoted_loop_bytes [OF assms(1)] by blast
  have "i < length bs \<and> bs ! i \<in> set u" if "pos \<le> i" "i < e" for i
  proof -
    have i: "i - pos < length u" "i = pos + (i - pos)" using that uv(2) by simp_all
    have "length bs - pos = length u + length v" using arg_cong [OF uv(1), of length] by simp
    with i that have "i < length bs" by linarith
    moreover have "bs ! i = u ! (i - pos)"
      using nth_drop [OF assms(2), of "i - pos"] uv(1) i by (simp add: nth_append)
    ultimately show ?thesis using i(1) by simp
  qed
  with uv(3, 4) show ?thesis unfolding clean_def by metis
qed

lemma extension_value_clean:
  assumes "http_extension_value bs pos = Some (Some e)"
  shows "clean bs pos e"
proof -
  let ?p = "skip_http_bws bs pos"
  have p: "clean bs pos ?p" by (rule clean_bws)
  have "clean bs ?p e" if "?p < length bs"
  proof (cases "bs ! ?p = 0x22")
    case True
    with assms that obtain f c where "http_quoted_loop (drop (?p + 1) bs) (?p + 1) False = Some (e, f, c)"
      by (auto simp: http_extension_value_def Let_def tryo_eq_Some_Some split: if_splits)
    then have "clean bs (Suc ?p) e" using that by (auto dest: quoted_clean)
    moreover have "clean bs ?p (Suc ?p)" using True that by (intro clean_byte) auto
    ultimately show ?thesis by (blast intro: clean_trans)
  next
    case False
    with assms that have "e = skip_while is_http_token_byte bs ?p"
      by (auto simp: http_extension_value_def Let_def split: if_splits)
    then show ?thesis using clean_skips(2) by blast
  qed
  moreover have "?p < length bs" using assms by (auto simp: http_extension_value_def Let_def split: if_splits)
  ultimately show ?thesis using p by (blast intro: clean_trans)
qed

lemma extension_clean:
  assumes "http_extension bs pos = Some (Some e)"
  shows "clean bs pos e"
proof -
  let ?n = "skip_http_bws bs (pos + 1)"
  let ?m = "skip_while is_http_token_byte bs ?n"
  let ?q = "skip_http_bws bs ?m"
  have pos: "pos < length bs" "bs ! pos = 0x3B"
    using assms by (auto simp: http_extension_def idx_Some_iff bind_eq_Some_conv split: if_splits)
  have "clean bs pos (pos + 1)" using clean_byte [OF pos(1)] pos(2) by simp
  then have q: "clean bs pos ?q"
    using clean_bws clean_skips(2) by (blast intro: clean_trans)
  have "(\<exists>v. http_extension_value bs (?q + 1) = Some (Some v) \<and> e = skip_http_bws bs v
        \<and> ?q < length bs \<and> bs ! ?q = 0x3D) \<or> e = skip_http_bws bs ?q"
    using assms pos
    by (auto simp: http_extension_def Let_def bind_eq_Some_conv tryo_eq_Some_Some split: if_splits)
  then show ?thesis
  proof (elim disjE exE conjE)
    fix v
    assume v: "http_extension_value bs (?q + 1) = Some (Some v)" "e = skip_http_bws bs v"
      "?q < length bs" "bs ! ?q = 0x3D"
    have "clean bs ?q (?q + 1)" using clean_byte [OF v(3)] v(4) by simp
    with q extension_value_clean [OF v(1)] clean_bws [of bs v] v(2) show ?thesis by (blast intro: clean_trans)
  next
    assume "e = skip_http_bws bs ?q"
    with q clean_bws [of bs ?q] show ?thesis by (blast intro: clean_trans)
  qed
qed

lemma extension_loop_clean:
  "http_extension_loop bs pos n = Some (Some k) \<Longrightarrow> clean bs pos (length bs)"
proof (induction bs pos n rule: http_extension_loop.induct)
  case (1 bs pos n)
  show ?case
  proof (cases "pos < length bs")
    case True
    with "1.prems" obtain e where e: "http_extension bs pos = Some (Some e)"
      "e = length bs \<or> http_extension_loop bs e n = Some (Some k)" "e \<noteq> length bs \<or> e = length bs"
      by (subst (asm) http_extension_loop.simps) (auto split: option.splits if_splits)
    with "1.IH" [OF True e(1) refl] extension_clean [OF e(1)] show ?thesis by (blast intro: clean_trans)
  qed (auto simp: clean_def)
qed

lemma chunk_size_clean:
  assumes "parse_http_chunk_size bs = Some (Some n)"
  shows "0x0D \<notin> set bs \<and> 0x0A \<notin> set bs"
proof -
  let ?p = "skip_while is_ascii_hexdigit bs 0"
  let ?q = "skip_http_bws bs ?p"
  have "?q = length bs \<or> (\<exists>m k. http_extension_loop bs ?q m = Some (Some k))"
    using assms by (auto simp: parse_http_chunk_size_def Let_def bind_eq_Some_conv tryo_eq_Some_Some split: if_splits)
  then have "clean bs ?q (length bs)" using extension_loop_clean by (auto simp: clean_def)
  then have "clean bs 0 (length bs)" using clean_skips(3) clean_bws by (blast intro: clean_trans)
  then show ?thesis unfolding clean_def by (metis in_set_conv_nth le0)
qed

section \<open>Trailers and broken line endings\<close>

text \<open>A carriage return that no line feed follows, or a line feed without a carriage return, at position
  \<open>i\<close>; the second test of the source ignores a carriage return at the very end.\<close>

definition broken_at :: "bytes \<Rightarrow> nat \<Rightarrow> bool" where
  "broken_at data i \<longleftrightarrow> i < length data \<and>
     (data ! i = 0x0A \<and> (i = 0 \<or> data ! (i - 1) \<noteq> 0x0D)
      \<or> data ! i = 0x0D \<and> i + 1 < length data \<and> data ! (i + 1) \<noteq> 0x0A)"

lemma invalid_ending_iff: "has_invalid_http_line_ending data \<longleftrightarrow> (\<exists>i. broken_at data i)"
  unfolding has_invalid_http_line_ending_def broken_at_def list_ex_iff
  by (simp only: set_upt atLeastLessThan_iff Bex_def le0 simp_thms)

lemma broken_at_append: "broken_at data i \<Longrightarrow> broken_at (data @ x) i"
  by (auto simp: broken_at_def nth_append)

lemma find_sub_window: "find_sub pat xs = Some n \<Longrightarrow> take (length pat) (drop n xs) = pat"
  by (induction xs arbitrary: n) (auto split: if_splits)

lemma crlf_window:
  assumes "find_sub CRLF xs = Some n"
  shows "n + 1 < length xs" "xs ! n = 0x0D" "xs ! (n + 1) = 0x0A"
proof -
  have len: "n + 2 \<le> length xs" using find_sub_Some_bound [OF assms] by (simp add: CRLF_def)
  then show "n + 1 < length xs" by simp
  have w: "take (length CRLF) (drop n xs) ! j = CRLF ! j" for j using find_sub_window [OF assms] by simp
  show "xs ! n = 0x0D" "xs ! (n + 1) = 0x0A" using w [of 0] w [of 1] len by (simp_all add: CRLF_def)
qed

lemma field_no_cr:
  assumes "http_trailer_is_valid line"
  shows "0x0D \<notin> set line"
proof
  assume "0x0D \<in> set line"
  then obtain i where i: "i < length line" "line ! i = 0x0D" by (auto simp: in_set_conv_nth)
  obtain n where n: "position (\<lambda>byte. byte = 0x3A) line = Some n"
    "http_field_is_valid (take n line) (drop (n + 1) line)"
    using assms by (auto simp: http_trailer_is_valid_def split: option.splits)
  have at: "n < length line" "line ! n = 0x3A" using n(1) by (auto simp: position_Some_iff)
  have no: "0x0D \<notin> set (take n line)" "0x0D \<notin> set (drop (n + 1) line)"
    using n(2) byte_classes(2, 5) unfolding http_field_is_valid_def list_all_iff by blast+
  consider "i < n" | "i = n" | "n + 1 \<le> i" by linarith
  then show False
  proof cases
    case 1
    then have "i < length (take n line)" "take n line ! i = line ! i" using i(1) by simp_all
    with no(1) i(2) show False using nth_mem [of i "take n line"] by simp
  next
    case 3
    then have "i - (n + 1) < length (drop (n + 1) line)" "drop (n + 1) line ! (i - (n + 1)) = line ! i"
      using i(1) by simp_all
    with no(2) i(2) show False using nth_mem [of "i - (n + 1)" "drop (n + 1) line"] by simp
  qed (use at i in simp)
qed

lemma nth_in_part:
  assumes "pos \<le> i" "i < pos + n" "pos + n \<le> length t"
  shows "t ! i \<in> set (take n (drop pos t))"
proof -
  have "i - pos < length (take n (drop pos t))" "take n (drop pos t) ! (i - pos) = t ! i" using assms by simp_all
  then show ?thesis using nth_mem [of "i - pos" "take n (drop pos t)"] by simp
qed

lemma trailer_loop_cr:
  "http_trailer_loop t pos = Some True \<Longrightarrow> pos \<le> i \<Longrightarrow> i < length t \<Longrightarrow> t ! i = 0x0D \<Longrightarrow>
   i + 1 < length t \<and> t ! (i + 1) = 0x0A"
proof (induction t pos rule: http_trailer_loop.induct)
  case (1 t pos)
  note i = "1.prems"(2-4)
  have pos: "pos \<le> length t" using i by simp
  show ?case
  proof (cases "find_subslice (drop pos t) CRLF")
    case None
    have "0x0D \<notin> set (drop pos t)"
      using "1.prems"(1) None pos field_no_cr by (subst (asm) http_trailer_loop.simps) (auto simp: Let_def split: if_splits)
    moreover have "t ! i \<in> set (drop pos t)" using nth_in_part [of pos i "length t - pos" t] i by simp
    ultimately show ?thesis using i(3) by simp
  next
    case (Some n)
    let ?line = "take n (drop pos t)"
    have n: "pos + n + 2 \<le> length t" using find_crlf_progress [OF Some] by simp
    have w: "drop pos t ! n = 0x0D" "drop pos t ! (n + 1) = 0x0A"
      using crlf_window [of "drop pos t" n] Some by (simp_all add: find_subslice_def)
    have line: "0x0D \<notin> set ?line"
      using "1.prems"(1) Some pos field_no_cr [of ?line]
      by (subst (asm) http_trailer_loop.simps) (auto simp: Let_def split: if_splits)
    have rest: "pos + n + 2 = length t \<or> http_trailer_loop t (pos + n + 2) = Some True"
      using "1.prems"(1) Some pos by (subst (asm) http_trailer_loop.simps) (auto simp: Let_def split: if_splits)
    consider "i < pos + n" | "i = pos + n" | "i = pos + n + 1" | "pos + n + 2 \<le> i" by linarith
    then show ?thesis
    proof cases
      case 1
      then show ?thesis using nth_in_part [OF i(1) 1, of t] n line i(3) by simp
    next
      case 4
      then have t: "http_trailer_loop t (pos + n + 2) = Some True" "pos + n + 2 \<noteq> length t" using rest i by auto
      have valid: "?line = [] \<or> http_trailer_is_valid ?line"
        using "1.prems"(1) Some pos by (subst (asm) http_trailer_loop.simps) (auto simp: Let_def split: if_splits)
      have np: "\<not> length t < pos" using pos by simp
      show ?thesis
      proof (cases "?line = []")
        case True
        from "1.IH"(1) [OF np Some refl refl this t(2) t(1) 4 i(2, 3)] show ?thesis .
      next
        case False
        from "1.IH"(2) [OF np Some refl refl this _ t(2) t(1) 4 i(2, 3)] valid False show ?thesis by simp
      qed
    qed (use w n i in auto)
  qed
qed

section \<open>Chunks on a longer buffer\<close>

fun chunk_extends :: "chunk_step \<Rightarrow> chunk_step \<Rightarrow> bool" where
  "chunk_extends (Chunk_Return (Inr None)) s \<longleftrightarrow> True"
| "chunk_extends (Chunk_Return (Inl e)) s \<longleftrightarrow> (\<exists>e'. s = Chunk_Return (Inl e'))"
| "chunk_extends r s \<longleftrightarrow> s = r"

lemma chunk_extends_refl [simp]: "chunk_extends s s"
  by (cases "(s, s)" rule: chunk_extends.cases) auto

lemma find_subslice_append: "find_subslice b p = Some n \<Longrightarrow> find_subslice (b @ x) p = Some n"
  unfolding find_subslice_def by (rule find_sub_append)

lemma drop_append_le: "pos \<le> length b \<Longrightarrow> drop pos (b @ x) = drop pos b @ x"
  by simp

text \<open>A broken line ending before the end of a line found later is inside that line.\<close>

lemma broken_in_line:
  assumes "find_subslice a CRLF = None" "find_subslice (a @ x) CRLF = Some n" "broken_at a i"
  shows "i < n \<and> (a @ x) ! i \<in> {0x0D, 0x0A}"
proof -
  have "length a < n + 2"
    using find_sub_append_None [of CRLF a x n] assms(1, 2) by (simp add: find_subslice_def CRLF_def)
  moreover have "(a @ x) ! n = 0x0D" using crlf_window(2) [of "a @ x" n] assms(2) by (simp add: find_subslice_def)
  moreover have "i < length a" "a ! i = 0x0A \<or> a ! i = 0x0D \<and> i + 1 < length a"
    using assms(3) by (auto simp: broken_at_def)
  ultimately have "i < n" by (cases "i = n") (auto simp: nth_append)
  then show ?thesis using assms(3) by (auto simp: broken_at_def nth_append)
qed

lemma chunk_line_broken:
  assumes "0x0D \<in> set line \<or> 0x0A \<in> set line"
  shows "parse_http_chunk_size line = Some None"
proof -
  obtain r where "parse_http_chunk_size line = Some r" using parse_http_chunk_size_wp [of line] by (auto simp: wp_def)
  with chunk_size_clean [of line] assms show ?thesis by (cases r) auto
qed

lemma double_crlf_window:
  assumes "find_sub (CRLF @ CRLF) xs = Some n"
  shows "n + 4 \<le> length xs" "xs ! n = 0x0D" "xs ! Suc n = 0x0A" "xs ! Suc (Suc n) = 0x0D" "xs ! Suc (Suc (Suc n)) = 0x0A"
proof -
  show len: "n + 4 \<le> length xs" using find_sub_Some_bound [OF assms] by (simp add: CRLF_def)
  have w: "take (length (CRLF @ CRLF)) (drop n xs) ! j = (CRLF @ CRLF) ! j" for j
    using find_sub_window [OF assms] by simp
  show "xs ! n = 0x0D" "xs ! Suc n = 0x0A" "xs ! Suc (Suc n) = 0x0D" "xs ! Suc (Suc (Suc n)) = 0x0A"
    using w [of 0] w [of "Suc 0"] w [of "Suc (Suc 0)"] w [of "Suc (Suc (Suc 0))"] len
    by (simp_all add: CRLF_def)
qed

lemma trailers_broken:
  assumes "find_subslice a (CRLF @ CRLF) = None" "find_subslice (a @ x) (CRLF @ CRLF) = Some n" "broken_at a i"
  shows "chunk_trailers_are_well_formed (take n (a @ x)) = Some False"
proof -
  let ?t = "take n (a @ x)"
  note w = double_crlf_window [OF assms(2) [unfolded find_subslice_def]]
  have ax: "broken_at (a @ x) i" using assms(3) by (rule broken_at_append)
  have ia: "i < length a" using assms(3) by (simp add: broken_at_def)
  have la: "length a < n + 4"
    using find_sub_append_None [of "CRLF @ CRLF" a x n] assms(1, 2) by (simp add: find_subslice_def CRLF_def)
  have "i < n"
  proof (rule ccontr)
    assume "\<not> i < n"
    then consider "i = n" | "i = Suc n" | "i = Suc (Suc n)" | "i = Suc (Suc (Suc n))" using ia la by linarith
    then show False using w ax by cases (auto simp: broken_at_def)
  qed
  define y where "y = a @ x"
  have y: "broken_at y i" "n \<le> length y" using ax w(1) by (simp_all add: y_def)
  have bad: "http_trailer_loop (take n y) 0 \<noteq> Some True" if lf: "\<not> http_bare_lf (take n y)"
  proof
    assume ok: "http_trailer_loop (take n y) 0 = Some True"
    show False
    proof (cases "y ! i = 0x0D")
      case True
      then have "i + 1 < length (take n y) \<and> take n y ! (i + 1) = 0x0A"
        using trailer_loop_cr [OF ok, of i] y \<open>i < n\<close> by simp
      then show False using y True by (auto simp: broken_at_def)
    next
      case False
      then have "y ! i = 0x0A \<and> (i = 0 \<or> y ! (i - 1) \<noteq> 0x0D)" using y by (auto simp: broken_at_def)
      then show False using lf y \<open>i < n\<close> by (auto simp: http_bare_lf_def list_ex_iff)
    qed
  qed
  obtain r where "http_trailer_loop ?t 0 = Some r" using http_trailer_loop_wp [of 0 ?t] by (auto simp: wp_def)
  with bad show ?thesis by (cases r) (auto simp: chunk_trailers_are_well_formed_def y_def simp del: take_append)
qed

lemma last_chunk_extends:
  assumes pos: "0 < pos" "pos \<le> length b" and max: "length (b @ x) \<le> MAX_HTTP_REQUEST_SIZE"
    and s: "http_last_chunk b pos = Some s"
  shows "\<exists>s'. http_last_chunk (b @ x) pos = Some s' \<and> chunk_extends s s'"
proof -
  let ?a = "drop pos b"
  have d: "drop pos (b @ x) = ?a @ x" "slice_from (b @ x) pos = Some (?a @ x)" "slice_from b pos = Some ?a"
    using pos by simp_all
  obtain s' where s': "http_last_chunk (b @ x) pos = Some s'"
    using http_last_chunk_wp [of pos "b @ x" pos] pos by (auto simp: wp_def)
  consider "starts_with ?a CRLF" | n where "\<not> starts_with ?a CRLF" "find_subslice ?a (CRLF @ CRLF) = Some n"
    | i where "\<not> starts_with ?a CRLF" "find_subslice ?a (CRLF @ CRLF) = None" "broken_at ?a i"
    | "\<not> starts_with ?a CRLF" "find_subslice ?a (CRLF @ CRLF) = None" "\<not> has_invalid_http_line_ending ?a"
    using invalid_ending_iff by (cases "find_subslice ?a (CRLF @ CRLF)") auto
  then show ?thesis
  proof cases
    case 1
    then have "starts_with (?a @ x) CRLF" by (auto simp: starts_with_def)
    with 1 d s show ?thesis by (simp add: http_last_chunk_def)
  next
    case 2
    have n: "n + 4 \<le> length ?a"
      using find_sub_Some_bound [of "CRLF @ CRLF" ?a n] 2(2) by (simp add: find_subslice_def CRLF_def)
    then have "\<not> starts_with (?a @ x) CRLF" using 2(1) by (auto simp: starts_with_def CRLF_def)
    moreover have "slice (?a @ x) 0 n = slice ?a 0 n" using n by simp
    ultimately have "http_last_chunk (b @ x) pos = http_last_chunk b pos"
      using 2 d find_subslice_append [OF 2(2), of x] by (simp add: http_last_chunk_def)
    with s show ?thesis by simp
  next
    case 3
    have "\<not> starts_with (?a @ x) CRLF"
    proof (cases "length ?a < 2")
      case True
      have "i < length ?a" using 3(3) by (simp add: broken_at_def)
      with True have i: "i = 0" "length ?a = 1" by linarith+
      with 3(3) have "?a ! 0 = 0x0A" by (auto simp: broken_at_def)
      with i(2) show ?thesis by (cases ?a) (auto simp: starts_with_def CRLF_def)
    qed (use 3(1) in \<open>auto simp: starts_with_def CRLF_def\<close>)
    moreover have "has_invalid_http_line_ending (?a @ x)"
      using broken_at_append [OF 3(3)] invalid_ending_iff by blast
    moreover have "n + 4 \<le> length (?a @ x)" if "find_subslice (?a @ x) (CRLF @ CRLF) = Some n" for n
      using find_sub_Some_bound [of "CRLF @ CRLF" "?a @ x" n] that by (simp add: find_subslice_def CRLF_def)
    ultimately have "http_last_chunk (b @ x) pos = Some (Chunk_Return (Inl Http_Invalid))"
      using d trailers_broken [OF 3(2) _ 3(3)]
      by (cases "find_subslice (?a @ x) (CRLF @ CRLF)")
        (auto simp: http_last_chunk_def simp del: take_append append_take_drop_id)
    moreover have "s = Chunk_Return (Inl Http_Invalid)"
      using s 3 d invalid_ending_iff [of ?a] by (auto simp: http_last_chunk_def split: if_splits)
    ultimately show ?thesis by simp
  next
    case 4
    with s d max have "s = Chunk_Return (Inr None)" by (simp add: http_last_chunk_def http_need_more_def)
    with s' show ?thesis by simp
  qed
qed

lemma chunk_data_extends:
  assumes "http_chunk_data b pos n = Some s"
  shows "\<exists>s'. http_chunk_data (b @ x) pos n = Some s' \<and> chunk_extends s s'"
proof (cases "pos + n + 2 \<le> usize_max \<and> pos + n + 2 \<le> MAX_HTTP_REQUEST_SIZE")
  case True
  have add: "checked_add pos n = Some (pos + n)" "checked_add (pos + n) 2 = Some (pos + n + 2)"
    using True by simp_all
  have eq: "http_chunk_data c pos n =
      (if length c < pos + n + 2 then Some (Chunk_Return (Inr None))
       else do { tail \<leftarrow> slice c (pos + n) (pos + n + 2);
              if tail \<noteq> CRLF then Some (Chunk_Return (Inl Http_Invalid)) else Some (Chunk_Next (pos + n + 2)) })" for c
    unfolding http_chunk_data_def add option.case using True by simp
  show ?thesis
  proof (cases "length b < pos + n + 2")
    case short: True
    with assms have "s = Chunk_Return (Inr None)" by (simp add: eq)
    moreover obtain s' where "http_chunk_data (b @ x) pos n = Some s'"
    proof -
      have "wp (http_chunk_data (b @ x) pos n) (\<lambda>_. True)" unfolding http_chunk_data_def by (auto simp: wp_rules)
      with that show thesis by (auto simp: wp_def)
    qed
    ultimately show ?thesis by simp
  next
    case False
    then have "http_chunk_data (b @ x) pos n = http_chunk_data b pos n" by (simp add: eq)
    with assms show ?thesis by simp
  qed
next
  case False
  have "\<exists>e. http_chunk_data c pos n = Some (Chunk_Return (Inl e))" for c
    using False by (auto simp: http_chunk_data_def split: option.split)
  with assms show ?thesis by (metis chunk_extends.simps(2) option.inject)
qed

lemma chunk_line_extends:
  assumes pos: "0 < pos" "pos \<le> length b" and max: "length (b @ x) \<le> MAX_HTTP_REQUEST_SIZE"
    and s: "http_chunk_line b pos raw = Some s"
  shows "\<exists>s'. http_chunk_line (b @ x) pos raw = Some s' \<and> chunk_extends s s'"
proof -
  consider "\<And>c. http_chunk_line c pos raw = Some (Chunk_Return (Inl Http_Invalid))"
    | "\<And>c. http_chunk_line c pos raw = http_last_chunk c pos"
    | n where "\<And>c. http_chunk_line c pos raw = http_chunk_data c pos n"
  proof (cases "from_utf8 raw")
    case (Some h)
    obtain r where "parse_http_chunk_size h = Some r" using parse_http_chunk_size_wp [of h] by (auto simp: wp_def)
    moreover have "http_chunk_line c pos raw = (case r of
        None \<Rightarrow> Some (Chunk_Return (Inl Http_Invalid))
      | Some n \<Rightarrow> if n = 0 then http_last_chunk c pos else http_chunk_data c pos n)" for c
      using Some calculation by (simp add: http_chunk_line_def)
    ultimately show thesis using that by (cases r; cases "r = Some 0") auto
  qed (use that in \<open>simp add: http_chunk_line_def\<close>)
  then show ?thesis
  proof cases
    case 2
    with s last_chunk_extends [OF pos max, of s] show ?thesis by simp
  next
    case 3
    with s chunk_data_extends show ?thesis by simp
  qed (use s in simp)
qed

lemma chunk_step_extends:
  assumes pos: "pos \<le> length b" and max: "length (b @ x) \<le> MAX_HTTP_REQUEST_SIZE"
    and s: "http_chunk_step b pos = Some s"
  shows "\<exists>s'. http_chunk_step (b @ x) pos = Some s' \<and> chunk_extends s s'"
proof -
  let ?a = "drop pos b"
  have d: "slice_from (b @ x) pos = Some (?a @ x)" "slice_from b pos = Some ?a" using pos by simp_all
  consider n where "find_subslice ?a CRLF = Some n"
    | i where "find_subslice ?a CRLF = None" "broken_at ?a i"
    | "find_subslice ?a CRLF = None" "\<not> has_invalid_http_line_ending ?a"
    using invalid_ending_iff [of ?a] by (cases "find_subslice ?a CRLF") auto
  then show ?thesis
  proof cases
    case 1
    have n: "0 < pos + n + 2" "pos + n + 2 \<le> length b" using find_crlf_progress [OF 1] by simp_all
    then have "http_chunk_step c pos = http_chunk_line c (pos + n + 2) (take n ?a)" if "c = b \<or> c = b @ x" for c
      using that d 1 find_subslice_append [OF 1, of x] by (auto simp: http_chunk_step_def Let_def)
    with s chunk_line_extends [OF n max] show ?thesis by simp
  next
    case 2
    have "\<exists>e. http_chunk_step (b @ x) pos = Some (Chunk_Return (Inl e))"
    proof (cases "find_subslice (?a @ x) CRLF")
      case None
      have "has_invalid_http_line_ending (?a @ x)"
        using broken_at_append [OF 2(2)] invalid_ending_iff by blast
      with None d show ?thesis by (simp add: http_chunk_step_def)
    next
      case (Some n)
      define y where "y = ?a @ x"
      have n: "n < length y" "pos + n \<le> length (b @ x)"
        using find_crlf_progress [of pos "b @ x" n] Some pos by (simp_all add: y_def) linarith
      have i: "i < n" "y ! i \<in> {0x0D, 0x0A}" using broken_in_line [OF 2(1) Some 2(2)] by (auto simp: y_def)
      then have "y ! i \<in> set (take n y)" using nth_in_part [of 0 i n y] n by simp
      with i(2) have "0x0D \<in> set (take n y) \<or> 0x0A \<in> set (take n y)" by auto
      then have "parse_http_chunk_size (take n y) = Some None" by (rule chunk_line_broken)
      moreover have "slice (b @ x) pos (pos + n) = Some (take n y)" using n pos by (simp add: y_def)
      ultimately show ?thesis using Some d
        by (auto simp: http_chunk_step_def http_chunk_line_def Let_def from_utf8_Some_iff y_def [symmetric]
            split: option.split)
    qed
    moreover have "s = Chunk_Return (Inl Http_Invalid)"
      using s 2 d invalid_ending_iff [of ?a] by (auto simp: http_chunk_step_def split: if_splits)
    ultimately show ?thesis by auto
  next
    case 3
    with s d max have "s = Chunk_Return (Inr None)" by (simp add: http_chunk_step_def http_need_more_def)
    moreover obtain s' where "http_chunk_step (b @ x) pos = Some s'"
      using http_chunk_step_wp [of pos "b @ x"] pos by (auto simp: wp_def)
    ultimately show ?thesis by simp
  qed
qed

lemma chunked_body_extends:
  "pos \<le> length b \<Longrightarrow> length (b @ x) \<le> MAX_HTTP_REQUEST_SIZE \<Longrightarrow>
   extract_chunked_http_body_len b pos = Some r \<Longrightarrow>
   \<exists>r'. extract_chunked_http_body_len (b @ x) pos = Some r' \<and> chunk_extends (Chunk_Return r) (Chunk_Return r')"
proof (induction b pos rule: extract_chunked_http_body_len.induct)
  case (1 b pos)
  obtain s where s: "http_chunk_step b pos = Some s" "chunk_ok b pos s"
    using http_chunk_step_wp [OF "1.prems"(1)] by (auto simp: wp_def)
  obtain s' where s': "http_chunk_step (b @ x) pos = Some s'" "chunk_extends s s'"
    using chunk_step_extends [OF "1.prems"(1, 2) s(1)] by blast
  have total: "\<exists>r'. extract_chunked_http_body_len (b @ x) pos = Some r'"
    using chunked_body_wp [of pos "b @ x"] "1.prems"(1) by (auto simp: wp_def)
  show ?case
  proof (cases s)
    case (Chunk_Next e)
    with s have e: "e \<le> length b" "s' = Chunk_Next e" using s' by auto
    have "extract_chunked_http_body_len b e = Some r"
      using "1.prems"(3) s(1) Chunk_Next by (subst (asm) extract_chunked_http_body_len.simps) simp
    from "1.IH" [OF s(1) Chunk_Next e(1) "1.prems"(2) this] s'(1) e(2) show ?thesis
      by (subst extract_chunked_http_body_len.simps) simp
  next
    case (Chunk_Return v)
    have "r = v" using "1.prems"(3) s(1) Chunk_Return by (subst (asm) extract_chunked_http_body_len.simps) simp
    show ?thesis
    proof (cases "v = Inr None")
      case True
      with total \<open>r = v\<close> show ?thesis by auto
    next
      case False
      then obtain v' where v': "s' = Chunk_Return v'" using s'(2) Chunk_Return
        by (cases "(s, s')" rule: chunk_extends.cases) auto
      then have "extract_chunked_http_body_len (b @ x) pos = Some v'"
        using s'(1) by (subst extract_chunked_http_body_len.simps) simp
      with s'(2) v' Chunk_Return \<open>r = v\<close> show ?thesis by auto
    qed
  qed
qed

section \<open>Requests on a longer buffer\<close>

lemma extends_http_errors [extends_rules]:
  "extends x bad_request bad_request" "extends x payload_too_large payload_too_large"
  "extends x bad_request payload_too_large" "extends x payload_too_large bad_request"
  by (simp_all add: bad_request_def payload_too_large_def extends_rules)

lemma extends_http_chunked:
  assumes "e \<le> length b" "length (b @ x) \<le> MAX_HTTP_REQUEST_SIZE"
  shows "extends x (extract_http_request_with_framing b e Http_Chunked)
    (extract_http_request_with_framing (b @ x) e Http_Chunked)"
proof -
  obtain r where r: "extract_chunked_http_body_len b e = Some r"
    using chunked_body_wp [OF assms(1)] by (auto simp: wp_def)
  obtain r' where r': "extract_chunked_http_body_len (b @ x) e = Some r'"
    "chunk_extends (Chunk_Return r) (Chunk_Return r')"
    using chunked_body_extends [OF assms r] by blast
  with r show ?thesis
    by (cases r; cases r')
      (auto simp: extract_http_request_with_framing_def extends_rules split: http_frame_error.split option.split)
qed

lemma extends_http_framing:
  assumes "e \<le> length b" "length (b @ x) \<le> MAX_HTTP_REQUEST_SIZE"
  shows "extends x (extract_http_request_with_framing b e framing)
    (extract_http_request_with_framing (b @ x) e framing)"
proof (cases framing)
  case Http_Chunked
  with extends_http_chunked [OF assms] show ?thesis by simp
next
  case (Http_ContentLength n)
  then show ?thesis
    unfolding extract_http_request_with_framing_def body_framing.case
    by (auto intro!: extends_intros simp: extends_rules)
qed (simp add: extract_http_request_with_framing_def extends_rules)

lemma extends_http:
  assumes "length (b @ x) \<le> MAX_HTTP_HEADER_SIZE"
  shows "extends x (extract_http_request b) (extract_http_request (b @ x))"
proof (cases "find_subslice b (CRLF @ CRLF)")
  case None
  then have "extract_http_request b = kept Frame_Incomplete b"
    using assms by (simp add: extract_http_request_def)
  then show ?thesis by (simp add: extends_waiting)
next
  case (Some n)
  have n: "n + 4 \<le> length b" using double_crlf_window(1) [of b n] Some by (simp add: find_subslice_def)
  have max: "length (b @ x) \<le> MAX_HTTP_REQUEST_SIZE"
    using assms by (simp add: MAX_HTTP_HEADER_SIZE_def MAX_HTTP_REQUEST_SIZE_def)
  obtain r where "http_body_framing (take (n + 4) b) = Some r"
    using http_body_framing_wp [of "take (n + 4) b"] by (auto simp: wp_def)
  then show ?thesis
    using n max assms Some find_subslice_append [OF Some, of x] extends_http_framing [of "n + 4" b x]
    by (auto simp: extract_http_request_def Let_def extends_rules split: sum.split http_frame_error.split)
qed

end
