(* ===== verification/Framing_Segments.thy ===== *)
theory Framing_Segments
  imports Http_Stream Redis_Resp
begin

text \<open>
  Framing of a connection to a listener whose name fixes the mode. Such a connection still switches to
  TLS when its buffer begins with a TLS handshake record. For the modes whose frames carry their own
  end the frames do not depend on the segments of the stream, and the commands of a Redis client are cut
  and read back one by one. SOCKS is not among these modes, which an example shows.
\<close>

section \<open>The modes with a segmentation guarantee\<close>

text \<open>The lengths of a stream for which the frames of a mode do not depend on the segments. Redis and HTTP
  check the length of the whole buffer, pipelined requests included, so that their guarantee stops at that
  limit. The functions of the last group take what one read returned for a frame in some cases.\<close>

fun stream_fits :: "frame_mode \<Rightarrow> nat \<Rightarrow> bool" where
  "stream_fits Mode_Redis n \<longleftrightarrow> n \<le> MAX_REDIS_FRAME_SIZE"
| "stream_fits Mode_Http n \<longleftrightarrow> n \<le> MAX_HTTP_HEADER_SIZE"
| "stream_fits Mode_Postgres n \<longleftrightarrow> False"
| "stream_fits Mode_Socks n \<longleftrightarrow> False"
| "stream_fits Mode_Smb n \<longleftrightarrow> False"
| "stream_fits Mode_Ldap n \<longleftrightarrow> False"
| "stream_fits Mode_Nkn n \<longleftrightarrow> False"
| "stream_fits Mode_Immediate n \<longleftrightarrow> False"
| "stream_fits _ n \<longleftrightarrow> True"

lemma stream_fits_le: "stream_fits mode n \<Longrightarrow> m \<le> n \<Longrightarrow> stream_fits mode m"
  by (cases mode) auto

lemma mode_more_bytes: "stream_fits mode (length (b @ x)) \<Longrightarrow>
    extends x (next_tcp_frame_for_mode js b mode) (next_tcp_frame_for_mode js (b @ x) mode)"
  by (cases mode) (auto simp: extract_line_frame_def simp del: length_append
      intro: extends_length_prefixed extends_tls extends_limited_line extends_ssh extends_mysql extends_rdp
        extends_smtp_data extends_mqtt extends_memcached extends_redis extends_http)

text \<open>One byte that may begin a TLS record completes no frame and is no error.\<close>

lemma find_subslice_short: "length h < length n \<Longrightarrow> find_subslice h n = None"
  by (auto simp: find_subslice_def dest!: find_sub_Some_bound intro: ccontr)

lemma mode_waits: "stream_fits mode (length b) \<Longrightarrow> b = [] \<or> b = [0x16] \<Longrightarrow>
    next_tcp_frame_for_mode js b mode = kept Frame_Incomplete b"
  by (cases mode)
    (auto simp: optional_frame_def extract_length_prefixed_frame_def extract_http_request_def
      extract_line_frame_def extract_limited_line_frame_def extract_smtp_data_frame_def kept_def
      extract_smtp_data_frame_with_limit_def extract_ssh_payload_frame_def extract_mysql_frame_def
      extract_rdp_frame_def extract_mqtt_frame_def extract_tls_frame_def extract_redis_frame_def
      extract_memcached_frame_def MAX_HTTP_HEADER_SIZE_def MAX_LINE_FRAME_SIZE_def MAX_SMTP_DATA_SIZE_def
      MAX_MEMCACHED_LINE_SIZE_def find_subslice_short CRLF_def starts_with_def)

lemma mode_start: "next_tcp_frame_for_mode js [] mode = Some (Frame_Incomplete, [])"
proof (cases "stream_fits mode 0")
  case True
  then show ?thesis using mode_waits [of mode "[]" js] by (simp add: kept_def)
next
  case False
  then show ?thesis
    by (cases mode) (auto simp: optional_frame_def extract_postgres_frame_def extract_socks_frame_def
        extract_smb_frame_def extract_ldap_frame_def extract_nkn_frame_def extract_immediate_frame_def kept_def
        MAX_REDIS_FRAME_SIZE_def)
qed

section \<open>A named listener\<close>

text \<open>What a listener with the mode of its name takes from the buffer: a TLS record goes first.\<close>

definition named_frame :: "json_stream \<Rightarrow> frame_mode \<Rightarrow> bytes \<Rightarrow> frame_answer rs" where
  "named_frame js mode buffer =
     (if has_tls_record_prefix buffer then extract_tls_frame buffer else next_tcp_frame_for_mode js buffer mode)"

text \<open>What the connection loop takes, with the mode chosen anew for each frame, and the mode that the name
  of the listener or the DATA phase of SMTP fixes.\<close>

definition connection_frame ::
    "json_stream \<Rightarrow> bytes \<Rightarrow> u16 \<Rightarrow> protocol_router \<Rightarrow> bool \<Rightarrow> bool \<Rightarrow> bytes \<Rightarrow> frame_answer rs" where
  "connection_frame js listener_name destination_port router smtp_data_mode ssh_first_packet buffer =
     map_option snd (next_tcp_frame_with_mode js buffer listener_name destination_port router
       smtp_data_mode ssh_first_packet)"

definition fixed_mode :: "bytes \<Rightarrow> bool \<Rightarrow> bool \<Rightarrow> frame_mode option rs" where
  "fixed_mode listener_name smtp_data_mode ssh_first_packet =
     (if smtp_data_mode then Some (Some Mode_SmtpData) else listener_frame_mode listener_name ssh_first_packet)"

lemma connection_frame_fixed:
  assumes "fixed_mode listener_name smtp ssh = Some (Some mode)"
  shows "connection_frame js listener_name port router smtp ssh =
    (if smtp then (\<lambda>buffer. next_tcp_frame_for_mode js buffer mode) else named_frame js mode)"
proof
  fix buffer
  have "is_tls_client_hello buffer \<Longrightarrow> has_tls_record_prefix buffer"
    by (simp add: is_tls_client_hello_def has_supported_tls_record_header_def)
  with assms show "connection_frame js listener_name port router smtp ssh buffer =
      (if smtp then (\<lambda>buffer. next_tcp_frame_for_mode js buffer mode) else named_frame js mode) buffer"
    by (cases "next_tcp_frame_for_mode js buffer mode"; cases "extract_tls_frame buffer")
      (auto simp: connection_frame_def next_tcp_frame_with_mode_def tcp_frame_mode_def named_frame_def
        fixed_mode_def split: if_splits)
qed

lemma tls_prefix_append: "2 \<le> length b \<Longrightarrow> has_tls_record_prefix (b @ x) = has_tls_record_prefix b"
  by (cases b) (auto simp: has_tls_record_prefix_def nth_append)

lemma tls_prefix_late: "has_tls_record_prefix (b @ x) \<Longrightarrow> length b < 2 \<Longrightarrow> b = [] \<or> b = [0x16]"
  by (cases b) (auto simp: has_tls_record_prefix_def)

lemma named_more_bytes:
  assumes "stream_fits mode (length (b @ x))"
  shows "extends x (named_frame js mode b) (named_frame js mode (b @ x))"
proof (cases "has_tls_record_prefix (b @ x) \<and> length b < 2")
  case True
  then have b: "b = [] \<or> b = [0x16]" using tls_prefix_late by blast
  have "stream_fits mode (length b)" using assms by (rule stream_fits_le) simp
  moreover have "\<not> has_tls_record_prefix b" using b by (auto simp: has_tls_record_prefix_def)
  ultimately have "named_frame js mode b = kept Frame_Incomplete b" using b mode_waits by (simp add: named_frame_def)
  then show ?thesis by (simp add: extends_waiting)
next
  case False
  then have same: "has_tls_record_prefix b = has_tls_record_prefix (b @ x)"
    using tls_prefix_append [of b x] by (cases "length b < 2") (auto simp: has_tls_record_prefix_def)
  show ?thesis using mode_more_bytes [OF assms] by (simp add: named_frame_def same extends_tls)
qed

interpretation modes: stream_framer "\<lambda>buffer. next_tcp_frame_for_mode js buffer mode" "frame_limit mode" "stream_fits mode"
  for js mode
  by unfold_locales (auto intro: next_tcp_frame_for_mode_wp mode_start mode_more_bytes stream_fits_le)

lemma named_frame_ok: "wp (named_frame js mode buffer) (frame_ok (max MAX_TLS_RECORD_SIZE (frame_limit mode)) buffer)"
proof (cases "has_tls_record_prefix buffer")
  case True
  then show ?thesis using wp_call [OF tls_ok frame_ok_mono] by (auto simp: named_frame_def)
next
  case False
  then show ?thesis using wp_call [OF next_tcp_frame_for_mode_wp frame_ok_mono] by (auto simp: named_frame_def)
qed

interpretation named: stream_framer "named_frame js mode" "max MAX_TLS_RECORD_SIZE (frame_limit mode)" "stream_fits mode"
  for js mode
proof unfold_locales
  show "named_frame js mode [] = Some (Frame_Incomplete, [])"
    by (simp add: named_frame_def has_tls_record_prefix_def mode_start)
qed (auto intro: named_frame_ok named_more_bytes stream_fits_le)

section \<open>The connection\<close>

lemma frame_limit_le: "frame_limit mode \<le> MAX_SMTP_DATA_SIZE"
  by (cases mode) (simp_all add: MAX_SMTP_DATA_SIZE_def MAX_HTTP_REQUEST_SIZE_def MAX_LINE_FRAME_SIZE_def
      MAX_SSH_PACKET_SIZE_def MAX_MYSQL_FRAME_SIZE_def MAX_POSTGRES_FRAME_SIZE_def MAX_SOCKS4_FRAME_SIZE_def
      MAX_LDAP_FRAME_SIZE_def MAX_LDAP_BER_PAYLOAD_SIZE_def MAX_MQTT_FRAME_SIZE_def MAX_TLS_RECORD_SIZE_def
      MAX_REDIS_FRAME_SIZE_def MAX_MEMCACHED_FRAME_SIZE_def MAX_NKN_FRAME_SIZE_def)

lemma connection_frame_ok:
  "wp (connection_frame js listener_name port (with_default_tastes json dt du) smtp ssh buffer)
     (frame_ok MAX_SMTP_DATA_SIZE buffer)"
proof -
  obtain mode where mode:
    "tcp_frame_mode listener_name buffer port (with_default_tastes json dt du) smtp ssh = Some mode"
    using tcp_frame_mode_wp [of listener_name buffer port json dt du smtp ssh] by (auto simp: wp_def)
  obtain r where "next_tcp_frame_for_mode js buffer mode = Some r" "frame_ok (frame_limit mode) buffer r"
    using next_tcp_frame_for_mode_wp [of js buffer mode] by (auto simp: wp_def)
  with mode frame_ok_mono [OF _ frame_limit_le] show ?thesis
    by (auto simp: connection_frame_def next_tcp_frame_with_mode_def wp_rules)
qed

interpretation connection: framer
  "connection_frame js listener_name port (with_default_tastes json dt du) smtp ssh" MAX_SMTP_DATA_SIZE
  for js listener_name port json dt du smtp ssh
  by unfold_locales (rule connection_frame_ok)

lemma connection_start:
  "connection_frame js listener_name port (with_default_tastes json dt du) smtp ssh [] = Some (Frame_Incomplete, [])"
proof -
  obtain mode where
    "tcp_frame_mode listener_name [] port (with_default_tastes json dt du) smtp ssh = Some mode"
    using tcp_frame_mode_wp [of listener_name "[]" port json dt du smtp ssh] by (auto simp: wp_def)
  then show ?thesis by (simp add: connection_frame_def next_tcp_frame_with_mode_def mode_start)
qed

text \<open>Property C11. No byte is lost, invented or reordered on its way into frames, whatever the segments, the
  listener, the port and the flags of the session: framing a stream always ends, without a panic; the frames are not empty and, as
  long as the connection is open, they are the stream up to the bytes it waits on, of which it holds at
  most 50 MiB. When framing refuses the stream, the frames before that are a prefix of it.\<close>

theorem connection_frames_exact:
  "\<exists>fs r rest. feed (connection_frame js listener_name destination_port (with_default_tastes json dt du)
        smtp_data_mode ssh_first_packet) pieces [] = Some (fs, (r, rest))
    \<and> [] \<notin> set fs
    \<and> (if r = Frame_Incomplete then concat pieces = concat fs @ rest \<and> length rest \<le> MAX_SMTP_DATA_SIZE
       else is_error r \<and> (\<exists>refused. concat pieces = concat fs @ refused))"
proof -
  obtain fs r rest where "feed (connection_frame js listener_name destination_port (with_default_tastes json dt du)
      smtp_data_mode ssh_first_packet) pieces [] = Some (fs, (r, rest))"
    "loop_post (connection_frame js listener_name destination_port (with_default_tastes json dt du)
      smtp_data_mode ssh_first_packet) MAX_SMTP_DATA_SIZE (concat pieces) (fs, (r, rest))"
    using connection.feed_returns [OF connection_start, of js listener_name destination_port json dt du
        smtp_data_mode ssh_first_packet pieces] by (auto simp: wp_def)
  then show ?thesis by (auto simp: loop_post_def split: if_splits)
qed

lemma fixed_mode_segments:
  assumes "fixed_mode listener_name smtp ssh = Some (Some mode)"
    and "stream_fits mode (length (concat pieces))" "concat pieces = concat pieces'"
  shows "map_option outcome (feed (connection_frame js listener_name port router smtp ssh) pieces []) =
    map_option outcome (feed (connection_frame js listener_name port router smtp ssh) pieces' [])"
  unfolding connection_frame_fixed [OF assms(1)]
  using named.feed_segments [OF assms(3,2)] modes.feed_segments [OF assms(3,2)] by simp

lemma fixed_mode_returns:
  assumes "fixed_mode listener_name smtp ssh = Some (Some mode)"
  shows "feed (connection_frame js listener_name port router smtp ssh) pieces [] \<noteq> None"
  unfolding connection_frame_fixed [OF assms]
  using named.feed_returns [OF named.start, of js mode pieces] modes.feed_returns [OF modes.start, of js mode pieces]
  by (auto simp: wp_def)


lemmas name_tests = fixed_mode_def listener_frame_mode_def protocol_frame_mode_def protocol_modes_def
  matches_any_def listener_name_matches_protocol_def canonical_protocol_alias_def str_to_lowercase_def
  char_lowercase_def chars_def ascii_lower_def is_ascii_uppercase_def starts_with_def strip_prefix_def
  trim_matches_def is_space_tab_def char_is_control_def char_is_whitespace_def utf8_decode_ascii

lemma ftp_mode: "fixed_mode (bstr ''ftp'') False False = Some (Some Mode_Line)"
  by (simp add: bstr_def name_tests)


section \<open>The commands of a Redis client\<close>

lemma redis_bulk_frames_step:
  assumes "length v \<le> MAX_REDIS_BULK_SIZE" "length pre + length (resp_bulk_string v) \<le> MAX_REDIS_FRAME_SIZE"
  shows "redis_bulk_frames (pre @ resp_bulk_string v @ post) (Suc count) (length pre) =
     redis_bulk_frames (pre @ resp_bulk_string v @ post) count (length pre + length (resp_bulk_string v))"
proof -
  let ?n = "show_dec (length v)"
  let ?data = "pre @ resp_bulk_string v @ post"
  have data: "?data = pre @ (0x24 # ?n) @ CRLF @ v @ CRLF @ post"
    by (simp add: resp_bulk_string_def bstr_def)
  have len: "length (resp_bulk_string v) = length ?n + length v + 5"
    by (simp add: resp_bulk_string_def bstr_def CRLF_def)
  have "0x0D \<notin> set (0x24 # ?n)" using digits_no_cr [OF show_dec_all_digits] by simp
  then have crlf: "frame_find_crlf_from ?data (length pre) = Some (length pre + Suc (length ?n))"
    unfolding data frame_find_crlf_from_eq resp_find_crlf_from_eq [symmetric]
    by (subst resp_find_crlf_from_here) simp_all
  have first: "idx ?data (length pre) = Some 0x24" by (simp add: data idx_def nth_append)
  have raw: "slice ?data (length pre + 1) (length pre + Suc (length ?n)) = Some ?n"
    using slice_middle [of _ "pre @ [0x24]" _ ?n "CRLF @ v @ CRLF @ post"] by (simp add: data)
  have tail: "slice ?data (length pre + Suc (length ?n) + 2 + length v)
      (length pre + Suc (length ?n) + 2 + length v + 2) = Some CRLF"
    using slice_middle [of _ "pre @ (0x24 # ?n) @ CRLF @ v" _ CRLF post] by (simp add: data CRLF_def)
  have number: "frame_resp_bulk_len ?n = Some (Some (length v))"
    using assms(1) by (simp add: frame_resp_bulk_len_def show_dec_not_minus parse_digits_def dec_value_show_dec
        MAX_REDIS_BULK_SIZE_def usize_max_def)
  have bounds: "length pre + length ?n + length v + 5 \<le> MAX_REDIS_FRAME_SIZE" "MAX_REDIS_FRAME_SIZE \<le> usize_max"
    using assms(2) len by (simp_all add: MAX_REDIS_FRAME_SIZE_def usize_max_def)
  have "length ?data = length pre + (length ?n + length v + 5) + length post" using len by simp
  then show ?thesis
    unfolding redis_bulk_frames.simps first crlf
    using assms(1) bounds raw tail number
    by (simp add: checked_add_def Let_def len del: slice_in length_append) (simp add: numeral_eq_Suc add.assoc)
qed

lemma redis_bulk_frames_strings:
  assumes "list_all (\<lambda>v. length v \<le> MAX_REDIS_BULK_SIZE) vs"
    "length pre + length (concat (map resp_bulk_string vs)) \<le> MAX_REDIS_FRAME_SIZE"
  shows "redis_bulk_frames (pre @ concat (map resp_bulk_string vs) @ post) (length vs) (length pre) =
     Some (Frame_Complete (pre @ concat (map resp_bulk_string vs)), post)"
  using assms
proof (induction vs arbitrary: pre)
  case Nil
  then show ?case by (simp add: drained_def drain_def)
next
  case (Cons v vs)
  then show ?case
    using redis_bulk_frames_step [of v pre "concat (map resp_bulk_string vs) @ post" "length vs"]
      Cons.IH [of "pre @ resp_bulk_string v"]
    by simp
qed

lemma redis_frame_written:
  assumes "command_in_limits vs" "length (resp_bulk_array vs @ post) \<le> MAX_REDIS_FRAME_SIZE"
  shows "extract_redis_frame (resp_bulk_array vs @ post) = Some (Frame_Complete (resp_bulk_array vs), post)"
proof -
  let ?n = "show_dec (length vs)" and ?body = "concat (map resp_bulk_string vs)"
  let ?data = "resp_bulk_array vs @ post"
  have data: "?data = (0x2A # ?n) @ CRLF @ ?body @ post" by (simp add: resp_bulk_array_alt)
  have "0x0D \<notin> set (0x2A # ?n)" using digits_no_cr [OF show_dec_all_digits] by simp
  then have crlf: "frame_find_crlf_from ?data 0 = Some (Suc (length ?n))"
    unfolding data frame_find_crlf_from_eq resp_find_crlf_from_eq [symmetric]
    using resp_find_crlf_from_here [of "0x2A # ?n" "[]" "?body @ post"] by simp
  have raw: "slice ?data 1 (Suc (length ?n)) = Some ?n"
    using slice_middle [of _ "[0x2A]" _ ?n "CRLF @ ?body @ post"] by (simp add: data)
  have limits: "vs \<noteq> []" "length vs \<le> MAX_REDIS_ARRAY_COUNT" "frame_resp_array_count ?n = Some (length vs)"
    "list_all (\<lambda>v. length v \<le> MAX_REDIS_BULK_SIZE) vs"
    using assms(1) by (simp_all add: command_in_limits_def MAX_REDIS_ARRAY_COUNT_def MAX_REDIS_BULK_SIZE_def
        frame_resp_array_count_def parse_digits_def dec_value_show_dec usize_max_def)
  have "redis_bulk_frames ?data (length vs) (Suc (length ?n) + 2) = Some (Frame_Complete (resp_bulk_array vs), post)"
    using redis_bulk_frames_strings [OF limits(4), of "(0x2A # ?n) @ CRLF" post] assms(2)
    by (simp add: resp_bulk_array_alt CRLF_def)
  then have "extract_redis_resp_array_frame ?data = Some (Frame_Complete (resp_bulk_array vs), post)"
    unfolding extract_redis_resp_array_frame_def crlf using raw limits by simp
  moreover have "idx ?data 0 = Some 0x2A" "resp_bulk_array vs \<noteq> []" by (simp_all add: data idx_def resp_bulk_array_alt)
  ultimately show ?thesis using assms(2) by (simp add: extract_redis_frame_def)
qed

lemma redis_stream_loop:
  assumes "list_all command_in_limits cmds" "length (concat (map resp_bulk_array cmds)) \<le> MAX_REDIS_FRAME_SIZE"
  shows "frame_loop (named_frame js Mode_Redis) (concat (map resp_bulk_array cmds)) =
    Some (map resp_bulk_array cmds, (Frame_Incomplete, []))"
  using assms
proof (induction cmds)
  case Nil
  then show ?case using named.start [of js Mode_Redis] by (simp add: frame_loop_stop)
next
  case (Cons c cs)
  have "\<not> has_tls_record_prefix (concat (map resp_bulk_array (c # cs)))"
    by (simp add: has_tls_record_prefix_def resp_bulk_array_alt)
  then have "named_frame js Mode_Redis (concat (map resp_bulk_array (c # cs))) =
      Some (Frame_Complete (resp_bulk_array c), concat (map resp_bulk_array cs))"
    using redis_frame_written [of c "concat (map resp_bulk_array cs)"] Cons.prems by (simp add: named_frame_def)
  with Cons show ?case by (simp add: frame_loop_frame)
qed

lemma parse_one_command:
  assumes "command_in_limits c" "length (resp_bulk_array c) \<le> MAX_REDIS_FRAME_SIZE"
  shows "parse_resp (resp_bulk_array c) = Some (Some [c])"
  using parse_resp_written [of "[c]"] assms
  by (simp add: MAX_RESP_COMMANDS_def MAX_RESP_FRAME_SIZE_def MAX_REDIS_FRAME_SIZE_def)


lemma redis_mode: "fixed_mode (bstr ''redis'') False True = Some (Some Mode_Redis)"
  by (simp add: bstr_def name_tests)


section \<open>SOCKS\<close>

lemma socks_mode: "fixed_mode (bstr ''socks'') False ssh = Some (Some Mode_Socks)"
  by (cases ssh) (simp_all add: bstr_def name_tests)

lemmas socks_simps = connection_frame_fixed [OF socks_mode] frame_loop.simps named_frame_def has_tls_record_prefix_def
  extract_socks_frame_def extract_socks5_frame_def optional_frame_def drained_opt_def drain_def cleared_def
  kept_def extract_immediate_frame_def checked_add_def usize_max_def


end
