(* ===== verification/Spec2Isabelle.thy ===== *)
theory Spec2Isabelle
  imports Core_Text Core_Net Flow_Manager_Props Policy Router Ldap Mqtt_Session Tftp_Lockstep Intercept
    Redis_Auth Redis_Glob Framing_Segments
begin

text \<open>
  A verification library for NetTrap, a network trap for malware analysis. Traffic of a sample is
  captured, assigned to flows, decided by a policy, routed by content to a protocol handler that
  emulates a server, and recorded in capture files. The library models the parts that decide,
  parse, answer and record; every definition follows the Rust function of the same name.

  \<^bold>\<open>Parts of the program and their theories\<close> (paths under \<open>src/crates\<close>)

  \<^item> \<open>Prelude\<close>, \<open>Rust_Text\<close>, \<open>Rust_Net\<close>, \<open>Rust_Bits\<close>, \<open>Rust_Buffers\<close>: the Rust language and
    standard library as the sources use them. A computation that may panic has type \<open>'a rs\<close> (an
    option whose \<open>None\<close> is the panic), fixed-width integers are words, a \<open>usize\<close> is a natural number
    with explicit bounds at the checked operations, a string is its UTF-8 byte list with \<open>chars\<close> for
    its scalar values. \<open>wp\<close> (total correctness) and \<open>wlp\<close> (partial correctness) are the calculus in
    which absence of panics and results are proved.
  \<^item> \<open>Core_Text\<close>, \<open>Core_Net\<close>: \<open>nettrap-core\<close> (\<open>parse.rs\<close>, \<open>sanitize.rs\<close>, \<open>timestamp.rs\<close>,
    \<open>protocol.rs\<close>, \<open>packet.rs\<close>, \<open>process.rs\<close>, \<open>flow.rs\<close>): text used in logs and configuration, and
    the records of packets, five-tuples and flow counters.
  \<^item> \<open>Flow_State\<close>: \<open>nettrap-flow/src/flow.rs\<close> and \<open>state.rs\<close>, one flow with its TCP tracker.
    \<open>Flow_Manager\<close>: \<open>manager.rs\<close>, the flow table with its index by identifier, its creation order and
    its statistics. \<open>Flow_Manager_Inv\<close> proves the invariant of the table for every operation;
    \<open>Flow_Manager_Props\<close> states what callers rely on. \<open>Keyed_Map\<close> is the interface of the hash maps
    (\<open>DashMap\<close>, \<open>HashMap\<close>), shared with the TFTP transfers.
  \<^item> \<open>Policy\<close>: \<open>nettrap-engine/src/policy.rs\<close>, the ordered rules that decide what happens to a flow.
  \<^item> \<open>Taste_Text\<close>, \<open>Taste_Redis\<close>, \<open>Taste_Http\<close>, \<open>Taste_Binary\<close>, \<open>Taste_Records\<close>, \<open>Taste_Ber\<close>,
    \<open>Taste_Db\<close>, \<open>Taste_Mqtt\<close>, \<open>Taste\<close>: \<open>nettrap-proxy/src/taste.rs\<close> and \<open>taste/\<close>, the detectors
    that score a sample of a connection for each protocol. \<open>Router\<close>: \<open>router.rs\<close>, the choice of a
    handler from the scores and the configured defaults.
  \<^item> \<open>Ldap\<close>: \<open>nettrap-proto-ldap\<close>, the LDAP server. \<open>Mqtt\<close> and \<open>Mqtt_Session\<close>:
    \<open>nettrap-proto-mqtt\<close>, the MQTT broker and its sessions.
  \<^item> \<open>Redis_Resp\<close>: \<open>nettrap-proto-redis/src/handler/parser.rs\<close>, batches of commands.
    \<open>Redis_Replies\<close>: the answers that depend on the arguments only (\<open>handler.rs\<close>,
    \<open>collections.rs\<close>, \<open>sorted_sets.rs\<close>). \<open>Redis\<close>: the connection state (\<open>state.rs\<close>, \<open>client.rs\<close>),
    the command table and the loop over a batch. \<open>Redis_Format\<close> is a reference reader and writer of
    RESP values; \<open>Redis_Session\<close>, \<open>Redis_Auth\<close> and \<open>Redis_Glob\<close> hold the theorems on whole
    sessions, on authentication and on the patterns of \<open>CONFIG GET\<close>.
  \<^item> \<open>Tcp_Framing\<close>: \<open>nettrap-cli/src/listeners/tcp_framing.rs\<close>, one function per protocol that takes
    the next frame from the buffer of a connection. \<open>Http_Framing\<close>: \<open>tcp_framing/http.rs\<close>, requests with
    \<open>Content-Length\<close> and chunked bodies. \<open>Tcp_Modes\<close>: the choice of the function from listener name,
    port, first bytes and router. \<open>Framing_Safe\<close> proves the contract of every function;
    \<open>Framing_Stream\<close>, \<open>Http_Stream\<close> and \<open>Framing_Segments\<close> treat a stream that arrives in segments.
    \<open>frame_loop\<close> and \<open>feed\<close> are the framing skeleton of the loops in \<open>tcp_handler/plain.rs\<close> and
    \<open>wrapped.rs\<close>, without the handlers, the flags of the session fixed.
  \<^item> \<open>Tftp\<close>: \<open>nettrap-proto-tftp\<close>, packets and requests. \<open>Tftp_Transfers\<close>:
    \<open>nettrap-cli/src/listeners/udp_tftp.rs\<close>, the table of running transfers, uploads to disk,
    time-outs and limits. \<open>Tftp_Props\<close> and \<open>Tftp_Lockstep\<close> hold the theorems on single datagrams
    and on whole transfers.
  \<^item> \<open>Pcap_Encode\<close>: \<open>nettrap-pcap/src/pcap/encoding.rs\<close>, IP packets with their checksums.
    \<open>Pcap_File\<close>: \<open>pcap.rs\<close>, writer and reader of capture files. \<open>Pcap_Roundtrip\<close>: the reader undoes
    the writer. \<open>Intercept\<close>: \<open>nettrap-interceptor/src/pcap.rs\<close>, decoding of live frames, compared
    with the reader of files.

  The parts meet at these points: the five-tuple of \<open>Core_Net\<close> is the key of the flow table and the
  endpoint data of a captured packet; the router runs the detectors of \<open>Taste\<close>; framing asks the router for
  a mode and gives its frames to the handlers (for Redis the theorem on streams connects framing and parser); the LDAP, MQTT,
  Redis and TFTP handlers read the formats that the detectors recognise, and the theorems on agreement compare
  the two readers of one format.

  \<^bold>\<open>Interfaces.\<close> \<open>keyed_map\<close> (laws of a hash map; interpreted by association lists),
  \<open>frame_parser\<close> (a function that ends a frame inside its sample; interpreted by the Redis, MySQL,
  PostgreSQL and SSLv2 frames), \<open>bounded_tlv_reader\<close> and its extension \<open>tlv_reader\<close> (BER elements;
  interpreted by the readers of the detector and of the LDAP handler), \<open>scan_body\<close> (the body of a loop
  over MQTT properties or topics that moves forward; interpreted by every such loop of the detector and
  of the broker), \<open>framer\<close> (a framing function with its contract; interpreted by the connection with
  the default router) and its extension \<open>stream_framer\<close> (answers that more bytes do not change;
  interpreted by the framing modes and by listeners whose name fixes the mode), and \<open>routing\<close> (a list of detectors with bounded scores that do not panic; interpreted
  by the default list).

  \<^bold>\<open>What the theorems show\<close>

  \<^item> Flow table: after any sequence of calls its four structures agree, stay within capacity and the
    counters add up; eviction is first in, first out; a cleanup pass removes exactly the expired flows;
    updates cannot corrupt the indexes. Two five-tuples with the same 64-bit hash share a flow.
  \<^item> TCP tracker: an established connection has seen the whole handshake.
  \<^item> Policy: the first matching rule decides.
  \<^item> Router: no sample makes it panic, the first best score wins, and UDP traffic is given only to
    handlers that serve UDP.
  \<^item> LDAP: answers decode to the identifier of the request; the only panic is on a search request
    with controls, shown on a concrete message.
  \<^item> MQTT: every session is a run of a small automaton, every answer is one complete frame, the length
    field round-trips and is read alike by broker and detector.
  \<^item> Redis: the parser keeps its limits on every input and reads back what a client writes; over any
    buffers no panic and a consistent connection state; every response is a sequence of RESP values,
    except the answer to \<open>CLIENT HELP\<close>, which no client can read; without credentials a protected
    handler gives refusals only, up to a \<open>HELLO\<close> that names itself \<open>AUTH\<close>; the pattern matcher
    computes the meaning of patterns.
  \<^item> Framing: for every listener, port and buffer a mode is chosen and a frame is taken without a panic;
    frames and waiting bytes are exactly the stream, with a bound on the latter; for the modes listed in
    \<open>stream_fits\<close> the frames do not depend on the segments, while those of SOCKS5 do, shown on a
    greeting; the commands of a Redis client become one frame each.
  \<^item> TFTP: over any datagrams and failures of the file system no panic and an invariant of the transfer
    table; uploads and downloads in lock step move exactly the content; uploads create only new files
    below the root; packets round-trip; detector and server accept the same requests.
  \<^item> Capture files: what was written is read back; all checksums verify; the reader returns on every
    input, with well-formed packets only; live decoding agrees with the reader except on raw links,
    where IPv6 packets are dropped.
  \<^item> Text: logged bytes are one bounded line without control characters; accepted domains are exactly
    the well-formed ones.

  \<^bold>\<open>Parameters.\<close> Code that is not part of the repository is an argument of the definitions:
  \<open>world\<close> (clock, instants, identifiers, the hash of five-tuples and the iteration order of the map;
  \<open>iter_ok\<close> says that iteration visits each entry once, and identifiers are assumed distinct where a
  theorem says so), \<open>json_parser\<close> and \<open>json_stream\<close> (\<open>serde_json\<close>, a whole text and
  the first value of a stream), \<open>flag_ops\<close> with \<open>flag_ops_ok\<close> (\<open>bitflags\<close>),
  \<open>chrono_ops\<close> with \<open>chrono_ok\<close> (\<open>chrono\<close>), \<open>fresh\<close> (identifier and time of a packet read from a
  file), \<open>redis_clock\<close> (uptime and time of day at each command), and what the operating system answers: \<open>tftp_env\<close> and \<open>tftp_disk\<close> (opening, creating and
  writing files, the time of a datagram), \<open>pcap_source\<close> (the capture file that is opened).

  \<^bold>\<open>Loops and bounds.\<close> Loops are total functions with a measure, except three:
  \<open>mqtt_scan\<close>, which ends for every body that moves forward (proved in \<open>scan_body\<close> and supplied by the
  interpretations), \<open>read_records\<close>, whose termination on every input is part of the theorem
  \<open>read_file_returns\<close>, and \<open>frame_loop\<close>, which ends for every \<open>framer\<close> and so on every connection
  (\<open>connection_frames_exact\<close>). No fuel is used. \<open>usize_max\<close> is \<open>2^64 - 1\<close>; frames are assumed to be shorter
  than that by the 200000 bytes that header fields of at most 16 bits can add to a position.

  \<^bold>\<open>Not modelled.\<close> Locks and tasks: the operations of the flow table, the router and the handlers
  are sequential state transformers, one call at a time. Logging (\<open>tracing\<close>) and metrics have no effect
  on the modelled state. Sockets, accept loops, the dispatch of frames and relays of \<open>nettrap-cli\<close> and \<open>nettrap-proxy\<close>,
  the capture device, packet queues and drivers (\<open>nettrap-interceptor\<close>, \<open>nettrap-windivert\<close>), process
  attribution from operating system tables, TLS interception, storage, the web interface, report
  delivery and configuration files are input and output through third-party crates. The remaining
  protocol handlers (\<open>nettrap-proto-*\<close> other than LDAP, MQTT, Redis and TFTP) are independent of the modelled
  parts; what the router recognises of their protocols is modelled with the detectors.
\<close>

end
